(* ===== verification/Rust_Text.thy ===== *)
theory Rust_Text
  imports Prelude "HOL-Library.List_Lexorder" "HOL-Library.Char_ord"
begin

text \<open>
  Rust strings. A \<open>String\<close> is a sequence of bytes that is valid UTF-8; here it is
  the \<open>string\<close> of these bytes, so \<open>length\<close> is Rust's \<open>len()\<close>, the order is
  Rust's byte order and literals are written as they are in the source. Operations
  on \<open>char\<close>s (\<open>trim\<close>, \<open>is_control\<close>, \<open>is_whitespace\<close>) first cut the bytes
  into encoded characters.
\<close>

section \<open>UTF-8\<close>

definition byte_val :: "char \<Rightarrow> nat" where
  "byte_val c = of_char c"

text \<open>Width of an encoded character, read off its first byte.\<close>

definition utf8_width :: "char \<Rightarrow> nat" where
  "utf8_width c =
     (let b = byte_val c in
      if b < 128 then 1 else if b < 224 then 2 else if b < 240 then 3 else 4)"

function utf8_chunks :: "string \<Rightarrow> string list" where
  "utf8_chunks [] = []"
| "utf8_chunks (c # cs) =
     (let n = utf8_width c - 1 in (c # take n cs) # utf8_chunks (drop n cs))"
  by pat_completeness auto
termination
  by (relation "measure length") auto

lemma concat_utf8_chunks [simp]: "concat (utf8_chunks s) = s"
  by (induction s rule: utf8_chunks.induct) (simp_all add: Let_def)

lemma utf8_chunks_nonempty: "ch \<in> set (utf8_chunks s) \<Longrightarrow> ch \<noteq> []"
  by (induction s rule: utf8_chunks.induct) (auto simp: Let_def)

lemma utf8_chunks_Nil [simp]: "utf8_chunks s = [] \<longleftrightarrow> s = []"
  by (cases s) (simp_all add: Let_def)

text \<open>The Unicode scalar value of one encoded character.\<close>

fun code_point :: "string \<Rightarrow> nat" where
  "code_point [a] = byte_val a"
| "code_point [a, b] = (byte_val a mod 32) * 64 + byte_val b mod 64"
| "code_point [a, b, c] =
     (byte_val a mod 16) * 4096 + (byte_val b mod 64) * 64 + byte_val c mod 64"
| "code_point [a, b, c, d] =
     (byte_val a mod 8) * 262144 + (byte_val b mod 64) * 4096
       + (byte_val c mod 64) * 64 + byte_val d mod 64"
| "code_point _ = 0"

definition chars :: "string \<Rightarrow> nat list" where
  "chars s = map code_point (utf8_chunks s)"

text \<open>\<open>char::is_control\<close>: the general category Cc.\<close>

definition is_control :: "nat \<Rightarrow> bool" where
  "is_control c \<longleftrightarrow> c < 32 \<or> (127 \<le> c \<and> c < 160)"

text \<open>\<open>char::is_whitespace\<close>: the Unicode property White\_Space.\<close>

definition is_whitespace :: "nat \<Rightarrow> bool" where
  "is_whitespace c \<longleftrightarrow>
     (9 \<le> c \<and> c \<le> 13) \<or> c = 32 \<or> c = 133 \<or> c = 160 \<or> c = 5760
     \<or> (8192 \<le> c \<and> c \<le> 8202) \<or> c = 8232 \<or> c = 8233 \<or> c = 8239 \<or> c = 8287 \<or> c = 12288"

definition has_control :: "string \<Rightarrow> bool" where
  "has_control s \<longleftrightarrow> list_ex is_control (chars s)"

definition has_whitespace :: "string \<Rightarrow> bool" where
  "has_whitespace s \<longleftrightarrow> list_ex is_whitespace (chars s)"

text \<open>\<open>c.is_control() \&\& !matches!(c, '\n' | '\r' | '\t')\<close>\<close>

definition is_bad_control :: "nat \<Rightarrow> bool" where
  "is_bad_control c \<longleftrightarrow> is_control c \<and> c \<noteq> 10 \<and> c \<noteq> 13 \<and> c \<noteq> 9"

definition has_bad_control :: "string \<Rightarrow> bool" where
  "has_bad_control s \<longleftrightarrow> list_ex is_bad_control (chars s)"

definition contains_nul :: "string \<Rightarrow> bool" where
  "contains_nul s \<longleftrightarrow> list_ex (\<lambda>c. byte_val c = 0) s"

section \<open>Trimming\<close>

definition blank_chunk :: "string \<Rightarrow> bool" where
  "blank_chunk ch \<longleftrightarrow> is_whitespace (code_point ch)"

definition trim_start :: "string \<Rightarrow> string" where
  "trim_start s = concat (dropWhile blank_chunk (utf8_chunks s))"

definition trim :: "string \<Rightarrow> string" where
  "trim s =
     concat (rev (dropWhile blank_chunk (rev (dropWhile blank_chunk (utf8_chunks s)))))"

definition is_blank :: "string \<Rightarrow> bool" where
  "is_blank s \<longleftrightarrow> trim s = []"

lemma concat_eq_Nil_nonempty: "(\<And>x. x \<in> set xs \<Longrightarrow> x \<noteq> []) \<Longrightarrow> concat xs = [] \<longleftrightarrow> xs = []"
  by (cases xs) auto

text \<open>\<open>s.trim().is_empty()\<close> says that every character is white space.\<close>

lemma is_blank_iff: "is_blank s \<longleftrightarrow> list_all is_whitespace (chars s)"
proof -
  let ?d = "dropWhile blank_chunk (utf8_chunks s)"
  let ?e = "rev (dropWhile blank_chunk (rev ?d))"
  have ne: "x \<noteq> []" if "x \<in> set ?e" for x
  proof -
    from that have "x \<in> set (utf8_chunks s)"
      by (metis set_dropWhileD set_rev)
    then show ?thesis by (rule utf8_chunks_nonempty)
  qed
  have "trim s = [] \<longleftrightarrow> ?e = []"
    unfolding trim_def by (rule concat_eq_Nil_nonempty) (rule ne)
  also have "\<dots> \<longleftrightarrow> (\<forall>x \<in> set ?d. blank_chunk x)"
    by auto
  also have "\<dots> \<longleftrightarrow> (\<forall>x \<in> set (utf8_chunks s). blank_chunk x)"
    by (metis dropWhile_eq_Nil_conv hd_dropWhile list.set_sel(1) set_dropWhileD)
  finally show ?thesis
    by (simp add: is_blank_def chars_def list_all_iff blank_chunk_def)
qed

lemma is_blank_Nil [simp]: "is_blank []"
  by (simp add: is_blank_def trim_def)

section \<open>Byte classes\<close>

definition byte_in :: "nat \<Rightarrow> nat \<Rightarrow> char \<Rightarrow> bool" where
  "byte_in lo hi c \<longleftrightarrow> lo \<le> byte_val c \<and> byte_val c \<le> hi"

definition is_ascii_digit :: "char \<Rightarrow> bool" where
  "is_ascii_digit c \<longleftrightarrow> byte_in 48 57 c"

definition is_ascii_lowercase :: "char \<Rightarrow> bool" where
  "is_ascii_lowercase c \<longleftrightarrow> byte_in 97 122 c"

definition is_ascii_uppercase :: "char \<Rightarrow> bool" where
  "is_ascii_uppercase c \<longleftrightarrow> byte_in 65 90 c"

definition is_ascii_alphanumeric :: "char \<Rightarrow> bool" where
  "is_ascii_alphanumeric c \<longleftrightarrow>
     is_ascii_digit c \<or> is_ascii_lowercase c \<or> is_ascii_uppercase c"

definition is_ascii_hexdigit :: "char \<Rightarrow> bool" where
  "is_ascii_hexdigit c \<longleftrightarrow> is_ascii_digit c \<or> byte_in 97 102 c \<or> byte_in 65 70 c"

section \<open>Plain text\<close>

text \<open>Visible ASCII, which most identifiers are: one byte a character, nothing to trim.\<close>

definition plain :: "string \<Rightarrow> bool" where
  "plain s \<longleftrightarrow> list_all (byte_in 33 126) s"

lemma plain_chunks: "plain s \<Longrightarrow> utf8_chunks s = map (\<lambda>c. [c]) s"
  by (induction s) (auto simp: plain_def byte_in_def utf8_width_def Let_def)

lemma plain_dropWhile:
  "plain s \<Longrightarrow> dropWhile blank_chunk (map (\<lambda>c. [c]) s) = map (\<lambda>c. [c]) s"
  by (cases s) (auto simp: plain_def blank_chunk_def byte_in_def is_whitespace_def)

lemma plain_rev [simp]: "plain (rev s) = plain s"
  by (simp add: plain_def)

lemma plain_trim: "plain s \<Longrightarrow> trim s = s"
  using plain_dropWhile [of s] plain_dropWhile [of "rev s"]
  by (simp add: trim_def plain_chunks rev_map [symmetric])

lemma plain_no_control: "plain s \<Longrightarrow> \<not> has_control s"
  by (auto simp: has_control_def chars_def plain_chunks list_ex_iff is_control_def plain_def
      byte_in_def list_all_iff)

lemma plain_no_bad_control: "plain s \<Longrightarrow> \<not> has_bad_control s"
  by (auto simp: has_bad_control_def chars_def plain_chunks list_ex_iff is_bad_control_def
      is_control_def plain_def byte_in_def list_all_iff)

lemma plain_no_whitespace: "plain s \<Longrightarrow> \<not> has_whitespace s"
  by (auto simp: has_whitespace_def chars_def plain_chunks list_ex_iff is_whitespace_def plain_def
      byte_in_def list_all_iff)

lemma plain_no_nul: "plain s \<Longrightarrow> \<not> contains_nul s"
  by (auto simp: contains_nul_def list_ex_iff plain_def byte_in_def list_all_iff)

lemma plain_is_blank: "plain s \<Longrightarrow> is_blank s \<longleftrightarrow> s = []"
  by (simp add: is_blank_def plain_trim)

lemmas plain_simps =
  plain_trim plain_no_control plain_no_bad_control plain_no_whitespace plain_no_nul plain_is_blank

text \<open>What evaluates a literal.\<close>

lemmas plain_eval = plain_def byte_in_def byte_val_def

section \<open>Cutting at a byte bound\<close>

text \<open>
  \<open>str::is_char_boundary\<close>: an offset past the end is none, the end is one, and so
  is every offset whose byte does not continue an encoded character.
\<close>

definition is_char_boundary :: "string \<Rightarrow> nat \<Rightarrow> bool" where
  "is_char_boundary s i \<longleftrightarrow>
     i = 0 \<or> i = length s
     \<or> (i < length s \<and> \<not> (128 \<le> byte_val (s ! i) \<and> byte_val (s ! i) < 192))"

text \<open>\<open>str::split\<close> on one byte: the parts between its occurrences.\<close>

fun split_on :: "char \<Rightarrow> string \<Rightarrow> string list" where
  "split_on d [] = [[]]"
| "split_on d (c # cs) =
     (if c = d then [] # split_on d cs
      else case split_on d cs of [] \<Rightarrow> [[c]] | p # ps \<Rightarrow> (c # p) # ps)"

lemma split_on_nonempty: "split_on d s \<noteq> []"
  by (induction s) (auto split: list.splits)

text \<open>\<open>join\<close>\<close>

fun join_with :: "string \<Rightarrow> string list \<Rightarrow> string" where
  "join_with sep [] = []"
| "join_with sep [s] = s"
| "join_with sep (s # t # ss) = s @ sep @ join_with sep (t # ss)"

end
