(* ===== verification/Ordered_Map.thy ===== *)
theory Ordered_Map
  imports Rust_Text
begin

text \<open>
  \<open>BTreeMap\<close> and \<open>BTreeSet\<close>: association lists in strictly ascending key order,
  which is the order their iterators follow. \<open>HashMap\<close>s of the code whose
  iteration order is never observed are kept in the same representation. The locale
  \<open>ordered_map\<close> is the interface the components rely on; the model's own
  operations interpret it.
\<close>

section \<open>The interface\<close>

locale ordered_map =
  fixes empty :: "'m"
    and get :: "'m \<Rightarrow> 'k::linorder \<Rightarrow> 'v option"
    and ins :: "'k \<Rightarrow> 'v \<Rightarrow> 'm \<Rightarrow> 'm"
    and rem :: "'k \<Rightarrow> 'm \<Rightarrow> 'm"
    and keys :: "'m \<Rightarrow> 'k list"
    and inv :: "'m \<Rightarrow> bool"
  assumes get_empty: "get empty k = None"
    and inv_empty: "inv empty"
    and get_ins: "inv m \<Longrightarrow> get (ins k v m) = (get m)(k \<mapsto> v)"
    and inv_ins: "inv m \<Longrightarrow> inv (ins k v m)"
    and get_rem: "inv m \<Longrightarrow> get (rem k m) = (get m)(k := None)"
    and inv_rem: "inv m \<Longrightarrow> inv (rem k m)"
    and set_keys: "inv m \<Longrightarrow> set (keys m) = dom (get m)"
    and sorted_keys: "inv m \<Longrightarrow> sorted_wrt (<) (keys m)"
    and ext: "inv m \<Longrightarrow> inv m' \<Longrightarrow> get m = get m' \<Longrightarrow> m = m'"
begin

lemma distinct_keys: "inv m \<Longrightarrow> distinct (keys m)"
  using sorted_keys by (auto simp: strict_sorted_iff)

lemma finite_dom: "inv m \<Longrightarrow> finite (dom (get m))"
  by (metis set_keys List.finite_set)

lemma card_dom: "inv m \<Longrightarrow> card (dom (get m)) = length (keys m)"
  by (metis set_keys distinct_keys distinct_card)

lemma length_keys_ins:
  assumes "inv m"
  shows "length (keys (ins k v m)) =
    (if get m k = None then Suc (length (keys m)) else length (keys m))"
proof -
  have "dom (get (ins k v m)) = insert k (dom (get m))"
    using assms by (simp add: get_ins)
  moreover have "finite (dom (get m))"
    using assms by (rule finite_dom)
  ultimately show ?thesis
    using assms by (auto simp: card_dom [symmetric] inv_ins card_insert_if domIff)
qed

lemma rem_ins_fresh:
  assumes "inv m" "get m k = None"
  shows "rem k (ins k v m) = m"
proof (rule ext)
  show "inv (rem k (ins k v m))" using assms by (simp add: inv_rem inv_ins)
  show "inv m" by (rule assms)
  show "get (rem k (ins k v m)) = get m"
    using assms by (auto simp: get_rem get_ins inv_ins)
qed

lemma keys_eq_if_dom_eq:
  assumes "inv m" "inv m'" "dom (get m) = dom (get m')"
  shows "keys m = keys m'"
  using assms sorted_keys set_keys
  by (metis sorted_distinct_set_unique strict_sorted_iff)

end

section \<open>The representation\<close>

type_synonym ('k, 'v) btree_map = "('k \<times> 'v) list"

definition bt_empty :: "('k, 'v) btree_map" where
  "bt_empty = []"

definition bt_get :: "('k, 'v) btree_map \<Rightarrow> 'k \<Rightarrow> 'v option" where
  "bt_get m k = map_of m k"

fun bt_insert :: "'k::linorder \<Rightarrow> 'v \<Rightarrow> ('k, 'v) btree_map \<Rightarrow> ('k, 'v) btree_map" where
  "bt_insert k v [] = [(k, v)]"
| "bt_insert k v ((k', v') # m) =
     (if k < k' then (k, v) # (k', v') # m
      else if k = k' then (k, v) # m
      else (k', v') # bt_insert k v m)"

definition bt_remove :: "'k \<Rightarrow> ('k, 'v) btree_map \<Rightarrow> ('k, 'v) btree_map" where
  "bt_remove k m = filter (\<lambda>p. fst p \<noteq> k) m"

definition bt_contains :: "('k, 'v) btree_map \<Rightarrow> 'k \<Rightarrow> bool" where
  "bt_contains m k \<longleftrightarrow> bt_get m k \<noteq> None"

definition bt_keys :: "('k, 'v) btree_map \<Rightarrow> 'k list" where
  "bt_keys m = map fst m"

definition bt_values :: "('k, 'v) btree_map \<Rightarrow> 'v list" where
  "bt_values m = map snd m"

definition bt_inv :: "('k::linorder, 'v) btree_map \<Rightarrow> bool" where
  "bt_inv m \<longleftrightarrow> sorted_wrt (<) (map fst m)"

lemma bt_contains_iff [simp]: "bt_contains m k \<longleftrightarrow> (\<exists>v. bt_get m k = Some v)"
  by (simp add: bt_contains_def)

lemma map_of_bt_insert: "bt_inv m \<Longrightarrow> map_of (bt_insert k v m) = (map_of m)(k \<mapsto> v)"
proof (induction k v m rule: bt_insert.induct)
  case (1 k v)
  show ?case by simp
next
  case (2 k v k' v' m)
  then show ?case by (auto simp: bt_inv_def)
qed

lemma fst_set_bt_insert: "fst ` set (bt_insert k v m) = insert k (fst ` set m)"
  by (induction k v m rule: bt_insert.induct) auto

lemma bt_inv_insert: "bt_inv m \<Longrightarrow> bt_inv (bt_insert k v m)"
proof (induction k v m rule: bt_insert.induct)
  case (1 k v)
  show ?case by (simp add: bt_inv_def)
next
  case (2 k v k' v' m)
  have sub: "fst ` set (bt_insert k v m) = insert k (fst ` set m)"
    by (rule fst_set_bt_insert)
  from 2 sub show ?case
    by (auto simp: bt_inv_def)
qed

lemma bt_inv_distinct: "bt_inv m \<Longrightarrow> distinct (map fst m)"
  by (simp add: bt_inv_def strict_sorted_iff)

lemma map_of_filter_ne: "map_of (filter (\<lambda>p. fst p \<noteq> k) m) = (map_of m)(k := None)"
  by (induction m) auto

lemma bt_inv_filter: "bt_inv m \<Longrightarrow> bt_inv (filter P m)"
  unfolding bt_inv_def by (induction m) auto

lemma bt_inv_inj: "bt_inv m \<Longrightarrow> inj_on fst (set m)"
  using bt_inv_distinct [of m] by (simp add: distinct_map)

lemma bt_ext:
  assumes "bt_inv m" "bt_inv m'" "bt_get m = bt_get m'"
  shows "m = m'"
proof -
  have d: "distinct (map fst m)" "distinct (map fst m')"
    using assms(1,2) by (simp_all add: bt_inv_distinct)
  have "map_of m = map_of m'"
    using assms(3) by (auto simp: bt_get_def fun_eq_iff)
  then have "set m = set m'"
    using d by (simp add: map_of_inject_set)
  then show ?thesis
    using assms(1,2) d bt_inv_inj [OF assms(1)]
    by (intro map_sorted_distinct_set_unique [of fst])
      (auto simp: bt_inv_def strict_sorted_iff)
qed

interpretation bt: ordered_map bt_empty bt_get bt_insert bt_remove bt_keys bt_inv
proof (unfold_locales, goal_cases)
  case (1 k) show ?case by (simp add: bt_empty_def bt_get_def)
next
  case 2 show ?case by (simp add: bt_empty_def bt_inv_def)
next
  case (3 m k v) then show ?case by (auto simp: bt_get_def fun_eq_iff map_of_bt_insert)
next
  case (4 m k v) then show ?case by (rule bt_inv_insert)
next
  case (5 m k) show ?case
    by (auto simp: bt_get_def bt_remove_def fun_eq_iff map_of_filter_ne)
next
  case (6 m k) then show ?case by (simp add: bt_remove_def bt_inv_filter)
next
  case (7 m) then show ?case
    by (simp add: bt_keys_def bt_get_def [abs_def] dom_map_of_conv_image_fst)
next
  case (8 m) then show ?case by (simp add: bt_keys_def bt_inv_def)
next
  case (9 m m') then show ?case by (rule bt_ext)
qed

lemmas bt_map_simps [simp] =
  bt.get_empty bt.inv_empty bt.get_ins bt.inv_ins bt.get_rem bt.inv_rem

section \<open>Values and updates in place\<close>

lemma bt_get_in_set: "bt_inv m \<Longrightarrow> bt_get m k = Some v \<longleftrightarrow> (k, v) \<in> set m"
  by (simp add: bt_get_def bt_inv_distinct)

lemma bt_get_SomeD: "bt_get m k = Some v \<Longrightarrow> (k, v) \<in> set m"
  by (simp add: bt_get_def map_of_SomeD)

lemma bt_values_iff: "bt_inv m \<Longrightarrow> v \<in> set (bt_values m) \<longleftrightarrow> (\<exists>k. bt_get m k = Some v)"
  by (force simp: bt_values_def bt_get_in_set)

lemma bt_values_getI: "bt_get m k = Some v \<Longrightarrow> v \<in> set (bt_values m)"
  by (force simp: bt_values_def dest: bt_get_SomeD)

lemma bt_keys_iff: "bt_inv m \<Longrightarrow> k \<in> set (bt_keys m) \<longleftrightarrow> (\<exists>v. bt_get m k = Some v)"
  by (simp add: bt.set_keys domIff)

lemma length_bt_keys [simp]: "length (bt_keys m) = length m"
  by (simp add: bt_keys_def)

lemma length_bt_insert:
  "bt_inv m \<Longrightarrow> length (bt_insert k v m) =
    (if bt_get m k = None then Suc (length m) else length m)"
  using bt.length_keys_ins [of m k v] by simp

lemma length_bt_remove: "length (bt_remove k m) \<le> length m"
  by (simp add: bt_remove_def)

text \<open>
  A set is a map to \<open>unit\<close>; \<open>set_insert\<close> also returns whether the element is
  new, as \<open>BTreeSet::insert\<close> does.
\<close>

type_synonym 'k btree_set = "('k, unit) btree_map"

definition set_insert :: "'k::linorder \<Rightarrow> 'k btree_set \<Rightarrow> bool \<times> 'k btree_set" where
  "set_insert k m = (\<not> bt_contains m k, bt_insert k () m)"

text \<open>\<open>xs.iter().collect::<BTreeSet<_>>().len() != xs.len()\<close>: a repeated element.\<close>

definition has_repeat :: "'k list \<Rightarrow> bool" where
  "has_repeat xs \<longleftrightarrow> length (remdups xs) \<noteq> length xs"

lemma has_repeat_iff [simp]: "has_repeat xs \<longleftrightarrow> \<not> distinct xs"
  by (simp add: has_repeat_def length_remdups_eq)

text \<open>What evaluates the operations on a literal map.\<close>

lemmas map_eval = bt_get_def bt_remove_def bt_empty_def bt_values_def less_char_def

end
