(* ===== verification/Plugin_Descriptor.thy ===== *)
theory Plugin_Descriptor
  imports Ordered_Map
begin

text \<open>
  Plugin metadata of the kernel (\<open>heycode-core\<close>: \<open>descriptor.rs\<close>, \<open>service.rs\<close>,
  the kinds of \<open>inventory.rs\<close> and the errors of \<open>error.rs\<close>). Identifiers are the
  strings of the source; a \<open>ServiceKey\<close> is the name it was built from. Rendered
  error messages are not modelled: an error value carries the data its message is
  rendered from, so the \<open>cause\<close> of a broken activation is the error itself.
\<close>

section \<open>Provenance, scope and families\<close>

datatype plugin_source = BuiltInSource | Unclassified

datatype plugin_scope = BuiltIn | User | Project | LocalProject | Session | Managed

fun precedence :: "plugin_scope \<Rightarrow> nat" where
  "precedence BuiltIn = 0"
| "precedence User = 1"
| "precedence Project = 2"
| "precedence LocalProject = 3"
| "precedence Session = 4"
| "precedence Managed = 5"

fun plugin_source_str :: "plugin_source \<Rightarrow> string" where
  "plugin_source_str BuiltInSource = ''built_in''"
| "plugin_source_str Unclassified = ''unclassified''"

fun plugin_scope_str :: "plugin_scope \<Rightarrow> string" where
  "plugin_scope_str BuiltIn = ''built_in''"
| "plugin_scope_str User = ''user''"
| "plugin_scope_str Project = ''project''"
| "plugin_scope_str LocalProject = ''local_project''"
| "plugin_scope_str Session = ''session''"
| "plugin_scope_str Managed = ''managed''"

text \<open>The derived order of \<open>PluginScope\<close> is its declaration order, which is the precedence.\<close>

lemma precedence_inj: "precedence a = precedence b \<Longrightarrow> a = b"
  by (cases a; cases b) simp_all

instantiation plugin_scope :: linorder
begin

definition less_eq_plugin_scope :: "plugin_scope \<Rightarrow> plugin_scope \<Rightarrow> bool" where
  "less_eq_plugin_scope a b \<longleftrightarrow> precedence a \<le> precedence b"

definition less_plugin_scope :: "plugin_scope \<Rightarrow> plugin_scope \<Rightarrow> bool" where
  "less_plugin_scope a b \<longleftrightarrow> precedence a < precedence b"

instance
  by intro_classes
    (auto simp: less_eq_plugin_scope_def less_plugin_scope_def dest: precedence_inj)

end

datatype plugin_contribution_kind =
    FamService | FamProvider | FamTool | FamCommand | FamPromptSection | FamWaterfall
  | FamUserInterface | FamExternalProcess | FamDiagnostic

record plugin_descriptor =
  pd_id :: string
  pd_version :: string
  pd_source :: plugin_source
  pd_contributions :: "plugin_contribution_kind list"

record applied_plugin =
  ap_descriptor :: plugin_descriptor
  ap_scope :: plugin_scope

definition built_in :: "string \<Rightarrow> string \<Rightarrow> plugin_contribution_kind list \<Rightarrow> plugin_descriptor" where
  "built_in i version contributions =
     \<lparr>pd_id = i, pd_version = version, pd_source = BuiltInSource,
      pd_contributions = contributions\<rparr>"

definition unclassified :: "string \<Rightarrow> plugin_descriptor" where
  "unclassified i =
     \<lparr>pd_id = i, pd_version = ''0.0.0-unclassified'', pd_source = Unclassified,
      pd_contributions = []\<rparr>"

section \<open>Service keys\<close>

text \<open>\<open>None\<close> is the panic of the assertions in \<open>ServiceKey::new\<close>.\<close>

definition service_key_byte :: "char \<Rightarrow> bool" where
  "service_key_byte b \<longleftrightarrow>
     is_ascii_lowercase b \<or> is_ascii_digit b \<or> b = CHR ''-'' \<or> b = CHR ''_'' \<or> b = CHR ''/''"

definition service_key_new :: "string \<Rightarrow> string option" where
  "service_key_new name =
     (if name = [] then None
      else if list_all service_key_byte name then Some name
      else None)"

section \<open>Exact contribution kinds\<close>

datatype contribution_kind =
    CkService | CkInferenceProvider | CkAgentRuntime | CkModelCatalog | CkCatalogPersistence
  | CkTokenCounter | CkCredentialProvider | CkAuthorizationFlow | CkSettingsProvider
  | CkSettingsNamespace | CkWebProvider | CkWebProcessor | CkTool | CkNativeTool
  | CkRequestTransform | CkCommand | CkPromptSection | CkSkill | CkAgentPreset
  | CkAgentPresetFallback | CkSubagentProvider | CkHook | CkTheme | CkMcpServer
  | CkInterceptionSeam | CkInterceptionLayer | CkUserInterface | CkUiSlot
  | CkExternalProcess | CkDoctorCheck | CkTelemetryMetric | CkAppServerMethod

text \<open>\<open>ContributionKind\<close> derives \<open>Ord\<close>: declaration order.\<close>

definition all_kinds :: "contribution_kind list" where
  "all_kinds =
     [CkService, CkInferenceProvider, CkAgentRuntime, CkModelCatalog, CkCatalogPersistence,
      CkTokenCounter, CkCredentialProvider, CkAuthorizationFlow, CkSettingsProvider,
      CkSettingsNamespace, CkWebProvider, CkWebProcessor, CkTool, CkNativeTool,
      CkRequestTransform, CkCommand, CkPromptSection, CkSkill, CkAgentPreset,
      CkAgentPresetFallback, CkSubagentProvider, CkHook, CkTheme, CkMcpServer,
      CkInterceptionSeam, CkInterceptionLayer, CkUserInterface, CkUiSlot,
      CkExternalProcess, CkDoctorCheck, CkTelemetryMetric, CkAppServerMethod]"

definition kind_rank :: "contribution_kind \<Rightarrow> nat" where
  "kind_rank k = length (takeWhile (\<lambda>k'. k' \<noteq> k) all_kinds)"

lemma all_kinds_complete: "k \<in> set all_kinds"
  by (cases k) (simp_all add: all_kinds_def)

lemma all_kinds_nth_rank: "all_kinds ! kind_rank k = k"
  unfolding kind_rank_def by (rule nth_first_occurrence) (rule all_kinds_complete)

lemma kind_rank_inj: "kind_rank a = kind_rank b \<Longrightarrow> a = b"
  by (metis all_kinds_nth_rank)

instantiation contribution_kind :: linorder
begin

definition less_eq_contribution_kind :: "contribution_kind \<Rightarrow> contribution_kind \<Rightarrow> bool" where
  "less_eq_contribution_kind a b \<longleftrightarrow> kind_rank a \<le> kind_rank b"

definition less_contribution_kind :: "contribution_kind \<Rightarrow> contribution_kind \<Rightarrow> bool" where
  "less_contribution_kind a b \<longleftrightarrow> kind_rank a < kind_rank b"

instance
  by intro_classes
    (auto simp: less_eq_contribution_kind_def less_contribution_kind_def dest: kind_rank_inj)

end

fun contribution_kind_str :: "contribution_kind \<Rightarrow> string" where
  "contribution_kind_str CkService = ''service''"
| "contribution_kind_str CkInferenceProvider = ''inference_provider''"
| "contribution_kind_str CkAgentRuntime = ''agent_runtime''"
| "contribution_kind_str CkModelCatalog = ''model_catalog''"
| "contribution_kind_str CkTokenCounter = ''token_counter''"
| "contribution_kind_str CkCatalogPersistence = ''catalog_persistence''"
| "contribution_kind_str CkCredentialProvider = ''credential_provider''"
| "contribution_kind_str CkAuthorizationFlow = ''authorization_flow''"
| "contribution_kind_str CkSettingsProvider = ''settings_provider''"
| "contribution_kind_str CkSettingsNamespace = ''settings_namespace''"
| "contribution_kind_str CkWebProvider = ''web_provider''"
| "contribution_kind_str CkWebProcessor = ''web_processor''"
| "contribution_kind_str CkTool = ''tool''"
| "contribution_kind_str CkNativeTool = ''native_tool''"
| "contribution_kind_str CkRequestTransform = ''request_transform''"
| "contribution_kind_str CkCommand = ''command''"
| "contribution_kind_str CkPromptSection = ''prompt_section''"
| "contribution_kind_str CkSkill = ''skill''"
| "contribution_kind_str CkAgentPreset = ''agent_preset''"
| "contribution_kind_str CkAgentPresetFallback = ''agent_preset_fallback''"
| "contribution_kind_str CkSubagentProvider = ''subagent_provider''"
| "contribution_kind_str CkHook = ''hook''"
| "contribution_kind_str CkTheme = ''theme''"
| "contribution_kind_str CkMcpServer = ''mcp_server''"
| "contribution_kind_str CkInterceptionSeam = ''interception_seam''"
| "contribution_kind_str CkInterceptionLayer = ''interception_layer''"
| "contribution_kind_str CkUserInterface = ''user_interface''"
| "contribution_kind_str CkUiSlot = ''ui_slot''"
| "contribution_kind_str CkExternalProcess = ''external_process''"
| "contribution_kind_str CkDoctorCheck = ''doctor_check''"
| "contribution_kind_str CkTelemetryMetric = ''telemetry_metric''"
| "contribution_kind_str CkAppServerMethod = ''app_server_method''"

text \<open>The broad family a descriptor must declare for a row of this kind.\<close>

fun descriptor_family :: "contribution_kind \<Rightarrow> plugin_contribution_kind" where
  "descriptor_family CkService = FamService"
| "descriptor_family CkSettingsNamespace = FamService"
| "descriptor_family CkInferenceProvider = FamProvider"
| "descriptor_family CkAgentRuntime = FamProvider"
| "descriptor_family CkModelCatalog = FamProvider"
| "descriptor_family CkTokenCounter = FamProvider"
| "descriptor_family CkCatalogPersistence = FamProvider"
| "descriptor_family CkCredentialProvider = FamProvider"
| "descriptor_family CkAuthorizationFlow = FamProvider"
| "descriptor_family CkSettingsProvider = FamProvider"
| "descriptor_family CkWebProvider = FamProvider"
| "descriptor_family CkWebProcessor = FamProvider"
| "descriptor_family CkRequestTransform = FamProvider"
| "descriptor_family CkTool = FamTool"
| "descriptor_family CkNativeTool = FamTool"
| "descriptor_family CkCommand = FamCommand"
| "descriptor_family CkPromptSection = FamPromptSection"
| "descriptor_family CkSkill = FamPromptSection"
| "descriptor_family CkAgentPreset = FamProvider"
| "descriptor_family CkAgentPresetFallback = FamProvider"
| "descriptor_family CkSubagentProvider = FamProvider"
| "descriptor_family CkHook = FamWaterfall"
| "descriptor_family CkInterceptionSeam = FamWaterfall"
| "descriptor_family CkInterceptionLayer = FamWaterfall"
| "descriptor_family CkTheme = FamUserInterface"
| "descriptor_family CkUserInterface = FamUserInterface"
| "descriptor_family CkUiSlot = FamUserInterface"
| "descriptor_family CkMcpServer = FamExternalProcess"
| "descriptor_family CkExternalProcess = FamExternalProcess"
| "descriptor_family CkDoctorCheck = FamDiagnostic"
| "descriptor_family CkTelemetryMetric = FamDiagnostic"
| "descriptor_family CkAppServerMethod = FamService"

record plugin_contribution_spec =
  spec_kind :: contribution_kind
  spec_name :: string

record plugin_contribution =
  pc_plugin :: string
  pc_kind :: contribution_kind
  pc_name :: string

section \<open>Errors\<close>

text \<open>
  \<open>residue_part\<close> is one part of the text \<open>ContextFingerprint::residue\<close> renders
  for a broken activation.
\<close>

datatype residue_part =
    ResServices "string list"
  | ResContributions "(contribution_kind \<times> string) list"
  | ResRecordedPlugins
  | ResPluginDescriptors
  | ResPendingEffects nat nat
  | ResEventListeners nat nat
  | ResContextState
  | ResInventoryUnavailable

datatype core_error =
    DuplicateService string string string \<comment> \<open>key, existing, claimant\<close>
  | MissingService string
  | DuplicatePlugin string
  | DescriptorIdMismatch string string \<comment> \<open>plugin, descriptor\<close>
  | UnsatisfiedInject string "string list" \<comment> \<open>plugin, missing\<close>
  | DuplicateContribution contribution_kind string string string
      \<comment> \<open>kind, name, existing, claimant\<close>
  | InvalidContribution string contribution_kind string \<comment> \<open>plugin, kind, name\<close>
  | ContributionFamilyMismatch string contribution_kind plugin_contribution_kind
  | ContributionOutsideApply
  | InventoryUnavailable
  | BrokenActivation string "residue_part list" core_error \<comment> \<open>plugin, residue, cause\<close>
  | PluginError string

end
