(* ===== verification/Plugin_Inventory.thy ===== *)
theory Plugin_Inventory
  imports Plugin_Descriptor
begin

text \<open>
  The exact contribution inventory (\<open>heycode-core/src/inventory.rs\<close>): the committed
  rows in declaration order and the successfully applied plugins. The shared
  \<open>Mutex\<close> is a state value; \<open>inv_poisoned\<close> records that its lock is poisoned,
  in which case every operation takes the code's error branch.
\<close>

record plugin_inventory =
  inv_plugins :: "applied_plugin list"
  inv_rows :: "plugin_contribution list"
  inv_poisoned :: bool

definition inventory_new :: plugin_inventory where
  "inventory_new = \<lparr>inv_plugins = [], inv_rows = [], inv_poisoned = False\<rparr>"

definition inventory_snapshot ::
  "plugin_inventory \<Rightarrow> core_error + (applied_plugin list \<times> plugin_contribution list)" where
  "inventory_snapshot reg =
     (if inv_poisoned reg then Inl InventoryUnavailable
      else Inr (inv_plugins reg, inv_rows reg))"

text \<open>\<open>name.is_empty() || name.trim() != name || name.len() > 256 || name.chars().any(char::is_control)\<close>\<close>

definition invalid_contribution_name :: "string \<Rightarrow> bool" where
  "invalid_contribution_name name \<longleftrightarrow>
     name = [] \<or> trim name \<noteq> name \<or> 256 < length name \<or> has_control name"

lemma plain_contribution_name:
  "plain name \<Longrightarrow> name \<noteq> [] \<Longrightarrow> length name \<le> 256 \<Longrightarrow> \<not> invalid_contribution_name name"
  by (simp add: invalid_contribution_name_def plain_simps)

definition inventory_contribute ::
  "plugin_inventory \<Rightarrow> string \<Rightarrow> plugin_contribution_spec \<Rightarrow> core_error + plugin_inventory" where
  "inventory_contribute reg plugin spec =
     (if invalid_contribution_name (spec_name spec)
      then Inl (InvalidContribution plugin (spec_kind spec) (spec_name spec))
      else if inv_poisoned reg then Inl InventoryUnavailable
      else case List.find (\<lambda>row. pc_kind row = spec_kind spec \<and> pc_name row = spec_name spec)
                  (inv_rows reg) of
        Some existing \<Rightarrow>
          Inl (DuplicateContribution (spec_kind spec) (spec_name spec) (pc_plugin existing) plugin)
      | None \<Rightarrow>
          Inr (reg\<lparr>inv_rows := inv_rows reg
            @ [\<lparr>pc_plugin = plugin, pc_kind = spec_kind spec, pc_name = spec_name spec\<rparr>]\<rparr>))"

text \<open>\<open>rollback\<close> truncates the rows; \<open>False\<close> says the shared state was unreachable.\<close>

definition inventory_rollback :: "nat \<Rightarrow> plugin_inventory \<Rightarrow> bool \<times> plugin_inventory" where
  "inventory_rollback contributions reg =
     (if inv_poisoned reg then (False, reg)
      else (True, reg\<lparr>inv_rows := take contributions (inv_rows reg)\<rparr>))"

definition family_mismatch :: "plugin_descriptor \<Rightarrow> plugin_contribution \<Rightarrow> bool" where
  "family_mismatch descriptor row \<longleftrightarrow>
     descriptor_family (pc_kind row) \<notin> set (pd_contributions descriptor)"

definition inventory_record_plugin ::
  "plugin_inventory \<Rightarrow> plugin_descriptor \<Rightarrow> plugin_scope \<Rightarrow> core_error + plugin_inventory" where
  "inventory_record_plugin reg descriptor scope =
     (if inv_poisoned reg then Inl InventoryUnavailable
      else
        let mismatch =
              (if pd_source descriptor \<noteq> Unclassified
               then List.find (family_mismatch descriptor)
                      (filter (\<lambda>row. pc_plugin row = pd_id descriptor) (inv_rows reg))
               else None)
        in case mismatch of
             Some row \<Rightarrow>
               Inl (ContributionFamilyMismatch (pd_id descriptor) (pc_kind row)
                      (descriptor_family (pc_kind row)))
           | None \<Rightarrow>
               Inr (reg\<lparr>inv_plugins := inv_plugins reg
                 @ [\<lparr>ap_descriptor = descriptor, ap_scope = scope\<rparr>]\<rparr>))"

section \<open>Invariant\<close>

text \<open>Every row has a valid name and no exact row is claimed twice.\<close>

definition row_id :: "plugin_contribution \<Rightarrow> contribution_kind \<times> string" where
  "row_id row = (pc_kind row, pc_name row)"

definition rows_wf :: "plugin_contribution list \<Rightarrow> bool" where
  "rows_wf rows \<longleftrightarrow>
     distinct (map row_id rows)
     \<and> (\<forall>row \<in> set rows. \<not> invalid_contribution_name (pc_name row))"

lemma rows_wf_Nil [simp]: "rows_wf []"
  by (simp add: rows_wf_def)

lemma rows_wf_take: "rows_wf rows \<Longrightarrow> rows_wf (take n rows)"
  by (auto simp: rows_wf_def take_map [symmetric] dest: in_set_takeD)

lemma inventory_contribute_Inr:
  "inventory_contribute reg plugin spec = Inr reg' \<longleftrightarrow>
     \<not> invalid_contribution_name (spec_name spec) \<and> \<not> inv_poisoned reg
     \<and> (spec_kind spec, spec_name spec) \<notin> row_id ` set (inv_rows reg)
     \<and> reg' = reg\<lparr>inv_rows := inv_rows reg
         @ [\<lparr>pc_plugin = plugin, pc_kind = spec_kind spec, pc_name = spec_name spec\<rparr>]\<rparr>"
  by (auto simp: inventory_contribute_def row_id_def image_iff
      split: option.splits dest!: find_SomeD) metis

lemma inventory_contribute_wf:
  "inventory_contribute reg plugin spec = Inr reg' \<Longrightarrow> rows_wf (inv_rows reg)
   \<Longrightarrow> rows_wf (inv_rows reg')"
  by (auto simp: inventory_contribute_Inr rows_wf_def row_id_def)

lemma inventory_record_plugin_Inr:
  "inventory_record_plugin reg descriptor scope = Inr reg' \<longleftrightarrow>
     \<not> inv_poisoned reg
     \<and> (pd_source descriptor \<noteq> Unclassified \<longrightarrow>
          (\<forall>row \<in> set (inv_rows reg). pc_plugin row = pd_id descriptor \<longrightarrow>
             descriptor_family (pc_kind row) \<in> set (pd_contributions descriptor)))
     \<and> reg' = reg\<lparr>inv_plugins := inv_plugins reg
         @ [\<lparr>ap_descriptor = descriptor, ap_scope = scope\<rparr>]\<rparr>"
  by (auto simp: inventory_record_plugin_def Let_def family_mismatch_def
      split: option.splits dest!: find_SomeD)

lemma inventory_record_plugin_rows:
  "inventory_record_plugin reg descriptor scope = Inr reg' \<Longrightarrow> inv_rows reg' = inv_rows reg"
  by (auto simp: inventory_record_plugin_Inr)

end
