(* ===== verification/Event_Bus.thy ===== *)
theory Event_Bus
  imports Ordered_Map
begin

text \<open>
  The two mechanisms of \<open>heycode-core/src/events.rs\<close>: the typed \<open>EventBus\<close> and the
  \<open>Waterfall\<close> interception chain. A payload \<open>TypeId\<close> and an \<open>Arc\<close> identity are
  numbers; identities are minted from a counter, so two registrations never share one.
  The guards of their locks are held around vector pushes, copies and filters only, none
  of which panics, so the poisoned branches of these locks are not modelled.

  Both offer registrations owned by a plugin effect (\<open>on_effect\<close>, \<open>push_effect\<close>),
  whose disposer withdraws exactly that registration. The locale \<open>effect_registry\<close>
  is this contract, and unwinding in reverse order is proved once in it.
\<close>

section \<open>Effect-owned registrations\<close>

locale effect_registry =
  fixes register :: "'k \<Rightarrow> 'r \<Rightarrow> 'c \<times> 'r"
    and withdraw :: "'c \<Rightarrow> 'r \<Rightarrow> 'r"
    and visible :: "'r \<Rightarrow> 'v"
    and wf :: "'r \<Rightarrow> bool"
  assumes wf_register: "wf r \<Longrightarrow> wf (snd (register k r))"
    and wf_withdraw: "wf r \<Longrightarrow> wf (withdraw c r)"
    and withdraw_cong: "visible r = visible r' \<Longrightarrow> visible (withdraw c r) = visible (withdraw c r')"
    and withdraw_register:
      "wf r \<Longrightarrow> visible (withdraw (fst (register k r)) (snd (register k r))) = visible r"
begin

fun register_all :: "'k list \<Rightarrow> 'r \<Rightarrow> 'c list \<times> 'r" where
  "register_all [] r = ([], r)"
| "register_all (k # ks) r =
     (let (c, r') = register k r; (cs, r'') = register_all ks r' in (c # cs, r''))"

lemma wf_register_all: "wf r \<Longrightarrow> wf (snd (register_all ks r))"
proof (induction ks arbitrary: r)
  case Nil
  then show ?case by simp
next
  case (Cons k ks)
  have "wf (snd (register_all ks (snd (register k r))))"
    by (rule Cons.IH) (rule wf_register [OF Cons.prems])
  then show ?case by (simp add: split_beta Let_def)
qed

lemma visible_foldr_cong:
  "visible r = visible r' \<Longrightarrow> visible (foldr withdraw cs r) = visible (foldr withdraw cs r')"
  by (induction cs) (auto intro: withdraw_cong)

text \<open>
  Withdrawing last to first what a list of registrations handed out leaves the registry as
  it was: \<open>foldr withdraw cs\<close> withdraws the last element of \<open>cs\<close> first.
\<close>

lemma unwind: "wf r \<Longrightarrow> visible (foldr withdraw (fst (register_all ks r)) (snd (register_all ks r))) = visible r"
proof (induction ks arbitrary: r)
  case Nil
  then show ?case by simp
next
  case (Cons k ks)
  let ?c = "fst (register k r)" and ?r = "snd (register k r)"
  have "visible (foldr withdraw (fst (register_all ks ?r)) (snd (register_all ks ?r))) = visible ?r"
    by (rule Cons.IH) (rule wf_register [OF Cons.prems])
  then have "visible (withdraw ?c (foldr withdraw (fst (register_all ks ?r)) (snd (register_all ks ?r))))
      = visible (withdraw ?c ?r)"
    by (rule withdraw_cong)
  also have "\<dots> = visible r" by (rule withdraw_register [OF Cons.prems])
  finally show ?case by (simp add: split_beta Let_def)
qed

end

section \<open>The event bus\<close>

record event_bus =
  bus_listeners :: "(nat, nat list) btree_map" \<comment> \<open>payload type to listener cells\<close>
  bus_next :: nat \<comment> \<open>next cell identity\<close>

definition bus_new :: event_bus where
  "bus_new = \<lparr>bus_listeners = bt_empty, bus_next = 0\<rparr>"

definition cells_of :: "event_bus \<Rightarrow> nat \<Rightarrow> nat list" where
  "cells_of bus ty = (case bt_get (bus_listeners bus) ty of None \<Rightarrow> [] | Some cs \<Rightarrow> cs)"

definition insert_listener :: "nat \<Rightarrow> event_bus \<Rightarrow> nat \<times> event_bus" where
  "insert_listener ty bus =
     (bus_next bus,
      bus\<lparr>bus_listeners := bt_insert ty (cells_of bus ty @ [bus_next bus]) (bus_listeners bus),
          bus_next := Suc (bus_next bus)\<rparr>)"

text \<open>The disposer \<open>on_effect\<close> registers: it removes one exact cell, and an emptied entry.\<close>

definition withdraw_listener :: "nat \<times> nat \<Rightarrow> event_bus \<Rightarrow> event_bus" where
  "withdraw_listener c bus =
     (case bt_get (bus_listeners bus) (fst c) of
        None \<Rightarrow> bus
      | Some cells \<Rightarrow>
          (let kept = filter (\<lambda>registered. registered \<noteq> snd c) cells
           in bus\<lparr>bus_listeners :=
                (if kept = [] then bt_remove (fst c) (bus_listeners bus)
                 else bt_insert (fst c) kept (bus_listeners bus))\<rparr>))"

definition listener_count :: "event_bus \<Rightarrow> nat" where
  "listener_count bus = sum_list (map length (bt_values (bus_listeners bus)))"

text \<open>
  \<open>emit\<close> runs every listener of the payload type over a snapshot of its cells. A listener
  is given as a function of its cell that returns whether it panicked and what it did to
  the world; \<open>catch_unwind\<close> drops the panic.
\<close>

definition emit :: "(nat \<Rightarrow> 'e \<Rightarrow> 'w \<Rightarrow> bool \<times> 'w) \<Rightarrow> nat \<Rightarrow> 'e \<Rightarrow> event_bus \<Rightarrow> 'w \<Rightarrow> 'w" where
  "emit listener ty event bus w = fold (\<lambda>cell w. snd (listener cell event w)) (cells_of bus ty) w"

definition bus_wf :: "event_bus \<Rightarrow> bool" where
  "bus_wf bus \<longleftrightarrow>
     bt_inv (bus_listeners bus)
     \<and> (\<forall>ty cs. bt_get (bus_listeners bus) ty = Some cs \<longrightarrow>
          cs \<noteq> [] \<and> (\<forall>c \<in> set cs. c < bus_next bus))"

lemma bus_wf_new [simp]: "bus_wf bus_new"
  by (simp add: bus_wf_def bus_new_def)

definition bus_register :: "nat \<Rightarrow> event_bus \<Rightarrow> (nat \<times> nat) \<times> event_bus" where
  "bus_register ty bus = (let (cell, bus') = insert_listener ty bus in ((ty, cell), bus'))"

lemma cells_of_less: "bus_wf bus \<Longrightarrow> c \<in> set (cells_of bus ty) \<Longrightarrow> c < bus_next bus"
  by (cases "bt_get (bus_listeners bus) ty") (auto simp: bus_wf_def cells_of_def)

lemma bus_wf_insert: "bus_wf bus \<Longrightarrow> bus_wf (snd (insert_listener ty bus))"
  using cells_of_less [of bus _ ty]
  by (auto simp: bus_wf_def insert_listener_def less_Suc_eq)

lemma bus_wf_withdraw: "bus_wf bus \<Longrightarrow> bus_wf (withdraw_listener c bus)"
  by (auto simp: bus_wf_def withdraw_listener_def Let_def split: option.splits if_splits)

lemma withdraw_insert_listener:
  assumes "bus_wf bus"
  shows "bus_listeners (withdraw_listener (ty, bus_next bus) (snd (insert_listener ty bus)))
    = bus_listeners bus"
proof -
  let ?m = "bus_listeners bus"
  have inv: "bt_inv ?m" using assms by (simp add: bus_wf_def)
  show ?thesis
  proof (cases "bt_get ?m ty")
    case None
    then have "bt_remove ty (bt_insert ty [bus_next bus] ?m) = ?m"
      using inv by (simp add: bt.rem_ins_fresh)
    with None inv show ?thesis
      by (simp add: withdraw_listener_def insert_listener_def cells_of_def Let_def)
  next
    case (Some cs)
    then have old: "cs \<noteq> []" "\<forall>c \<in> set cs. c < bus_next bus"
      using assms by (auto simp: bus_wf_def)
    then have kept: "filter (\<lambda>r. r \<noteq> bus_next bus) (cs @ [bus_next bus]) = cs"
      by (auto simp: filter_id_conv)
    have "bt_insert ty cs (bt_insert ty (cs @ [bus_next bus]) ?m) = ?m"
      using inv Some by (intro bt.ext) auto
    with Some kept old inv show ?thesis
      by (simp add: withdraw_listener_def insert_listener_def cells_of_def Let_def)
  qed
qed

interpretation bus: effect_registry bus_register withdraw_listener bus_listeners bus_wf
proof (unfold_locales, goal_cases)
  case (1 r k) then show ?case
    using bus_wf_insert [of r k] by (simp add: bus_register_def split_beta)
next
  case (2 r c) then show ?case by (rule bus_wf_withdraw)
next
  case (3 r r' c) then show ?case
    by (auto simp: withdraw_listener_def Let_def split: option.splits)
next
  case (4 r k) then show ?case
    using withdraw_insert_listener [of r k]
    by (simp add: bus_register_def insert_listener_def)
qed

section \<open>Waterfall chains\<close>

text \<open>
  A layer is an asynchronous function of the \<open>\&mut\<close> input and of \<open>next\<close>. It is
  modelled by what it does with them: it finishes with the input it leaves behind and its
  result, or it runs \<open>next\<close> on a changed input and goes on with the input and the result
  it got back. Nothing is said about what else it computes.
\<close>

datatype ('t, 'e) layer_run =
    Finish 't "'e option" \<comment> \<open>the input left behind, and the error if any\<close>
  | RunNext 't "'t \<times> 'e option \<Rightarrow> ('t, 'e) layer_run"

type_synonym ('t, 'e) layer = "'t \<Rightarrow> ('t, 'e) layer_run"

datatype waterfall_completion = Completed | ShortCircuited

text \<open>
  \<open>Next::run\<close>: a \<open>next\<close> handed to a layer refers to the rest of the chain and moves
  its own index past the layer it enters; at the end of the chain it stores the completion
  flag. \<open>drive\<close> runs what a layer does against the rest of the chain and returns the
  input, the result and the completion flag.
\<close>

primrec drive_end :: "('t, 'e) layer_run \<Rightarrow> bool \<Rightarrow> 't \<times> 'e option \<times> bool" where
  "drive_end (Finish x r) fin = (x, r, fin)"
| "drive_end (RunNext x k) fin = drive_end (k (x, None)) True"

fun drive :: "('t, 'e) layer list \<Rightarrow> ('t, 'e) layer_run \<Rightarrow> bool \<Rightarrow> 't \<times> 'e option \<times> bool" where
  "drive [] run fin = drive_end run fin"
| "drive (l # ls) (Finish x r) fin = (x, r, fin)"
| "drive (l # ls) (RunNext x k) fin =
     (case drive ls (l x) fin of (x', r, fin') \<Rightarrow> drive ls (k (x', r)) fin')"

record ('t, 'e) waterfall =
  wf_layers :: "('t, 'e) layer list"
  wf_late :: "(nat \<times> ('t, 'e) layer) list"
  wf_next :: nat

definition waterfall_new :: "('t, 'e) waterfall" where
  "waterfall_new = \<lparr>wf_layers = [], wf_late = [], wf_next = 0\<rparr>"

definition wf_push :: "('t, 'e) layer \<Rightarrow> ('t, 'e) waterfall \<Rightarrow> ('t, 'e) waterfall" where
  "wf_push l w = w\<lparr>wf_layers := wf_layers w @ [l]\<rparr>"

definition wf_push_late :: "('t, 'e) layer \<Rightarrow> ('t, 'e) waterfall \<Rightarrow> nat \<times> ('t, 'e) waterfall" where
  "wf_push_late l w =
     (wf_next w, w\<lparr>wf_late := wf_late w @ [(wf_next w, l)], wf_next := Suc (wf_next w)\<rparr>)"

definition wf_push_shared :: "('t, 'e) layer \<Rightarrow> ('t, 'e) waterfall \<Rightarrow> ('t, 'e) waterfall" where
  "wf_push_shared l w = snd (wf_push_late l w)"

text \<open>The disposer of \<open>push_effect\<close>.\<close>

definition wf_withdraw :: "nat \<Rightarrow> ('t, 'e) waterfall \<Rightarrow> ('t, 'e) waterfall" where
  "wf_withdraw i w = w\<lparr>wf_late := filter (\<lambda>registered. fst registered \<noteq> i) (wf_late w)\<rparr>"

definition shared_layer_count :: "('t, 'e) waterfall \<Rightarrow> nat" where
  "shared_layer_count w = length (wf_late w)"

definition wf_len :: "('t, 'e) waterfall \<Rightarrow> nat" where
  "wf_len w = length (wf_layers w) + length (wf_late w)"

text \<open>\<open>Waterfall::is_empty\<close> looks at the early layers only.\<close>

definition wf_is_empty :: "('t, 'e) waterfall \<Rightarrow> bool" where
  "wf_is_empty w \<longleftrightarrow> wf_layers w = []"

definition wf_all :: "('t, 'e) waterfall \<Rightarrow> ('t, 'e) layer list" where
  "wf_all w = wf_layers w @ map snd (wf_late w)"

text \<open>\<open>next.run(input)\<close> from outside the chain is a run that enters it once.\<close>

definition run_checked :: "('t, 'e) waterfall \<Rightarrow> 't \<Rightarrow> 't \<times> ('e + waterfall_completion)" where
  "run_checked w input =
     (case drive (wf_all w) (RunNext input (\<lambda>(x, r). Finish x r)) False of
        (x, Some e, _) \<Rightarrow> (x, Inl e)
      | (x, None, fin) \<Rightarrow> (x, Inr (if fin then Completed else ShortCircuited)))"

definition waterfall_run :: "('t, 'e) waterfall \<Rightarrow> 't \<Rightarrow> 't \<times> ('e + unit)" where
  "waterfall_run w input =
     (case run_checked w input of (x, Inl e) \<Rightarrow> (x, Inl e) | (x, Inr _) \<Rightarrow> (x, Inr ()))"

definition wf_ids_ok :: "('t, 'e) waterfall \<Rightarrow> bool" where
  "wf_ids_ok w \<longleftrightarrow> (\<forall>p \<in> set (wf_late w). fst p < wf_next w)"

interpretation chain: effect_registry wf_push_late wf_withdraw
  "\<lambda>w. (wf_layers w, wf_late w)" wf_ids_ok
  by unfold_locales
    (auto simp: wf_push_late_def wf_withdraw_def wf_ids_ok_def less_Suc_eq filter_id_conv)

subsection \<open>Well-behaved layers\<close>

text \<open>
  A delegating layer calls \<open>next\<close> exactly once and returns its result; before and after it
  may change the input. A short-circuiting layer returns without \<open>next\<close>.
\<close>

definition delegates :: "('t \<Rightarrow> 't) \<Rightarrow> ('t \<Rightarrow> 't) \<Rightarrow> ('t, 'e) layer" where
  "delegates before after = (\<lambda>x. RunNext (before x) (\<lambda>(y, r). Finish (after y) r))"

definition short_circuits :: "('t \<Rightarrow> 't) \<Rightarrow> ('t, 'e) layer" where
  "short_circuits f = (\<lambda>x. Finish (f x) None)"

lemma drive_Finish [simp]: "drive ls (Finish x r) fin = (x, r, fin)"
  by (cases ls) simp_all

text \<open>\<open>around ps core x\<close>: what nested delegating layers compute around \<open>core\<close>.\<close>

fun around :: "(('t \<Rightarrow> 't) \<times> ('t \<Rightarrow> 't)) list \<Rightarrow> ('t \<Rightarrow> 't) \<Rightarrow> 't \<Rightarrow> 't" where
  "around [] core x = core x"
| "around ((before, after) # ps) core x = after (around ps core (before x))"

definition delegating :: "(('t \<Rightarrow> 't) \<times> ('t \<Rightarrow> 't)) list \<Rightarrow> ('t, 'e) layer list" where
  "delegating ps = map (\<lambda>p. delegates (fst p) (snd p)) ps"

lemma delegating_Nil [simp]: "delegating [] = []"
  by (simp add: delegating_def)

lemma delegating_Cons [simp]:
  "delegating (p # ps) = delegates (fst p) (snd p) # delegating ps"
  by (simp add: delegating_def)

lemma drive_delegating:
  "drive (delegating ps) (RunNext x (\<lambda>(y, r). Finish (f y) r)) fin
    = (f (around ps id x), None, True)"
proof (induction ps arbitrary: x f fin)
  case Nil
  show ?case by simp
next
  case (Cons p ps)
  show ?case
    by (cases p) (simp add: delegates_def Cons.IH)
qed

lemma drive_short_circuit:
  "drive (delegating ps @ short_circuits g # ls) (RunNext x (\<lambda>(y, r). Finish (f y) r)) fin
    = (f (around ps g x), None, fin)"
proof (induction ps arbitrary: x f fin)
  case Nil
  show ?case by (simp add: short_circuits_def)
next
  case (Cons p ps)
  show ?case
    by (cases p) (simp add: delegates_def Cons.IH)
qed

lemma run_checked_delegating:
  "wf_all w = delegating ps \<Longrightarrow> run_checked w x = (around ps id x, Inr Completed)"
  by (simp add: run_checked_def drive_delegating)

lemma run_checked_short_circuit:
  "wf_all w = delegating ps @ short_circuits g # ls
   \<Longrightarrow> run_checked w x = (around ps g x, Inr ShortCircuited)"
  by (simp add: run_checked_def drive_short_circuit)

text \<open>A layer that runs \<open>next\<close> a second time, on what the first run left behind.\<close>

definition runs_next_twice :: "('t, 'e) layer" where
  "runs_next_twice = (\<lambda>x. RunNext x (\<lambda>(y, r). RunNext y (\<lambda>(z, r'). Finish z r')))"

end
