(* ===== verification/Plugin_Context.thy ===== *)
theory Plugin_Context
  imports Plugin_Inventory Event_Bus
begin

text \<open>
  The plugin context (\<open>heycode-core/src/context.rs\<close>) and the activation transaction over
  it (\<open>activation.rs\<close>, \<open>plugin.rs\<close>): services, inventory, effects and listeners, the
  fingerprint taken before an activation, and the rollback that is compared with it.
\<close>

section \<open>State\<close>

text \<open>A type-erased service value: the identity of its type and the value itself.\<close>

datatype any = Any (any_type: nat) (any_value: nat)

text \<open>
  A disposer is an opaque closure of a plugin, which may panic, or the closure that
  \<open>EventBus::on_effect\<close> registers. Closures have no access to the context. Which
  disposers ran, in which order, is kept in \<open>ctx_disposed\<close>.
\<close>

datatype disposer = UserDisposer nat | WithdrawListener nat nat

record context_fingerprint =
  fp_services :: "(string \<times> string) list"
  fp_contributions :: "plugin_contribution list"
  fp_recorded :: "applied_plugin list"
  fp_plugins :: "string list"
  fp_descriptors :: "plugin_descriptor list"
  fp_scopes :: "plugin_scope list"
  fp_effects :: nat
  fp_listeners :: nat

record activation_transaction =
  tx_before :: context_fingerprint
  tx_services :: "string list"
  tx_contributions :: nat
  tx_effects :: nat

record plugin_context =
  ctx_services :: "(string, any \<times> string) btree_map" \<comment> \<open>value and owner\<close>
  ctx_plugins :: "string list"
  ctx_descriptors :: "plugin_descriptor list"
  ctx_scopes :: "plugin_scope list"
  ctx_inventory :: plugin_inventory
  ctx_applying :: "string option"
  ctx_activation :: "activation_transaction option"
  ctx_effects :: "disposer list"
  ctx_events :: event_bus
  ctx_closed :: bool
  ctx_disposed :: "disposer list"

definition context_new :: plugin_context where
  "context_new =
     \<lparr>ctx_services = bt_empty, ctx_plugins = [], ctx_descriptors = [], ctx_scopes = [],
      ctx_inventory = inventory_new, ctx_applying = None, ctx_activation = None,
      ctx_effects = [], ctx_events = bus_new, ctx_closed = False, ctx_disposed = []\<rparr>"

section \<open>Operations\<close>

definition service_spec :: "string \<Rightarrow> plugin_contribution_spec" where
  "service_spec key = \<lparr>spec_kind = CkService, spec_name = key\<rparr>"

definition provide ::
  "string \<Rightarrow> string \<Rightarrow> any \<Rightarrow> plugin_context \<Rightarrow> core_error + plugin_context" where
  "provide key owner service ctx =
     (case bt_get (ctx_services ctx) key of
        Some (_, existing) \<Rightarrow> Inl (DuplicateService key existing owner)
      | None \<Rightarrow>
          (let plugin = (case ctx_applying ctx of Some p \<Rightarrow> p | None \<Rightarrow> owner) in
           case inventory_contribute (ctx_inventory ctx) plugin (service_spec key) of
             Inl e \<Rightarrow> Inl e
           | Inr reg \<Rightarrow>
               Inr (ctx\<lparr>ctx_inventory := reg,
                 ctx_services := bt_insert key (service, owner) (ctx_services ctx),
                 ctx_activation :=
                   map_option (\<lambda>tx. tx\<lparr>tx_services := tx_services tx @ [key]\<rparr>)
                     (ctx_activation ctx)\<rparr>)))"

definition context_get :: "string \<Rightarrow> nat \<Rightarrow> plugin_context \<Rightarrow> any option" where
  "context_get key ty ctx =
     (case bt_get (ctx_services ctx) key of
        None \<Rightarrow> None
      | Some (svc, _) \<Rightarrow> if any_type svc = ty then Some svc else None)"

definition context_has :: "string \<Rightarrow> plugin_context \<Rightarrow> bool" where
  "context_has key ctx \<longleftrightarrow> bt_contains (ctx_services ctx) key"

definition owner_of :: "string \<Rightarrow> plugin_context \<Rightarrow> string option" where
  "owner_of key ctx = map_option snd (bt_get (ctx_services ctx) key)"

definition context_contribute ::
  "contribution_kind \<Rightarrow> string \<Rightarrow> plugin_context \<Rightarrow> core_error + plugin_context" where
  "context_contribute kind name ctx =
     (case ctx_applying ctx of
        None \<Rightarrow> Inl ContributionOutsideApply
      | Some plugin \<Rightarrow>
          (case inventory_contribute (ctx_inventory ctx) plugin
                  \<lparr>spec_kind = kind, spec_name = name\<rparr> of
             Inl e \<Rightarrow> Inl e
           | Inr reg \<Rightarrow> Inr (ctx\<lparr>ctx_inventory := reg\<rparr>)))"

definition effect :: "disposer \<Rightarrow> plugin_context \<Rightarrow> plugin_context" where
  "effect d ctx = ctx\<lparr>ctx_effects := ctx_effects ctx @ [d]\<rparr>"

definition pending_effects :: "plugin_context \<Rightarrow> nat" where
  "pending_effects ctx = length (ctx_effects ctx)"

text \<open>One disposer; \<open>catch_unwind\<close> contains a panic, so the next one runs either way.\<close>

fun dispose_bus :: "disposer \<Rightarrow> event_bus \<Rightarrow> event_bus" where
  "dispose_bus (UserDisposer _) bus = bus"
| "dispose_bus (WithdrawListener ty cell) bus = withdraw_listener (ty, cell) bus"

definition run_disposer :: "disposer \<Rightarrow> plugin_context \<Rightarrow> plugin_context" where
  "run_disposer d ctx =
     ctx\<lparr>ctx_events := dispose_bus d (ctx_events ctx), ctx_disposed := ctx_disposed ctx @ [d]\<rparr>"

definition dispose_effects_above :: "nat \<Rightarrow> plugin_context \<Rightarrow> plugin_context" where
  "dispose_effects_above floor ctx =
     (if floor < length (ctx_effects ctx)
      then fold run_disposer (rev (drop floor (ctx_effects ctx)))
             (ctx\<lparr>ctx_effects := take floor (ctx_effects ctx)\<rparr>)
      else ctx)"

definition shutdown :: "plugin_context \<Rightarrow> plugin_context" where
  "shutdown ctx =
     fold run_disposer (rev (ctx_effects ctx)) (ctx\<lparr>ctx_closed := True, ctx_effects := []\<rparr>)"

definition verify_injects :: "string \<Rightarrow> string list \<Rightarrow> plugin_context \<Rightarrow> core_error + unit" where
  "verify_injects plugin inject ctx =
     (let missing = filter (\<lambda>key. \<not> context_has key ctx) inject
      in if missing = [] then Inr () else Inl (UnsatisfiedInject plugin missing))"

text \<open>\<open>EventBus::on\<close> and \<open>EventBus::on_effect\<close> on the bus of the context.\<close>

definition context_on :: "nat \<Rightarrow> plugin_context \<Rightarrow> plugin_context" where
  "context_on ty ctx = ctx\<lparr>ctx_events := snd (insert_listener ty (ctx_events ctx))\<rparr>"

definition context_on_effect :: "nat \<Rightarrow> plugin_context \<Rightarrow> plugin_context" where
  "context_on_effect ty ctx =
     (let (cell, bus) = insert_listener ty (ctx_events ctx)
      in effect (WithdrawListener ty cell) (ctx\<lparr>ctx_events := bus\<rparr>))"

section \<open>Fingerprint and residue\<close>

text \<open>
  The code sorts the pairs of key and owner; keys are unique, so this is the key order the
  map has here.
\<close>

definition capture :: "plugin_context \<Rightarrow> core_error + context_fingerprint" where
  "capture ctx =
     and_then (inventory_snapshot (ctx_inventory ctx)) (\<lambda>(recorded, contributions).
       Inr \<lparr>fp_services = map (\<lambda>(key, _, owner). (key, owner)) (ctx_services ctx),
            fp_contributions = contributions,
            fp_recorded = recorded,
            fp_plugins = ctx_plugins ctx,
            fp_descriptors = ctx_descriptors ctx,
            fp_scopes = ctx_scopes ctx,
            fp_effects = pending_effects ctx,
            fp_listeners = listener_count (ctx_events ctx)\<rparr>)"

definition residue_parts :: "context_fingerprint \<Rightarrow> context_fingerprint \<Rightarrow> residue_part list" where
  "residue_parts before after =
     (let services = map fst (filter (\<lambda>row. row \<notin> set (fp_services before)) (fp_services after));
          rows = map row_id
                   (filter (\<lambda>row. row \<notin> set (fp_contributions before)) (fp_contributions after))
      in (if services \<noteq> [] then [ResServices services] else [])
         @ (if rows \<noteq> [] then [ResContributions rows] else [])
         @ (if fp_recorded before \<noteq> fp_recorded after \<or> fp_plugins before \<noteq> fp_plugins after
            then [ResRecordedPlugins] else [])
         @ (if fp_descriptors before \<noteq> fp_descriptors after \<or> fp_scopes before \<noteq> fp_scopes after
            then [ResPluginDescriptors] else [])
         @ (if fp_effects after \<noteq> fp_effects before
            then [ResPendingEffects (fp_effects before) (fp_effects after)] else [])
         @ (if fp_listeners after \<noteq> fp_listeners before
            then [ResEventListeners (fp_listeners before) (fp_listeners after)] else []))"

definition residue :: "context_fingerprint \<Rightarrow> context_fingerprint \<Rightarrow> residue_part list option" where
  "residue before after =
     (let parts = residue_parts before after;
          parts' = (if parts = [] \<and> before \<noteq> after then [ResContextState] else parts)
      in if parts' = [] then None else Some parts')"

lemma residue_None [simp]: "residue before after = None \<longleftrightarrow> before = after"
proof
  assume "residue before after = None"
  then show "before = after" by (auto simp: residue_def Let_def split: if_splits)
next
  assume "before = after"
  then show "residue before after = None" by (simp add: residue_def residue_parts_def Let_def)
qed

section \<open>The activation transaction\<close>

definition begin_activation :: "string \<Rightarrow> plugin_context \<Rightarrow> core_error + plugin_context" where
  "begin_activation plugin ctx =
     and_then (capture ctx) (\<lambda>before.
       Inr (ctx\<lparr>ctx_activation :=
                  Some \<lparr>tx_before = before, tx_services = [],
                        tx_contributions = length (fp_contributions before),
                        tx_effects = fp_effects before\<rparr>,
                ctx_applying := Some plugin\<rparr>))"

definition commit_activation :: "plugin_context \<Rightarrow> plugin_context" where
  "commit_activation ctx = ctx\<lparr>ctx_applying := None, ctx_activation := None\<rparr>"

definition rollback_activation ::
  "plugin_context \<Rightarrow> plugin_context \<times> residue_part list option" where
  "rollback_activation ctx0 =
     (let ctx1 = ctx0\<lparr>ctx_applying := None, ctx_activation := None\<rparr> in
      case ctx_activation ctx0 of
        None \<Rightarrow> (ctx1, None)
      | Some tx \<Rightarrow>
          (let ctx2 = ctx1\<lparr>ctx_services := fold bt_remove (tx_services tx) (ctx_services ctx1)\<rparr>;
               (unwound, reg) = inventory_rollback (tx_contributions tx) (ctx_inventory ctx2);
               ctx3 = dispose_effects_above (tx_effects tx) (ctx2\<lparr>ctx_inventory := reg\<rparr>)
           in if \<not> unwound then (ctx3, Some [ResInventoryUnavailable])
              else case capture ctx3 of
                     Inr after \<Rightarrow> (ctx3, residue (tx_before tx) after)
                   | Inl _ \<Rightarrow> (ctx3, Some [ResInventoryUnavailable])))"

definition context_record_plugin ::
  "plugin_descriptor \<Rightarrow> plugin_scope \<Rightarrow> plugin_context \<Rightarrow> core_error + plugin_context" where
  "context_record_plugin descriptor scope ctx =
     (case inventory_record_plugin (ctx_inventory ctx) descriptor scope of
        Inl e \<Rightarrow> Inl e
      | Inr reg \<Rightarrow>
          Inr (ctx\<lparr>ctx_inventory := reg,
                   ctx_plugins := ctx_plugins ctx @ [pd_id descriptor],
                   ctx_descriptors := ctx_descriptors ctx @ [descriptor],
                   ctx_scopes := ctx_scopes ctx @ [scope]\<rparr>))"

section \<open>Disposal\<close>

lemma fold_run_disposer:
  "fold run_disposer ds ctx =
     ctx\<lparr>ctx_events := fold dispose_bus ds (ctx_events ctx),
         ctx_disposed := ctx_disposed ctx @ ds\<rparr>"
  by (induction ds arbitrary: ctx) (simp_all add: run_disposer_def)

lemma shutdown_eq:
  "shutdown ctx =
     ctx\<lparr>ctx_closed := True, ctx_effects := [],
         ctx_events := foldr dispose_bus (ctx_effects ctx) (ctx_events ctx),
         ctx_disposed := ctx_disposed ctx @ rev (ctx_effects ctx)\<rparr>"
  by (simp add: shutdown_def fold_run_disposer foldr_conv_fold)

lemma dispose_effects_above_eq:
  "dispose_effects_above floor ctx =
     ctx\<lparr>ctx_effects := take floor (ctx_effects ctx),
         ctx_events := foldr dispose_bus (drop floor (ctx_effects ctx)) (ctx_events ctx),
         ctx_disposed := ctx_disposed ctx @ rev (drop floor (ctx_effects ctx))\<rparr>"
  by (simp add: dispose_effects_above_def fold_run_disposer foldr_conv_fold)

lemma dispose_bus_cong:
  "bus_listeners b = bus_listeners b' \<Longrightarrow> bus_listeners (dispose_bus d b) = bus_listeners (dispose_bus d b')"
  by (cases d) (auto intro: bus.withdraw_cong)

lemma foldr_dispose_bus_cong:
  "bus_listeners b = bus_listeners b' \<Longrightarrow>
   bus_listeners (foldr dispose_bus ds b) = bus_listeners (foldr dispose_bus ds b')"
  by (induction ds) (auto intro: dispose_bus_cong)

lemma bus_wf_dispose: "bus_wf b \<Longrightarrow> bus_wf (dispose_bus d b)"
  by (cases d) (auto intro: bus_wf_withdraw)

lemma bus_wf_foldr_dispose: "bus_wf b \<Longrightarrow> bus_wf (foldr dispose_bus ds b)"
  by (induction ds) (auto intro: bus_wf_dispose)

lemma listener_count_cong: "bus_listeners b = bus_listeners b' \<Longrightarrow> listener_count b = listener_count b'"
  by (simp add: listener_count_def)

section \<open>Well-formed contexts\<close>

text \<open>
  Maps in key order, rows with valid unique names, live listener cells; and every
  published service is attributed: it has an exact row of kind \<open>Service\<close>.
\<close>

definition attributed :: "plugin_context \<Rightarrow> bool" where
  "attributed ctx \<longleftrightarrow>
     (\<forall>key. context_has key ctx \<longrightarrow> (CkService, key) \<in> row_id ` set (inv_rows (ctx_inventory ctx)))"

definition context_wf :: "plugin_context \<Rightarrow> bool" where
  "context_wf ctx \<longleftrightarrow>
     bt_inv (ctx_services ctx) \<and> rows_wf (inv_rows (ctx_inventory ctx))
     \<and> bus_wf (ctx_events ctx) \<and> attributed ctx"

lemma context_wf_new [simp]: "context_wf context_new"
  by (simp add: context_wf_def context_new_def inventory_new_def attributed_def context_has_def)

lemma provide_Inr:
  "provide key owner service ctx = Inr ctx' \<longleftrightarrow>
     bt_get (ctx_services ctx) key = None
     \<and> (\<exists>reg. inventory_contribute (ctx_inventory ctx)
               (case ctx_applying ctx of Some p \<Rightarrow> p | None \<Rightarrow> owner) (service_spec key) = Inr reg
          \<and> ctx' = ctx\<lparr>ctx_inventory := reg,
                 ctx_services := bt_insert key (service, owner) (ctx_services ctx),
                 ctx_activation :=
                   map_option (\<lambda>tx. tx\<lparr>tx_services := tx_services tx @ [key]\<rparr>)
                     (ctx_activation ctx)\<rparr>)"
  by (auto simp: provide_def Let_def split: option.splits sum.splits)

lemma context_contribute_Inr:
  "context_contribute kind name ctx = Inr ctx' \<longleftrightarrow>
     (\<exists>plugin reg. ctx_applying ctx = Some plugin
        \<and> inventory_contribute (ctx_inventory ctx) plugin \<lparr>spec_kind = kind, spec_name = name\<rparr> = Inr reg
        \<and> ctx' = ctx\<lparr>ctx_inventory := reg\<rparr>)"
  by (auto simp: context_contribute_def split: option.splits sum.splits)

lemma context_record_plugin_Inr:
  "context_record_plugin descriptor scope ctx = Inr ctx' \<longleftrightarrow>
     (\<exists>reg. inventory_record_plugin (ctx_inventory ctx) descriptor scope = Inr reg
        \<and> ctx' = ctx\<lparr>ctx_inventory := reg,
                   ctx_plugins := ctx_plugins ctx @ [pd_id descriptor],
                   ctx_descriptors := ctx_descriptors ctx @ [descriptor],
                   ctx_scopes := ctx_scopes ctx @ [scope]\<rparr>)"
  by (auto simp: context_record_plugin_def split: sum.splits)

lemma context_wf_provide:
  assumes "context_wf ctx" "provide key owner service ctx = Inr ctx'"
  shows "context_wf ctx'"
proof -
  from assms(2) obtain plugin reg where
    reg: "inventory_contribute (ctx_inventory ctx) plugin (service_spec key) = Inr reg"
    and ctx': "ctx_services ctx' = bt_insert key (service, owner) (ctx_services ctx)"
      "ctx_inventory ctx' = reg" "ctx_events ctx' = ctx_events ctx"
    by (auto simp: provide_Inr)
  from reg have rows: "inv_rows reg = inv_rows (ctx_inventory ctx)
      @ [\<lparr>pc_plugin = plugin, pc_kind = CkService, pc_name = key\<rparr>]"
    by (simp add: inventory_contribute_Inr service_spec_def)
  show ?thesis
    using assms(1) ctx' rows inventory_contribute_wf [OF reg]
    by (auto simp: context_wf_def attributed_def context_has_def row_id_def)
qed

lemma context_wf_contribute:
  "context_wf ctx \<Longrightarrow> context_contribute kind name ctx = Inr ctx' \<Longrightarrow> context_wf ctx'"
  by (auto simp: context_wf_def attributed_def context_has_def context_contribute_Inr
      inventory_contribute_Inr rows_wf_def row_id_def)

lemma context_wf_effect: "context_wf ctx \<Longrightarrow> context_wf (effect d ctx)"
  by (simp add: context_wf_def effect_def attributed_def context_has_def)

lemma context_wf_on: "context_wf ctx \<Longrightarrow> context_wf (context_on ty ctx)"
  by (simp add: context_wf_def context_on_def attributed_def context_has_def bus_wf_insert)

lemma context_wf_on_effect: "context_wf ctx \<Longrightarrow> context_wf (context_on_effect ty ctx)"
  using bus_wf_insert [of "ctx_events ctx" ty]
  by (auto simp: context_wf_def context_on_effect_def effect_def attributed_def context_has_def
      split: prod.splits)

lemma context_wf_shutdown: "context_wf ctx \<Longrightarrow> context_wf (shutdown ctx)"
  by (simp add: shutdown_eq context_wf_def attributed_def context_has_def bus_wf_foldr_dispose)

lemma context_wf_record:
  "context_wf ctx \<Longrightarrow> context_record_plugin d s ctx = Inr ctx' \<Longrightarrow> context_wf ctx'"
  by (auto simp: context_wf_def attributed_def context_has_def context_record_plugin_Inr
      inventory_record_plugin_Inr)

lemma bt_inv_fold_remove: "bt_inv m \<Longrightarrow> bt_inv (fold bt_remove ks m)"
  by (induction ks arbitrary: m) simp_all

lemma bt_get_fold_remove:
  "bt_inv m \<Longrightarrow> bt_get (fold bt_remove ks m) k = (if k \<in> set ks then None else bt_get m k)"
  by (induction ks arbitrary: m) auto

end
