(* ===== verification/Plugin_Activation.thy ===== *)
theory Plugin_Activation
  imports Plugin_Context
begin

text \<open>
  Composition of plugins into a live context (\<open>heycode-core/src/plugin.rs\<close>) and the
  typed activation health it reports (\<open>activation.rs\<close>). A plugin's \<open>apply\<close> is
  foreign code that reaches the context only through its public methods: it is modelled as a
  tree of calls, each continued by the reply. Every plugin that returns is such a tree.
  An activation changes the context in place also when it fails, so the context is part of
  every result.
\<close>

section \<open>Plugins\<close>

text \<open>The public methods of \<open>Context\<close> and of its \<open>EventBus\<close> an \<open>apply\<close> can call.\<close>

datatype ctx_call =
    CallProvide string string any \<comment> \<open>key, owner, service\<close>
  | CallGet string nat
  | CallHas string
  | CallContribute contribution_kind string
  | CallEffect nat
  | CallOn nat
  | CallOnEffect nat
  | CallShutdown

datatype ctx_reply = ReplyResult "core_error + unit" | ReplyAny "any option" | ReplyBool bool

datatype apply_prog =
    ApplyDone "core_error + unit"
  | ApplyCall ctx_call "ctx_reply \<Rightarrow> apply_prog"

text \<open>An update that keeps the old state when it is refused.\<close>

definition keep_on_error :: "'s \<Rightarrow> 'e + 's \<Rightarrow> ('e + unit) \<times> 's" where
  "keep_on_error s r = (case r of Inl e \<Rightarrow> (Inl e, s) | Inr s' \<Rightarrow> (Inr (), s'))"

fun perform :: "ctx_call \<Rightarrow> plugin_context \<Rightarrow> ctx_reply \<times> plugin_context" where
  "perform (CallProvide key owner svc) ctx =
     map_prod ReplyResult id (keep_on_error ctx (provide key owner svc ctx))"
| "perform (CallGet key ty) ctx = (ReplyAny (context_get key ty ctx), ctx)"
| "perform (CallHas key) ctx = (ReplyBool (context_has key ctx), ctx)"
| "perform (CallContribute kind name) ctx =
     map_prod ReplyResult id (keep_on_error ctx (context_contribute kind name ctx))"
| "perform (CallEffect d) ctx = (ReplyResult (Inr ()), effect (UserDisposer d) ctx)"
| "perform (CallOn ty) ctx = (ReplyResult (Inr ()), context_on ty ctx)"
| "perform (CallOnEffect ty) ctx = (ReplyResult (Inr ()), context_on_effect ty ctx)"
| "perform CallShutdown ctx = (ReplyResult (Inr ()), shutdown ctx)"

primrec run_apply :: "apply_prog \<Rightarrow> plugin_context \<Rightarrow> (core_error + unit) \<times> plugin_context" where
  "run_apply (ApplyDone r) ctx = (r, ctx)"
| "run_apply (ApplyCall c k) ctx = run_apply (k (fst (perform c ctx))) (snd (perform c ctx))"

record plugin =
  pl_name :: string
  pl_descriptor :: plugin_descriptor
  pl_inject :: "string list"
  pl_provides :: "string list"
  pl_inventory :: "plugin_contribution_spec list"
  pl_apply :: apply_prog

text \<open>The defaults of the trait: a plugin that only has a name and an \<open>apply\<close>.\<close>

definition bare_plugin :: "string \<Rightarrow> apply_prog \<Rightarrow> plugin" where
  "bare_plugin name prog =
     \<lparr>pl_name = name, pl_descriptor = unclassified name, pl_inject = [], pl_provides = [],
      pl_inventory = [], pl_apply = prog\<rparr>"

section \<open>Activation of one plugin\<close>

datatype activation_stage = Admission | Declaration | Apply | Commit | Rollback

fun activation_stage_str :: "activation_stage \<Rightarrow> string" where
  "activation_stage_str Admission = ''admission''"
| "activation_stage_str Declaration = ''declaration''"
| "activation_stage_str Apply = ''apply''"
| "activation_stage_str Commit = ''commit''"
| "activation_stage_str Rollback = ''rollback''"

fun declare_rows ::
  "plugin_contribution_spec list \<Rightarrow> plugin_context \<Rightarrow> (core_error + unit) \<times> plugin_context" where
  "declare_rows [] ctx = (Inr (), ctx)"
| "declare_rows (spec # specs) ctx =
     (case context_contribute (spec_kind spec) (spec_name spec) ctx of
        Inl e \<Rightarrow> (Inl e, ctx)
      | Inr ctx' \<Rightarrow> declare_rows specs ctx')"

definition declare_apply_and_record ::
  "plugin_scope \<Rightarrow> plugin \<Rightarrow> plugin_context
   \<Rightarrow> (activation_stage \<times> core_error + unit) \<times> plugin_context" where
  "declare_apply_and_record scope p ctx0 =
     (case declare_rows (pl_inventory p) ctx0 of
        (Inl e, ctx1) \<Rightarrow> (Inl (Declaration, e), ctx1)
      | (Inr _, ctx1) \<Rightarrow>
          (case run_apply (pl_apply p) ctx1 of
             (Inl e, ctx2) \<Rightarrow> (Inl (Apply, e), ctx2)
           | (Inr _, ctx2) \<Rightarrow>
               (case context_record_plugin (pl_descriptor p) scope ctx2 of
                  Inl e \<Rightarrow> (Inl (Commit, e), ctx2)
                | Inr ctx3 \<Rightarrow> (Inr (), ctx3))))"

definition activate ::
  "plugin_scope \<Rightarrow> plugin \<Rightarrow> plugin_context \<Rightarrow> string list
   \<Rightarrow> (activation_stage \<times> core_error + unit) \<times> plugin_context \<times> string list" where
  "activate scope p ctx seen =
     (if pd_id (pl_descriptor p) \<noteq> pl_name p
      then (Inl (Admission, DescriptorIdMismatch (pl_name p) (pd_id (pl_descriptor p))), ctx, seen)
      else if pl_name p \<in> set seen
      then (Inl (Admission, DuplicatePlugin (pl_name p)), ctx, seen)
      else case verify_injects (pl_name p) (pl_inject p) ctx of
        Inl e \<Rightarrow> (Inl (Admission, e), ctx, seen)
      | Inr _ \<Rightarrow>
          (case begin_activation (pl_name p) ctx of
             Inl e \<Rightarrow> (Inl (Admission, e), ctx, seen)
           | Inr ctx0 \<Rightarrow>
               (case declare_apply_and_record scope p ctx0 of
                  (Inr _, ctx1) \<Rightarrow> (Inr (), commit_activation ctx1, seen @ [pl_name p])
                | (Inl (stage, e), ctx1) \<Rightarrow>
                    (case rollback_activation ctx1 of
                       (ctx2, None) \<Rightarrow> (Inl (stage, e), ctx2, seen)
                     | (ctx2, Some left) \<Rightarrow>
                         (Inl (Rollback, BrokenActivation (pl_name p) left e), ctx2, seen)))))"

section \<open>Health of every requested plugin\<close>

text \<open>
  \<open>ActivationFailure\<close> carries the rendered error; here it carries the error itself.
\<close>

datatype activation_outcome =
    Activated
  | Failed activation_stage core_error
  | NotAttempted

fun is_activated :: "activation_outcome \<Rightarrow> bool" where
  "is_activated Activated = True"
| "is_activated _ = False"

fun outcome_failure :: "activation_outcome \<Rightarrow> (activation_stage \<times> core_error) option" where
  "outcome_failure (Failed stage e) = Some (stage, e)"
| "outcome_failure _ = None"

record plugin_activation =
  pa_plugin :: string
  pa_scope :: plugin_scope
  pa_outcome :: activation_outcome

type_synonym activation_report = "plugin_activation list"

definition report_healthy :: "activation_report \<Rightarrow> bool" where
  "report_healthy rows \<longleftrightarrow> list_all (\<lambda>row. is_activated (pa_outcome row)) rows"

definition report_failure :: "activation_report \<Rightarrow> plugin_activation option" where
  "report_failure rows = List.find (\<lambda>row. outcome_failure (pa_outcome row) \<noteq> None) rows"

definition report_outcome :: "activation_report \<Rightarrow> string \<Rightarrow> activation_outcome option" where
  "report_outcome rows name = map_option pa_outcome (List.find (\<lambda>row. pa_plugin row = name) rows)"

section \<open>Composition\<close>

record composed_activation =
  ca_report :: activation_report
  ca_context :: "core_error + plugin_context"

definition activation_row ::
  "activation_outcome \<Rightarrow> plugin_scope \<times> plugin \<Rightarrow> plugin_activation" where
  "activation_row out sp = \<lparr>pa_plugin = pl_name (snd sp), pa_scope = fst sp, pa_outcome = out\<rparr>"

text \<open>
  The loop of \<open>compose_all\<close>. Its result is the rows of the remaining plugins, the
  error that aborted it and the context at that point, already shut down after an error.
\<close>

fun compose_loop ::
  "(plugin_scope \<times> plugin) list \<Rightarrow> plugin_context \<Rightarrow> string list
   \<Rightarrow> activation_report \<times> core_error option \<times> plugin_context" where
  "compose_loop [] ctx seen = ([], None, ctx)"
| "compose_loop (sp # rest) ctx seen =
     (case activate (fst sp) (snd sp) ctx seen of
        (Inr _, ctx', seen') \<Rightarrow>
          (let (rows, e, final) = compose_loop rest ctx' seen'
           in (activation_row Activated sp # rows, e, final))
      | (Inl (stage, e), ctx', _) \<Rightarrow>
          (activation_row (Failed stage e) sp # map (activation_row NotAttempted) rest,
           Some e, shutdown ctx'))"

definition compose_all :: "(plugin_scope \<times> plugin) list \<Rightarrow> composed_activation" where
  "compose_all plugins =
     (let (rows, e, ctx) = compose_loop plugins context_new []
      in \<lparr>ca_report = rows, ca_context = (case e of None \<Rightarrow> Inr ctx | Some err \<Rightarrow> Inl err)\<rparr>)"

definition compose_activation :: "plugin list \<Rightarrow> composed_activation" where
  "compose_activation plugins = compose_all (map (\<lambda>p. (BuiltIn, p)) plugins)"

definition compose :: "plugin list \<Rightarrow> core_error + plugin_context" where
  "compose plugins = ca_context (compose_activation plugins)"

definition compose_scoped :: "(plugin_scope \<times> plugin) list \<Rightarrow> core_error + plugin_context" where
  "compose_scoped plugins = ca_context (compose_all plugins)"

section \<open>Body-free diagnostics\<close>

datatype activation_diagnostic_state = DiagActivated | DiagFailed | DiagNotAttempted

fun diagnostic_state_str :: "activation_diagnostic_state \<Rightarrow> string" where
  "diagnostic_state_str DiagActivated = ''activated''"
| "diagnostic_state_str DiagFailed = ''failed''"
| "diagnostic_state_str DiagNotAttempted = ''not_attempted''"

record activation_diagnostic_plugin =
  adp_plugin :: string
  adp_scope :: string
  adp_state :: activation_diagnostic_state
  adp_stage :: "string option"

record activation_diagnostic_report =
  adr_complete :: bool
  adr_healthy :: bool
  adr_code :: "string option"
  adr_suppressed :: "string list"
  adr_plugins :: "activation_diagnostic_plugin list"

definition diagnostic_row :: "plugin_activation \<Rightarrow> activation_diagnostic_plugin" where
  "diagnostic_row row =
     (let (state, stage) =
        (case pa_outcome row of
           Activated \<Rightarrow> (DiagActivated, None)
         | Failed stage _ \<Rightarrow> (DiagFailed, Some (activation_stage_str stage))
         | NotAttempted \<Rightarrow> (DiagNotAttempted, None))
      in \<lparr>adp_plugin = pa_plugin row, adp_scope = plugin_scope_str (pa_scope row),
          adp_state = state, adp_stage = stage\<rparr>)"

definition report_diagnostic :: "activation_report \<Rightarrow> activation_diagnostic_report" where
  "report_diagnostic rows =
     \<lparr>adr_complete = True, adr_healthy = report_healthy rows, adr_code = None,
      adr_suppressed = [], adr_plugins = map diagnostic_row rows\<rparr>"

definition diagnostic_unavailable :: "string \<Rightarrow> activation_diagnostic_report" where
  "diagnostic_unavailable code =
     \<lparr>adr_complete = False, adr_healthy = False, adr_code = Some code,
      adr_suppressed = [], adr_plugins = []\<rparr>"

definition with_suppressed ::
  "string \<Rightarrow> activation_diagnostic_report \<Rightarrow> activation_diagnostic_report" where
  "with_suppressed act report = report\<lparr>adr_suppressed := adr_suppressed report @ [act]\<rparr>"

definition render_human :: "activation_diagnostic_report \<Rightarrow> string" where
  "render_human report =
     join_with [CHR 0x0A]
       ([''activation: '' @
          (if \<not> adr_complete report then ''unavailable''
           else if adr_healthy report then ''healthy'' else ''failed'')]
        @ (case adr_code report of None \<Rightarrow> [] | Some code \<Rightarrow> [''error '' @ code])
        @ map (\<lambda>s. ''suppressed: '' @ s) (adr_suppressed report)
        @ map (\<lambda>row. ''['' @ diagnostic_state_str (adp_state row) @ ''] '' @ adp_plugin row
             @ '' scope='' @ adp_scope row
             @ (case adp_stage row of None \<Rightarrow> [] | Some st \<Rightarrow> '' stage='' @ st))
            (adr_plugins report))"

end
