(* ===== verification/Activation_Laws.thy ===== *)
theory Activation_Laws
  imports Plugin_Activation
begin

text \<open>
  What every call of an \<open>apply\<close> keeps of the context, and the activation transaction:
  what a rollback restores, and when it is certain to restore everything.
\<close>

section \<open>What the calls of an apply keep\<close>

lemma keep_on_error_cases:
  "keep_on_error s r = (x, s') \<Longrightarrow> (r = Inr s' \<and> x = Inr ()) \<or> (\<exists>e. r = Inl e \<and> x = Inl e \<and> s' = s)"
  by (auto simp: keep_on_error_def split: sum.splits)

lemma snd_keep_on_error: "snd (keep_on_error s r) = (case r of Inl e \<Rightarrow> s | Inr s' \<Rightarrow> s')"
  by (simp add: keep_on_error_def split: sum.splits)

lemma run_apply_inv:
  assumes step: "\<And>c ctx. P ctx \<Longrightarrow> P (snd (perform c ctx))"
  shows "P ctx \<Longrightarrow> P (snd (run_apply prog ctx))"
  by (induction prog arbitrary: ctx) (auto intro: step)

lemma declare_rows_inv:
  assumes step: "\<And>kind name ctx ctx'. P ctx \<Longrightarrow> context_contribute kind name ctx = Inr ctx' \<Longrightarrow> P ctx'"
  shows "P ctx \<Longrightarrow> P (snd (declare_rows specs ctx))"
  by (induction specs arbitrary: ctx) (auto split: sum.splits intro: step)

lemma context_wf_perform: "context_wf ctx \<Longrightarrow> context_wf (snd (perform c ctx))"
  by (cases c) (auto simp: snd_keep_on_error split: sum.splits
      intro: context_wf_provide context_wf_contribute context_wf_effect context_wf_on
        context_wf_on_effect context_wf_shutdown)

lemma context_wf_run_apply: "context_wf ctx \<Longrightarrow> context_wf (snd (run_apply prog ctx))"
  by (rule run_apply_inv [of context_wf]) (rule context_wf_perform)

lemma context_wf_declare_rows: "context_wf ctx \<Longrightarrow> context_wf (snd (declare_rows specs ctx))"
  by (rule declare_rows_inv [of context_wf]) (rule context_wf_contribute)

text \<open>
  The part of the context no call of an \<open>apply\<close> touches: recorded plugins, the plugin
  being applied, and what the transaction captured.
\<close>

definition tx_base :: "activation_transaction \<Rightarrow> context_fingerprint \<times> nat \<times> nat" where
  "tx_base tx = (tx_before tx, tx_contributions tx, tx_effects tx)"

definition frame where
  "frame ctx =
     (ctx_plugins ctx, ctx_descriptors ctx, ctx_scopes ctx, ctx_applying ctx,
      map_option tx_base (ctx_activation ctx),
      inv_plugins (ctx_inventory ctx), inv_poisoned (ctx_inventory ctx))"

lemma frame_contribute: "context_contribute kind name ctx = Inr ctx' \<Longrightarrow> frame ctx' = frame ctx"
  by (auto simp: frame_def context_contribute_Inr inventory_contribute_Inr)

lemma frame_perform: "frame (snd (perform c ctx)) = frame ctx"
proof (cases c)
  case (CallProvide key owner svc)
  then show ?thesis
    by (auto simp: frame_def snd_keep_on_error provide_Inr inventory_contribute_Inr
        option.map_comp tx_base_def [abs_def] comp_def split: sum.splits)
next
  case (CallContribute kind name)
  then show ?thesis by (auto simp: snd_keep_on_error frame_contribute split: sum.splits)
qed (auto simp: frame_def effect_def context_on_def context_on_effect_def shutdown_eq split: prod.splits)

lemma frame_run_apply: "frame (snd (run_apply prog ctx)) = frame ctx"
  by (rule run_apply_inv [of "\<lambda>c. frame c = frame ctx"]) (simp_all add: frame_perform)

lemma frame_declare_rows: "frame (snd (declare_rows specs ctx)) = frame ctx"
  by (rule declare_rows_inv [of "\<lambda>c. frame c = frame ctx"]) (simp_all add: frame_contribute)

section \<open>Stages\<close>

text \<open>The context in which a plugin's three stages ended before the record of it.\<close>

definition applied :: "plugin \<Rightarrow> plugin_context \<Rightarrow> plugin_context" where
  "applied p ctx =
     (case declare_rows (pl_inventory p) ctx of
        (Inl e, ctx1) \<Rightarrow> ctx1
      | (Inr _, ctx1) \<Rightarrow> snd (run_apply (pl_apply p) ctx1))"

lemma applied_inv:
  assumes "\<And>kind name ctx ctx'. P ctx \<Longrightarrow> context_contribute kind name ctx = Inr ctx' \<Longrightarrow> P ctx'"
    and "\<And>ctx. P ctx \<Longrightarrow> P (snd (run_apply (pl_apply p) ctx))"
    and "P ctx"
  shows "P (applied p ctx)"
  using declare_rows_inv [of P ctx "pl_inventory p"] assms
  by (auto simp: applied_def split: prod.splits sum.splits)

lemma frame_applied: "frame (applied p ctx) = frame ctx"
  by (rule applied_inv [of "\<lambda>c. frame c = frame ctx"]) (simp_all add: frame_contribute frame_run_apply)

lemma context_wf_applied: "context_wf ctx \<Longrightarrow> context_wf (applied p ctx)"
  by (rule applied_inv) (auto intro: context_wf_contribute context_wf_run_apply)

lemma declare_apply_and_record_cases:
  assumes "declare_apply_and_record scope p ctx = (r, ctx')"
  obtains (failed) stage e where "r = Inl (stage, e)" "stage \<in> {Declaration, Apply, Commit}"
      "ctx' = applied p ctx"
  | (recorded) "r = Inr ()" "context_record_plugin (pl_descriptor p) scope (applied p ctx) = Inr ctx'"
  using assms
  by (auto simp: declare_apply_and_record_def applied_def split: prod.splits sum.splits)

text \<open>\<open>activate\<close> by outcome.\<close>

lemma begin_activation_Inr:
  "begin_activation plugin ctx = Inr ctx' \<longleftrightarrow>
     (\<exists>before. capture ctx = Inr before
        \<and> ctx' = ctx\<lparr>ctx_activation :=
                  Some \<lparr>tx_before = before, tx_services = [],
                        tx_contributions = length (fp_contributions before),
                        tx_effects = fp_effects before\<rparr>,
                ctx_applying := Some plugin\<rparr>)"
  by (auto simp: begin_activation_def)

lemma verify_injects_Inl:
  "verify_injects plugin inject ctx = Inl e \<Longrightarrow> \<exists>key \<in> set inject. \<not> context_has key ctx"
  by (auto simp: verify_injects_def Let_def filter_empty_conv split: if_splits)

lemma verify_injects_Inr:
  "verify_injects plugin inject ctx = Inr u \<longleftrightarrow> (\<forall>key \<in> set inject. context_has key ctx)"
  by (auto simp: verify_injects_def Let_def filter_empty_conv)

lemma activate_Inr:
  "activate scope p ctx seen = (Inr u, ctx', seen') \<longleftrightarrow>
     pd_id (pl_descriptor p) = pl_name p \<and> pl_name p \<notin> set seen
     \<and> (\<forall>key \<in> set (pl_inject p). context_has key ctx)
     \<and> seen' = seen @ [pl_name p]
     \<and> (\<exists>ctx0 ctx1. begin_activation (pl_name p) ctx = Inr ctx0
          \<and> declare_apply_and_record scope p ctx0 = (Inr (), ctx1)
          \<and> ctx' = commit_activation ctx1)"
  by (auto simp: activate_def verify_injects_Inr dest: verify_injects_Inl split: prod.splits sum.splits option.splits)

lemma activate_Inl_cases:
  assumes "activate scope p ctx seen = (Inl (stage, e), ctx', seen')"
  obtains (refused) "stage = Admission" "ctx' = ctx" "seen' = seen"
  | (failed) ctx0 s c out where "begin_activation (pl_name p) ctx = Inr ctx0"
      "declare_apply_and_record scope p ctx0 = (Inl (s, c), applied p ctx0)"
      "s \<in> {Declaration, Apply, Commit}"
      "rollback_activation (applied p ctx0) = (ctx', out)" "seen' = seen"
      "out = None \<and> stage = s \<and> e = c
       \<or> (\<exists>left. out = Some left \<and> stage = Rollback \<and> e = BrokenActivation (pl_name p) left c)"
proof (cases "begin_activation (pl_name p) ctx")
  case (Inl e')
  with assms show ?thesis
    by (auto simp: activate_def split: if_splits sum.splits intro: refused)
next
  case (Inr ctx0)
  obtain r ctx1 where run: "declare_apply_and_record scope p ctx0 = (r, ctx1)"
    by (cases "declare_apply_and_record scope p ctx0")
  then show ?thesis
  proof (cases rule: declare_apply_and_record_cases)
    case (failed s c)
    obtain ctx2 out where "rollback_activation (applied p ctx0) = (ctx2, out)"
      by (cases "rollback_activation (applied p ctx0)")
    with assms Inr run failed that(2) [of ctx0 s c out] show ?thesis
      by (auto simp: activate_def split: if_splits sum.splits option.splits intro: refused)
  next
    case recorded
    with assms Inr run show ?thesis
      by (auto simp: activate_def split: if_splits sum.splits intro: refused)
  qed
qed

section \<open>A rollback that reports nothing left nothing\<close>

lemma frame_activation:
  "frame ctx = frame ctx' \<Longrightarrow> ctx_activation ctx = Some tx \<Longrightarrow>
   \<exists>tx'. ctx_activation ctx' = Some tx' \<and> tx_base tx' = tx_base tx"
  by (cases "ctx_activation ctx'") (auto simp: frame_def)

lemma rollback_None:
  assumes "rollback_activation ctx = (ctx', None)" "ctx_activation ctx = Some tx"
  shows "capture ctx' = Inr (tx_before tx)"
  using assms
  by (auto simp: rollback_activation_def Let_def split: prod.splits if_splits sum.splits)

lemma residue_refl [simp]: "residue before before = None"
  by simp

lemma rollback_Some:
  assumes "rollback_activation ctx = (ctx', Some left)" "ctx_activation ctx = Some tx"
  shows "capture ctx' \<noteq> Inr (tx_before tx)"
  using assms
  by (auto simp: rollback_activation_def Let_def inventory_rollback_def dispose_effects_above_eq
      capture_def inventory_snapshot_def split: prod.splits if_splits sum.splits)

lemma rollback_fields:
  assumes "rollback_activation ctx = (ctx', out)"
  shows "ctx_applying ctx' = None \<and> ctx_activation ctx' = None"
  using assms
  by (auto simp: rollback_activation_def Let_def dispose_effects_above_eq
      split: prod.splits if_splits sum.splits option.splits)

lemma activate_failed_capture:
  assumes "activate scope p ctx seen = (Inl (stage, e), ctx', seen')" "stage \<noteq> Rollback"
  shows "capture ctx' = capture ctx"
  using assms(1)
proof (cases rule: activate_Inl_cases)
  case refused
  then show ?thesis by simp
next
  case (failed ctx0 s c out)
  then have out: "out = None" using assms(2) by auto
  from failed(1) obtain before tx where before: "capture ctx = Inr before"
    and tx: "ctx_activation ctx0 = Some tx" "tx_before tx = before"
    by (auto simp: begin_activation_Inr)
  from frame_activation [OF frame_applied [symmetric] tx(1), of p]
  obtain tx' where tx': "ctx_activation (applied p ctx0) = Some tx'" "tx_base tx' = tx_base tx"
    by auto
  have "capture ctx' = Inr (tx_before tx')"
    using rollback_None [OF _ tx'(1)] failed(4) out by simp
  then show ?thesis using before tx(2) tx'(2) by (simp add: tx_base_def)
qed

section \<open>Effect-owned registrations always unwind\<close>

text \<open>
  A plugin is \<open>scoped\<close> when everything it registers is owned by the activation: no
  listener outside an effect, and it does not shut the context down.
\<close>

fun scoped_call :: "ctx_call \<Rightarrow> bool" where
  "scoped_call (CallOn _) = False"
| "scoped_call CallShutdown = False"
| "scoped_call _ = True"

primrec scoped_prog :: "apply_prog \<Rightarrow> bool" where
  "scoped_prog (ApplyDone r) = True"
| "scoped_prog (ApplyCall c k) = (scoped_call c \<and> (\<forall>r. scoped_prog (k r)))"

text \<open>\<open>in_transaction base ctx\<close>: \<open>ctx\<close> is \<open>base\<close> plus what the activation registered.\<close>

definition in_transaction :: "plugin_context \<Rightarrow> plugin_context \<Rightarrow> bool" where
  "in_transaction base ctx \<longleftrightarrow>
     context_wf base \<and> context_wf ctx
     \<and> (\<exists>tx rows ds.
          ctx_activation ctx = Some tx
          \<and> tx_contributions tx = length (inv_rows (ctx_inventory base))
          \<and> tx_effects tx = length (ctx_effects base)
          \<and> capture base = Inr (tx_before tx)
          \<and> fold bt_remove (tx_services tx) (ctx_services ctx) = ctx_services base
          \<and> inv_rows (ctx_inventory ctx) = inv_rows (ctx_inventory base) @ rows
          \<and> ctx_effects ctx = ctx_effects base @ ds
          \<and> bus_listeners (foldr dispose_bus ds (ctx_events ctx)) = bus_listeners (ctx_events base))
     \<and> inv_plugins (ctx_inventory ctx) = inv_plugins (ctx_inventory base)
     \<and> inv_poisoned (ctx_inventory ctx) = inv_poisoned (ctx_inventory base)
     \<and> ctx_plugins ctx = ctx_plugins base \<and> ctx_descriptors ctx = ctx_descriptors base
     \<and> ctx_scopes ctx = ctx_scopes base \<and> ctx_closed ctx = ctx_closed base
     \<and> ctx_disposed ctx = ctx_disposed base"

lemma capture_poisoned: "capture ctx = Inr fp \<Longrightarrow> \<not> inv_poisoned (ctx_inventory ctx)"
  by (auto simp: capture_def inventory_snapshot_def split: if_splits)

lemma capture_Inr:
  "capture ctx = Inr fp \<longleftrightarrow>
     \<not> inv_poisoned (ctx_inventory ctx)
     \<and> fp = \<lparr>fp_services = map (\<lambda>(key, _, owner). (key, owner)) (ctx_services ctx),
            fp_contributions = inv_rows (ctx_inventory ctx),
            fp_recorded = inv_plugins (ctx_inventory ctx),
            fp_plugins = ctx_plugins ctx,
            fp_descriptors = ctx_descriptors ctx,
            fp_scopes = ctx_scopes ctx,
            fp_effects = pending_effects ctx,
            fp_listeners = listener_count (ctx_events ctx)\<rparr>"
  by (auto simp: capture_def inventory_snapshot_def split: if_splits)

lemma in_transaction_begin:
  assumes "context_wf ctx" "begin_activation plugin ctx = Inr ctx0"
  shows "in_transaction ctx ctx0"
  using assms
  by (auto simp: in_transaction_def begin_activation_Inr capture_Inr pending_effects_def
      context_wf_def attributed_def context_has_def)

lemma in_transaction_contribute:
  assumes "in_transaction base ctx" "context_contribute kind name ctx = Inr ctx'"
  shows "in_transaction base ctx'"
proof -
  have "context_wf ctx'"
    using assms by (auto simp: in_transaction_def intro: context_wf_contribute)
  then show ?thesis
    using assms by (auto simp: in_transaction_def context_contribute_Inr inventory_contribute_Inr)
qed

lemma fold_remove_insert_fresh:
  "bt_inv m \<Longrightarrow> bt_get m k = None \<Longrightarrow> fold bt_remove (ks @ [k]) (bt_insert k v m) = fold bt_remove ks m"
  by (rule bt.ext) (auto simp: bt_inv_fold_remove bt_get_fold_remove fun_eq_iff)

lemma in_transaction_provide:
  assumes "in_transaction base ctx" "provide key owner svc ctx = Inr ctx'"
  shows "in_transaction base ctx'"
proof -
  have wf: "context_wf ctx'"
    using assms by (auto simp: in_transaction_def intro: context_wf_provide)
  have svc: "bt_inv (ctx_services ctx)" "bt_get (ctx_services ctx) key = None"
    using assms by (auto simp: in_transaction_def context_wf_def provide_Inr)
  show ?thesis
    using assms wf fold_remove_insert_fresh [OF svc]
    by (auto simp: in_transaction_def provide_Inr inventory_contribute_Inr)
qed

lemma in_transaction_effect:
  "in_transaction base ctx \<Longrightarrow> in_transaction base (effect (UserDisposer d) ctx)"
  by (auto simp: in_transaction_def effect_def context_wf_def attributed_def context_has_def)

lemma in_transaction_on_effect:
  assumes "in_transaction base ctx"
  shows "in_transaction base (context_on_effect ty ctx)"
proof -
  let ?bus = "ctx_events ctx"
  have "context_wf ctx" using assms by (simp add: in_transaction_def)
  then have wf: "context_wf (context_on_effect ty ctx)" "bus_wf ?bus"
    by (auto intro: context_wf_on_effect) (simp add: context_wf_def)
  have "bus_listeners (dispose_bus (WithdrawListener ty (bus_next ?bus)) (snd (insert_listener ty ?bus)))
      = bus_listeners ?bus"
    using withdraw_insert_listener [OF wf(2)] by simp
  note cong = foldr_dispose_bus_cong [OF this]
  show ?thesis
    using assms wf(1) cong
    by (auto simp: in_transaction_def context_on_effect_def effect_def insert_listener_def)
qed

lemma in_transaction_perform:
  "in_transaction base ctx \<Longrightarrow> scoped_call c \<Longrightarrow> in_transaction base (snd (perform c ctx))"
  by (cases c) (auto simp: snd_keep_on_error split: sum.splits
      intro: in_transaction_provide in_transaction_contribute in_transaction_effect
        in_transaction_on_effect)

lemma in_transaction_run_apply:
  "scoped_prog prog \<Longrightarrow> in_transaction base ctx \<Longrightarrow> in_transaction base (snd (run_apply prog ctx))"
  by (induction prog arbitrary: ctx) (auto intro: in_transaction_perform)

lemma in_transaction_applied:
  "scoped_prog (pl_apply p) \<Longrightarrow> in_transaction base ctx \<Longrightarrow> in_transaction base (applied p ctx)"
  by (rule applied_inv) (auto intro: in_transaction_contribute in_transaction_run_apply)

text \<open>The rollback of a scoped activation restores the context and reports nothing.\<close>

lemma rollback_in_transaction:
  assumes "in_transaction base ctx"
  shows "\<exists>ctx'. rollback_activation ctx = (ctx', None)
    \<and> ctx_services ctx' = ctx_services base \<and> ctx_inventory ctx' = ctx_inventory base
    \<and> bus_listeners (ctx_events ctx') = bus_listeners (ctx_events base)
    \<and> ctx_effects ctx' = ctx_effects base
    \<and> ctx_closed ctx' = ctx_closed base
    \<and> ctx_disposed ctx' = ctx_disposed base @ rev (drop (length (ctx_effects base)) (ctx_effects ctx))"
proof -
  from assms obtain tx rows ds where tx: "ctx_activation ctx = Some tx"
      "tx_contributions tx = length (inv_rows (ctx_inventory base))"
      "tx_effects tx = length (ctx_effects base)"
      "capture base = Inr (tx_before tx)"
    and svc: "fold bt_remove (tx_services tx) (ctx_services ctx) = ctx_services base"
    and rows: "inv_rows (ctx_inventory ctx) = inv_rows (ctx_inventory base) @ rows"
    and eff: "ctx_effects ctx = ctx_effects base @ ds"
    and bus: "bus_listeners (foldr dispose_bus ds (ctx_events ctx)) = bus_listeners (ctx_events base)"
    by (auto simp: in_transaction_def)
  have live: "\<not> inv_poisoned (ctx_inventory base)" "\<not> inv_poisoned (ctx_inventory ctx)"
    using tx(4) assms by (auto simp: in_transaction_def dest: capture_poisoned)
  have inventory: "(ctx_inventory ctx)\<lparr>inv_rows := inv_rows (ctx_inventory base)\<rparr> = ctx_inventory base"
    using assms by (auto simp: in_transaction_def)
  show ?thesis
    using assms tx svc rows eff bus live inventory listener_count_cong [OF bus]
    by (simp add: rollback_activation_def Let_def inventory_rollback_def dispose_effects_above_eq
        capture_Inr pending_effects_def in_transaction_def split: sum.splits)
      (auto simp: capture_def inventory_snapshot_def pending_effects_def)
qed

end
