(* ===== verification/Composition.thy ===== *)
theory Composition
  imports Activation_Laws
begin

text \<open>
  Composition as a whole: the report of every requested plugin, what a successful
  composition guarantees of its context, and what an aborted one disposes.
\<close>

section \<open>The loop\<close>

lemma compose_loop_append:
  "compose_loop (sps @ sqs) ctx seen =
     (case compose_loop sps ctx seen of
        (rows, None, ctx') \<Rightarrow>
          (let (rows', e, final) = compose_loop sqs ctx' (seen @ map (\<lambda>sp. pl_name (snd sp)) sps)
           in (rows @ rows', e, final))
      | (rows, Some e, final) \<Rightarrow> (rows @ map (activation_row NotAttempted) sqs, Some e, final))"
proof (induction sps arbitrary: ctx seen)
  case Nil
  then show ?case by (simp split: prod.splits)
next
  case (Cons sp sps)
  obtain r ctx' seen' where act: "activate (fst sp) (snd sp) ctx seen = (r, ctx', seen')"
    by (cases "activate (fst sp) (snd sp) ctx seen")
  show ?case
  proof (cases r)
    case (Inl err)
    then show ?thesis using act by (simp split: prod.splits)
  next
    case (Inr u)
    then have "seen' = seen @ [pl_name (snd sp)]" using act by (simp add: activate_Inr)
    then show ?thesis
      using act Inr Cons.IH [of ctx' seen'] by (simp add: Let_def split: prod.splits option.splits)
  qed
qed

text \<open>An aborted loop: the plugins before it activated, this one failed.\<close>

lemma compose_loop_Some:
  assumes "compose_loop sps ctx seen = (rows, Some e, final)"
  shows "\<exists>k pre rows' stage mid seen'. k < length sps
    \<and> compose_loop (take k sps) ctx seen = (rows', None, pre)
    \<and> activate (fst (sps ! k)) (snd (sps ! k)) pre (seen @ map (\<lambda>sp. pl_name (snd sp)) (take k sps))
        = (Inl (stage, e), mid, seen')
    \<and> rows = rows' @ activation_row (Failed stage e) (sps ! k)
        # map (activation_row NotAttempted) (drop (Suc k) sps)
    \<and> final = shutdown mid"
  using assms
proof (induction sps arbitrary: ctx seen rows)
  case Nil
  then show ?case by simp
next
  case (Cons sp sps)
  obtain r ctx' seen' where act: "activate (fst sp) (snd sp) ctx seen = (r, ctx', seen')"
    by (cases "activate (fst sp) (snd sp) ctx seen")
  show ?case
  proof (cases r)
    case (Inl err)
    then show ?thesis
      using act Cons.prems by (intro exI [of _ 0]) (auto split: prod.splits)
  next
    case (Inr u)
    then have seen': "seen' = seen @ [pl_name (snd sp)]" using act by (simp add: activate_Inr)
    from Cons.prems act Inr obtain rows1 where
      tail: "compose_loop sps ctx' seen' = (rows1, Some e, final)"
      and rows: "rows = activation_row Activated sp # rows1"
      by (auto simp: Let_def split: prod.splits)
    from Cons.IH [OF tail] obtain k pre rows' stage mid seen'' where
      "k < length sps" "compose_loop (take k sps) ctx' seen' = (rows', None, pre)"
      "activate (fst (sps ! k)) (snd (sps ! k)) pre (seen' @ map (\<lambda>sp. pl_name (snd sp)) (take k sps))
        = (Inl (stage, e), mid, seen'')"
      "rows1 = rows' @ activation_row (Failed stage e) (sps ! k)
        # map (activation_row NotAttempted) (drop (Suc k) sps)" "final = shutdown mid"
      by blast
    then show ?thesis
      using act Inr seen' rows
      by (intro exI [of _ "Suc k"] exI [of _ pre] exI [of _ "activation_row Activated sp # rows'"])
        (auto simp: Let_def)
  qed
qed

text \<open>A loop that completed: every row is activated, and invariants of \<open>activate\<close> carry over.\<close>

lemma compose_loop_None:
  "compose_loop sps ctx seen = (rows, None, final) \<Longrightarrow> rows = map (activation_row Activated) sps"
proof (induction sps arbitrary: ctx seen rows)
  case Nil
  then show ?case by simp
next
  case (Cons sp sps)
  then show ?case by (auto simp: Let_def split: prod.splits sum.splits)
qed

lemma compose_loop_inv:
  assumes "compose_loop sps ctx seen = (rows, None, final)" "P ctx seen"
    and step: "\<And>sp ctx seen ctx' seen' u. sp \<in> set sps \<Longrightarrow> P ctx seen \<Longrightarrow>
      activate (fst sp) (snd sp) ctx seen = (Inr u, ctx', seen') \<Longrightarrow> P ctx' seen'"
  shows "P final (seen @ map (\<lambda>sp. pl_name (snd sp)) sps)"
  using assms
proof (induction sps arbitrary: ctx seen rows)
  case Nil
  then show ?case by simp
next
  case (Cons sp sps)
  obtain r ctx' seen' where act: "activate (fst sp) (snd sp) ctx seen = (r, ctx', seen')"
    by (cases "activate (fst sp) (snd sp) ctx seen")
  with Cons.prems(1) obtain u rows' where r: "r = Inr u"
    and tail: "compose_loop sps ctx' seen' = (rows', None, final)"
    by (cases r) (auto simp: Let_def split: prod.splits)
  from act r have seen': "seen' = seen @ [pl_name (snd sp)]" by (simp add: activate_Inr)
  have "P ctx' seen'"
    by (rule Cons.prems(3) [OF _ Cons.prems(2)]) (use act r in auto)
  with tail have "P final (seen' @ map (\<lambda>sp. pl_name (snd sp)) sps)"
    by (rule Cons.IH) (rule Cons.prems(3), auto)
  then show ?case using seen' by simp
qed

lemma compose_loop_take:
  assumes "compose_loop sps ctx seen = (rows, None, final)" "k < length sps"
  shows "\<exists>pre rows' ctx' seen'. compose_loop (take k sps) ctx seen = (rows', None, pre)
    \<and> activate (fst (sps ! k)) (snd (sps ! k)) pre (seen @ map (\<lambda>sp. pl_name (snd sp)) (take k sps))
        = (Inr (), ctx', seen')"
proof -
  have split: "sps = take k sps @ sps ! k # drop (Suc k) sps"
    using assms(2) by (rule id_take_nth_drop)
  obtain rows' e pre where pre: "compose_loop (take k sps) ctx seen = (rows', e, pre)"
    by (cases "compose_loop (take k sps) ctx seen")
  have all: "compose_loop (take k sps @ sps ! k # drop (Suc k) sps) ctx seen = (rows, None, final)"
    using assms(1) split by simp
  from all pre show ?thesis
    by (auto simp: compose_loop_append Let_def split: prod.splits option.splits sum.splits)
qed

lemma compose_scoped_Inr:
  "compose_scoped sps = Inr ctx \<longleftrightarrow>
     (\<exists>rows. compose_loop sps context_new [] = (rows, None, ctx))"
  by (auto simp: compose_scoped_def compose_all_def Let_def split: prod.splits option.splits)

section \<open>Invariants of a composition\<close>

lemma activate_success:
  assumes "activate scope p ctx seen = (Inr u, ctx', seen')"
  obtains ctx0 reg where "begin_activation (pl_name p) ctx = Inr ctx0"
    "context_record_plugin (pl_descriptor p) scope (applied p ctx0) = Inr reg"
    "ctx' = commit_activation reg"
proof -
  from assms obtain ctx0 ctx1 where "begin_activation (pl_name p) ctx = Inr ctx0"
    and run: "declare_apply_and_record scope p ctx0 = (Inr (), ctx1)"
    and "ctx' = commit_activation ctx1"
    by (auto simp: activate_Inr)
  with run that show ?thesis
    by (auto elim!: declare_apply_and_record_cases)
qed

lemma context_wf_begin: "context_wf ctx \<Longrightarrow> begin_activation plugin ctx = Inr ctx0 \<Longrightarrow> context_wf ctx0"
  by (auto simp: begin_activation_Inr context_wf_def attributed_def context_has_def)

lemma context_wf_commit: "context_wf ctx \<Longrightarrow> context_wf (commit_activation ctx)"
  by (simp add: commit_activation_def context_wf_def attributed_def context_has_def)

lemma activate_wf:
  assumes "context_wf ctx" "activate scope p ctx seen = (Inr u, ctx', seen')"
  shows "context_wf ctx'"
  using assms(2)
  by (rule activate_success)
    (use assms(1) in \<open>auto intro!: context_wf_commit intro: context_wf_record context_wf_applied context_wf_begin\<close>)

text \<open>What a successful activation records.\<close>

lemma activate_records:
  assumes "activate scope p ctx seen = (Inr u, ctx', seen')"
  shows "ctx_plugins ctx' = ctx_plugins ctx @ [pl_name p]"
    "ctx_descriptors ctx' = ctx_descriptors ctx @ [pl_descriptor p]"
    "ctx_scopes ctx' = ctx_scopes ctx @ [scope]"
    "inv_plugins (ctx_inventory ctx') = inv_plugins (ctx_inventory ctx)
       @ [\<lparr>ap_descriptor = pl_descriptor p, ap_scope = scope\<rparr>]"
    "ctx_applying ctx' = None" "ctx_activation ctx' = None"
proof -
  have name: "pd_id (pl_descriptor p) = pl_name p" using assms by (simp add: activate_Inr)
  from assms obtain ctx0 reg where ctx0: "begin_activation (pl_name p) ctx = Inr ctx0"
    and reg: "context_record_plugin (pl_descriptor p) scope (applied p ctx0) = Inr reg"
    and ctx': "ctx' = commit_activation reg"
    by (rule activate_success)
  from frame_applied [of p ctx0] ctx0 reg ctx' name show
    "ctx_plugins ctx' = ctx_plugins ctx @ [pl_name p]"
    "ctx_descriptors ctx' = ctx_descriptors ctx @ [pl_descriptor p]"
    "ctx_scopes ctx' = ctx_scopes ctx @ [scope]"
    "inv_plugins (ctx_inventory ctx') = inv_plugins (ctx_inventory ctx)
       @ [\<lparr>ap_descriptor = pl_descriptor p, ap_scope = scope\<rparr>]"
    "ctx_applying ctx' = None" "ctx_activation ctx' = None"
    by (auto simp: begin_activation_Inr context_record_plugin_Inr inventory_record_plugin_Inr
        commit_activation_def frame_def)
qed

lemma composed_records:
  assumes "compose_loop sps context_new [] = (rows, None, ctx)"
  shows "ctx_plugins ctx = map (\<lambda>sp. pl_name (snd sp)) sps
    \<and> inv_plugins (ctx_inventory ctx)
        = map (\<lambda>sp. \<lparr>ap_descriptor = pl_descriptor (snd sp), ap_scope = fst sp\<rparr>) sps
    \<and> (\<forall>sp \<in> set sps. pd_id (pl_descriptor (snd sp)) = pl_name (snd sp))
    \<and> ctx_descriptors ctx = map (\<lambda>sp. pl_descriptor (snd sp)) sps
    \<and> ctx_scopes ctx = map fst sps
    \<and> ctx_applying ctx = None \<and> ctx_activation ctx = None"
  using assms
proof (induction sps arbitrary: rows ctx rule: rev_induct)
  case Nil
  then have "ctx = context_new" by simp
  then show ?case by (simp add: context_new_def inventory_new_def)
next
  case (snoc sp sps)
  then obtain pre rows' seen' where
    pre: "compose_loop sps context_new [] = (rows', None, pre)"
    and act: "activate (fst sp) (snd sp) pre (map (\<lambda>sp. pl_name (snd sp)) sps) = (Inr (), ctx, seen')"
    by (auto simp: compose_loop_append Let_def split: prod.splits option.splits sum.splits)
  from act have "pd_id (pl_descriptor (snd sp)) = pl_name (snd sp)" by (simp add: activate_Inr)
  with snoc.IH [OF pre] activate_records [OF act] show ?case by simp
qed

text \<open>Rows added while a plugin is applied are the plugin's own.\<close>

definition adds_rows :: "string \<Rightarrow> plugin_contribution list \<Rightarrow> plugin_context \<Rightarrow> bool" where
  "adds_rows name rows ctx \<longleftrightarrow>
     ctx_applying ctx = Some name
     \<and> (\<exists>more. inv_rows (ctx_inventory ctx) = rows @ more \<and> (\<forall>row \<in> set more. pc_plugin row = name))"

lemma adds_rows_contribute:
  "adds_rows name rows ctx \<Longrightarrow> context_contribute kind cname ctx = Inr ctx' \<Longrightarrow> adds_rows name rows ctx'"
  by (fastforce simp: adds_rows_def context_contribute_Inr inventory_contribute_Inr)

lemma adds_rows_perform: "adds_rows name rows ctx \<Longrightarrow> adds_rows name rows (snd (perform c ctx))"
proof (cases c)
  case (CallProvide key owner svc)
  assume "adds_rows name rows ctx"
  then show ?thesis
    using CallProvide
    by (auto simp: adds_rows_def snd_keep_on_error provide_Inr inventory_contribute_Inr
        split: sum.splits)
next
  case (CallContribute kind cname)
  assume "adds_rows name rows ctx"
  then show ?thesis
    using CallContribute by (auto simp: snd_keep_on_error adds_rows_contribute split: sum.splits)
qed (auto simp: adds_rows_def effect_def context_on_def context_on_effect_def shutdown_eq
    split: prod.splits)

lemma adds_rows_applied: "adds_rows name rows ctx \<Longrightarrow> adds_rows name rows (applied p ctx)"
  by (rule applied_inv [of "adds_rows name rows"])
    (auto intro: adds_rows_contribute run_apply_inv [of "adds_rows name rows"] adds_rows_perform)

text \<open>
  \<open>accounted ctx names\<close>: every row belongs to an activated plugin, and the rows of a
  classified plugin are of families its descriptor declares.
\<close>

definition accounted :: "plugin_context \<Rightarrow> string list \<Rightarrow> bool" where
  "accounted ctx names \<longleftrightarrow>
     (\<forall>row \<in> set (inv_rows (ctx_inventory ctx)). pc_plugin row \<in> set names)
     \<and> (\<forall>ap \<in> set (inv_plugins (ctx_inventory ctx)).
          pd_id (ap_descriptor ap) \<in> set names
          \<and> (pd_source (ap_descriptor ap) \<noteq> Unclassified \<longrightarrow>
               (\<forall>row \<in> set (inv_rows (ctx_inventory ctx)). pc_plugin row = pd_id (ap_descriptor ap)
                  \<longrightarrow> \<not> family_mismatch (ap_descriptor ap) row)))"

lemma accounted_activate:
  assumes "accounted ctx seen" "activate scope p ctx seen = (Inr u, ctx', seen')"
  shows "accounted ctx' seen'"
proof -
  have name: "pd_id (pl_descriptor p) = pl_name p" "pl_name p \<notin> set seen"
    and seen': "seen' = seen @ [pl_name p]"
    using assms(2) by (simp_all add: activate_Inr)
  from assms(2) obtain ctx0 reg where ctx0: "begin_activation (pl_name p) ctx = Inr ctx0"
    and reg: "context_record_plugin (pl_descriptor p) scope (applied p ctx0) = Inr reg"
    and ctx': "ctx' = commit_activation reg"
    by (rule activate_success)
  have "adds_rows (pl_name p) (inv_rows (ctx_inventory ctx)) ctx0"
    using ctx0 by (auto simp: adds_rows_def begin_activation_Inr)
  then have "adds_rows (pl_name p) (inv_rows (ctx_inventory ctx)) (applied p ctx0)"
    by (rule adds_rows_applied)
  then obtain more where
    more: "inv_rows (ctx_inventory (applied p ctx0)) = inv_rows (ctx_inventory ctx) @ more"
      "\<forall>row \<in> set more. pc_plugin row = pl_name p"
    by (auto simp: adds_rows_def)
  have plugins: "inv_plugins (ctx_inventory ctx') = inv_plugins (ctx_inventory ctx)
       @ [\<lparr>ap_descriptor = pl_descriptor p, ap_scope = scope\<rparr>]"
    using assms(2) by (rule activate_records)
  have rows: "inv_rows (ctx_inventory ctx') = inv_rows (ctx_inventory ctx) @ more"
    using reg ctx' more
    by (auto simp: context_record_plugin_Inr inventory_record_plugin_Inr commit_activation_def)
  have own: "pd_source (pl_descriptor p) \<noteq> Unclassified \<Longrightarrow>
      row \<in> set (inv_rows (ctx_inventory ctx')) \<Longrightarrow> pc_plugin row = pl_name p \<Longrightarrow>
      \<not> family_mismatch (pl_descriptor p) row" for row
    using reg rows more name(1)
    by (auto simp: context_record_plugin_Inr inventory_record_plugin_Inr family_mismatch_def)
  show ?thesis
    using assms(1) name seen' plugins rows more(2) own
    by (fastforce simp: accounted_def)
qed

section \<open>Shutting a composition down\<close>

text \<open>Disposing every pending effect, last first, withdraws every listener.\<close>

definition unwinds :: "plugin_context \<Rightarrow> bool" where
  "unwinds ctx \<longleftrightarrow>
     context_wf ctx
     \<and> bus_listeners (foldr dispose_bus (ctx_effects ctx) (ctx_events ctx)) = bt_empty"

lemma unwinds_new: "unwinds context_new"
  by (simp add: unwinds_def context_new_def bus_new_def) (simp add: context_new_def [symmetric] bus_new_def [symmetric])

lemma unwinds_in_transaction:
  assumes "in_transaction base ctx" "unwinds base"
  shows "unwinds ctx"
proof -
  from assms(1) obtain ds where eff: "ctx_effects ctx = ctx_effects base @ ds"
    and bus: "bus_listeners (foldr dispose_bus ds (ctx_events ctx)) = bus_listeners (ctx_events base)"
    and wf: "context_wf ctx"
    by (auto simp: in_transaction_def)
  show ?thesis
    using assms(2) eff wf foldr_dispose_bus_cong [OF bus, of "ctx_effects base"]
    by (simp add: unwinds_def)
qed

lemma unwinds_activate:
  assumes "unwinds ctx" "scoped_prog (pl_apply p)"
    "activate scope p ctx seen = (Inr u, ctx', seen')"
  shows "unwinds ctx'"
proof -
  from assms(3) obtain ctx0 reg where ctx0: "begin_activation (pl_name p) ctx = Inr ctx0"
    and reg: "context_record_plugin (pl_descriptor p) scope (applied p ctx0) = Inr reg"
    and ctx': "ctx' = commit_activation reg"
    by (rule activate_success)
  have "in_transaction ctx (applied p ctx0)"
    using assms(1,2) ctx0
    by (auto simp: unwinds_def intro: in_transaction_applied in_transaction_begin)
  then have "unwinds (applied p ctx0)" using assms(1) by (rule unwinds_in_transaction)
  moreover have "context_wf ctx'"
    using activate_wf [OF _ assms(3)] assms(1) by (simp add: unwinds_def)
  ultimately show ?thesis
    using reg ctx' by (auto simp: unwinds_def context_record_plugin_Inr commit_activation_def)
qed

lemma activate_failed_scoped:
  assumes "context_wf ctx" "scoped_prog (pl_apply p)"
    "activate scope p ctx seen = (Inl (stage, e), ctx', seen')"
  shows "stage \<noteq> Rollback"
    "ctx_services ctx' = ctx_services ctx" "ctx_inventory ctx' = ctx_inventory ctx"
    "bus_listeners (ctx_events ctx') = bus_listeners (ctx_events ctx)"
    "ctx_effects ctx' = ctx_effects ctx"
    "\<exists>ds. ctx_disposed ctx' = ctx_disposed ctx @ ds"
    "begin_activation (pl_name p) ctx = Inr ctx0 \<Longrightarrow> stage \<noteq> Admission \<Longrightarrow>
       ctx_disposed ctx' = ctx_disposed ctx
         @ rev (drop (length (ctx_effects ctx)) (ctx_effects (snd (declare_apply_and_record scope p ctx0))))"
proof -
  have "stage \<noteq> Rollback
    \<and> ctx_services ctx' = ctx_services ctx \<and> ctx_inventory ctx' = ctx_inventory ctx
    \<and> bus_listeners (ctx_events ctx') = bus_listeners (ctx_events ctx)
    \<and> ctx_effects ctx' = ctx_effects ctx
    \<and> (\<exists>ds. ctx_disposed ctx' = ctx_disposed ctx @ ds)
    \<and> (begin_activation (pl_name p) ctx = Inr ctx0 \<longrightarrow> stage \<noteq> Admission \<longrightarrow>
       ctx_disposed ctx' = ctx_disposed ctx
         @ rev (drop (length (ctx_effects ctx)) (ctx_effects (snd (declare_apply_and_record scope p ctx0)))))"
    using assms(3)
  proof (cases rule: activate_Inl_cases)
    case refused
    then show ?thesis by simp
  next
    case (failed ctx0' s c out)
    have "in_transaction ctx (applied p ctx0')"
      using assms(1,2) failed(1) by (auto intro: in_transaction_applied in_transaction_begin)
    from rollback_in_transaction [OF this] failed show ?thesis
      by (auto simp: in_transaction_def)
  qed
  then show "stage \<noteq> Rollback"
    "ctx_services ctx' = ctx_services ctx" "ctx_inventory ctx' = ctx_inventory ctx"
    "bus_listeners (ctx_events ctx') = bus_listeners (ctx_events ctx)"
    "ctx_effects ctx' = ctx_effects ctx"
    "\<exists>ds. ctx_disposed ctx' = ctx_disposed ctx @ ds"
    "begin_activation (pl_name p) ctx = Inr ctx0 \<Longrightarrow> stage \<noteq> Admission \<Longrightarrow>
       ctx_disposed ctx' = ctx_disposed ctx
         @ rev (drop (length (ctx_effects ctx)) (ctx_effects (snd (declare_apply_and_record scope p ctx0))))"
    by blast+
qed

end
