(* ===== verification/Plugin_Generation.thy ===== *)
theory Plugin_Generation
  imports Composition
begin

text \<open>
  Reload generations (\<open>heycode-core/src/generation.rs\<close>): the registry of one live world
  and the retired worlds that still have readers. An \<open>Arc\<close> to a world is known by the
  generation number of the world, which no two worlds share; the handles readers hold are the
  list \<open>gr_readers\<close>. Dropping the last handle of a world shuts its context down:
  \<open>gr_dropped\<close> keeps those contexts, in the order they were dropped. A reload takes two
  locks one after the other; \<open>gr_pending\<close> holds the worlds that were replaced under the first
  and are not yet parked under the second. The locks recover
  from poisoning on the live side; nothing runs under the lock of the parked worlds but
  \<open>shutdown\<close>, which contains panics, so its poisoned branch is not modelled; nor is the
  drop of the registry itself.
\<close>

section \<open>State and operations\<close>

definition first_generation :: nat where
  "first_generation = 1"

record generation_registry =
  gr_generation :: nat
  gr_worlds :: "(nat, plugin_context) btree_map" \<comment> \<open>allocations alive\<close>
  gr_pending :: "nat list" \<comment> \<open>\<open>retired\<close>, held by the reloads under way\<close>
  gr_parked :: "nat list" \<comment> \<open>\<open>retiring\<close>\<close>
  gr_readers :: "nat list"
  gr_dropped :: "(nat \<times> plugin_context) list"

datatype reload_outcome =
    Swapped nat nat activation_report \<comment> \<open>replaced, live\<close>
  | Kept nat activation_report core_error \<comment> \<open>live\<close>

fun outcome_live :: "reload_outcome \<Rightarrow> nat" where
  "outcome_live (Swapped _ live _) = live"
| "outcome_live (Kept live _ _) = live"

fun outcome_swapped :: "reload_outcome \<Rightarrow> bool" where
  "outcome_swapped (Swapped _ _ _) = True"
| "outcome_swapped (Kept _ _ _) = False"

definition registry_new :: "plugin_context \<Rightarrow> generation_registry" where
  "registry_new ctx =
     \<lparr>gr_generation = first_generation, gr_worlds = bt_insert first_generation ctx bt_empty,
      gr_pending = [], gr_parked = [], gr_readers = [], gr_dropped = []\<rparr>"

text \<open>\<open>GenerationRegistry::context\<close>: a new handle to the live world.\<close>

definition registry_context :: "generation_registry \<Rightarrow> nat \<times> generation_registry" where
  "registry_context reg = (gr_generation reg, reg\<lparr>gr_readers := gr_generation reg # gr_readers reg\<rparr>)"

text \<open>A reader clones a handle it has, or lets one go; the registry still holds the world.\<close>

definition clone_reader :: "nat \<Rightarrow> generation_registry \<Rightarrow> generation_registry" where
  "clone_reader g reg = reg\<lparr>gr_readers := g # gr_readers reg\<rparr>"

definition release_reader :: "nat \<Rightarrow> generation_registry \<Rightarrow> generation_registry" where
  "release_reader g reg = reg\<lparr>gr_readers := remove1 g (gr_readers reg)\<rparr>"

text \<open>The drop of the last handle, which shuts the context down.\<close>

definition drop_world :: "nat \<Rightarrow> generation_registry \<Rightarrow> generation_registry" where
  "drop_world g reg =
     (case bt_get (gr_worlds reg) g of
        None \<Rightarrow> reg
      | Some ctx \<Rightarrow> reg\<lparr>gr_worlds := bt_remove g (gr_worlds reg),
                      gr_dropped := gr_dropped reg @ [(g, shutdown ctx)]\<rparr>)"

text \<open>\<open>Arc::get_mut\<close> succeeds on a parked world exactly when no reader holds it.\<close>

definition sweep :: "generation_registry \<Rightarrow> generation_registry" where
  "sweep reg =
     (let unread = filter (\<lambda>g. g \<notin> set (gr_readers reg)) (gr_parked reg)
      in (fold drop_world unread reg)
           \<lparr>gr_parked := filter (\<lambda>g. g \<in> set (gr_readers reg)) (gr_parked reg)\<rparr>)"

text \<open>The critical section of \<open>retire\<close>, under the lock of the parked worlds.\<close>

definition retire :: "nat \<Rightarrow> generation_registry \<Rightarrow> generation_registry" where
  "retire g reg =
     sweep (reg\<lparr>gr_pending := remove1 g (gr_pending reg), gr_parked := gr_parked reg @ [g]\<rparr>)"

definition sweep_retired :: "generation_registry \<Rightarrow> nat \<times> generation_registry" where
  "sweep_retired reg = (length (gr_parked (sweep reg)), sweep reg)"

definition pending_disposal :: "generation_registry \<Rightarrow> nat" where
  "pending_disposal reg = length (gr_parked reg)"

text \<open>The critical section of \<open>reload\<close> under the lock of the live world.\<close>

definition swap :: "plugin_context \<Rightarrow> generation_registry \<Rightarrow> generation_registry" where
  "swap ctx reg =
     reg\<lparr>gr_worlds := bt_insert (Suc (gr_generation reg)) ctx (gr_worlds reg),
         gr_generation := Suc (gr_generation reg),
         gr_pending := gr_pending reg @ [gr_generation reg]\<rparr>"

text \<open>A reload that no other thread gets in between.\<close>

definition reload ::
  "(plugin_scope \<times> plugin) list \<Rightarrow> generation_registry \<Rightarrow> reload_outcome \<times> generation_registry" where
  "reload plugins reg =
     (let candidate = compose_all plugins in
      case ca_context candidate of
        Inl cause \<Rightarrow> (Kept (gr_generation reg) (ca_report candidate) cause, reg)
      | Inr ctx \<Rightarrow>
          (let replaced = gr_generation reg;
               swapped = swap ctx reg
           in (Swapped replaced (gr_generation swapped) (ca_report candidate), retire replaced swapped)))"

section \<open>The life of a registry\<close>

text \<open>
  Readers and reloads interleave at the granularity of the locks: each step below is one
  critical section, or what a reader does with a handle of its own. The composition of a candidate
  holds no lock; a reload is the swap and, any number of steps of other threads later, the
  retirement of the world it replaced. Readers take no lock to clone or release a handle, so they may
  act while a sweep is under way; it looks at every parked world once, and what a reader does to a
  world before that look counts as done before the sweep, and otherwise as done after it.
\<close>

inductive registry_step :: "generation_registry \<Rightarrow> generation_registry \<Rightarrow> bool" where
  step_read: "registry_step reg (snd (registry_context reg))"
| step_clone: "g \<in> set (gr_readers reg) \<Longrightarrow> registry_step reg (clone_reader g reg)"
| step_release: "g \<in> set (gr_readers reg) \<Longrightarrow> registry_step reg (release_reader g reg)"
| step_swap: "ca_context (compose_all plugins) = Inr ctx \<Longrightarrow> registry_step reg (swap ctx reg)"
| step_retire: "g \<in> set (gr_pending reg) \<Longrightarrow> registry_step reg (retire g reg)"
| step_sweep: "registry_step reg (snd (sweep_retired reg))"

lemma reload_steps: "registry_step\<^sup>*\<^sup>* reg (snd (reload plugins reg))"
proof (cases "ca_context (compose_all plugins)")
  case (Inl e)
  then show ?thesis by (simp add: reload_def Let_def)
next
  case (Inr ctx)
  have "registry_step (swap ctx reg) (retire (gr_generation reg) (swap ctx reg))"
    by (rule step_retire) (simp add: swap_def)
  with step_swap [OF Inr, of reg] have "registry_step\<^sup>*\<^sup>* reg (retire (gr_generation reg) (swap ctx reg))"
    by (meson converse_rtranclp_into_rtranclp r_into_rtranclp)
  with Inr show ?thesis by (simp add: reload_def Let_def)
qed

inductive registry_reachable :: "plugin_context \<Rightarrow> generation_registry \<Rightarrow> bool" for ctx where
  reach_new: "registry_reachable ctx (registry_new ctx)"
| reach_step: "registry_reachable ctx reg \<Longrightarrow> registry_step reg reg' \<Longrightarrow> registry_reachable ctx reg'"

text \<open>
  The live world, the ones about to be parked and the parked ones are exactly the allocations;
  every handle is to one of them; the generations that ran are those and the dropped ones, each dropped once, shut down.
\<close>

definition shut_down :: "plugin_context \<Rightarrow> bool" where
  "shut_down ctx \<longleftrightarrow> ctx_closed ctx \<and> ctx_effects ctx = []"

definition registry_wf :: "generation_registry \<Rightarrow> bool" where
  "registry_wf reg \<longleftrightarrow>
     bt_inv (gr_worlds reg)
     \<and> dom (bt_get (gr_worlds reg)) = insert (gr_generation reg) (set (gr_pending reg @ gr_parked reg))
     \<and> distinct (gr_pending reg @ gr_parked reg @ map fst (gr_dropped reg) @ [gr_generation reg])
     \<and> insert (gr_generation reg) (set (gr_pending reg @ gr_parked reg) \<union> fst ` set (gr_dropped reg))
         = {first_generation..gr_generation reg}
     \<and> set (gr_readers reg) \<subseteq> dom (bt_get (gr_worlds reg))
     \<and> (\<forall>(g, ctx) \<in> set (gr_dropped reg). shut_down ctx)"

lemma registry_wf_new: "registry_wf (registry_new ctx)"
  by (auto simp: registry_wf_def registry_new_def)

lemma shut_down_shutdown [simp]: "shut_down (shutdown ctx)"
  by (simp add: shut_down_def shutdown_eq)

lemma drop_world_Some:
  "bt_get (gr_worlds reg) g = Some ctx \<Longrightarrow>
   drop_world g reg = reg\<lparr>gr_worlds := bt_remove g (gr_worlds reg),
                      gr_dropped := gr_dropped reg @ [(g, shutdown ctx)]\<rparr>"
  by (simp add: drop_world_def)

lemma fold_drop_world:
  assumes "bt_inv (gr_worlds reg)" "distinct gs" "set gs \<subseteq> dom (bt_get (gr_worlds reg))"
  shows "\<exists>more. map fst more = gs \<and> (\<forall>(g, ctx) \<in> set more. shut_down ctx)
    \<and> fold drop_world gs reg
        = reg\<lparr>gr_worlds := fold bt_remove gs (gr_worlds reg), gr_dropped := gr_dropped reg @ more\<rparr>"
  using assms
proof (induction gs arbitrary: reg)
  case Nil
  then show ?case by simp
next
  case (Cons g gs)
  from Cons.prems obtain ctx where g: "bt_get (gr_worlds reg) g = Some ctx" by auto
  let ?reg = "drop_world g reg"
  have "\<exists>more. map fst more = gs \<and> (\<forall>(g, ctx) \<in> set more. shut_down ctx)
    \<and> fold drop_world gs ?reg
        = ?reg\<lparr>gr_worlds := fold bt_remove gs (gr_worlds ?reg), gr_dropped := gr_dropped ?reg @ more\<rparr>"
    using Cons.prems by (intro Cons.IH) (auto simp: drop_world_Some [OF g])
  then obtain more where "map fst more = gs" "\<forall>(g, ctx) \<in> set more. shut_down ctx"
    "fold drop_world gs ?reg
        = ?reg\<lparr>gr_worlds := fold bt_remove gs (gr_worlds ?reg), gr_dropped := gr_dropped ?reg @ more\<rparr>"
    by blast
  then show ?case
    by (intro exI [of _ "(g, shutdown ctx) # more"]) (simp add: drop_world_Some [OF g])
qed

text \<open>Sweeping keeps the invariant and leaves exactly the parked worlds with readers.\<close>

lemma sweep_spec:
  assumes "bt_inv (gr_worlds reg)" "distinct (gr_parked reg)"
    "set (gr_parked reg) \<subseteq> dom (bt_get (gr_worlds reg))"
  defines "unread \<equiv> filter (\<lambda>g. g \<notin> set (gr_readers reg)) (gr_parked reg)"
  shows "\<exists>more. map fst more = unread \<and> (\<forall>(g, ctx) \<in> set more. shut_down ctx)
    \<and> sweep reg = reg\<lparr>gr_worlds := fold bt_remove unread (gr_worlds reg),
        gr_parked := filter (\<lambda>g. g \<in> set (gr_readers reg)) (gr_parked reg),
        gr_dropped := gr_dropped reg @ more\<rparr>"
proof -
  have "\<exists>more. map fst more = unread \<and> (\<forall>(g, ctx) \<in> set more. shut_down ctx)
    \<and> fold drop_world unread reg
        = reg\<lparr>gr_worlds := fold bt_remove unread (gr_worlds reg), gr_dropped := gr_dropped reg @ more\<rparr>"
    using assms by (intro fold_drop_world) auto
  then show ?thesis by (auto simp: sweep_def unread_def Let_def)
qed

lemma registry_wf_sweep:
  assumes "registry_wf reg"
  shows "registry_wf (sweep reg)"
proof -
  let ?unread = "filter (\<lambda>g. g \<notin> set (gr_readers reg)) (gr_parked reg)"
  have pre: "bt_inv (gr_worlds reg)" "distinct (gr_parked reg)"
    "set (gr_parked reg) \<subseteq> dom (bt_get (gr_worlds reg))"
    using assms by (auto simp: registry_wf_def)
  from sweep_spec [OF pre] obtain more where more: "map fst more = ?unread"
    "\<forall>(g, ctx) \<in> set more. shut_down ctx"
    and sw: "sweep reg = reg\<lparr>gr_worlds := fold bt_remove ?unread (gr_worlds reg),
        gr_parked := filter (\<lambda>g. g \<in> set (gr_readers reg)) (gr_parked reg),
        gr_dropped := gr_dropped reg @ more\<rparr>"
    by blast
  have fst_more: "fst ` set more = set ?unread" using more(1) by (metis list.set_map)
  have get: "bt_get (fold bt_remove ?unread (gr_worlds reg)) g =
      (if g \<in> set ?unread then None else bt_get (gr_worlds reg) g)" for g
    using pre(1) by (rule bt_get_fold_remove)
  have dom: "dom (bt_get (fold bt_remove ?unread (gr_worlds reg))) =
      dom (bt_get (gr_worlds reg)) - set ?unread"
    by (auto simp: get dom_def split: if_splits)
  have read: "set (gr_readers reg) \<subseteq> dom (bt_get (gr_worlds reg)) - set ?unread"
    using assms by (auto simp: registry_wf_def)
  have split: "set (gr_parked reg) = {g \<in> set (gr_parked reg). g \<in> set (gr_readers reg)} \<union> set ?unread"
    by auto
  have dist: "distinct (gr_pending reg @ filter (\<lambda>g. g \<in> set (gr_readers reg)) (gr_parked reg)
      @ map fst (gr_dropped reg @ more) @ [gr_generation reg])"
    using assms by (auto simp: registry_wf_def more(1))
  have cover: "insert (gr_generation reg)
      (set (gr_pending reg @ filter (\<lambda>g. g \<in> set (gr_readers reg)) (gr_parked reg))
        \<union> fst ` set (gr_dropped reg @ more))
      = {first_generation..gr_generation reg}"
  proof -
    have "set (gr_pending reg @ filter (\<lambda>g. g \<in> set (gr_readers reg)) (gr_parked reg))
          \<union> fst ` set (gr_dropped reg @ more)
        = set (gr_pending reg @ gr_parked reg) \<union> fst ` set (gr_dropped reg)"
      using split fst_more by (auto simp: image_Un)
    then show ?thesis using assms by (simp add: registry_wf_def)
  qed
  have doms: "dom (bt_get (gr_worlds reg)) - set ?unread =
      insert (gr_generation reg)
        (set (gr_pending reg @ filter (\<lambda>g. g \<in> set (gr_readers reg)) (gr_parked reg)))"
    using assms by (auto simp: registry_wf_def)
  have inv: "bt_inv (fold bt_remove ?unread (gr_worlds reg))"
    using pre(1) by (rule bt_inv_fold_remove)
  have closed: "\<forall>(g, ctx) \<in> set (gr_dropped reg @ more). shut_down ctx"
    using assms more(2) by (auto simp: registry_wf_def)
  show ?thesis
    unfolding registry_wf_def sw
    using dist cover doms read inv closed by (simp add: dom)
qed

text \<open>Moving a world from the pending to the parked ones.\<close>

lemma registry_wf_move:
  assumes "registry_wf reg" "gr_worlds reg' = gr_worlds reg" "gr_generation reg' = gr_generation reg"
    and "gr_readers reg' = gr_readers reg" "gr_dropped reg' = gr_dropped reg"
    and "set (gr_pending reg' @ gr_parked reg') = set (gr_pending reg @ gr_parked reg)"
    and "distinct (gr_pending reg' @ gr_parked reg' @ map fst (gr_dropped reg) @ [gr_generation reg])"
  shows "registry_wf reg'"
  using assms(1,7) unfolding registry_wf_def assms(2-6) by blast

lemma registry_wf_step:
  assumes "registry_wf reg" "registry_step reg reg'"
  shows "registry_wf reg'"
  using assms(2,1)
proof (induction rule: registry_step.induct)
  case (step_read reg)
  then show ?case by (auto simp: registry_context_def registry_wf_def)
next
  case (step_clone g reg)
  then show ?case by (auto simp: clone_reader_def registry_wf_def)
next
  case (step_release g reg)
  have "set (gr_readers reg) \<subseteq> dom (bt_get (gr_worlds reg))"
    using step_release(2) unfolding registry_wf_def by blast
  then have "set (remove1 g (gr_readers reg)) \<subseteq> dom (bt_get (gr_worlds reg))"
    by (rule subset_trans [OF set_remove1_subset])
  with step_release show ?case by (simp add: release_reader_def registry_wf_def)
next
  case (step_swap plugins ctx reg)
  let ?live = "Suc (gr_generation reg)"
  have range: "{first_generation..?live} = insert ?live {first_generation..gr_generation reg}"
    by (auto simp: first_generation_def)
  have fresh: "?live \<notin> set (gr_pending reg @ gr_parked reg) \<union> fst ` set (gr_dropped reg)"
  proof
    assume "?live \<in> set (gr_pending reg @ gr_parked reg) \<union> fst ` set (gr_dropped reg)"
    then have "?live \<in> {first_generation..gr_generation reg}"
      using step_swap(2) unfolding registry_wf_def by blast
    then show False by simp
  qed
  note wf = step_swap(2) [unfolded registry_wf_def]
  from wf have inv: "bt_inv (gr_worlds reg)" by (elim conjE)
  have doms: "dom (bt_get (bt_insert ?live ctx (gr_worlds reg))) =
      insert ?live (insert (gr_generation reg) (set (gr_pending reg @ gr_parked reg)))"
    using wf inv by simp
  have read: "set (gr_readers reg) \<subseteq> insert ?live (insert (gr_generation reg) (set (gr_pending reg @ gr_parked reg)))"
    using wf by blast
  have cover: "insert ?live (insert (gr_generation reg) (set (gr_pending reg @ gr_parked reg)
      \<union> fst ` set (gr_dropped reg))) = {first_generation..?live}"
    using wf by (simp only: range)
  have dist: "distinct ((gr_pending reg @ [gr_generation reg]) @ gr_parked reg
      @ map fst (gr_dropped reg) @ [?live])"
    using wf fresh by auto
  show ?case
    unfolding registry_wf_def swap_def
    using wf inv doms read cover dist by (simp add: insert_commute)
next
  case (step_retire g reg)
  note wf = step_retire(2) [unfolded registry_wf_def]
  have "distinct (gr_pending reg)" using wf by simp
  then have sets: "set (remove1 g (gr_pending reg)) = set (gr_pending reg) - {g}" by (rule set_remove1_eq)
  have all: "set (remove1 g (gr_pending reg) @ gr_parked reg @ [g]) = set (gr_pending reg @ gr_parked reg)"
    using step_retire(1) sets by auto
  have "distinct (remove1 g (gr_pending reg) @ (gr_parked reg @ [g]) @ map fst (gr_dropped reg)
      @ [gr_generation reg])"
    using wf step_retire(1) sets by auto
  with all have "registry_wf (reg\<lparr>gr_pending := remove1 g (gr_pending reg), gr_parked := gr_parked reg @ [g]\<rparr>)"
    by (intro registry_wf_move [OF step_retire(2)]) simp_all
  then show ?case by (simp add: retire_def registry_wf_sweep)
next
  case (step_sweep reg)
  then show ?case by (simp add: sweep_retired_def registry_wf_sweep)
qed

lemma registry_reachable_wf: "registry_reachable ctx reg \<Longrightarrow> registry_wf reg"
  by (induction rule: registry_reachable.induct) (auto intro: registry_wf_new registry_wf_step)

end
