(* ===== verification/Plugin_Inspection.thy ===== *)
theory Plugin_Inspection
  imports Composition "HOL-Library.Product_Lexorder"
begin

text \<open>
  The dry inspection of a composition (\<open>heycode-core/src/inspection.rs\<close>): it reads the
  static declarations of the requested plugins and runs no \<open>apply\<close>. Human messages of
  diagnostics are not modelled; their stable code, plugin and related identifiers are.
\<close>

record contribution_report =
  crow_kind :: string
  crow_name :: string

record plugin_report =
  prep_id :: string
  prep_version :: string
  prep_source :: string
  prep_scope :: string
  prep_injects :: "string list"
  prep_provides :: "string list"
  prep_contributions :: "contribution_report list"
  prep_state :: string

datatype diagnostic_code =
    DescriptorIdMismatchCode | DuplicatePluginCode | MissingDependencyCode
  | DuplicateProvideCode | ServiceCollisionCode | InvalidContributionCode
  | FamilyMismatchCode | DuplicateContributionCode | ContributionCollisionCode

fun diagnostic_code_str :: "diagnostic_code \<Rightarrow> string" where
  "diagnostic_code_str DescriptorIdMismatchCode = ''descriptor_id_mismatch''"
| "diagnostic_code_str DuplicatePluginCode = ''duplicate_plugin''"
| "diagnostic_code_str MissingDependencyCode = ''missing_dependency''"
| "diagnostic_code_str DuplicateProvideCode = ''duplicate_provide''"
| "diagnostic_code_str ServiceCollisionCode = ''service_collision''"
| "diagnostic_code_str InvalidContributionCode = ''invalid_contribution''"
| "diagnostic_code_str FamilyMismatchCode = ''contribution_family_mismatch''"
| "diagnostic_code_str DuplicateContributionCode = ''duplicate_contribution''"
| "diagnostic_code_str ContributionCollisionCode = ''contribution_collision''"

record composition_diagnostic =
  diag_code :: diagnostic_code
  diag_plugin :: string
  diag_related :: "string list"

definition diagnostic :: "diagnostic_code \<Rightarrow> string \<Rightarrow> string list \<Rightarrow> composition_diagnostic" where
  "diagnostic code plugin related =
     \<lparr>diag_code = code, diag_plugin = plugin, diag_related = related\<rparr>"

record composition_report =
  rep_healthy :: bool
  rep_plugins :: "plugin_report list"
  rep_diagnostics :: "composition_diagnostic list"

text \<open>The tables the loop carries: plugin ids, declared services and exact rows so far.\<close>

record inspection =
  ins_ids :: "string btree_set"
  ins_services :: "(string, string) btree_map"
  ins_exact :: "(contribution_kind \<times> string, string) btree_map"

definition inspection_new :: inspection where
  "inspection_new = \<lparr>ins_ids = bt_empty, ins_services = bt_empty, ins_exact = bt_empty\<rparr>"

definition identity_diagnostics :: "plugin \<Rightarrow> composition_diagnostic list" where
  "identity_diagnostics p =
     (if pd_id (pl_descriptor p) \<noteq> pl_name p
      then [diagnostic DescriptorIdMismatchCode (pl_name p) [pd_id (pl_descriptor p)]] else [])"

definition uniqueness_diagnostics :: "inspection \<Rightarrow> plugin \<Rightarrow> composition_diagnostic list" where
  "uniqueness_diagnostics st p =
     (if fst (set_insert (pl_name p) (ins_ids st)) then []
      else [diagnostic DuplicatePluginCode (pl_name p) [pl_name p]])"

definition dependency_diagnostics :: "inspection \<Rightarrow> plugin \<Rightarrow> composition_diagnostic list" where
  "dependency_diagnostics st p =
     (let missing = filter (\<lambda>key. \<not> bt_contains (ins_services st) key) (pl_inject p)
      in if missing = [] then [] else [diagnostic MissingDependencyCode (pl_name p) missing])"

fun provide_diagnostics ::
  "inspection \<Rightarrow> string \<Rightarrow> string btree_set \<Rightarrow> string list \<Rightarrow> composition_diagnostic list" where
  "provide_diagnostics st name local [] = []"
| "provide_diagnostics st name local (key # keys) =
     (let (fresh, local') = set_insert key local;
          found =
            (if \<not> fresh then [diagnostic DuplicateProvideCode name [key]]
             else case bt_get (ins_services st) key of
               Some existing \<Rightarrow> [diagnostic ServiceCollisionCode name [key, existing]]
             | None \<Rightarrow> [])
      in found @ provide_diagnostics st name local' keys)"

fun row_diagnostics ::
  "inspection \<Rightarrow> plugin \<Rightarrow> (contribution_kind \<times> string) btree_set
   \<Rightarrow> plugin_contribution_spec list \<Rightarrow> composition_diagnostic list" where
  "row_diagnostics st p local [] = []"
| "row_diagnostics st p local (row # rows) =
     (let name = pl_name p;
          kind = contribution_kind_str (spec_kind row);
          identity = (spec_kind row, spec_name row)
      in if invalid_contribution_name (spec_name row)
         then diagnostic InvalidContributionCode name [kind] # row_diagnostics st p local rows
         else if pd_source (pl_descriptor p) \<noteq> Unclassified
              \<and> descriptor_family (spec_kind row) \<notin> set (pd_contributions (pl_descriptor p))
         then diagnostic FamilyMismatchCode name [kind, spec_name row]
                # row_diagnostics st p local rows
         else
           (let (fresh, local') = set_insert identity local;
                found =
                  (if \<not> fresh
                   then [diagnostic DuplicateContributionCode name [kind, spec_name row]]
                   else case bt_get (ins_exact st) identity of
                     Some existing \<Rightarrow>
                       [diagnostic ContributionCollisionCode name [kind, spec_name row, existing]]
                   | None \<Rightarrow> [])
            in found @ row_diagnostics st p local' rows))"

definition plugin_diagnostics :: "inspection \<Rightarrow> plugin \<Rightarrow> composition_diagnostic list" where
  "plugin_diagnostics st p =
     identity_diagnostics p @ uniqueness_diagnostics st p @ dependency_diagnostics st p
     @ provide_diagnostics st (pl_name p) bt_empty (pl_provides p)
     @ row_diagnostics st p bt_empty (pl_inventory p)"

text \<open>A plugin that is not blocked publishes its declared services and rows to the tables.\<close>

definition inspect_step :: "inspection \<Rightarrow> plugin \<Rightarrow> inspection" where
  "inspect_step st p =
     (let st' = st\<lparr>ins_ids := snd (set_insert (pl_name p) (ins_ids st))\<rparr>
      in if plugin_diagnostics st p \<noteq> [] then st'
         else st'\<lparr>
           ins_services := fold (\<lambda>key m. bt_insert key (pl_name p) m) (pl_provides p) (ins_services st),
           ins_exact := fold (\<lambda>row m. bt_insert (spec_kind row, spec_name row) (pl_name p) m)
             (pl_inventory p) (ins_exact st)\<rparr>)"

definition plugin_row :: "inspection \<Rightarrow> plugin_scope \<times> plugin \<Rightarrow> plugin_report" where
  "plugin_row st sp =
     (let p = snd sp in
      \<lparr>prep_id = pl_name p, prep_version = pd_version (pl_descriptor p),
       prep_source = plugin_source_str (pd_source (pl_descriptor p)),
       prep_scope = plugin_scope_str (fst sp),
       prep_injects = pl_inject p, prep_provides = pl_provides p,
       prep_contributions =
         map (\<lambda>row. \<lparr>crow_kind = contribution_kind_str (spec_kind row), crow_name = spec_name row\<rparr>)
           (pl_inventory p),
       prep_state = (if plugin_diagnostics st p \<noteq> [] then ''blocked'' else ''ready'')\<rparr>)"

fun inspect_loop ::
  "inspection \<Rightarrow> (plugin_scope \<times> plugin) list \<Rightarrow> plugin_report list \<times> composition_diagnostic list" where
  "inspect_loop st [] = ([], [])"
| "inspect_loop st (sp # sps) =
     (let (reports, diags) = inspect_loop (inspect_step st (snd sp)) sps
      in (plugin_row st sp # reports, plugin_diagnostics st (snd sp) @ diags))"

definition inspect_composition :: "(plugin_scope \<times> plugin) list \<Rightarrow> composition_report" where
  "inspect_composition plugins =
     (let (reports, diags) = inspect_loop inspection_new plugins
      in \<lparr>rep_healthy = (diags = []), rep_plugins = reports, rep_diagnostics = diags\<rparr>)"

text \<open>The two phases of \<open>doctor --composition\<close>.\<close>

record composition_doctor_report =
  doc_schema_version :: nat
  doc_healthy :: bool
  doc_graph :: composition_report
  doc_activation :: "activation_diagnostic_report option"

definition doctor_report ::
  "composition_report \<Rightarrow> activation_diagnostic_report option \<Rightarrow> composition_doctor_report" where
  "doctor_report graph activation =
     \<lparr>doc_schema_version = 1,
      doc_healthy = (rep_healthy graph
        \<and> (case activation of None \<Rightarrow> False | Some a \<Rightarrow> adr_healthy a)),
      doc_graph = graph, doc_activation = activation\<rparr>"

end
