(* ===== verification/Inspection_Laws.thy ===== *)
theory Inspection_Laws
  imports Plugin_Inspection
begin

text \<open>
  The dry inspection against the real composition. For plugins whose \<open>apply\<close> publishes
  exactly the services they declare, inspection and composition agree plugin by plugin but for two
  checks of the composition that the inspection leaves out, \<open>services_listed\<close>.
\<close>

section \<open>Plugins that do what they declare\<close>

primrec provide_all :: "string \<Rightarrow> (string \<Rightarrow> any) \<Rightarrow> string list \<Rightarrow> apply_prog" where
  "provide_all owner svc [] = ApplyDone (Inr ())"
| "provide_all owner svc (key # keys) =
     ApplyCall (CallProvide key owner (svc key))
       (\<lambda>r. case r of ReplyResult (Inl e) \<Rightarrow> ApplyDone (Inl e) | _ \<Rightarrow> provide_all owner svc keys)"

text \<open>
  \<open>faithful svc p\<close>: the plugin publishes what it declares and nothing else, and does not
  list services among its static rows a second time.
\<close>

definition faithful :: "(string \<Rightarrow> any) \<Rightarrow> plugin \<Rightarrow> bool" where
  "faithful svc p \<longleftrightarrow>
     pl_apply p = provide_all (pl_name p) svc (pl_provides p)
     \<and> list_all (\<lambda>row. spec_kind row \<noteq> CkService) (pl_inventory p)"

text \<open>
  What the composition asks of declared services and the inspection does not: each is a valid name
  of a row, and a plugin with a declared source lists the family of services if it provides any.
\<close>

definition services_listed :: "plugin \<Rightarrow> bool" where
  "services_listed p \<longleftrightarrow>
     list_all (\<lambda>key. \<not> invalid_contribution_name key) (pl_provides p)
     \<and> (pl_provides p = [] \<or> pd_source (pl_descriptor p) = Unclassified
         \<or> FamService \<in> set (pd_contributions (pl_descriptor p)))"

section \<open>When inspection finds nothing\<close>

definition spec_id :: "plugin_contribution_spec \<Rightarrow> contribution_kind \<times> string" where
  "spec_id row = (spec_kind row, spec_name row)"

definition row_of :: "string \<Rightarrow> plugin_contribution_spec \<Rightarrow> plugin_contribution" where
  "row_of name row = \<lparr>pc_plugin = name, pc_kind = spec_kind row, pc_name = spec_name row\<rparr>"

lemma row_id_row_of [simp]: "row_id (row_of name row) = spec_id row"
  by (simp add: row_id_def row_of_def spec_id_def)

lemma not_Some_unit [simp]: "x \<noteq> Some () \<longleftrightarrow> x = None"
  by (cases x) simp_all

lemma identity_diagnostics_Nil: "identity_diagnostics p = [] \<longleftrightarrow> pd_id (pl_descriptor p) = pl_name p"
  by (simp add: identity_diagnostics_def)

lemma uniqueness_diagnostics_Nil:
  "uniqueness_diagnostics st p = [] \<longleftrightarrow> bt_get (ins_ids st) (pl_name p) = None"
  by (cases "bt_get (ins_ids st) (pl_name p)") (simp_all add: uniqueness_diagnostics_def set_insert_def)

lemma dependency_diagnostics_Nil:
  "dependency_diagnostics st p = [] \<longleftrightarrow> (\<forall>key \<in> set (pl_inject p). bt_contains (ins_services st) key)"
  by (auto simp: dependency_diagnostics_def Let_def filter_empty_conv)

lemma provide_diagnostics_Nil:
  "bt_inv local \<Longrightarrow> provide_diagnostics st name local keys = [] \<longleftrightarrow>
     distinct keys \<and> (\<forall>key \<in> set keys. bt_get local key = None \<and> bt_get (ins_services st) key = None)"
proof (induction keys arbitrary: local)
  case Nil
  then show ?case by simp
next
  case (Cons key keys)
  then show ?case
    by (auto simp: set_insert_def Let_def split: option.splits)
qed

lemma row_diagnostics_Nil:
  "bt_inv local \<Longrightarrow> row_diagnostics st p local rows = [] \<longleftrightarrow>
     distinct (map spec_id rows)
     \<and> (\<forall>row \<in> set rows. \<not> invalid_contribution_name (spec_name row)
          \<and> (pd_source (pl_descriptor p) = Unclassified
              \<or> descriptor_family (spec_kind row) \<in> set (pd_contributions (pl_descriptor p)))
          \<and> bt_get local (spec_id row) = None \<and> bt_get (ins_exact st) (spec_id row) = None)"
proof (induction rows arbitrary: local)
  case Nil
  then show ?case by simp
next
  case (Cons row rows)
  then show ?case
    by (auto simp: set_insert_def spec_id_def Let_def image_iff split: option.splits)
qed

lemmas diagnostics_Nil =
  identity_diagnostics_Nil uniqueness_diagnostics_Nil dependency_diagnostics_Nil
  provide_diagnostics_Nil row_diagnostics_Nil

section \<open>When the composition accepts\<close>

lemma declare_rows_Inr:
  assumes "ctx_applying ctx = Some name" "\<not> inv_poisoned (ctx_inventory ctx)"
  shows "declare_rows specs ctx = (Inr u, ctx') \<longleftrightarrow>
     distinct (map spec_id specs)
     \<and> (\<forall>row \<in> set specs. \<not> invalid_contribution_name (spec_name row)
          \<and> spec_id row \<notin> row_id ` set (inv_rows (ctx_inventory ctx)))
     \<and> ctx' = ctx\<lparr>ctx_inventory := (ctx_inventory ctx)\<lparr>inv_rows :=
          inv_rows (ctx_inventory ctx) @ map (row_of name) specs\<rparr>\<rparr>"
  using assms
proof (induction specs arbitrary: ctx)
  case Nil
  then show ?case by auto
next
  case (Cons row specs)
  show ?case
  proof (cases "context_contribute (spec_kind row) (spec_name row) ctx")
    case (Inl e)
    then have "invalid_contribution_name (spec_name row)
        \<or> spec_id row \<in> row_id ` set (inv_rows (ctx_inventory ctx))"
      using Cons.prems context_contribute_Inr [of "spec_kind row" "spec_name row" ctx]
      by (auto simp: inventory_contribute_Inr spec_id_def)
    with Inl show ?thesis by auto
  next
    case (Inr ctx1)
    then have ctx1: "ctx1 = ctx\<lparr>ctx_inventory := (ctx_inventory ctx)\<lparr>inv_rows :=
          inv_rows (ctx_inventory ctx) @ [row_of name row]\<rparr>\<rparr>"
      and ok: "\<not> invalid_contribution_name (spec_name row)"
        "spec_id row \<notin> row_id ` set (inv_rows (ctx_inventory ctx))"
      using Cons.prems
      by (auto simp: context_contribute_Inr inventory_contribute_Inr spec_id_def row_of_def)
    have "declare_rows specs ctx1 = (Inr u, ctx') \<longleftrightarrow>
     distinct (map spec_id specs)
     \<and> (\<forall>row \<in> set specs. \<not> invalid_contribution_name (spec_name row)
          \<and> spec_id row \<notin> row_id ` set (inv_rows (ctx_inventory ctx1)))
     \<and> ctx' = ctx1\<lparr>ctx_inventory := (ctx_inventory ctx1)\<lparr>inv_rows :=
          inv_rows (ctx_inventory ctx1) @ map (row_of name) specs\<rparr>\<rparr>"
      using Cons.prems by (intro Cons.IH) (simp_all add: ctx1)
    with Inr ctx1 ok show ?thesis by (auto simp: image_iff)
  qed
qed

definition service_row :: "string \<Rightarrow> string \<Rightarrow> plugin_contribution" where
  "service_row name key = \<lparr>pc_plugin = name, pc_kind = CkService, pc_name = key\<rparr>"

lemma row_id_service_row [simp]: "row_id (service_row name key) = (CkService, key)"
  by (simp add: service_row_def row_id_def)

text \<open>What the declared services add to a context, when they are accepted.\<close>

definition published :: "(string \<Rightarrow> any) \<Rightarrow> string \<Rightarrow> string list \<Rightarrow> plugin_context \<Rightarrow> plugin_context \<Rightarrow> bool" where
  "published svc name keys ctx ctx' \<longleftrightarrow>
     ctx_services ctx' = fold (\<lambda>key. bt_insert key (svc key, name)) keys (ctx_services ctx)
     \<and> inv_rows (ctx_inventory ctx') = inv_rows (ctx_inventory ctx) @ map (service_row name) keys"

lemma published_Cons:
  "published svc name (key # keys) ctx ctx' \<longleftrightarrow>
     (\<exists>ctx1. ctx1 = ctx\<lparr>ctx_services := bt_insert key (svc key, name) (ctx_services ctx),
          ctx_inventory := (ctx_inventory ctx)\<lparr>inv_rows := inv_rows (ctx_inventory ctx) @ [service_row name key]\<rparr>\<rparr>
       \<and> published svc name keys ctx1 ctx')"
  by (simp add: published_def)

lemma provide_all_head:
  assumes "ctx_applying ctx = Some name" "context_wf ctx" "\<not> inv_poisoned (ctx_inventory ctx)"
    "(CkService, key) \<in> row_id ` set (inv_rows (ctx_inventory ctx)) \<longrightarrow> context_has key ctx"
  obtains (refused) e where "context_has key ctx \<or> invalid_contribution_name key"
      "fst (run_apply (provide_all name svc (key # keys)) ctx) = Inl e"
  | (accepted) ctx1 where "\<not> context_has key ctx" "\<not> invalid_contribution_name key"
      "run_apply (provide_all name svc (key # keys)) ctx = run_apply (provide_all name svc keys) ctx1"
      "ctx_applying ctx1 = Some name" "context_wf ctx1" "\<not> inv_poisoned (ctx_inventory ctx1)"
      "ctx_services ctx1 = bt_insert key (svc key, name) (ctx_services ctx)"
      "inv_rows (ctx_inventory ctx1) = inv_rows (ctx_inventory ctx) @ [service_row name key]"
proof (cases "provide key name (svc key) ctx")
  case (Inl e)
  then have "context_has key ctx \<or> invalid_contribution_name key"
    using assms provide_Inr [of key name "svc key" ctx]
    by (auto simp: context_has_def inventory_contribute_Inr service_spec_def)
  with Inl refused show ?thesis by (simp add: keep_on_error_def)
next
  case (Inr ctx1)
  have "ctx_applying ctx1 = Some name" "\<not> inv_poisoned (ctx_inventory ctx1)"
    "ctx_services ctx1 = bt_insert key (svc key, name) (ctx_services ctx)"
    "inv_rows (ctx_inventory ctx1) = inv_rows (ctx_inventory ctx) @ [service_row name key]"
    "\<not> context_has key ctx" "\<not> invalid_contribution_name key"
    using Inr assms
    by (auto simp: provide_Inr inventory_contribute_Inr service_spec_def service_row_def context_has_def)
  moreover have "context_wf ctx1" using assms(2) Inr by (rule context_wf_provide)
  moreover have "run_apply (provide_all name svc (key # keys)) ctx = run_apply (provide_all name svc keys) ctx1"
    using Inr by (simp add: keep_on_error_def)
  ultimately show ?thesis by (intro accepted)
qed

lemma context_has_insert:
  "ctx_services ctx1 = bt_insert key v (ctx_services ctx) \<Longrightarrow> context_wf ctx \<Longrightarrow>
   context_has k ctx1 \<longleftrightarrow> k = key \<or> context_has k ctx"
  by (auto simp: context_has_def context_wf_def)

lemma run_provide_all:
  assumes "ctx_applying ctx = Some name" "context_wf ctx" "\<not> inv_poisoned (ctx_inventory ctx)"
    and "\<forall>key \<in> set keys. (CkService, key) \<in> row_id ` set (inv_rows (ctx_inventory ctx))
           \<longrightarrow> context_has key ctx"
  shows "(fst (run_apply (provide_all name svc keys) ctx) = Inr () \<longleftrightarrow>
      distinct keys \<and> (\<forall>key \<in> set keys. \<not> context_has key ctx \<and> \<not> invalid_contribution_name key))
    \<and> (fst (run_apply (provide_all name svc keys) ctx) = Inr () \<longrightarrow>
      published svc name keys ctx (snd (run_apply (provide_all name svc keys) ctx)))"
  using assms
proof (induction keys arbitrary: ctx)
  case Nil
  then show ?case by (simp add: published_def)
next
  case (Cons key keys)
  have pre: "(CkService, key) \<in> row_id ` set (inv_rows (ctx_inventory ctx)) \<longrightarrow> context_has key ctx"
    using Cons.prems by simp
  from Cons.prems(1-3) pre show ?case
  proof (cases rule: provide_all_head [where svc = svc and keys = keys])
    case (refused e)
    then have "fst (run_apply (provide_all name svc (key # keys)) ctx) \<noteq> Inr ()" by simp
    with refused(1) show ?thesis by (auto simp del: provide_all.simps)
  next
    case (accepted ctx1)
    note has = context_has_insert [OF accepted(7) Cons.prems(2)]
    have "(fst (run_apply (provide_all name svc keys) ctx1) = Inr () \<longleftrightarrow>
      distinct keys \<and> (\<forall>key \<in> set keys. \<not> context_has key ctx1 \<and> \<not> invalid_contribution_name key))
    \<and> (fst (run_apply (provide_all name svc keys) ctx1) = Inr () \<longrightarrow>
      published svc name keys ctx1 (snd (run_apply (provide_all name svc keys) ctx1)))"
      using Cons.prems accepted has by (intro Cons.IH) auto
    then show ?thesis
      unfolding accepted(3) using accepted(1,2,7,8) has by (auto simp: published_def)
  qed
qed

section \<open>Inspection and composition agree\<close>

lemma bt_inv_fold_insert: "bt_inv m \<Longrightarrow> bt_inv (fold (\<lambda>x. bt_insert (f x) (g x)) xs m)"
  by (induction xs arbitrary: m) simp_all

lemma bt_contains_fold_insert:
  "bt_inv m \<Longrightarrow> bt_contains (fold (\<lambda>x. bt_insert (f x) (g x)) xs m) k \<longleftrightarrow>
     k \<in> f ` set xs \<or> bt_contains m k"
  by (induction xs arbitrary: m) (auto split: if_splits)

text \<open>The tables of the inspection describe the context composed so far.\<close>

definition agrees :: "inspection \<Rightarrow> plugin_context \<Rightarrow> string list \<Rightarrow> bool" where
  "agrees st ctx seen \<longleftrightarrow>
     context_wf ctx \<and> \<not> inv_poisoned (ctx_inventory ctx)
     \<and> bt_inv (ins_ids st) \<and> bt_inv (ins_services st) \<and> bt_inv (ins_exact st)
     \<and> (\<forall>name. bt_contains (ins_ids st) name \<longleftrightarrow> name \<in> set seen)
     \<and> (\<forall>key. bt_contains (ins_services st) key \<longleftrightarrow> context_has key ctx)
     \<and> (\<forall>rid. rid \<in> row_id ` set (inv_rows (ctx_inventory ctx)) \<longleftrightarrow>
          bt_contains (ins_exact st) rid \<or> (fst rid = CkService \<and> context_has (snd rid) ctx))
     \<and> (\<forall>key. \<not> bt_contains (ins_exact st) (CkService, key))
     \<and> (\<forall>row \<in> set (inv_rows (ctx_inventory ctx)). pc_plugin row \<in> set seen)"

lemma agrees_new: "agrees inspection_new context_new []"
proof -
  have "context_wf context_new" by simp
  then show ?thesis
    by (simp add: agrees_def inspection_new_def context_new_def inventory_new_def context_has_def)
qed

text \<open>The rows of a faithful plugin that inspection accepts, after its activation.\<close>

lemma faithful_applied:
  assumes "agrees st ctx seen" "faithful svc p" "pl_name p \<notin> set seen"
    and "begin_activation (pl_name p) ctx = Inr ctx0"
    and "pd_id (pl_descriptor p) = pl_name p"
  shows "is_ok (fst (declare_apply_and_record scope p ctx0)) \<longleftrightarrow>
      provide_diagnostics st (pl_name p) bt_empty (pl_provides p) = []
      \<and> row_diagnostics st p bt_empty (pl_inventory p) = [] \<and> services_listed p"
    and "declare_apply_and_record scope p ctx0 = (Inr u, ctx1) \<Longrightarrow>
      ctx_services ctx1 = fold (\<lambda>key. bt_insert key (svc key, pl_name p)) (pl_provides p) (ctx_services ctx)
      \<and> inv_rows (ctx_inventory ctx1) = inv_rows (ctx_inventory ctx)
          @ map (row_of (pl_name p)) (pl_inventory p) @ map (service_row (pl_name p)) (pl_provides p)"
proof -
  let ?name = "pl_name p"
  define declared where "declared = ctx0\<lparr>ctx_inventory := (ctx_inventory ctx0)\<lparr>inv_rows :=
          inv_rows (ctx_inventory ctx0) @ map (row_of ?name) (pl_inventory p)\<rparr>\<rparr>"
  define rows_ok where "rows_ok \<longleftrightarrow> distinct (map spec_id (pl_inventory p))
     \<and> (\<forall>row \<in> set (pl_inventory p). \<not> invalid_contribution_name (spec_name row)
          \<and> spec_id row \<notin> row_id ` set (inv_rows (ctx_inventory ctx)))"
  define family_ok where "family_ok \<longleftrightarrow> pd_source (pl_descriptor p) = Unclassified
     \<or> (\<forall>row \<in> set (pl_inventory p). descriptor_family (spec_kind row) \<in> set (pd_contributions (pl_descriptor p)))"
  define keys_ok where "keys_ok \<longleftrightarrow> distinct (pl_provides p) \<and> (\<forall>key \<in> set (pl_provides p). \<not> context_has key ctx)"
  define names_ok where "names_ok \<longleftrightarrow> (\<forall>key \<in> set (pl_provides p). \<not> invalid_contribution_name key)"
  define listed where "listed \<longleftrightarrow> pl_provides p = [] \<or> pd_source (pl_descriptor p) = Unclassified
     \<or> FamService \<in> set (pd_contributions (pl_descriptor p))"
  have services: "services_listed p \<longleftrightarrow> names_ok \<and> listed"
    by (simp add: services_listed_def names_ok_def listed_def list_all_iff)
  have ctx0: "ctx_services ctx0 = ctx_services ctx" "ctx_inventory ctx0 = ctx_inventory ctx"
    "ctx_applying ctx0 = Some ?name" "ctx_events ctx0 = ctx_events ctx"
    using assms(4) by (auto simp: begin_activation_Inr)
  have wf0: "context_wf ctx0"
    using assms(1,4) by (auto simp: agrees_def intro: context_wf_begin)
  have live: "\<not> inv_poisoned (ctx_inventory ctx0)" using assms(1) ctx0 by (simp add: agrees_def)
  have decl: "declare_rows (pl_inventory p) ctx0 = (Inr v, ctx') \<longleftrightarrow> rows_ok \<and> ctx' = declared" for v ctx'
    using declare_rows_Inr [OF ctx0(3) live] by (simp add: rows_ok_def declared_def ctx0)
  have exact: "spec_id row \<in> row_id ` set (inv_rows (ctx_inventory ctx)) \<longleftrightarrow> bt_contains (ins_exact st) (spec_id row)"
    if "row \<in> set (pl_inventory p)" for row
    using assms(1,2) that by (auto simp: agrees_def faithful_def list_all_iff spec_id_def)
  have rows_diag: "row_diagnostics st p bt_empty (pl_inventory p) = [] \<longleftrightarrow> rows_ok \<and> family_ok"
    using exact by (auto simp: row_diagnostics_Nil rows_ok_def family_ok_def)
  have keys_diag: "provide_diagnostics st ?name bt_empty (pl_provides p) = [] \<longleftrightarrow> keys_ok"
  proof -
    have "context_has key ctx \<longleftrightarrow> bt_get (ins_services st) key \<noteq> None" for key
      using assms(1) by (auto simp: agrees_def)
    then show ?thesis by (auto simp: provide_diagnostics_Nil keys_ok_def)
  qed
  have run: "(fst (run_apply (pl_apply p) declared) = Inr () \<longleftrightarrow> keys_ok \<and> names_ok)
      \<and> (fst (run_apply (pl_apply p) declared) = Inr () \<longrightarrow>
          published svc ?name (pl_provides p) declared (snd (run_apply (pl_apply p) declared)))"
    if "rows_ok"
  proof -
    have "context_wf (snd (declare_rows (pl_inventory p) ctx0))"
      by (rule context_wf_declare_rows [OF wf0])
    then have wf: "context_wf declared" using decl [of "()" declared] that by simp
    have has: "context_has key declared \<longleftrightarrow> context_has key ctx" for key
      by (simp add: context_has_def declared_def ctx0)
    have rows: "row_id ` set (inv_rows (ctx_inventory declared)) =
        row_id ` set (inv_rows (ctx_inventory ctx)) \<union> spec_id ` set (pl_inventory p)"
      by (auto simp: declared_def ctx0 image_Un image_image)
    have no_service: "(CkService, key) \<notin> spec_id ` set (pl_inventory p)" for key
      using assms(2) by (auto simp: faithful_def list_all_iff spec_id_def)
    have no_exact: "(CkService, key) \<in> row_id ` set (inv_rows (ctx_inventory declared)) \<Longrightarrow>
        context_has key declared" for key
      using assms(1) no_service [of key] unfolding rows has
      by (auto simp: agrees_def simp del: bt_contains_iff)
    show ?thesis
      using run_provide_all [of declared ?name "pl_provides p" svc] wf has no_exact assms(2) live
      by (auto simp: keys_ok_def names_ok_def faithful_def declared_def ctx0)
  qed
  have rows': "inv_rows (ctx_inventory ctx') = inv_rows (ctx_inventory ctx)
      @ map (row_of ?name) (pl_inventory p) @ map (service_row ?name) (pl_provides p)"
    if "published svc ?name (pl_provides p) declared ctx'" for ctx'
    using that by (simp add: published_def declared_def ctx0)
  have fam: "(pd_source (pl_descriptor p) \<noteq> Unclassified \<longrightarrow>
       (\<forall>row \<in> set (inv_rows (ctx_inventory ctx')). pc_plugin row = pd_id (pl_descriptor p) \<longrightarrow>
          descriptor_family (pc_kind row) \<in> set (pd_contributions (pl_descriptor p)))) \<longleftrightarrow> family_ok \<and> listed"
    if "published svc ?name (pl_provides p) declared ctx'" for ctx'
  proof -
    have "\<forall>row \<in> set (inv_rows (ctx_inventory ctx)). pc_plugin row \<noteq> ?name"
      using assms(1,3) by (auto simp: agrees_def)
    then show ?thesis
      using rows' [OF that] assms(2,5)
      by (cases "pl_provides p") (auto simp: family_ok_def listed_def row_of_def service_row_def ball_Un)
  qed
  have frame: "inv_poisoned (ctx_inventory (snd (run_apply prog declared))) = inv_poisoned (ctx_inventory ctx0)" for prog
    using frame_run_apply [of prog declared] by (simp add: frame_def declared_def)
  obtain r ctx2 where ran: "run_apply (pl_apply p) declared = (r, ctx2)"
    by (cases "run_apply (pl_apply p) declared")
  have result: "is_ok (fst (declare_apply_and_record scope p ctx0)) \<longleftrightarrow> rows_ok \<and> keys_ok \<and> family_ok \<and> names_ok \<and> listed"
  proof (cases rows_ok)
    case False
    then obtain e ctx' where "declare_rows (pl_inventory p) ctx0 = (Inl e, ctx')"
      using decl by (cases "declare_rows (pl_inventory p) ctx0"; cases "fst (declare_rows (pl_inventory p) ctx0)") auto
    with False show ?thesis by (simp add: declare_apply_and_record_def)
  next
    case True
    then have d: "declare_rows (pl_inventory p) ctx0 = (Inr (), declared)" using decl by simp
    show ?thesis
    proof (cases r)
      case (Inl e)
      with run [OF True] ran d True show ?thesis by (auto simp: declare_apply_and_record_def)
    next
      case (Inr v)
      then have keys_ok names_ok and pub: "published svc ?name (pl_provides p) declared ctx2"
        using run [OF True] ran by auto
      have "is_ok (context_record_plugin (pl_descriptor p) scope ctx2) \<longleftrightarrow> family_ok \<and> listed"
        using fam [OF pub] frame [of "pl_apply p"] ran live
        by (auto simp: is_ok_iff context_record_plugin_Inr inventory_record_plugin_Inr)
      with \<open>keys_ok\<close> \<open>names_ok\<close> Inr d ran True show ?thesis
        by (auto simp: declare_apply_and_record_def split: sum.splits)
    qed
  qed
  show "is_ok (fst (declare_apply_and_record scope p ctx0)) \<longleftrightarrow>
      provide_diagnostics st (pl_name p) bt_empty (pl_provides p) = []
      \<and> row_diagnostics st p bt_empty (pl_inventory p) = [] \<and> services_listed p"
    using result keys_diag rows_diag services by blast
  assume fin: "declare_apply_and_record scope p ctx0 = (Inr u, ctx1)"
  then have oks: rows_ok using result by simp
  then have d: "declare_rows (pl_inventory p) ctx0 = (Inr (), declared)" using decl by simp
  have r: "r = Inr ()" and rec: "context_record_plugin (pl_descriptor p) scope ctx2 = Inr ctx1"
    using fin d ran by (auto simp: declare_apply_and_record_def split: sum.splits)
  have pub: "published svc ?name (pl_provides p) declared ctx2" using run [OF oks] ran r by simp
  show "ctx_services ctx1 = fold (\<lambda>key. bt_insert key (svc key, pl_name p)) (pl_provides p) (ctx_services ctx)
      \<and> inv_rows (ctx_inventory ctx1) = inv_rows (ctx_inventory ctx)
          @ map (row_of (pl_name p)) (pl_inventory p) @ map (service_row (pl_name p)) (pl_provides p)"
    using rec pub rows' [OF pub]
    by (auto simp: context_record_plugin_Inr inventory_record_plugin_Inr published_def declared_def ctx0)
qed

lemma agreesD:
  assumes "agrees st ctx seen"
  shows "context_wf ctx" "\<not> inv_poisoned (ctx_inventory ctx)"
    "bt_inv (ins_ids st)" "bt_inv (ins_services st)" "bt_inv (ins_exact st)"
    "bt_contains (ins_ids st) name \<longleftrightarrow> name \<in> set seen"
    "bt_contains (ins_services st) key \<longleftrightarrow> context_has key ctx"
    "rid \<in> row_id ` set (inv_rows (ctx_inventory ctx)) \<longleftrightarrow>
        bt_contains (ins_exact st) rid \<or> (fst rid = CkService \<and> context_has (snd rid) ctx)"
    "\<not> bt_contains (ins_exact st) (CkService, key)"
    "row \<in> set (inv_rows (ctx_inventory ctx)) \<Longrightarrow> pc_plugin row \<in> set seen"
  using assms unfolding agrees_def by metis+

lemma is_ok_fst: "is_ok (fst x) \<longleftrightarrow> (\<exists>y. x = (Inr (), y))" for x :: "('e + unit) \<times> 's"
  by (cases x; cases "fst x") auto

text \<open>
  One plugin: its activation succeeds exactly when inspection reports nothing and the composition
  accepts its services.
\<close>

lemma agrees_step:
  assumes "agrees st ctx seen" "faithful svc p"
  shows "plugin_diagnostics st p = [] \<and> services_listed p \<longleftrightarrow> is_ok (fst (activate scope p ctx seen))"
    and "activate scope p ctx seen = (Inr u, ctx', seen') \<Longrightarrow> agrees (inspect_step st p) ctx' seen'"
proof -
  note wf = agreesD(1) [OF assms(1)] and live = agreesD(2) [OF assms(1)]
    and inv = agreesD(3-5) [OF assms(1)] and svcs = agreesD(7) [OF assms(1)]
    and rids = agreesD(8) [OF assms(1)]
  have ids: "bt_get (ins_ids st) name = None \<longleftrightarrow> name \<notin> set seen" for name
    using agreesD(6) [OF assms(1), of name] by auto
  from live obtain ctx0 where ctx0: "begin_activation (pl_name p) ctx = Inr ctx0"
    by (auto simp: begin_activation_Inr capture_Inr)
  have "plugin_diagnostics st p = [] \<and> services_listed p \<longleftrightarrow>
      pd_id (pl_descriptor p) = pl_name p \<and> pl_name p \<notin> set seen
      \<and> (\<forall>key \<in> set (pl_inject p). context_has key ctx)
      \<and> is_ok (fst (declare_apply_and_record scope p ctx0))"
    using faithful_applied(1) [OF assms _ ctx0, of scope] ids [of "pl_name p"] svcs
    by (auto simp: plugin_diagnostics_def identity_diagnostics_Nil uniqueness_diagnostics_Nil
        dependency_diagnostics_Nil)
  also have "\<dots> \<longleftrightarrow> is_ok (fst (activate scope p ctx seen))"
    by (simp add: is_ok_fst split_paired_Ex activate_Inr ctx0)
  finally show eq: "plugin_diagnostics st p = [] \<and> services_listed p \<longleftrightarrow> is_ok (fst (activate scope p ctx seen))" .
  assume act: "activate scope p ctx seen = (Inr u, ctx', seen')"
  then obtain ctx1 where name: "pd_id (pl_descriptor p) = pl_name p" "pl_name p \<notin> set seen"
    and seen': "seen' = seen @ [pl_name p]"
    and ctx1: "declare_apply_and_record scope p ctx0 = (Inr (), ctx1)" "ctx' = commit_activation ctx1"
    using ctx0 by (auto simp: activate_Inr)
  have wf': "context_wf ctx'" using wf act by (rule activate_wf)
  from faithful_applied(2) [OF assms name(2) ctx0 name(1) ctx1(1)]
  have services: "ctx_services ctx' =
      fold (\<lambda>key. bt_insert key (svc key, pl_name p)) (pl_provides p) (ctx_services ctx)"
    and rows: "inv_rows (ctx_inventory ctx') = inv_rows (ctx_inventory ctx)
      @ map (row_of (pl_name p)) (pl_inventory p) @ map (service_row (pl_name p)) (pl_provides p)"
    using ctx1(2) by (simp_all add: commit_activation_def)
  have live': "\<not> inv_poisoned (ctx_inventory ctx')"
    using act
    by (rule activate_success)
      (auto simp: context_record_plugin_Inr inventory_record_plugin_Inr commit_activation_def)
  have clean: "plugin_diagnostics st p = []" using eq act by simp
  have has': "context_has key ctx' \<longleftrightarrow> key \<in> set (pl_provides p) \<or> context_has key ctx" for key
    using wf bt_contains_fold_insert [of "ctx_services ctx" "\<lambda>k. k" "\<lambda>k. (svc k, pl_name p)" "pl_provides p" key]
    by (simp add: context_has_def services context_wf_def del: bt_contains_iff)
  have step: "ins_ids (inspect_step st p) = bt_insert (pl_name p) () (ins_ids st)"
    "ins_services (inspect_step st p) = fold (\<lambda>key m. bt_insert key (pl_name p) m) (pl_provides p) (ins_services st)"
    "ins_exact (inspect_step st p) = fold (\<lambda>row m. bt_insert (spec_id row) (pl_name p) m)
             (pl_inventory p) (ins_exact st)"
    using clean by (simp_all add: inspect_step_def set_insert_def spec_id_def)
  have ids': "bt_contains (ins_ids (inspect_step st p)) n \<longleftrightarrow> n \<in> set seen'" for n
    using ids [of n] inv by (auto simp: step seen')
  have svcs': "bt_contains (ins_services (inspect_step st p)) key \<longleftrightarrow> context_has key ctx'" for key
    using bt_contains_fold_insert [OF inv(2), of "\<lambda>k. k" "\<lambda>k. pl_name p" "pl_provides p" key] svcs
    by (simp add: step has' del: bt_contains_iff)
  have exact': "bt_contains (ins_exact (inspect_step st p)) rid \<longleftrightarrow>
      rid \<in> spec_id ` set (pl_inventory p) \<or> bt_contains (ins_exact st) rid" for rid
    unfolding step by (rule bt_contains_fold_insert [OF inv(3)])
  show "agrees (inspect_step st p) ctx' seen'"
    unfolding agrees_def
  proof (intro conjI allI ballI)
    show "rid \<in> row_id ` set (inv_rows (ctx_inventory ctx')) \<longleftrightarrow>
        bt_contains (ins_exact (inspect_step st p)) rid \<or> (fst rid = CkService \<and> context_has (snd rid) ctx')" for rid
      using rids [of rid] unfolding exact' has' rows
      by (cases rid) (auto simp: image_Un image_image simp del: bt_contains_iff)
    show "\<not> bt_contains (ins_exact (inspect_step st p)) (CkService, key)" for key
      using assms unfolding exact' by (auto simp: agrees_def faithful_def list_all_iff spec_id_def)
    show "pc_plugin row \<in> set seen'" if "row \<in> set (inv_rows (ctx_inventory ctx'))" for row
      using that assms(1) by (auto simp: rows seen' row_of_def service_row_def agrees_def)
  qed (use wf' live' ids' svcs' in \<open>simp_all add: step inv bt_inv_fold_insert\<close>)
qed

lemma agrees_loop:
  assumes "agrees st ctx seen" "\<forall>sp \<in> set sps. faithful svc (snd sp)"
  shows "fst (snd (compose_loop sps ctx seen)) = None \<longleftrightarrow>
    snd (inspect_loop st sps) = [] \<and> (\<forall>sp \<in> set sps. services_listed (snd sp))"
  using assms
proof (induction sps arbitrary: st ctx seen)
  case Nil
  then show ?case by simp
next
  case (Cons sp sps)
  have f: "faithful svc (snd sp)" using Cons.prems(2) by simp
  obtain r ctx' seen' where act: "activate (fst sp) (snd sp) ctx seen = (r, ctx', seen')"
    by (cases "activate (fst sp) (snd sp) ctx seen")
  note step = agrees_step [OF Cons.prems(1) f, of "fst sp"]
  show ?case
  proof (cases r)
    case (Inl e)
    with step(1) act show ?thesis by (auto simp: Let_def split: prod.splits)
  next
    case (Inr u)
    have "agrees (inspect_step st (snd sp)) ctx' seen'" by (rule step(2)) (use act Inr in simp)
    from Cons.IH [OF this] Cons.prems(2) have
      "fst (snd (compose_loop sps ctx' seen')) = None \<longleftrightarrow>
        snd (inspect_loop (inspect_step st (snd sp)) sps) = [] \<and> (\<forall>sp \<in> set sps. services_listed (snd sp))"
      by simp
    with step(1) act Inr show ?thesis by (auto simp: Let_def split: prod.splits)
  qed
qed

end
