(* ===== verification/Kernel_Properties.thy ===== *)
theory Kernel_Properties
  imports Plugin_Generation Inspection_Laws
begin

text \<open>
  The properties of the plugin kernel: activation transactions, composition, the inventory,
  reload generations, the dry inspection and the two mechanisms of the event bus.
\<close>

section \<open>Sample plugins\<close>

text \<open>Concrete plugins for the witnesses below.\<close>

definition sample_any :: any where
  "sample_any = Any 1 41"

definition sample_provider :: plugin where
  "sample_provider =
     \<lparr>pl_name = ''counter'',
      pl_descriptor = built_in ''counter'' ''1.0.0'' [FamService, FamTool],
      pl_inject = [], pl_provides = [''counter''],
      pl_inventory = [\<lparr>spec_kind = CkTool, spec_name = ''count''\<rparr>],
      pl_apply = ApplyCall (CallOnEffect 3) (\<lambda>_.
        ApplyCall (CallProvide ''counter'' ''counter'' sample_any) (\<lambda>r.
          case r of ReplyResult (Inl e) \<Rightarrow> ApplyDone (Inl e)
          | _ \<Rightarrow> ApplyCall (CallEffect 7) (\<lambda>_. ApplyDone (Inr ()))))\<rparr>"

definition sample_consumer :: plugin where
  "sample_consumer =
     (bare_plugin ''consumer'' (ApplyCall (CallGet ''counter'' 1) (\<lambda>_. ApplyDone (Inr ()))))
       \<lparr>pl_inject := [''counter'']\<rparr>"

text \<open>It registers a service, a listener and an effect, and then fails.\<close>

definition sample_failing :: plugin where
  "sample_failing =
     bare_plugin ''failing''
       (ApplyCall (CallProvide ''other'' ''failing'' sample_any) (\<lambda>_.
          ApplyCall (CallOnEffect 5) (\<lambda>_.
            ApplyCall (CallEffect 8) (\<lambda>_. ApplyDone (Inl (PluginError ''bad config''))))))"

definition sample_context :: plugin_context where
  "sample_context =
     \<lparr>ctx_services = [(''counter'', sample_any, ''counter'')],
      ctx_plugins = [''counter'', ''consumer''],
      ctx_descriptors = [pl_descriptor sample_provider, pl_descriptor sample_consumer],
      ctx_scopes = [BuiltIn, User],
      ctx_inventory =
        \<lparr>inv_plugins =
           [\<lparr>ap_descriptor = pl_descriptor sample_provider, ap_scope = BuiltIn\<rparr>,
            \<lparr>ap_descriptor = pl_descriptor sample_consumer, ap_scope = User\<rparr>],
         inv_rows =
           [\<lparr>pc_plugin = ''counter'', pc_kind = CkTool, pc_name = ''count''\<rparr>,
            \<lparr>pc_plugin = ''counter'', pc_kind = CkService, pc_name = ''counter''\<rparr>],
         inv_poisoned = False\<rparr>,
      ctx_applying = None, ctx_activation = None,
      ctx_effects = [WithdrawListener 3 0, UserDisposer 7],
      ctx_events = \<lparr>bus_listeners = [(3, [0])], bus_next = 1\<rparr>,
      ctx_closed = False, ctx_disposed = []\<rparr>"

definition sample_failed :: plugin_context where
  "sample_failed = fst (snd (activate Project sample_failing context_new []))"

definition sample_transaction :: plugin_context where
  "sample_transaction =
     context_new\<lparr>ctx_activation :=
         Some \<lparr>tx_before = \<lparr>fp_services = [], fp_contributions = [], fp_recorded = [],
                 fp_plugins = [], fp_descriptors = [], fp_scopes = [], fp_effects = 0,
                 fp_listeners = 0\<rparr>,
               tx_services = [], tx_contributions = 0, tx_effects = 0\<rparr>,
       ctx_applying := Some ''failing''\<rparr>"

lemmas sample_defs =
  sample_any_def sample_provider_def sample_consumer_def sample_failing_def bare_plugin_def
  unclassified_def built_in_def

text \<open>What evaluates the operations of the kernel on a concrete context.\<close>

lemmas context_eval =
  activate_def verify_injects_def begin_activation_def capture_def inventory_snapshot_def
  declare_apply_and_record_def context_contribute_def inventory_contribute_def provide_def
  service_spec_def keep_on_error_def effect_def context_on_effect_def insert_listener_def
  context_get_def context_has_def context_record_plugin_def inventory_record_plugin_def
  family_mismatch_def commit_activation_def rollback_activation_def inventory_rollback_def
  dispose_effects_above_def run_disposer_def withdraw_listener_def residue_def residue_parts_def
  cells_of_def listener_count_def pending_effects_def activation_row_def
  context_new_def inventory_new_def bus_new_def plain_contribution_name plain_eval map_eval Let_def

lemma sample_composed:
  "compose_scoped [(BuiltIn, sample_provider), (User, sample_consumer)] = Inr sample_context"
  by (simp add: compose_scoped_def compose_all_def sample_context_def sample_defs context_eval)

lemma sample_activation_failed:
  "activate Project sample_failing context_new []
     = (Inl (Apply, PluginError ''bad config''), sample_failed, [])"
  unfolding sample_failed_def by (simp add: sample_defs context_eval)

lemma sample_scoped:
  "scoped_prog (pl_apply sample_provider)" "scoped_prog (pl_apply sample_consumer)"
  "scoped_prog (pl_apply sample_failing)"
  by (auto simp: sample_defs split: ctx_reply.splits sum.splits)

lemma sample_begin: "begin_activation ''failing'' context_new = Inr sample_transaction"
  by (simp add: sample_transaction_def context_eval)

section \<open>Activation transactions\<close>

text \<open>
  C2: an activation that fails, and does not report a broken rollback, has published
  nothing: the fingerprint of the context and the set of activated names are what they were,
  whatever the plugin's \<open>apply\<close> called before it failed. A broken rollback is reported
  exactly when the fingerprint did change.
\<close>

theorem failed_activation_publishes_nothing:
  assumes "activate scope p ctx seen = (Inl (stage, e), ctx', seen')"
  shows "seen' = seen \<and> (stage \<noteq> Rollback \<longrightarrow> capture ctx' = capture ctx)
    \<and> (stage = Rollback \<longrightarrow> capture ctx' \<noteq> capture ctx)"
proof -
  have "seen' = seen" using assms by (cases rule: activate_Inl_cases) auto
  moreover have "capture ctx' \<noteq> capture ctx" if broken: "stage = Rollback"
    using assms
  proof (cases rule: activate_Inl_cases)
    case refused
    with broken show ?thesis by simp
  next
    case (failed ctx0 s c out)
    then obtain left where out: "out = Some left" using broken by auto
    from failed(1) obtain before tx where before: "capture ctx = Inr before"
      and tx: "ctx_activation ctx0 = Some tx" "tx_before tx = before"
      by (auto simp: begin_activation_Inr)
    from frame_activation [OF frame_applied [symmetric] tx(1), of p]
    obtain tx' where tx': "ctx_activation (applied p ctx0) = Some tx'" "tx_base tx' = tx_base tx"
      by auto
    have "capture ctx' \<noteq> Inr (tx_before tx')"
      using failed(4) tx'(1) unfolding out by (rule rollback_Some)
    with before tx(2) tx'(2) show ?thesis by (simp add: tx_base_def)
  qed
  ultimately show ?thesis using activate_failed_capture [OF assms] by blast
qed

theorem failed_activation_publishes_nothing_witness:
  "capture sample_failed = capture context_new"
  using failed_activation_publishes_nothing [OF sample_activation_failed] by simp

text \<open>
  C18: the rollback of a plugin whose registrations are all owned by effects never breaks. It
  restores services, inventory, listeners and pending effects exactly, and runs precisely the
  disposers this activation registered, last first.
\<close>

theorem scoped_activation_unwinds:
  assumes "context_wf ctx" "scoped_prog (pl_apply p)"
    "activate scope p ctx seen = (Inl (stage, e), ctx', seen')"
    "begin_activation (pl_name p) ctx = Inr ctx0" "stage \<noteq> Admission"
  shows "stage \<noteq> Rollback
    \<and> ctx_services ctx' = ctx_services ctx \<and> ctx_inventory ctx' = ctx_inventory ctx
    \<and> bus_listeners (ctx_events ctx') = bus_listeners (ctx_events ctx)
    \<and> ctx_effects ctx' = ctx_effects ctx
    \<and> ctx_disposed ctx' = ctx_disposed ctx
        @ rev (drop (length (ctx_effects ctx))
            (ctx_effects (snd (declare_apply_and_record scope p ctx0))))"
  using activate_failed_scoped(1-5) [OF assms(1-3)] activate_failed_scoped(7) [OF assms] by blast

theorem scoped_activation_unwinds_witness:
  "ctx_services sample_failed = bt_empty
    \<and> ctx_disposed sample_failed = [UserDisposer 8, WithdrawListener 5 0]"
proof -
  have name: "pl_name sample_failing = ''failing''" by (simp add: sample_defs)
  have ds: "ctx_disposed context_new @ rev (drop (length (ctx_effects context_new))
      (ctx_effects (snd (declare_apply_and_record Project sample_failing sample_transaction))))
      = [UserDisposer 8, WithdrawListener 5 0]"
    by (simp add: sample_transaction_def sample_defs context_eval)
  have "ctx_services context_new = bt_empty" by (simp add: context_new_def)
  then show ?thesis
    using scoped_activation_unwinds [OF context_wf_new sample_scoped(3) sample_activation_failed, of sample_transaction]
      sample_begin ds
    by (simp add: name)
qed

section \<open>Composition\<close>

lemma compose_report_healthy:
  "report_healthy (ca_report (compose_all sps)) = is_ok (ca_context (compose_all sps))"
proof -
  obtain rows e final where loop: "compose_loop sps context_new [] = (rows, e, final)"
    by (cases "compose_loop sps context_new []")
  show ?thesis
  proof (cases e)
    case None
    with compose_loop_None loop have "rows = map (activation_row Activated) sps" by blast
    with None loop show ?thesis
      by (simp add: compose_all_def activation_row_def report_healthy_def list_all_iff)
  next
    case (Some err)
    with compose_loop_Some loop obtain rows' stage k where
      "rows = rows' @ activation_row (Failed stage err) (sps ! k)
        # map (activation_row NotAttempted) (drop (Suc k) sps)"
      by blast
    with Some loop show ?thesis
      by (simp add: compose_all_def activation_row_def report_healthy_def)
  qed
qed

text \<open>
  The report of a composition has one row per requested plugin, in requested order, with
  its scope. Either every row is activated and a context is returned, or a prefix is activated,
  the next one failed with the error that is returned, and the rest was not attempted.
\<close>

theorem compose_report_shape:
  "map (\<lambda>row. (pa_scope row, pa_plugin row)) (ca_report (compose_all sps))
     = map (\<lambda>sp. (fst sp, pl_name (snd sp))) sps
   \<and> report_healthy (ca_report (compose_all sps)) = is_ok (ca_context (compose_all sps))
   \<and> (case ca_context (compose_all sps) of
        Inr _ \<Rightarrow> map pa_outcome (ca_report (compose_all sps)) = replicate (length sps) Activated
      | Inl e \<Rightarrow> (\<exists>k stage.
          k < length sps
          \<and> map pa_outcome (ca_report (compose_all sps)) =
              replicate k Activated @ Failed stage e # replicate (length sps - Suc k) NotAttempted))"
proof -
  obtain rows e final where loop: "compose_loop sps context_new [] = (rows, e, final)"
    by (cases "compose_loop sps context_new []")
  note activated = map_replicate_const [of Activated] and skipped = map_replicate_const [of NotAttempted]
  show ?thesis
  proof (cases e)
    case None
    with compose_loop_None loop have "rows = map (activation_row Activated) sps" by blast
    with None loop show ?thesis
      by (simp add: compose_all_def activation_row_def report_healthy_def comp_def list_all_iff
          map_replicate_const)
  next
    case (Some err)
    with compose_loop_Some loop obtain k pre rows' stage mid seen' where k: "k < length sps"
      and pre: "compose_loop (take k sps) context_new [] = (rows', None, pre)"
      and rows: "rows = rows' @ activation_row (Failed stage err) (sps ! k)
        # map (activation_row NotAttempted) (drop (Suc k) sps)"
      by blast
    have rows': "rows' = map (activation_row Activated) (take k sps)"
      using pre by (rule compose_loop_None)
    have split: "map f sps = map f (take k sps) @ f (sps ! k) # map f (drop (Suc k) sps)"
      for f :: "plugin_scope \<times> plugin \<Rightarrow> plugin_scope \<times> string"
      using id_take_nth_drop [OF k] by (metis list.simps(9) map_append)
    have "map pa_outcome rows = replicate k Activated @ Failed stage err # replicate (length sps - Suc k) NotAttempted"
      using k by (simp add: rows rows' activation_row_def comp_def map_replicate_const)
    moreover have "\<not> report_healthy rows"
      by (simp add: rows report_healthy_def activation_row_def)
    ultimately show ?thesis
      using loop Some k rows rows' split [of "\<lambda>sp. (fst sp, pl_name (snd sp))"]
      by (auto simp: compose_all_def activation_row_def comp_def)
  qed
qed

text \<open>
  A composition that succeeds activated every plugin once, under the name its descriptor
  carries, at its scope, in order; each of them found its injected services published by the
  plugins before it; and no activation is left open.
\<close>

theorem compose_success:
  assumes "compose_scoped sps = Inr ctx"
  shows "ctx_plugins ctx = map (\<lambda>sp. pl_name (snd sp)) sps
    \<and> distinct (ctx_plugins ctx)
    \<and> ctx_descriptors ctx = map (\<lambda>sp. pl_descriptor (snd sp)) sps
    \<and> ctx_scopes ctx = map fst sps
    \<and> inv_plugins (ctx_inventory ctx)
        = map (\<lambda>sp. \<lparr>ap_descriptor = pl_descriptor (snd sp), ap_scope = fst sp\<rparr>) sps
    \<and> ctx_applying ctx = None \<and> ctx_activation ctx = None
    \<and> (\<forall>k < length sps. \<exists>pre. compose_scoped (take k sps) = Inr pre
          \<and> (\<forall>key \<in> set (pl_inject (snd (sps ! k))). context_has key pre))"
proof -
  from assms obtain rows where loop: "compose_loop sps context_new [] = (rows, None, ctx)"
    by (auto simp: compose_scoped_Inr)
  note recorded = composed_records [OF loop]
  have "distinct ([] @ map (\<lambda>sp. pl_name (snd sp)) sps)"
    using compose_loop_inv [of sps context_new "[]" rows ctx "\<lambda>_ seen. distinct seen"] loop
    by (auto simp: activate_Inr)
  moreover have "\<exists>pre. compose_scoped (take k sps) = Inr pre
          \<and> (\<forall>key \<in> set (pl_inject (snd (sps ! k))). context_has key pre)" if "k < length sps" for k
  proof -
    from compose_loop_take [OF loop that] obtain pre rows' ctx' seen' where
      "compose_loop (take k sps) context_new [] = (rows', None, pre)"
      "activate (fst (sps ! k)) (snd (sps ! k)) pre ([] @ map (\<lambda>sp. pl_name (snd sp)) (take k sps))
        = (Inr (), ctx', seen')"
      by blast
    then show ?thesis by (auto simp: compose_scoped_Inr activate_Inr)
  qed
  ultimately show ?thesis using recorded by auto
qed

theorem compose_success_witness:
  "ctx_plugins sample_context = [''counter'', ''consumer'']
    \<and> ctx_scopes sample_context = [BuiltIn, User]"
  using compose_success [OF sample_composed]
  by (simp add: sample_provider_def sample_consumer_def bare_plugin_def)





text \<open>
  Every exact row of a composed context has a valid name, is claimed once and belongs to an
  activated plugin; every published service has its row; and a plugin with a declared source
  has rows of the families its descriptor lists only.
\<close>

theorem composed_inventory_accounted:
  assumes "compose_scoped sps = Inr ctx"
  shows "distinct (map row_id (inv_rows (ctx_inventory ctx)))
    \<and> (\<forall>row \<in> set (inv_rows (ctx_inventory ctx)).
         \<not> invalid_contribution_name (pc_name row) \<and> pc_plugin row \<in> set (ctx_plugins ctx))
    \<and> (\<forall>key. context_has key ctx \<longrightarrow> (CkService, key) \<in> row_id ` set (inv_rows (ctx_inventory ctx)))
    \<and> (\<forall>sp \<in> set sps. pd_source (pl_descriptor (snd sp)) \<noteq> Unclassified \<longrightarrow>
         (\<forall>row \<in> set (inv_rows (ctx_inventory ctx)). pc_plugin row = pl_name (snd sp) \<longrightarrow>
            descriptor_family (pc_kind row) \<in> set (pd_contributions (pl_descriptor (snd sp)))))"
proof -
  from assms obtain rows where loop: "compose_loop sps context_new [] = (rows, None, ctx)"
    by (auto simp: compose_scoped_Inr)
  have "context_wf ctx"
    using compose_loop_inv [OF loop, of "\<lambda>ctx seen. context_wf ctx"] by (auto intro: activate_wf)
  moreover have acc: "accounted ctx (map (\<lambda>sp. pl_name (snd sp)) sps)"
  proof -
    have "accounted context_new []" by (simp add: accounted_def context_new_def inventory_new_def)
    then have "accounted ctx ([] @ map (\<lambda>sp. pl_name (snd sp)) sps)"
      by (rule compose_loop_inv [OF loop]) (rule accounted_activate)
    then show ?thesis by simp
  qed
  moreover have "ctx_plugins ctx = map (\<lambda>sp. pl_name (snd sp)) sps
    \<and> inv_plugins (ctx_inventory ctx)
        = map (\<lambda>sp. \<lparr>ap_descriptor = pl_descriptor (snd sp), ap_scope = fst sp\<rparr>) sps
    \<and> (\<forall>sp \<in> set sps. pd_id (pl_descriptor (snd sp)) = pl_name (snd sp))"
    using composed_records [OF loop] by blast
  ultimately show ?thesis
    by (force simp: context_wf_def rows_wf_def attributed_def accounted_def family_mismatch_def)
qed

theorem composed_inventory_accounted_witness:
  "distinct (map row_id (inv_rows (ctx_inventory sample_context)))"
  using composed_inventory_accounted [OF sample_composed] by blast

text \<open>
  Shutting down a context composed of effect-owned plugins withdraws every listener, runs
  every pending disposer once, last first, and a second shutdown does nothing.
\<close>

theorem shutdown_releases_everything:
  assumes "compose_scoped sps = Inr ctx"
    "\<forall>sp \<in> set sps. scoped_prog (pl_apply (snd sp))"
  shows "listener_count (ctx_events (shutdown ctx)) = 0
    \<and> ctx_disposed (shutdown ctx) = ctx_disposed ctx @ rev (ctx_effects ctx)
    \<and> pending_effects (shutdown ctx) = 0
    \<and> shutdown (shutdown ctx) = shutdown ctx"
proof -
  from assms(1) obtain rows where loop: "compose_loop sps context_new [] = (rows, None, ctx)"
    by (auto simp: compose_scoped_Inr)
  have "unwinds ctx"
    using compose_loop_inv [OF loop, of "\<lambda>ctx seen. unwinds ctx"] assms(2) unwinds_new
    by (auto intro: unwinds_activate)
  then show ?thesis
    by (simp add: shutdown_eq unwinds_def listener_count_def pending_effects_def bt_values_def
        bt_empty_def)
qed

theorem shutdown_releases_everything_witness:
  "listener_count (ctx_events (shutdown sample_context)) = 0"
  using shutdown_releases_everything [OF sample_composed]
  by (simp add: sample_scoped)

section \<open>Reload generations\<close>


text \<open>
  A reload whose candidate does not compose leaves the registry as it is and reports the
  generation still live. One whose candidate composes makes it the next generation; the
  retired world is disposed at once if it has no reader and is parked otherwise.
\<close>

theorem reload_outcome:
  assumes "registry_reachable ctx reg"
  shows "(case reload plugins reg of
      (Kept live report cause, reg') \<Rightarrow>
        compose_scoped plugins = Inl cause \<and> reg' = reg \<and> live = gr_generation reg
    | (Swapped replaced live report, reg') \<Rightarrow>
        report_healthy report
        \<and> replaced = gr_generation reg \<and> live = Suc replaced \<and> gr_generation reg' = live
        \<and> (\<exists>world. compose_scoped plugins = Inr world \<and> bt_get (gr_worlds reg') live = Some world)
        \<and> gr_readers reg' = gr_readers reg
        \<and> (replaced \<in> set (gr_parked reg') \<longleftrightarrow> replaced \<in> set (gr_readers reg))
        \<and> (replaced \<in> fst ` set (gr_dropped reg') \<longleftrightarrow> replaced \<notin> set (gr_readers reg)))"
proof (cases "ca_context (compose_all plugins)")
  case (Inl e)
  then show ?thesis by (simp add: reload_def Let_def compose_scoped_def)
next
  case (Inr world)
  let ?g = "gr_generation reg"
  let ?mid = "reg\<lparr>gr_worlds := bt_insert (Suc ?g) world (gr_worlds reg), gr_generation := Suc ?g,
        gr_parked := gr_parked reg @ [?g]\<rparr>"
  have wf: "registry_wf reg" using assms by (rule registry_reachable_wf)
  then have inv: "bt_inv (gr_worlds reg)"
    and doms: "dom (bt_get (gr_worlds reg)) = insert ?g (set (gr_pending reg @ gr_parked reg))"
    and dist: "distinct (gr_pending reg @ gr_parked reg @ map fst (gr_dropped reg) @ [?g])"
    and cover: "insert ?g (set (gr_pending reg @ gr_parked reg) \<union> fst ` set (gr_dropped reg)) = {first_generation..?g}"
    unfolding registry_wf_def by blast+
  have fresh: "Suc ?g \<notin> set (gr_parked reg)"
  proof
    assume "Suc ?g \<in> set (gr_parked reg)"
    then have "Suc ?g \<in> {first_generation..?g}" unfolding cover [symmetric] by simp
    then show False by simp
  qed
  have alone: "remove1 ?g (gr_pending reg @ [?g]) = gr_pending reg"
    using dist by (simp add: remove1_append)
  have mid: "bt_inv (gr_worlds ?mid)" "distinct (gr_parked ?mid)"
    "set (gr_parked ?mid) \<subseteq> dom (bt_get (gr_worlds ?mid))"
    using inv doms dist by auto
  from sweep_spec [OF mid] obtain more where
    more: "map fst more = filter (\<lambda>g. g \<notin> set (gr_readers reg)) (gr_parked reg @ [?g])"
    and sw: "sweep ?mid = ?mid\<lparr>gr_worlds :=
          fold bt_remove (filter (\<lambda>g. g \<notin> set (gr_readers reg)) (gr_parked reg @ [?g])) (gr_worlds ?mid),
        gr_parked := filter (\<lambda>g. g \<in> set (gr_readers reg)) (gr_parked reg @ [?g]),
        gr_dropped := gr_dropped reg @ more\<rparr>"
    by auto
  have fst_more: "fst ` set more = set (filter (\<lambda>g. g \<notin> set (gr_readers reg)) (gr_parked reg @ [?g]))"
    using more by (metis list.set_map)
  have reload: "reload plugins reg = (Swapped ?g (Suc ?g) (ca_report (compose_all plugins)), sweep ?mid)"
    using Inr by (simp add: reload_def Let_def retire_def swap_def alone)
  have "report_healthy (ca_report (compose_all plugins))"
    using compose_report_healthy Inr by simp
  moreover have "bt_get (gr_worlds (sweep ?mid)) (Suc ?g) = Some world"
    unfolding sw using inv fresh by (auto simp: bt_get_fold_remove simp del: filter_append)
  moreover have "?g \<in> fst ` set (gr_dropped (sweep ?mid)) \<longleftrightarrow> ?g \<notin> set (gr_readers reg)"
    unfolding sw using dist by (auto simp: image_Un fst_more)
  ultimately show ?thesis
    using Inr unfolding reload by (auto simp: sw compose_scoped_def)
qed

definition sample_registry :: generation_registry where
  "sample_registry = snd (registry_context (registry_new context_new))"

lemma sample_registry_reachable: "registry_reachable context_new sample_registry"
  unfolding sample_registry_def by (intro reach_step [OF reach_new] step_read)

lemma sample_all_composed:
  "compose_all [(BuiltIn, sample_provider), (User, sample_consumer)] =
     \<lparr>ca_report = map (activation_row Activated) [(BuiltIn, sample_provider), (User, sample_consumer)],
      ca_context = Inr sample_context\<rparr>"
  by (simp add: compose_all_def sample_context_def sample_defs context_eval)

lemma sample_reload:
  "reload [(BuiltIn, sample_provider), (User, sample_consumer)] sample_registry
     = (Swapped 1 2 (map (activation_row Activated) [(BuiltIn, sample_provider), (User, sample_consumer)]),
        \<lparr>gr_generation = 2, gr_worlds = [(1, context_new), (2, sample_context)], gr_pending = [],
         gr_parked = [1], gr_readers = [1], gr_dropped = []\<rparr>)"
  by (simp add: reload_def swap_def sample_all_composed sample_registry_def registry_context_def
      registry_new_def first_generation_def retire_def sweep_def map_eval)




theorem reload_outcome_witness:
  "gr_readers (snd (reload [(BuiltIn, sample_provider), (User, sample_consumer)] sample_registry))
     = gr_readers sample_registry"
  using reload_outcome [OF sample_registry_reachable,
      of "[(BuiltIn, sample_provider), (User, sample_consumer)]"]
  unfolding sample_reload by (simp add: sample_registry_def registry_context_def registry_new_def)

section \<open>Dry inspection\<close>

text \<open>
  C38: for plugins whose \<open>apply\<close> publishes exactly the services they declare, and which do
  not list services among their static rows as well, composition succeeds if and only if the dry
  inspection is healthy and two conditions hold that the inspection does not look at: every
  declared service has a valid name, and a plugin with a declared source that provides services
  lists their family in its descriptor. So an unhealthy inspection always predicts a failure, and a
  healthy one predicts success for plugins that meet the two conditions and for no others.
\<close>

theorem inspection_predicts_composition:
  assumes "\<forall>sp \<in> set sps. pl_apply (snd sp) = provide_all (pl_name (snd sp)) svc (pl_provides (snd sp))"
    and "\<forall>sp \<in> set sps. \<forall>row \<in> set (pl_inventory (snd sp)). spec_kind row \<noteq> CkService"
  shows "is_ok (compose_scoped sps) \<longleftrightarrow>
    rep_healthy (inspect_composition sps)
    \<and> (\<forall>sp \<in> set sps. (\<forall>key \<in> set (pl_provides (snd sp)). \<not> invalid_contribution_name key)
        \<and> (pl_provides (snd sp) = [] \<or> pd_source (pl_descriptor (snd sp)) = Unclassified
            \<or> FamService \<in> set (pd_contributions (pl_descriptor (snd sp)))))"
proof -
  have "\<forall>sp \<in> set sps. faithful svc (snd sp)" using assms by (simp add: faithful_def list_all_iff)
  from agrees_loop [OF agrees_new this] have
    "fst (snd (compose_loop sps context_new [])) = None \<longleftrightarrow>
      snd (inspect_loop inspection_new sps) = [] \<and> (\<forall>sp \<in> set sps. services_listed (snd sp))" .
  then show ?thesis
    unfolding services_listed_def list_all_iff
    by (auto simp: inspect_composition_def compose_scoped_def compose_all_def Let_def
        split: prod.splits option.splits)
qed

definition sample_faithful :: "plugin_contribution_kind list \<Rightarrow> plugin" where
  "sample_faithful families =
     \<lparr>pl_name = ''a'', pl_descriptor = built_in ''a'' ''1.0.0'' families,
      pl_inject = [], pl_provides = [''a''],
      pl_inventory = [\<lparr>spec_kind = CkCommand, spec_name = ''go''\<rparr>],
      pl_apply = provide_all ''a'' (\<lambda>_. sample_any) [''a'']\<rparr>"

text \<open>
  The same plugin with and without the family of its service: the inspection is healthy both
  times, and only the first composition succeeds.
\<close>

theorem inspection_predicts_composition_witness:
  "is_ok (compose_scoped [(BuiltIn, sample_faithful [FamService, FamCommand])])
    \<and> rep_healthy (inspect_composition [(BuiltIn, sample_faithful [FamCommand])])
    \<and> \<not> is_ok (compose_scoped [(BuiltIn, sample_faithful [FamCommand])])"
proof -
  have healthy: "rep_healthy (inspect_composition [(BuiltIn, sample_faithful fs)])" if "FamCommand \<in> set fs" for fs
    using that
    by (simp add: inspect_composition_def inspection_new_def inspect_step_def plugin_diagnostics_def
        identity_diagnostics_def uniqueness_diagnostics_def dependency_diagnostics_def
        set_insert_def sample_faithful_def built_in_def plain_contribution_name plain_eval
        map_eval Let_def)
  have declares: "\<forall>sp \<in> set [(BuiltIn, sample_faithful fs)].
      pl_apply (snd sp) = provide_all (pl_name (snd sp)) (\<lambda>_. sample_any) (pl_provides (snd sp))"
    "\<forall>sp \<in> set [(BuiltIn, sample_faithful fs)]. \<forall>row \<in> set (pl_inventory (snd sp)). spec_kind row \<noteq> CkService" for fs
    by (simp_all add: sample_faithful_def)
  have name: "\<not> invalid_contribution_name ''a''" by (simp add: plain_contribution_name plain_eval)
  have listed: "pl_provides (sample_faithful fs) = [''a'']"
    "pl_descriptor (sample_faithful fs) = built_in ''a'' ''1.0.0'' fs" for fs
    by (simp_all add: sample_faithful_def)
  show ?thesis
    using inspection_predicts_composition [OF declares [of "[FamService, FamCommand]"]]
      inspection_predicts_composition [OF declares [of "[FamCommand]"]]
      healthy [of "[FamService, FamCommand]"] healthy [of "[FamCommand]"] name
    by (simp add: listed built_in_def)
qed

section \<open>Event bus and interception chains\<close>

text \<open>
  Listeners registered by an effect and withdrawn last to first leave every payload type
  with the listeners it had, in their order, whatever was registered in between.
\<close>

theorem listeners_unwind:
  assumes "bus_wf b"
  shows "bus_listeners (foldr withdraw_listener (fst (bus.register_all tys b)) (snd (bus.register_all tys b)))
    = bus_listeners b"
  using assms by (rule bus.unwind)

theorem listeners_unwind_witness:
  "bus_listeners (foldr withdraw_listener (fst (bus.register_all [4, 9, 4] bus_new))
      (snd (bus.register_all [4, 9, 4] bus_new))) = bt_empty"
  using listeners_unwind [OF bus_wf_new, of "[4, 9, 4]"] by (simp add: bus_new_def)

text \<open>
  Layers that delegate once are nested in registration order, the late ones inside, and
  the run completes; a layer that does not delegate ends the chain: the layers outside it see
  its result, the ones inside it never run, and the completion says so.
\<close>

theorem waterfall_nests:
  "(wf_all w = delegating ps \<longrightarrow> run_checked w x = (around ps id x, Inr Completed))
   \<and> (wf_all w = delegating ps @ short_circuits g # ls \<longrightarrow>
        run_checked w x = (around ps g x, Inr ShortCircuited))"
  by (simp add: run_checked_delegating run_checked_short_circuit)

definition sample_chain :: "(nat, string) waterfall" where
  "sample_chain =
     \<lparr>wf_layers = delegating [(\<lambda>n. n + 1, \<lambda>n. n * 2)] @ [short_circuits (\<lambda>n. n + 10)],
      wf_late = [(0, short_circuits (\<lambda>n. 0))], wf_next = 1\<rparr>"

theorem waterfall_nests_witness: "run_checked sample_chain 0 = (22, Inr ShortCircuited)"
proof -
  have "wf_all sample_chain = delegating [(\<lambda>n. n + 1, \<lambda>n. n * 2)] @ short_circuits (\<lambda>n. n + 10)
      # [short_circuits (\<lambda>n. 0)]"
    by (simp add: sample_chain_def wf_all_def)
  then have "run_checked sample_chain 0 = (around [(\<lambda>n. n + 1, \<lambda>n. n * 2)] (\<lambda>n. n + 10) 0, Inr ShortCircuited)"
    using waterfall_nests [of sample_chain] by blast
  then show ?thesis by simp
qed

end
