(* ===== verification/Inbox_Message.thy ===== *)
theory Inbox_Message
  imports Ordered_Map
begin

text \<open>
  Pending-input vocabulary (\<open>heycode-session/src/inbox.rs\<close>): message identities,
  delivery, source attribution and the validation of one message. Identifiers are their
  text. \<open>serde_json::to_string\<close> of a list of labels is the argument \<open>ser\<close>, which
  returns \<open>None\<close> where the code maps its error. \<open>usize\<close> is at least 32 bits wide,
  so the conversions from \<open>u32\<close> never fail.
\<close>

section \<open>Opaque identifiers and bounded text\<close>

definition opaque_id_byte :: "char \<Rightarrow> bool" where
  "opaque_id_byte b \<longleftrightarrow>
     is_ascii_alphanumeric b \<or> b = CHR ''-'' \<or> b = CHR ''_'' \<or> b = CHR ''.'' \<or> b = CHR '':''"

definition valid_opaque_id :: "string \<Rightarrow> nat \<Rightarrow> bool" where
  "valid_opaque_id value max_bytes \<longleftrightarrow>
     value \<noteq> [] \<and> length value \<le> max_bytes \<and> list_all opaque_id_byte value"

definition valid_text :: "string \<Rightarrow> nat \<Rightarrow> bool" where
  "valid_text value max_bytes \<longleftrightarrow>
     \<not> is_blank value \<and> length value \<le> max_bytes
     \<and> \<not> list_ex (\<lambda>c. c = 0 \<or> is_bad_control c) (chars value)"

definition max_inbox_id_bytes :: nat where
  "max_inbox_id_bytes = 128"

definition max_inbox_text_bytes :: nat where
  "max_inbox_text_bytes = 1024 * 1024"

definition max_goal_id_bytes :: nat where
  "max_goal_id_bytes = 128"

definition max_schedule_id_bytes :: nat where
  "max_schedule_id_bytes = 128"

datatype inbox_message_error = InvalidId | InvalidText

text \<open>\<open>InboxMessageId::validate\<close>; the identity of a message is kept when it is valid.\<close>

definition inbox_id_validate :: "string \<Rightarrow> inbox_message_error + unit" where
  "inbox_id_validate i =
     refuse_if (i = [] \<or> max_inbox_id_bytes < length i \<or> \<not> list_all opaque_id_byte i) InvalidId"

definition inbox_id_new :: "string \<Rightarrow> inbox_message_error + string" where
  "inbox_id_new value = and_then (inbox_id_validate value) (\<lambda>_. Inr value)"

section \<open>Decimal job numbers\<close>

text \<open>\<open>format!("{number}")\<close>.\<close>

fun show_nat :: "nat \<Rightarrow> string" where
  "show_nat n =
     (if n < 10 then [char_of (48 + n)] else show_nat (n div 10) @ [char_of (48 + n mod 10)])"

declare show_nat.simps [simp del]

text \<open>\<open>str::parse::<u64>\<close>: an optional plus sign, digits, and no overflow.\<close>

definition digits_val :: "string \<Rightarrow> nat" where
  "digits_val ds = foldl (\<lambda>acc d. acc * 10 + (byte_val d - 48)) 0 ds"

definition parse_u64 :: "string \<Rightarrow> nat option" where
  "parse_u64 s =
     (let ds = (case s of c # cs \<Rightarrow> if c = CHR ''+'' then cs else s | [] \<Rightarrow> [])
      in if ds \<noteq> [] \<and> list_all is_ascii_digit ds \<and> digits_val ds \<le> u64_max
         then Some (digits_val ds) else None)"

definition strip_prefix :: "string \<Rightarrow> string \<Rightarrow> string option" where
  "strip_prefix p s = (if take (length p) s = p then Some (drop (length p) s) else None)"

definition valid_job_id :: "string \<Rightarrow> bool" where
  "valid_job_id job \<longleftrightarrow>
     (case strip_prefix ''job-'' job of
        None \<Rightarrow> False
      | Some number \<Rightarrow>
          (case parse_u64 number of None \<Rightarrow> False | Some n \<Rightarrow> ''job-'' @ show_nat n = job))"

section \<open>Sources\<close>

datatype inbox_delivery = FollowUp | Steer | Inject

datatype agent_completion_outcome =
  CompletionCompleted | CompletionFailed | CompletionCancelled | CompletionInterrupted

datatype inbox_source =
    SourceAgent string string string string "string option" "agent_completion_outcome option"
      \<comment> \<open>agent, name, recipient, run, completion, outcome\<close>
  | SourceTeam
  | SourceHuman
  | SourceOptionalQuestion string "string list option" \<comment> \<open>question, selected answers\<close>
  | SourceJob string
  | SourceGoal string nat nat \<comment> \<open>goal, revision, round\<close>
  | SourceSchedule string int \<comment> \<open>schedule, occurrence time\<close>

definition bad_label :: "string \<Rightarrow> bool" where
  "bad_label label \<longleftrightarrow> is_blank label \<or> 256 < length label \<or> has_control label"

fun source_validate :: "inbox_source \<Rightarrow> inbox_message_error + unit" where
  "source_validate (SourceAgent agent name recipient run completion result) =
     and_then (try_all inbox_id_validate [agent, recipient, run]) (\<lambda>_.
     and_then (case completion of Some i \<Rightarrow> inbox_id_validate i | None \<Rightarrow> Inr ()) (\<lambda>_.
       refuse_if ((completion \<noteq> None) \<noteq> (result \<noteq> None) \<or> bad_label name) InvalidText))"
| "source_validate SourceTeam = Inr ()"
| "source_validate SourceHuman = Inr ()"
| "source_validate (SourceOptionalQuestion question selected) =
     and_then
       (case selected of
          None \<Rightarrow> Inr ()
        | Some labels \<Rightarrow>
            refuse_if (labels = [] \<or> 4 < length labels \<or> list_ex bad_label labels
              \<or> has_repeat labels) InvalidText)
       (\<lambda>_. inbox_id_validate question)"
| "source_validate (SourceJob job) = refuse_if (\<not> valid_job_id job) InvalidId"
| "source_validate (SourceGoal goal revision round) =
     refuse_if (\<not> (valid_opaque_id goal max_goal_id_bytes \<and> 0 < revision \<and> 0 < round)) InvalidId"
| "source_validate (SourceSchedule schedule occurrence) =
     refuse_if (\<not> (valid_opaque_id schedule max_schedule_id_bytes \<and> 0 \<le> occurrence)) InvalidId"

section \<open>Messages\<close>

datatype inbox_target = NextTurn | NextStep

fun delivery_target :: "inbox_delivery \<Rightarrow> inbox_target" where
  "delivery_target FollowUp = NextTurn"
| "delivery_target Steer = NextStep"
| "delivery_target Inject = NextStep"

record inbox_message =
  im_id :: string
  im_delivery :: inbox_delivery
  im_text :: string
  im_source :: inbox_source

type_synonym label_json = "string list \<Rightarrow> string option"

definition ends_with :: "string \<Rightarrow> string \<Rightarrow> bool" where
  "ends_with s suffix \<longleftrightarrow> length suffix \<le> length s \<and> drop (length s - length suffix) s = suffix"

definition message_validate :: "label_json \<Rightarrow> inbox_message \<Rightarrow> inbox_message_error + unit" where
  "message_validate ser m =
     and_then (inbox_id_validate (im_id m)) (\<lambda>_.
     and_then (source_validate (im_source m)) (\<lambda>_.
     and_then
       (case im_source m of
          SourceOptionalQuestion question selected \<Rightarrow>
            and_then (refuse_if (question \<noteq> im_id m) InvalidId) (\<lambda>_.
              case selected of
                None \<Rightarrow> Inr ()
              | Some labels \<Rightarrow>
                  and_then (ok_or InvalidText (ser labels)) (\<lambda>suffix.
                    refuse_if
                      (\<not> ends_with (im_text m) ([CHR 0x0A, CHR 0x0A] @ suffix)) InvalidText))
        | _ \<Rightarrow> Inr ())
       (\<lambda>_. refuse_if (is_blank (im_text m) \<or> max_inbox_text_bytes < length (im_text m))
              InvalidText)))"

definition message_with_source ::
  "label_json \<Rightarrow> string \<Rightarrow> inbox_delivery \<Rightarrow> string \<Rightarrow> inbox_source
   \<Rightarrow> inbox_message_error + inbox_message" where
  "message_with_source ser i delivery body source =
     (let m = \<lparr>im_id = i, im_delivery = delivery, im_text = body, im_source = source\<rparr>
      in and_then (message_validate ser m) (\<lambda>_. Inr m))"

definition message_with_id ::
  "label_json \<Rightarrow> string \<Rightarrow> inbox_delivery \<Rightarrow> string \<Rightarrow> inbox_message_error + inbox_message" where
  "message_with_id ser i delivery body = message_with_source ser i delivery body SourceHuman"

section \<open>Splices\<close>

datatype inbox_splice_outcome = Canceled

datatype splice_shape_error =
    ZeroRemoved | EmptySplice | CancelWithoutRemoval | ClaimInserts
  | InvalidMessage inbox_message_error | WrongTarget | RepeatedId

record inbox_splice =
  sp_target :: inbox_target
  sp_start :: nat
  sp_removed :: "nat option"
  sp_inserted :: "inbox_message list"
  sp_outcome :: "inbox_splice_outcome option"

fun validate_inserted ::
  "label_json \<Rightarrow> inbox_target \<Rightarrow> string btree_set \<Rightarrow> inbox_message list \<Rightarrow> splice_shape_error + unit" where
  "validate_inserted ser target ids [] = Inr ()"
| "validate_inserted ser target ids (m # ms) =
     and_then (map_err InvalidMessage (message_validate ser m)) (\<lambda>_.
     and_then (refuse_if (delivery_target (im_delivery m) \<noteq> target) WrongTarget) (\<lambda>_.
       let (fresh, ids') = set_insert (im_id m) ids
       in and_then (refuse_if (\<not> fresh) RepeatedId) (\<lambda>_. validate_inserted ser target ids' ms)))"

definition validate_splice_shape :: "label_json \<Rightarrow> inbox_splice \<Rightarrow> splice_shape_error + unit" where
  "validate_splice_shape ser sp =
     and_then (refuse_if (sp_removed sp = Some 0) ZeroRemoved) (\<lambda>_.
     and_then (refuse_if (sp_removed sp = None \<and> sp_inserted sp = []) EmptySplice) (\<lambda>_.
     and_then (refuse_if (sp_outcome sp \<noteq> None \<and> sp_removed sp = None) CancelWithoutRemoval) (\<lambda>_.
     and_then
       (refuse_if (sp_removed sp \<noteq> None \<and> sp_outcome sp = None \<and> sp_inserted sp \<noteq> []) ClaimInserts)
       (\<lambda>_. validate_inserted ser (sp_target sp) bt_empty (sp_inserted sp)))))"

section \<open>Lemmas\<close>

lemma byte_val_digit: "n < 10 \<Longrightarrow> byte_val (char_of (48 + n)) = 48 + n"
  by (simp add: byte_val_def)

lemma digits_val_snoc: "digits_val (ds @ [d]) = digits_val ds * 10 + (byte_val d - 48)"
  by (simp add: digits_val_def)

lemma show_nat_digits:
  "show_nat n \<noteq> [] \<and> list_all is_ascii_digit (show_nat n) \<and> digits_val (show_nat n) = n"
proof (induction n rule: show_nat.induct)
  case (1 n)
  show ?case
  proof (cases "n < 10")
    case True
    then show ?thesis
      by (simp add: show_nat.simps [of n] is_ascii_digit_def byte_in_def byte_val_digit)
        (simp add: digits_val_def byte_val_digit)
  next
    case False
    have "n mod 10 < 10" by simp
    with False 1 show ?thesis
      by (simp add: show_nat.simps [of n] is_ascii_digit_def byte_in_def byte_val_digit digits_val_snoc)
  qed
qed

text \<open>Numbers print and parse back, up to the range of \<open>u64\<close>.\<close>

lemma parse_show_nat: "parse_u64 (show_nat n) = (if n \<le> u64_max then Some n else None)"
proof -
  obtain c cs where s: "show_nat n = c # cs" using show_nat_digits [of n] by (cases "show_nat n") auto
  then have "is_ascii_digit c" using show_nat_digits [of n] by simp
  then have "c \<noteq> CHR ''+''" by (auto simp: is_ascii_digit_def byte_in_def byte_val_def)
  with s show ?thesis using show_nat_digits [of n] by (simp add: parse_u64_def Let_def)
qed

lemma strip_prefix_append [simp]: "strip_prefix p (p @ s) = Some s"
  by (simp add: strip_prefix_def)

lemma strip_prefix_Some: "strip_prefix p s = Some t \<longleftrightarrow> s = p @ t"
  by (auto simp: strip_prefix_def) (metis append_take_drop_id)

lemma valid_job_id_iff: "valid_job_id job \<longleftrightarrow> (\<exists>n. n \<le> u64_max \<and> job = ''job-'' @ show_nat n)"
proof
  assume "valid_job_id job"
  then obtain number n where "strip_prefix ''job-'' job = Some number" "parse_u64 number = Some n"
    "''job-'' @ show_nat n = job"
    by (auto simp: valid_job_id_def split: option.splits)
  then show "\<exists>n. n \<le> u64_max \<and> job = ''job-'' @ show_nat n"
    by (auto simp: parse_u64_def Let_def split: if_splits)
next
  assume "\<exists>n. n \<le> u64_max \<and> job = ''job-'' @ show_nat n"
  then obtain n where n: "n \<le> u64_max" "job = ''job-'' @ show_nat n" by blast
  have "strip_prefix ''job-'' job = Some (show_nat n)" unfolding n(2) by (rule strip_prefix_append)
  with n show "valid_job_id job" by (simp add: valid_job_id_def parse_show_nat)
qed

definition insertable :: "label_json \<Rightarrow> inbox_target \<Rightarrow> string btree_set \<Rightarrow> inbox_message \<Rightarrow> bool" where
  "insertable ser target ids m \<longleftrightarrow>
     message_validate ser m = Inr () \<and> delivery_target (im_delivery m) = target
     \<and> \<not> bt_contains ids (im_id m)"

lemma validate_inserted_Cons:
  "validate_inserted ser target ids (m # ms) = Inr () \<longleftrightarrow>
     insertable ser target ids m \<and> validate_inserted ser target (bt_insert (im_id m) () ids) ms = Inr ()"
  by (simp add: Let_def set_insert_def insertable_def conj_assoc)

lemma validate_inserted_insertable:
  "bt_inv ids \<Longrightarrow> validate_inserted ser target ids ms = Inr () \<longleftrightarrow>
     (\<forall>m \<in> set ms. insertable ser target ids m) \<and> distinct (map im_id ms)"
proof (induction ms arbitrary: ids)
  case Nil
  then show ?case by simp
next
  case (Cons m ms)
  have "insertable ser target (bt_insert (im_id m) () ids) x \<longleftrightarrow>
      insertable ser target ids x \<and> im_id x \<noteq> im_id m" for x
    using Cons.prems by (auto simp: insertable_def)
  moreover have "bt_inv (bt_insert (im_id m) () ids)" using Cons.prems by simp
  ultimately show ?case
    using Cons.IH by (auto simp: validate_inserted_Cons simp del: validate_inserted.simps) (metis imageI)
qed

lemma validate_inserted_Inr:
  "validate_inserted ser target bt_empty ms = Inr () \<longleftrightarrow>
     (\<forall>m \<in> set ms. message_validate ser m = Inr () \<and> delivery_target (im_delivery m) = target)
     \<and> distinct (map im_id ms)"
  by (simp add: validate_inserted_insertable insertable_def)

lemma validate_splice_shape_Inr:
  "validate_splice_shape ser sp = Inr () \<longleftrightarrow>
     sp_removed sp \<noteq> Some 0
     \<and> (sp_removed sp \<noteq> None \<or> sp_inserted sp \<noteq> [])
     \<and> (sp_outcome sp \<noteq> None \<longrightarrow> sp_removed sp \<noteq> None)
     \<and> (sp_removed sp \<noteq> None \<and> sp_outcome sp = None \<longrightarrow> sp_inserted sp = [])
     \<and> (\<forall>m \<in> set (sp_inserted sp). message_validate ser m = Inr ()
          \<and> delivery_target (im_delivery m) = sp_target sp)
     \<and> distinct (map im_id (sp_inserted sp))"
  by (auto simp: validate_splice_shape_def validate_inserted_Inr)

end
