(* ===== verification/Work_Item.thy ===== *)
theory Work_Item
  imports Inbox_Message
begin

text \<open>
  Structured work items of a session (\<open>heycode-session/src/work.rs\<close>): scopes, statuses,
  fields and their validation, the record of an item. What the code takes from other crates is
  an argument: the record \<open>work_ext\<close> holds \<open>serde_json\<close>'s renderings, which return
  \<open>None\<close> where the code maps their error, and \<open>sha2\<close>'s digest in hexadecimal.
\<close>

section \<open>Bounds and identifiers\<close>

definition max_work_items :: nat where
  "max_work_items = 4096"

definition max_work_dependencies :: nat where
  "max_work_dependencies = 64"

definition work_valid_id :: "string \<Rightarrow> bool" where
  "work_valid_id value \<longleftrightarrow>
     value \<noteq> [] \<and> length value \<le> 128 \<and> trim value = value \<and> \<not> has_control value"

text \<open>The ids of the team domain also exclude white space inside.\<close>

definition team_valid_id :: "string \<Rightarrow> bool" where
  "team_valid_id value \<longleftrightarrow>
     value \<noteq> [] \<and> length value \<le> 128 \<and> trim value = value \<and> \<not> has_control value
     \<and> \<not> has_whitespace value"

lemma team_valid_id_work: "team_valid_id value \<Longrightarrow> work_valid_id value"
  by (simp add: team_valid_id_def work_valid_id_def)

section \<open>Records\<close>

text \<open>\<open>serde_json::Value\<close>; a non-integer number is kept as its text.\<close>

datatype json =
    JNull | JBool bool | JInt int | JNumber string | JString string
  | JArray "json list" | JObject "(string \<times> json) list"

text \<open>\<open>Value::is_object\<close> and \<open>Value::as_str\<close>\<close>

fun is_json_object :: "json \<Rightarrow> bool" where
  "is_json_object (JObject _) = True"
| "is_json_object _ = False"

fun json_as_str :: "json \<Rightarrow> string option" where
  "json_as_str (JString s) = Some s"
| "json_as_str _ = None"

type_synonym metadata = "(string, json) btree_map"

datatype work_scope = ScopeSession | ScopeTeam string

datatype work_status =
    WorkPending | WorkInProgress | WorkBlocked | WorkCompleted | WorkFailed | WorkCancelled
  | WorkDeleted

datatype work_error =
    WorkErrInvalid | WorkErrConflict | WorkErrUnknown | WorkErrDeleted | WorkErrScope
  | WorkErrCycle | WorkErrBlocked | WorkErrLimit

record work_fields =
  wif_subject :: string
  wif_description :: string
  wif_status :: work_status
  wif_owner :: "string option"
  wif_dependencies :: "string list"
  wif_metadata :: metadata

record work_item =
  wi_id :: string
  wi_scope :: work_scope
  wi_revision :: nat
  wi_fingerprint :: string
  wi_fields :: work_fields
  wi_team_task :: "string option"
  wi_result :: "string option"

record work_ext =
  we_metadata_len :: "metadata \<Rightarrow> nat option" \<comment> \<open>length of the rendered metadata\<close>
  we_identity_json :: "work_scope \<Rightarrow> string \<Rightarrow> string option"
  we_fields_json :: "work_scope \<Rightarrow> work_fields \<Rightarrow> string option"
  we_sha256_hex :: "string \<Rightarrow> string"
  we_parse_rows :: "string \<Rightarrow> json list option"

section \<open>Validation\<close>

text \<open>
  The guards are one disjunction in the code: the rendering of the metadata is tried only
  when none of the guards before it holds, and every failure is the same error.
\<close>

definition work_fields_validate :: "work_ext \<Rightarrow> work_fields \<Rightarrow> work_error + unit" where
  "work_fields_validate ext f =
     and_then
       (refuse_if
          (is_blank (wif_subject f) \<or> 256 < length (wif_subject f) \<or> has_control (wif_subject f)
           \<or> 16384 < length (wif_description f) \<or> has_bad_control (wif_description f)
           \<or> (case wif_owner f of None \<Rightarrow> False | Some owner \<Rightarrow> \<not> work_valid_id owner)
           \<or> max_work_dependencies < length (wif_dependencies f)
           \<or> list_ex (\<lambda>i. \<not> work_valid_id i) (wif_dependencies f)
           \<or> has_repeat (wif_dependencies f)
           \<or> 64 < length (wif_metadata f)
           \<or> list_ex (\<lambda>key. \<not> work_valid_id key) (bt_keys (wif_metadata f)))
          WorkErrInvalid)
       (\<lambda>_. and_then (ok_or WorkErrInvalid (we_metadata_len ext (wif_metadata f)))
          (\<lambda>n. refuse_if (8192 < n) WorkErrInvalid))"

fun validate_scope :: "work_scope \<Rightarrow> work_error + unit" where
  "validate_scope ScopeSession = Inr ()"
| "validate_scope (ScopeTeam team) = refuse_if (\<not> team_valid_id team) WorkErrInvalid"

end
