(* ===== verification/Replay.thy ===== *)
theory Replay
  imports Prelude
begin

text \<open>
  Durable projections are folds over the event log that stop at the first refused event. The
  locale \<open>replay\<close> is their common contract, and \<open>dependency_board\<close> the contract
  of the two domains whose entries depend on each other.
\<close>

section \<open>Replay\<close>

locale replay =
  fixes init :: "'s"
    and step :: "'s \<Rightarrow> 'ev \<Rightarrow> 'e + 's"
    and good :: "'s \<Rightarrow> bool"
  assumes good_init: "good init"
    and good_step: "good s \<Longrightarrow> step s ev = Inr s' \<Longrightarrow> good s'"
begin

lemma good_from: "good s \<Longrightarrow> try_fold step s evs = Inr s' \<Longrightarrow> good s'"
  by (rule try_fold_inv [where P = good]) (auto intro: good_step)

text \<open>Whatever a log replays to satisfies the invariant.\<close>

lemma good_replay: "try_fold step init evs = Inr s \<Longrightarrow> good s"
  by (rule good_from [OF good_init])

text \<open>A log that replays has replayed at every earlier point, also to a good state.\<close>

lemma replay_prefix:
  assumes "try_fold step init (evs @ more) = Inr s"
  obtains mid where "try_fold step init evs = Inr mid" "good mid" "try_fold step mid more = Inr s"
  using assms by (auto simp: try_fold_append intro: good_replay)

text \<open>The error of a replay is the error of its first refused event.\<close>

lemma replay_error:
  "try_fold step init evs = Inl e \<Longrightarrow>
   \<exists>pre ev post s. evs = pre @ ev # post \<and> try_fold step init pre = Inr s \<and> step s ev = Inl e"
proof (induction evs rule: rev_induct)
  case Nil
  then show ?case by simp
next
  case (snoc ev evs)
  show ?case
  proof (cases "try_fold step init evs")
    case (Inl e')
    with snoc show ?thesis by (fastforce simp: try_fold_append)
  next
    case (Inr s)
    with snoc.prems have "step s ev = Inl e"
      by (cases "step s ev") (auto simp: try_fold_append)
    with Inr show ?thesis by blast
  qed
qed

end

section \<open>Numbered histories\<close>

text \<open>The numbers a log of pairs records for one identity, in order.\<close>

definition numbers_of :: "'k \<Rightarrow> ('k \<times> nat) list \<Rightarrow> nat list" where
  "numbers_of i refs = map snd (filter (\<lambda>r. fst r = i) refs)"

lemma numbers_of_snoc:
  "numbers_of i (refs @ [r]) =
     (if fst r = i then numbers_of i refs @ [snd r] else numbers_of i refs)"
  by (simp add: numbers_of_def)

lemma length_numbers: "length (numbers_of i refs) \<le> length refs"
  by (simp add: numbers_of_def)

text \<open>
  A counter that saturates at \<open>m\<close> extends the sequence 1, 2, 3 and so on while the log
  has fewer than \<open>m\<close> entries.
\<close>

lemma numbers_next:
  assumes old: "numbers_of i refs = [1..<Suc n]" and len: "length refs < m"
  shows "numbers_of i (refs @ [(i, min (n + 1) m)]) = [1..<Suc (min (n + 1) m)]"
proof -
  have "n \<le> length refs"
    using old length_numbers [of i refs] length_upt by (metis One_nat_def diff_Suc_1)
  then have "min (n + 1) m = Suc n" using len by simp
  with old show ?thesis by (simp add: numbers_of_snoc)
qed

section \<open>Dependency graphs\<close>

text \<open>The edges of a table of dependency lists, from an entry to what it depends on.\<close>

definition dep_edges :: "('k \<Rightarrow> 'k list option) \<Rightarrow> ('k \<times> 'k) set" where
  "dep_edges f = {(k, d). \<exists>ds. f k = Some ds \<and> d \<in> set ds}"

definition deps_closed :: "('k \<Rightarrow> 'k list option) \<Rightarrow> bool" where
  "deps_closed f \<longleftrightarrow> (\<forall>k ds. f k = Some ds \<longrightarrow> set ds \<subseteq> dom f)"

definition deps_sound :: "('k \<Rightarrow> 'k list option) \<Rightarrow> bool" where
  "deps_sound f \<longleftrightarrow> finite (dom f) \<and> deps_closed f \<and> acyclic (dep_edges f)"

lemma deps_sound_empty [simp]: "deps_sound (\<lambda>_. None)"
  by (simp add: deps_sound_def deps_closed_def dep_edges_def acyclic_def)

text \<open>
  Replacing the list of one entry cannot close a cycle when no new dependency reaches the
  entry in the old graph.
\<close>

lemma reach_after_update:
  assumes "(x, k) \<in> (dep_edges (f(k \<mapsto> ds)))\<^sup>*"
  shows "(x, k) \<in> (dep_edges f)\<^sup>*"
  using assms
proof (induction rule: converse_rtrancl_induct)
  case base
  show ?case by simp
next
  case (step x y)
  show ?case
  proof (cases "x = k")
    case True
    then show ?thesis by simp
  next
    case False
    with step(1) have "(x, y) \<in> dep_edges f" by (auto simp: dep_edges_def)
    with step.IH show ?thesis by (rule converse_rtrancl_into_rtrancl [rotated])
  qed
qed

lemma trancl_old_or_through:
  assumes "(x, y) \<in> (dep_edges (f(k \<mapsto> ds)))\<^sup>+"
  shows "(x, y) \<in> (dep_edges f)\<^sup>+
    \<or> ((x, k) \<in> (dep_edges (f(k \<mapsto> ds)))\<^sup>* \<and> (k, y) \<in> (dep_edges (f(k \<mapsto> ds)))\<^sup>+)"
  using assms
proof (induction rule: trancl_induct)
  case (base y)
  then show ?case by (cases "x = k") (auto simp: dep_edges_def)
next
  case (step y z)
  show ?case
  proof (cases "y = k")
    case True
    with step(1,2) show ?thesis by (blast intro: trancl_into_rtrancl r_into_trancl)
  next
    case False
    with step(2) have "(y, z) \<in> dep_edges f" by (auto simp: dep_edges_def)
    with step.IH step(2) show ?thesis by (meson trancl.trancl_into_trancl)
  qed
qed

lemma acyclic_update:
  assumes "acyclic (dep_edges f)" "\<forall>d \<in> set ds. (d, k) \<notin> (dep_edges f)\<^sup>*"
  shows "acyclic (dep_edges (f(k \<mapsto> ds)))"
proof -
  let ?E = "dep_edges (f(k \<mapsto> ds))"
  have kk: "(k, k) \<notin> ?E\<^sup>+"
  proof
    assume "(k, k) \<in> ?E\<^sup>+"
    then obtain d where "(k, d) \<in> ?E" "(d, k) \<in> ?E\<^sup>*" by (auto dest: tranclD)
    then have "d \<in> set ds" "(d, k) \<in> (dep_edges f)\<^sup>*"
      by (auto simp: dep_edges_def intro: reach_after_update [unfolded dep_edges_def])
    with assms(2) show False by blast
  qed
  show ?thesis
    unfolding acyclic_def
  proof (intro allI notI)
    fix x assume "(x, x) \<in> ?E\<^sup>+"
    then consider "(x, x) \<in> (dep_edges f)\<^sup>+" | "(x, k) \<in> ?E\<^sup>*" "(k, x) \<in> ?E\<^sup>+"
      using trancl_old_or_through by fast
    then show False
    proof cases
      case 1
      with assms(1) show ?thesis by (auto simp: acyclic_def)
    next
      case 2
      then have "(k, k) \<in> ?E\<^sup>+" by (simp add: trancl_rtrancl_trancl)
      with kk show ?thesis by blast
    qed
  qed
qed

lemma deps_sound_update:
  assumes "deps_sound f" "set ds \<subseteq> dom f" "\<forall>d \<in> set ds. (d, k) \<notin> (dep_edges f)\<^sup>*"
  shows "deps_sound (f(k \<mapsto> ds))"
proof -
  have "acyclic (dep_edges (f(k \<mapsto> ds)))"
    using assms by (intro acyclic_update) (auto simp: deps_sound_def)
  moreover have "deps_closed (f(k \<mapsto> ds))"
    using assms(1,2) unfolding deps_sound_def deps_closed_def
    by (metis dom_fun_upd fun_upd_apply insertCI option.distinct(1) option.inject subset_iff)
  ultimately show ?thesis using assms(1) by (simp add: deps_sound_def)
qed

section \<open>Boards of dependent entries\<close>

locale dependency_board =
  fixes deps :: "'s \<Rightarrow> 'k \<Rightarrow> 'k list option"
    and finished :: "'s \<Rightarrow> 'k \<Rightarrow> bool"
    and ok :: "'s \<Rightarrow> bool"
  assumes sound: "ok s \<Longrightarrow> deps_sound (deps s)"
begin

text \<open>
  No deadlock: an unfinished entry is itself ready, or depends, perhaps indirectly, on an
  unfinished entry that is.
\<close>

lemma ready_exists:
  assumes "ok s" "deps s k \<noteq> None" "\<not> finished s k"
  shows "\<exists>r ds. (k, r) \<in> (dep_edges (deps s))\<^sup>* \<and> deps s r = Some ds
    \<and> \<not> finished s r \<and> (\<forall>d \<in> set ds. finished s d)"
proof -
  let ?E = "dep_edges (deps s)"
  have fin: "finite (dom (deps s))" and closed: "deps_closed (deps s)" and acyc: "acyclic ?E"
    using sound [OF assms(1)] by (auto simp: deps_sound_def)
  have "?E \<subseteq> dom (deps s) \<times> dom (deps s)"
    using closed by (auto simp: dep_edges_def deps_closed_def)
  then have "finite ?E" using fin by (meson finite_SigmaI finite_subset)
  then have "wf (?E\<inverse>)" using acyc by (simp add: finite_acyclic_wf_converse)
  then show ?thesis
    using assms(2,3)
  proof (induction k rule: wf_induct_rule)
    case (less k)
    from less.prems obtain ds where ds: "deps s k = Some ds" by auto
    show ?case
    proof (cases "\<forall>d \<in> set ds. finished s d")
      case True
      with ds less.prems show ?thesis by blast
    next
      case False
      then obtain d where d: "d \<in> set ds" "\<not> finished s d" by blast
      then have edge: "(k, d) \<in> ?E" using ds by (auto simp: dep_edges_def)
      have "deps s d \<noteq> None" using closed ds d(1) by (auto simp: deps_closed_def)
      with less.IH [of d] edge d(2) obtain r ds' where
        "(d, r) \<in> ?E\<^sup>*" "deps s r = Some ds'" "\<not> finished s r" "\<forall>d \<in> set ds'. finished s d"
        by auto
      with edge show ?thesis by (meson converse_rtrancl_into_rtrancl)
    qed
  qed
qed

end

end
