(* ===== verification/Team_State.thy ===== *)
theory Team_State
  imports Work_Item Replay
begin

text \<open>
  The team domain of a session (\<open>heycode-session/src/team.rs\<close>): roster, task graph and
  peer mailbox, the changes of each, their local shape, and \<open>apply_change\<close> on the teams
  rebuilt so far. \<open>team_valid_id\<close> is the \<open>valid_id\<close> of that file.
\<close>

section \<open>Vocabulary\<close>

definition max_label_bytes :: nat where
  "max_label_bytes = 256"

definition max_tasks :: nat where
  "max_tasks = 1024"

definition max_members :: nat where
  "max_members = 32"

definition max_task_dependencies :: nat where
  "max_task_dependencies = 64"

definition max_mailbox_messages :: nat where
  "max_mailbox_messages = 4096"

definition max_message_bytes :: nat where
  "max_message_bytes = 64 * 1024"

datatype team_metadata_error =
  TeamInvalidId | TeamInvalidText | TeamInvalidDependencies | TeamInvalidChange

datatype team_projection_error = TeamInvalidShape nat | TeamConflict nat

datatype team_role = Lead | Worker | Reviewer

record team_member =
  tm_id :: string
  tm_display :: string
  tm_role :: team_role

datatype team_task_state =
    TaskPending | TaskInProgress | TaskBlocked | TaskCompleted | TaskFailed | TaskCancelled
  | TaskDeleted

record team_task =
  tt_id :: string
  tt_title :: string
  tt_assignee :: string
  tt_assigned :: bool
  tt_dependencies :: "string list"
  tt_revision :: nat
  tt_state :: team_task_state
  tt_result :: "string option"
  tt_description :: string
  tt_metadata :: metadata
  tt_fingerprint :: "string option"

record mailbox_message =
  mm_id :: string
  mm_from :: string
  mm_to :: string
  mm_body :: string

datatype team_lifecycle = TeamActive | TeamShuttingDown | TeamStopped | TeamArchived

text \<open>Every change but the first carries version, team, new revision and actor.\<close>

datatype team_change =
    TeamCreated nat string team_member \<comment> \<open>version, team, lead\<close>
  | MembersBootstrapped nat string nat string "team_member list"
  | MemberAdded nat string nat string team_member
  | MemberRemoved nat string nat string string
  | LifecycleChanged nat string nat string team_lifecycle
  | TaskUpdated nat string nat string nat team_task \<comment> \<open>expected task revision, task\<close>
  | TaskCreated nat string nat string team_task
  | TaskStateChanged nat string nat string string nat team_task_state "string option"
      \<comment> \<open>task, expected task revision, state, summary\<close>
  | TaskDependenciesChanged nat string nat string string nat "string list"
  | MessageSent nat string nat string mailbox_message
  | MessageDelivered nat string nat string string
  | MessageClaimed nat string nat string string

fun change_team :: "team_change \<Rightarrow> string" where
  "change_team (TeamCreated _ team _) = team"
| "change_team (MembersBootstrapped _ team _ _ _) = team"
| "change_team (MemberAdded _ team _ _ _) = team"
| "change_team (MemberRemoved _ team _ _ _) = team"
| "change_team (LifecycleChanged _ team _ _ _) = team"
| "change_team (TaskUpdated _ team _ _ _ _) = team"
| "change_team (TaskCreated _ team _ _ _) = team"
| "change_team (TaskStateChanged _ team _ _ _ _ _ _) = team"
| "change_team (TaskDependenciesChanged _ team _ _ _ _ _) = team"
| "change_team (MessageSent _ team _ _ _) = team"
| "change_team (MessageDelivered _ team _ _ _) = team"
| "change_team (MessageClaimed _ team _ _ _) = team"

fun change_revision :: "team_change \<Rightarrow> nat option" where
  "change_revision (TeamCreated _ _ _) = None"
| "change_revision (MembersBootstrapped _ _ r _ _) = Some r"
| "change_revision (MemberAdded _ _ r _ _) = Some r"
| "change_revision (MemberRemoved _ _ r _ _) = Some r"
| "change_revision (LifecycleChanged _ _ r _ _) = Some r"
| "change_revision (TaskUpdated _ _ r _ _ _) = Some r"
| "change_revision (TaskCreated _ _ r _ _) = Some r"
| "change_revision (TaskStateChanged _ _ r _ _ _ _ _) = Some r"
| "change_revision (TaskDependenciesChanged _ _ r _ _ _ _) = Some r"
| "change_revision (MessageSent _ _ r _ _) = Some r"
| "change_revision (MessageDelivered _ _ r _ _) = Some r"
| "change_revision (MessageClaimed _ _ r _ _) = Some r"

section \<open>Local shape\<close>

definition valid_one_line :: "string \<Rightarrow> nat \<Rightarrow> bool" where
  "valid_one_line value maximum \<longleftrightarrow>
     value \<noteq> [] \<and> length value \<le> maximum \<and> trim value = value \<and> \<not> has_control value"

definition valid_body :: "string \<Rightarrow> nat \<Rightarrow> bool" where
  "valid_body value maximum \<longleftrightarrow>
     \<not> is_blank value \<and> length value \<le> maximum \<and> \<not> contains_nul value"

definition validate_dependencies :: "string \<Rightarrow> string list \<Rightarrow> team_metadata_error + unit" where
  "validate_dependencies task dependencies =
     refuse_if (max_task_dependencies < length dependencies \<or> has_repeat dependencies
         \<or> list_ex (\<lambda>d. d = task) dependencies)
       TeamInvalidDependencies"

definition member_new :: "string \<Rightarrow> string \<Rightarrow> team_role \<Rightarrow> team_metadata_error + team_member" where
  "member_new i display role =
     and_then (refuse_if (\<not> valid_one_line display max_label_bytes) TeamInvalidText)
       (\<lambda>_. Inr \<lparr>tm_id = i, tm_display = display, tm_role = role\<rparr>)"

definition task_new :: "string \<Rightarrow> string \<Rightarrow> string \<Rightarrow> string list \<Rightarrow> team_metadata_error + team_task" where
  "task_new i title assignee dependencies =
     and_then (validate_dependencies i dependencies) (\<lambda>_.
     and_then
       (refuse_if (\<not> valid_one_line title max_label_bytes \<or> \<not> team_valid_id i
            \<or> \<not> team_valid_id assignee) TeamInvalidText)
       (\<lambda>_. Inr \<lparr>tt_id = i, tt_title = title, tt_assignee = assignee, tt_assigned = True,
               tt_dependencies = dependencies, tt_revision = 1, tt_state = TaskPending,
               tt_result = None, tt_description = [], tt_metadata = bt_empty,
               tt_fingerprint = None\<rparr>))"

definition task_revised ::
  "team_task \<Rightarrow> string \<Rightarrow> string \<Rightarrow> string list \<Rightarrow> team_task_state \<Rightarrow> team_metadata_error + team_task" where
  "task_revised t title assignee dependencies state =
     and_then (task_new (tt_id t) title assignee dependencies) (\<lambda>revised.
     and_then (ok_or TeamInvalidChange (checked_add_u64 (tt_revision t) 1)) (\<lambda>revision.
       Inr (revised\<lparr>tt_revision := revision, tt_state := state,
         tt_result :=
           (if tt_title t = title \<and> tt_assignee t = assignee \<and> tt_dependencies t = dependencies
               \<and> state \<notin> {TaskPending, TaskInProgress}
            then tt_result t else None),
         tt_description := tt_description t, tt_metadata := tt_metadata t,
         tt_fingerprint := tt_fingerprint t\<rparr>)))"

definition valid_fingerprint :: "string \<Rightarrow> bool" where
  "valid_fingerprint value \<longleftrightarrow> length value = 64 \<and> list_all is_ascii_hexdigit value"

definition with_work_content ::
  "work_ext \<Rightarrow> team_task \<Rightarrow> string \<Rightarrow> metadata \<Rightarrow> string option \<Rightarrow> team_metadata_error + team_task" where
  "with_work_content ext t description meta fingerprint =
     and_then
       (map_err (\<lambda>_. TeamInvalidText)
          (work_fields_validate ext
             \<lparr>wif_subject = tt_title t, wif_description = description, wif_status = WorkPending,
              wif_owner = Some (tt_assignee t), wif_dependencies = [], wif_metadata = meta\<rparr>))
       (\<lambda>_. and_then
          (refuse_if (case fingerprint of None \<Rightarrow> False | Some v \<Rightarrow> \<not> valid_fingerprint v)
             TeamInvalidChange)
          (\<lambda>_. Inr (t\<lparr>tt_description := description, tt_metadata := meta,
                  tt_fingerprint := fingerprint\<rparr>)))"

definition task_content_valid :: "work_ext \<Rightarrow> team_task \<Rightarrow> team_metadata_error + unit" where
  "task_content_valid ext t =
     and_then (task_new (tt_id t) (tt_title t) (tt_assignee t) (tt_dependencies t)) (\<lambda>fresh.
     and_then (with_work_content ext fresh (tt_description t) (tt_metadata t) (tt_fingerprint t))
       (\<lambda>_. Inr ()))"

definition mailbox_message_new ::
  "string \<Rightarrow> string \<Rightarrow> string \<Rightarrow> string \<Rightarrow> team_metadata_error + mailbox_message" where
  "mailbox_message_new i sender recipient body =
     and_then
       (refuse_if (sender = recipient \<or> is_blank body \<or> max_message_bytes < length body
            \<or> contains_nul body) TeamInvalidText)
       (\<lambda>_. and_then (refuse_if (\<not> team_valid_id i) TeamInvalidId)
          (\<lambda>_. Inr \<lparr>mm_id = i, mm_from = sender, mm_to = recipient, mm_body = body\<rparr>))"

text \<open>
  \<open>validate_shape\<close>: the guards of the match arms; a change that meets no arm is an
  \<open>InvalidChange\<close>. The guard of \<open>TaskUpdated\<close> adds one to the expected revision
  with a check that also yields \<open>InvalidChange\<close>.
\<close>

fun change_shape :: "work_ext \<Rightarrow> team_change \<Rightarrow> team_metadata_error + unit" where
  "change_shape ext (MemberRemoved version team revision actor member) =
     refuse_if (\<not> (version = 1 \<and> 0 < revision \<and> team_valid_id actor \<and> team_valid_id member))
       TeamInvalidChange"
| "change_shape ext (LifecycleChanged version team revision actor lifecycle) =
     refuse_if (\<not> (version = 1 \<and> 0 < revision \<and> team_valid_id actor)) TeamInvalidChange"
| "change_shape ext (TaskUpdated version team revision actor expected task) =
     (if version = 1 \<and> 0 < revision \<and> 0 < expected
         \<and> checked_add_u64 expected 1 = Some (tt_revision task) \<and> team_valid_id actor
      then task_content_valid ext task
      else Inl TeamInvalidChange)"
| "change_shape ext (MembersBootstrapped version team revision actor members) =
     (if version = 1 \<and> 0 < revision \<and> members \<noteq> [] \<and> length members \<le> 8
      then try_all
             (\<lambda>m. and_then (member_new (tm_id m) (tm_display m) (tm_role m))
                (\<lambda>_. refuse_if (tm_role m = Lead) TeamInvalidChange))
             members
      else Inl TeamInvalidChange)"
| "change_shape ext (TeamCreated version team lead) =
     refuse_if (\<not> (version = 1 \<and> tm_role lead = Lead)) TeamInvalidChange"
| "change_shape ext (MemberAdded version team revision actor member) =
     refuse_if (\<not> (version = 1 \<and> 0 < revision \<and> tm_role member \<noteq> Lead)) TeamInvalidChange"
| "change_shape ext (TaskCreated version team revision actor task) =
     (if version = 1 \<and> 0 < revision \<and> tt_revision task = 1 \<and> tt_state task = TaskPending
      then and_then (task_content_valid ext task)
             (\<lambda>_. validate_dependencies (tt_id task) (tt_dependencies task))
      else Inl TeamInvalidChange)"
| "change_shape ext (TaskStateChanged version team revision actor task expected state summary) =
     refuse_if (\<not> (version = 1 \<and> 0 < revision \<and> 0 < expected
          \<and> (case summary of None \<Rightarrow> True | Some s \<Rightarrow> valid_body s max_message_bytes)))
       TeamInvalidChange"
| "change_shape ext (TaskDependenciesChanged version team revision actor task expected deps) =
     (if version = 1 \<and> 0 < revision \<and> 0 < expected
      then validate_dependencies task deps else Inl TeamInvalidChange)"
| "change_shape ext (MessageSent version team revision actor message) =
     refuse_if (\<not> (version = 1 \<and> 0 < revision \<and> actor = mm_from message)) TeamInvalidChange"
| "change_shape ext (MessageDelivered version team revision actor message) =
     refuse_if (\<not> (version = 1 \<and> 0 < revision)) TeamInvalidChange"
| "change_shape ext (MessageClaimed version team revision actor message) =
     refuse_if (\<not> (version = 1 \<and> 0 < revision)) TeamInvalidChange"

definition team_validate_shape :: "work_ext \<Rightarrow> team_change \<Rightarrow> team_metadata_error + unit" where
  "team_validate_shape ext change =
     and_then (refuse_if (\<not> team_valid_id (change_team change)) TeamInvalidId)
       (\<lambda>_. change_shape ext change)"

end
