(* ===== verification/Team_Board.thy ===== *)
theory Team_Board
  imports Team_State
begin

text \<open>
  Applying a team change to the teams rebuilt so far (\<open>apply_change\<close> of
  \<open>team.rs\<close>), the cycle check of the task graph, and the invariant of a team. Every
  refusal is \<open>TeamConflict\<close> with the sequence number of the event. A refused change gives the
  whole projection up, so it carries no state.
\<close>

section \<open>State\<close>

record team_view =
  tv_id :: string
  tv_lifecycle :: team_lifecycle
  tv_revision :: nat
  tv_lead :: string
  tv_members :: "(string, team_member) btree_map"
  tv_tasks :: "(string, team_task) btree_map"
  tv_mailbox :: "(string, mailbox_message \<times> bool \<times> bool) btree_map" \<comment> \<open>delivered, claimed\<close>

type_synonym team_projection = "(string, team_view) btree_map"

definition tasks_of :: "team_view \<Rightarrow> team_task list" where
  "tasks_of team = bt_values (tv_tasks team)"

definition task_completed :: "team_view \<Rightarrow> string \<Rightarrow> bool" where
  "task_completed team i \<longleftrightarrow>
     (case bt_get (tv_tasks team) i of None \<Rightarrow> False | Some t \<Rightarrow> tt_state t = TaskCompleted)"

text \<open>A dependency that is missing or deleted, which the code refuses.\<close>

definition task_dead :: "team_view \<Rightarrow> string \<Rightarrow> bool" where
  "task_dead team i \<longleftrightarrow>
     (case bt_get (tv_tasks team) i of None \<Rightarrow> True | Some t \<Rightarrow> tt_state t = TaskDeleted)"

definition is_runnable :: "team_view \<Rightarrow> team_task \<Rightarrow> bool" where
  "is_runnable team t \<longleftrightarrow>
     tt_assigned t \<and> tv_lifecycle team = TeamActive
     \<and> tt_state t \<in> {TaskPending, TaskBlocked}
     \<and> list_all (task_completed team) (tt_dependencies t)"

definition pending_mail :: "team_view \<Rightarrow> string \<Rightarrow> mailbox_message list" where
  "pending_mail team recipient =
     map fst (filter (\<lambda>(m, delivered, claimed). \<not> claimed \<and> mm_to m = recipient)
       (bt_values (tv_mailbox team)))"

section \<open>The cycle check\<close>

text \<open>
  \<open>visit\<close> returns \<open>None\<close> for \<open>false\<close> and otherwise the visited set. The id it adds
  to \<open>visiting\<close> is removed before it returns, so \<open>visiting\<close> is an argument; after a
  failure every enclosing \<open>all\<close> stops, so the sets do not matter then.
\<close>

type_synonym task_table = "(string, team_task) btree_map"

function (sequential) visit ::
  "task_table \<Rightarrow> string list \<Rightarrow> string list \<Rightarrow> string \<Rightarrow> string list option"
and visit_all ::
  "task_table \<Rightarrow> string list \<Rightarrow> string list \<Rightarrow> string list \<Rightarrow> string list option" where
  "visit tasks visiting visited i =
     (if i \<in> set visited then Some visited
      else if i \<in> set visiting then None
      else case bt_get tasks i of
        None \<Rightarrow> None
      | Some t \<Rightarrow>
          (case visit_all tasks (i # visiting) visited (tt_dependencies t) of
             None \<Rightarrow> None
           | Some visited' \<Rightarrow> Some (i # visited')))"
| "visit_all tasks visiting visited [] = Some visited"
| "visit_all tasks visiting visited (d # ds) =
     (case visit tasks visiting visited d of
        None \<Rightarrow> None
      | Some visited' \<Rightarrow> visit_all tasks visiting visited' ds)"
  by pat_completeness auto

definition unvisiting :: "task_table \<Rightarrow> string list \<Rightarrow> nat" where
  "unvisiting tasks visiting = card (set (bt_keys tasks) - set visiting)"

lemma unvisiting_less:
  "i \<notin> set visiting \<Longrightarrow> bt_get tasks i = Some t \<Longrightarrow> unvisiting tasks (i # visiting) < unvisiting tasks visiting"
  unfolding unvisiting_def
  by (rule psubset_card_mono) (force simp: bt_keys_def dest: bt_get_SomeD)+

termination visit
  by (relation "measures
      [\<lambda>x. case x of Inl (tasks, visiting, _, _) \<Rightarrow> unvisiting tasks visiting
         | Inr (tasks, visiting, _, _) \<Rightarrow> unvisiting tasks visiting,
       \<lambda>x. case x of Inl _ \<Rightarrow> 0 | Inr (_, _, _, ds) \<Rightarrow> Suc (length ds)]")
    (auto simp: unvisiting_less)

declare visit.simps [simp del]

definition ensure_acyclic :: "team_view \<Rightarrow> nat \<Rightarrow> team_projection_error + unit" where
  "ensure_acyclic team seq =
     (case visit_all (tv_tasks team) [] [] (bt_keys (tv_tasks team)) of
        None \<Rightarrow> Inl (TeamConflict seq)
      | Some _ \<Rightarrow> Inr ())"

section \<open>Changes of one team\<close>

fun valid_task_transition :: "team_task_state \<Rightarrow> team_task_state \<Rightarrow> bool" where
  "valid_task_transition from to \<longleftrightarrow>
     (from \<in> {TaskPending, TaskBlocked} \<and> to = TaskInProgress)
     \<or> (from = TaskInProgress \<and> to \<in> {TaskCompleted, TaskFailed, TaskBlocked, TaskCancelled})
     \<or> (from \<in> {TaskPending, TaskBlocked} \<and> to = TaskCancelled)"

definition require_lead :: "team_view \<Rightarrow> string \<Rightarrow> nat \<Rightarrow> team_projection_error + unit" where
  "require_lead team actor seq = refuse_if (actor \<noteq> tv_lead team) (TeamConflict seq)"

definition insert_task :: "team_task \<Rightarrow> nat \<Rightarrow> team_view \<Rightarrow> team_projection_error + team_view" where
  "insert_task t seq team =
     (let team' = team\<lparr>tv_tasks := bt_insert (tt_id t) t (tv_tasks team)\<rparr>
      in and_then (ensure_acyclic team' seq) (\<lambda>_. Inr team'))"

definition remove_member :: "string \<Rightarrow> string \<Rightarrow> nat \<Rightarrow> team_view \<Rightarrow> team_projection_error + team_view" where
  "remove_member actor member seq team =
     and_then (require_lead team actor seq) (\<lambda>_.
     and_then
       (refuse_if (member = tv_lead team \<or> \<not> bt_contains (tv_members team) member
            \<or> list_ex (\<lambda>t. tt_assignee t = member
                  \<and> tt_state t \<in> {TaskPending, TaskBlocked, TaskInProgress}) (tasks_of team))
          (TeamConflict seq))
       (\<lambda>_. Inr (team\<lparr>tv_members := bt_remove member (tv_members team)\<rparr>)))"

definition change_lifecycle ::
  "string \<Rightarrow> team_lifecycle \<Rightarrow> nat \<Rightarrow> team_view \<Rightarrow> team_projection_error + team_view" where
  "change_lifecycle actor lifecycle seq team =
     and_then (require_lead team actor seq) (\<lambda>_.
     and_then
       (refuse_if (tv_lifecycle team = lifecycle
            \<or> (lifecycle \<in> {TeamArchived, TeamStopped}
                \<and> list_ex (\<lambda>t. tt_state t = TaskInProgress) (tasks_of team)))
          (TeamConflict seq))
       (\<lambda>_. Inr (team\<lparr>tv_lifecycle := lifecycle\<rparr>)))"

definition update_task ::
  "string \<Rightarrow> nat \<Rightarrow> team_task \<Rightarrow> nat \<Rightarrow> team_view \<Rightarrow> team_projection_error + team_view" where
  "update_task actor expected t seq team =
     and_then (ok_or (TeamConflict seq) (bt_get (tv_tasks team) (tt_id t))) (\<lambda>current.
     and_then
       (refuse_if (actor \<noteq> tv_lead team
            \<and> (\<not> tt_assigned current \<or> actor \<noteq> tt_assignee current
               \<or> tt_title t \<noteq> tt_title current \<or> tt_description t \<noteq> tt_description current
               \<or> tt_assignee t \<noteq> tt_assignee current \<or> tt_assigned t \<noteq> tt_assigned current
               \<or> tt_dependencies t \<noteq> tt_dependencies current \<or> tt_metadata t \<noteq> tt_metadata current))
          (TeamConflict seq)) (\<lambda>_.
     and_then
       (refuse_if (tt_revision current \<noteq> expected \<or> tt_state current = TaskDeleted
            \<or> tt_fingerprint current \<noteq> tt_fingerprint t
            \<or> \<not> bt_contains (tv_members team) (tt_assignee t)
            \<or> list_ex (task_dead team) (tt_dependencies t))
          (TeamConflict seq)) (\<lambda>_.
     and_then
       (refuse_if (tt_state t \<noteq> TaskCompleted
            \<and> list_ex (\<lambda>dependent. tt_id t \<in> set (tt_dependencies dependent)
                  \<and> (tt_state dependent \<in> {TaskInProgress, TaskCompleted}
                     \<or> (tt_state t = TaskDeleted \<and> tt_state dependent \<noteq> TaskDeleted)))
                (tasks_of team))
          (TeamConflict seq)) (\<lambda>_.
     and_then
       (refuse_if (tt_state t \<in> {TaskInProgress, TaskCompleted}
            \<and> list_ex (\<lambda>d. \<not> task_completed team d) (tt_dependencies t))
          (TeamConflict seq))
       (\<lambda>_. insert_task t seq team)))))"

definition bootstrap_members ::
  "string \<Rightarrow> team_member list \<Rightarrow> nat \<Rightarrow> team_view \<Rightarrow> team_projection_error + team_view" where
  "bootstrap_members actor members seq team =
     and_then (require_lead team actor seq) (\<lambda>_.
     and_then
       (refuse_if (max_members < length members + length (tv_members team)
            \<or> has_repeat (map tm_id members)
            \<or> list_ex (\<lambda>m. bt_contains (tv_members team) (tm_id m)) members)
          (TeamConflict seq))
       (\<lambda>_. Inr (team\<lparr>tv_members := fold (\<lambda>m. bt_insert (tm_id m) m) members (tv_members team)\<rparr>)))"

definition add_member :: "string \<Rightarrow> team_member \<Rightarrow> nat \<Rightarrow> team_view \<Rightarrow> team_projection_error + team_view" where
  "add_member actor m seq team =
     and_then (require_lead team actor seq) (\<lambda>_.
     and_then
       (refuse_if (max_members \<le> length (tv_members team) \<or> bt_contains (tv_members team) (tm_id m))
          (TeamConflict seq))
       (\<lambda>_. Inr (team\<lparr>tv_members := bt_insert (tm_id m) m (tv_members team)\<rparr>)))"

definition create_task :: "string \<Rightarrow> team_task \<Rightarrow> nat \<Rightarrow> team_view \<Rightarrow> team_projection_error + team_view" where
  "create_task actor t seq team =
     and_then (require_lead team actor seq) (\<lambda>_.
     and_then
       (refuse_if (max_tasks \<le> length (tv_tasks team) \<or> bt_contains (tv_tasks team) (tt_id t)
            \<or> \<not> bt_contains (tv_members team) (tt_assignee t)
            \<or> list_ex (task_dead team) (tt_dependencies t))
          (TeamConflict seq))
       (\<lambda>_. insert_task t seq team))"

definition change_task_state ::
  "string \<Rightarrow> string \<Rightarrow> nat \<Rightarrow> team_task_state \<Rightarrow> string option \<Rightarrow> nat \<Rightarrow> team_view
   \<Rightarrow> team_projection_error + team_view" where
  "change_task_state actor i expected state summary seq team =
     and_then (ok_or (TeamConflict seq) (bt_get (tv_tasks team) i)) (\<lambda>t.
     and_then
       (refuse_if (tt_revision t \<noteq> expected
            \<or> (actor \<noteq> tv_lead team \<and> actor \<noteq> tt_assignee t)
            \<or> \<not> valid_task_transition (tt_state t) state
            \<or> (state = TaskInProgress
                \<and> (\<not> is_runnable team t
                   \<or> list_ex (\<lambda>other. tt_assignee other = tt_assignee t
                         \<and> tt_state other = TaskInProgress) (tasks_of team))))
          (TeamConflict seq))
       (\<lambda>_. Inr (team\<lparr>tv_tasks := bt_insert i
                (t\<lparr>tt_revision := saturating_add_u64 (tt_revision t) 1, tt_state := state,
                   tt_result := summary\<rparr>) (tv_tasks team)\<rparr>)))"

definition change_task_dependencies ::
  "string \<Rightarrow> string \<Rightarrow> nat \<Rightarrow> string list \<Rightarrow> nat \<Rightarrow> team_view \<Rightarrow> team_projection_error + team_view" where
  "change_task_dependencies actor i expected dependencies seq team =
     and_then (require_lead team actor seq) (\<lambda>_.
     and_then (refuse_if (list_ex (task_dead team) dependencies) (TeamConflict seq)) (\<lambda>_.
     and_then (ok_or (TeamConflict seq) (bt_get (tv_tasks team) i)) (\<lambda>t.
     and_then
       (refuse_if (tt_revision t \<noteq> expected \<or> tt_state t \<notin> {TaskPending, TaskBlocked})
          (TeamConflict seq))
       (\<lambda>_. let team' = team\<lparr>tv_tasks := bt_insert i
                (t\<lparr>tt_revision := saturating_add_u64 (tt_revision t) 1,
                   tt_dependencies := dependencies\<rparr>) (tv_tasks team)\<rparr>
             in and_then (ensure_acyclic team' seq) (\<lambda>_. Inr team')))))"

definition send_message ::
  "string \<Rightarrow> mailbox_message \<Rightarrow> nat \<Rightarrow> team_view \<Rightarrow> team_projection_error + team_view" where
  "send_message actor m seq team =
     and_then
       (refuse_if (actor \<noteq> mm_from m \<or> \<not> bt_contains (tv_members team) actor
            \<or> \<not> bt_contains (tv_members team) (mm_to m)
            \<or> max_mailbox_messages \<le> length (tv_mailbox team)
            \<or> bt_contains (tv_mailbox team) (mm_id m))
          (TeamConflict seq))
       (\<lambda>_. Inr (team\<lparr>tv_mailbox := bt_insert (mm_id m) (m, False, False) (tv_mailbox team)\<rparr>))"

definition deliver_message :: "string \<Rightarrow> string \<Rightarrow> nat \<Rightarrow> team_view \<Rightarrow> team_projection_error + team_view" where
  "deliver_message actor i seq team =
     and_then (require_lead team actor seq) (\<lambda>_.
     and_then (ok_or (TeamConflict seq) (bt_get (tv_mailbox team) i)) (\<lambda>(m, delivered, claimed).
     and_then (refuse_if (delivered \<or> claimed) (TeamConflict seq))
       (\<lambda>_. Inr (team\<lparr>tv_mailbox := bt_insert i (m, True, claimed) (tv_mailbox team)\<rparr>))))"

definition claim_message :: "string \<Rightarrow> string \<Rightarrow> nat \<Rightarrow> team_view \<Rightarrow> team_projection_error + team_view" where
  "claim_message actor i seq team =
     and_then (ok_or (TeamConflict seq) (bt_get (tv_mailbox team) i)) (\<lambda>(m, delivered, claimed).
     and_then (refuse_if (claimed \<or> mm_to m \<noteq> actor) (TeamConflict seq))
       (\<lambda>_. Inr (team\<lparr>tv_mailbox := bt_insert i (m, delivered, True) (tv_mailbox team)\<rparr>)))"

fun apply_to_team :: "team_change \<Rightarrow> nat \<Rightarrow> team_view \<Rightarrow> team_projection_error + team_view" where
  "apply_to_team (TeamCreated _ _ _) seq team = Inl (TeamConflict seq)"
| "apply_to_team (MembersBootstrapped _ _ _ actor ms) seq team = bootstrap_members actor ms seq team"
| "apply_to_team (MemberAdded _ _ _ actor m) seq team = add_member actor m seq team"
| "apply_to_team (MemberRemoved _ _ _ actor m) seq team = remove_member actor m seq team"
| "apply_to_team (LifecycleChanged _ _ _ actor l) seq team = change_lifecycle actor l seq team"
| "apply_to_team (TaskUpdated _ _ _ actor expected t) seq team = update_task actor expected t seq team"
| "apply_to_team (TaskCreated _ _ _ actor t) seq team = create_task actor t seq team"
| "apply_to_team (TaskStateChanged _ _ _ actor i expected state summary) seq team =
     change_task_state actor i expected state summary seq team"
| "apply_to_team (TaskDependenciesChanged _ _ _ actor i expected deps) seq team =
     change_task_dependencies actor i expected deps seq team"
| "apply_to_team (MessageSent _ _ _ actor m) seq team = send_message actor m seq team"
| "apply_to_team (MessageDelivered _ _ _ actor i) seq team = deliver_message actor i seq team"
| "apply_to_team (MessageClaimed _ _ _ actor i) seq team = claim_message actor i seq team"

section \<open>Changes of the projection\<close>

fun allowed_inactive :: "team_change \<Rightarrow> bool" where
  "allowed_inactive (LifecycleChanged _ _ _ _ _) = True"
| "allowed_inactive (TaskStateChanged _ _ _ _ _ _ _ _) = True"
| "allowed_inactive (MessageDelivered _ _ _ _ _) = True"
| "allowed_inactive (MessageClaimed _ _ _ _ _) = True"
| "allowed_inactive _ = False"

fun reactivates :: "team_change \<Rightarrow> bool" where
  "reactivates (LifecycleChanged _ _ _ _ lifecycle) = (lifecycle = TeamActive)"
| "reactivates _ = False"

definition team_new :: "string \<Rightarrow> team_member \<Rightarrow> team_view" where
  "team_new team lead =
     \<lparr>tv_id = team, tv_lifecycle = TeamActive, tv_revision = 0, tv_lead = tm_id lead,
      tv_members = bt_insert (tm_id lead) lead bt_empty, tv_tasks = bt_empty,
      tv_mailbox = bt_empty\<rparr>"

definition apply_revisioned :: "team_change \<Rightarrow> nat \<Rightarrow> team_view \<Rightarrow> team_projection_error + team_view" where
  "apply_revisioned change seq team =
     and_then (ok_or (TeamConflict seq) (change_revision change)) (\<lambda>revision.
     and_then
       (refuse_if (revision \<noteq> saturating_add_u64 (tv_revision team) 1) (TeamConflict seq)) (\<lambda>_.
     and_then
       (refuse_if (tv_lifecycle team \<noteq> TeamActive \<and> \<not> allowed_inactive change)
          (TeamConflict seq)) (\<lambda>_.
     and_then
       (refuse_if (tv_lifecycle team = TeamArchived \<and> \<not> reactivates change)
          (TeamConflict seq)) (\<lambda>_.
     and_then (apply_to_team change seq team) (\<lambda>team'.
       Inr (team'\<lparr>tv_revision := revision\<rparr>))))))"

definition apply_team_change ::
  "team_projection \<Rightarrow> team_change \<Rightarrow> nat \<Rightarrow> team_projection_error + team_projection" where
  "apply_team_change proj change seq =
     (case change of
        TeamCreated version team lead \<Rightarrow>
          and_then
            (refuse_if (bt_contains proj team \<or> 64 \<le> length proj) (TeamConflict seq))
            (\<lambda>_. Inr (bt_insert team (team_new team lead) proj))
      | _ \<Rightarrow>
          and_then (ok_or (TeamConflict seq) (bt_get proj (change_team change))) (\<lambda>team.
          and_then (apply_revisioned change seq team) (\<lambda>team'.
            Inr (bt_insert (change_team change) team' proj))))"

text \<open>One event of \<open>project_teams\<close>: shape first, then the change.\<close>

definition team_step ::
  "work_ext \<Rightarrow> team_projection \<Rightarrow> nat \<times> team_change \<Rightarrow> team_projection_error + team_projection" where
  "team_step ext proj ev =
     and_then (map_err (\<lambda>_. TeamInvalidShape (fst ev)) (team_validate_shape ext (snd ev)))
       (\<lambda>_. apply_team_change proj (snd ev) (fst ev))"

end
