(* ===== verification/Work_State.thy ===== *)
theory Work_State
  imports Team_Board
begin

text \<open>
  The work board of a session (\<open>heycode-session/src/work.rs\<close>): changes, their shape,
  the iterative cycle scan, and \<open>apply\<close>; the view of team tasks as work items.
\<close>

section \<open>Changes\<close>

record work_change =
  wc_version :: nat
  wc_expected :: "nat option"
  wc_item :: work_item

definition work_change_create ::
  "work_ext \<Rightarrow> work_scope \<Rightarrow> string \<Rightarrow> work_fields \<Rightarrow> work_error + work_change" where
  "work_change_create ext scope request_key flds =
     and_then (refuse_if (\<not> work_valid_id request_key \<or> wif_status flds = WorkDeleted) WorkErrInvalid) (\<lambda>_.
     and_then (work_fields_validate ext flds) (\<lambda>_.
     and_then (validate_scope scope) (\<lambda>_.
     and_then (ok_or WorkErrInvalid (we_identity_json ext scope request_key)) (\<lambda>identity.
     and_then (ok_or WorkErrInvalid (we_fields_json ext scope flds)) (\<lambda>fingerprint.
       Inr \<lparr>wc_version = 1, wc_expected = None,
            wc_item =
              \<lparr>wi_id = ''work-'' @ we_sha256_hex ext identity, wi_scope = scope, wi_revision = 1,
               wi_fingerprint = we_sha256_hex ext fingerprint, wi_fields = flds,
               wi_team_task = None, wi_result = None\<rparr>\<rparr>)))))"

definition work_change_update ::
  "work_ext \<Rightarrow> work_item \<Rightarrow> nat \<Rightarrow> work_fields \<Rightarrow> work_error + work_change" where
  "work_change_update ext current expected flds =
     and_then (refuse_if (wi_revision current \<noteq> expected) WorkErrConflict) (\<lambda>_.
     and_then (refuse_if (wif_status (wi_fields current) = WorkDeleted) WorkErrDeleted) (\<lambda>_.
     and_then (work_fields_validate ext flds) (\<lambda>_.
     and_then (ok_or WorkErrLimit (checked_add_u64 expected 1)) (\<lambda>revision.
       Inr \<lparr>wc_version = 1, wc_expected = Some expected,
            wc_item = current\<lparr>wi_revision := revision, wi_fields := flds\<rparr>\<rparr>))))"

definition work_validate_shape :: "work_ext \<Rightarrow> work_change \<Rightarrow> work_error + unit" where
  "work_validate_shape ext change =
     (let item = wc_item change in
      and_then
        (refuse_if
           (wi_team_task item \<noteq> None \<or> wi_result item \<noteq> None \<or> wc_version change \<noteq> 1
            \<or> \<not> work_valid_id (wi_id item) \<or> length (wi_fingerprint item) \<noteq> 64
            \<or> \<not> list_all is_ascii_hexdigit (wi_fingerprint item))
           WorkErrInvalid) (\<lambda>_.
      and_then
        (ok_or WorkErrInvalid
           (checked_add_u64 (case wc_expected change of None \<Rightarrow> 0 | Some r \<Rightarrow> r) 1)) (\<lambda>next.
      and_then
        (refuse_if
           (wi_revision item \<noteq> next \<or> wc_expected change = Some 0
            \<or> (wc_expected change = None \<and> wif_status (wi_fields item) = WorkDeleted))
           WorkErrInvalid) (\<lambda>_.
      and_then (validate_scope (wi_scope item)) (\<lambda>_.
        work_fields_validate ext (wi_fields item))))))"

section \<open>The board\<close>

type_synonym work_projection = "(string, work_item) btree_map"

definition work_deps :: "work_projection \<Rightarrow> string \<Rightarrow> string list option" where
  "work_deps items i = map_option (\<lambda>item. wif_dependencies (wi_fields item)) (bt_get items i)"

definition work_status_of :: "work_projection \<Rightarrow> string \<Rightarrow> work_status option" where
  "work_status_of items i = map_option (\<lambda>item. wif_status (wi_fields item)) (bt_get items i)"

text \<open>
  The worklist of \<open>apply\<close>: \<open>pending.pop()\<close> takes the last element and the
  dependencies of a new entry are appended.
\<close>

function scan_cycle ::
  "work_projection \<Rightarrow> string \<Rightarrow> string list \<Rightarrow> string list \<Rightarrow> work_error + unit" where
  "scan_cycle items target visited pending =
     (if pending = [] then Inr ()
      else let i = last pending; rest = butlast pending in
        if i = target then Inl WorkErrCycle
        else if i \<in> set visited then scan_cycle items target visited rest
        else case bt_get items i of
          None \<Rightarrow> Inl WorkErrUnknown
        | Some item \<Rightarrow>
            scan_cycle items target (i # visited) (rest @ wif_dependencies (wi_fields item)))"
  by pat_completeness auto

definition unvisited_work :: "work_projection \<Rightarrow> string list \<Rightarrow> nat" where
  "unvisited_work items visited = card (set (bt_keys items) - set visited)"

lemma unvisited_work_less:
  "i \<notin> set visited \<Longrightarrow> bt_get items i = Some item \<Longrightarrow>
   unvisited_work items (i # visited) < unvisited_work items visited"
  unfolding unvisited_work_def
  by (rule psubset_card_mono) (force simp: bt_keys_def dest: bt_get_SomeD)+

termination scan_cycle
  by (relation "measures
      [\<lambda>(items, target, visited, pending). unvisited_work items visited,
       \<lambda>(items, target, visited, pending). length pending]")
    (auto simp: unvisited_work_less)

declare scan_cycle.simps [simp del]

text \<open>One prerequisite of a candidate.\<close>

definition check_dependency :: "work_projection \<Rightarrow> work_item \<Rightarrow> string \<Rightarrow> work_error + unit" where
  "check_dependency items item d =
     and_then (refuse_if (d = wi_id item) WorkErrCycle) (\<lambda>_.
     and_then (ok_or WorkErrUnknown (bt_get items d)) (\<lambda>target.
     and_then (refuse_if (wi_scope target \<noteq> wi_scope item) WorkErrScope) (\<lambda>_.
     and_then (refuse_if (wif_status (wi_fields target) = WorkDeleted) WorkErrDeleted) (\<lambda>_.
       refuse_if (wif_status (wi_fields item) \<in> {WorkInProgress, WorkCompleted}
         \<and> wif_status (wi_fields target) \<noteq> WorkCompleted) WorkErrBlocked))))"

text \<open>
  The match on the existing row and the expected revision: \<open>Inr False\<close> is the identical
  create retry, which returns at once.
\<close>

definition check_revision ::
  "work_projection \<Rightarrow> work_change \<Rightarrow> work_error + bool" where
  "check_revision items change =
     (let item = wc_item change in
      case (bt_get items (wi_id item), wc_expected change) of
        (Some existing, None) \<Rightarrow>
          if wi_fingerprint existing = wi_fingerprint item then Inr False else Inl WorkErrConflict
      | (None, Some _) \<Rightarrow> Inl WorkErrConflict
      | (Some existing, Some revision) \<Rightarrow>
          if wi_revision existing \<noteq> revision \<or> wi_scope existing \<noteq> wi_scope item
             \<or> wi_fingerprint existing \<noteq> wi_fingerprint item
          then Inl WorkErrConflict
          else if wif_status (wi_fields existing) = WorkDeleted then Inl WorkErrDeleted
          else Inr True
      | (None, None) \<Rightarrow> if max_work_items \<le> length items then Inl WorkErrLimit else Inr True)"

definition work_dependents :: "work_projection \<Rightarrow> string \<Rightarrow> (work_status \<Rightarrow> bool) \<Rightarrow> bool" where
  "work_dependents items i P \<longleftrightarrow>
     list_ex (\<lambda>other. P (wif_status (wi_fields other)) \<and> i \<in> set (wif_dependencies (wi_fields other)))
       (bt_values items)"

text \<open>\<open>WorkProjection::apply\<close>: whether the board changed, and the board.\<close>

definition work_apply ::
  "work_ext \<Rightarrow> work_projection \<Rightarrow> work_change \<Rightarrow> work_error + (bool \<times> work_projection)" where
  "work_apply ext items change =
     (let item = wc_item change; status = wif_status (wi_fields item) in
      and_then (work_validate_shape ext change) (\<lambda>_.
      and_then (check_revision items change) (\<lambda>fresh.
        if \<not> fresh then Inr (False, items)
        else
          and_then (try_all (check_dependency items item) (wif_dependencies (wi_fields item))) (\<lambda>_.
          and_then (scan_cycle items (wi_id item) [] (wif_dependencies (wi_fields item))) (\<lambda>_.
          and_then
            (refuse_if (status \<noteq> WorkCompleted
                 \<and> work_dependents items (wi_id item) (\<lambda>s. s \<in> {WorkInProgress, WorkCompleted}))
               WorkErrBlocked) (\<lambda>_.
          and_then
            (refuse_if (status = WorkDeleted
                 \<and> work_dependents items (wi_id item) (\<lambda>s. s \<noteq> WorkDeleted)) WorkErrBlocked) (\<lambda>_.
            Inr (True, bt_insert (wi_id item) item items))))))))"

definition work_validate_replacement ::
  "work_ext \<Rightarrow> work_projection \<Rightarrow> string \<Rightarrow> nat \<Rightarrow> work_fields \<Rightarrow> work_error + unit" where
  "work_validate_replacement ext items i expected flds =
     and_then (ok_or WorkErrUnknown (bt_get items i)) (\<lambda>current.
     and_then
       (work_change_update ext (current\<lparr>wi_team_task := None, wi_result := None\<rparr>) expected flds)
       (\<lambda>change. and_then (work_apply ext items change) (\<lambda>_. Inr ())))"

section \<open>Team tasks as work\<close>

fun team_state_status :: "team_task_state \<Rightarrow> work_status" where
  "team_state_status TaskPending = WorkPending"
| "team_state_status TaskInProgress = WorkInProgress"
| "team_state_status TaskBlocked = WorkBlocked"
| "team_state_status TaskCompleted = WorkCompleted"
| "team_state_status TaskFailed = WorkFailed"
| "team_state_status TaskCancelled = WorkCancelled"
| "team_state_status TaskDeleted = WorkDeleted"

definition team_work_id :: "work_ext \<Rightarrow> string \<Rightarrow> string \<Rightarrow> work_error + string" where
  "team_work_id ext team task =
     and_then (ok_or WorkErrInvalid (we_identity_json ext (ScopeTeam team) task)) (\<lambda>identity.
       let i = ''work-'' @ we_sha256_hex ext identity
       in and_then (refuse_if (\<not> work_valid_id i) WorkErrInvalid) (\<lambda>_. Inr i))"

definition clean_legacy_text :: "string \<Rightarrow> string" where
  "clean_legacy_text value =
     concat (filter (\<lambda>ch. \<not> is_bad_control (code_point ch)) (utf8_chunks value))"

text \<open>The longest prefix of at most \<open>max_bytes\<close> bytes that ends at a character boundary.\<close>

fun boundary_below :: "string \<Rightarrow> nat \<Rightarrow> nat" where
  "boundary_below value 0 = 0"
| "boundary_below value (Suc n) =
     (if is_char_boundary value (Suc n) then Suc n else boundary_below value n)"

definition bounded_text :: "string \<Rightarrow> nat \<Rightarrow> string" where
  "bounded_text value max_bytes = take (boundary_below value (min (length value) max_bytes)) value"

definition work_from_team_task :: "work_ext \<Rightarrow> string \<Rightarrow> team_task \<Rightarrow> work_error + work_item" where
  "work_from_team_task ext team task =
     and_then (try_map (team_work_id ext team) (tt_dependencies task)) (\<lambda>deps.
       let status = team_state_status (tt_state task);
           flds =
             \<lparr>wif_subject = tt_title task,
              wif_description = bounded_text (clean_legacy_text (tt_description task)) 16384,
              wif_status = (if status = WorkDeleted then WorkPending else status),
              wif_owner = (if tt_assigned task then Some (tt_assignee task) else None),
              wif_dependencies = deps, wif_metadata = tt_metadata task\<rparr>
       in and_then (work_change_create ext (ScopeTeam team) (tt_id task) flds) (\<lambda>change.
            Inr ((wc_item change)\<lparr>
              wi_fields := (wi_fields (wc_item change))\<lparr>wif_status := status\<rparr>,
              wi_revision := tt_revision task,
              wi_team_task := Some (tt_id task),
              wi_result := tt_result task,
              wi_fingerprint :=
                (case tt_fingerprint task of
                   None \<Rightarrow> wi_fingerprint (wc_item change) | Some f \<Rightarrow> f)\<rparr>)))"

section \<open>Laws of the cycle scan\<close>

lemma work_deps_edge:
  "(i, d) \<in> dep_edges (work_deps items) \<longleftrightarrow>
     (\<exists>item. bt_get items i = Some item \<and> d \<in> set (wif_dependencies (wi_fields item)))"
  by (auto simp: dep_edges_def work_deps_def)

lemma dom_work_deps: "dom (work_deps items) = dom (bt_get items)"
  by (auto simp: work_deps_def)

text \<open>A scan that ends without error has closed a set that does not contain the target.\<close>

lemma scan_cycle_sound:
  assumes "scan_cycle items target visited pending = Inr ()"
    and "target \<notin> set visited"
    and "\<forall>v \<in> set visited. \<forall>d. (v, d) \<in> dep_edges (work_deps items) \<longrightarrow> d \<in> set visited \<union> set pending"
  shows "\<exists>V. set visited \<union> set pending \<subseteq> V \<and> target \<notin> V
    \<and> (\<forall>v \<in> V. \<forall>d. (v, d) \<in> dep_edges (work_deps items) \<longrightarrow> d \<in> V)"
  using assms
proof (induction items target visited pending rule: scan_cycle.induct)
  case (1 items target visited pending)
  show ?case
  proof (cases "pending = []")
    case True
    then show ?thesis using "1.prems" by (intro exI [of _ "set visited"]) auto
  next
    case False
    let ?i = "last pending" and ?rest = "butlast pending"
    have pending: "set pending = insert ?i (set ?rest)"
      using False by (metis append_butlast_last_id insert_is_Un list.simps(15) set_append sup_commute list.set(1))
    have ne: "?i \<noteq> target" using "1.prems"(1) False by (auto simp: scan_cycle.simps [of items target visited pending])
    show ?thesis
    proof (cases "?i \<in> set visited")
      case True
      then have go: "scan_cycle items target visited ?rest = Inr ()"
        using "1.prems"(1) False ne by (simp add: scan_cycle.simps [of items target visited pending])
      have "\<forall>v \<in> set visited. \<forall>d. (v, d) \<in> dep_edges (work_deps items) \<longrightarrow> d \<in> set visited \<union> set ?rest"
        using "1.prems"(3) True unfolding pending by blast
      from "1.IH"(1) [OF False refl refl ne True go "1.prems"(2) this] True show ?thesis
        unfolding pending by blast
    next
      case new: False
      then obtain item where item: "bt_get items ?i = Some item"
        and go: "scan_cycle items target (?i # visited) (?rest @ wif_dependencies (wi_fields item)) = Inr ()"
        using "1.prems"(1) False ne
        by (auto simp: scan_cycle.simps [of items target visited pending] Let_def split: option.splits)
      have "\<forall>v \<in> set (?i # visited). \<forall>d. (v, d) \<in> dep_edges (work_deps items) \<longrightarrow>
          d \<in> set (?i # visited) \<union> set (?rest @ wif_dependencies (wi_fields item))"
        using "1.prems"(3) item unfolding pending by (auto simp: work_deps_edge)
      moreover have "target \<notin> set (?i # visited)" using "1.prems"(2) ne by simp
      ultimately obtain V where "set (?i # visited) \<union> set (?rest @ wif_dependencies (wi_fields item)) \<subseteq> V"
        "target \<notin> V" "\<forall>v \<in> V. \<forall>d. (v, d) \<in> dep_edges (work_deps items) \<longrightarrow> d \<in> V"
        using "1.IH"(2) [OF False refl refl ne new item go] by blast
      then show ?thesis unfolding pending by (intro exI [of _ V]) auto
    qed
  qed
qed

text \<open>A scan fails only on a missing entry or because the target was reached.\<close>

lemma scan_cycle_error:
  assumes "scan_cycle items target visited pending = Inl e"
    and "\<And>p. p \<in> set pending \<Longrightarrow> (\<exists>s \<in> start. (s, p) \<in> (dep_edges (work_deps items))\<^sup>*)"
  shows "(e = WorkErrCycle \<and> (\<exists>s \<in> start. (s, target) \<in> (dep_edges (work_deps items))\<^sup>*))
    \<or> (e = WorkErrUnknown \<and> (\<exists>s \<in> start. \<exists>p. (s, p) \<in> (dep_edges (work_deps items))\<^sup>* \<and> bt_get items p = None))"
  using assms
proof (induction items target visited pending rule: scan_cycle.induct)
  case (1 items target visited pending)
  have ne: "pending \<noteq> []" using "1.prems"(1) by (auto simp: scan_cycle.simps [of items target visited pending])
  let ?i = "last pending" and ?rest = "butlast pending"
  have i: "\<exists>s \<in> start. (s, ?i) \<in> (dep_edges (work_deps items))\<^sup>*"
    using "1.prems"(2) [of ?i] ne by simp
  have rest: "p \<in> set ?rest \<Longrightarrow> \<exists>s \<in> start. (s, p) \<in> (dep_edges (work_deps items))\<^sup>*" for p
    using "1.prems"(2) [of p] by (simp add: in_set_butlastD)
  consider "?i = target" | "?i \<noteq> target" "?i \<in> set visited"
    | "?i \<noteq> target" "?i \<notin> set visited" "bt_get items ?i = None"
    | item where "?i \<noteq> target" "?i \<notin> set visited" "bt_get items ?i = Some item"
    by (cases "bt_get items ?i") auto
  then show ?case
  proof cases
    case 1
    then have "e = WorkErrCycle"
      using "1.prems"(1) ne by (simp add: scan_cycle.simps [of items target visited pending])
    with 1 i show ?thesis by simp
  next
    case 2
    then have "scan_cycle items target visited ?rest = Inl e"
      using "1.prems"(1) ne by (simp add: scan_cycle.simps [of items target visited pending])
    from "1.IH"(1) [OF ne refl refl 2 this rest] show ?thesis by blast
  next
    case 3
    then have "e = WorkErrUnknown"
      using "1.prems"(1) ne by (simp add: scan_cycle.simps [of items target visited pending])
    with 3 i show ?thesis by blast
  next
    case (4 item)
    then have go: "scan_cycle items target (?i # visited) (?rest @ wif_dependencies (wi_fields item)) = Inl e"
      using "1.prems"(1) ne by (simp add: scan_cycle.simps [of items target visited pending])
    have "\<exists>s \<in> start. (s, p) \<in> (dep_edges (work_deps items))\<^sup>*"
      if "p \<in> set (?rest @ wif_dependencies (wi_fields item))" for p
    proof (cases "p \<in> set ?rest")
      case True
      then show ?thesis by (rule rest)
    next
      case False
      then have "(?i, p) \<in> dep_edges (work_deps items)" using that 4(3) by (auto simp: work_deps_edge)
      with i show ?thesis by (meson rtrancl.rtrancl_into_rtrancl)
    qed
    from "1.IH"(2) [OF ne refl refl 4 go this] show ?thesis by blast
  qed
qed

text \<open>On a closed board the scan refuses exactly the candidates whose prerequisites reach them.\<close>

lemma scan_cycle_iff:
  assumes "deps_closed (work_deps items)" "set deps \<subseteq> dom (bt_get items)"
  shows "scan_cycle items target [] deps = Inr () \<longleftrightarrow>
     (\<forall>d \<in> set deps. (d, target) \<notin> (dep_edges (work_deps items))\<^sup>*)"
proof
  assume "scan_cycle items target [] deps = Inr ()"
  from scan_cycle_sound [OF this] obtain V where V: "set deps \<subseteq> V" "target \<notin> V"
    "\<forall>v \<in> V. \<forall>d. (v, d) \<in> dep_edges (work_deps items) \<longrightarrow> d \<in> V"
    by auto
  have "(d, x) \<in> (dep_edges (work_deps items))\<^sup>* \<Longrightarrow> d \<in> V \<Longrightarrow> x \<in> V" for d x
    by (induction rule: rtrancl_induct) (use V(3) in auto)
  with V show "\<forall>d \<in> set deps. (d, target) \<notin> (dep_edges (work_deps items))\<^sup>*" by blast
next
  assume free: "\<forall>d \<in> set deps. (d, target) \<notin> (dep_edges (work_deps items))\<^sup>*"
  have known: "bt_get items p \<noteq> None" if "(d, p) \<in> (dep_edges (work_deps items))\<^sup>*" "d \<in> set deps" for d p
    using that
  proof (induction rule: rtrancl_induct)
    case base
    then show ?case using assms(2) by auto
  next
    case (step y z)
    then obtain ds where ds: "work_deps items y = Some ds" "z \<in> set ds" by (auto simp: dep_edges_def)
    then have "z \<in> dom (work_deps items)" using assms(1) unfolding deps_closed_def by blast
    then show ?case unfolding dom_work_deps by auto
  qed
  show "scan_cycle items target [] deps = Inr ()"
  proof (cases "scan_cycle items target [] deps")
    case (Inl e)
    from scan_cycle_error [OF Inl, of "set deps"] have
      "(\<exists>s \<in> set deps. (s, target) \<in> (dep_edges (work_deps items))\<^sup>*)
       \<or> (\<exists>s \<in> set deps. \<exists>p. (s, p) \<in> (dep_edges (work_deps items))\<^sup>* \<and> bt_get items p = None)"
      by blast
    with free known show ?thesis by blast
  next
    case (Inr u)
    then show ?thesis by simp
  qed
qed

end
