(* ===== verification/Goal_State.thy ===== *)
theory Goal_State
  imports Inbox_Message
begin

text \<open>
  The goal domain of a session (\<open>heycode-session/src/orchestration.rs\<close>): snapshots,
  revisioned changes, the transitions between them, and the goal that a sequence of changes
  and admitted rounds leaves. Revisions are \<open>u64\<close>, rounds \<open>u32\<close>, times \<open>i64\<close>.
\<close>

section \<open>Vocabulary\<close>

datatype goal_error = GoalInvalid string | GoalInbox

definition goal_change_version :: nat where
  "goal_change_version = 1"

definition max_goal_objective_bytes :: nat where
  "max_goal_objective_bytes = 64 * 1024"

definition max_goal_rounds :: nat where
  "max_goal_rounds = 1000000"

definition max_block_code_bytes :: nat where
  "max_block_code_bytes = 64"

definition max_block_message_bytes :: nat where
  "max_block_message_bytes = 8 * 1024"

definition goal_id_validate :: "string \<Rightarrow> goal_error + unit" where
  "goal_id_validate i =
     refuse_if (\<not> valid_opaque_id i max_goal_id_bytes) (GoalInvalid ''goal id is invalid'')"

record goal_ref =
  gref_id :: string
  gref_revision :: nat

definition goal_ref_validate :: "goal_ref \<Rightarrow> goal_error + unit" where
  "goal_ref_validate r =
     and_then (goal_id_validate (gref_id r)) (\<lambda>_.
       refuse_if (gref_revision r = 0) (GoalInvalid ''goal revision must be positive''))"

datatype goal_phase = GoalActive | GoalPaused | GoalBlocked | GoalComplete

record goal_block_reason =
  gbr_code :: string
  gbr_message :: string

definition valid_block_code :: "string \<Rightarrow> bool" where
  "valid_block_code code \<longleftrightarrow>
     code \<noteq> [] \<and> length code \<le> max_block_code_bytes
     \<and> list_all (\<lambda>part. part \<noteq> [] \<and> list_all (\<lambda>b. is_ascii_lowercase b \<or> is_ascii_digit b) part)
         (split_on (CHR ''-'') code)"

definition block_reason_validate :: "goal_block_reason \<Rightarrow> goal_error + unit" where
  "block_reason_validate reason =
     refuse_if (\<not> valid_block_code (gbr_code reason)
         \<or> \<not> valid_text (gbr_message reason) max_block_message_bytes)
       (GoalInvalid ''goal blocked reason is invalid'')"

record goal_snapshot =
  gs_id :: string
  gs_revision :: nat
  gs_objective :: string
  gs_phase :: goal_phase
  gs_blocked :: "goal_block_reason option"
  gs_max_rounds :: nat

definition goal_reference :: "goal_snapshot \<Rightarrow> goal_ref" where
  "goal_reference g = \<lparr>gref_id = gs_id g, gref_revision = gs_revision g\<rparr>"

definition goal_snapshot_validate :: "goal_snapshot \<Rightarrow> goal_error + unit" where
  "goal_snapshot_validate g =
     and_then (goal_ref_validate (goal_reference g)) (\<lambda>_.
     and_then
       (refuse_if (\<not> valid_text (gs_objective g) max_goal_objective_bytes
            \<or> max_goal_rounds < gs_max_rounds g
            \<or> (gs_phase g = GoalBlocked) \<noteq> (gs_blocked g \<noteq> None))
          (GoalInvalid ''goal snapshot is invalid''))
       (\<lambda>_. case gs_blocked g of None \<Rightarrow> Inr () | Some reason \<Rightarrow> block_reason_validate reason))"

datatype goal_operation =
  OpCreate | OpEdit | OpPause | OpResume | OpComplete | OpBlock

datatype goal_change =
    GoalSnapshotChange nat goal_operation goal_snapshot nat int int
      \<comment> \<open>version, action, goal, rounds started, created, updated\<close>
  | GoalClearChange nat goal_ref int \<comment> \<open>version, cleared, time\<close>

fun goal_change_validate :: "goal_change \<Rightarrow> goal_error + unit" where
  "goal_change_validate (GoalSnapshotChange version action goal rounds created updated) =
     and_then
       (refuse_if (version \<noteq> goal_change_version \<or> created < 0 \<or> updated < created
            \<or> (gs_max_rounds goal \<noteq> 0 \<and> gs_max_rounds goal < rounds))
          (GoalInvalid ''goal snapshot change is invalid''))
       (\<lambda>_. goal_snapshot_validate goal)"
| "goal_change_validate (GoalClearChange version cleared t) =
     and_then
       (refuse_if (version \<noteq> goal_change_version \<or> t < 0)
          (GoalInvalid ''goal clear change is invalid''))
       (\<lambda>_. goal_ref_validate cleared)"

section \<open>Transitions\<close>

record goal_view =
  gv_snapshot :: goal_snapshot
  gv_rounds :: nat
  gv_created :: int
  gv_updated :: int

record goal_projection =
  gp_current :: "goal_view option"
  gp_last_ref :: "goal_ref option"

definition goal_projection_default :: goal_projection where
  "goal_projection_default = \<lparr>gp_current = None, gp_last_ref = None\<rparr>"

definition require_definition :: "goal_snapshot \<Rightarrow> goal_snapshot \<Rightarrow> goal_error + unit" where
  "require_definition previous next =
     refuse_if (gs_objective previous \<noteq> gs_objective next
         \<or> gs_max_rounds previous \<noteq> gs_max_rounds next)
       (GoalInvalid ''goal lifecycle mutation changed its definition'')"

definition validate_transition ::
  "goal_view \<Rightarrow> goal_operation \<Rightarrow> goal_snapshot \<Rightarrow> nat \<Rightarrow> int \<Rightarrow> int \<Rightarrow> goal_error + unit" where
  "validate_transition current action next rounds created updated =
     (let previous = gv_snapshot current in
      and_then
        (refuse_if (gs_id next \<noteq> gs_id previous
             \<or> gs_revision next \<noteq> saturating_add_u64 (gs_revision previous) 1
             \<or> rounds \<noteq> gv_rounds current \<or> created \<noteq> gv_created current
             \<or> updated < gv_updated current)
           (GoalInvalid ''goal mutation violates its CAS or counters''))
        (\<lambda>_. case action of
           OpCreate \<Rightarrow> Inl (GoalInvalid ''goal create cannot update an existing snapshot'')
         | OpEdit \<Rightarrow>
             refuse_if (gs_phase next \<noteq> gs_phase previous \<or> gs_blocked next \<noteq> gs_blocked previous)
               (GoalInvalid ''goal edit changed lifecycle state'')
         | OpPause \<Rightarrow>
             and_then (require_definition previous next) (\<lambda>_.
               refuse_if (gs_phase previous \<noteq> GoalActive \<or> gs_phase next \<noteq> GoalPaused)
                 (GoalInvalid ''goal pause transition is invalid''))
         | OpResume \<Rightarrow>
             and_then (require_definition previous next) (\<lambda>_.
               refuse_if (gs_phase previous \<notin> {GoalActive, GoalPaused, GoalBlocked}
                   \<or> gs_phase next \<noteq> GoalActive
                   \<or> (gs_max_rounds next \<noteq> 0 \<and> gs_max_rounds next \<le> gv_rounds current))
                 (GoalInvalid ''goal resume transition is invalid''))
         | OpComplete \<Rightarrow>
             and_then (require_definition previous next) (\<lambda>_.
               refuse_if (gs_phase previous = GoalComplete \<or> gs_phase next \<noteq> GoalComplete)
                 (GoalInvalid ''goal complete transition is invalid''))
         | OpBlock \<Rightarrow>
             and_then (require_definition previous next) (\<lambda>_.
               refuse_if (gs_phase previous \<noteq> GoalActive \<or> gs_phase next \<noteq> GoalBlocked)
                 (GoalInvalid ''goal block transition is invalid''))))"

text \<open>
  \<open>admit_round\<close> and \<open>apply_goal_change\<close> over the projection and the identities ever
  created. In a refused create \<open>seen_ids.insert\<close> may already have run; the projection is
  given up then, so the error carries no state.
\<close>

definition admit_round ::
  "goal_projection \<Rightarrow> string \<Rightarrow> nat \<Rightarrow> nat \<Rightarrow> goal_error + goal_projection" where
  "admit_round proj goal revision round =
     (case gp_current proj of
        None \<Rightarrow> Inl (GoalInvalid ''goal round has no current goal'')
      | Some current \<Rightarrow>
          if gs_id (gv_snapshot current) \<noteq> goal
             \<or> gs_revision (gv_snapshot current) \<noteq> revision
             \<or> round \<noteq> saturating_add_u32 (gv_rounds current) 1
             \<or> (gs_max_rounds (gv_snapshot current) \<noteq> 0
                 \<and> gs_max_rounds (gv_snapshot current) < round)
          then Inl (GoalInvalid ''goal round attribution is stale or non-sequential'')
          else Inr (proj\<lparr>gp_current := Some (current\<lparr>gv_rounds := round\<rparr>)\<rparr>))"

definition create_refused ::
  "goal_projection \<Rightarrow> string btree_set \<Rightarrow> goal_snapshot \<Rightarrow> nat \<Rightarrow> int \<Rightarrow> int \<Rightarrow> bool" where
  "create_refused proj seen goal rounds created updated \<longleftrightarrow>
     gs_revision goal \<noteq> 1 \<or> rounds \<noteq> 0 \<or> created \<noteq> updated \<or> gs_phase goal \<noteq> GoalActive
     \<or> bt_contains seen (gs_id goal)
     \<or> (case gp_current proj of
          None \<Rightarrow> False
        | Some current \<Rightarrow> gs_phase (gv_snapshot current) \<noteq> GoalComplete)"

fun apply_goal_change ::
  "goal_projection \<times> string btree_set \<Rightarrow> goal_change
   \<Rightarrow> goal_error + (goal_projection \<times> string btree_set)" where
  "apply_goal_change (proj, seen) change =
     and_then (goal_change_validate change) (\<lambda>_.
       case change of
         GoalSnapshotChange version action goal rounds created updated \<Rightarrow>
           and_then
             (if action = OpCreate
              then if create_refused proj seen goal rounds created updated
                   then Inl (GoalInvalid ''goal create transition is invalid'')
                   else Inr (bt_insert (gs_id goal) () seen)
              else case gp_current proj of
                     None \<Rightarrow> Inl (GoalInvalid ''goal mutation has no current goal'')
                   | Some current \<Rightarrow>
                       and_then (validate_transition current action goal rounds created updated)
                         (\<lambda>_. Inr seen))
             (\<lambda>seen'.
                Inr (\<lparr>gp_current = Some \<lparr>gv_snapshot = goal, gv_rounds = rounds,
                         gv_created = created, gv_updated = updated\<rparr>,
                      gp_last_ref = Some (goal_reference goal)\<rparr>, seen'))
       | GoalClearChange version cleared t \<Rightarrow>
           (case gp_current proj of
              None \<Rightarrow> Inl (GoalInvalid ''goal clear has no current goal'')
            | Some current \<Rightarrow>
                if gref_id cleared \<noteq> gs_id (gv_snapshot current)
                   \<or> gref_revision cleared \<noteq> saturating_add_u64 (gs_revision (gv_snapshot current)) 1
                   \<or> t < gv_updated current
                then Inl (GoalInvalid ''goal clear transition is stale'')
                else Inr (\<lparr>gp_current = None, gp_last_ref = Some cleared\<rparr>, seen)))"

section \<open>What a transition keeps\<close>

text \<open>
  The current goal is a valid snapshot, its rounds respect its cap, its times are ordered, its
  identity was created once, and the last reference is the one it was written with.
\<close>

definition goal_ok :: "goal_projection \<times> string btree_set \<Rightarrow> bool" where
  "goal_ok s \<longleftrightarrow>
     bt_inv (snd s)
     \<and> (\<forall>view. gp_current (fst s) = Some view \<longrightarrow>
          goal_snapshot_validate (gv_snapshot view) = Inr ()
          \<and> (gs_max_rounds (gv_snapshot view) \<noteq> 0 \<longrightarrow> gv_rounds view \<le> gs_max_rounds (gv_snapshot view))
          \<and> 0 \<le> gv_created view \<and> gv_created view \<le> gv_updated view
          \<and> bt_contains (snd s) (gs_id (gv_snapshot view))
          \<and> gp_last_ref (fst s) = Some (goal_reference (gv_snapshot view)))"

lemma goal_ok_default: "goal_ok (goal_projection_default, bt_empty)"
  by (simp add: goal_ok_def goal_projection_default_def)

text \<open>The changes a goal allows, by phase.\<close>

fun phase_step :: "goal_operation \<Rightarrow> goal_phase \<Rightarrow> goal_phase \<Rightarrow> bool" where
  "phase_step OpCreate p q = False"
| "phase_step OpEdit p q = (q = p)"
| "phase_step OpPause p q = (p = GoalActive \<and> q = GoalPaused)"
| "phase_step OpResume p q = (p \<noteq> GoalComplete \<and> q = GoalActive)"
| "phase_step OpComplete p q = (p \<noteq> GoalComplete \<and> q = GoalComplete)"
| "phase_step OpBlock p q = (p = GoalActive \<and> q = GoalBlocked)"

lemma validate_transition_Inr:
  assumes "validate_transition current action next rounds created updated = Inr u"
  shows "gs_id next = gs_id (gv_snapshot current)
    \<and> gs_revision next = saturating_add_u64 (gs_revision (gv_snapshot current)) 1
    \<and> rounds = gv_rounds current \<and> created = gv_created current \<and> gv_updated current \<le> updated
    \<and> phase_step action (gs_phase (gv_snapshot current)) (gs_phase next)
    \<and> (action \<noteq> OpEdit \<longrightarrow> gs_objective next = gs_objective (gv_snapshot current)
         \<and> gs_max_rounds next = gs_max_rounds (gv_snapshot current))"
  using assms
  by (cases action) (auto simp: validate_transition_def require_definition_def Let_def)

lemma goal_ok_change:
  assumes "goal_ok s" "apply_goal_change s change = Inr s'"
  shows "goal_ok s'"
proof -
  obtain proj seen where s: "s = (proj, seen)" by (cases s)
  show ?thesis
  proof (cases change)
    case (GoalSnapshotChange version action goal rounds created updated)
    then have "goal_snapshot_validate goal = Inr ()" "0 \<le> created" "created \<le> updated"
      "gs_max_rounds goal \<noteq> 0 \<longrightarrow> rounds \<le> gs_max_rounds goal"
      using assms(2) s by auto
    with assms s GoalSnapshotChange show ?thesis
      by (auto simp: goal_ok_def split: if_splits option.splits
          dest!: validate_transition_Inr)
  next
    case (GoalClearChange version cleared t)
    with assms s show ?thesis by (auto simp: goal_ok_def split: option.splits if_splits)
  qed
qed

lemma goal_ok_admit:
  assumes "goal_ok (proj, seen)" "admit_round proj goal revision round = Inr proj'"
  shows "goal_ok (proj', seen)"
  using assms by (auto simp: goal_ok_def admit_round_def split: option.splits if_splits)

text \<open>An identity is never created twice, and the set of identities only grows.\<close>

lemma seen_grows:
  assumes "apply_goal_change (proj, seen) change = Inr (proj', seen')" "bt_inv seen"
  shows "bt_inv seen' \<and> (\<forall>i. bt_contains seen i \<longrightarrow> bt_contains seen' i)"
  using assms by (cases change) (auto split: if_splits option.splits)

end
