(* ===== verification/Session_Creation.thy ===== *)
theory Session_Creation
  imports Work_Item
begin

text \<open>
  What a session stream records about its creation (\<open>heycode-session/src/creation.rs\<close>):
  working directory, runtime, origin and, for a fork, the parent and the proof of the inherited
  prefix. A path is its UTF-8 text; \<open>Path::components\<close> is modelled for Unix.
\<close>

section \<open>Records\<close>

definition max_cwd_bytes :: nat where
  "max_cwd_bytes = 4096"

definition max_runtime_id_bytes :: nat where
  "max_runtime_id_bytes = 128"

datatype session_source =
    FromInteractive | FromHeadless | FromAcp | FromSubagent | FromScheduled | FromDelegated
  | FromFork

datatype session_metadata_error =
  InvalidCwd | InvalidRuntime | InvalidLineage | InvalidParentId | InvalidPrefixDigest

record creation_metadata =
  cm_cwd :: "string option"
  cm_runtime :: "string option"
  cm_source :: session_source

record session_parent =
  par_id :: string
  par_seed :: nat \<comment> \<open>\<open>seed_event_count\<close>\<close>
  par_digest :: string

record session_creation =
  cr_metadata :: creation_metadata
  cr_parent :: "session_parent option"

section \<open>Names\<close>

definition byte_to_upper :: "char \<Rightarrow> char" where
  "byte_to_upper c = (if is_ascii_lowercase c then char_of (byte_val c - 32) else c)"

definition starts_with :: "string \<Rightarrow> string \<Rightarrow> bool" where
  "starts_with p s \<longleftrightarrow> take (length p) s = p"

definition device_suffix :: "string \<Rightarrow> bool" where
  "device_suffix suffix \<longleftrightarrow> length suffix = 1 \<and> list_all (byte_in 49 57) suffix"

definition windows_reserved_name :: "string \<Rightarrow> bool" where
  "windows_reserved_name value \<longleftrightarrow>
     (let stem = map byte_to_upper (hd (split_on (CHR ''.'') value)) in
      stem \<in> {''CON'', ''PRN'', ''AUX'', ''NUL''}
      \<or> (case strip_prefix ''COM'' stem of
           Some suffix \<Rightarrow> device_suffix suffix
         | None \<Rightarrow>
             (case strip_prefix ''LPT'' stem of Some suffix \<Rightarrow> device_suffix suffix | None \<Rightarrow> False)))"

definition valid_session_component :: "string \<Rightarrow> bool" where
  "valid_session_component value \<longleftrightarrow>
     value \<noteq> [] \<and> length value \<le> 128
     \<and> is_ascii_alphanumeric (hd value) \<and> is_ascii_alphanumeric (last value)
     \<and> \<not> windows_reserved_name value
     \<and> list_all (\<lambda>b. is_ascii_alphanumeric b \<or> b = CHR ''-'' \<or> b = CHR ''_'' \<or> b = CHR ''.'') value"

definition valid_runtime_id :: "string \<Rightarrow> bool" where
  "valid_runtime_id value \<longleftrightarrow>
     value \<noteq> [] \<and> length value \<le> max_runtime_id_bytes
     \<and> list_all (\<lambda>part. part \<noteq> [] \<and> list_all (\<lambda>b. is_ascii_lowercase b \<or> is_ascii_digit b) part)
         (split_on (CHR ''-'') value)"

definition unsafe_metadata_char :: "nat \<Rightarrow> bool" where
  "unsafe_metadata_char c \<longleftrightarrow>
     is_control c \<or> (8234 \<le> c \<and> c \<le> 8238) \<or> (8294 \<le> c \<and> c \<le> 8297)"

text \<open>The components after the root of an absolute path; \<open>.\<close> and repeated slashes vanish.\<close>

definition path_parts :: "string \<Rightarrow> string list" where
  "path_parts path = filter (\<lambda>p. p \<noteq> [] \<and> p \<noteq> ''.'') (split_on (CHR ''/'') path)"

fun join_path :: "string list \<Rightarrow> string" where
  "join_path [] = ''/''"
| "join_path [p] = CHR ''/'' # p"
| "join_path (p # ps) = CHR ''/'' # p @ join_path ps"

definition valid_cwd :: "string \<Rightarrow> bool" where
  "valid_cwd cwd \<longleftrightarrow>
     starts_with ''/'' cwd \<and> length cwd \<le> max_cwd_bytes
     \<and> \<not> list_ex unsafe_metadata_char (chars cwd)
     \<and> join_path (path_parts cwd) = cwd
     \<and> ''..'' \<notin> set (path_parts cwd)"

definition valid_sha256 :: "string \<Rightarrow> bool" where
  "valid_sha256 value \<longleftrightarrow>
     length value = 64 \<and> list_all (\<lambda>b. is_ascii_hexdigit b \<and> \<not> is_ascii_uppercase b) value"

section \<open>Validation\<close>

definition metadata_validate :: "creation_metadata \<Rightarrow> session_metadata_error + unit" where
  "metadata_validate m =
     and_then
       (refuse_if (case cm_cwd m of None \<Rightarrow> False | Some cwd \<Rightarrow> \<not> valid_cwd cwd) InvalidCwd)
       (\<lambda>_. refuse_if (case cm_runtime m of None \<Rightarrow> False | Some r \<Rightarrow> \<not> valid_runtime_id r) InvalidRuntime)"

definition metadata_new ::
  "string option \<Rightarrow> string option \<Rightarrow> session_source \<Rightarrow> session_metadata_error + creation_metadata" where
  "metadata_new cwd runtime source =
     (let m = \<lparr>cm_cwd = cwd, cm_runtime = runtime, cm_source = source\<rparr>
      in and_then (metadata_validate m) (\<lambda>_. Inr m))"

definition inherited_for_fork :: "creation_metadata \<Rightarrow> creation_metadata" where
  "inherited_for_fork m = m\<lparr>cm_source := FromFork\<rparr>"

definition parent_validate :: "session_parent \<Rightarrow> session_metadata_error + unit" where
  "parent_validate p =
     and_then (refuse_if (\<not> valid_session_component (par_id p)) InvalidParentId)
       (\<lambda>_. refuse_if (\<not> valid_sha256 (par_digest p)) InvalidPrefixDigest)"

definition parent_new :: "string \<Rightarrow> nat \<Rightarrow> string \<Rightarrow> session_metadata_error + session_parent" where
  "parent_new i seed digest =
     (let p = \<lparr>par_id = i, par_seed = seed, par_digest = digest\<rparr>
      in and_then (parent_validate p) (\<lambda>_. Inr p))"

definition creation_validate :: "session_creation \<Rightarrow> session_metadata_error + unit" where
  "creation_validate c =
     and_then (metadata_validate (cr_metadata c)) (\<lambda>_.
     and_then (case cr_parent c of None \<Rightarrow> Inr () | Some p \<Rightarrow> parent_validate p) (\<lambda>_.
       refuse_if ((cm_source (cr_metadata c) = FromFork) \<noteq> (cr_parent c \<noteq> None)) InvalidLineage))"

definition creation_new :: "creation_metadata \<Rightarrow> session_metadata_error + session_creation" where
  "creation_new m =
     (let c = \<lparr>cr_metadata = m, cr_parent = None\<rparr> in and_then (creation_validate c) (\<lambda>_. Inr c))"

definition creation_fork ::
  "creation_metadata \<Rightarrow> session_parent \<Rightarrow> session_metadata_error + session_creation" where
  "creation_fork m p =
     (let c = \<lparr>cr_metadata = m, cr_parent = Some p\<rparr> in and_then (creation_validate c) (\<lambda>_. Inr c))"

lemma creation_fork_Inr:
  "creation_fork m p = Inr c \<longleftrightarrow>
     metadata_validate m = Inr () \<and> parent_validate p = Inr () \<and> cm_source m = FromFork
     \<and> c = \<lparr>cr_metadata = m, cr_parent = Some p\<rparr>"
  by (auto simp: creation_fork_def creation_validate_def Let_def)

lemma creation_new_Inr:
  "creation_new m = Inr c \<longleftrightarrow>
     metadata_validate m = Inr () \<and> cm_source m \<noteq> FromFork \<and> c = \<lparr>cr_metadata = m, cr_parent = None\<rparr>"
  by (auto simp: creation_new_def creation_validate_def Let_def)

end
