(* ===== verification/Code_Mode.thy ===== *)
theory Code_Mode
  imports Work_Item
begin

text \<open>
  Durable scripts and their tool operations (\<open>heycode-session/src/code_mode.rs\<close>): the
  changes, their shape, and the projection, with the invariant of a replayed run. The rendered
  length of a change, \<open>serde_json::to_vec\<close>, is the argument \<open>len\<close>.
\<close>

section \<open>Changes\<close>

record saved_script =
  sc_name :: string
  sc_source :: string
  sc_tools :: "string btree_set"

datatype code_mode_change =
    ScriptSaved saved_script
  | ScriptStarted string saved_script \<comment> \<open>run, script\<close>
  | CallStarted string nat string json \<comment> \<open>run, call, tool, arguments\<close>
  | CallFinished string nat "json option" "string option" \<comment> \<open>run, call, value, error\<close>
  | ScriptFinished string "json option" "string option" \<comment> \<open>run, result, error\<close>

datatype code_mode_error =
    InvalidCodeModeChange | DuplicateRun | UnselectedOrDuplicateCall | CallNeverStarted
  | CallAlreadySettled | UnsettledCalls | RunNeverStarted | RunAlreadySettled

definition code_id_ok :: "string \<Rightarrow> bool" where
  "code_id_ok value \<longleftrightarrow>
     value \<noteq> [] \<and> length value \<le> 256 \<and> trim value = value \<and> \<not> has_control value"

definition script_ok :: "saved_script \<Rightarrow> bool" where
  "script_ok s \<longleftrightarrow>
     code_id_ok (sc_name s) \<and> \<not> is_blank (sc_source s) \<and> length (sc_source s) \<le> 1024 * 1024
     \<and> length (sc_tools s) \<le> 512 \<and> list_all code_id_ok (bt_keys (sc_tools s))"

definition script_outcome_ok :: "json option \<Rightarrow> string option \<Rightarrow> bool" where
  "script_outcome_ok value err \<longleftrightarrow>
     (value \<noteq> None) \<noteq> (err \<noteq> None)
     \<and> (case err of None \<Rightarrow> True | Some e \<Rightarrow> e \<noteq> [] \<and> length e \<le> 8192)"

fun code_fields_ok :: "code_mode_change \<Rightarrow> bool" where
  "code_fields_ok (ScriptSaved script) = script_ok script"
| "code_fields_ok (ScriptStarted run script) = (code_id_ok run \<and> script_ok script)"
| "code_fields_ok (CallStarted run call name args) =
     (code_id_ok run \<and> call < 512 \<and> code_id_ok name \<and> is_json_object args)"
| "code_fields_ok (CallFinished run call value err) =
     (code_id_ok run \<and> call < 512 \<and> script_outcome_ok value err)"
| "code_fields_ok (ScriptFinished run result err) = (code_id_ok run \<and> script_outcome_ok result err)"

definition code_validate_shape ::
  "(code_mode_change \<Rightarrow> nat option) \<Rightarrow> code_mode_change \<Rightarrow> code_mode_error + unit" where
  "code_validate_shape len change =
     and_then (refuse_if (\<not> code_fields_ok change) InvalidCodeModeChange) (\<lambda>_.
     and_then (ok_or InvalidCodeModeChange (len change)) (\<lambda>n.
       refuse_if (5 * 1024 * 1024 < n) InvalidCodeModeChange))"

section \<open>The projection\<close>

record script_call =
  sk_name :: string
  sk_arguments :: json
  sk_settled :: bool
  sk_value :: "json option"
  sk_error :: "string option"

record script_run =
  sr_script :: saved_script
  sr_calls :: "(nat, script_call) btree_map"
  sr_settled :: bool
  sr_result :: "json option"
  sr_error :: "string option"

record code_mode =
  cmo_saved :: "(string, saved_script) btree_map"
  cmo_runs :: "(string, script_run) btree_map"

definition code_mode_default :: code_mode where
  "code_mode_default = \<lparr>cmo_saved = bt_empty, cmo_runs = bt_empty\<rparr>"

definition active_run :: "code_mode \<Rightarrow> string \<Rightarrow> code_mode_error + script_run" where
  "active_run p run =
     and_then (ok_or RunNeverStarted (bt_get (cmo_runs p) run)) (\<lambda>r.
     and_then (refuse_if (sr_settled r) RunAlreadySettled) (\<lambda>_. Inr r))"

definition set_run :: "string \<Rightarrow> script_run \<Rightarrow> code_mode \<Rightarrow> code_mode" where
  "set_run run r p = p\<lparr>cmo_runs := bt_insert run r (cmo_runs p)\<rparr>"

definition code_mode_apply ::
  "(code_mode_change \<Rightarrow> nat option) \<Rightarrow> code_mode \<Rightarrow> code_mode_change \<Rightarrow> code_mode_error + code_mode" where
  "code_mode_apply len p change =
     and_then (code_validate_shape len change) (\<lambda>_.
       case change of
         ScriptSaved script \<Rightarrow> Inr (p\<lparr>cmo_saved := bt_insert (sc_name script) script (cmo_saved p)\<rparr>)
       | ScriptStarted run script \<Rightarrow>
           and_then (refuse_if (bt_contains (cmo_runs p) run) DuplicateRun) (\<lambda>_.
             Inr (set_run run
               \<lparr>sr_script = script, sr_calls = bt_empty, sr_settled = False, sr_result = None,
                sr_error = None\<rparr> p))
       | CallStarted run call name args \<Rightarrow>
           and_then (active_run p run) (\<lambda>r.
           and_then
             (refuse_if (\<not> bt_contains (sc_tools (sr_script r)) name \<or> bt_contains (sr_calls r) call)
                UnselectedOrDuplicateCall) (\<lambda>_.
             Inr (set_run run
               (r\<lparr>sr_calls := bt_insert call
                    \<lparr>sk_name = name, sk_arguments = args, sk_settled = False, sk_value = None,
                     sk_error = None\<rparr> (sr_calls r)\<rparr>) p)))
       | CallFinished run call value err \<Rightarrow>
           and_then (active_run p run) (\<lambda>r.
           and_then (ok_or CallNeverStarted (bt_get (sr_calls r) call)) (\<lambda>c.
           and_then (refuse_if (sk_settled c) CallAlreadySettled) (\<lambda>_.
             Inr (set_run run
               (r\<lparr>sr_calls := bt_insert call
                    (c\<lparr>sk_settled := True, sk_value := value, sk_error := err\<rparr>) (sr_calls r)\<rparr>) p))))
       | ScriptFinished run result err \<Rightarrow>
           and_then (active_run p run) (\<lambda>r.
           and_then
             (refuse_if (result \<noteq> None \<and> list_ex (\<lambda>c. \<not> sk_settled c) (bt_values (sr_calls r)))
                UnsettledCalls) (\<lambda>_.
             Inr (set_run run (r\<lparr>sr_settled := True, sr_result := result, sr_error := err\<rparr>) p))))"

section \<open>What a replayed run says\<close>

text \<open>
  A call belongs to a selected tool; an unsettled call or run has no outcome, a settled one has
  exactly one; a run that ended with a result has settled all its calls.
\<close>

definition one_outcome :: "bool \<Rightarrow> json option \<Rightarrow> string option \<Rightarrow> bool" where
  "one_outcome settled value err \<longleftrightarrow>
     (if settled then (value \<noteq> None) \<noteq> (err \<noteq> None) else value = None \<and> err = None)"

definition call_ok :: "string btree_set \<Rightarrow> script_call \<Rightarrow> bool" where
  "call_ok tools c \<longleftrightarrow>
     bt_contains tools (sk_name c) \<and> one_outcome (sk_settled c) (sk_value c) (sk_error c)"

definition run_ok :: "script_run \<Rightarrow> bool" where
  "run_ok r \<longleftrightarrow>
     bt_inv (sr_calls r)
     \<and> (\<forall>i c. bt_get (sr_calls r) i = Some c \<longrightarrow> call_ok (sc_tools (sr_script r)) c)
     \<and> one_outcome (sr_settled r) (sr_result r) (sr_error r)
     \<and> (sr_result r \<noteq> None \<longrightarrow> (\<forall>i c. bt_get (sr_calls r) i = Some c \<longrightarrow> sk_settled c))"

lemma run_ok_call:
  assumes "run_ok r" "\<not> sr_settled r" "call_ok (sc_tools (sr_script r)) c"
  shows "run_ok (r\<lparr>sr_calls := bt_insert i c (sr_calls r)\<rparr>)"
  using assms by (auto simp: run_ok_def one_outcome_def)

lemma run_ok_new: "run_ok \<lparr>sr_script = script, sr_calls = bt_empty, sr_settled = False, sr_result = None, sr_error = None\<rparr>"
  by (simp add: run_ok_def one_outcome_def)

lemma call_ok_get: "run_ok r \<Longrightarrow> bt_get (sr_calls r) i = Some c \<Longrightarrow> call_ok (sc_tools (sr_script r)) c"
  by (simp add: run_ok_def)

definition code_mode_ok :: "code_mode \<Rightarrow> bool" where
  "code_mode_ok p \<longleftrightarrow>
     bt_inv (cmo_saved p) \<and> bt_inv (cmo_runs p)
     \<and> (\<forall>i r. bt_get (cmo_runs p) i = Some r \<longrightarrow> run_ok r)"

lemma code_mode_ok_default: "code_mode_ok code_mode_default"
  by (simp add: code_mode_ok_def code_mode_default_def)

lemma code_mode_ok_set:
  "code_mode_ok p \<Longrightarrow> run_ok r \<Longrightarrow> code_mode_ok (set_run run r p)"
  by (auto simp: code_mode_ok_def set_run_def)

lemma active_run_Inr:
  "active_run p run = Inr r \<longleftrightarrow> bt_get (cmo_runs p) run = Some r \<and> \<not> sr_settled r"
  by (auto simp: active_run_def)

lemma active_run_ok: "code_mode_ok p \<Longrightarrow> active_run p run = Inr r \<Longrightarrow> run_ok r"
  by (auto simp: active_run_Inr code_mode_ok_def)

lemma run_ok_finish:
  assumes "run_ok r" "script_outcome_ok result err"
    and "result = None \<or> \<not> list_ex (\<lambda>c. \<not> sk_settled c) (bt_values (sr_calls r))"
  shows "run_ok (r\<lparr>sr_settled := True, sr_result := result, sr_error := err\<rparr>)"
proof -
  have inv: "bt_inv (sr_calls r)" using assms(1) by (simp add: run_ok_def)
  have "sk_settled c" if "result \<noteq> None" "bt_get (sr_calls r) i = Some c" for i c
    using assms(3) that bt_values_iff [OF inv, of c] by (auto simp: list_ex_iff)
  then show ?thesis
    using assms(1,2) by (simp add: run_ok_def one_outcome_def script_outcome_ok_def)
qed

lemma call_ok_settle:
  "call_ok tools c \<Longrightarrow> script_outcome_ok value err \<Longrightarrow>
   call_ok tools (c\<lparr>sk_settled := True, sk_value := value, sk_error := err\<rparr>)"
  by (simp add: call_ok_def one_outcome_def script_outcome_ok_def)

lemma code_mode_ok_apply:
  assumes ok: "code_mode_ok p" and app: "code_mode_apply len p change = Inr p'"
  shows "code_mode_ok p'"
proof -
  have shape: "code_fields_ok change"
    using app by (auto simp: code_mode_apply_def code_validate_shape_def)
  note set_ok = code_mode_ok_set [OF ok]
  show ?thesis
  proof (cases change)
    case (ScriptSaved script)
    then show ?thesis using ok app by (auto simp: code_mode_apply_def code_mode_ok_def)
  next
    case (ScriptStarted run script)
    then show ?thesis
      using app by (auto simp: code_mode_apply_def intro!: set_ok run_ok_new)
  next
    case (CallStarted run call name args)
    then obtain r where r: "active_run p run = Inr r" "bt_contains (sc_tools (sr_script r)) name"
      "p' = set_run run (r\<lparr>sr_calls := bt_insert call \<lparr>sk_name = name, sk_arguments = args,
         sk_settled = False, sk_value = None, sk_error = None\<rparr> (sr_calls r)\<rparr>) p"
      using app by (auto simp: code_mode_apply_def)
    have "\<not> sr_settled r" using r(1) by (simp add: active_run_Inr)
    with r(2) show ?thesis
      unfolding r(3) by (intro set_ok run_ok_call active_run_ok [OF ok r(1)])
        (auto simp: call_ok_def one_outcome_def)
  next
    case (CallFinished run call v err)
    then obtain r c where r: "active_run p run = Inr r" "bt_get (sr_calls r) call = Some c"
      "p' = set_run run (r\<lparr>sr_calls := bt_insert call
         (c\<lparr>sk_settled := True, sk_value := v, sk_error := err\<rparr>) (sr_calls r)\<rparr>) p"
      using app by (auto simp: code_mode_apply_def)
    have "\<not> sr_settled r" using r(1) by (simp add: active_run_Inr)
    moreover have "script_outcome_ok v err" using shape CallFinished by simp
    ultimately show ?thesis
      unfolding r(3) using r(2) active_run_ok [OF ok r(1)]
      by (intro set_ok run_ok_call call_ok_settle) (auto intro: call_ok_get)
  next
    case (ScriptFinished run result err)
    then obtain r where r: "active_run p run = Inr r"
      "result = None \<or> \<not> list_ex (\<lambda>c. \<not> sk_settled c) (bt_values (sr_calls r))"
      "p' = set_run run (r\<lparr>sr_settled := True, sr_result := result, sr_error := err\<rparr>) p"
      using app by (auto simp: code_mode_apply_def)
    moreover have "script_outcome_ok result err" using shape ScriptFinished by simp
    ultimately show ?thesis
      unfolding r(3) by (intro set_ok run_ok_finish active_run_ok [OF ok r(1)])
  qed
qed

text \<open>What is settled stays as it is, and nothing that was recorded disappears.\<close>

definition run_extends :: "script_run \<Rightarrow> script_run \<Rightarrow> bool" where
  "run_extends r r' \<longleftrightarrow>
     sr_script r' = sr_script r \<and> (sr_settled r \<longrightarrow> r' = r)
     \<and> (\<forall>i c. bt_get (sr_calls r) i = Some c \<longrightarrow>
          (\<exists>c'. bt_get (sr_calls r') i = Some c' \<and> sk_name c' = sk_name c
             \<and> sk_arguments c' = sk_arguments c \<and> (sk_settled c \<longrightarrow> c' = c)))"

lemma run_extends_refl [simp]: "run_extends r r"
  by (simp add: run_extends_def)

lemma run_extends_trans: "run_extends a b \<Longrightarrow> run_extends b c \<Longrightarrow> run_extends a c"
  unfolding run_extends_def by (intro conjI allI impI; metis)

lemma run_extends_call:
  "bt_inv (sr_calls r) \<Longrightarrow> \<not> sr_settled r \<Longrightarrow> bt_get (sr_calls r) i = None \<Longrightarrow>
   run_extends r (r\<lparr>sr_calls := bt_insert i c (sr_calls r)\<rparr>)"
  by (auto simp: run_extends_def)

lemma run_extends_settle:
  "bt_inv (sr_calls r) \<Longrightarrow> \<not> sr_settled r \<Longrightarrow> bt_get (sr_calls r) i = Some c \<Longrightarrow> \<not> sk_settled c \<Longrightarrow>
   run_extends r (r\<lparr>sr_calls := bt_insert i (c\<lparr>sk_settled := True, sk_value := v, sk_error := e\<rparr>) (sr_calls r)\<rparr>)"
  by (auto simp: run_extends_def)

lemma run_extends_finish:
  "\<not> sr_settled r \<Longrightarrow> run_extends r (r\<lparr>sr_settled := True, sr_result := v, sr_error := e\<rparr>)"
  by (auto simp: run_extends_def)

lemma set_run_get:
  "bt_inv (cmo_runs p) \<Longrightarrow> bt_get (cmo_runs (set_run run r p)) i =
     (if i = run then Some r else bt_get (cmo_runs p) i)"
  by (simp add: set_run_def)

lemma code_mode_extends:
  assumes ok: "code_mode_ok p" and app: "code_mode_apply len p change = Inr p'"
    and r: "bt_get (cmo_runs p) i = Some r"
  shows "\<exists>r'. bt_get (cmo_runs p') i = Some r' \<and> run_extends r r'"
proof -
  have inv: "bt_inv (cmo_runs p)" "bt_inv (sr_calls r)"
    using ok r by (auto simp: code_mode_ok_def run_ok_def)
  note step = app [unfolded code_mode_apply_def]
  show ?thesis
  proof (cases change)
    case (CallFinished run call v err)
    then show ?thesis
      using step r inv by (auto simp: active_run_Inr set_run_get intro!: run_extends_settle)
  qed (use step r inv in \<open>auto simp: active_run_Inr set_run_get
         intro!: run_extends_finish run_extends_call\<close>)
qed

end
