(* ===== verification/Text_Parsing.thy ===== *)
theory Text_Parsing
  imports Inbox_Message
begin

text \<open>
  The parts of \<open>str\<close> that the schedule and workflow domains parse with:
  \<open>split_once\<close>, \<open>split_whitespace\<close> and \<open>parse::<u32>\<close>.
\<close>

section \<open>Splitting\<close>

fun split_once :: "char \<Rightarrow> string \<Rightarrow> (string \<times> string) option" where
  "split_once d [] = None"
| "split_once d (c # cs) =
     (if c = d then Some ([], cs)
      else case split_once d cs of None \<Rightarrow> None | Some (a, b) \<Rightarrow> Some (c # a, b))"

lemma split_once_Some: "split_once d s = Some (a, b) \<longleftrightarrow> s = a @ d # b \<and> d \<notin> set a"
proof (induction s arbitrary: a)
  case Nil
  then show ?case by simp
next
  case (Cons c cs)
  show ?case
  proof (cases a)
    case Nil
    then show ?thesis by (simp split: option.split)
  next
    case (Cons x xs)
    with Cons.IH [of xs] show ?thesis by (cases "split_once d cs") auto
  qed
qed

lemma split_once_None: "split_once d s = None \<longleftrightarrow> d \<notin> set s"
  by (induction s) (auto split: option.splits)

text \<open>The chunks of a text between white space; \<open>word\<close> is the word being read.\<close>

fun words_of :: "string list \<Rightarrow> string list \<Rightarrow> string list" where
  "words_of word [] = (if word = [] then [] else [concat word])"
| "words_of word (ch # chs) =
     (if blank_chunk ch then (if word = [] then [] else [concat word]) @ words_of [] chs
      else words_of (word @ [ch]) chs)"

definition split_whitespace :: "string \<Rightarrow> string list" where
  "split_whitespace s = words_of [] (utf8_chunks s)"

lemma words_of_nonempty:
  "\<lbrakk>w \<in> set (words_of word chs); \<forall>ch \<in> set word. ch \<noteq> []; \<forall>ch \<in> set chs. ch \<noteq> []\<rbrakk> \<Longrightarrow> w \<noteq> []"
  by (induction word chs rule: words_of.induct) (auto split: if_splits)

lemma split_whitespace_nonempty: "w \<in> set (split_whitespace s) \<Longrightarrow> w \<noteq> []"
  unfolding split_whitespace_def by (rule words_of_nonempty) (auto dest: utf8_chunks_nonempty)

section \<open>Numbers\<close>

text \<open>\<open>str::parse::<u32>\<close>, with the same syntax as \<open>u64\<close>.\<close>

definition parse_u32 :: "string \<Rightarrow> nat option" where
  "parse_u32 s = (case parse_u64 s of None \<Rightarrow> None | Some n \<Rightarrow> if n \<le> u32_max then Some n else None)"

text \<open>The range of \<open>i64\<close> and its checked and saturating operations.\<close>

definition i64_max :: int where
  "i64_max = 2 ^ 63 - 1"

definition i64_min :: int where
  "i64_min = - (2 ^ 63)"

definition in_i64 :: "int \<Rightarrow> bool" where
  "in_i64 x \<longleftrightarrow> i64_min \<le> x \<and> x \<le> i64_max"

definition checked_i64 :: "int \<Rightarrow> int option" where
  "checked_i64 x = (if in_i64 x then Some x else None)"

definition saturate_i64 :: "int \<Rightarrow> int" where
  "saturate_i64 x = max i64_min (min i64_max x)"

lemma checked_i64_Some [simp]: "checked_i64 x = Some y \<longleftrightarrow> in_i64 x \<and> y = x"
  by (auto simp: checked_i64_def)

lemma checked_i64_None [simp]: "checked_i64 x = None \<longleftrightarrow> \<not> in_i64 x"
  by (simp add: checked_i64_def)

lemma saturate_i64_id: "in_i64 x \<Longrightarrow> saturate_i64 x = x"
  by (simp add: saturate_i64_def in_i64_def)

section \<open>Recursion through lists\<close>

lemma try_fold_eq: "(\<And>s x. x \<in> set xs \<Longrightarrow> f s x = g s x) \<Longrightarrow> try_fold f s xs = try_fold g s xs"
proof (induction xs arbitrary: s)
  case Nil
  show ?case by simp
next
  case (Cons x xs)
  from Cons.prems [of x s] have "f s x = g s x" by simp
  with Cons show ?case by (cases "g s x") auto
qed

lemma try_fold_cong [fundef_cong]:
  "\<lbrakk>s = t; xs = ys; \<And>s x. x \<in> set ys \<Longrightarrow> f s x = g s x\<rbrakk> \<Longrightarrow> try_fold f s xs = try_fold g t ys"
  using try_fold_eq [of ys f g t] by simp

lemma try_all_eq: "(\<And>x. x \<in> set xs \<Longrightarrow> f x = g x) \<Longrightarrow> try_all f xs = try_all g xs"
  by (induction xs) auto

lemma try_all_cong [fundef_cong]:
  "\<lbrakk>xs = ys; \<And>x. x \<in> set ys \<Longrightarrow> f x = g x\<rbrakk> \<Longrightarrow> try_all f xs = try_all g ys"
  using try_all_eq [of ys f g] by simp

end
