(* ===== verification/Workflow_Definition.thy ===== *)
theory Workflow_Definition
  imports Work_Item Text_Parsing
begin

text \<open>
  Workflow definitions (\<open>heycode-session/src/orchestration.rs\<close>): actions, steps, phases,
  and what \<open>validate\<close> demands of them, down to the bindings between results and the
  readiness loop that refuses a cyclic graph. Integers are \<open>nat\<close>; \<open>workflow_ext\<close>
  holds the length of serde\_json's rendering of a value and whether the text of a number that is
  no integer denotes an infinite \<open>f64\<close>.
\<close>

section \<open>Vocabulary\<close>

record workflow_ext =
  we_len :: "json \<Rightarrow> nat option"
  we_infinite :: "string \<Rightarrow> bool"

datatype workflow_error = WorkflowInvalid string

definition workflow_change_version :: nat where
  "workflow_change_version = 1"

definition max_workflow_id_bytes :: nat where
  "max_workflow_id_bytes = 128"

definition max_workflow_name_bytes :: nat where
  "max_workflow_name_bytes = 64"

definition max_workflow_description_bytes :: nat where
  "max_workflow_description_bytes = 1024"

definition max_workflow_step_id_bytes :: nat where
  "max_workflow_step_id_bytes = 64"

definition max_workflow_step_label_bytes :: nat where
  "max_workflow_step_label_bytes = 256"

definition max_workflow_steps :: nat where
  "max_workflow_steps = 64"

definition max_workflow_delay_ms :: nat where
  "max_workflow_delay_ms = 24 * 60 * 60 * 1000"

definition max_workflow_json_bytes :: nat where
  "max_workflow_json_bytes = 256 * 1024"

definition max_workflow_json_depth :: nat where
  "max_workflow_json_depth = 32"

definition max_workflow_json_nodes :: nat where
  "max_workflow_json_nodes = 16 * 1024"

datatype workflow_capability = CapProgress | CapDelay | CapTool | CapAgent

datatype workflow_action =
    ActTool string json \<comment> \<open>name, arguments\<close>
  | ActAgent json \<comment> \<open>prompt\<close>
  | ActEmit json
  | ActDelay nat json

record workflow_step =
  wst_phase :: "string option"
  wst_id :: string
  wst_label :: string
  wst_action :: workflow_action
  wst_depends_on :: "string list"
  wst_when :: "json option"
  wst_max_attempts :: nat
  wst_replay_safe :: bool

record workflow_phase =
  wph_id :: string
  wph_title :: string

record workflow_definition =
  wd_title :: "string option"
  wd_phases :: "workflow_phase list"
  wd_version :: nat
  wd_name :: string
  wd_description :: string
  wd_capabilities :: "workflow_capability list"
  wd_steps :: "workflow_step list"
  wd_max_parallel :: nat

definition is_graph :: "workflow_definition \<Rightarrow> bool" where
  "is_graph d \<longleftrightarrow> wd_version d = 2"

definition workflow_title :: "workflow_definition \<Rightarrow> string" where
  "workflow_title d = (case wd_title d of None \<Rightarrow> wd_name d | Some t \<Rightarrow> t)"

section \<open>JSON values\<close>

text \<open>The structural bound; the result is the number of values visited so far.\<close>

fun json_node :: "workflow_ext \<Rightarrow> json \<Rightarrow> nat \<Rightarrow> nat \<Rightarrow> workflow_error + nat" where
  "json_node ext j depth nodes =
     (let n = nodes + 1 in
      and_then
        (refuse_if (max_workflow_json_depth < depth \<or> max_workflow_json_nodes < n)
           (WorkflowInvalid ''workflow JSON exceeds its structural bound''))
        (\<lambda>_. case j of
            JArray js \<Rightarrow> try_fold (\<lambda>n v. json_node ext v (depth + 1) n) n js
          | JObject fs \<Rightarrow>
              try_fold (\<lambda>n f.
                and_then
                  (refuse_if (\<not> valid_text (fst f) max_workflow_step_label_bytes)
                     (WorkflowInvalid ''workflow JSON object key is invalid''))
                  (\<lambda>_. json_node ext (snd f) (depth + 1) n)) n fs
          | JNumber t \<Rightarrow>
              and_then (refuse_if (we_infinite ext t)
                 (WorkflowInvalid ''workflow JSON number is non-finite'')) (\<lambda>_. Inr n)
          | _ \<Rightarrow> Inr n))"

definition validate_workflow_json :: "workflow_ext \<Rightarrow> json \<Rightarrow> workflow_error + unit" where
  "validate_workflow_json ext j =
     and_then (ok_or (WorkflowInvalid ''workflow JSON is invalid'') (we_len ext j)) (\<lambda>len.
     and_then
       (refuse_if (max_workflow_json_bytes < len)
          (WorkflowInvalid ''workflow JSON exceeds its byte bound''))
       (\<lambda>_. and_then (json_node ext j 0 0) (\<lambda>_. Inr ())))"

text \<open>Bindings: an object with \<open>$ref\<close> names a declared dependency and a JSON pointer.\<close>

definition ref_key :: string where
  "ref_key = ''$ref''"

fun as_str :: "json \<Rightarrow> string option" where
  "as_str (JString s) = Some s"
| "as_str _ = None"

definition check_reference :: "nat \<Rightarrow> string list \<Rightarrow> json \<Rightarrow> workflow_error + unit" where
  "check_reference len dependencies reference =
     and_then (ok_or (WorkflowInvalid ''$ref must be a string'') (as_str reference)) (\<lambda>r.
     and_then (ok_or (WorkflowInvalid ''$ref must be step#/json/pointer'') (split_once (CHR ''#'') r))
       (\<lambda>(i, pointer).
       refuse_if
         (len \<noteq> 1 \<or> i \<notin> set dependencies
          \<or> (pointer \<noteq> [] \<and> hd pointer \<noteq> CHR ''/''))
         (WorkflowInvalid ''$ref must name a declared dependency and JSON pointer'')))"

fun validate_bindings :: "string list \<Rightarrow> json \<Rightarrow> workflow_error + unit" where
  "validate_bindings dependencies j =
     (case j of
        JObject fs \<Rightarrow>
          (case map_of fs ref_key of
             Some reference \<Rightarrow> check_reference (length fs) dependencies reference
           | None \<Rightarrow> try_all (\<lambda>f. validate_bindings dependencies (snd f)) fs)
      | JArray js \<Rightarrow> try_all (validate_bindings dependencies) js
      | _ \<Rightarrow> Inr ())"

section \<open>Actions and steps\<close>

fun object_fields :: "json \<Rightarrow> (string \<times> json) list option" where
  "object_fields (JObject fs) = Some fs"
| "object_fields _ = None"

definition single_key :: "string \<Rightarrow> json \<Rightarrow> bool" where
  "single_key key j \<longleftrightarrow>
     (case object_fields j of None \<Rightarrow> False | Some fs \<Rightarrow> length fs = 1 \<and> map_of fs key \<noteq> None)"

definition prompt_ok :: "json \<Rightarrow> bool" where
  "prompt_ok prompt \<longleftrightarrow>
     (case as_str prompt of None \<Rightarrow> False | Some t \<Rightarrow> \<not> is_blank t \<and> length t \<le> 64 * 1024)
     \<or> single_key ref_key prompt"

fun action_validate :: "workflow_ext \<Rightarrow> workflow_action \<Rightarrow> workflow_error + unit" where
  "action_validate ext (ActTool name arguments) =
     and_then (refuse_if (\<not> valid_opaque_id name 128) (WorkflowInvalid ''tool name is invalid''))
       (\<lambda>_. validate_workflow_json ext arguments)"
| "action_validate ext (ActAgent prompt) =
     and_then
       (refuse_if (\<not> prompt_ok prompt)
          (WorkflowInvalid
             ''agent prompt must be a nonblank bounded string or dependency binding''))
       (\<lambda>_. validate_workflow_json ext prompt)"
| "action_validate ext (ActEmit v) = validate_workflow_json ext v"
| "action_validate ext (ActDelay millis v) =
     and_then
       (refuse_if (millis = 0 \<or> max_workflow_delay_ms < millis)
          (WorkflowInvalid ''workflow delay is invalid''))
       (\<lambda>_. validate_workflow_json ext v)"

text \<open>\<open>serde_json::to_value\<close> of an action, tagged by \<open>kind\<close>.\<close>

fun action_json :: "workflow_action \<Rightarrow> json" where
  "action_json (ActTool name arguments) =
     JObject [(''arguments'', arguments), (''kind'', JString ''tool''), (''name'', JString name)]"
| "action_json (ActAgent prompt) = JObject [(''kind'', JString ''agent''), (''prompt'', prompt)]"
| "action_json (ActEmit v) = JObject [(''kind'', JString ''emit''), (''value'', v)]"
| "action_json (ActDelay millis v) =
     JObject [(''kind'', JString ''delay''), (''millis'', JInt (int millis)), (''value'', v)]"

fun is_effect :: "workflow_action \<Rightarrow> bool" where
  "is_effect (ActTool _ _) = True"
| "is_effect (ActAgent _) = True"
| "is_effect _ = False"

fun is_agent :: "workflow_action \<Rightarrow> bool" where
  "is_agent (ActAgent _) = True"
| "is_agent _ = False"

fun required_capability :: "workflow_action \<Rightarrow> workflow_capability" where
  "required_capability (ActDelay _ _) = CapDelay"
| "required_capability (ActTool _ _) = CapTool"
| "required_capability (ActAgent _) = CapAgent"
| "required_capability (ActEmit _) = CapProgress"

fun is_json_bool :: "json \<Rightarrow> bool" where
  "is_json_bool (JBool _) = True"
| "is_json_bool _ = False"

fun is_pair :: "json \<Rightarrow> bool" where
  "is_pair (JArray js) = (length js = 2)"
| "is_pair _ = False"

definition condition_ok :: "json \<Rightarrow> bool" where
  "condition_ok c \<longleftrightarrow>
     is_json_bool c
     \<or> (case object_fields c of
          None \<Rightarrow> False
        | Some fs \<Rightarrow>
            length fs = 1
            \<and> (map_of fs ref_key \<noteq> None
               \<or> (case map_of fs ''equals'' of None \<Rightarrow> False | Some v \<Rightarrow> is_pair v)))"

definition step_validate :: "workflow_ext \<Rightarrow> workflow_step \<Rightarrow> workflow_error + unit" where
  "step_validate ext s =
     and_then
       (refuse_if
          (case wst_phase s of None \<Rightarrow> False
           | Some i \<Rightarrow> \<not> valid_opaque_id i max_workflow_step_id_bytes)
          (WorkflowInvalid ''invalid workflow phase id'')) (\<lambda>_.
     and_then
       (refuse_if
          (\<not> valid_opaque_id (wst_id s) max_workflow_step_id_bytes
           \<or> \<not> valid_text (wst_label s) max_workflow_step_label_bytes)
          (WorkflowInvalid ''workflow step identity is invalid'')) (\<lambda>_.
     and_then
       (refuse_if
          (\<not> (1 \<le> wst_max_attempts s \<and> wst_max_attempts s \<le> 5) \<or> 64 < length (wst_depends_on s))
          (WorkflowInvalid ''max_attempts must be 1..5; at most 64 dependencies'')) (\<lambda>_.
     and_then
       (refuse_if (1 < wst_max_attempts s \<and> \<not> wst_replay_safe s \<and> is_effect (wst_action s))
          (WorkflowInvalid ''effect retries require replay_safe=true'')) (\<lambda>_.
     and_then
       (case wst_when s of
          None \<Rightarrow> Inr ()
        | Some c \<Rightarrow>
            and_then
              (refuse_if (\<not> condition_ok c)
                 (WorkflowInvalid
                    ''when must be a boolean, dependency binding, or {equals:[left,right]}''))
              (\<lambda>_. validate_workflow_json ext c))
       (\<lambda>_. action_validate ext (wst_action s))))))"

section \<open>Definitions\<close>

fun phases_distinct ::
  "string btree_set \<Rightarrow> workflow_phase list \<Rightarrow> workflow_error + string btree_set" where
  "phases_distinct seen [] = Inr seen"
| "phases_distinct seen (p # ps) =
     (let (fresh, seen') = set_insert (wph_id p) seen in
      and_then
        (refuse_if
           (\<not> valid_opaque_id (wph_id p) max_workflow_step_id_bytes
            \<or> \<not> valid_text (wph_title p) max_workflow_step_label_bytes
            \<or> \<not> fresh)
           (WorkflowInvalid ''phase ids must be unique and titles valid''))
        (\<lambda>_. phases_distinct seen' ps))"

definition phase_declared :: "workflow_definition \<Rightarrow> string btree_set \<Rightarrow> workflow_step \<Rightarrow> bool" where
  "phase_declared d ids s \<longleftrightarrow>
     (if wd_phases d = [] then wst_phase s = None
      else (case wst_phase s of None \<Rightarrow> False | Some i \<Rightarrow> bt_contains ids i))"

text \<open>The presentation metadata: title, phases, and the phase of every step.\<close>

definition presentation_validate :: "workflow_definition \<Rightarrow> workflow_error + unit" where
  "presentation_validate d =
     and_then
       (refuse_if
          ((case wd_title d of None \<Rightarrow> False | Some t \<Rightarrow> \<not> valid_text t max_workflow_step_label_bytes)
           \<or> max_workflow_steps < length (wd_phases d))
          (WorkflowInvalid ''invalid workflow title or phase count'')) (\<lambda>_.
     and_then (phases_distinct bt_empty (wd_phases d)) (\<lambda>ids.
     and_then
       (refuse_if (\<not> list_all (phase_declared d ids) (wd_steps d))
          (WorkflowInvalid ''every step must reference a declared phase when phases are supplied''))
       (\<lambda>_.
       refuse_if
         (\<not> list_all (\<lambda>p. list_ex (\<lambda>s. wst_phase s = Some (wph_id p)) (wd_steps d)) (wd_phases d))
         (WorkflowInvalid ''declared phases must contain at least one step''))))"

definition header_validate :: "workflow_definition \<Rightarrow> workflow_error + unit" where
  "header_validate d =
     and_then
       (refuse_if (wd_version d \<noteq> 1 \<and> wd_version d \<noteq> 2)
          (WorkflowInvalid ''version must be 1 (legacy) or 2 (native graph)'')) (\<lambda>_.
     and_then
       (refuse_if (\<not> (1 \<le> wd_max_parallel d \<and> wd_max_parallel d \<le> 8))
          (WorkflowInvalid ''max_parallel must be 1..8'')) (\<lambda>_.
     and_then
       (refuse_if (\<not> valid_opaque_id (wd_name d) max_workflow_name_bytes)
          (WorkflowInvalid
             ''name must be 1..64 ASCII letters, digits, underscore, hyphen, dot or colon'')) (\<lambda>_.
     and_then
       (refuse_if (\<not> valid_text (wd_description d) max_workflow_description_bytes)
          (WorkflowInvalid ''description must be nonblank safe text of at most 1024 bytes'')) (\<lambda>_.
     and_then
       (refuse_if (wd_steps d = [] \<or> max_workflow_steps < length (wd_steps d))
          (WorkflowInvalid ''steps must contain 1..64 nodes'')) (\<lambda>_.
       refuse_if (has_repeat (wd_capabilities d) \<or> CapProgress \<notin> set (wd_capabilities d))
         (WorkflowInvalid ''workflow capabilities are invalid''))))))"

fun steps_distinct ::
  "workflow_ext \<Rightarrow> workflow_capability list \<Rightarrow> string btree_set \<Rightarrow> workflow_step list
   \<Rightarrow> workflow_error + string btree_set" where
  "steps_distinct ext capabilities seen [] = Inr seen"
| "steps_distinct ext capabilities seen (s # ss) =
     and_then (step_validate ext s) (\<lambda>_.
       let (fresh, seen') = set_insert (wst_id s) seen in
       and_then
         (refuse_if (\<not> fresh) (WorkflowInvalid ''workflow step ids are duplicated'')) (\<lambda>_.
       and_then
         (refuse_if (required_capability (wst_action s) \<notin> set capabilities)
            (WorkflowInvalid ''workflow action lacks its declared capability''))
         (\<lambda>_. steps_distinct ext capabilities seen' ss)))"

definition links_validate ::
  "workflow_definition \<Rightarrow> string btree_set \<Rightarrow> workflow_step \<Rightarrow> workflow_error + unit" where
  "links_validate d ids s =
     and_then
       (refuse_if
          (\<not> is_graph d
           \<and> (wst_depends_on s \<noteq> [] \<or> wst_when s \<noteq> None \<or> wst_max_attempts s \<noteq> 1
              \<or> is_effect (wst_action s)))
          (WorkflowInvalid ''agent/tool actions and dependencies require version 2'')) (\<lambda>_.
     and_then
       (refuse_if
          (has_repeat (wst_depends_on s)
           \<or> list_ex (\<lambda>i. \<not> bt_contains ids i \<or> i = wst_id s) (wst_depends_on s))
          (WorkflowInvalid ''dependencies must be unique existing other step ids'')) (\<lambda>_.
     and_then (validate_bindings (wst_depends_on s) (action_json (wst_action s))) (\<lambda>_.
       case wst_when s of None \<Rightarrow> Inr () | Some c \<Rightarrow> validate_bindings (wst_depends_on s) c)))"

text \<open>One pass over the steps, and the loop that repeats it; \<open>ready\<close> is a set without repeats.\<close>

definition ready_step :: "string list \<Rightarrow> workflow_step \<Rightarrow> string list" where
  "ready_step ready s =
     (if list_all (\<lambda>i. i \<in> set ready) (wst_depends_on s) then List.insert (wst_id s) ready else ready)"

definition ready_pass :: "workflow_step list \<Rightarrow> string list \<Rightarrow> string list" where
  "ready_pass steps ready = foldl ready_step ready steps"

definition grows :: "string list \<Rightarrow> string list \<Rightarrow> bool" where
  "grows xs ys \<longleftrightarrow> set xs \<subseteq> set ys \<and> (ys = xs \<or> (length xs < length ys \<and> set xs \<subset> set ys))"

lemma grows_trans: "grows xs ys \<Longrightarrow> grows ys zs \<Longrightarrow> grows xs zs"
  unfolding grows_def by auto

lemma ready_step_grows: "grows ready (ready_step ready s)"
  by (cases "wst_id s \<in> set ready") (auto simp: grows_def ready_step_def in_set_insert not_in_set_insert)

lemma ready_pass_grows: "grows ready (ready_pass steps ready)"
proof (induction steps arbitrary: ready)
  case Nil
  show ?case by (simp add: ready_pass_def grows_def)
next
  case (Cons s ss)
  from grows_trans [OF ready_step_grows Cons.IH] show ?case by (simp add: ready_pass_def)
qed

lemma ready_pass_ids: "set (ready_pass steps ready) \<subseteq> set ready \<union> wst_id ` set steps"
proof (induction steps arbitrary: ready)
  case Nil
  show ?case by (simp add: ready_pass_def)
next
  case (Cons s ss)
  from Cons.IH [of "ready_step ready s"] show ?case
    by (auto simp: ready_pass_def ready_step_def split: if_splits)
qed

function ready_loop :: "workflow_step list \<Rightarrow> string list \<Rightarrow> workflow_error + unit" where
  "ready_loop steps ready =
     (let ready' = ready_pass steps ready in
      if length ready' = length steps then Inr ()
      else if length ready' = length ready
      then Inl (WorkflowInvalid ''dependency graph contains a cycle'')
      else ready_loop steps ready')"
  by pat_completeness auto
termination ready_loop
proof (relation "measure (\<lambda>(steps, ready). card (wst_id ` set steps - set ready))")
  fix steps ready ready'
  assume r: "ready' = ready_pass steps ready" and grown: "length ready' \<noteq> length ready"
  have "set ready \<subset> set ready'"
    using ready_pass_grows [of ready steps] grown unfolding r grows_def by metis
  moreover have "set ready' \<subseteq> set ready \<union> wst_id ` set steps"
    unfolding r by (rule ready_pass_ids)
  ultimately have "wst_id ` set steps - set ready' \<subset> wst_id ` set steps - set ready" by blast
  then show "((steps, ready'), steps, ready) \<in> measure (\<lambda>(steps, ready). card (wst_id ` set steps - set ready))"
    by (simp add: psubset_card_mono)
qed simp

declare ready_loop.simps [simp del]

definition definition_validate :: "workflow_ext \<Rightarrow> workflow_definition \<Rightarrow> workflow_error + unit" where
  "definition_validate ext d =
     and_then (presentation_validate d) (\<lambda>_.
     and_then (header_validate d) (\<lambda>_.
     and_then (steps_distinct ext (wd_capabilities d) bt_empty (wd_steps d)) (\<lambda>ids.
     and_then (try_all (links_validate d ids) (wd_steps d)) (\<lambda>_.
       ready_loop (wd_steps d) []))))"

section \<open>Constructors\<close>

definition step_new :: "workflow_ext \<Rightarrow> string \<Rightarrow> string \<Rightarrow> workflow_action \<Rightarrow> workflow_error + workflow_step" where
  "step_new ext i label action =
     (let s = \<lparr>wst_phase = None, wst_id = i, wst_label = label, wst_action = action, wst_depends_on = [],
               wst_when = None, wst_max_attempts = 1, wst_replay_safe = False\<rparr>
      in and_then (step_validate ext s) (\<lambda>_. Inr s))"

definition with_graph_policy ::
  "workflow_ext \<Rightarrow> string list \<Rightarrow> json option \<Rightarrow> nat \<Rightarrow> bool \<Rightarrow> workflow_step
   \<Rightarrow> workflow_error + workflow_step" where
  "with_graph_policy ext depends_on condition max_attempts replay_safe s =
     (let s' = s\<lparr>wst_depends_on := depends_on, wst_when := condition, wst_max_attempts := max_attempts,
                 wst_replay_safe := replay_safe\<rparr>
      in and_then (step_validate ext s') (\<lambda>_. Inr s'))"

definition with_phase :: "workflow_ext \<Rightarrow> string \<Rightarrow> workflow_step \<Rightarrow> workflow_error + workflow_step" where
  "with_phase ext phase s =
     (let s' = s\<lparr>wst_phase := Some phase\<rparr> in and_then (step_validate ext s') (\<lambda>_. Inr s'))"

definition definition_new ::
  "workflow_ext \<Rightarrow> string \<Rightarrow> string \<Rightarrow> workflow_capability list \<Rightarrow> workflow_step list
   \<Rightarrow> workflow_error + workflow_definition" where
  "definition_new ext name description capabilities steps =
     (let d = \<lparr>wd_title = None, wd_phases = [], wd_version = workflow_change_version, wd_name = name,
               wd_description = description, wd_capabilities = capabilities, wd_steps = steps,
               wd_max_parallel = 4\<rparr>
      in and_then (definition_validate ext d) (\<lambda>_. Inr d))"

definition definition_graph ::
  "workflow_ext \<Rightarrow> string \<Rightarrow> string \<Rightarrow> workflow_capability list \<Rightarrow> workflow_step list \<Rightarrow> nat
   \<Rightarrow> workflow_error + workflow_definition" where
  "definition_graph ext name description capabilities steps max_parallel =
     (let d = \<lparr>wd_title = None, wd_phases = [], wd_version = 2, wd_name = name,
               wd_description = description, wd_capabilities = capabilities, wd_steps = steps,
               wd_max_parallel = max_parallel\<rparr>
      in and_then (definition_validate ext d) (\<lambda>_. Inr d))"

definition with_presentation ::
  "workflow_ext \<Rightarrow> string \<Rightarrow> workflow_phase list \<Rightarrow> workflow_definition
   \<Rightarrow> workflow_error + workflow_definition" where
  "with_presentation ext title phases d =
     (let d' = d\<lparr>wd_title := Some title, wd_phases := phases\<rparr>
      in and_then (definition_validate ext d') (\<lambda>_. Inr d'))"

end
