(* ===== verification/Workflow_Change.thy ===== *)
theory Workflow_Change
  imports Workflow_Definition
begin

text \<open>
  The durable changes of workflow runs (\<open>heycode-session/src/orchestration.rs\<close>) with the
  observations of native tasks they carry (\<open>workflow_observation.rs\<close>), and the shape that
  every change must have on its own. Times are \<open>i64\<close>, counters \<open>nat\<close>.
\<close>

section \<open>Observations\<close>

record workflow_usage =
  wu_reported_requests :: nat
  wu_unreported_requests :: nat
  wu_prompt_tokens :: nat
  wu_completion_tokens :: nat

definition usage_none :: workflow_usage where
  "usage_none =
     \<lparr>wu_reported_requests = 0, wu_unreported_requests = 0, wu_prompt_tokens = 0,
      wu_completion_tokens = 0\<rparr>"

definition usage_add :: "workflow_usage \<Rightarrow> workflow_usage \<Rightarrow> workflow_usage" where
  "usage_add u v =
     \<lparr>wu_reported_requests = saturating_add_u32 (wu_reported_requests u) (wu_reported_requests v),
      wu_unreported_requests = saturating_add_u32 (wu_unreported_requests u) (wu_unreported_requests v),
      wu_prompt_tokens = saturating_add_u64 (wu_prompt_tokens u) (wu_prompt_tokens v),
      wu_completion_tokens = saturating_add_u64 (wu_completion_tokens u) (wu_completion_tokens v)\<rparr>"

datatype workflow_agent_state =
    AgentQueued | AgentRunning | AgentCancelling | AgentIdle | AgentCompleted | AgentFailed
  | AgentCancelled | AgentClosed | AgentInterrupted

record workflow_agent_record =
  war_node_id :: string
  war_node_attempt :: nat
  war_owner_session_id :: string
  war_task_id :: string
  war_session_id :: "string option"
  war_job_id :: "string option"
  war_label :: string
  war_prompt :: string
  war_prompt_truncated :: bool
  war_revision :: nat
  war_state :: workflow_agent_state
  war_created_at :: int
  war_updated_at :: int
  war_summary :: string
  war_summary_truncated :: bool
  war_usage :: workflow_usage

datatype workflow_outcome = RunPaused | RunCompleted | RunFailed | RunCancelled

record workflow_job_record =
  wj_attempt :: nat
  wj_job_id :: string
  wj_admitted_at :: int
  wj_settled_at :: "int option"
  wj_outcome :: "workflow_outcome option"

section \<open>Changes\<close>

datatype workflow_node_state = NodeStarted | NodeCompleted | NodeSkipped | NodeFailed

record workflow_node_record =
  wn_attempt :: nat
  wn_state :: workflow_node_state
  wn_value :: json

datatype workflow_change =
    WorkflowJob nat string nat string \<comment> \<open>version, run, attempt, job\<close>
  | WorkflowAgent nat string workflow_agent_record
  | WorkflowSaved nat workflow_definition
  | WorkflowNode nat string string workflow_node_record \<comment> \<open>version, run, step\<close>
  | WorkflowStart nat string workflow_definition
  | WorkflowProgress nat string nat nat string \<comment> \<open>version, run, sequence, step, message\<close>
  | WorkflowCheckpoint nat string nat json \<comment> \<open>version, run, completed steps, result\<close>
  | WorkflowResume nat string nat nat \<comment> \<open>version, run, attempt, completed steps\<close>
  | WorkflowEnd nat string workflow_outcome nat "string option"

fun workflow_version :: "workflow_change \<Rightarrow> nat" where
  "workflow_version (WorkflowJob version _ _ _) = version"
| "workflow_version (WorkflowAgent version _ _) = version"
| "workflow_version (WorkflowSaved version _) = version"
| "workflow_version (WorkflowNode version _ _ _) = version"
| "workflow_version (WorkflowStart version _ _) = version"
| "workflow_version (WorkflowProgress version _ _ _ _) = version"
| "workflow_version (WorkflowCheckpoint version _ _ _) = version"
| "workflow_version (WorkflowResume version _ _ _) = version"
| "workflow_version (WorkflowEnd version _ _ _ _) = version"

fun workflow_run_id :: "workflow_change \<Rightarrow> string option" where
  "workflow_run_id (WorkflowJob _ run _ _) = Some run"
| "workflow_run_id (WorkflowAgent _ run _) = Some run"
| "workflow_run_id (WorkflowSaved _ _) = None"
| "workflow_run_id (WorkflowNode _ run _ _) = Some run"
| "workflow_run_id (WorkflowStart _ run _) = Some run"
| "workflow_run_id (WorkflowProgress _ run _ _ _) = Some run"
| "workflow_run_id (WorkflowCheckpoint _ run _ _) = Some run"
| "workflow_run_id (WorkflowResume _ run _ _) = Some run"
| "workflow_run_id (WorkflowEnd _ run _ _ _) = Some run"

definition workflow_start :: "string \<Rightarrow> workflow_definition \<Rightarrow> workflow_change" where
  "workflow_start run d = WorkflowStart workflow_change_version run d"

definition opaque_option_ok :: "string option \<Rightarrow> nat \<Rightarrow> bool" where
  "opaque_option_ok i limit \<longleftrightarrow> (case i of None \<Rightarrow> True | Some i \<Rightarrow> valid_opaque_id i limit)"

definition agent_record_ok :: "workflow_agent_record \<Rightarrow> bool" where
  "agent_record_ok r \<longleftrightarrow>
     valid_opaque_id (war_node_id r) max_workflow_step_id_bytes
     \<and> 1 \<le> war_node_attempt r \<and> war_node_attempt r \<le> 5
     \<and> valid_opaque_id (war_task_id r) 128
     \<and> valid_opaque_id (war_owner_session_id r) 128
     \<and> opaque_option_ok (war_session_id r) 128
     \<and> opaque_option_ok (war_job_id r) 128
     \<and> valid_text (war_label r) max_workflow_step_label_bytes
     \<and> war_prompt r \<noteq> []
     \<and> length (war_prompt r) \<le> 16 * 1024
     \<and> length (war_summary r) \<le> 32 * 1024
     \<and> 0 \<le> war_created_at r
     \<and> war_created_at r \<le> war_updated_at r
     \<and> war_revision r \<noteq> 0"

definition settlement_coherent :: "workflow_outcome \<Rightarrow> string option \<Rightarrow> bool" where
  "settlement_coherent result message \<longleftrightarrow>
     (result = RunCompleted \<and> message = None)
     \<or> (result \<noteq> RunCompleted
        \<and> (case message of None \<Rightarrow> False
           | Some m \<Rightarrow> valid_text m max_workflow_description_bytes))"

definition run_id_validate :: "string \<Rightarrow> workflow_error + unit" where
  "run_id_validate run =
     refuse_if (\<not> valid_opaque_id run max_workflow_id_bytes)
       (WorkflowInvalid ''workflow run id is invalid'')"

text \<open>The part of the check that depends on the operation.\<close>

fun workflow_operation_ok :: "workflow_ext \<Rightarrow> workflow_change \<Rightarrow> workflow_error + unit" where
  "workflow_operation_ok ext (WorkflowJob version run attempt job) =
     refuse_if (attempt = 0 \<or> 24 < length job \<or> \<not> valid_job_id job)
       (WorkflowInvalid ''invalid workflow coordinator identity or attempt'')"
| "workflow_operation_ok ext (WorkflowAgent version run r) =
     refuse_if (\<not> agent_record_ok r) (WorkflowInvalid ''invalid workflow agent observation'')"
| "workflow_operation_ok ext (WorkflowSaved version d) = definition_validate ext d"
| "workflow_operation_ok ext (WorkflowNode version run step r) =
     and_then
       (refuse_if
          (\<not> valid_opaque_id step max_workflow_step_id_bytes
           \<or> \<not> (1 \<le> wn_attempt r \<and> wn_attempt r \<le> 5))
          (WorkflowInvalid ''invalid graph node identity or attempt''))
       (\<lambda>_. validate_workflow_json ext (wn_value r))"
| "workflow_operation_ok ext (WorkflowStart version run d) = definition_validate ext d"
| "workflow_operation_ok ext (WorkflowProgress version run sequence step message) =
     refuse_if (sequence = 0 \<or> step = 0 \<or> \<not> valid_text message max_workflow_step_label_bytes)
       (WorkflowInvalid ''workflow progress is invalid'')"
| "workflow_operation_ok ext (WorkflowCheckpoint version run completed result) =
     and_then
       (refuse_if (completed = 0) (WorkflowInvalid ''workflow checkpoint prefix is invalid''))
       (\<lambda>_. validate_workflow_json ext result)"
| "workflow_operation_ok ext (WorkflowResume version run attempt completed) =
     refuse_if (attempt < 2) (WorkflowInvalid ''workflow resume attempt is invalid'')"
| "workflow_operation_ok ext (WorkflowEnd version run result completed message) =
     refuse_if (\<not> settlement_coherent result message)
       (WorkflowInvalid ''workflow settlement is invalid'')"

definition workflow_validate_shape :: "workflow_ext \<Rightarrow> workflow_change \<Rightarrow> workflow_error + unit" where
  "workflow_validate_shape ext change =
     (case workflow_run_id change of
        None \<Rightarrow>
          and_then
            (refuse_if (workflow_version change \<noteq> workflow_change_version)
               (WorkflowInvalid ''unsupported saved workflow version''))
            (\<lambda>_. workflow_operation_ok ext change)
      | Some run \<Rightarrow>
          and_then
            (refuse_if (workflow_version change \<noteq> workflow_change_version)
               (WorkflowInvalid ''workflow change version is unsupported''))
            (\<lambda>_. and_then (run_id_validate run) (\<lambda>_. workflow_operation_ok ext change)))"

text \<open>The JSON values a change carries, which a codec must keep.\<close>

fun action_value :: "workflow_action \<Rightarrow> json" where
  "action_value (ActTool _ v) = v"
| "action_value (ActAgent v) = v"
| "action_value (ActEmit v) = v"
| "action_value (ActDelay _ v) = v"

definition step_values :: "workflow_step \<Rightarrow> json list" where
  "step_values s = action_value (wst_action s) # (case wst_when s of None \<Rightarrow> [] | Some c \<Rightarrow> [c])"

definition definition_values :: "workflow_definition \<Rightarrow> json list" where
  "definition_values d = concat (map step_values (wd_steps d))"

fun workflow_values :: "workflow_change \<Rightarrow> json list" where
  "workflow_values (WorkflowSaved version d) = definition_values d"
| "workflow_values (WorkflowNode version run step r) = [wn_value r]"
| "workflow_values (WorkflowStart version run d) = definition_values d"
| "workflow_values (WorkflowCheckpoint version run completed result) = [result]"
| "workflow_values _ = []"

lemma workflow_shape_run:
  "workflow_validate_shape ext change = Inr () \<Longrightarrow>
   workflow_version change = workflow_change_version \<and> workflow_operation_ok ext change = Inr ()
   \<and> (\<forall>run. workflow_run_id change = Some run \<longrightarrow> valid_opaque_id run max_workflow_id_bytes)"
  by (auto simp: workflow_validate_shape_def run_id_validate_def split: option.splits)

section \<open>Constructors\<close>

definition checked_change :: "workflow_ext \<Rightarrow> workflow_change \<Rightarrow> workflow_error + workflow_change" where
  "checked_change ext change = and_then (workflow_validate_shape ext change) (\<lambda>_. Inr change)"

definition workflow_progress ::
  "workflow_ext \<Rightarrow> string \<Rightarrow> nat \<Rightarrow> nat \<Rightarrow> string \<Rightarrow> workflow_error + workflow_change" where
  "workflow_progress ext run sequence step message =
     checked_change ext (WorkflowProgress workflow_change_version run sequence step message)"

definition workflow_checkpoint ::
  "workflow_ext \<Rightarrow> string \<Rightarrow> nat \<Rightarrow> json \<Rightarrow> workflow_error + workflow_change" where
  "workflow_checkpoint ext run completed v =
     checked_change ext (WorkflowCheckpoint workflow_change_version run completed v)"

definition workflow_resume ::
  "workflow_ext \<Rightarrow> string \<Rightarrow> nat \<Rightarrow> nat \<Rightarrow> workflow_error + workflow_change" where
  "workflow_resume ext run attempt completed =
     checked_change ext (WorkflowResume workflow_change_version run attempt completed)"

definition workflow_end ::
  "workflow_ext \<Rightarrow> string \<Rightarrow> workflow_outcome \<Rightarrow> nat \<Rightarrow> string option
   \<Rightarrow> workflow_error + workflow_change" where
  "workflow_end ext run result completed message =
     checked_change ext (WorkflowEnd workflow_change_version run result completed message)"

end
