(* ===== verification/Cron.thy ===== *)
theory Cron
  imports Text_Parsing
begin

text \<open>
  Five-field cron expressions of the schedule domain
  (\<open>heycode-session/src/orchestration.rs\<close>: \<open>CronSpec\<close>, \<open>CronField\<close> and the search for
  the next target). Dates and time zones are chrono's: the record \<open>calendar\<close> has the calls the
  code makes, with a date as chrono's day number. SHA-256 is \<open>ce_sha256\<close>. Instants are
  \<open>i64\<close> milliseconds, fields \<open>u32\<close>.
\<close>

section \<open>What the code takes from elsewhere\<close>

datatype 'a local_result = LocalNone | LocalSingle 'a | LocalAmbiguous 'a 'a

record local_moment =
  lm_instant :: int
  lm_date :: int
  lm_hour :: nat
  lm_minute :: nat

text \<open>
  \<open>Local.timestamp_millis_opt\<close>; \<open>date.and_hms_opt\<close> followed by
  \<open>Local.from_local_datetime\<close> and \<open>timestamp_millis\<close>; \<open>date.succ_opt\<close>; and the parts of
  a date, the day of the week counted from Sunday.
\<close>

record calendar =
  ca_local :: "int \<Rightarrow> local_moment local_result"
  ca_instant :: "int \<Rightarrow> nat \<Rightarrow> nat \<Rightarrow> int local_result"
  ca_next_day :: "int \<Rightarrow> int option"
  ca_month :: "int \<Rightarrow> nat"
  ca_day :: "int \<Rightarrow> nat"
  ca_weekday :: "int \<Rightarrow> nat"

record cron_ext =
  ce_calendar :: calendar
  ce_sha256 :: "string \<Rightarrow> string"

datatype schedule_error = ScheduleInvalid string

section \<open>Parsing\<close>

record cron_field =
  cf_values :: "nat btree_set"
  cf_unrestricted :: bool

record cron_spec =
  cs_canonical :: string
  cs_minute :: cron_field
  cs_hour :: cron_field
  cs_day_of_month :: cron_field
  cs_month :: cron_field
  cs_day_of_week :: cron_field

definition parse_cron_value :: "string \<Rightarrow> nat \<Rightarrow> nat \<Rightarrow> schedule_error + nat" where
  "parse_cron_value v minimum maximum =
     ok_or (ScheduleInvalid ''cron value is invalid'')
       (case parse_u32 v of
          None \<Rightarrow> None
        | Some n \<Rightarrow> if minimum \<le> n \<and> n \<le> maximum then Some n else None)"

text \<open>The values \<open>v\<close>, \<open>v + step\<close> and so on up to \<open>upper\<close>; the caller has refused step 0.\<close>

function cron_fill :: "bool \<Rightarrow> nat \<Rightarrow> nat \<Rightarrow> nat \<Rightarrow> nat btree_set \<Rightarrow> nat btree_set" where
  "cron_fill sunday_seven step upper v acc =
     (let acc' = snd (set_insert (if sunday_seven \<and> v = 7 then 0 else v) acc) in
      if step = 0 \<or> u32_max < v + step \<or> upper < v + step then acc'
      else cron_fill sunday_seven step upper (v + step) acc')"
  by pat_completeness auto
termination cron_fill
  by (relation "measure (\<lambda>(sunday_seven, step, upper, v, acc). upper - v)") auto

declare cron_fill.simps [simp del]

definition cron_step :: "string list \<Rightarrow> schedule_error + nat" where
  "cron_step parts =
     (case parts of
        base # s # more_parts \<Rightarrow>
          and_then (ok_or (ScheduleInvalid ''cron step is invalid'') (parse_u32 s)) (\<lambda>step.
            and_then (refuse_if (step = 0 \<or> more_parts \<noteq> []) (ScheduleInvalid ''cron step is invalid''))
              (\<lambda>_. Inr step))
      | _ \<Rightarrow> Inr 1)"

definition cron_range :: "string \<Rightarrow> string \<Rightarrow> nat \<Rightarrow> nat \<Rightarrow> schedule_error + (nat \<times> nat)" where
  "cron_range item base minimum maximum =
     (if base = ''*'' then Inr (minimum, maximum)
      else case split_once (CHR ''-'') base of
        Some (lower, upper) \<Rightarrow>
          and_then (parse_cron_value lower minimum maximum) (\<lambda>a.
            and_then (parse_cron_value upper minimum maximum) (\<lambda>b. Inr (a, b)))
      | None \<Rightarrow>
          and_then (parse_cron_value base minimum maximum) (\<lambda>v.
            Inr (v, if CHR ''/'' \<in> set item then maximum else v)))"

definition cron_item ::
  "nat \<Rightarrow> nat \<Rightarrow> bool \<Rightarrow> cron_field \<Rightarrow> string \<Rightarrow> schedule_error + cron_field" where
  "cron_item minimum maximum sunday_seven field item =
     and_then (refuse_if (item = []) (ScheduleInvalid ''cron list is invalid'')) (\<lambda>_.
     let parts = split_on (CHR ''/'') item; base = hd parts in
     and_then (cron_step parts) (\<lambda>step.
     and_then (cron_range item base minimum maximum) (\<lambda>(lower, upper).
     and_then (refuse_if (upper < lower) (ScheduleInvalid ''cron range is invalid'')) (\<lambda>_.
       Inr \<lparr>cf_values = cron_fill sunday_seven step upper lower (cf_values field),
            cf_unrestricted = (cf_unrestricted field \<or> (base = ''*'' \<and> step = 1))\<rparr>))))"

definition cron_field_parse ::
  "string \<Rightarrow> nat \<Rightarrow> nat \<Rightarrow> bool \<Rightarrow> schedule_error + cron_field" where
  "cron_field_parse field minimum maximum sunday_seven =
     and_then (refuse_if (field = []) (ScheduleInvalid ''cron field is empty'')) (\<lambda>_.
       try_fold (cron_item minimum maximum sunday_seven)
         \<lparr>cf_values = bt_empty, cf_unrestricted = False\<rparr> (split_on (CHR '','') field))"

definition cron_parse :: "string \<Rightarrow> schedule_error + cron_spec" where
  "cron_parse expression =
     (let parts = split_whitespace expression in
      and_then
        (refuse_if (length parts \<noteq> 5) (ScheduleInvalid ''cron expression must have five fields''))
        (\<lambda>_.
      and_then (cron_field_parse (parts ! 0) 0 59 False) (\<lambda>minute.
      and_then (cron_field_parse (parts ! 1) 0 23 False) (\<lambda>hour.
      and_then (cron_field_parse (parts ! 2) 1 31 False) (\<lambda>day_of_month.
      and_then (cron_field_parse (parts ! 3) 1 12 False) (\<lambda>month.
      and_then (cron_field_parse (parts ! 4) 0 7 True) (\<lambda>day_of_week.
        Inr \<lparr>cs_canonical = join_with '' '' parts, cs_minute = minute, cs_hour = hour,
             cs_day_of_month = day_of_month, cs_month = month, cs_day_of_week = day_of_week\<rparr>)))))))"

section \<open>Matching\<close>

definition matches_date :: "calendar \<Rightarrow> cron_spec \<Rightarrow> int \<Rightarrow> bool" where
  "matches_date cal spec date \<longleftrightarrow>
     bt_contains (cf_values (cs_month spec)) (ca_month cal date)
     \<and> (let day_of_month = bt_contains (cf_values (cs_day_of_month spec)) (ca_day cal date);
            day_of_week = bt_contains (cf_values (cs_day_of_week spec)) (ca_weekday cal date)
        in case (cf_unrestricted (cs_day_of_month spec), cf_unrestricted (cs_day_of_week spec)) of
             (True, True) \<Rightarrow> True
           | (True, False) \<Rightarrow> day_of_week
           | (False, True) \<Rightarrow> day_of_month
           | (False, False) \<Rightarrow> day_of_month \<or> day_of_week)"

definition matches_timestamp :: "calendar \<Rightarrow> cron_spec \<Rightarrow> int \<Rightarrow> bool" where
  "matches_timestamp cal spec t \<longleftrightarrow>
     (case ca_local cal t of
        LocalSingle m \<Rightarrow>
          t mod 60000 = 0 \<and> matches_date cal spec (lm_date m)
          \<and> bt_contains (cf_values (cs_minute spec)) (lm_minute m)
          \<and> bt_contains (cf_values (cs_hour spec)) (lm_hour m)
      | _ \<Rightarrow> False)"

section \<open>The next target\<close>

definition cron_search_days :: nat where
  "cron_search_days = 8 * 366"

definition one_shot_jitter_max_ms :: int where
  "one_shot_jitter_max_ms = 90 * 1000"

definition recurring_jitter_max_ms :: int where
  "recurring_jitter_max_ms = 30 * 60 * 1000"

definition local_at :: "calendar \<Rightarrow> string \<Rightarrow> int \<Rightarrow> schedule_error + local_moment" where
  "local_at cal message t =
     (case ca_local cal t of
        LocalSingle m \<Rightarrow> Inr m
      | LocalAmbiguous a b \<Rightarrow> Inr (if lm_instant a \<le> lm_instant b then a else b)
      | LocalNone \<Rightarrow> Inl (ScheduleInvalid message))"

definition cron_candidate :: "calendar \<Rightarrow> int \<Rightarrow> nat \<times> nat \<Rightarrow> int option" where
  "cron_candidate cal date hm =
     (case ca_instant cal date (fst hm) (snd hm) of
        LocalSingle t \<Rightarrow> Some t
      | LocalAmbiguous a b \<Rightarrow> Some (min a b)
      | LocalNone \<Rightarrow> None)"

text \<open>The times of a day in the order of the two loops, and the first one after an instant.\<close>

definition day_times :: "cron_spec \<Rightarrow> (nat \<times> nat) list" where
  "day_times spec =
     List.product (bt_keys (cf_values (cs_hour spec))) (bt_keys (cf_values (cs_minute spec)))"

definition day_target :: "calendar \<Rightarrow> cron_spec \<Rightarrow> int \<Rightarrow> int \<Rightarrow> int option" where
  "day_target cal spec after date =
     List.find (\<lambda>t. after < t) (List.map_filter (cron_candidate cal date) (day_times spec))"

fun search_days :: "calendar \<Rightarrow> cron_spec \<Rightarrow> int \<Rightarrow> nat \<Rightarrow> int \<Rightarrow> schedule_error + int" where
  "search_days cal spec after 0 date =
     Inl (ScheduleInvalid ''cron expression has no bounded future occurrence'')"
| "search_days cal spec after (Suc n) date =
     (case (if matches_date cal spec date then day_target cal spec after date else None) of
        Some t \<Rightarrow> Inr t
      | None \<Rightarrow>
          and_then (ok_or (ScheduleInvalid ''cron calendar arithmetic overflowed'') (ca_next_day cal date))
            (search_days cal spec after n))"

definition next_cron_base :: "calendar \<Rightarrow> cron_spec \<Rightarrow> int \<Rightarrow> schedule_error + int" where
  "next_cron_base cal spec after =
     and_then (local_at cal ''cron reference timestamp is invalid'' after) (\<lambda>m.
       search_days cal spec after cron_search_days (lm_date m))"

definition cron_jitter_bound :: "calendar \<Rightarrow> cron_spec \<Rightarrow> int \<Rightarrow> bool \<Rightarrow> schedule_error + int" where
  "cron_jitter_bound cal spec base recurring =
     (if \<not> recurring
      then and_then (local_at cal ''cron target timezone is invalid'' base) (\<lambda>m.
             Inr (if lm_minute m = 0 \<or> lm_minute m = 30 then one_shot_jitter_max_ms else 0))
      else and_then (next_cron_base cal spec base) (\<lambda>next_base.
           and_then (ok_or (ScheduleInvalid ''cron interval arithmetic overflowed'')
               (checked_i64 (next_base - base)))
             (\<lambda>interval. Inr (if interval < 60 * 60 * 1000 then interval div 2
                             else recurring_jitter_max_ms))))"

definition be_value :: "string \<Rightarrow> nat" where
  "be_value bs = foldl (\<lambda>acc b. acc * 256 + byte_val b) 0 bs"

definition deterministic_jitter :: "(string \<Rightarrow> string) \<Rightarrow> string \<Rightarrow> int \<Rightarrow> int" where
  "deterministic_jitter sha256 i maximum =
     (if maximum \<le> 0 then 0 else int (be_value (take 8 (sha256 i))) mod (maximum + 1))"

lemma find_after: "List.find (\<lambda>t. after < t) ts = Some t \<Longrightarrow> (after :: int) < t"
  by (auto dest: find_SomeD)

lemma search_days_after: "search_days cal spec after n date = Inr t \<Longrightarrow> after < t"
  by (induction n arbitrary: date)
    (auto simp: day_target_def dest: find_after split: option.splits if_splits)

lemma next_cron_base_after: "next_cron_base cal spec after = Inr t \<Longrightarrow> after < t"
  by (auto simp: next_cron_base_def intro: search_days_after)

lemma jitter_range: "0 \<le> deterministic_jitter sha256 i m \<and> deterministic_jitter sha256 i m \<le> max 0 m"
proof (cases "m \<le> 0")
  case True
  then show ?thesis by (simp add: deterministic_jitter_def)
next
  case False
  then have "int (be_value (take 8 (sha256 i))) mod (m + 1) \<le> m"
    using pos_mod_bound [of "m + 1" "int (be_value (take 8 (sha256 i)))"] by linarith
  with False show ?thesis by (simp add: deterministic_jitter_def)
qed

lemma one_shot_bound: "cron_jitter_bound cal spec base False = Inr m \<Longrightarrow> m \<le> one_shot_jitter_max_ms"
  by (auto simp: cron_jitter_bound_def one_shot_jitter_max_ms_def)

lemma and_then_cong [fundef_cong]:
  "\<lbrakk>r = r'; \<And>a. r' = Inr a \<Longrightarrow> f a = g a\<rbrakk> \<Longrightarrow> and_then r f = and_then r' g"
  by (cases r') auto

text \<open>The loop of \<open>next_cron_target\<close>; it starts with \<open>cursor\<close> at \<open>after\<close>.\<close>

function cron_target_from ::
  "cron_ext \<Rightarrow> string \<Rightarrow> cron_spec \<Rightarrow> int \<Rightarrow> bool \<Rightarrow> int \<Rightarrow> schedule_error + (int \<times> int)" where
  "cron_target_from ext i spec after recurring cursor =
     and_then (next_cron_base (ce_calendar ext) spec cursor) (\<lambda>base.
     and_then (cron_jitter_bound (ce_calendar ext) spec base recurring) (\<lambda>bound.
     let magnitude = deterministic_jitter (ce_sha256 ext) i bound;
         jitter = (if recurring then magnitude else - magnitude)
     in and_then (ok_or (ScheduleInvalid ''cron jitter arithmetic overflowed'') (checked_i64 (base + jitter)))
          (\<lambda>target. if after < target then Inr (target, jitter)
                    else cron_target_from ext i spec after recurring base)))"
  by pat_completeness auto
termination cron_target_from
proof (relation "measure (\<lambda>(ext, i, spec, after, recurring, cursor).
    nat (after + one_shot_jitter_max_ms - cursor))")
  fix ext i spec after recurring cursor base bound magnitude jitter target
  assume base: "next_cron_base (ce_calendar ext) spec cursor = Inr base"
    and bound: "cron_jitter_bound (ce_calendar ext) spec base recurring = Inr bound"
    and magnitude: "magnitude = deterministic_jitter (ce_sha256 ext) i bound"
    and jitter: "jitter = (if recurring then magnitude else - magnitude)"
    and target: "ok_or (ScheduleInvalid ''cron jitter arithmetic overflowed'') (checked_i64 (base + jitter))
      = Inr target" "\<not> after < target"
  have "base \<le> after + one_shot_jitter_max_ms"
    using jitter_range [of "ce_sha256 ext" i bound] target bound one_shot_bound magnitude jitter
    by (cases recurring) (fastforce simp: one_shot_jitter_max_ms_def)+
  with next_cron_base_after [OF base]
  show "((ext, i, spec, after, recurring, base), ext, i, spec, after, recurring, cursor)
      \<in> measure (\<lambda>(ext, i, spec, after, recurring, cursor). nat (after + one_shot_jitter_max_ms - cursor))"
    by simp
qed simp

declare cron_target_from.simps [simp del]

definition next_cron_target ::
  "cron_ext \<Rightarrow> string \<Rightarrow> cron_spec \<Rightarrow> int \<Rightarrow> bool \<Rightarrow> schedule_error + (int \<times> int)" where
  "next_cron_target ext i spec after recurring = cron_target_from ext i spec after recurring after"

end
