(* ===== verification/Schedule_State.thy ===== *)
theory Schedule_State
  imports Cron
begin

text \<open>
  Schedules of a session (\<open>heycode-session/src/orchestration.rs\<close>): rules, records and their
  constructors, the durable changes, and what \<open>validate\<close> demands. Instants are \<open>i64\<close>
  milliseconds as \<open>int\<close>, delays \<open>u64\<close> as \<open>nat\<close>.
\<close>

section \<open>Bounds\<close>

definition legacy_schedule_change_version :: nat where
  "legacy_schedule_change_version = 1"

definition schedule_change_version :: nat where
  "schedule_change_version = 2"

definition max_schedule_prompt_bytes :: nat where
  "max_schedule_prompt_bytes = 64 * 1024"

definition max_schedule_delay_ms :: nat where
  "max_schedule_delay_ms = 365 * 24 * 60 * 60 * 1000"

definition min_schedule_every_ms :: nat where
  "min_schedule_every_ms = 1000"

definition min_wakeup_delay_ms :: nat where
  "min_wakeup_delay_ms = 60 * 1000"

definition max_wakeup_delay_ms :: nat where
  "max_wakeup_delay_ms = 60 * 60 * 1000"

definition schedule_expiry_ms :: int where
  "schedule_expiry_ms = 7 * 24 * 60 * 60 * 1000"

definition max_active_schedules :: nat where
  "max_active_schedules = 50"

definition schedule_id_validate :: "string \<Rightarrow> schedule_error + unit" where
  "schedule_id_validate i =
     refuse_if (\<not> valid_opaque_id i max_schedule_id_bytes) (ScheduleInvalid ''schedule id is invalid'')"

section \<open>Records\<close>

datatype schedule_time_zone = ZoneLocal

datatype schedule_rule =
    RuleAfter nat
  | RuleAt
  | RuleEvery nat
  | RuleCron string bool schedule_time_zone \<comment> \<open>expression, recurring, zone\<close>
  | RuleWakeup nat

record schedule_record =
  sch_id :: string
  sch_prompt :: string
  sch_scheduled_at :: int
  sch_rule :: schedule_rule
  sch_created_at :: int
  sch_expires_at :: "int option"
  sch_jitter :: int

definition wakeup_delay_ok :: "nat \<Rightarrow> bool" where
  "wakeup_delay_ok delay \<longleftrightarrow> min_wakeup_delay_ms \<le> delay \<and> delay \<le> max_wakeup_delay_ms"

definition expiry_after :: "int \<Rightarrow> int option" where
  "expiry_after created = checked_i64 (created + schedule_expiry_ms)"

definition cron_rule_validate ::
  "cron_ext \<Rightarrow> schedule_record \<Rightarrow> string \<Rightarrow> bool \<Rightarrow> schedule_error + unit" where
  "cron_rule_validate ext r expression recurring =
     and_then (cron_parse expression) (\<lambda>spec.
     and_then
       (refuse_if
          (cs_canonical spec \<noteq> expression
           \<or> recurring \<noteq> (sch_expires_at r \<noteq> None)
           \<or> (case sch_expires_at r of None \<Rightarrow> False
              | Some expiry \<Rightarrow> expiry_after (sch_created_at r) \<noteq> Some expiry))
          (ScheduleInvalid ''cron schedule metadata is invalid'')) (\<lambda>_.
     and_then
       (ok_or (ScheduleInvalid ''cron jitter arithmetic overflowed'')
          (checked_i64 (sch_scheduled_at r - sch_jitter r))) (\<lambda>base.
     and_then
       (refuse_if
          (base \<le> sch_created_at r \<or> \<not> matches_timestamp (ce_calendar ext) spec base)
          (ScheduleInvalid ''cron schedule target does not match its expression'')) (\<lambda>_.
     and_then (cron_jitter_bound (ce_calendar ext) spec base recurring) (\<lambda>max_jitter.
       refuse_if
         ((recurring \<and> \<not> (0 \<le> sch_jitter r \<and> sch_jitter r \<le> max_jitter))
          \<or> (\<not> recurring \<and> \<not> (- max_jitter \<le> sch_jitter r \<and> sch_jitter r \<le> 0)))
         (ScheduleInvalid ''cron schedule jitter is invalid''))))))"

definition rule_validate :: "cron_ext \<Rightarrow> schedule_record \<Rightarrow> schedule_error + unit" where
  "rule_validate ext r =
     (case sch_rule r of
        RuleAfter delay \<Rightarrow>
          refuse_if
            (delay = 0 \<or> max_schedule_delay_ms < delay \<or> sch_expires_at r \<noteq> None
             \<or> sch_jitter r \<noteq> 0)
            (ScheduleInvalid ''schedule delay is invalid'')
      | RuleAt \<Rightarrow>
          refuse_if (sch_expires_at r \<noteq> None \<or> sch_jitter r \<noteq> 0)
            (ScheduleInvalid ''absolute schedule metadata is invalid'')
      | RuleEvery every \<Rightarrow>
          refuse_if (every < min_schedule_every_ms \<or> sch_expires_at r \<noteq> None \<or> sch_jitter r \<noteq> 0)
            (ScheduleInvalid ''schedule recurrence is too frequent'')
      | RuleCron expression recurring zone \<Rightarrow> cron_rule_validate ext r expression recurring
      | RuleWakeup delay \<Rightarrow>
          refuse_if
            (\<not> wakeup_delay_ok delay \<or> sch_jitter r \<noteq> 0
             \<or> expiry_after (sch_created_at r) \<noteq> sch_expires_at r)
            (ScheduleInvalid ''schedule wakeup metadata is invalid''))"

definition schedule_validate :: "cron_ext \<Rightarrow> schedule_record \<Rightarrow> schedule_error + unit" where
  "schedule_validate ext r =
     and_then (schedule_id_validate (sch_id r)) (\<lambda>_.
     and_then
       (refuse_if
          (\<not> valid_text (sch_prompt r) max_schedule_prompt_bytes
           \<or> sch_scheduled_at r < 0 \<or> sch_created_at r < 0
           \<or> (case sch_expires_at r of None \<Rightarrow> False | Some expiry \<Rightarrow> expiry \<le> sch_created_at r))
          (ScheduleInvalid ''schedule record is invalid''))
       (\<lambda>_. rule_validate ext r))"

section \<open>Constructors\<close>

definition schedule_build ::
  "cron_ext \<Rightarrow> string \<Rightarrow> string \<Rightarrow> int \<Rightarrow> schedule_rule \<Rightarrow> int \<Rightarrow> int option \<Rightarrow> int
   \<Rightarrow> schedule_error + schedule_record" where
  "schedule_build ext i prompt scheduled rule created expires jitter =
     (let r = \<lparr>sch_id = i, sch_prompt = prompt, sch_scheduled_at = scheduled, sch_rule = rule,
               sch_created_at = created, sch_expires_at = expires, sch_jitter = jitter\<rparr>
      in and_then (schedule_validate ext r) (\<lambda>_. Inr r))"

text \<open>The creation time a delay implies, kept above zero.\<close>

definition implied_creation :: "int \<Rightarrow> nat \<Rightarrow> int" where
  "implied_creation scheduled delay =
     max 0 (saturate_i64 (scheduled - (if int delay \<le> i64_max then int delay else i64_max)))"

definition schedule_after ::
  "cron_ext \<Rightarrow> string \<Rightarrow> string \<Rightarrow> nat \<Rightarrow> int \<Rightarrow> schedule_error + schedule_record" where
  "schedule_after ext i prompt delay scheduled =
     schedule_build ext i prompt scheduled (RuleAfter delay) (implied_creation scheduled delay) None 0"

definition schedule_at ::
  "cron_ext \<Rightarrow> string \<Rightarrow> string \<Rightarrow> int \<Rightarrow> schedule_error + schedule_record" where
  "schedule_at ext i prompt scheduled = schedule_build ext i prompt scheduled RuleAt 0 None 0"

definition schedule_every ::
  "cron_ext \<Rightarrow> string \<Rightarrow> string \<Rightarrow> nat \<Rightarrow> int \<Rightarrow> schedule_error + schedule_record" where
  "schedule_every ext i prompt every scheduled =
     schedule_build ext i prompt scheduled (RuleEvery every) (implied_creation scheduled every) None 0"

definition schedule_cron ::
  "cron_ext \<Rightarrow> string \<Rightarrow> string \<Rightarrow> string \<Rightarrow> bool \<Rightarrow> int \<Rightarrow> schedule_error + schedule_record" where
  "schedule_cron ext i prompt expression recurring created =
     and_then (refuse_if (created < 0) (ScheduleInvalid ''schedule creation time is invalid'')) (\<lambda>_.
     and_then (cron_parse expression) (\<lambda>spec.
     and_then (next_cron_target ext i spec created recurring) (\<lambda>(scheduled, jitter).
     and_then
       (if recurring
        then and_then (ok_or (ScheduleInvalid ''schedule expiry overflowed'') (expiry_after created))
               (\<lambda>expiry. Inr (Some expiry))
        else Inr None)
       (\<lambda>expires.
       schedule_build ext i prompt scheduled (RuleCron (cs_canonical spec) recurring ZoneLocal)
         created expires jitter))))"

definition schedule_wakeup ::
  "cron_ext \<Rightarrow> string \<Rightarrow> string \<Rightarrow> nat \<Rightarrow> int \<Rightarrow> schedule_error + schedule_record" where
  "schedule_wakeup ext i prompt delay created =
     and_then
       (refuse_if (\<not> wakeup_delay_ok delay \<or> created < 0)
          (ScheduleInvalid ''schedule wakeup delay is invalid'')) (\<lambda>_.
     and_then
       (ok_or (ScheduleInvalid ''schedule wakeup delay is invalid'') (checked_i64 (int delay))) (\<lambda>d.
     and_then
       (ok_or (ScheduleInvalid ''schedule wakeup target overflowed'') (checked_i64 (created + d)))
       (\<lambda>scheduled.
     and_then (ok_or (ScheduleInvalid ''schedule expiry overflowed'') (expiry_after created)) (\<lambda>expiry.
       schedule_build ext i prompt scheduled (RuleWakeup delay) created (Some expiry) 0))))"

text \<open>Whether a record repeats on its own, and whether a dispatch retires it.\<close>

definition schedule_recurring :: "schedule_record \<Rightarrow> bool" where
  "schedule_recurring r \<longleftrightarrow>
     (case sch_rule r of RuleEvery _ \<Rightarrow> True | RuleCron _ recurring _ \<Rightarrow> recurring | _ \<Rightarrow> False)"

definition is_wakeup :: "schedule_record \<Rightarrow> bool" where
  "is_wakeup r \<longleftrightarrow> (case sch_rule r of RuleWakeup _ \<Rightarrow> True | _ \<Rightarrow> False)"

definition one_shot :: "schedule_record \<Rightarrow> bool" where
  "one_shot r \<longleftrightarrow>
     (case sch_rule r of RuleEvery _ \<Rightarrow> False | RuleCron _ recurring _ \<Rightarrow> \<not> recurring | _ \<Rightarrow> True)"

section \<open>Changes\<close>

datatype schedule_change =
    ScheduleCreate nat schedule_record
  | ScheduleDelete nat string
  | ScheduleDispatch nat string int string \<comment> \<open>version, id, accepted at, message\<close>
  | ScheduleReschedule nat string nat int \<comment> \<open>version, id, delay, scheduled at\<close>

definition known_schedule_version :: "nat \<Rightarrow> bool" where
  "known_schedule_version v \<longleftrightarrow>
     v = legacy_schedule_change_version \<or> v = schedule_change_version"

fun needs_version_two :: "schedule_rule \<Rightarrow> bool" where
  "needs_version_two (RuleCron _ _ _) = True"
| "needs_version_two (RuleWakeup _) = True"
| "needs_version_two _ = False"

fun schedule_validate_shape :: "cron_ext \<Rightarrow> schedule_change \<Rightarrow> schedule_error + unit" where
  "schedule_validate_shape ext (ScheduleCreate version schedule) =
     and_then
       (refuse_if (\<not> known_schedule_version version)
          (ScheduleInvalid ''schedule change version is unsupported'')) (\<lambda>_.
     and_then
       (refuse_if (version = legacy_schedule_change_version \<and> needs_version_two (sch_rule schedule))
          (ScheduleInvalid ''new schedule rule requires change version two''))
       (\<lambda>_. schedule_validate ext schedule))"
| "schedule_validate_shape ext (ScheduleDelete version i) =
     and_then
       (refuse_if (\<not> known_schedule_version version)
          (ScheduleInvalid ''schedule change version is unsupported''))
       (\<lambda>_. schedule_id_validate i)"
| "schedule_validate_shape ext (ScheduleDispatch version i accepted message) =
     and_then
       (refuse_if (\<not> known_schedule_version version)
          (ScheduleInvalid ''schedule change version is unsupported'')) (\<lambda>_.
     and_then (schedule_id_validate i) (\<lambda>_.
       refuse_if (accepted < 0 \<or> \<not> is_ok (inbox_id_new message))
         (ScheduleInvalid ''schedule dispatch is invalid'')))"
| "schedule_validate_shape ext (ScheduleReschedule version i delay scheduled) =
     and_then
       (refuse_if (\<not> known_schedule_version version \<or> version \<noteq> schedule_change_version)
          (ScheduleInvalid ''schedule change version is unsupported'')) (\<lambda>_.
     and_then (schedule_id_validate i) (\<lambda>_.
       refuse_if (\<not> wakeup_delay_ok delay \<or> scheduled < 0)
         (ScheduleInvalid ''schedule wakeup reschedule is invalid'')))"

section \<open>Constructors of changes\<close>

definition change_create :: "schedule_record \<Rightarrow> schedule_change" where
  "change_create r = ScheduleCreate schedule_change_version r"

definition change_delete :: "string \<Rightarrow> schedule_change" where
  "change_delete i = ScheduleDelete schedule_change_version i"

definition change_dispatch ::
  "cron_ext \<Rightarrow> string \<Rightarrow> int \<Rightarrow> string \<Rightarrow> schedule_error + schedule_change" where
  "change_dispatch ext i accepted message =
     (let change = ScheduleDispatch schedule_change_version i accepted message
      in and_then (schedule_validate_shape ext change) (\<lambda>_. Inr change))"

definition change_reschedule ::
  "cron_ext \<Rightarrow> string \<Rightarrow> nat \<Rightarrow> int \<Rightarrow> schedule_error + schedule_change" where
  "change_reschedule ext i delay scheduled =
     (let change = ScheduleReschedule schedule_change_version i delay scheduled
      in and_then (schedule_validate_shape ext change) (\<lambda>_. Inr change))"

end
