(* ===== verification/Review_State.thy ===== *)
theory Review_State
  imports Session_Creation
begin

text \<open>
  Review runs and finding reports (\<open>heycode-session/src/review.rs\<close>): what a durable change
  carries, the constructors that check it, and the check that replay repeats. A path is its UTF-8
  text; \<open>Path::components\<close> is modelled for Unix.
\<close>

section \<open>Text\<close>

datatype review_error = ReviewInvalidId | ReviewInvalidText | ReviewInvalidLocation | ReviewInvalidChange

definition max_patch_bytes :: nat where
  "max_patch_bytes = 1024 * 1024"

definition max_instructions_bytes :: nat where
  "max_instructions_bytes = 64 * 1024"

definition max_summary_bytes :: nat where
  "max_summary_bytes = 64 * 1024"

definition max_findings :: nat where
  "max_findings = 256"

definition max_finding_body_bytes :: nat where
  "max_finding_body_bytes = 16 * 1024"

definition max_reported_findings :: nat where
  "max_reported_findings = 128"

definition max_reported_field_bytes :: nat where
  "max_reported_field_bytes = 8 * 1024"

definition max_report_text_bytes :: nat where
  "max_report_text_bytes = 256 * 1024"

definition review_valid_id :: "string \<Rightarrow> bool" where
  "review_valid_id v \<longleftrightarrow>
     v \<noteq> [] \<and> length v \<le> 128 \<and> trim v = v \<and> \<not> has_control v \<and> \<not> has_whitespace v"

fun no_double_dash :: "string \<Rightarrow> bool" where
  "no_double_dash (a # b # cs) = (\<not> (a = CHR ''-'' \<and> b = CHR ''-'') \<and> no_double_dash (b # cs))"
| "no_double_dash _ = True"

definition review_runtime_ok :: "string \<Rightarrow> bool" where
  "review_runtime_ok v \<longleftrightarrow>
     v \<noteq> [] \<and> length v \<le> 64
     \<and> list_all (\<lambda>b. is_ascii_lowercase b \<or> is_ascii_digit b \<or> b = CHR ''-'') v
     \<and> hd v \<noteq> CHR ''-'' \<and> last v \<noteq> CHR ''-'' \<and> no_double_dash v"

definition lower_hex :: "string \<Rightarrow> bool" where
  "lower_hex v \<longleftrightarrow> list_all (\<lambda>b. is_ascii_digit b \<or> byte_in 97 102 b) v"

definition valid_git_oid :: "string \<Rightarrow> bool" where
  "valid_git_oid v \<longleftrightarrow> (length v = 40 \<or> length v = 64) \<and> lower_hex v"

definition valid_revision :: "string \<Rightarrow> bool" where
  "valid_revision v \<longleftrightarrow> length v = 64 \<and> lower_hex v"

definition review_one_line :: "string \<Rightarrow> nat \<Rightarrow> bool" where
  "review_one_line v maximum \<longleftrightarrow> v \<noteq> [] \<and> length v \<le> maximum \<and> trim v = v \<and> \<not> has_control v"

definition review_body :: "string \<Rightarrow> nat \<Rightarrow> bool" where
  "review_body v maximum \<longleftrightarrow> \<not> is_blank v \<and> length v \<le> maximum \<and> \<not> contains_nul v"

definition valid_untrusted_text :: "string \<Rightarrow> nat \<Rightarrow> bool" where
  "valid_untrusted_text v maximum \<longleftrightarrow>
     v \<noteq> [] \<and> length v \<le> maximum \<and> trim v = v \<and> \<not> has_control v"

definition valid_category :: "string \<Rightarrow> bool" where
  "valid_category v \<longleftrightarrow>
     v \<noteq> [] \<and> length v \<le> 40
     \<and> list_all (\<lambda>part. part \<noteq> [] \<and> list_all (\<lambda>b. is_ascii_lowercase b \<or> is_ascii_digit b) part)
         (split_on (CHR ''-'') v)"

text \<open>A component is \<open>Normal\<close> unless it is \<open>..\<close>, or a leading \<open>.\<close>.\<close>

definition components_normal :: "string \<Rightarrow> bool" where
  "components_normal path \<longleftrightarrow>
     (let parts = split_on (CHR ''/'') path in hd parts \<noteq> ''.'' \<and> ''..'' \<notin> set parts)"

definition valid_relative_path :: "string \<Rightarrow> bool" where
  "valid_relative_path v \<longleftrightarrow>
     v \<noteq> [] \<and> length v \<le> 4096 \<and> CHR 0x5C \<notin> set v \<and> CHR '':'' \<notin> set v
     \<and> \<not> has_control v \<and> hd v \<noteq> CHR ''/'' \<and> components_normal v"

section \<open>Reported findings\<close>

datatype review_severity = SeverityCritical | SeverityHigh | SeverityMedium | SeverityLow

datatype review_level = LevelLow | LevelMedium | LevelHigh | LevelXhigh | LevelMax

datatype finding_verdict = VerdictConfirmed | VerdictPlausible

datatype finding_outcome = FindingFixed | FindingSkipped | FindingNoChangeNeeded

record report_source =
  rso_session_id :: string
  rso_workspace_revision :: nat
  rso_root_index :: nat
  rso_cwd :: "string option"

definition report_source_validate :: "report_source \<Rightarrow> review_error + unit" where
  "report_source_validate s =
     refuse_if
       (\<not> review_valid_id (rso_session_id s) \<or> 64 \<le> rso_root_index s
        \<or> (case rso_cwd s of None \<Rightarrow> False | Some cwd \<Rightarrow> \<not> valid_relative_path cwd))
       ReviewInvalidLocation"

record reported_finding =
  rf_id :: string
  rf_severity :: review_severity
  rf_path :: string
  rf_line_start :: nat
  rf_line_end :: nat
  rf_revision :: string
  rf_title :: string
  rf_trigger :: string
  rf_failure :: string
  rf_impact :: string
  rf_category :: "string option"
  rf_verdict :: "finding_verdict option"
  rf_outcome :: "finding_outcome option"

definition location_ok :: "string \<Rightarrow> nat \<Rightarrow> nat \<Rightarrow> bool" where
  "location_ok path line_start line_end \<longleftrightarrow>
     valid_relative_path path \<and> line_start \<noteq> 0 \<and> line_start \<le> line_end"

definition reported_finding_validate :: "reported_finding \<Rightarrow> review_error + unit" where
  "reported_finding_validate f =
     and_then (refuse_if (\<not> review_valid_id (rf_id f)) ReviewInvalidId) (\<lambda>_.
     and_then
       (refuse_if (\<not> location_ok (rf_path f) (rf_line_start f) (rf_line_end f)) ReviewInvalidLocation)
       (\<lambda>_.
     and_then (refuse_if (\<not> valid_revision (rf_revision f)) ReviewInvalidId) (\<lambda>_.
       refuse_if
         (\<not> review_one_line (rf_title f) 256
          \<or> \<not> valid_untrusted_text (rf_trigger f) max_reported_field_bytes
          \<or> \<not> valid_untrusted_text (rf_failure f) max_reported_field_bytes
          \<or> \<not> valid_untrusted_text (rf_impact f) max_reported_field_bytes
          \<or> (case rf_category f of None \<Rightarrow> False | Some c \<Rightarrow> \<not> valid_category c))
         ReviewInvalidText)))"

definition same_reported_content :: "reported_finding \<Rightarrow> reported_finding \<Rightarrow> bool" where
  "same_reported_content a b \<longleftrightarrow>
     rf_severity a = rf_severity b \<and> rf_path a = rf_path b
     \<and> rf_line_start a = rf_line_start b \<and> rf_line_end a = rf_line_end b
     \<and> rf_revision a = rf_revision b \<and> rf_title a = rf_title b \<and> rf_trigger a = rf_trigger b
     \<and> rf_failure a = rf_failure b \<and> rf_impact a = rf_impact b"

record finding_report =
  fr_id :: string
  fr_source :: report_source
  fr_level :: "review_level option"
  fr_findings :: "reported_finding list"

definition finding_bytes :: "reported_finding \<Rightarrow> nat" where
  "finding_bytes f =
     length (rf_title f) + length (rf_trigger f) + length (rf_failure f) + length (rf_impact f)
     + (case rf_category f of None \<Rightarrow> 0 | Some c \<Rightarrow> length c)"

text \<open>The loop over the findings, with those before the current one and the bytes so far.\<close>

fun findings_validate ::
  "reported_finding list \<Rightarrow> nat \<Rightarrow> reported_finding list \<Rightarrow> review_error + nat" where
  "findings_validate prior bytes [] = Inr bytes"
| "findings_validate prior bytes (f # fs) =
     and_then (reported_finding_validate f) (\<lambda>_.
     and_then
       (refuse_if
          (rf_id f \<in> rf_id ` set prior \<or> list_ex (\<lambda>p. same_reported_content p f) prior)
          ReviewInvalidChange) (\<lambda>_.
     and_then (ok_or ReviewInvalidChange (checked_add_u64 bytes (finding_bytes f))) (\<lambda>bytes'.
       findings_validate (prior @ [f]) bytes' fs)))"

definition report_validate :: "finding_report \<Rightarrow> review_error + unit" where
  "report_validate r =
     and_then (report_source_validate (fr_source r)) (\<lambda>_.
     and_then
       (refuse_if (fr_findings r = [] \<or> max_reported_findings < length (fr_findings r))
          ReviewInvalidChange) (\<lambda>_.
     and_then (findings_validate [] 0 (fr_findings r)) (\<lambda>bytes.
       refuse_if (max_report_text_bytes < bytes) ReviewInvalidChange)))"

section \<open>Review runs\<close>

record review_finding =
  vf_id :: string
  vf_severity :: review_severity
  vf_path :: string
  vf_line_start :: nat
  vf_line_end :: nat
  vf_title :: string
  vf_body :: string

definition review_finding_new :: "review_finding \<Rightarrow> review_error + review_finding" where
  "review_finding_new f =
     and_then (refuse_if (\<not> review_valid_id (vf_id f)) ReviewInvalidId) (\<lambda>_.
     and_then
       (refuse_if (\<not> location_ok (vf_path f) (vf_line_start f) (vf_line_end f)) ReviewInvalidLocation)
       (\<lambda>_.
     and_then
       (refuse_if
          (\<not> review_one_line (vf_title f) 256 \<or> \<not> review_body (vf_body f) max_finding_body_bytes)
          ReviewInvalidText)
       (\<lambda>_. Inr f)))"

datatype review_failure =
    FailedCancelled | FailedRuntime | FailedInvalidOutput | FailedMutationDetected
  | FailedWorkspace

datatype review_change =
    ReviewStarted nat string string string string string
      \<comment> \<open>version, run, runtime, base commit, patch, instructions\<close>
  | ReviewCompleted nat string string string "review_finding list"
      \<comment> \<open>version, run, child session, summary, findings\<close>
  | ReviewFailed nat string review_failure
  | ReviewReported nat finding_report

definition review_input_ok :: "string \<Rightarrow> string \<Rightarrow> bool" where
  "review_input_ok patch instructions \<longleftrightarrow>
     length patch \<le> max_patch_bytes \<and> \<not> contains_nul patch
     \<and> length instructions \<le> max_instructions_bytes \<and> \<not> contains_nul instructions"

definition settlement_ok :: "string \<Rightarrow> string \<Rightarrow> review_finding list \<Rightarrow> bool" where
  "settlement_ok child summary findings \<longleftrightarrow>
     review_valid_id child \<and> review_body summary max_summary_bytes
     \<and> length findings \<le> max_findings \<and> \<not> has_repeat (map vf_id findings)"

definition review_started ::
  "string \<Rightarrow> string \<Rightarrow> string \<Rightarrow> string \<Rightarrow> string \<Rightarrow> review_error + review_change" where
  "review_started run runtime base patch instructions =
     and_then
       (refuse_if (\<not> review_runtime_ok runtime \<or> \<not> valid_git_oid base) ReviewInvalidId) (\<lambda>_.
     and_then (refuse_if (\<not> review_input_ok patch instructions) ReviewInvalidText) (\<lambda>_.
       Inr (ReviewStarted 1 run runtime base patch instructions)))"

definition review_completed ::
  "string \<Rightarrow> string \<Rightarrow> string \<Rightarrow> review_finding list \<Rightarrow> review_error + review_change" where
  "review_completed run child summary findings =
     and_then (refuse_if (\<not> settlement_ok child summary findings) ReviewInvalidChange) (\<lambda>_.
       Inr (ReviewCompleted 1 run child summary findings))"

definition review_reported :: "finding_report \<Rightarrow> review_error + review_change" where
  "review_reported r = and_then (report_validate r) (\<lambda>_. Inr (ReviewReported 1 r))"

fun review_validate_shape :: "review_change \<Rightarrow> review_error + unit" where
  "review_validate_shape (ReviewStarted version run runtime base patch instructions) =
     refuse_if
       (\<not> (version = 1 \<and> review_runtime_ok runtime \<and> valid_git_oid base
           \<and> review_input_ok patch instructions)) ReviewInvalidChange"
| "review_validate_shape (ReviewCompleted version run child summary findings) =
     refuse_if (\<not> (version = 1 \<and> settlement_ok child summary findings)) ReviewInvalidChange"
| "review_validate_shape (ReviewFailed version run reason) =
     refuse_if (version \<noteq> 1) ReviewInvalidChange"
| "review_validate_shape (ReviewReported version r) =
     (if version = 1 then report_validate r else Inl ReviewInvalidChange)"

text \<open>What the constructors build has the shape that replay demands.\<close>

lemma review_built:
  "review_started run runtime base patch instructions = Inr c \<Longrightarrow> review_validate_shape c = Inr ()"
  "review_completed run child summary findings = Inr c' \<Longrightarrow> review_validate_shape c' = Inr ()"
  "review_reported r = Inr c'' \<Longrightarrow> review_validate_shape c'' = Inr ()"
  by (auto simp: review_started_def review_completed_def review_reported_def)

section \<open>Constructors of findings and reports\<close>

definition workspace_source ::
  "string \<Rightarrow> nat \<Rightarrow> nat \<Rightarrow> string option \<Rightarrow> review_error + report_source" where
  "workspace_source session revision root cwd =
     (let s = \<lparr>rso_session_id = session, rso_workspace_revision = revision, rso_root_index = root, rso_cwd = cwd\<rparr>
      in and_then (report_source_validate s) (\<lambda>_. Inr s))"

text \<open>The optional dimensions are attached to a finding that has none and checked again.\<close>

definition reported_finding_new :: "reported_finding \<Rightarrow> review_error + reported_finding" where
  "reported_finding_new f =
     (let g = f\<lparr>rf_category := None, rf_verdict := None, rf_outcome := None\<rparr>
      in and_then (reported_finding_validate g) (\<lambda>_. Inr g))"

definition with_reference_dimensions ::
  "string option \<Rightarrow> finding_verdict option \<Rightarrow> finding_outcome option \<Rightarrow> reported_finding
   \<Rightarrow> review_error + reported_finding" where
  "with_reference_dimensions category verdict result f =
     (let g = f\<lparr>rf_category := category, rf_verdict := verdict, rf_outcome := result\<rparr>
      in and_then (reported_finding_validate g) (\<lambda>_. Inr g))"

definition report_new ::
  "string \<Rightarrow> report_source \<Rightarrow> reported_finding list \<Rightarrow> review_error + finding_report" where
  "report_new i source findings =
     (let r = \<lparr>fr_id = i, fr_source = source, fr_level = None, fr_findings = findings\<rparr>
      in and_then (report_validate r) (\<lambda>_. Inr r))"

definition with_level :: "review_level \<Rightarrow> finding_report \<Rightarrow> finding_report" where
  "with_level level r = r\<lparr>fr_level := Some level\<rparr>"

end
