(* ===== verification/Provider_Vocab.thy ===== *)
theory Provider_Vocab
  imports Work_Item Text_Parsing "HOL-Library.Multiset"
begin

text \<open>
  Vocabulary shared by tools and model adapters (\<open>heycode-core/src/vocab.rs\<close>): tool
  schemas and their canonical order, provider continuation state, provider request options and
  native tool routes, each with its validator. The prose of an error is left out, its field kept.
  \<open>serde_json::to_vec\<close> is the argument \<open>json_len\<close>, which gives the length.
\<close>

section \<open>Tool schemas\<close>

record tool_spec =
  ts_name :: string
  ts_description :: string
  ts_parameters :: json

fun canonicalize_json :: "json \<Rightarrow> json" where
  "canonicalize_json (JObject kvs) =
     JObject (map (\<lambda>kv. (fst kv, canonicalize_json (snd kv))) (sort_key fst kvs))"
| "canonicalize_json (JArray js) = JArray (map canonicalize_json js)"
| "canonicalize_json j = j"

definition canonical_tool_specs :: "tool_spec list \<Rightarrow> tool_spec list" where
  "canonical_tool_specs tools =
     map (\<lambda>t. t\<lparr>ts_parameters := canonicalize_json (ts_parameters t)\<rparr>) (sort_key ts_name tools)"

record token_usage =
  tu_prompt :: nat
  tu_completion :: nat

section \<open>Identifiers\<close>

definition safe_option_id :: "string \<Rightarrow> bool" where
  "safe_option_id s \<longleftrightarrow>
     s \<noteq> [] \<and> is_ascii_lowercase (hd s)
     \<and> list_all (\<lambda>b. is_ascii_lowercase b \<or> is_ascii_digit b \<or> b = CHR ''-'') s \<and> length s \<le> 64"

definition safe_logical_tool_id :: "string \<Rightarrow> bool" where
  "safe_logical_tool_id s \<longleftrightarrow>
     s \<noteq> [] \<and> is_ascii_lowercase (hd s)
     \<and> list_all (\<lambda>b. is_ascii_lowercase b \<or> is_ascii_digit b \<or> b = CHR ''_'') s \<and> length s \<le> 64"

definition implementation_byte :: "char \<Rightarrow> bool" where
  "implementation_byte b \<longleftrightarrow> is_ascii_lowercase b \<or> is_ascii_digit b \<or> b \<in> set ''_-:/.''"

definition safe_implementation_id :: "string \<Rightarrow> bool" where
  "safe_implementation_id s \<longleftrightarrow>
     s \<noteq> [] \<and> length s \<le> 128 \<and> trim s = s \<and> list_all implementation_byte s"

section \<open>Provider request options\<close>

record provider_option =
  po_provider :: string
  po_kind :: string
  po_schema :: nat
  po_data :: json

datatype provider_option_error = InvalidOptionField string

definition option_key_unsafe :: "string \<Rightarrow> bool" where
  "option_key_unsafe key \<longleftrightarrow> key = [] \<or> 128 < length key \<or> trim key \<noteq> key \<or> has_control key"

fun validate_provider_option_value :: "json \<Rightarrow> provider_option_error + unit" where
  "validate_provider_option_value (JObject kvs) =
     try_all (\<lambda>kv.
       and_then (refuse_if (option_key_unsafe (fst kv)) (InvalidOptionField ''data'')) (\<lambda>_.
         validate_provider_option_value (snd kv))) kvs"
| "validate_provider_option_value (JArray js) = try_all validate_provider_option_value js"
| "validate_provider_option_value (JString s) =
     refuse_if (4 * 1024 < length s \<or> has_control s) (InvalidOptionField ''data'')"
| "validate_provider_option_value _ = Inr ()"

definition provider_option_validate ::
  "(json \<Rightarrow> nat option) \<Rightarrow> provider_option \<Rightarrow> provider_option_error + unit" where
  "provider_option_validate json_len p =
     and_then (refuse_if (\<not> safe_option_id (po_provider p)) (InvalidOptionField ''provider'')) (\<lambda>_.
     and_then (refuse_if (\<not> safe_option_id (po_kind p)) (InvalidOptionField ''kind'')) (\<lambda>_.
     and_then (refuse_if (po_schema p \<noteq> 1) (InvalidOptionField ''schema_version'')) (\<lambda>_.
     and_then (refuse_if (\<not> is_json_object (po_data p)) (InvalidOptionField ''data'')) (\<lambda>_.
     and_then (validate_provider_option_value (po_data p)) (\<lambda>_.
     and_then (ok_or (InvalidOptionField ''data'') (json_len (po_data p))) (\<lambda>n.
       refuse_if (64 * 1024 < n) (InvalidOptionField ''data'')))))))"

definition provider_option_new ::
  "(json \<Rightarrow> nat option) \<Rightarrow> string \<Rightarrow> string \<Rightarrow> json \<Rightarrow> provider_option_error + provider_option" where
  "provider_option_new json_len provider kind data =
     (let p = \<lparr>po_provider = provider, po_kind = kind, po_schema = 1, po_data = data\<rparr>
      in and_then (provider_option_validate json_len p) (\<lambda>_. Inr p))"

section \<open>Native tool routes\<close>

datatype implementation_kind = ByProvider | ByClient | ByMcp

record native_route =
  nr_logical :: string
  nr_implementation :: string
  nr_kind :: implementation_kind
  nr_provider :: "string option"

datatype native_route_error = InvalidRouteField string

definition native_route_validate :: "native_route \<Rightarrow> native_route_error + unit" where
  "native_route_validate r =
     and_then (refuse_if (\<not> safe_logical_tool_id (nr_logical r)) (InvalidRouteField ''logical'')) (\<lambda>_.
     and_then
       (refuse_if (\<not> safe_implementation_id (nr_implementation r)) (InvalidRouteField ''implementation''))
       (\<lambda>_.
       case (nr_kind r, nr_provider r) of
         (ByProvider, Some p) \<Rightarrow> refuse_if (\<not> safe_option_id p) (InvalidRouteField ''provider'')
       | (ByProvider, None) \<Rightarrow> Inl (InvalidRouteField ''provider'')
       | (_, None) \<Rightarrow> Inr ()
       | (_, Some p) \<Rightarrow> Inl (InvalidRouteField ''provider'')))"

definition native_route_new ::
  "string \<Rightarrow> string \<Rightarrow> implementation_kind \<Rightarrow> string option \<Rightarrow> native_route_error + native_route" where
  "native_route_new logical implementation kind provider =
     (let r = \<lparr>nr_logical = logical, nr_implementation = implementation, nr_kind = kind,
               nr_provider = provider\<rparr>
      in and_then (native_route_validate r) (\<lambda>_. Inr r))"

section \<open>Provider continuation state\<close>

datatype provider_protocol =
    ProtocolUnknown | OpenAiChatCompletions | OpenAiResponses | AnthropicMessages
  | GeminiGenerateContent | BedrockConverse | DelegatedAgent

datatype provider_state_kind =
    ResponseOutputItem | ChatAssistantMessage | AnthropicMessage | GeminiModelContent
  | BedrockConverseMessage

record provider_state =
  ps_provider :: string
  ps_model :: string
  ps_protocol :: provider_protocol
  ps_kind :: provider_state_kind
  ps_schema :: nat
  ps_data :: json

datatype provider_state_error =
    InvalidStateField string
  | ProtocolKindMismatch provider_protocol provider_state_kind

abbreviation bad_data :: provider_state_error where
  "bad_data \<equiv> InvalidStateField ''data''"

fun compatible_state :: "provider_protocol \<Rightarrow> provider_state_kind \<Rightarrow> bool" where
  "compatible_state OpenAiResponses ResponseOutputItem = True"
| "compatible_state OpenAiChatCompletions ChatAssistantMessage = True"
| "compatible_state AnthropicMessages AnthropicMessage = True"
| "compatible_state GeminiGenerateContent GeminiModelContent = True"
| "compatible_state BedrockConverse BedrockConverseMessage = True"
| "compatible_state _ _ = False"

text \<open>\<open>data.get(key).and_then(as_str)\<close> and the two other views of a member.\<close>

fun as_array :: "json \<Rightarrow> json list option" where
  "as_array (JArray js) = Some js"
| "as_array _ = None"

fun as_object :: "json \<Rightarrow> (string \<times> json) list option" where
  "as_object (JObject kvs) = Some kvs"
| "as_object _ = None"

definition json_member :: "(json \<Rightarrow> 'a option) \<Rightarrow> (string \<times> json) list \<Rightarrow> string \<Rightarrow> 'a option" where
  "json_member view kvs key = Option.bind (map_of kvs key) view"

definition member_text_ok :: "(string \<Rightarrow> bool) \<Rightarrow> (string \<times> json) list \<Rightarrow> string \<Rightarrow> bool" where
  "member_text_ok ok kvs key = (case json_member json_as_str kvs key of None \<Rightarrow> False | Some s \<Rightarrow> ok s)"

definition keys_within :: "string list \<Rightarrow> (string \<times> json) list \<Rightarrow> bool" where
  "keys_within allowed kvs = list_all (\<lambda>kv. fst kv \<in> set allowed) kvs"

definition safe_text :: "string \<Rightarrow> bool" where
  "safe_text s \<longleftrightarrow> s \<noteq> [] \<and> \<not> has_control s"

definition value_safe_text :: "json \<Rightarrow> bool" where
  "value_safe_text v = (case json_as_str v of None \<Rightarrow> False | Some s \<Rightarrow> safe_text s)"

definition reasoning_block_ok :: "json \<Rightarrow> bool" where
  "reasoning_block_ok reasoning =
     (case as_object reasoning of
        None \<Rightarrow> False
      | Some kvs \<Rightarrow>
          kvs \<noteq> [] \<and> keys_within [''text'', ''signature'', ''redactedContent''] kvs
          \<and> list_all (\<lambda>kv. value_safe_text (snd kv)) kvs)"

definition tool_use_block_ok :: "json \<Rightarrow> bool" where
  "tool_use_block_ok tool =
     (case as_object tool of
        None \<Rightarrow> False
      | Some kvs \<Rightarrow>
          keys_within [''toolUseId'', ''name'', ''input''] kvs
          \<and> member_text_ok safe_text kvs ''toolUseId'' \<and> member_text_ok safe_text kvs ''name''
          \<and> (case map_of kvs ''input'' of None \<Rightarrow> False | Some input \<Rightarrow> is_json_object input))"

definition validate_bedrock_state_block :: "json \<Rightarrow> provider_state_error + unit" where
  "validate_bedrock_state_block block =
     (case as_object block of
        None \<Rightarrow> Inl bad_data
      | Some kvs \<Rightarrow>
          if length kvs \<noteq> 1 then Inl bad_data
          else case map_of kvs ''text'' of
            Some txt \<Rightarrow> refuse_if (\<not> value_safe_text txt) bad_data
          | None \<Rightarrow>
              (case map_of kvs ''reasoningContent'' of
                 Some reasoning \<Rightarrow> refuse_if (\<not> reasoning_block_ok reasoning) bad_data
               | None \<Rightarrow>
                   (case map_of kvs ''toolUse'' of
                      Some tool \<Rightarrow> refuse_if (\<not> tool_use_block_ok tool) bad_data
                    | None \<Rightarrow> Inl bad_data)))"

definition container_ok :: "json \<Rightarrow> bool" where
  "container_ok container =
     (case as_object container of
        None \<Rightarrow> False
      | Some kvs \<Rightarrow>
          member_text_ok (\<lambda>i. i \<noteq> [] \<and> trim i = i) kvs ''id''
          \<and> (case map_of kvs ''expires_at'' of None \<Rightarrow> True | Some v \<Rightarrow> json_as_str v \<noteq> None)
          \<and> (case map_of kvs ''skills'' of None \<Rightarrow> True | Some v \<Rightarrow> as_array v \<noteq> None))"

definition anthropic_block_ok :: "json \<Rightarrow> bool" where
  "anthropic_block_ok block =
     (case as_object block of
        None \<Rightarrow> False
      | Some kvs \<Rightarrow> member_text_ok (\<lambda>v. v \<noteq> [] \<and> trim v = v) kvs ''type'')"

definition role_is :: "string \<Rightarrow> (string \<times> json) list \<Rightarrow> bool" where
  "role_is role kvs \<longleftrightarrow> json_member json_as_str kvs ''role'' = Some role"

fun state_data_validate ::
  "provider_state_kind \<Rightarrow> (string \<times> json) list \<Rightarrow> provider_state_error + unit" where
  "state_data_validate ResponseOutputItem kvs =
     refuse_if (\<not> member_text_ok (\<lambda>s. s \<noteq> []) kvs ''type'') bad_data"
| "state_data_validate ChatAssistantMessage kvs = refuse_if (\<not> role_is ''assistant'' kvs) bad_data"
| "state_data_validate AnthropicMessage kvs =
     and_then (refuse_if (\<not> role_is ''assistant'' kvs) bad_data) (\<lambda>_.
     and_then (ok_or bad_data (json_member as_array kvs ''content'')) (\<lambda>content.
     and_then (refuse_if (\<not> keys_within [''role'', ''content'', ''container''] kvs) bad_data) (\<lambda>_.
     and_then
       (case map_of kvs ''container'' of
          None \<Rightarrow> Inr () | Some c \<Rightarrow> refuse_if (\<not> container_ok c) bad_data) (\<lambda>_.
       try_all (\<lambda>block. refuse_if (\<not> anthropic_block_ok block) bad_data) content))))"
| "state_data_validate GeminiModelContent kvs =
     and_then (refuse_if (\<not> role_is ''model'' kvs) bad_data) (\<lambda>_.
     and_then (ok_or bad_data (json_member as_array kvs ''parts'')) (\<lambda>parts.
     and_then (refuse_if (parts = []) bad_data) (\<lambda>_.
     and_then (refuse_if (\<not> keys_within [''role'', ''parts''] kvs) bad_data) (\<lambda>_.
       try_all (\<lambda>p. refuse_if (\<not> is_json_object p) bad_data) parts))))"
| "state_data_validate BedrockConverseMessage kvs =
     and_then (refuse_if (\<not> role_is ''assistant'' kvs) bad_data) (\<lambda>_.
     and_then (refuse_if (\<not> keys_within [''role'', ''content''] kvs) bad_data) (\<lambda>_.
     and_then (ok_or bad_data (json_member as_array kvs ''content'')) (\<lambda>content.
     and_then (refuse_if (content = []) bad_data) (\<lambda>_.
       try_all validate_bedrock_state_block content))))"

definition provider_state_validate :: "provider_state \<Rightarrow> provider_state_error + unit" where
  "provider_state_validate p =
     and_then
       (refuse_if (ps_provider p = [] \<or> trim (ps_provider p) \<noteq> ps_provider p)
          (InvalidStateField ''provider'')) (\<lambda>_.
     and_then
       (refuse_if (ps_model p = [] \<or> trim (ps_model p) \<noteq> ps_model p)
          (InvalidStateField ''model'')) (\<lambda>_.
     and_then (refuse_if (ps_schema p \<noteq> 1) (InvalidStateField ''schema_version'')) (\<lambda>_.
     and_then (ok_or bad_data (as_object (ps_data p))) (\<lambda>kvs.
     and_then
       (refuse_if (\<not> compatible_state (ps_protocol p) (ps_kind p))
          (ProtocolKindMismatch (ps_protocol p) (ps_kind p))) (\<lambda>_.
       state_data_validate (ps_kind p) kvs)))))"

definition provider_state_new ::
  "string \<Rightarrow> string \<Rightarrow> provider_protocol \<Rightarrow> provider_state_kind \<Rightarrow> json
   \<Rightarrow> provider_state_error + provider_state" where
  "provider_state_new provider model protocol kind data =
     (let p = \<lparr>ps_provider = provider, ps_model = model, ps_protocol = protocol, ps_kind = kind,
               ps_schema = 1, ps_data = data\<rparr>
      in and_then (provider_state_validate p) (\<lambda>_. Inr p))"

section \<open>Canonical form\<close>

text \<open>Equality up to the order of object members, and values whose objects repeat no key.\<close>

inductive json_same :: "json \<Rightarrow> json \<Rightarrow> bool" where
  same_atom: "json_same j j"
| same_array: "list_all2 json_same js ks \<Longrightarrow> json_same (JArray js) (JArray ks)"
| same_object:
    "\<lbrakk>list_all2 (\<lambda>a b. fst a = fst b \<and> json_same (snd a) (snd b)) kvs kvs'; mset kvs' = mset kvs''\<rbrakk>
     \<Longrightarrow> json_same (JObject kvs) (JObject kvs'')"

fun no_repeated_keys :: "json \<Rightarrow> bool" where
  "no_repeated_keys (JObject kvs) =
     (distinct (map fst kvs) \<and> list_all (\<lambda>kv. no_repeated_keys (snd kv)) kvs)"
| "no_repeated_keys (JArray js) = list_all no_repeated_keys js"
| "no_repeated_keys _ = True"

abbreviation canonical_member :: "string \<times> json \<Rightarrow> string \<times> json" where
  "canonical_member kv \<equiv> (fst kv, canonicalize_json (snd kv))"

lemma sort_key_distinct_cong:
  fixes xs ys :: "('k::linorder \<times> 'v) list"
  assumes "distinct (map fst xs)" "mset xs = mset ys"
  shows "sort_key fst xs = sort_key fst ys"
proof (rule map_inj_on [of fst])
  have d: "distinct (map fst ys)"
    using assms by (metis mset_map mset_eq_imp_distinct_iff)
  have set_eq: "set xs = set ys" using assms(2) by (rule mset_eq_setD)
  have "sorted (map fst (sort_key fst xs))" "sorted (map fst (sort_key fst ys))" by simp_all
  moreover have "distinct (map fst (sort_key fst zs)) \<longleftrightarrow> distinct (map fst zs)" for zs :: "('k \<times> 'v) list"
    by (metis mset_map mset_sort mset_eq_imp_distinct_iff)
  ultimately show "map fst (sort_key fst xs) = map fst (sort_key fst ys)"
    using assms d set_eq by (intro sorted_distinct_set_unique) simp_all
  show "inj_on fst (set (sort_key fst xs) \<union> set (sort_key fst ys))"
    using assms(1) set_eq by (simp add: distinct_map)
qed

lemma sort_key_map_snd: "sort_key fst (map canonical_member kvs) = map canonical_member (sort_key fst kvs)"
proof -
  have "insort_key fst (canonical_member x) (map canonical_member xs) =
      map canonical_member (insort_key fst x xs)" for x xs
    by (induction xs) auto
  then show ?thesis by (induction kvs) (simp_all add: sort_key_def)
qed

lemma canonicalize_idem: "canonicalize_json (canonicalize_json j) = canonicalize_json j"
proof (induction j rule: canonicalize_json.induct)
  case (1 kvs)
  have "map (\<lambda>kv. (fst kv, canonicalize_json (canonicalize_json (snd kv)))) (sort_key fst kvs) =
      map canonical_member (sort_key fst kvs)"
    using 1 by (auto intro!: map_cong)
  moreover have "sort_key fst (map canonical_member (sort_key fst kvs)) = map canonical_member (sort_key fst kvs)"
    by (simp add: sort_key_map_snd sort_key_id_if_sorted)
  ultimately show ?case by (simp add: comp_def)
qed (auto intro!: map_cong)

lemma canonical_object:
  "canonicalize_json (JObject kvs) = JObject (sort_key fst (map canonical_member kvs))"
  by (simp add: sort_key_map_snd)

lemma json_same_canonical:
  "json_same a b \<Longrightarrow> no_repeated_keys a \<Longrightarrow> canonicalize_json a = canonicalize_json b"
proof (induction rule: json_same.induct)
  case (same_array js ks)
  then show ?case by (auto simp: list_all2_conv_all_nth list_all_length intro!: nth_equalityI)
next
  case (same_object kvs kvs' kvs'')
  have cm: "map canonical_member kvs = map canonical_member kvs'"
    using same_object by (auto simp: list_all2_conv_all_nth list_all_length intro!: nth_equalityI)
  have "mset (map canonical_member kvs) = mset (map canonical_member kvs'')"
    unfolding cm mset_map using same_object.hyps by simp
  moreover have "distinct (map fst (map canonical_member kvs))"
    using same_object.prems by (simp add: comp_def)
  ultimately have "sort_key fst (map canonical_member kvs) = sort_key fst (map canonical_member kvs'')"
    by (rule sort_key_distinct_cong [rotated])
  then show ?case unfolding canonical_object by simp
qed simp

lemma mset_map_pull: "mset xs = mset (map f ys) \<Longrightarrow> \<exists>zs. mset zs = mset ys \<and> map f zs = xs"
proof (induction xs arbitrary: ys)
  case (Cons x xs)
  then have "x \<in> set (map f ys)" by (metis list.set_intros(1) mset_eq_setD)
  then obtain y where y: "y \<in> set ys" "x = f y" by auto
  have "mset ys = add_mset y (mset (remove1 y ys))" using y(1) by simp
  then have "mset (map f ys) = add_mset (f y) (mset (map f (remove1 y ys)))"
    unfolding mset_map by (metis image_mset_add_mset)
  then have "mset xs = mset (map f (remove1 y ys))" using Cons.prems y(2) by simp
  from Cons.IH [OF this] obtain zs where "mset zs = mset (remove1 y ys)" "map f zs = xs" by auto
  with y show ?case by (intro exI [of _ "y # zs"]) simp
qed simp

lemma canonical_json_same: "canonicalize_json a = canonicalize_json b \<Longrightarrow> json_same a b"
proof (induction a arbitrary: b)
  case (JArray js)
  from JArray.prems obtain ks where "b = JArray ks" by (cases b) auto
  with JArray have "map canonicalize_json js = map canonicalize_json ks" by simp
  then have len: "length js = length ks" by (metis length_map)
  have "list_all2 json_same js ks"
    unfolding list_all2_conv_all_nth
  proof (intro conjI len allI impI)
    fix i assume i: "i < length js"
    have "canonicalize_json (js ! i) = canonicalize_json (ks ! i)"
      using \<open>map canonicalize_json js = map canonicalize_json ks\<close> i len by (metis nth_map)
    then show "json_same (js ! i) (ks ! i)" by (rule JArray.IH [OF nth_mem [OF i]])
  qed
  then show ?case unfolding \<open>b = JArray ks\<close> by (rule same_array)
next
  case (JObject kvs)
  from JObject.prems obtain kvs2 where b: "b = JObject kvs2" by (cases b) auto
  have "sort_key fst (map canonical_member kvs) = sort_key fst (map canonical_member kvs2)"
    using JObject.prems unfolding b canonical_object by simp
  then have "mset (sort_key fst (map canonical_member kvs)) = mset (sort_key fst (map canonical_member kvs2))"
    by (rule arg_cong)
  then have "mset (map canonical_member kvs) = mset (map canonical_member kvs2)"
    unfolding mset_sort .
  from mset_map_pull [OF this] obtain kvs' where
    k: "mset kvs' = mset kvs2" "map canonical_member kvs' = map canonical_member kvs" by blast
  have "list_all2 (\<lambda>a b. fst a = fst b \<and> json_same (snd a) (snd b)) kvs kvs'"
    unfolding list_all2_conv_all_nth
  proof (intro conjI allI impI)
    show len: "length kvs = length kvs'" using arg_cong [OF k(2), of length] by simp
    fix i assume i: "i < length kvs"
    have "map canonical_member kvs ! i = map canonical_member kvs' ! i" using k(2) by simp
    then have eq: "fst (kvs ! i) = fst (kvs' ! i)"
      "canonicalize_json (snd (kvs ! i)) = canonicalize_json (snd (kvs' ! i))"
      using i len by simp_all
    show "fst (kvs ! i) = fst (kvs' ! i)" by (rule eq(1))
    show "json_same (snd (kvs ! i)) (snd (kvs' ! i))"
      by (rule JObject.IH [OF nth_mem [OF i] _ eq(2)]) (simp add: prod_set_simps snds.simps)
  qed
  then show ?case unfolding b using k(1) by (rule same_object)
qed (case_tac b; auto intro: same_atom)+

end
