(* ===== verification/Attachment.thy ===== *)
theory Attachment
  imports Text_Parsing
begin

text \<open>
  Attachment metadata and document routes (\<open>heycode-core/src/attachment.rs\<close>). The wrapped
  strings and records are values their constructors accepted; \<open>validate\<close> rechecks what the
  code rechecks. \<open>Url::parse\<close> of the url crate is the argument \<open>parse_url\<close>, which
  returns the parts the code asks for.
\<close>

section \<open>Bounds\<close>

definition max_attachment_bytes :: nat where
  "max_attachment_bytes = 64 * 1024 * 1024"

definition max_image_dimension :: nat where
  "max_image_dimension = 32768"

definition max_image_pixels :: nat where
  "max_image_pixels = 100000000"

definition max_audio_duration_ms :: nat where
  "max_audio_duration_ms = 24 * 60 * 60 * 1000"

datatype attachment_error =
    InvalidContentId | InvalidMediaType | InvalidDimensions | InvalidByteLength
  | InvalidDisplayName | IncoherentDimensions | IncoherentAudioMetadata | InvalidAudioMetadata
  | InvalidSource | InvalidDocumentRoute

section \<open>Content addresses and media types\<close>

definition is_lower_hex :: "char \<Rightarrow> bool" where
  "is_lower_hex b \<longleftrightarrow> is_ascii_digit b \<or> byte_in 97 102 b"

definition content_id_new :: "string \<Rightarrow> attachment_error + string" where
  "content_id_new s =
     and_then (ok_or InvalidContentId (strip_prefix ''sha256-'' s)) (\<lambda>hex.
     and_then (refuse_if (length hex \<noteq> 64 \<or> \<not> list_all is_lower_hex hex) InvalidContentId) (\<lambda>_.
       Inr s))"

definition hex_digit :: "nat \<Rightarrow> char" where
  "hex_digit n = ''0123456789abcdef'' ! n"

definition hex_byte :: "char \<Rightarrow> string" where
  "hex_byte b = [hex_digit (byte_val b div 16), hex_digit (byte_val b mod 16)]"

definition hex_of :: "string \<Rightarrow> string" where
  "hex_of bytes = concat (map hex_byte bytes)"

definition content_id_from_sha256 :: "string \<Rightarrow> string" where
  "content_id_from_sha256 digest = ''sha256-'' @ hex_of digest"

definition byte_to_lower :: "char \<Rightarrow> char" where
  "byte_to_lower c = (if is_ascii_uppercase c then char_of (byte_val c + 32) else c)"

definition mime_byte :: "char \<Rightarrow> bool" where
  "mime_byte b \<longleftrightarrow> is_ascii_lowercase b \<or> is_ascii_digit b \<or> b \<in> set ''!#$&^_.+-''"

definition valid_mime_token :: "string \<Rightarrow> bool" where
  "valid_mime_token s \<longleftrightarrow> s \<noteq> [] \<and> list_all mime_byte s"

definition media_type_new :: "string \<Rightarrow> attachment_error + string" where
  "media_type_new s =
     and_then
       (refuse_if (s = [] \<or> 127 < length s \<or> trim s \<noteq> s \<or> \<not> list_all (\<lambda>c. byte_val c < 128) s)
          InvalidMediaType) (\<lambda>_.
     and_then (ok_or InvalidMediaType (split_once (CHR ''/'') (map byte_to_lower s))) (\<lambda>(top, sub).
     and_then
       (refuse_if (CHR ''/'' \<in> set sub \<or> \<not> valid_mime_token top \<or> \<not> valid_mime_token sub)
          InvalidMediaType) (\<lambda>_.
       Inr (map byte_to_lower s))))"

definition media_is_image :: "string \<Rightarrow> bool" where
  "media_is_image m \<longleftrightarrow> take 6 m = ''image/''"

definition media_is_audio :: "string \<Rightarrow> bool" where
  "media_is_audio m \<longleftrightarrow> take 6 m = ''audio/''"

section \<open>Raster and audio facts\<close>

record dimensions =
  dim_width :: nat
  dim_height :: nat

text \<open>The product of two \<open>u32\<close> fits \<open>u64\<close>, so \<open>checked_mul\<close> has a value.\<close>

definition dimensions_new :: "nat \<Rightarrow> nat \<Rightarrow> attachment_error + dimensions" where
  "dimensions_new w h =
     and_then
       (refuse_if
          (w = 0 \<or> h = 0 \<or> max_image_dimension < w \<or> max_image_dimension < h
           \<or> max_image_pixels < w * h) InvalidDimensions) (\<lambda>_.
       Inr \<lparr>dim_width = w, dim_height = h\<rparr>)"

record audio_facts =
  au_duration_ms :: nat
  au_sample_rate_hz :: nat
  au_channels :: nat
  au_bits_per_sample :: nat

definition audio_new :: "nat \<Rightarrow> nat \<Rightarrow> nat \<Rightarrow> nat \<Rightarrow> attachment_error + audio_facts" where
  "audio_new duration rate channels bits =
     and_then
       (refuse_if
          (\<not> (1 \<le> duration \<and> duration \<le> max_audio_duration_ms)
           \<or> \<not> (8000 \<le> rate \<and> rate \<le> 384000)
           \<or> \<not> (1 \<le> channels \<and> channels \<le> 8)
           \<or> bits \<notin> {8, 16, 24, 32}) InvalidAudioMetadata) (\<lambda>_.
       Inr \<lparr>au_duration_ms = duration, au_sample_rate_hz = rate, au_channels = channels,
            au_bits_per_sample = bits\<rparr>)"

section \<open>Provenance\<close>

record url_parts =
  up_scheme :: string
  up_has_host :: bool
  up_username :: string
  up_has_password :: bool

type_synonym parse_url = "string \<Rightarrow> url_parts option"

record source_facts =
  sf_url :: string
  sf_title :: "string option"
  sf_retrieved_at_ms :: int
  sf_truncated :: bool
  sf_page_count :: "nat option"

definition source_title_ok :: "string \<Rightarrow> bool" where
  "source_title_ok title \<longleftrightarrow>
     title \<noteq> [] \<and> length title \<le> 512 \<and> trim title = title \<and> \<not> has_control title"

definition source_facts_validate :: "parse_url \<Rightarrow> source_facts \<Rightarrow> attachment_error + unit" where
  "source_facts_validate parse_url s =
     and_then (ok_or InvalidSource (parse_url (sf_url s))) (\<lambda>url.
     and_then
       (refuse_if
          (4096 < length (sf_url s)
           \<or> up_scheme url \<notin> {''http'', ''https''}
           \<or> \<not> up_has_host url
           \<or> up_username url \<noteq> []
           \<or> up_has_password url
           \<or> has_control (sf_url s)
           \<or> has_whitespace (sf_url s)
           \<or> sf_retrieved_at_ms s < 0
           \<or> (case sf_page_count s of None \<Rightarrow> False | Some n \<Rightarrow> \<not> (1 \<le> n \<and> n \<le> 10000)))
          InvalidSource) (\<lambda>_.
       refuse_if (case sf_title s of None \<Rightarrow> False | Some t \<Rightarrow> \<not> source_title_ok t) InvalidSource))"

definition source_facts_new ::
  "parse_url \<Rightarrow> string \<Rightarrow> string option \<Rightarrow> int \<Rightarrow> bool \<Rightarrow> nat option
   \<Rightarrow> attachment_error + source_facts" where
  "source_facts_new parse_url url title at truncated pages =
     (let s = \<lparr>sf_url = url, sf_title = title, sf_retrieved_at_ms = at, sf_truncated = truncated,
               sf_page_count = pages\<rparr>
      in and_then (source_facts_validate parse_url s) (\<lambda>_. Inr s))"

section \<open>Attachments\<close>

record attachment =
  at_content_id :: string
  at_media_type :: string
  at_byte_len :: nat
  at_display_name :: "string option"
  at_dimensions :: "dimensions option"
  at_audio :: "audio_facts option"
  at_source :: "source_facts option"

definition display_name_ok :: "string \<Rightarrow> bool" where
  "display_name_ok name \<longleftrightarrow>
     name \<noteq> [] \<and> length name \<le> 255 \<and> trim name = name \<and> name \<notin> {''.'', ''..''}
     \<and> CHR ''/'' \<notin> set name \<and> char_of (92::nat) \<notin> set name \<and> \<not> has_control name"

definition attachment_validate :: "parse_url \<Rightarrow> attachment \<Rightarrow> attachment_error + unit" where
  "attachment_validate parse_url a =
     and_then
       (refuse_if (at_byte_len a = 0 \<or> max_attachment_bytes < at_byte_len a) InvalidByteLength) (\<lambda>_.
     and_then
       (refuse_if (case at_display_name a of None \<Rightarrow> False | Some n \<Rightarrow> \<not> display_name_ok n)
          InvalidDisplayName) (\<lambda>_.
     and_then
       (refuse_if (media_is_image (at_media_type a) \<noteq> (at_dimensions a \<noteq> None))
          IncoherentDimensions) (\<lambda>_.
     and_then
       (refuse_if (media_is_audio (at_media_type a) \<noteq> (at_audio a \<noteq> None))
          IncoherentAudioMetadata) (\<lambda>_.
       case at_source a of None \<Rightarrow> Inr () | Some s \<Rightarrow> source_facts_validate parse_url s))))"

definition attachment_new ::
  "parse_url \<Rightarrow> string \<Rightarrow> string \<Rightarrow> nat \<Rightarrow> string option \<Rightarrow> dimensions option
   \<Rightarrow> attachment_error + attachment" where
  "attachment_new parse_url cid media len name dims =
     (let a = \<lparr>at_content_id = cid, at_media_type = media, at_byte_len = len,
               at_display_name = name, at_dimensions = dims, at_audio = None, at_source = None\<rparr>
      in and_then (attachment_validate parse_url a) (\<lambda>_. Inr a))"

definition attachment_new_audio ::
  "parse_url \<Rightarrow> string \<Rightarrow> string \<Rightarrow> nat \<Rightarrow> string option \<Rightarrow> audio_facts
   \<Rightarrow> attachment_error + attachment" where
  "attachment_new_audio parse_url cid media len name audio =
     (let a = \<lparr>at_content_id = cid, at_media_type = media, at_byte_len = len,
               at_display_name = name, at_dimensions = None, at_audio = Some audio,
               at_source = None\<rparr>
      in and_then (attachment_validate parse_url a) (\<lambda>_. Inr a))"

definition attachment_with_source ::
  "parse_url \<Rightarrow> source_facts \<Rightarrow> attachment \<Rightarrow> attachment_error + attachment" where
  "attachment_with_source parse_url s a =
     (let a' = a\<lparr>at_source := Some s\<rparr> in and_then (attachment_validate parse_url a') (\<lambda>_. Inr a'))"

section \<open>Document routes\<close>

datatype route_kind = RouteNative | RouteExtracted

record document_route =
  dr_kind :: route_kind
  dr_source :: attachment
  dr_selected :: attachment

definition route_coherent :: "route_kind \<Rightarrow> attachment \<Rightarrow> attachment \<Rightarrow> bool" where
  "route_coherent k source selected =
     (case k of
        RouteNative \<Rightarrow> at_media_type source = ''application/pdf'' \<and> source = selected
      | RouteExtracted \<Rightarrow>
          at_media_type source \<in> {''application/pdf'', ''text/html'', ''application/xhtml+xml''}
          \<and> at_media_type selected = ''text/plain''
          \<and> at_content_id source \<noteq> at_content_id selected)"

definition route_new ::
  "parse_url \<Rightarrow> route_kind \<Rightarrow> attachment \<Rightarrow> attachment \<Rightarrow> attachment_error + document_route" where
  "route_new parse_url k source selected =
     and_then (attachment_validate parse_url source) (\<lambda>_.
     and_then (attachment_validate parse_url selected) (\<lambda>_.
     and_then (refuse_if (\<not> route_coherent k source selected) InvalidDocumentRoute) (\<lambda>_.
       Inr \<lparr>dr_kind = k, dr_source = source, dr_selected = selected\<rparr>)))"

definition route_native :: "parse_url \<Rightarrow> attachment \<Rightarrow> attachment_error + document_route" where
  "route_native parse_url source = route_new parse_url RouteNative source source"

definition route_extracted ::
  "parse_url \<Rightarrow> attachment \<Rightarrow> attachment \<Rightarrow> attachment_error + document_route" where
  "route_extracted parse_url source selected = route_new parse_url RouteExtracted source selected"

definition route_validate :: "parse_url \<Rightarrow> document_route \<Rightarrow> attachment_error + unit" where
  "route_validate parse_url r =
     and_then (route_new parse_url (dr_kind r) (dr_source r) (dr_selected r)) (\<lambda>_. Inr ())"

section \<open>What the constructors produce\<close>

lemma byte_val_less: "byte_val c < 256"
  by (simp add: byte_val_def)

lemma hex_digits_lower: "list_all is_lower_hex ''0123456789abcdef''"
  by (simp add: is_lower_hex_def is_ascii_digit_def byte_in_def byte_val_def)

lemma hex_digit_lower: "n < 16 \<Longrightarrow> is_lower_hex (hex_digit n)"
  using hex_digits_lower unfolding hex_digit_def list_all_length by simp

lemma hex_digit_inj: "m < 16 \<Longrightarrow> n < 16 \<Longrightarrow> hex_digit m = hex_digit n \<Longrightarrow> m = n"
proof -
  have "distinct ''0123456789abcdef''" "length ''0123456789abcdef'' = 16" by simp_all
  then show "m < 16 \<Longrightarrow> n < 16 \<Longrightarrow> hex_digit m = hex_digit n \<Longrightarrow> m = n"
    unfolding hex_digit_def by (metis nth_eq_iff_index_eq)
qed

lemma hex_byte_inj: "hex_byte b = hex_byte c \<Longrightarrow> b = c"
proof -
  assume "hex_byte b = hex_byte c"
  then have "byte_val b div 16 = byte_val c div 16" "byte_val b mod 16 = byte_val c mod 16"
    using byte_val_less [of b] byte_val_less [of c]
    by (auto simp: hex_byte_def intro!: hex_digit_inj)
  then have "byte_val b = byte_val c" by (metis mult_div_mod_eq)
  then show "b = c" by (simp add: byte_val_def)
qed

lemma length_hex_of [simp]: "length (hex_of bytes) = 2 * length bytes"
  by (induction bytes) (simp_all add: hex_of_def hex_byte_def)

lemma hex_of_inj: "hex_of xs = hex_of ys \<Longrightarrow> xs = ys"
proof (induction xs arbitrary: ys)
  case (Cons x xs)
  from Cons.prems obtain y ys' where y: "ys = y # ys'"
    by (cases ys) (auto simp: hex_of_def hex_byte_def)
  with Cons.prems have "hex_byte x = hex_byte y" "hex_of xs = hex_of ys'"
    by (simp_all add: hex_of_def hex_byte_def)
  with y Cons.IH show ?case by (auto dest: hex_byte_inj)
qed (cases ys; simp add: hex_of_def hex_byte_def)

lemma hex_of_lower: "list_all is_lower_hex (hex_of bytes)"
proof -
  have "byte_val b div 16 < 16" for b using byte_val_less [of b] by simp
  then show ?thesis
    by (induction bytes) (simp_all add: hex_of_def hex_byte_def hex_digit_lower)
qed

lemma content_id_from_sha256_valid:
  "length digest = 32 \<Longrightarrow>
   content_id_new (content_id_from_sha256 digest) = Inr (content_id_from_sha256 digest)"
  unfolding content_id_new_def content_id_from_sha256_def strip_prefix_append
  by (simp add: hex_of_lower strip_prefix_Some)

lemma route_new_validate: "route_new parse_url k a b = Inr r \<Longrightarrow> route_validate parse_url r = Inr ()"
  by (auto simp: route_validate_def route_new_def)

end
