(* ===== verification/Server_Tool.thy ===== *)
theory Server_Tool
  imports Provider_Vocab Attachment
begin

text \<open>
  Provider-executed tool calls, their results, aggregate usage and URL citations
  (\<open>heycode-core/src/server_tool.rs\<close>), with the validators that recheck a decoded value.
  The prose of an error is left out, its field kept. \<open>serde_json::to_vec\<close> (its length) and
  \<open>Url::parse\<close> are arguments.
\<close>

datatype server_tool_error = InvalidServerField string

section \<open>Text bounds\<close>

definition call_id_ok :: "string \<Rightarrow> bool" where
  "call_id_ok s \<longleftrightarrow> s \<noteq> [] \<and> length s \<le> 256 \<and> trim s = s \<and> list_all (byte_in 33 126) s"

definition validate_call_id :: "string \<Rightarrow> server_tool_error + unit" where
  "validate_call_id s = refuse_if (\<not> call_id_ok s) (InvalidServerField ''call_id'')"

definition safe_name :: "nat \<Rightarrow> string \<Rightarrow> string \<Rightarrow> bool" where
  "safe_name maximum extra s \<longleftrightarrow>
     s \<noteq> [] \<and> length s \<le> maximum \<and> is_ascii_lowercase (hd s)
     \<and> list_all (\<lambda>b. is_ascii_lowercase b \<or> is_ascii_digit b \<or> b \<in> set extra) s"

definition safe_logical :: "string \<Rightarrow> bool" where
  "safe_logical = safe_name 64 ''_''"

definition safe_provider_name :: "string \<Rightarrow> bool" where
  "safe_provider_name = safe_name 128 ''_-:/.''"

definition safe_error_code :: "string \<Rightarrow> bool" where
  "safe_error_code = safe_name 64 ''_-''"

definition validate_optional_single_line :: "nat \<Rightarrow> string \<Rightarrow> string \<Rightarrow> server_tool_error + unit" where
  "validate_optional_single_line maximum fld s =
     refuse_if (maximum < length s \<or> trim s \<noteq> s \<or> has_control s) (InvalidServerField fld)"

definition validate_single_line :: "nat \<Rightarrow> string \<Rightarrow> string \<Rightarrow> server_tool_error + unit" where
  "validate_single_line maximum fld s =
     refuse_if (s = [] \<or> maximum < length s \<or> trim s \<noteq> s \<or> has_control s) (InvalidServerField fld)"

definition validate_multiline :: "nat \<Rightarrow> string \<Rightarrow> string \<Rightarrow> server_tool_error + unit" where
  "validate_multiline maximum fld s =
     refuse_if (s = [] \<or> maximum < length s \<or> has_bad_control s) (InvalidServerField fld)"

definition validate_public_url_field :: "parse_url \<Rightarrow> string \<Rightarrow> string \<Rightarrow> server_tool_error + unit" where
  "validate_public_url_field parse_url fld s =
     and_then
       (refuse_if (s = [] \<or> 4096 < length s \<or> has_control s \<or> has_whitespace s)
          (InvalidServerField fld)) (\<lambda>_.
     and_then (ok_or (InvalidServerField fld) (parse_url s)) (\<lambda>u.
       refuse_if
         (up_scheme u \<notin> {''http'', ''https''} \<or> \<not> up_has_host u \<or> up_username u \<noteq> []
          \<or> up_has_password u) (InvalidServerField fld)))"

section \<open>Calls\<close>

definition input_error :: server_tool_error where
  "input_error = InvalidServerField ''input''"

definition input_key_invalid :: "string \<Rightarrow> bool" where
  "input_key_invalid key \<longleftrightarrow> key = [] \<or> 128 < length key \<or> has_control key"

text \<open>
  \<open>validate_json_node\<close>: the counter of visited nodes goes through the whole value, in
  preorder; the depth is that of the node.
\<close>

fun validate_json_node :: "nat \<Rightarrow> nat \<Rightarrow> json \<Rightarrow> server_tool_error + nat" where
  "validate_json_node depth nodes j =
     (if 16 < depth then Inl input_error
      else if 4096 < Suc nodes then Inl input_error
      else case j of
        JString s \<Rightarrow> if 16 * 1024 < length s then Inl input_error else Inr (Suc nodes)
      | JArray js \<Rightarrow> try_fold (\<lambda>n v. validate_json_node (Suc depth) n v) (Suc nodes) js
      | JObject kvs \<Rightarrow>
          try_fold (\<lambda>n kv.
            if input_key_invalid (fst kv) then Inl input_error
            else validate_json_node (Suc depth) n (snd kv)) (Suc nodes) kvs
      | _ \<Rightarrow> Inr (Suc nodes))"

definition validate_input :: "(json \<Rightarrow> nat option) \<Rightarrow> json \<Rightarrow> server_tool_error + unit" where
  "validate_input json_len j =
     and_then (refuse_if (\<not> is_json_object j) input_error) (\<lambda>_.
     and_then (ok_or input_error (json_len j)) (\<lambda>n.
     and_then (refuse_if (64 * 1024 < n) input_error) (\<lambda>_.
     and_then (validate_json_node 0 0 j) (\<lambda>_. Inr ()))))"

record server_call =
  sv_id :: string
  sv_logical :: string
  sv_provider_name :: string
  sv_input :: json

definition server_call_validate :: "(json \<Rightarrow> nat option) \<Rightarrow> server_call \<Rightarrow> server_tool_error + unit" where
  "server_call_validate json_len c =
     and_then (validate_call_id (sv_id c)) (\<lambda>_.
     and_then (refuse_if (\<not> safe_logical (sv_logical c)) (InvalidServerField ''logical'')) (\<lambda>_.
     and_then
       (refuse_if (\<not> safe_provider_name (sv_provider_name c)) (InvalidServerField ''provider_name''))
       (\<lambda>_. validate_input json_len (sv_input c))))"

definition server_call_new ::
  "(json \<Rightarrow> nat option) \<Rightarrow> string \<Rightarrow> string \<Rightarrow> string \<Rightarrow> json \<Rightarrow> server_tool_error + server_call" where
  "server_call_new json_len i logical name input =
     (let c = \<lparr>sv_id = i, sv_logical = logical, sv_provider_name = name, sv_input = input\<rparr>
      in and_then (server_call_validate json_len c) (\<lambda>_. Inr c))"

section \<open>Results\<close>

datatype server_outcome = ServerSuccess | ServerError

record web_metadata =
  wb_site_name :: string
  wb_icon_url :: string
  wb_reference :: string
  wb_published :: string

record server_source =
  ss_url :: string
  ss_title :: "string option"
  ss_web :: "web_metadata option"

record server_result =
  sr_call_id :: string
  sr_outcome :: server_outcome
  sr_output_count :: "nat option"
  sr_error_code :: "string option"
  sr_sources :: "server_source list"

definition web_metadata_validate :: "parse_url \<Rightarrow> web_metadata \<Rightarrow> server_tool_error + unit" where
  "web_metadata_validate parse_url m =
     and_then (validate_optional_single_line 256 ''site_name'' (wb_site_name m)) (\<lambda>_.
     and_then
       (if wb_icon_url m = [] then Inr ()
        else validate_public_url_field parse_url ''icon_url'' (wb_icon_url m)) (\<lambda>_.
     and_then (validate_optional_single_line 256 ''provider_reference'' (wb_reference m)) (\<lambda>_.
       validate_optional_single_line 256 ''published'' (wb_published m))))"

definition web_metadata_new ::
  "parse_url \<Rightarrow> string \<Rightarrow> string \<Rightarrow> string \<Rightarrow> string \<Rightarrow> server_tool_error + web_metadata" where
  "web_metadata_new parse_url site icon reference published =
     (let m = \<lparr>wb_site_name = site, wb_icon_url = icon, wb_reference = reference,
               wb_published = published\<rparr>
      in and_then (web_metadata_validate parse_url m) (\<lambda>_. Inr m))"

definition validate_title :: "string option \<Rightarrow> server_tool_error + unit" where
  "validate_title t =
     (case t of None \<Rightarrow> Inr () | Some s \<Rightarrow> validate_single_line 512 ''title'' s)"

definition server_source_validate :: "parse_url \<Rightarrow> server_source \<Rightarrow> server_tool_error + unit" where
  "server_source_validate parse_url s =
     and_then (validate_public_url_field parse_url ''url'' (ss_url s)) (\<lambda>_.
     and_then (validate_title (ss_title s)) (\<lambda>_.
       case ss_web s of None \<Rightarrow> Inr () | Some m \<Rightarrow> web_metadata_validate parse_url m))"

definition server_source_new ::
  "parse_url \<Rightarrow> string \<Rightarrow> string option \<Rightarrow> server_tool_error + server_source" where
  "server_source_new parse_url url title =
     (let s = \<lparr>ss_url = url, ss_title = title, ss_web = None\<rparr>
      in and_then (server_source_validate parse_url s) (\<lambda>_. Inr s))"

definition with_web_metadata ::
  "parse_url \<Rightarrow> server_source \<Rightarrow> web_metadata \<Rightarrow> server_tool_error + server_source" where
  "with_web_metadata parse_url s m =
     and_then (web_metadata_validate parse_url m) (\<lambda>_. Inr (s\<lparr>ss_web := Some m\<rparr>))"

definition server_result_validate :: "parse_url \<Rightarrow> server_result \<Rightarrow> server_tool_error + unit" where
  "server_result_validate parse_url r =
     and_then (validate_call_id (sr_call_id r)) (\<lambda>_.
     and_then (refuse_if (128 < length (sr_sources r)) (InvalidServerField ''sources'')) (\<lambda>_.
     and_then (try_all (server_source_validate parse_url) (sr_sources r)) (\<lambda>_.
       case sr_outcome r of
         ServerSuccess \<Rightarrow> refuse_if (sr_error_code r \<noteq> None) (InvalidServerField ''error_code'')
       | ServerError \<Rightarrow>
           refuse_if
             (\<not> (sr_output_count r = None \<and> sr_sources r = []
                 \<and> (case sr_error_code r of None \<Rightarrow> False | Some code \<Rightarrow> safe_error_code code)))
             (InvalidServerField ''outcome''))))"

definition server_result_success ::
  "parse_url \<Rightarrow> string \<Rightarrow> nat option \<Rightarrow> server_source list \<Rightarrow> server_tool_error + server_result" where
  "server_result_success parse_url call outputs sources =
     (let r = \<lparr>sr_call_id = call, sr_outcome = ServerSuccess, sr_output_count = outputs,
               sr_error_code = None, sr_sources = sources\<rparr>
      in and_then (server_result_validate parse_url r) (\<lambda>_. Inr r))"

definition server_result_error :: "parse_url \<Rightarrow> string \<Rightarrow> string \<Rightarrow> server_tool_error + server_result" where
  "server_result_error parse_url call code =
     (let r = \<lparr>sr_call_id = call, sr_outcome = ServerError, sr_output_count = None,
               sr_error_code = Some code, sr_sources = []\<rparr>
      in and_then (server_result_validate parse_url r) (\<lambda>_. Inr r))"

section \<open>Aggregate usage\<close>

datatype usage_evidence = ProviderAggregateEvidence

datatype usage_cost = CostUnknown | CostPublished string nat \<comment> \<open>currency, pico-units\<close>

record server_usage =
  su_logical :: string
  su_requests :: nat
  su_evidence :: usage_evidence
  su_cost :: usage_cost

definition cost_published :: "string \<Rightarrow> nat \<Rightarrow> server_tool_error + usage_cost" where
  "cost_published currency pico =
     and_then
       (refuse_if (length currency \<noteq> 3 \<or> \<not> list_all is_ascii_lowercase currency \<or> pico = 0)
          (InvalidServerField ''cost'')) (\<lambda>_. Inr (CostPublished currency pico))"

fun cost_validate :: "usage_cost \<Rightarrow> server_tool_error + unit" where
  "cost_validate CostUnknown = Inr ()"
| "cost_validate (CostPublished currency pico) = and_then (cost_published currency pico) (\<lambda>_. Inr ())"

definition server_usage_validate :: "server_usage \<Rightarrow> server_tool_error + unit" where
  "server_usage_validate u =
     and_then (refuse_if (\<not> safe_logical (su_logical u)) (InvalidServerField ''logical'')) (\<lambda>_.
     and_then (refuse_if (su_requests u = 0) (InvalidServerField ''requests'')) (\<lambda>_.
       cost_validate (su_cost u)))"

definition server_usage_new ::
  "string \<Rightarrow> nat \<Rightarrow> usage_evidence \<Rightarrow> usage_cost \<Rightarrow> server_tool_error + server_usage" where
  "server_usage_new logical requests evidence cost =
     (let u = \<lparr>su_logical = logical, su_requests = requests, su_evidence = evidence, su_cost = cost\<rparr>
      in and_then (server_usage_validate u) (\<lambda>_. Inr u))"

section \<open>Citations\<close>

record url_citation =
  uc_url :: string
  uc_title :: "string option"
  uc_text :: "string option"
  uc_start :: "nat option"
  uc_end :: "nat option"

definition url_citation_validate :: "parse_url \<Rightarrow> url_citation \<Rightarrow> server_tool_error + unit" where
  "url_citation_validate parse_url c =
     and_then (validate_public_url_field parse_url ''url'' (uc_url c)) (\<lambda>_.
     and_then (validate_title (uc_title c)) (\<lambda>_.
     and_then
       (case uc_text c of None \<Rightarrow> Inr ()
        | Some t \<Rightarrow> validate_multiline (16 * 1024) ''cited_text'' t) (\<lambda>_.
       case (uc_start c, uc_end c) of
         (None, None) \<Rightarrow> Inr ()
       | (Some a, Some b) \<Rightarrow> refuse_if (\<not> a \<le> b) (InvalidServerField ''range'')
       | _ \<Rightarrow> Inl (InvalidServerField ''range''))))"

definition url_citation_new ::
  "parse_url \<Rightarrow> string \<Rightarrow> string option \<Rightarrow> string option \<Rightarrow> nat option \<Rightarrow> nat option
   \<Rightarrow> server_tool_error + url_citation" where
  "url_citation_new parse_url url title txt a b =
     (let c = \<lparr>uc_url = url, uc_title = title, uc_text = txt, uc_start = a, uc_end = b\<rparr>
      in and_then (url_citation_validate parse_url c) (\<lambda>_. Inr c))"

section \<open>What an accepted input is\<close>

fun json_depth :: "json \<Rightarrow> nat" where
  "json_depth (JArray js) = foldr (\<lambda>j m. max (Suc (json_depth j)) m) js 0"
| "json_depth (JObject kvs) = foldr (\<lambda>kv m. max (Suc (json_depth (snd kv))) m) kvs 0"
| "json_depth _ = 0"

fun json_nodes :: "json \<Rightarrow> nat" where
  "json_nodes (JArray js) = Suc (sum_list (map json_nodes js))"
| "json_nodes (JObject kvs) = Suc (sum_list (map (\<lambda>kv. json_nodes (snd kv)) kvs))"
| "json_nodes _ = 1"

declare validate_json_node.simps [simp del]

lemma foldr_max_le: "(\<And>x. x \<in> set xs \<Longrightarrow> d + f x \<le> (b::nat)) \<Longrightarrow> d \<le> b \<Longrightarrow> d + foldr (\<lambda>x m. max (f x) m) xs 0 \<le> b"
  by (induction xs) (auto simp: max_def)

lemma validate_json_node_count:
  "validate_json_node depth nodes j = Inr n \<Longrightarrow>
   n = nodes + json_nodes j \<and> n \<le> 4096 \<and> depth + json_depth j \<le> 16"
proof (induction depth nodes j arbitrary: n rule: validate_json_node.induct)
  case (1 depth nodes j)
  have ok: "depth \<le> 16" "Suc nodes \<le> 4096"
    using "1.prems" by (auto simp: validate_json_node.simps [of depth] split: if_splits)
  show ?case
  proof (cases j)
    case (JArray js)
    have loop: "try_fold (\<lambda>n v. validate_json_node (Suc depth) n v) m xs = Inr n \<Longrightarrow> m \<le> 4096 \<Longrightarrow>
        set xs \<subseteq> set js \<Longrightarrow> n = m + sum_list (map json_nodes xs) \<and> n \<le> 4096
          \<and> (\<forall>x \<in> set xs. Suc depth + json_depth x \<le> 16)" for m xs n
    proof (induction xs arbitrary: m)
      case (Cons x xs)
      then obtain m' where m': "validate_json_node (Suc depth) m x = Inr m'"
        "try_fold (\<lambda>n v. validate_json_node (Suc depth) n v) m' xs = Inr n" by auto
      have "m' = m + json_nodes x \<and> m' \<le> 4096 \<and> Suc depth + json_depth x \<le> 16"
        by (rule "1.IH"(1) [of js x m]) (use ok JArray Cons.prems m' in auto)
      with Cons.IH [OF m'(2)] Cons.prems show ?case by simp
    qed simp
    have fold: "try_fold (\<lambda>n v. validate_json_node (Suc depth) n v) (Suc nodes) js = Inr n"
      using "1.prems" ok JArray by (simp add: validate_json_node.simps [of depth])
    from loop [OF fold] ok show ?thesis
      using foldr_max_le [of js depth "\<lambda>j. Suc (json_depth j)" 16] by (auto simp: JArray)
  next
    case (JObject kvs)
    let ?f = "\<lambda>n kv. if input_key_invalid (fst kv) then Inl input_error
            else validate_json_node (Suc depth) n (snd kv)"
    have loop: "try_fold ?f m xs = Inr n \<Longrightarrow> m \<le> 4096 \<Longrightarrow>
        set xs \<subseteq> set kvs \<Longrightarrow> n = m + sum_list (map (\<lambda>kv. json_nodes (snd kv)) xs) \<and> n \<le> 4096
          \<and> (\<forall>x \<in> set xs. Suc depth + json_depth (snd x) \<le> 16)" for m xs n
    proof (induction xs arbitrary: m)
      case (Cons x xs)
      then obtain m' where m': "?f m x = Inr m'" "try_fold ?f m' xs = Inr n" by auto
      have "m' = m + json_nodes (snd x) \<and> m' \<le> 4096 \<and> Suc depth + json_depth (snd x) \<le> 16"
        by (rule "1.IH"(2) [of kvs x m]) (use ok JObject Cons.prems m' in \<open>auto split: if_splits\<close>)
      with Cons.IH [OF m'(2)] Cons.prems show ?case by simp
    qed simp
    have fold: "try_fold ?f (Suc nodes) kvs = Inr n"
      using "1.prems" ok JObject by (simp add: validate_json_node.simps [of depth])
    from loop [OF fold] ok show ?thesis
      using foldr_max_le [of kvs depth "\<lambda>kv. Suc (json_depth (snd kv))" 16] by (auto simp: JObject)
  qed (use "1.prems" ok in \<open>auto simp: validate_json_node.simps [of depth] split: if_splits\<close>)
qed

end
