(* ===== verification/Provider_Response.thy ===== *)
theory Provider_Response
  imports Ordered_Map
begin

text \<open>
  Detailed facts of one provider response (\<open>heycode-core/src/provider_response.rs\<close>): cache
  counters, context edits and their validators. Counters are \<open>u64\<close>; the sums the code checks
  are \<open>checked_add\<close>.
\<close>

datatype response_error = UnsupportedSchema | InvalidCacheUsage | InvalidContextEdits | EmptyMetadata

section \<open>Cache counters\<close>

datatype cache_activity = CacheNone | CacheRead | CacheWrite | CacheReadAndWrite

record cache_usage =
  cu_schema :: nat
  cu_input :: nat
  cu_output :: nat
  cu_read :: nat
  cu_write :: nat
  cu_write_unknown :: bool
  cu_uncached :: "nat option"
  cu_write_5m :: "nat option"
  cu_write_1h :: "nat option"
  cu_reasoning :: "nat option"

definition partition_ok :: "cache_usage \<Rightarrow> bool" where
  "partition_ok c =
     (case cu_uncached c of
        None \<Rightarrow> True
      | Some uncached \<Rightarrow>
          Option.bind (checked_add_u64 uncached (cu_read c)) (\<lambda>t. checked_add_u64 t (cu_write c))
            = Some (cu_input c))"

definition ttl_ok :: "cache_usage \<Rightarrow> bool" where
  "ttl_ok c =
     (case (cu_write_5m c, cu_write_1h c) of
        (None, None) \<Rightarrow> True
      | (Some five, Some hour) \<Rightarrow> checked_add_u64 five hour = Some (cu_write c)
      | _ \<Rightarrow> False)"

definition cache_usage_validate :: "cache_usage \<Rightarrow> response_error + unit" where
  "cache_usage_validate c =
     and_then
       (refuse_if
          (cu_write_unknown c
           \<and> (cu_write c \<noteq> 0 \<or> cu_uncached c \<noteq> None \<or> cu_write_5m c \<noteq> None \<or> cu_write_1h c \<noteq> None))
          InvalidCacheUsage) (\<lambda>_.
     and_then
       (refuse_if
          (cu_schema c \<noteq> 1 \<or> cu_input c < cu_read c \<or> cu_input c < cu_write c
           \<or> (case cu_reasoning c of None \<Rightarrow> False | Some n \<Rightarrow> cu_output c < n))
          (if cu_schema c \<noteq> 1 then UnsupportedSchema else InvalidCacheUsage)) (\<lambda>_.
     and_then (refuse_if (\<not> partition_ok c) InvalidCacheUsage) (\<lambda>_.
       refuse_if (\<not> ttl_ok c) InvalidCacheUsage)))"

definition checked_cache :: "cache_usage \<Rightarrow> response_error + cache_usage" where
  "checked_cache c = and_then (cache_usage_validate c) (\<lambda>_. Inr c)"

definition cache_usage_new :: "nat \<Rightarrow> nat \<Rightarrow> nat \<Rightarrow> nat \<Rightarrow> response_error + cache_usage" where
  "cache_usage_new input output cread cwrite =
     checked_cache
       \<lparr>cu_schema = 1, cu_input = input, cu_output = output, cu_read = cread, cu_write = cwrite,
        cu_write_unknown = False, cu_uncached = None, cu_write_5m = None, cu_write_1h = None,
        cu_reasoning = None\<rparr>"

definition with_unknown_cache_writes :: "cache_usage \<Rightarrow> cache_usage" where
  "with_unknown_cache_writes c =
     c\<lparr>cu_write := 0, cu_write_unknown := True, cu_uncached := None, cu_write_5m := None,
       cu_write_1h := None\<rparr>"

definition reported_cache_write_tokens :: "cache_usage \<Rightarrow> nat option" where
  "reported_cache_write_tokens c = (if cu_write_unknown c then None else Some (cu_write c))"

definition with_uncached_input_tokens :: "cache_usage \<Rightarrow> nat \<Rightarrow> response_error + cache_usage" where
  "with_uncached_input_tokens c n = checked_cache (c\<lparr>cu_uncached := Some n\<rparr>)"

definition with_cache_write_ttl_tokens :: "cache_usage \<Rightarrow> nat \<Rightarrow> nat \<Rightarrow> response_error + cache_usage" where
  "with_cache_write_ttl_tokens c five hour =
     checked_cache (c\<lparr>cu_write_5m := Some five, cu_write_1h := Some hour\<rparr>)"

definition with_reasoning_tokens :: "cache_usage \<Rightarrow> nat \<Rightarrow> response_error + cache_usage" where
  "with_reasoning_tokens c n = checked_cache (c\<lparr>cu_reasoning := Some n\<rparr>)"

definition observed_activity :: "cache_usage \<Rightarrow> cache_activity" where
  "observed_activity c =
     (case (0 < cu_read c, 0 < cu_write c) of
        (False, False) \<Rightarrow> CacheNone
      | (True, False) \<Rightarrow> CacheRead
      | (False, True) \<Rightarrow> CacheWrite
      | (True, True) \<Rightarrow> CacheReadAndWrite)"

section \<open>Context edits\<close>

datatype edit_kind = ClearThinking | ClearToolUses

datatype prefix_impact = PrefixPreserved | InvalidatedAtEdit

record context_edit =
  ed_kind :: edit_kind
  ed_units :: nat
  ed_tokens :: nat

record response_metadata =
  rm_schema :: nat
  rm_cache :: "cache_usage option"
  rm_edits :: "context_edit list"
  rm_impact :: "prefix_impact option"

definition context_edit_new :: "edit_kind \<Rightarrow> nat \<Rightarrow> nat \<Rightarrow> response_error + context_edit" where
  "context_edit_new kind units tokens =
     and_then (refuse_if (units = 0 \<or> tokens = 0) InvalidContextEdits) (\<lambda>_.
       Inr \<lparr>ed_kind = kind, ed_units = units, ed_tokens = tokens\<rparr>)"

text \<open>The loop of \<open>validate\<close>: the kinds seen and the tokens cleared so far.\<close>

definition edit_step ::
  "edit_kind list \<times> nat \<Rightarrow> context_edit \<Rightarrow> response_error + (edit_kind list \<times> nat)" where
  "edit_step st e =
     (case st of (kinds, cleared) \<Rightarrow>
        and_then
          (refuse_if (ed_units e = 0 \<or> ed_tokens e = 0 \<or> ed_kind e \<in> set kinds) InvalidContextEdits)
          (\<lambda>_.
        and_then (ok_or InvalidContextEdits (checked_add_u64 cleared (ed_tokens e))) (\<lambda>cleared'.
          Inr (ed_kind e # kinds, cleared'))))"

definition impact_consistent :: "context_edit list \<Rightarrow> prefix_impact option \<Rightarrow> bool" where
  "impact_consistent edits impact =
     (case (edits = [], impact) of
        (True, Some InvalidatedAtEdit) \<Rightarrow> False
      | (False, Some PrefixPreserved) \<Rightarrow> False
      | (False, None) \<Rightarrow> False
      | _ \<Rightarrow> True)"

definition response_metadata_validate :: "response_metadata \<Rightarrow> response_error + unit" where
  "response_metadata_validate m =
     and_then (refuse_if (rm_schema m \<noteq> 1) UnsupportedSchema) (\<lambda>_.
     and_then (case rm_cache m of None \<Rightarrow> Inr () | Some c \<Rightarrow> cache_usage_validate c) (\<lambda>_.
     and_then (refuse_if (rm_cache m = None \<and> rm_edits m = [] \<and> rm_impact m = None) EmptyMetadata) (\<lambda>_.
     and_then (refuse_if (16 < length (rm_edits m)) InvalidContextEdits) (\<lambda>_.
     and_then (try_fold edit_step ([], 0) (rm_edits m)) (\<lambda>_.
       refuse_if (\<not> impact_consistent (rm_edits m) (rm_impact m)) InvalidContextEdits)))))"

definition response_metadata_new ::
  "cache_usage option \<Rightarrow> context_edit list \<Rightarrow> prefix_impact option
   \<Rightarrow> response_error + response_metadata" where
  "response_metadata_new cache edits impact =
     (let m = \<lparr>rm_schema = 1, rm_cache = cache, rm_edits = edits, rm_impact = impact\<rparr>
      in and_then (response_metadata_validate m) (\<lambda>_. Inr m))"

definition total_cleared_input_tokens :: "response_metadata \<Rightarrow> nat option" where
  "total_cleared_input_tokens m =
     foldl (\<lambda>t e. Option.bind t (\<lambda>n. checked_add_u64 n (ed_tokens e))) (Some 0) (rm_edits m)"

definition invalidated_cache_prefix :: "response_metadata \<Rightarrow> bool" where
  "invalidated_cache_prefix m \<longleftrightarrow> rm_impact m = Some InvalidatedAtEdit"

section \<open>What acceptance gives\<close>

lemma edit_step_Inr:
  "edit_step (kinds, cleared) e = Inr st \<longleftrightarrow>
     0 < ed_units e \<and> 0 < ed_tokens e \<and> ed_kind e \<notin> set kinds \<and> cleared + ed_tokens e \<le> u64_max
     \<and> st = (ed_kind e # kinds, cleared + ed_tokens e)"
  by (auto simp: edit_step_def)

lemma edits_accepted:
  "try_fold edit_step (kinds, cleared) edits = Inr (kinds', cleared') \<Longrightarrow> distinct kinds \<Longrightarrow>
   kinds' = rev (map ed_kind edits) @ kinds \<and> distinct kinds'
   \<and> cleared' = cleared + sum_list (map ed_tokens edits) \<and> (edits = [] \<or> cleared' \<le> u64_max)"
proof (induction edits arbitrary: kinds cleared)
  case Nil
  then show ?case by simp
next
  case (Cons e es)
  from Cons.prems(1) have e: "ed_kind e \<notin> set kinds" "cleared + ed_tokens e \<le> u64_max"
    and es: "try_fold edit_step (ed_kind e # kinds, cleared + ed_tokens e) es = Inr (kinds', cleared')"
    by (auto simp: edit_step_Inr)
  have dk: "distinct (ed_kind e # kinds)" using e Cons.prems(2) by simp
  have IH: "kinds' = rev (map ed_kind es) @ ed_kind e # kinds" "distinct kinds'"
    "cleared' = cleared + ed_tokens e + sum_list (map ed_tokens es)" "es = [] \<or> cleared' \<le> u64_max"
    using Cons.IH [OF es dk] by blast+
  show ?case
  proof (intro conjI disjI2)
    show "kinds' = rev (map ed_kind (e # es)) @ kinds" using IH(1) by simp
    show "distinct kinds'" by (rule IH(2))
    show "cleared' = cleared + sum_list (map ed_tokens (e # es))" using IH(3) by simp
    show "cleared' \<le> u64_max" using IH(3,4) e by auto
  qed
qed

lemma total_cleared_sum:
  "t + sum_list (map ed_tokens es) \<le> u64_max \<Longrightarrow>
   foldl (\<lambda>t e. Option.bind t (\<lambda>n. checked_add_u64 n (ed_tokens e))) (Some t) es =
     Some (t + sum_list (map ed_tokens es))"
proof (induction es arbitrary: t)
  case (Cons e es)
  then have c: "checked_add_u64 t (ed_tokens e) = Some (t + ed_tokens e)" by simp
  have "foldl (\<lambda>t e. Option.bind t (\<lambda>n. checked_add_u64 n (ed_tokens e))) (Some t) (e # es) =
      foldl (\<lambda>t e. Option.bind t (\<lambda>n. checked_add_u64 n (ed_tokens e))) (Some (t + ed_tokens e)) es"
    by (simp only: foldl_Cons Option.bind.bind_lunit c)
  also have "\<dots> = Some (t + ed_tokens e + sum_list (map ed_tokens es))"
    using Cons.prems by (intro Cons.IH) (simp add: add.assoc)
  finally show ?case by (simp add: add.assoc)
qed simp

text \<open>An accepted fact set: the total the validator checked is the one the accessor returns.\<close>

lemma accepted_total:
  assumes "response_metadata_validate m = Inr ()"
  shows "total_cleared_input_tokens m = Some (sum_list (map ed_tokens (rm_edits m)))"
    and "distinct (map ed_kind (rm_edits m))"
    and "invalidated_cache_prefix m \<longleftrightarrow> rm_edits m \<noteq> []"
proof -
  from assms obtain kinds cleared where fold: "try_fold edit_step ([], 0) (rm_edits m) = Inr (kinds, cleared)"
    by (auto simp: response_metadata_validate_def)
  have acc: "kinds = rev (map ed_kind (rm_edits m)) @ [] \<and> distinct kinds
     \<and> cleared = 0 + sum_list (map ed_tokens (rm_edits m)) \<and> (rm_edits m = [] \<or> cleared \<le> u64_max)"
    by (rule edits_accepted [OF fold]) simp
  then have "0 + sum_list (map ed_tokens (rm_edits m)) \<le> u64_max" by (auto simp: u64_max_def)
  from total_cleared_sum [OF this]
  show "total_cleared_input_tokens m = Some (sum_list (map ed_tokens (rm_edits m)))"
    unfolding total_cleared_input_tokens_def by simp
  show "distinct (map ed_kind (rm_edits m))" using acc by (metis append_Nil2 distinct_rev)
  have "impact_consistent (rm_edits m) (rm_impact m)"
    using assms by (simp add: response_metadata_validate_def)
  then show "invalidated_cache_prefix m \<longleftrightarrow> rm_edits m \<noteq> []"
    by (auto simp: impact_consistent_def invalidated_cache_prefix_def split: bool.splits option.splits prefix_impact.splits)
qed

lemma accepted_cache_parts:
  assumes "cache_usage_validate c = Inr ()" "cu_uncached c = Some n"
  shows "n + cu_read c + cu_write c = cu_input c"
  using assms by (auto simp: cache_usage_validate_def partition_ok_def bind_eq_Some_conv)

end
