(* ===== verification/Rich_Tool_Result.thy ===== *)
theory Rich_Tool_Result
  imports Provider_Vocab Attachment
begin

text \<open>
  Durable rich tool results (\<open>heycode-core/src/rich_tool_result.rs\<close>): ordered blocks with
  their metadata, the validator of a decoded result and its text for the model. The record
  \<open>rich_ext\<close> holds what other crates decide: the rendered length of a value
  (\<open>serde_json::to_vec\<close>), the pretty printer, whether a number lies in the unit interval
  (\<open>Number::as_f64\<close>) and the URL parser.
\<close>

record rich_ext =
  re_json_len :: "json \<Rightarrow> nat option"
  re_pretty :: "json \<Rightarrow> string"
  re_in_unit :: "json \<Rightarrow> bool"
  re_url :: parse_url

datatype rich_error = RichInvalid | RichTooLarge

type_synonym extensions = "(string \<times> json) list"

section \<open>Data\<close>

datatype result_audience = AudienceUser | AudienceAssistant

record annotations =
  an_audience :: "result_audience list"
  an_priority :: "json option"
  an_modified :: "string option"
  an_extensions :: extensions

record block_metadata =
  bm_annotations :: annotations
  bm_extensions :: extensions

datatype structured_content = StructuredAbsent | StructuredPresent json

datatype schema_check =
    NoSchema | SchemaMissing | SchemaNotChecked string | SchemaConforms | SchemaViolates string

record resource_link =
  rl_uri :: string
  rl_name :: string
  rl_title :: "string option"
  rl_description :: "string option"
  rl_mime :: "string option"
  rl_size :: "nat option"
  rl_metadata :: block_metadata

record media_reference =
  mr_attachment :: attachment
  mr_declared :: "string option"

datatype result_block =
    BlockText string block_metadata
  | BlockImage media_reference block_metadata
  | BlockAudio media_reference block_metadata
  | BlockLink resource_link
  | BlockEmbeddedText string "string option" string extensions block_metadata
      \<comment> \<open>uri, media type, text\<close>
  | BlockEmbeddedBlob string media_reference extensions block_metadata

record rich_result =
  rr_schema :: nat
  rr_blocks :: "result_block list"
  rr_structured :: structured_content
  rr_check :: schema_check
  rr_extensions :: extensions

section \<open>Validation\<close>

text \<open>\<open>map_or(usize::MAX, len) > limit\<close>: what does not render exceeds every limit.\<close>

definition renders_within :: "rich_ext \<Rightarrow> nat \<Rightarrow> json \<Rightarrow> bool" where
  "renders_within ext limit j = (case re_json_len ext j of None \<Rightarrow> False | Some n \<Rightarrow> n \<le> limit)"

definition validate_extensions :: "rich_ext \<Rightarrow> extensions \<Rightarrow> rich_error + unit" where
  "validate_extensions ext kvs =
     refuse_if
       (64 < length kvs
        \<or> list_ex (\<lambda>kv. fst kv = [] \<or> 128 < length (fst kv) \<or> has_bad_control (fst kv)) kvs
        \<or> \<not> renders_within ext (256 * 1024) (JObject kvs)) RichTooLarge"

definition validate_uri :: "rich_ext \<Rightarrow> string \<Rightarrow> rich_error + unit" where
  "validate_uri ext s =
     and_then
       (refuse_if (s = [] \<or> 2 * 1024 < length s \<or> has_whitespace s \<or> has_bad_control s) RichInvalid)
       (\<lambda>_.
     and_then (ok_or RichInvalid (re_url ext s)) (\<lambda>u.
       refuse_if
         (up_scheme u = []
          \<or> up_scheme u \<in> {''http'', ''https''} \<and> (up_username u \<noteq> [] \<or> up_has_password u))
         RichInvalid))"

definition validate_text :: "string \<Rightarrow> rich_error + unit" where
  "validate_text s = refuse_if (64 * 1024 < length s \<or> has_bad_control s) RichTooLarge"

definition validate_display :: "bool \<Rightarrow> string \<Rightarrow> rich_error + unit" where
  "validate_display required s =
     refuse_if (required \<and> s = [] \<or> 4 * 1024 < length s \<or> has_bad_control s) RichInvalid"

definition validate_optional_display :: "string option \<Rightarrow> rich_error + unit" where
  "validate_optional_display s = (case s of None \<Rightarrow> Inr () | Some t \<Rightarrow> validate_display False t)"

definition annotations_validate :: "rich_ext \<Rightarrow> annotations \<Rightarrow> rich_error + unit" where
  "annotations_validate ext a =
     and_then
       (refuse_if
          (2 < length (an_audience a)
           \<or> \<not> distinct (an_audience a)
           \<or> (case an_priority a of None \<Rightarrow> False | Some p \<Rightarrow> \<not> re_in_unit ext p)
           \<or> (case an_modified a of
                None \<Rightarrow> False | Some s \<Rightarrow> s = [] \<or> 128 < length s \<or> has_bad_control s))
          RichInvalid) (\<lambda>_. validate_extensions ext (an_extensions a))"

definition block_metadata_validate :: "rich_ext \<Rightarrow> block_metadata \<Rightarrow> rich_error + unit" where
  "block_metadata_validate ext m =
     and_then (annotations_validate ext (bm_annotations m)) (\<lambda>_.
       validate_extensions ext (bm_extensions m))"

fun structured_validate :: "rich_ext \<Rightarrow> structured_content \<Rightarrow> rich_error + unit" where
  "structured_validate ext StructuredAbsent = Inr ()"
| "structured_validate ext (StructuredPresent j) =
     refuse_if (\<not> renders_within ext (1024 * 1024) j) RichTooLarge"

definition check_text_ok :: "string \<Rightarrow> bool" where
  "check_text_ok s \<longleftrightarrow> s \<noteq> [] \<and> length s \<le> 256 \<and> \<not> has_bad_control s"

fun schema_check_validate :: "schema_check \<Rightarrow> rich_error + unit" where
  "schema_check_validate (SchemaNotChecked s) = refuse_if (\<not> check_text_ok s) RichInvalid"
| "schema_check_validate (SchemaViolates s) = refuse_if (\<not> check_text_ok s) RichInvalid"
| "schema_check_validate _ = Inr ()"

definition resource_link_validate :: "rich_ext \<Rightarrow> resource_link \<Rightarrow> rich_error + unit" where
  "resource_link_validate ext l =
     and_then (validate_uri ext (rl_uri l)) (\<lambda>_.
     and_then (validate_display True (rl_name l)) (\<lambda>_.
     and_then (validate_optional_display (rl_title l)) (\<lambda>_.
     and_then (validate_optional_display (rl_description l)) (\<lambda>_.
       block_metadata_validate ext (rl_metadata l)))))"

definition media_validate :: "rich_ext \<Rightarrow> media_reference \<Rightarrow> rich_error + unit" where
  "media_validate ext m = map_err (\<lambda>_. RichInvalid) (attachment_validate (re_url ext) (mr_attachment m))"

definition declared_is :: "(string \<Rightarrow> bool) \<Rightarrow> media_reference \<Rightarrow> bool" where
  "declared_is ok m = (case mr_declared m of None \<Rightarrow> False | Some t \<Rightarrow> ok t)"

text \<open>The text bytes a valid block adds.\<close>

fun block_validate :: "rich_ext \<Rightarrow> result_block \<Rightarrow> rich_error + nat" where
  "block_validate ext (BlockText body m) =
     and_then (validate_text body) (\<lambda>_.
     and_then (block_metadata_validate ext m) (\<lambda>_. Inr (length body)))"
| "block_validate ext (BlockImage media m) =
     and_then (media_validate ext media) (\<lambda>_.
     and_then
       (refuse_if
          (\<not> media_is_image (at_media_type (mr_attachment media)) \<or> \<not> declared_is media_is_image media)
          RichInvalid) (\<lambda>_.
     and_then (block_metadata_validate ext m) (\<lambda>_. Inr 0)))"
| "block_validate ext (BlockAudio media m) =
     and_then (media_validate ext media) (\<lambda>_.
     and_then (refuse_if (\<not> declared_is media_is_audio media) RichInvalid) (\<lambda>_.
     and_then (block_metadata_validate ext m) (\<lambda>_. Inr 0)))"
| "block_validate ext (BlockLink l) = and_then (resource_link_validate ext l) (\<lambda>_. Inr 0)"
| "block_validate ext (BlockEmbeddedText uri mime body exts m) =
     and_then (validate_uri ext uri) (\<lambda>_.
     and_then (validate_text body) (\<lambda>_.
     and_then (validate_extensions ext exts) (\<lambda>_.
     and_then (block_metadata_validate ext m) (\<lambda>_. Inr (length body)))))"
| "block_validate ext (BlockEmbeddedBlob uri media exts m) =
     and_then (validate_uri ext uri) (\<lambda>_.
     and_then (media_validate ext media) (\<lambda>_.
     and_then (validate_extensions ext exts) (\<lambda>_.
     and_then (block_metadata_validate ext m) (\<lambda>_. Inr 0))))"

text \<open>
  At most 256 blocks of at most 64 KiB each are added up, so the \<open>checked_add\<close> of the
  code has a value.
\<close>

definition rich_result_validate :: "rich_ext \<Rightarrow> rich_result \<Rightarrow> rich_error + unit" where
  "rich_result_validate ext r =
     and_then (refuse_if (rr_schema r \<noteq> 1 \<or> 256 < length (rr_blocks r)) RichInvalid) (\<lambda>_.
     and_then
       (try_fold (\<lambda>used b. and_then (block_validate ext b) (\<lambda>n. Inr (used + n))) 0 (rr_blocks r))
       (\<lambda>text_bytes.
     and_then (refuse_if (256 * 1024 < text_bytes) RichTooLarge) (\<lambda>_.
     and_then (structured_validate ext (rr_structured r)) (\<lambda>_.
     and_then (schema_check_validate (rr_check r)) (\<lambda>_.
       validate_extensions ext (rr_extensions r))))))"

definition rich_result_new ::
  "rich_ext \<Rightarrow> result_block list \<Rightarrow> structured_content \<Rightarrow> schema_check \<Rightarrow> extensions
   \<Rightarrow> rich_error + rich_result" where
  "rich_result_new ext blocks structured check exts =
     (let r = \<lparr>rr_schema = 1, rr_blocks = blocks, rr_structured = structured, rr_check = check,
               rr_extensions = exts\<rparr>
      in and_then (rich_result_validate ext r) (\<lambda>_. Inr r))"

section \<open>Text for the model\<close>

text \<open>A space, U+00B7 and a space.\<close>

definition middle_dot :: string where
  "middle_dot = [CHR 0x20, CHR 0xC2, CHR 0xB7, CHR 0x20]"

definition media_label :: "media_reference \<Rightarrow> string" where
  "media_label m = (case mr_declared m of None \<Rightarrow> at_media_type (mr_attachment m) | Some t \<Rightarrow> t)"

definition media_bytes :: "media_reference \<Rightarrow> string" where
  "media_bytes m = show_nat (at_byte_len (mr_attachment m)) @ '' bytes]''"

fun block_line :: "result_block \<Rightarrow> string" where
  "block_line (BlockText body m) = body"
| "block_line (BlockImage media m) = ''[image '' @ media_label media @ middle_dot @ media_bytes media"
| "block_line (BlockAudio media m) = ''[audio '' @ media_label media @ middle_dot @ media_bytes media"
| "block_line (BlockLink l) =
     ''[resource_link '' @ rl_uri l @ middle_dot @ rl_name l
       @ (case rl_mime l of None \<Rightarrow> [] | Some mime \<Rightarrow> middle_dot @ mime)
       @ '']'' @ (case rl_description l of None \<Rightarrow> [] | Some d \<Rightarrow> [CHR 0x20] @ d)"
| "block_line (BlockEmbeddedText uri mime body exts m) =
     ''[resource '' @ uri @ middle_dot
       @ (case mime of None \<Rightarrow> ''unknown'' | Some t \<Rightarrow> t) @ '']'' @ [CHR 0x0A] @ body"
| "block_line (BlockEmbeddedBlob uri media exts m) =
     ''[resource '' @ uri @ middle_dot @ media_label media @ middle_dot @ media_bytes media"

fun structured_lines :: "rich_ext \<Rightarrow> structured_content \<Rightarrow> string list" where
  "structured_lines ext StructuredAbsent = []"
| "structured_lines ext (StructuredPresent j) = [''[structured content]'', re_pretty ext j]"

fun check_lines :: "schema_check \<Rightarrow> string list" where
  "check_lines SchemaMissing = [''[structured content missing: the tool declares an output schema]'']"
| "check_lines (SchemaViolates requirement) =
     [''[structured content does not match the tool'' @ [CHR 0x27] @ ''s declared output schema: ''
        @ requirement @ '']'']"
| "check_lines _ = []"

definition render_for_model :: "rich_ext \<Rightarrow> rich_result \<Rightarrow> string" where
  "render_for_model ext r =
     join_with [CHR 0x0A]
       (map block_line (rr_blocks r) @ structured_lines ext (rr_structured r) @ check_lines (rr_check r))"

section \<open>What acceptance bounds\<close>

fun block_body :: "result_block \<Rightarrow> string" where
  "block_body (BlockText body m) = body"
| "block_body (BlockEmbeddedText uri mime body exts m) = body"
| "block_body _ = []"

lemma block_validate_length: "block_validate ext b = Inr n \<Longrightarrow> n = length (block_body b) \<and> n \<le> 64 * 1024"
  by (cases b) (auto simp: validate_text_def)

lemma blocks_fold:
  "try_fold (\<lambda>used b. and_then (block_validate ext b) (\<lambda>n. Inr (used + n))) t bs = Inr s \<Longrightarrow>
   s = t + sum_list (map (\<lambda>b. length (block_body b)) bs) \<and> s \<le> t + 64 * 1024 * length bs"
proof (induction bs arbitrary: t)
  case (Cons b bs)
  then obtain n where n: "block_validate ext b = Inr n"
    "try_fold (\<lambda>used b. and_then (block_validate ext b) (\<lambda>n. Inr (used + n))) (t + n) bs = Inr s"
    by auto
  from Cons.IH [OF n(2)] block_validate_length [OF n(1)] show ?case by simp
qed simp

lemma rich_result_text_bound:
  "rich_result_validate ext r = Inr () \<Longrightarrow>
   sum_list (map (\<lambda>b. length (block_body b)) (rr_blocks r)) \<le> 256 * 1024"
  by (auto simp: rich_result_validate_def dest!: blocks_fold)

end
