(* ===== verification/Request_Snapshot.thy ===== *)
theory Request_Snapshot
  imports Provider_Vocab Attachment
begin

text \<open>
  What a session records of a request before it is sent (\<open>heycode-session/src/request.rs\<close>,
  \<open>request_configuration.rs\<close>, \<open>heycode-core/src/context_budget.rs\<close>): the header with its
  route, tools and options, the fingerprints that say what changed since the request before, and
  the capacity context. The record \<open>request_ext\<close> holds SHA-256, \<open>serde_json::to_vec\<close>
  (its bytes and their number) and the number a temperature serializes to; a temperature is the bit
  pattern of its \<open>f32\<close>.
\<close>

record request_ext =
  rq_sha256 :: "string \<Rightarrow> string"
  rq_bytes :: "json \<Rightarrow> string option"
  rq_len :: "json \<Rightarrow> nat option"
  rq_float :: "nat \<Rightarrow> json"

datatype snapshot_error = InvalidSnapshot string

section \<open>Context budget\<close>

datatype context_confidence = ConfidenceExact | ConfidenceEstimated | ConfidenceAtLeast

datatype limit_source = LimitModel | LimitConfiguredCap | LimitConfiguredFallback | LimitUnknown

datatype context_activity = ContextReady | ContextCompacting | ContextFailed

record context_budget =
  cb_provider :: string
  cb_model :: string
  cb_used :: nat
  cb_confidence :: context_confidence
  cb_window :: "nat option"
  cb_limit_source :: limit_source
  cb_output_reserve :: nat
  cb_safety_margin :: nat
  cb_usable_input :: "nat option"
  cb_compact_at :: "nat option"
  cb_auto_compact :: bool
  cb_activity :: context_activity
  cb_before :: "nat option"
  cb_after :: "nat option"
  cb_projected :: bool

definition should_compact :: "context_budget \<Rightarrow> bool" where
  "should_compact b \<longleftrightarrow>
     cb_auto_compact b \<and> (case cb_compact_at b of None \<Rightarrow> False | Some limit \<Rightarrow> limit \<le> cb_used b)"

definition exceeds_usable_input :: "context_budget \<Rightarrow> bool" where
  "exceeds_usable_input b =
     (case cb_usable_input b of None \<Rightarrow> False | Some limit \<Rightarrow> limit < cb_used b)"

definition remaining_input :: "context_budget \<Rightarrow> nat option" where
  "remaining_input b = map_option (\<lambda>limit. limit - cb_used b) (cb_usable_input b)"

section \<open>Header\<close>

datatype request_target =
    TargetHttp string
  | TargetManaged string "string option" \<comment> \<open>service, location\<close>

datatype request_authentication = AuthNone | AuthAdapterOwned | AuthCredential string | AuthAmbient

datatype retry_safety = RetryNever | RetryDefinitiveFailures | RetryStatelessPreOutput

record request_retry =
  rt_max_attempts :: nat
  rt_safety :: retry_safety

record request_options =
  ro_modalities :: "string list"
  ro_effort :: "string option"
  ro_defaulted_effort :: bool
  ro_structured :: "json option"
  ro_features :: "string list"
  ro_routes :: "native_route list"
  ro_provider_options :: "provider_option list"
  ro_temperature :: "nat option"
  ro_max_output :: "nat option"
  ro_defaulted_max_output :: bool
  ro_purpose :: string
  ro_retry :: "request_retry option"

datatype configuration_change =
  ChangeInitial | ChangeSystem | ChangeTools | ChangeRoute | ChangeOptions

record request_configuration =
  cf_revision :: nat
  cf_sha256 :: string
  cf_system :: string
  cf_tools :: string
  cf_route :: string
  cf_options :: string
  cf_changed :: "configuration_change list"

record request_header =
  rh_configuration :: "request_configuration option"
  rh_provider :: string
  rh_model :: string
  rh_protocol :: provider_protocol
  rh_target :: request_target
  rh_authentication :: request_authentication
  rh_system :: "string option"
  rh_prompt_sha256 :: string
  rh_tools :: "tool_spec list"
  rh_options :: request_options

section \<open>Parts of a header\<close>

definition non_blank :: "string \<Rightarrow> string \<Rightarrow> snapshot_error + unit" where
  "non_blank fld s = refuse_if (s = [] \<or> trim s \<noteq> s) (InvalidSnapshot fld)"

fun unique_from :: "string \<Rightarrow> string list \<Rightarrow> string list \<Rightarrow> snapshot_error + unit" where
  "unique_from fld seen [] = Inr ()"
| "unique_from fld seen (s # ss) =
     and_then (non_blank fld s) (\<lambda>_.
     and_then (refuse_if (s \<in> set seen) (InvalidSnapshot fld)) (\<lambda>_. unique_from fld (s # seen) ss))"

definition unique_non_blank :: "string \<Rightarrow> string list \<Rightarrow> snapshot_error + unit" where
  "unique_non_blank fld ss = unique_from fld [] ss"

text \<open>The part of an absolute URL up to the first slash, question mark or hash.\<close>

definition url_authority :: "string \<Rightarrow> string option" where
  "url_authority url =
     map_option (takeWhile (\<lambda>c. c \<notin> set ''/?#''))
       (case strip_prefix ''http://'' url of
          Some rest \<Rightarrow> Some rest
        | None \<Rightarrow> strip_prefix ''https://'' url)"

fun target_validate :: "request_target \<Rightarrow> snapshot_error + unit" where
  "target_validate (TargetHttp url) =
     refuse_if
       (has_whitespace url
        \<or> (case url_authority url of None \<Rightarrow> True | Some a \<Rightarrow> a = [] \<or> CHR ''@'' \<in> set a))
       (InvalidSnapshot ''target'')"
| "target_validate (TargetManaged service location) =
     and_then (non_blank ''target'' service) (\<lambda>_.
       case location of None \<Rightarrow> Inr () | Some l \<Rightarrow> non_blank ''target'' l)"

fun authentication_validate :: "request_authentication \<Rightarrow> snapshot_error + unit" where
  "authentication_validate (AuthCredential reference) = non_blank ''authentication'' reference"
| "authentication_validate _ = Inr ()"

definition prompt_sha256 :: "request_ext \<Rightarrow> string \<Rightarrow> string" where
  "prompt_sha256 ext body = hex_of (rq_sha256 ext body)"

definition system_text :: "string option \<Rightarrow> string" where
  "system_text s = (case s of None \<Rightarrow> [] | Some body \<Rightarrow> body)"

fun tools_validate :: "string list \<Rightarrow> tool_spec list \<Rightarrow> snapshot_error + unit" where
  "tools_validate seen [] = Inr ()"
| "tools_validate seen (t # ts) =
     and_then (non_blank ''tools'' (ts_name t)) (\<lambda>_.
     and_then
       (refuse_if (\<not> is_json_object (ts_parameters t) \<or> ts_name t \<in> set seen) (InvalidSnapshot ''tools''))
       (\<lambda>_. tools_validate (ts_name t # seen) ts))"

text \<open>The names seen and the one before: unique and ascending.\<close>

fun routes_validate :: "string list \<Rightarrow> string option \<Rightarrow> native_route list \<Rightarrow> snapshot_error + unit" where
  "routes_validate seen prior [] = Inr ()"
| "routes_validate seen prior (r # rs) =
     and_then (map_err (\<lambda>_. InvalidSnapshot ''native_tool_routes'') (native_route_validate r)) (\<lambda>_.
     and_then
       (refuse_if
          (nr_logical r \<in> set seen
           \<or> (case prior of None \<Rightarrow> False | Some p \<Rightarrow> nr_logical r \<le> p))
          (InvalidSnapshot ''native_tool_routes''))
       (\<lambda>_. routes_validate (nr_logical r # seen) (Some (nr_logical r)) rs))"

fun options_validate ::
  "request_ext \<Rightarrow> string \<Rightarrow> string list \<Rightarrow> provider_option list \<Rightarrow> snapshot_error + unit" where
  "options_validate ext provider kinds [] = Inr ()"
| "options_validate ext provider kinds (p # ps) =
     and_then
       (map_err (\<lambda>_. InvalidSnapshot ''provider_options'') (provider_option_validate (rq_len ext) p)) (\<lambda>_.
     and_then
       (refuse_if (po_provider p \<noteq> provider \<or> po_kind p \<in> set kinds) (InvalidSnapshot ''provider_options''))
       (\<lambda>_. options_validate ext provider (po_kind p # kinds) ps))"

text \<open>\<open>f32::is_finite\<close>: the exponent field is not all ones.\<close>

definition f32_is_finite :: "nat \<Rightarrow> bool" where
  "f32_is_finite bits \<longleftrightarrow> bits div 2 ^ 23 mod 256 \<noteq> 255"

definition request_options_validate ::
  "request_ext \<Rightarrow> string \<Rightarrow> request_options \<Rightarrow> snapshot_error + unit" where
  "request_options_validate ext provider r =
     and_then (refuse_if (ro_modalities r = []) (InvalidSnapshot ''input_modalities'')) (\<lambda>_.
     and_then (unique_non_blank ''input_modalities'' (ro_modalities r)) (\<lambda>_.
     and_then
       (case ro_effort r of None \<Rightarrow> Inr () | Some e \<Rightarrow> non_blank ''reasoning_effort'' e) (\<lambda>_.
     and_then
       (refuse_if (case ro_structured r of None \<Rightarrow> False | Some schema \<Rightarrow> \<not> is_json_object schema)
          (InvalidSnapshot ''structured_output'')) (\<lambda>_.
     and_then (unique_non_blank ''native_features'' (ro_features r)) (\<lambda>_.
     and_then (routes_validate [] None (ro_routes r)) (\<lambda>_.
     and_then (options_validate ext provider [] (ro_provider_options r)) (\<lambda>_.
     and_then
       (refuse_if (case ro_temperature r of None \<Rightarrow> False | Some b \<Rightarrow> \<not> f32_is_finite b)
          (InvalidSnapshot ''temperature'')) (\<lambda>_.
     and_then (refuse_if (ro_max_output r = Some 0) (InvalidSnapshot ''max_output_tokens'')) (\<lambda>_.
       non_blank ''purpose'' (ro_purpose r))))))))))"

section \<open>Serialized fields\<close>

definition json_opt :: "('a \<Rightarrow> json) \<Rightarrow> 'a option \<Rightarrow> json" where
  "json_opt f x = (case x of None \<Rightarrow> JNull | Some a \<Rightarrow> f a)"

text \<open>A field that is left out when it is \<open>None\<close>.\<close>

definition json_present :: "string \<Rightarrow> ('a \<Rightarrow> json) \<Rightarrow> 'a option \<Rightarrow> (string \<times> json) list" where
  "json_present key f x = (case x of None \<Rightarrow> [] | Some a \<Rightarrow> [(key, f a)])"

definition json_nat :: "nat \<Rightarrow> json" where
  "json_nat n = JInt (int n)"

definition json_strings :: "string list \<Rightarrow> json" where
  "json_strings ss = JArray (map JString ss)"

definition tool_json :: "tool_spec \<Rightarrow> json" where
  "tool_json t =
     JObject [(''name'', JString (ts_name t)), (''description'', JString (ts_description t)),
              (''parameters'', ts_parameters t)]"

definition tools_json :: "tool_spec list \<Rightarrow> json" where
  "tools_json tools = JArray (map tool_json tools)"

fun protocol_json :: "provider_protocol \<Rightarrow> json" where
  "protocol_json ProtocolUnknown = JString ''unknown''"
| "protocol_json OpenAiChatCompletions = JString ''open_ai_chat_completions''"
| "protocol_json OpenAiResponses = JString ''open_ai_responses''"
| "protocol_json AnthropicMessages = JString ''anthropic_messages''"
| "protocol_json GeminiGenerateContent = JString ''gemini_generate_content''"
| "protocol_json BedrockConverse = JString ''bedrock_converse''"
| "protocol_json DelegatedAgent = JString ''delegated_agent''"

fun target_json :: "request_target \<Rightarrow> json" where
  "target_json (TargetHttp url) = JObject [(''kind'', JString ''http''), (''base_url'', JString url)]"
| "target_json (TargetManaged service location) =
     JObject [(''kind'', JString ''managed_service''), (''service'', JString service),
              (''location'', json_opt JString location)]"

fun authentication_json :: "request_authentication \<Rightarrow> json" where
  "authentication_json AuthNone = JObject [(''kind'', JString ''none'')]"
| "authentication_json AuthAdapterOwned = JObject [(''kind'', JString ''adapter_owned'')]"
| "authentication_json (AuthCredential reference) =
     JObject [(''kind'', JString ''credential''), (''reference'', JString reference)]"
| "authentication_json AuthAmbient = JObject [(''kind'', JString ''ambient'')]"

definition route_json :: "request_header \<Rightarrow> json" where
  "route_json h =
     JObject [(''provider'', JString (rh_provider h)), (''model'', JString (rh_model h)),
              (''protocol'', protocol_json (rh_protocol h)), (''target'', target_json (rh_target h)),
              (''authentication'', authentication_json (rh_authentication h))]"

fun implementation_json :: "implementation_kind \<Rightarrow> json" where
  "implementation_json ByProvider = JString ''provider''"
| "implementation_json ByClient = JString ''client''"
| "implementation_json ByMcp = JString ''mcp''"

definition native_route_json :: "native_route \<Rightarrow> json" where
  "native_route_json r =
     JObject [(''logical'', JString (nr_logical r)), (''implementation'', JString (nr_implementation r)),
              (''kind'', implementation_json (nr_kind r)), (''provider'', json_opt JString (nr_provider r))]"

definition provider_option_json :: "provider_option \<Rightarrow> json" where
  "provider_option_json p =
     JObject [(''provider'', JString (po_provider p)), (''kind'', JString (po_kind p)),
              (''schema_version'', json_nat (po_schema p)), (''data'', po_data p)]"

fun safety_json :: "retry_safety \<Rightarrow> json" where
  "safety_json RetryNever = JString ''never''"
| "safety_json RetryDefinitiveFailures = JString ''definitive_failures_only''"
| "safety_json RetryStatelessPreOutput = JString ''stateless_pre_output''"

definition retry_json :: "request_retry \<Rightarrow> json" where
  "retry_json r =
     JObject [(''max_attempts'', json_nat (rt_max_attempts r)), (''safety'', safety_json (rt_safety r))]"

definition options_json :: "request_ext \<Rightarrow> request_options \<Rightarrow> json" where
  "options_json ext r =
     JObject
       ([(''input_modalities'', json_strings (ro_modalities r))]
        @ json_present ''reasoning_effort'' JString (ro_effort r)
        @ [(''defaulted_reasoning_effort'', JBool (ro_defaulted_effort r))]
        @ json_present ''structured_output'' (\<lambda>j. j) (ro_structured r)
        @ [(''native_features'', json_strings (ro_features r)),
           (''native_tool_routes'', JArray (map native_route_json (ro_routes r))),
           (''provider_options'', JArray (map provider_option_json (ro_provider_options r)))]
        @ json_present ''temperature'' (rq_float ext) (ro_temperature r)
        @ json_present ''max_output_tokens'' json_nat (ro_max_output r)
        @ [(''defaulted_max_output_tokens'', JBool (ro_defaulted_max_output r)),
           (''purpose'', JString (ro_purpose r))]
        @ json_present ''retry'' retry_json (ro_retry r))"

section \<open>Fingerprints\<close>

abbreviation bad_configuration :: snapshot_error where
  "bad_configuration \<equiv> InvalidSnapshot ''configuration''"

definition json_hash :: "request_ext \<Rightarrow> json \<Rightarrow> snapshot_error + string" where
  "json_hash ext j =
     and_then (ok_or bad_configuration (rq_bytes ext (canonicalize_json j))) (\<lambda>bytes.
       Inr (hex_of (rq_sha256 ext bytes)))"

definition fingerprints :: "request_ext \<Rightarrow> request_header \<Rightarrow> snapshot_error + request_configuration" where
  "fingerprints ext h =
     and_then (json_hash ext (tools_json (rh_tools h))) (\<lambda>tools.
     and_then (json_hash ext (route_json h)) (\<lambda>route.
     and_then (json_hash ext (options_json ext (rh_options h))) (\<lambda>options.
     and_then
       (json_hash ext
          (JObject [(''system'', JString (rh_prompt_sha256 h)), (''tools'', JString tools),
                    (''route'', JString route), (''options'', JString options)])) (\<lambda>digest.
       Inr \<lparr>cf_revision = 1, cf_sha256 = digest, cf_system = rh_prompt_sha256 h, cf_tools = tools,
            cf_route = route, cf_options = options, cf_changed = [ChangeInitial]\<rparr>))))"

definition configuration_validate ::
  "request_ext \<Rightarrow> request_header \<Rightarrow> request_configuration \<Rightarrow> snapshot_error + unit" where
  "configuration_validate ext h c =
     and_then (fingerprints ext h) (\<lambda>expected.
     and_then (refuse_if (\<not> distinct (cf_changed c)) bad_configuration) (\<lambda>_.
       refuse_if
         (cf_revision c = 0
          \<or> cf_sha256 c \<noteq> cf_sha256 expected
          \<or> cf_system c \<noteq> cf_system expected
          \<or> cf_tools c \<noteq> cf_tools expected
          \<or> cf_route c \<noteq> cf_route expected
          \<or> cf_options c \<noteq> cf_options expected
          \<or> (ChangeInitial \<in> set (cf_changed c) \<and> length (cf_changed c) \<noteq> 1)) bad_configuration))"

definition request_header_validate :: "request_ext \<Rightarrow> request_header \<Rightarrow> snapshot_error + unit" where
  "request_header_validate ext h =
     and_then (non_blank ''provider'' (rh_provider h)) (\<lambda>_.
     and_then (non_blank ''model'' (rh_model h)) (\<lambda>_.
     and_then (target_validate (rh_target h)) (\<lambda>_.
     and_then (authentication_validate (rh_authentication h)) (\<lambda>_.
     and_then (refuse_if (rh_system h = Some []) (InvalidSnapshot ''system'')) (\<lambda>_.
     and_then
       (refuse_if (rh_prompt_sha256 h \<noteq> prompt_sha256 ext (system_text (rh_system h)))
          (InvalidSnapshot ''prompt_sha256'')) (\<lambda>_.
     and_then
       (refuse_if
          (length (rh_prompt_sha256 h) \<noteq> 64
           \<or> \<not> list_all (\<lambda>b. is_ascii_hexdigit b \<and> \<not> is_ascii_uppercase b) (rh_prompt_sha256 h))
          (InvalidSnapshot ''prompt_sha256'')) (\<lambda>_.
     and_then (tools_validate [] (rh_tools h)) (\<lambda>_.
     and_then (request_options_validate ext (rh_provider h) (rh_options h)) (\<lambda>_.
       case rh_configuration h of None \<Rightarrow> Inr () | Some c \<Rightarrow> configuration_validate ext h c)))))))))"

definition request_header_new ::
  "request_ext \<Rightarrow> string \<Rightarrow> string \<Rightarrow> provider_protocol \<Rightarrow> request_target \<Rightarrow> request_authentication
   \<Rightarrow> string option \<Rightarrow> tool_spec list \<Rightarrow> request_options \<Rightarrow> snapshot_error + request_header" where
  "request_header_new ext provider model protocol target auth system tools options =
     (let h = \<lparr>rh_configuration = None, rh_provider = provider, rh_model = model,
               rh_protocol = protocol, rh_target = target, rh_authentication = auth,
               rh_system = system, rh_prompt_sha256 = prompt_sha256 ext (system_text system),
               rh_tools = tools, rh_options = options\<rparr>
      in and_then (request_header_validate ext h) (\<lambda>_. Inr h))"

section \<open>Configuration lineage\<close>

definition changed_components ::
  "request_configuration \<Rightarrow> request_configuration \<Rightarrow> configuration_change list" where
  "changed_components before after =
     (if cf_system before \<noteq> cf_system after then [ChangeSystem] else [])
     @ (if cf_tools before \<noteq> cf_tools after then [ChangeTools] else [])
     @ (if cf_route before \<noteq> cf_route after then [ChangeRoute] else [])
     @ (if cf_options before \<noteq> cf_options after then [ChangeOptions] else [])"

definition previous_configuration :: "request_header option \<Rightarrow> request_configuration option" where
  "previous_configuration previous = Option.bind previous rh_configuration"

definition next_configuration ::
  "request_configuration option \<Rightarrow> request_configuration \<Rightarrow> snapshot_error + request_configuration" where
  "next_configuration previous current =
     (case previous of
        None \<Rightarrow> Inr current
      | Some before \<Rightarrow>
          let changed = changed_components before current
          in and_then
               (if changed = [] then Inr (cf_revision before)
                else ok_or bad_configuration (checked_add_u64 (cf_revision before) 1)) (\<lambda>revision.
             Inr (current\<lparr>cf_changed := changed, cf_revision := revision\<rparr>)))"

definition record_configuration ::
  "request_ext \<Rightarrow> request_header option \<Rightarrow> request_header \<Rightarrow> snapshot_error + request_header" where
  "record_configuration ext previous h =
     and_then (fingerprints ext h) (\<lambda>current.
     and_then (next_configuration (previous_configuration previous) current) (\<lambda>c.
       let h' = h\<lparr>rh_configuration := Some c\<rparr>
       in and_then (request_header_validate ext h') (\<lambda>_. Inr h')))"

definition validate_configuration_after ::
  "request_ext \<Rightarrow> request_header option \<Rightarrow> request_header \<Rightarrow> snapshot_error + unit" where
  "validate_configuration_after ext previous h =
     (if rh_configuration h = None then Inr ()
      else and_then (record_configuration ext previous h) (\<lambda>expected.
             refuse_if (rh_configuration h \<noteq> rh_configuration expected) bad_configuration))"

section \<open>Capacity context\<close>

datatype contributor_measurement =
    MeasuredExact nat
  | MeasuredEstimated nat string
  | Uncounted string

record request_contributor =
  rc_contributor :: string
  rc_measurement :: contributor_measurement
  rc_refusals :: "string list"

record request_context =
  rx_contributors :: "request_contributor list option"
  rx_budget :: "context_budget option"
  rx_effective_at :: nat
  rx_window :: "nat option"
  rx_max_output :: "nat option"
  rx_catalog_revision :: "nat option"
  rx_catalog_fetched :: "nat option"

definition known_contributors :: "string list" where
  "known_contributors =
     [''system'', ''guidance'', ''messages'', ''tools'', ''tool_results'', ''provider_state'',
      ''attachments'']"

definition required_contributors :: "string list" where
  "required_contributors =
     [''system'', ''messages'', ''tools'', ''tool_results'', ''provider_state'', ''attachments'']"

fun measurement_ok :: "contributor_measurement \<Rightarrow> bool" where
  "measurement_ok (MeasuredExact tokens) = True"
| "measurement_ok (MeasuredEstimated tokens how) = (how \<in> {''utf8_byte_ratio'', ''provider_tokenizer''})"
| "measurement_ok (Uncounted reason) =
     (reason \<in> {''no_counter'', ''refused'', ''failed'', ''unmeasurable''})"

fun contributors_validate ::
  "string list \<Rightarrow> request_contributor list \<Rightarrow> snapshot_error + string list" where
  "contributors_validate seen [] = Inr seen"
| "contributors_validate seen (c # cs) =
     and_then
       (refuse_if
          (rc_contributor c \<notin> set known_contributors
           \<or> rc_contributor c \<in> set seen
           \<or> 64 < length (rc_refusals c)
           \<or> list_ex (\<lambda>reason. 4096 < length reason \<or> has_control reason) (rc_refusals c))
          (InvalidSnapshot ''contributors'')) (\<lambda>_.
     and_then
       (refuse_if (\<not> measurement_ok (rc_measurement c)) (InvalidSnapshot ''contributors'')) (\<lambda>_.
       contributors_validate (rc_contributor c # seen) cs))"

definition budget_ok :: "nat option \<Rightarrow> context_budget \<Rightarrow> bool" where
  "budget_ok window b \<longleftrightarrow>
     cb_window b \<noteq> Some 0 \<and> \<not> is_blank (cb_model b) \<and> \<not> is_blank (cb_provider b)
     \<and> (case (cb_window b, window) of (Some effective, Some model) \<Rightarrow> effective \<le> model | _ \<Rightarrow> True)"

definition context_validate :: "request_context \<Rightarrow> snapshot_error + unit" where
  "context_validate c =
     and_then
       (case rx_contributors c of
          None \<Rightarrow> Inr ()
        | Some cs \<Rightarrow>
            and_then (contributors_validate [] cs) (\<lambda>seen.
              refuse_if (\<not> list_all (\<lambda>name. name \<in> set seen) required_contributors)
                (InvalidSnapshot ''contributors''))) (\<lambda>_.
     and_then
       (refuse_if (case rx_budget c of None \<Rightarrow> False | Some b \<Rightarrow> \<not> budget_ok (rx_window c) b)
          (InvalidSnapshot ''budget'')) (\<lambda>_.
     and_then (refuse_if (rx_effective_at c = 0) (InvalidSnapshot ''effective_at_ms'')) (\<lambda>_.
     and_then (refuse_if (rx_window c = Some 0) (InvalidSnapshot ''context_window'')) (\<lambda>_.
     and_then (refuse_if (rx_max_output c = Some 0) (InvalidSnapshot ''max_output_tokens'')) (\<lambda>_.
     and_then
       (refuse_if ((rx_catalog_revision c \<noteq> None) \<noteq> (rx_catalog_fetched c \<noteq> None))
          (InvalidSnapshot ''catalog_revision'')) (\<lambda>_.
     and_then (refuse_if (rx_catalog_revision c = Some 0) (InvalidSnapshot ''catalog_revision'')) (\<lambda>_.
       refuse_if (rx_catalog_fetched c = Some 0) (InvalidSnapshot ''catalog_fetched_at_ms''))))))))"

definition request_context_new ::
  "nat option \<Rightarrow> nat option \<Rightarrow> nat option \<Rightarrow> nat option \<Rightarrow> nat \<Rightarrow> snapshot_error + request_context" where
  "request_context_new window max_output revision fetched at =
     (let c = \<lparr>rx_contributors = None, rx_budget = None, rx_effective_at = at, rx_window = window,
               rx_max_output = max_output, rx_catalog_revision = revision, rx_catalog_fetched = fetched\<rparr>
      in and_then (context_validate c) (\<lambda>_. Inr c))"

end
