(* ===== verification/Inbox_Projection.thy ===== *)
theory Inbox_Projection
  imports Session_Event "HOL-Library.Multiset"
begin

text \<open>
  The durable inbox of a session (\<open>InboxProjection\<close> of \<open>inbox.rs\<close>): two pending
  lists, the settlements of removed messages, and the fold of all splice events. Validation and
  commit are separate, as in the code, where an append validates first and commits after the
  write.
\<close>

section \<open>State\<close>

record inbox_settlement =
  st_seq :: nat
  st_target :: inbox_target
  st_message :: inbox_message

record inbox_projection =
  ip_next_turn :: "inbox_message list"
  ip_next_step :: "inbox_message list"
  ip_claimed :: "inbox_settlement list"
  ip_canceled :: "inbox_settlement list"
  ip_seen :: "string btree_set"

definition inbox_default :: inbox_projection where
  "inbox_default =
     \<lparr>ip_next_turn = [], ip_next_step = [], ip_claimed = [], ip_canceled = [], ip_seen = bt_empty\<rparr>"

datatype inbox_projection_error =
    InboxUnsupportedVersion nat nat \<comment> \<open>seq, found\<close>
  | InboxInvalidSplice nat splice_shape_error
  | InboxOutOfBounds nat inbox_target nat nat nat \<comment> \<open>seq, target, start, removed, pending\<close>
  | InboxReusedId nat string

record validated_splice =
  vs_target :: inbox_target
  vs_start :: nat
  vs_removed :: nat
  vs_outcome :: "inbox_splice_outcome option"

fun inbox_queue :: "inbox_projection \<Rightarrow> inbox_target \<Rightarrow> inbox_message list" where
  "inbox_queue p NextTurn = ip_next_turn p"
| "inbox_queue p NextStep = ip_next_step p"

section \<open>One event\<close>

definition inbox_validate_event ::
  "label_json \<Rightarrow> inbox_projection \<Rightarrow> session_event
   \<Rightarrow> inbox_projection_error + validated_splice option" where
  "inbox_validate_event ser p e =
     (case ev_kind e of
        AgentInboxSplice sp \<Rightarrow>
          and_then
            (refuse_if (ev_v e \<noteq> current_session_log_version)
               (InboxUnsupportedVersion (ev_seq e) (ev_v e))) (\<lambda>_.
          and_then (map_err (InboxInvalidSplice (ev_seq e)) (validate_splice_shape ser sp)) (\<lambda>_.
          and_then
            (try_all (\<lambda>m. refuse_if (bt_contains (ip_seen p) (im_id m))
                (InboxReusedId (ev_seq e) (im_id m))) (sp_inserted sp)) (\<lambda>_.
            let removed = (case sp_removed sp of None \<Rightarrow> 0 | Some n \<Rightarrow> n);
                pending = length (inbox_queue p (sp_target sp))
            in and_then
                 (refuse_if (pending < sp_start sp \<or> pending - sp_start sp < removed)
                    (InboxOutOfBounds (ev_seq e) (sp_target sp) (sp_start sp) removed pending))
                 (\<lambda>_. Inr (Some \<lparr>vs_target = sp_target sp, vs_start = sp_start sp,
                         vs_removed = removed, vs_outcome = sp_outcome sp\<rparr>)))))
      | _ \<Rightarrow> Inr None)"

text \<open>\<open>Vec::splice\<close>: the list with a range replaced, and the range.\<close>

definition vec_splice :: "nat \<Rightarrow> nat \<Rightarrow> 'a list \<Rightarrow> 'a list \<Rightarrow> 'a list \<times> 'a list" where
  "vec_splice start n inserted xs =
     (take start xs @ inserted @ drop (start + n) xs, take n (drop start xs))"

definition inbox_commit ::
  "session_event \<Rightarrow> validated_splice \<Rightarrow> inbox_projection \<Rightarrow> inbox_projection" where
  "inbox_commit e v p =
     (case ev_kind e of
        AgentInboxSplice sp \<Rightarrow>
          let (queue, removed) =
                vec_splice (vs_start v) (vs_removed v) (sp_inserted sp) (inbox_queue p (vs_target v));
              p1 = (case vs_target v of
                      NextTurn \<Rightarrow> p\<lparr>ip_next_turn := queue\<rparr>
                    | NextStep \<Rightarrow> p\<lparr>ip_next_step := queue\<rparr>);
              p2 = p1\<lparr>ip_seen := fold (\<lambda>m. bt_insert (im_id m) ()) (sp_inserted sp) (ip_seen p1)\<rparr>;
              settled = map (\<lambda>m. \<lparr>st_seq = ev_seq e, st_target = vs_target v, st_message = m\<rparr>) removed
          in (case vs_outcome v of
                Some Canceled \<Rightarrow> p2\<lparr>ip_canceled := ip_canceled p2 @ settled\<rparr>
              | None \<Rightarrow> p2\<lparr>ip_claimed := ip_claimed p2 @ settled\<rparr>)
      | _ \<Rightarrow> p)"

definition inbox_apply_event ::
  "label_json \<Rightarrow> inbox_projection \<Rightarrow> session_event \<Rightarrow> inbox_projection_error + inbox_projection" where
  "inbox_apply_event ser p e =
     and_then (inbox_validate_event ser p e) (\<lambda>r.
       Inr (case r of None \<Rightarrow> p | Some v \<Rightarrow> inbox_commit e v p))"

definition project_inbox ::
  "label_json \<Rightarrow> session_event list \<Rightarrow> inbox_projection_error + inbox_projection" where
  "project_inbox ser events = try_fold (inbox_apply_event ser) inbox_default events"

section \<open>What an accepted event does\<close>

definition inserted_by :: "session_event \<Rightarrow> inbox_message list" where
  "inserted_by e = (case ev_kind e of AgentInboxSplice sp \<Rightarrow> sp_inserted sp | _ \<Rightarrow> [])"

text \<open>Every message the projection holds, pending or settled.\<close>

definition inbox_messages :: "inbox_projection \<Rightarrow> inbox_message list" where
  "inbox_messages p =
     ip_next_turn p @ ip_next_step p @ map st_message (ip_claimed p) @ map st_message (ip_canceled p)"

definition inbox_ok :: "label_json \<Rightarrow> inbox_projection \<Rightarrow> bool" where
  "inbox_ok ser p \<longleftrightarrow>
     bt_inv (ip_seen p)
     \<and> distinct (map im_id (inbox_messages p))
     \<and> (\<forall>i. bt_contains (ip_seen p) i \<longleftrightarrow> i \<in> im_id ` set (inbox_messages p))
     \<and> (\<forall>m \<in> set (inbox_messages p). message_validate ser m = Inr ())
     \<and> (\<forall>t. \<forall>m \<in> set (inbox_queue p t). delivery_target (im_delivery m) = t)
     \<and> (\<forall>st \<in> set (ip_claimed p) \<union> set (ip_canceled p).
          delivery_target (im_delivery (st_message st)) = st_target st)"

lemma vec_splice_mset:
  "mset (fst (vec_splice a n ins xs)) + mset (snd (vec_splice a n ins xs)) = mset xs + mset ins"
proof -
  have "xs = take a xs @ take n (drop a xs) @ drop (a + n) xs"
    by (metis append_take_drop_id add.commute drop_drop)
  then have "mset xs = mset (take a xs) + mset (take n (drop a xs)) + mset (drop (a + n) xs)"
    by (metis mset_append union_assoc)
  then show ?thesis by (simp add: vec_splice_def)
qed

lemma set_vec_splice:
  "set (fst (vec_splice a n ins xs)) \<subseteq> set xs \<union> set ins"
  "set (snd (vec_splice a n ins xs)) \<subseteq> set xs"
  by (auto simp: vec_splice_def dest: in_set_takeD in_set_dropD)

lemma inbox_validate_event_Some:
  "inbox_validate_event ser p e = Inr (Some v) \<longleftrightarrow>
     (\<exists>sp. ev_kind e = AgentInboxSplice sp \<and> ev_v e = current_session_log_version
        \<and> validate_splice_shape ser sp = Inr ()
        \<and> (\<forall>m \<in> set (sp_inserted sp). \<not> bt_contains (ip_seen p) (im_id m))
        \<and> sp_start sp + (case sp_removed sp of None \<Rightarrow> 0 | Some n \<Rightarrow> n)
            \<le> length (inbox_queue p (sp_target sp))
        \<and> v = \<lparr>vs_target = sp_target sp, vs_start = sp_start sp,
               vs_removed = (case sp_removed sp of None \<Rightarrow> 0 | Some n \<Rightarrow> n),
               vs_outcome = sp_outcome sp\<rparr>)"
  by (cases "ev_kind e") (auto simp: inbox_validate_event_def Let_def simp del: bt_contains_iff)

lemma inbox_validate_event_None:
  "inbox_validate_event ser p e = Inr None \<longleftrightarrow> (\<forall>sp. ev_kind e \<noteq> AgentInboxSplice sp)"
  by (cases "ev_kind e") (simp_all add: inbox_validate_event_def Let_def)


text \<open>A commit moves the removed messages to one ledger and adds the inserted ones.\<close>

lemma mset_inbox_commit:
  "mset (inbox_messages (inbox_commit e v p)) = mset (inbox_messages p) + mset (inserted_by e)"
proof (cases "ev_kind e")
  case (AgentInboxSplice sp)
  let ?r = "vec_splice (vs_start v) (vs_removed v) (sp_inserted sp) (inbox_queue p (vs_target v))"
  have "mset (fst ?r) + mset (snd ?r) = mset (inbox_queue p (vs_target v)) + mset (sp_inserted sp)"
    by (rule vec_splice_mset)
  then show ?thesis
    using AgentInboxSplice
    by (cases "vs_target v"; cases "vs_outcome v" rule: option.exhaust)
      (auto simp: inbox_commit_def inbox_messages_def inserted_by_def split_beta Let_def
        image_mset.compositionality comp_def ac_simps split: inbox_splice_outcome.splits)
qed (simp_all add: inbox_commit_def inserted_by_def)

lemma fold_insert_get:
  "bt_inv seen \<Longrightarrow> bt_inv (fold (\<lambda>m. bt_insert (im_id m) ()) ms seen)
     \<and> (\<forall>i. bt_contains (fold (\<lambda>m. bt_insert (im_id m) ()) ms seen) i \<longleftrightarrow>
          bt_contains seen i \<or> i \<in> im_id ` set ms)"
  by (induction ms arbitrary: seen) auto

lemma seen_commit:
  "ip_seen (inbox_commit e v p) = fold (\<lambda>m. bt_insert (im_id m) ()) (inserted_by e) (ip_seen p)"
  by (cases "ev_kind e"; cases "vs_target v"; cases "vs_outcome v")
    (auto simp: inbox_commit_def inserted_by_def vec_splice_def Let_def split: inbox_splice_outcome.splits)

lemma queue_commit:
  assumes "ev_kind e = AgentInboxSplice sp"
  shows "inbox_queue (inbox_commit e v p) t =
    (if t = vs_target v
     then fst (vec_splice (vs_start v) (vs_removed v) (sp_inserted sp) (inbox_queue p t))
     else inbox_queue p t)"
  using assms
  by (cases t; cases "vs_target v"; cases "vs_outcome v")
    (auto simp: inbox_commit_def vec_splice_def Let_def split: inbox_splice_outcome.splits)

definition settled_by :: "session_event \<Rightarrow> validated_splice \<Rightarrow> inbox_projection \<Rightarrow> inbox_settlement list" where
  "settled_by e v p =
     map (\<lambda>m. \<lparr>st_seq = ev_seq e, st_target = vs_target v, st_message = m\<rparr>)
       (take (vs_removed v) (drop (vs_start v) (inbox_queue p (vs_target v))))"

lemma ledger_commit:
  assumes "ev_kind e = AgentInboxSplice sp"
  shows "ip_claimed (inbox_commit e v p) =
      ip_claimed p @ (if vs_outcome v = None then settled_by e v p else [])"
    and "ip_canceled (inbox_commit e v p) =
      ip_canceled p @ (if vs_outcome v = Some Canceled then settled_by e v p else [])"
  using assms
  by (cases "vs_target v"; cases "vs_outcome v";
      auto simp: inbox_commit_def vec_splice_def settled_by_def Let_def split: inbox_splice_outcome.splits)+

lemma set_messages_mset: "set (inbox_messages p) = set_mset (mset (inbox_messages p))"
  by simp

lemma inbox_ok_default: "inbox_ok ser inbox_default"
proof -
  have "inbox_queue inbox_default t = []" for t by (cases t) (simp_all add: inbox_default_def)
  then show ?thesis by (simp add: inbox_ok_def inbox_default_def inbox_messages_def)
qed

lemma inbox_okD:
  assumes "inbox_ok ser p"
  shows "bt_inv (ip_seen p)" "distinct (map im_id (inbox_messages p))"
    and "\<And>i. bt_contains (ip_seen p) i \<longleftrightarrow> i \<in> im_id ` set (inbox_messages p)"
    and "\<And>m. m \<in> set (inbox_messages p) \<Longrightarrow> message_validate ser m = Inr ()"
    and "\<And>t m. m \<in> set (inbox_queue p t) \<Longrightarrow> delivery_target (im_delivery m) = t"
    and "\<And>st. st \<in> set (ip_claimed p) \<union> set (ip_canceled p) \<Longrightarrow>
      delivery_target (im_delivery (st_message st)) = st_target st"
  using assms unfolding inbox_ok_def by (elim conjE, (assumption | drule spec, assumption | blast))+

lemma inbox_ok_commit:
  assumes ok: "inbox_ok ser p" and v: "inbox_validate_event ser p e = Inr (Some v)"
  shows "inbox_ok ser (inbox_commit e v p)"
proof -
  obtain sp where e: "ev_kind e = AgentInboxSplice sp" and sp: "validate_splice_shape ser sp = Inr ()"
    and new: "\<forall>m \<in> set (sp_inserted sp). \<not> bt_contains (ip_seen p) (im_id m)"
    and vt: "vs_target v = sp_target sp"
    using v unfolding inbox_validate_event_Some by auto
  note shape = sp [unfolded validate_splice_shape_Inr]
  have ins: "inserted_by e = sp_inserted sp" using e by (simp add: inserted_by_def)
  let ?q = "inbox_commit e v p"
  have inv: "bt_inv (ip_seen p)"
    and ids: "\<And>i. bt_contains (ip_seen p) i \<longleftrightarrow> i \<in> im_id ` set (inbox_messages p)"
    by (rule inbox_okD [OF ok])+
  have ms: "mset (inbox_messages ?q) = mset (inbox_messages p @ sp_inserted sp)"
    by (simp add: mset_inbox_commit ins)
  then have set: "set (inbox_messages ?q) = set (inbox_messages p) \<union> set (sp_inserted sp)"
    by (metis set_append set_mset_mset)
  have same: "mset (map im_id (inbox_messages ?q)) = mset (map im_id (inbox_messages p @ sp_inserted sp))"
    using ms by simp
  have "distinct (map im_id (inbox_messages p))" by (rule inbox_okD [OF ok])
  moreover have "distinct (map im_id (sp_inserted sp))" using shape by blast
  moreover have "im_id ` set (inbox_messages p) \<inter> im_id ` set (sp_inserted sp) = {}"
  proof (rule disjoint_iff [THEN iffD2], intro allI impI notI)
    fix i assume i: "i \<in> im_id ` set (inbox_messages p)" and "i \<in> im_id ` set (sp_inserted sp)"
    then obtain m where m: "m \<in> set (sp_inserted sp)" "i = im_id m" by (elim imageE)
    have "bt_contains (ip_seen p) (im_id m)" using i unfolding ids m(2) .
    with new m(1) show False by simp
  qed
  ultimately have "distinct (map im_id (inbox_messages p @ sp_inserted sp))"
    unfolding map_append distinct_append set_map by (intro conjI)
  with same have dist: "distinct (map im_id (inbox_messages ?q))"
    by (rule mset_eq_imp_distinct_iff [THEN iffD2])
  have seen: "bt_inv (ip_seen ?q)"
      "\<And>i. bt_contains (ip_seen ?q) i \<longleftrightarrow> i \<in> im_id ` set (inbox_messages ?q)"
    unfolding seen_commit ins set using fold_insert_get [OF inv] ids by blast+
  have valid: "message_validate ser m = Inr ()" if "m \<in> set (inbox_messages ?q)" for m
    using that shape inbox_okD(4) [OF ok] unfolding set by blast
  have queues: "delivery_target (im_delivery m) = t" if "m \<in> set (inbox_queue ?q t)" for t m
  proof (cases "t = vs_target v")
    case True
    then have "m \<in> set (fst (vec_splice (vs_start v) (vs_removed v) (sp_inserted sp) (inbox_queue p t)))"
      using that by (simp add: queue_commit [OF e])
    then have "m \<in> set (inbox_queue p t) \<union> set (sp_inserted sp)" by (rule subsetD [OF set_vec_splice(1)])
    then show ?thesis
    proof
      assume "m \<in> set (inbox_queue p t)" then show ?thesis by (rule inbox_okD(5) [OF ok])
    next
      assume "m \<in> set (sp_inserted sp)" then show ?thesis using shape True vt by simp
    qed
  next
    case False
    then have "m \<in> set (inbox_queue p t)" using that by (simp add: queue_commit [OF e])
    then show ?thesis by (rule inbox_okD(5) [OF ok])
  qed
  have "delivery_target (im_delivery (st_message st)) = st_target st"
    if st: "st \<in> set (settled_by e v p)" for st
  proof -
    have "st_message st \<in> set (inbox_queue p (vs_target v))" "st_target st = vs_target v"
      using st by (auto simp: settled_by_def dest!: in_set_takeD dest: in_set_dropD)
    then show ?thesis using inbox_okD(5) [OF ok] by metis
  qed
  then have ledgers: "delivery_target (im_delivery (st_message st)) = st_target st"
    if "st \<in> set (ip_claimed ?q) \<union> set (ip_canceled ?q)" for st
    using that inbox_okD(6) [OF ok] unfolding ledger_commit [OF e] by (auto split: if_splits)
  show ?thesis
    unfolding inbox_ok_def using dist seen valid queues ledgers by blast
qed

lemma inbox_ok_apply: "inbox_ok ser p \<Longrightarrow> inbox_apply_event ser p e = Inr q \<Longrightarrow> inbox_ok ser q"
  by (auto simp: inbox_apply_event_def intro: inbox_ok_commit split: option.splits)

interpretation inbox: replay inbox_default "inbox_apply_event ser" "inbox_ok ser" for ser
  by unfold_locales (rule inbox_ok_default, erule (1) inbox_ok_apply)

lemma inserted_by_none: "(\<forall>sp. ev_kind e \<noteq> AgentInboxSplice sp) \<Longrightarrow> inserted_by e = []"
  by (cases "ev_kind e") (simp_all add: inserted_by_def)

lemma mset_inbox_apply:
  assumes "inbox_apply_event ser p e = Inr q"
  shows "mset (inbox_messages q) = mset (inbox_messages p) + mset (inserted_by e)"
proof -
  obtain r where r: "inbox_validate_event ser p e = Inr r"
    and q: "q = (case r of None \<Rightarrow> p | Some v \<Rightarrow> inbox_commit e v p)"
    using assms by (auto simp: inbox_apply_event_def)
  show ?thesis
  proof (cases r)
    case None
    with r have "inserted_by e = []" by (simp add: inbox_validate_event_None inserted_by_none)
    with q None show ?thesis by simp
  next
    case (Some v)
    with q show ?thesis by (simp add: mset_inbox_commit)
  qed
qed

lemma mset_inbox_fold:
  "try_fold (inbox_apply_event ser) p es = Inr q \<Longrightarrow>
   mset (inbox_messages q) = mset (inbox_messages p) + mset (concat (map inserted_by es))"
  by (induction es arbitrary: p) (auto dest!: mset_inbox_apply)

text \<open>Settlements are only ever appended.\<close>

lemma ledger_grows_step:
  assumes "inbox_apply_event ser p e = Inr q"
  shows "\<exists>cs xs. ip_claimed q = ip_claimed p @ cs \<and> ip_canceled q = ip_canceled p @ xs
     \<and> (\<forall>st \<in> set cs \<union> set xs. st_seq st = ev_seq e)"
proof (cases "inbox_validate_event ser p e")
  case (Inr r)
  show ?thesis
  proof (cases r)
    case None
    then show ?thesis using assms Inr by (auto simp: inbox_apply_event_def)
  next
    case (Some v)
    then obtain sp where e: "ev_kind e = AgentInboxSplice sp" using Inr by (auto simp: inbox_validate_event_Some)
    have q: "q = inbox_commit e v p" using assms Inr Some by (simp add: inbox_apply_event_def)
    have "st_seq st = ev_seq e" if "st \<in> set (settled_by e v p)" for st
      using that by (auto simp: settled_by_def)
    then show ?thesis unfolding q ledger_commit [OF e] by (auto split: if_splits)
  qed
qed (use assms in \<open>simp add: inbox_apply_event_def\<close>)

end
