(* ===== verification/Goal_Projection.thy ===== *)
theory Goal_Projection
  imports Inbox_Projection Replay
begin

text \<open>
  The goal of a session from its whole log (\<open>project_goal\<close> of
  \<open>orchestration.rs\<close>): goal changes, the inbox, and the admission of goal rounds. A
  claimed goal message must be followed at once by the user message that admits it.
\<close>

section \<open>The fold\<close>

text \<open>\<open>pending_admission\<close>: text, goal, revision and round of a claimed message.\<close>

type_synonym goal_admission = "string \<times> string \<times> nat \<times> nat"

record goal_fold =
  gf_goal :: goal_projection
  gf_inbox :: inbox_projection
  gf_seen :: "string btree_set"
  gf_pending :: "goal_admission option"

definition goal_fold_default :: goal_fold where
  "goal_fold_default =
     \<lparr>gf_goal = goal_projection_default, gf_inbox = inbox_default, gf_seen = bt_empty,
      gf_pending = None\<rparr>"

definition take_admission :: "goal_fold \<Rightarrow> session_event \<Rightarrow> goal_error + goal_projection" where
  "take_admission s e =
     (case gf_pending s of
        None \<Rightarrow> Inr (gf_goal s)
      | Some (body, goal, revision, round) \<Rightarrow>
          (case ev_kind e of
             UserMessage admitted \<Rightarrow>
               and_then
                 (refuse_if (admitted \<noteq> body) (GoalInvalid ''goal inbox admission text changed''))
                 (\<lambda>_. admit_round (gf_goal s) goal revision round)
           | _ \<Rightarrow> Inl (GoalInvalid ''goal inbox claim is not followed by its user message'')))"

definition fold_goal_change ::
  "goal_projection \<times> string btree_set \<Rightarrow> session_event
   \<Rightarrow> goal_error + (goal_projection \<times> string btree_set)" where
  "fold_goal_change s e =
     (case ev_kind e of GoalChange change \<Rightarrow> apply_goal_change s change | _ \<Rightarrow> Inr s)"

definition note_claim ::
  "goal_admission option \<Rightarrow> inbox_settlement \<Rightarrow> goal_error + goal_admission option" where
  "note_claim pending st =
     (case im_source (st_message st) of
        SourceGoal goal revision round \<Rightarrow>
          if pending \<noteq> None
          then Inl (GoalInvalid ''multiple goal rounds were claimed in one splice'')
          else Inr (Some (im_text (st_message st), goal, revision, round))
      | _ \<Rightarrow> Inr pending)"

definition goal_event_step :: "label_json \<Rightarrow> goal_fold \<Rightarrow> session_event \<Rightarrow> goal_error + goal_fold" where
  "goal_event_step ser s e =
     and_then (take_admission s e) (\<lambda>admitted.
     and_then (fold_goal_change (admitted, gf_seen s) e) (\<lambda>(goal, seen).
     and_then (map_err (\<lambda>_. GoalInbox) (inbox_apply_event ser (gf_inbox s) e)) (\<lambda>inbox.
     and_then
       (try_fold note_claim None (drop (length (ip_claimed (gf_inbox s))) (ip_claimed inbox)))
       (\<lambda>pending.
          Inr \<lparr>gf_goal = goal, gf_inbox = inbox, gf_seen = seen, gf_pending = pending\<rparr>))))"

definition project_goal :: "label_json \<Rightarrow> session_event list \<Rightarrow> goal_error + goal_projection" where
  "project_goal ser events =
     and_then (try_fold (goal_event_step ser) goal_fold_default events) (\<lambda>s.
     and_then
       (refuse_if (gf_pending s \<noteq> None)
          (GoalInvalid ''goal inbox claim has no admitted user message''))
       (\<lambda>_. Inr (gf_goal s)))"

section \<open>The invariant\<close>

definition goal_fold_ok :: "label_json \<Rightarrow> goal_fold \<Rightarrow> bool" where
  "goal_fold_ok ser s \<longleftrightarrow> goal_ok (gf_goal s, gf_seen s) \<and> inbox_ok ser (gf_inbox s)"

lemma take_admission_Inr:
  "take_admission s e = Inr g \<longleftrightarrow>
     (gf_pending s = None \<and> g = gf_goal s)
     \<or> (\<exists>body goal revision round. gf_pending s = Some (body, goal, revision, round)
          \<and> ev_kind e = UserMessage body \<and> admit_round (gf_goal s) goal revision round = Inr g)"
  by (cases "ev_kind e") (auto simp: take_admission_def split: option.splits)

lemma fold_goal_change_Inr:
  "fold_goal_change s e = Inr t \<longleftrightarrow>
     (\<exists>c. ev_kind e = GoalChange c \<and> apply_goal_change s c = Inr t)
     \<or> ((\<forall>c. ev_kind e \<noteq> GoalChange c) \<and> t = s)"
  by (cases "ev_kind e") (auto simp: fold_goal_change_def)

lemma goal_event_step_Inr:
  assumes "goal_event_step ser s e = Inr s'"
  obtains admitted where "take_admission s e = Inr admitted"
    "fold_goal_change (admitted, gf_seen s) e = Inr (gf_goal s', gf_seen s')"
    "inbox_apply_event ser (gf_inbox s) e = Inr (gf_inbox s')"
    "try_fold note_claim None (drop (length (ip_claimed (gf_inbox s))) (ip_claimed (gf_inbox s')))
       = Inr (gf_pending s')"
  using assms by (auto simp: goal_event_step_def split: prod.splits)

lemma goal_ok_take:
  assumes "goal_ok (gf_goal s, gf_seen s)" "take_admission s e = Inr g"
  shows "goal_ok (g, gf_seen s)"
  using assms by (auto simp: take_admission_Inr intro: goal_ok_admit)

lemma goal_ok_fold: "goal_ok s \<Longrightarrow> fold_goal_change s e = Inr t \<Longrightarrow> goal_ok t"
  by (auto simp: fold_goal_change_Inr intro: goal_ok_change)

lemma goal_fold_ok_step:
  assumes "goal_fold_ok ser s" "goal_event_step ser s e = Inr s'"
  shows "goal_fold_ok ser s'"
proof -
  obtain g where "take_admission s e = Inr g"
    "fold_goal_change (g, gf_seen s) e = Inr (gf_goal s', gf_seen s')"
    "inbox_apply_event ser (gf_inbox s) e = Inr (gf_inbox s')"
    by (rule goal_event_step_Inr [OF assms(2)])
  with assms(1) show ?thesis
    unfolding goal_fold_ok_def by (blast intro: goal_ok_take goal_ok_fold inbox_ok_apply)
qed

interpretation goal: replay goal_fold_default "goal_event_step ser" "goal_fold_ok ser" for ser
proof (unfold_locales, goal_cases)
  case 1
  show ?case
    by (simp add: goal_fold_ok_def goal_fold_default_def goal_ok_default inbox_ok_default)
next
  case (2 s e s')
  then show ?case by (rule goal_fold_ok_step)
qed

section \<open>History\<close>

text \<open>The goal and the new revision a change writes.\<close>

fun change_ref :: "goal_change \<Rightarrow> string \<times> nat" where
  "change_ref (GoalSnapshotChange version action goal rounds created updated) =
     (gs_id goal, gs_revision goal)"
| "change_ref (GoalClearChange version cleared t) = (gref_id cleared, gref_revision cleared)"

fun goal_refs :: "session_event list \<Rightarrow> (string \<times> nat) list" where
  "goal_refs [] = []"
| "goal_refs (e # es) =
     (case ev_kind e of GoalChange c \<Rightarrow> change_ref c # goal_refs es | _ \<Rightarrow> goal_refs es)"

text \<open>The goal and round of the claimed goal messages, in the order of the ledger.\<close>

fun goal_claims :: "inbox_settlement list \<Rightarrow> (string \<times> nat) list" where
  "goal_claims [] = []"
| "goal_claims (st # sts) =
     (case im_source (st_message st) of
        SourceGoal goal revision round \<Rightarrow> (goal, round) # goal_claims sts
      | _ \<Rightarrow> goal_claims sts)"

lemma goal_refs_append: "goal_refs (es @ fs) = goal_refs es @ goal_refs fs"
  by (induction es) (auto split: session_event_kind.splits)

lemma goal_claims_append: "goal_claims (xs @ ys) = goal_claims xs @ goal_claims ys"
  by (induction xs) (auto split: inbox_source.splits)

text \<open>
  The numbers recorded for a goal are 1, 2, 3 and so on, the current goal has the last of them,
  and nothing is recorded for an identity that was never created. Used for the revisions of the
  changes and for the rounds of the admissions. Both counters saturate, so the statements are
  about logs with fewer entries than the counter can hold.
\<close>

definition history_ok ::
  "(goal_view \<Rightarrow> nat) \<Rightarrow> goal_projection \<Rightarrow> string btree_set \<Rightarrow> (string \<times> nat) list \<Rightarrow> bool" where
  "history_ok num proj seen refs \<longleftrightarrow>
     (\<forall>i. \<exists>n. numbers_of i refs = [1..<Suc n])
     \<and> (\<forall>i. \<not> bt_contains seen i \<longrightarrow> numbers_of i refs = [])
     \<and> (\<forall>view. gp_current proj = Some view \<longrightarrow>
          numbers_of (gs_id (gv_snapshot view)) refs = [1..<Suc (num view)])"

lemma history_okD:
  assumes "history_ok num proj seen refs"
  shows "\<exists>n. numbers_of i refs = [1..<Suc n]"
    and "\<not> bt_contains seen i \<Longrightarrow> numbers_of i refs = []"
    and "gp_current proj = Some view \<Longrightarrow>
      numbers_of (gs_id (gv_snapshot view)) refs = [1..<Suc (num view)]"
  using assms unfolding history_ok_def by blast+

lemma history_ok_default: "history_ok num goal_projection_default bt_empty []"
  by (auto simp: history_ok_def goal_projection_default_def numbers_of_def intro: exI [of _ 0])

lemma history_extend:
  assumes h: "history_ok num proj seen refs"
    and new: "numbers_of (fst r) (refs @ [r]) = [1..<Suc (snd r)]"
    and seen: "bt_contains seen' (fst r)" "\<And>i. bt_contains seen i \<Longrightarrow> bt_contains seen' i"
    and current: "\<And>view. gp_current proj' = Some view \<Longrightarrow> (gs_id (gv_snapshot view), num view) = r"
  shows "history_ok num proj' seen' (refs @ [r])"
  unfolding history_ok_def
proof (intro conjI allI impI)
  fix i
  show "\<exists>n. numbers_of i (refs @ [r]) = [1..<Suc n]"
    using new history_okD(1) [OF h, of i] by (cases "fst r = i") (auto simp: numbers_of_snoc)
next
  fix i assume "\<not> bt_contains seen' i"
  then have "fst r \<noteq> i" "\<not> bt_contains seen i" using seen by blast+
  then show "numbers_of i (refs @ [r]) = []"
    using history_okD(2) [OF h] unfolding numbers_of_snoc by simp
next
  fix view assume "gp_current proj' = Some view"
  then have "(gs_id (gv_snapshot view), num view) = r" by (rule current)
  with new show "numbers_of (gs_id (gv_snapshot view)) (refs @ [r]) = [1..<Suc (num view)]"
    by auto
qed

text \<open>Nothing is recorded, and a current goal is either the old one or new with number 0.\<close>

lemma history_same:
  assumes h: "history_ok num proj seen refs"
    and seen: "\<And>i. bt_contains seen i \<Longrightarrow> bt_contains seen' i"
    and current: "\<And>view. gp_current proj' = Some view \<Longrightarrow>
      (\<not> bt_contains seen (gs_id (gv_snapshot view)) \<and> num view = 0)
      \<or> (\<exists>old. gp_current proj = Some old \<and> gs_id (gv_snapshot old) = gs_id (gv_snapshot view)
           \<and> num old = num view)"
  shows "history_ok num proj' seen' refs"
  unfolding history_ok_def
proof (intro conjI allI impI)
  fix i show "\<exists>n. numbers_of i refs = [1..<Suc n]" by (rule history_okD(1) [OF h])
next
  fix i assume "\<not> bt_contains seen' i"
  then show "numbers_of i refs = []" using seen history_okD(2) [OF h] by blast
next
  fix view assume "gp_current proj' = Some view"
  from current [OF this] show "numbers_of (gs_id (gv_snapshot view)) refs = [1..<Suc (num view)]"
    using history_okD(2,3) [OF h] by (elim disjE exE conjE) (simp, metis)
qed

lemma history_next:
  assumes h: "history_ok num proj seen refs" and cur: "gp_current proj = Some view"
    and len: "length refs < m"
    and r: "fst r = gs_id (gv_snapshot view)" "snd r = min (num view + 1) m"
  shows "numbers_of (fst r) (refs @ [r]) = [1..<Suc (snd r)]"
  using numbers_next [OF history_okD(3) [OF h cur] len] r by (cases r) simp

subsection \<open>Revisions\<close>

abbreviation view_revision :: "goal_view \<Rightarrow> nat" where
  "view_revision view \<equiv> gs_revision (gv_snapshot view)"

lemma history_change:
  assumes h: "history_ok view_revision proj seen refs" and ok: "goal_ok (proj, seen)"
    and len: "length refs < u64_max"
    and c: "apply_goal_change (proj, seen) c = Inr (proj', seen')"
  shows "history_ok view_revision proj' seen' (refs @ [change_ref c])"
proof (cases c)
  case snap: (GoalSnapshotChange version action goal rounds created updated)
  let ?r = "(gs_id goal, gs_revision goal)"
  have proj': "(gs_id (gv_snapshot view), view_revision view) = ?r"
    if "gp_current proj' = Some view" for view
    using c snap that by (auto split: if_splits option.splits)
  show ?thesis
  proof (cases "action = OpCreate")
    case True
    then have new: "gs_revision goal = 1" "\<not> bt_contains seen (gs_id goal)"
      and seen': "seen' = bt_insert (gs_id goal) () seen"
      using c snap by (auto simp: create_refused_def split: if_splits)
    have "numbers_of (fst ?r) (refs @ [?r]) = [1..<Suc (snd ?r)]"
      using history_okD(2) [OF h new(2)] new(1) by (simp add: numbers_of_snoc)
    moreover have "bt_inv seen" using ok by (simp add: goal_ok_def)
    ultimately show ?thesis
      unfolding snap change_ref.simps seen' by (intro history_extend [OF h]) (auto dest!: proj')
  next
    case False
    then obtain view where view: "gp_current proj = Some view"
      and tr: "validate_transition view action goal rounds created updated = Inr ()" and seen': "seen' = seen"
      using c snap by (auto split: option.splits)
    have ids: "gs_id goal = gs_id (gv_snapshot view)"
      "gs_revision goal = saturating_add_u64 (view_revision view) 1"
      using validate_transition_Inr [OF tr] by blast+
    have "bt_contains seen (gs_id (gv_snapshot view))" using ok view by (simp add: goal_ok_def)
    moreover have "numbers_of (fst ?r) (refs @ [?r]) = [1..<Suc (snd ?r)]"
      by (rule history_next [OF h view len]) (simp_all add: ids saturating_add_u64_def)
    ultimately show ?thesis
      unfolding snap change_ref.simps seen'
      by (intro history_extend [OF h]) (auto simp: ids dest!: proj')
  qed
next
  case clear: (GoalClearChange version cleared t)
  let ?r = "(gref_id cleared, gref_revision cleared)"
  obtain view where view: "gp_current proj = Some view"
    and r: "gref_id cleared = gs_id (gv_snapshot view)"
      "gref_revision cleared = saturating_add_u64 (view_revision view) 1"
    and after: "seen' = seen" "gp_current proj' = None"
    using c clear by (auto split: option.splits if_splits)
  have "bt_contains seen (fst ?r)" using ok view r(1) by (simp add: goal_ok_def)
  moreover have "numbers_of (fst ?r) (refs @ [?r]) = [1..<Suc (snd ?r)]"
    by (rule history_next [OF h view len]) (simp_all add: r saturating_add_u64_def)
  ultimately show ?thesis
    unfolding clear change_ref.simps after(1) using after(2)
    by (intro history_extend [OF h]) auto
qed

lemma history_take:
  assumes "history_ok view_revision (gf_goal s) seen refs" "take_admission s e = Inr g"
  shows "history_ok view_revision g seen refs"
  using assms by (auto simp: take_admission_Inr admit_round_def history_ok_def split: option.splits if_splits)

lemma goal_event_change_cases:
  assumes "fold_goal_change s e = Inr t"
  obtains (change) c where "ev_kind e = GoalChange c" "apply_goal_change s c = Inr t"
      "goal_refs [e] = [change_ref c]"
    | (other) "t = s" "goal_refs [e] = []"
  using assms by (cases "ev_kind e") (auto simp: fold_goal_change_def)

lemma history_step:
  assumes "history_ok view_revision (gf_goal s) (gf_seen s) refs" "goal_fold_ok ser s"
    and "length (refs @ goal_refs [e]) \<le> u64_max" "goal_event_step ser s e = Inr s'"
  shows "history_ok view_revision (gf_goal s') (gf_seen s') (refs @ goal_refs [e])"
proof -
  obtain g where g: "take_admission s e = Inr g"
    and f: "fold_goal_change (g, gf_seen s) e = Inr (gf_goal s', gf_seen s')"
    by (rule goal_event_step_Inr [OF assms(4)])
  have h: "history_ok view_revision g (gf_seen s) refs" by (rule history_take [OF assms(1) g])
  have ok: "goal_ok (g, gf_seen s)" using goal_ok_take [OF _ g] assms(2) by (simp add: goal_fold_ok_def)
  from f show ?thesis
  proof (cases rule: goal_event_change_cases)
    case (change c)
    then have "length refs < u64_max" using assms(3) by simp
    from history_change [OF h ok this change(2)] change(3) show ?thesis by simp
  next
    case other
    with h show ?thesis by simp
  qed
qed

lemma history_fold:
  assumes "try_fold (goal_event_step ser) s es = Inr s'" "goal_fold_ok ser s"
    and "history_ok view_revision (gf_goal s) (gf_seen s) refs" "length (refs @ goal_refs es) \<le> u64_max"
  shows "history_ok view_revision (gf_goal s') (gf_seen s') (refs @ goal_refs es)"
  using assms
proof (induction es arbitrary: s refs)
  case Nil
  then show ?case by simp
next
  case (Cons e es)
  from Cons.prems(1) obtain t where t: "goal_event_step ser s e = Inr t"
    "try_fold (goal_event_step ser) t es = Inr s'" by auto
  have split: "refs @ goal_refs (e # es) = (refs @ goal_refs [e]) @ goal_refs es"
    using goal_refs_append [of "[e]" es] by simp
  have "history_ok view_revision (gf_goal t) (gf_seen t) (refs @ goal_refs [e])"
    by (rule history_step [OF Cons.prems(3,2) _ t(1)]) (use Cons.prems(4) [unfolded split] in simp)
  with Cons.IH [OF t(2) goal_fold_ok_step [OF Cons.prems(2) t(1)]] Cons.prems(4) show ?case
    unfolding split by blast
qed

subsection \<open>Rounds\<close>

lemma note_claims_Some:
  "try_fold note_claim (Some x) sts = Inr q \<Longrightarrow> q = Some x \<and> goal_claims sts = []"
  by (induction sts) (auto simp: note_claim_def split: inbox_source.splits)

lemma note_claims_None:
  "try_fold note_claim None sts = Inr q \<Longrightarrow>
   (q = None \<and> goal_claims sts = [])
   \<or> (\<exists>body goal revision round. q = Some (body, goal, revision, round)
        \<and> goal_claims sts = [(goal, round)])"
  by (induction sts) (auto simp: note_claim_def split: inbox_source.splits dest!: note_claims_Some)

definition admitted_claims :: "goal_fold \<Rightarrow> (string \<times> nat) list" where
  "admitted_claims s =
     (let claims = goal_claims (ip_claimed (gf_inbox s))
      in if gf_pending s = None then claims else butlast claims)"

text \<open>
  The rounds claimed and admitted so far are numbered, and a pending claim is the last goal
  claim of the ledger.
\<close>

definition rounds_ok :: "goal_fold \<Rightarrow> bool" where
  "rounds_ok s \<longleftrightarrow>
     history_ok gv_rounds (gf_goal s) (gf_seen s) (admitted_claims s)
     \<and> (\<forall>body goal revision round. gf_pending s = Some (body, goal, revision, round) \<longrightarrow>
          goal_claims (ip_claimed (gf_inbox s)) = admitted_claims s @ [(goal, round)])"

lemma rounds_take:
  assumes ok: "rounds_ok s" "goal_ok (gf_goal s, gf_seen s)"
    and len: "length (goal_claims (ip_claimed (gf_inbox s))) \<le> u32_max"
    and g: "take_admission s e = Inr g"
  shows "history_ok gv_rounds g (gf_seen s) (goal_claims (ip_claimed (gf_inbox s)))"
proof -
  have h: "history_ok gv_rounds (gf_goal s) (gf_seen s) (admitted_claims s)"
    using ok(1) by (simp add: rounds_ok_def)
  from g consider "gf_pending s = None" "g = gf_goal s"
    | body goal revision round where "gf_pending s = Some (body, goal, revision, round)"
        "admit_round (gf_goal s) goal revision round = Inr g"
    unfolding take_admission_Inr by metis
  then show ?thesis
  proof cases
    case 1
    with h show ?thesis by (simp add: admitted_claims_def Let_def)
  next
    case (2 body goal revision round)
    then have claims: "goal_claims (ip_claimed (gf_inbox s)) = admitted_claims s @ [(goal, round)]"
      using ok(1) by (simp add: rounds_ok_def)
    from 2(2) obtain view where view: "gp_current (gf_goal s) = Some view"
      and round: "gs_id (gv_snapshot view) = goal" "round = saturating_add_u32 (gv_rounds view) 1"
      and g: "g = (gf_goal s)\<lparr>gp_current := Some (view\<lparr>gv_rounds := round\<rparr>)\<rparr>"
      by (auto simp: admit_round_def split: option.splits if_splits)
    have "length (admitted_claims s) < u32_max" using len claims by simp
    from history_next [OF h view this, of "(goal, round)"]
    have "numbers_of goal (admitted_claims s @ [(goal, round)]) = [1..<Suc round]"
      using round by (simp add: saturating_add_u32_def)
    moreover have "bt_contains (gf_seen s) goal" using ok(2) view round(1) by (simp add: goal_ok_def)
    ultimately show ?thesis
      unfolding claims by (intro history_extend [OF h]) (auto simp: g round(1))
  qed
qed

lemma rounds_change:
  assumes h: "history_ok gv_rounds proj seen refs" and inv: "bt_inv seen"
    and c: "apply_goal_change (proj, seen) c = Inr (proj', seen')"
  shows "history_ok gv_rounds proj' seen' refs"
proof (rule history_same [OF h])
  show "\<And>i. bt_contains seen i \<Longrightarrow> bt_contains seen' i" using seen_grows [OF c inv] by blast
next
  fix view assume "gp_current proj' = Some view"
  with c show "(\<not> bt_contains seen (gs_id (gv_snapshot view)) \<and> gv_rounds view = 0)
      \<or> (\<exists>old. gp_current proj = Some old \<and> gs_id (gv_snapshot old) = gs_id (gv_snapshot view)
           \<and> gv_rounds old = gv_rounds view)"
    by (cases c)
      (auto simp: create_refused_def split: if_splits option.splits dest!: validate_transition_Inr)
qed

lemma rounds_step:
  assumes ok: "rounds_ok s" "goal_fold_ok ser s"
    and len: "length (goal_claims (ip_claimed (gf_inbox s))) \<le> u32_max"
    and step: "goal_event_step ser s e = Inr s'"
  shows "rounds_ok s'"
proof -
  obtain g where g: "take_admission s e = Inr g"
    and f: "fold_goal_change (g, gf_seen s) e = Inr (gf_goal s', gf_seen s')"
    and i: "inbox_apply_event ser (gf_inbox s) e = Inr (gf_inbox s')"
    and n: "try_fold note_claim None (drop (length (ip_claimed (gf_inbox s))) (ip_claimed (gf_inbox s')))
       = Inr (gf_pending s')"
    by (rule goal_event_step_Inr [OF step])
  have gok: "goal_ok (gf_goal s, gf_seen s)" using ok(2) by (simp add: goal_fold_ok_def)
  then have inv: "bt_inv (gf_seen s)" by (simp add: goal_ok_def)
  let ?claims = "goal_claims (ip_claimed (gf_inbox s))"
  have "history_ok gv_rounds g (gf_seen s) ?claims" by (rule rounds_take [OF ok(1) gok len g])
  with f inv have h: "history_ok gv_rounds (gf_goal s') (gf_seen s') ?claims"
    by (cases rule: goal_event_change_cases) (auto intro: rounds_change)
  obtain cs where cs: "ip_claimed (gf_inbox s') = ip_claimed (gf_inbox s) @ cs"
    using ledger_grows_step [OF i] by blast
  then have split: "goal_claims (ip_claimed (gf_inbox s')) = ?claims @ goal_claims cs"
    by (simp add: goal_claims_append)
  have "try_fold note_claim None cs = Inr (gf_pending s')" using n cs by simp
  from note_claims_None [OF this] consider "gf_pending s' = None" "goal_claims cs = []"
    | body goal revision round where "gf_pending s' = Some (body, goal, revision, round)"
        "goal_claims cs = [(goal, round)]"
    by metis
  then show ?thesis
    by cases (use h in \<open>simp_all add: rounds_ok_def admitted_claims_def split Let_def\<close>)
qed

lemma rounds_ok_default: "rounds_ok goal_fold_default"
  by (simp add: rounds_ok_def admitted_claims_def goal_fold_default_def inbox_default_def
      history_ok_default)

lemma claimed_grows:
  "try_fold (goal_event_step ser) s es = Inr s' \<Longrightarrow>
   \<exists>cs. ip_claimed (gf_inbox s') = ip_claimed (gf_inbox s) @ cs"
proof (induction es arbitrary: s)
  case (Cons e es)
  then obtain t where t: "goal_event_step ser s e = Inr t"
    "try_fold (goal_event_step ser) t es = Inr s'" by auto
  have "inbox_apply_event ser (gf_inbox s) e = Inr (gf_inbox t)"
    by (rule goal_event_step_Inr [OF t(1)])
  then obtain cs where "ip_claimed (gf_inbox t) = ip_claimed (gf_inbox s) @ cs"
    using ledger_grows_step by blast
  with Cons.IH [OF t(2)] show ?case by auto
qed simp

lemma rounds_fold:
  assumes "try_fold (goal_event_step ser) s es = Inr s'" "goal_fold_ok ser s" "rounds_ok s"
    and "length (goal_claims (ip_claimed (gf_inbox s'))) \<le> u32_max"
  shows "rounds_ok s'"
  using assms
proof (induction es arbitrary: s)
  case (Cons e es)
  from Cons.prems(1) obtain t where t: "goal_event_step ser s e = Inr t"
    "try_fold (goal_event_step ser) t es = Inr s'" by auto
  obtain cs where "ip_claimed (gf_inbox s') = ip_claimed (gf_inbox s) @ cs"
    using claimed_grows [OF Cons.prems(1)] by blast
  then have "length (goal_claims (ip_claimed (gf_inbox s))) \<le> u32_max"
    using Cons.prems(4) by (simp add: goal_claims_append)
  from rounds_step [OF Cons.prems(3,2) this t(1)] show ?case
    by (rule Cons.IH [OF t(2) goal_fold_ok_step [OF Cons.prems(2) t(1)] _ Cons.prems(4)])
qed simp

text \<open>The inbox inside the goal fold is the inbox of the log.\<close>

lemma goal_fold_inbox:
  "try_fold (goal_event_step ser) s es = Inr s' \<Longrightarrow>
   try_fold (inbox_apply_event ser) (gf_inbox s) es = Inr (gf_inbox s')"
proof (induction es arbitrary: s)
  case (Cons e es)
  then obtain t where t: "goal_event_step ser s e = Inr t"
    "try_fold (goal_event_step ser) t es = Inr s'" by auto
  have "inbox_apply_event ser (gf_inbox s) e = Inr (gf_inbox t)"
    by (rule goal_event_step_Inr [OF t(1)])
  with Cons.IH [OF t(2)] show ?case by simp
qed simp

end
