(* ===== verification/Session_Properties.thy ===== *)
theory Session_Properties
  imports Goal_Projection
begin

text \<open>
  The properties of the inbox and of the goal of a session: what a log that replays says about
  the messages that went through the inbox, and about the revisions and rounds of the goals.
\<close>

section \<open>A sample log\<close>

definition sample_labels :: label_json where
  "sample_labels labels = None"

definition sample_message :: "string \<Rightarrow> inbox_source \<Rightarrow> inbox_message" where
  "sample_message i source = \<lparr>im_id = i, im_delivery = FollowUp, im_text = ''go'', im_source = source\<rparr>"

definition sample_event :: "nat \<Rightarrow> session_event_kind \<Rightarrow> session_event" where
  "sample_event seq k = \<lparr>ev_v = current_session_log_version, ev_seq = seq, ev_time = 5, ev_kind = k\<rparr>"

definition sample_insert :: "inbox_message list \<Rightarrow> session_event_kind" where
  "sample_insert ms =
     AgentInboxSplice \<lparr>sp_target = NextTurn, sp_start = 0, sp_removed = None, sp_inserted = ms,
       sp_outcome = None\<rparr>"

definition sample_claim :: session_event_kind where
  "sample_claim =
     AgentInboxSplice \<lparr>sp_target = NextTurn, sp_start = 0, sp_removed = Some 1, sp_inserted = [],
       sp_outcome = None\<rparr>"

definition sample_goal :: goal_snapshot where
  "sample_goal =
     \<lparr>gs_id = ''g1'', gs_revision = 1, gs_objective = ''ship'', gs_phase = GoalActive,
      gs_blocked = None, gs_max_rounds = 3\<rparr>"

text \<open>A goal is created, its first round is claimed and admitted, and it is paused.\<close>

definition sample_log :: "session_event list" where
  "sample_log =
     [sample_event 0 (GoalChange (GoalSnapshotChange 1 OpCreate sample_goal 0 5 5)),
      sample_event 1 (sample_insert [sample_message ''m1'' (SourceGoal ''g1'' 1 1),
                                     sample_message ''m2'' SourceHuman]),
      sample_event 2 sample_claim,
      sample_event 3 (UserMessage ''go''),
      sample_event 4 (GoalChange (GoalSnapshotChange 1 OpPause
        (sample_goal\<lparr>gs_revision := 2, gs_phase := GoalPaused\<rparr>) 1 5 6))]"

lemmas inbox_eval =
  inbox_apply_event_def inbox_validate_event_def inbox_commit_def vec_splice_def
  validate_splice_shape_def set_insert_def message_validate_def inbox_id_validate_def
  max_inbox_id_bytes_def max_inbox_text_bytes_def valid_opaque_id_def max_goal_id_bytes_def
  opaque_id_byte_def is_ascii_alphanumeric_def is_ascii_digit_def is_ascii_lowercase_def
  is_ascii_uppercase_def plain_is_blank plain_eval map_eval Let_def

lemmas goal_eval =
  goal_event_step_def take_admission_def fold_goal_change_def note_claim_def admit_round_def
  create_refused_def goal_snapshot_validate_def goal_ref_validate_def goal_reference_def
  goal_id_validate_def max_goal_objective_bytes_def max_goal_rounds_def
  goal_change_version_def validate_transition_def require_definition_def saturating_add_u64_def
  saturating_add_u32_def u64_max_def u32_max_def goal_fold_default_def goal_projection_default_def
  inbox_default_def plain_no_nul

lemmas sample_log_defs =
  sample_log_def sample_event_def sample_insert_def sample_claim_def sample_message_def
  sample_goal_def current_session_log_version_def

definition sample_fold :: goal_fold where
  "sample_fold =
     \<lparr>gf_goal =
        \<lparr>gp_current = Some \<lparr>gv_snapshot = sample_goal\<lparr>gs_revision := 2, gs_phase := GoalPaused\<rparr>,
           gv_rounds = 1, gv_created = 5, gv_updated = 6\<rparr>,
         gp_last_ref = Some \<lparr>gref_id = ''g1'', gref_revision = 2\<rparr>\<rparr>,
      gf_inbox =
        \<lparr>ip_next_turn = [sample_message ''m2'' SourceHuman], ip_next_step = [],
         ip_claimed =
           [\<lparr>st_seq = 2, st_target = NextTurn,
             st_message = sample_message ''m1'' (SourceGoal ''g1'' 1 1)\<rparr>],
         ip_canceled = [], ip_seen = [(''m1'', ()), (''m2'', ())]\<rparr>,
      gf_seen = [(''g1'', ())], gf_pending = None\<rparr>"

lemma plain_text_ok:
  "plain s \<Longrightarrow> valid_text s n \<longleftrightarrow> s \<noteq> [] \<and> length s \<le> n"
  unfolding valid_text_def
  by (auto simp: plain_is_blank chars_def plain_chunks list_ex_iff is_bad_control_def
      is_control_def plain_def byte_in_def list_all_iff)

lemma sample_replays: "try_fold (goal_event_step sample_labels) goal_fold_default sample_log = Inr sample_fold"
  by (simp add: sample_log_defs sample_fold_def inbox_eval goal_eval plain_text_ok)

lemma sample_inbox: "project_inbox sample_labels sample_log = Inr (gf_inbox sample_fold)"
  using goal_fold_inbox [OF sample_replays] by (simp add: project_inbox_def goal_fold_default_def)

section \<open>The inbox\<close>

text \<open>
  C5: no message is lost, duplicated or made up. When a log replays, the messages it inserted
  are, as a multiset, exactly those that are pending in one of the two queues or settled in one
  of the two ledgers; every id occurs once; every message is valid; and a message waits in the
  queue, or was settled in the target, that its delivery mode names.
\<close>

theorem inbox_conserves_messages:
  assumes "project_inbox ser es = Inr p"
  shows "mset (inbox_messages p) = mset (concat (map inserted_by es))
    \<and> distinct (map im_id (inbox_messages p))
    \<and> (\<forall>m \<in> set (inbox_messages p). message_validate ser m = Inr ())
    \<and> (\<forall>t. \<forall>m \<in> set (inbox_queue p t). delivery_target (im_delivery m) = t)
    \<and> (\<forall>st \<in> set (ip_claimed p @ ip_canceled p).
         delivery_target (im_delivery (st_message st)) = st_target st)"
proof -
  have "inbox_ok ser p" using assms by (simp add: project_inbox_def inbox.good_replay)
  then show ?thesis
    using mset_inbox_fold [of ser inbox_default es p] assms inbox_okD [of ser p]
    by (simp add: project_inbox_def inbox_default_def inbox_messages_def)
qed

theorem inbox_conserves_messages_witness:
  "mset (inbox_messages (gf_inbox sample_fold)) = mset (concat (map inserted_by sample_log))"
  by (rule inbox_conserves_messages [OF sample_inbox, THEN conjunct1])

text \<open>
  Which splices are accepted. An accepted event of the current log version passes the shape
  check, whose conditions are spelt out, inserts valid messages for its target whose ids are new
  to the log and distinct, and removes a range that lies inside the pending queue; every such
  event is accepted.
\<close>

theorem inbox_splice_accepted_iff:
  assumes "ev_kind e = AgentInboxSplice sp"
  shows "is_ok (inbox_apply_event ser p e) \<longleftrightarrow>
     ev_v e = current_session_log_version
     \<and> sp_removed sp \<noteq> Some 0
     \<and> (sp_removed sp \<noteq> None \<or> sp_inserted sp \<noteq> [])
     \<and> (sp_outcome sp \<noteq> None \<longrightarrow> sp_removed sp \<noteq> None)
     \<and> (sp_removed sp \<noteq> None \<and> sp_outcome sp = None \<longrightarrow> sp_inserted sp = [])
     \<and> (\<forall>m \<in> set (sp_inserted sp). message_validate ser m = Inr ()
          \<and> delivery_target (im_delivery m) = sp_target sp
          \<and> \<not> bt_contains (ip_seen p) (im_id m))
     \<and> distinct (map im_id (sp_inserted sp))
     \<and> sp_start sp + (case sp_removed sp of None \<Rightarrow> 0 | Some n \<Rightarrow> n)
         \<le> length (inbox_queue p (sp_target sp))"
proof -
  have "is_ok (inbox_apply_event ser p e) \<longleftrightarrow> (\<exists>v. inbox_validate_event ser p e = Inr (Some v))"
    using inbox_validate_event_None [of ser p e] assms
    by (auto simp: inbox_apply_event_def is_ok_iff)
  then show ?thesis
    using assms by (auto simp: inbox_validate_event_Some validate_splice_shape_Inr)
qed

theorem inbox_splice_accepted_iff_witness:
  "\<not> is_ok (inbox_apply_event sample_labels inbox_default (sample_event 0 sample_claim))"
  using inbox_splice_accepted_iff [of "sample_event 0 sample_claim" _ sample_labels inbox_default]
  by (simp add: sample_event_def sample_claim_def inbox_default_def)

text \<open>
  What an accepted splice does. In the queue of its target the removed range is replaced by
  the inserted messages and nothing else moves; the other queue is untouched; the removed
  messages are appended, in order and with the number of the event, to the ledger the outcome
  names, and the other ledger is untouched.
\<close>

theorem inbox_splice_effect:
  assumes "inbox_apply_event ser p e = Inr q" "ev_kind e = AgentInboxSplice sp"
  defines "n \<equiv> (case sp_removed sp of None \<Rightarrow> 0 | Some n \<Rightarrow> n)"
    and "queue \<equiv> inbox_queue p (sp_target sp)"
  shows "inbox_queue q (sp_target sp) =
      take (sp_start sp) queue @ sp_inserted sp @ drop (sp_start sp + n) queue
    \<and> (\<forall>t. t \<noteq> sp_target sp \<longrightarrow> inbox_queue q t = inbox_queue p t)
    \<and> (let settled = map (\<lambda>m. \<lparr>st_seq = ev_seq e, st_target = sp_target sp, st_message = m\<rparr>)
                       (take n (drop (sp_start sp) queue))
       in case sp_outcome sp of
            None \<Rightarrow> ip_claimed q = ip_claimed p @ settled \<and> ip_canceled q = ip_canceled p
          | Some Canceled \<Rightarrow> ip_claimed q = ip_claimed p \<and> ip_canceled q = ip_canceled p @ settled)"
proof -
  obtain v where v: "inbox_validate_event ser p e = Inr (Some v)" and q: "q = inbox_commit e v p"
    using assms(1,2) inbox_validate_event_None [of ser p e]
    by (auto simp: inbox_apply_event_def split: option.splits)
  have fields: "vs_target v = sp_target sp" "vs_start v = sp_start sp" "vs_removed v = n"
    "vs_outcome v = sp_outcome sp"
    using v assms(2) by (auto simp: inbox_validate_event_Some n_def)
  show ?thesis
    unfolding q Let_def
    using queue_commit [OF assms(2)] ledger_commit [OF assms(2)] fields
    by (auto simp: vec_splice_def settled_by_def queue_def split: option.splits inbox_splice_outcome.splits)
qed

theorem inbox_splice_effect_witness:
  "\<exists>p q. inbox_apply_event sample_labels p (sample_event 2 sample_claim) = Inr q
     \<and> map im_id (inbox_queue p NextTurn) = [''m1'', ''m2'']
     \<and> map im_id (inbox_queue q NextTurn) = [''m2'']"
proof -
  let ?p = "inbox_default\<lparr>ip_next_turn := [sample_message ''m1'' SourceHuman, sample_message ''m2'' SourceHuman]\<rparr>"
  obtain q where q: "inbox_apply_event sample_labels ?p (sample_event 2 sample_claim) = Inr q"
    by (simp add: sample_log_defs inbox_eval inbox_default_def)
  have "inbox_queue q NextTurn = [sample_message ''m2'' SourceHuman]"
    using inbox_splice_effect [OF q] by (simp add: sample_event_def sample_claim_def)
  with q show ?thesis by (intro exI [of _ ?p] exI [of _ q]) (simp add: sample_message_def)
qed

section \<open>The goal\<close>

text \<open>
  C12: the changes of a log that replays number the revisions of every goal 1, 2, 3 and so on
  without a gap, and the current goal stands at the last of them, as long as the log has fewer
  changes than a 64-bit counter holds.
\<close>

theorem goal_revisions_sequential:
  assumes "try_fold (goal_event_step ser) goal_fold_default es = Inr s"
    and "length (goal_refs es) \<le> u64_max"
  shows "(\<exists>n. numbers_of i (goal_refs es) = [1..<Suc n])
    \<and> (\<forall>view. gp_current (gf_goal s) = Some view \<longrightarrow>
         numbers_of (gs_id (gv_snapshot view)) (goal_refs es)
           = [1..<Suc (gs_revision (gv_snapshot view))])"
proof -
  have "goal_fold_ok ser goal_fold_default" by (rule goal.good_init)
  moreover have "history_ok (\<lambda>view. gs_revision (gv_snapshot view)) (gf_goal goal_fold_default) (gf_seen goal_fold_default) []"
    by (simp add: goal_fold_default_def history_ok_default)
  ultimately have "history_ok (\<lambda>view. gs_revision (gv_snapshot view)) (gf_goal s) (gf_seen s) (goal_refs es)"
    using history_fold [OF assms(1), where refs = "[]"] assms(2) by simp
  then show ?thesis using history_okD(1,3) by blast
qed

theorem goal_revisions_sequential_witness:
  "numbers_of ''g1'' (goal_refs sample_log) = [1..<Suc 2]"
proof -
  have "length (goal_refs sample_log) \<le> u64_max" by (simp add: sample_log_defs u64_max_def)
  from goal_revisions_sequential [OF sample_replays this, of "''g1''", THEN conjunct2] show ?thesis
    by (simp add: sample_fold_def sample_goal_def eval_nat_numeral)
qed

text \<open>
  The rounds. The goal rounds claimed from the inbox and admitted by the user message that
  follows are numbered 1, 2, 3 and so on for every goal, and the current goal counts exactly
  those of its own, as long as the log claims fewer rounds than a 32-bit counter holds. A log
  that ends between a claim and its message is refused.
\<close>

theorem goal_rounds_sequential:
  assumes "project_goal ser es = Inr goal" "project_inbox ser es = Inr inbox"
    and "length (goal_claims (ip_claimed inbox)) \<le> u32_max"
  shows "(\<exists>n. numbers_of i (goal_claims (ip_claimed inbox)) = [1..<Suc n])
    \<and> (\<forall>view. gp_current goal = Some view \<longrightarrow>
         numbers_of (gs_id (gv_snapshot view)) (goal_claims (ip_claimed inbox)) = [1..<Suc (gv_rounds view)])"
proof -
  obtain s where s: "try_fold (goal_event_step ser) goal_fold_default es = Inr s"
    "gf_pending s = None" "goal = gf_goal s"
    using assms(1) unfolding project_goal_def and_then_Inr refuse_if_Inr sum.inject by blast
  have inbox: "gf_inbox s = inbox"
    using goal_fold_inbox [OF s(1)] assms(2) by (simp add: project_inbox_def goal_fold_default_def)
  have "rounds_ok s"
    using rounds_fold [OF s(1) goal.good_init rounds_ok_default] assms(3) inbox by simp
  then have "history_ok gv_rounds goal (gf_seen s) (goal_claims (ip_claimed inbox))"
    using s(2,3) inbox by (simp add: rounds_ok_def admitted_claims_def)
  then show ?thesis using history_okD(1,3) by blast
qed

theorem goal_rounds_sequential_witness:
  "numbers_of ''g1'' (goal_claims (ip_claimed (gf_inbox sample_fold))) = [1..<Suc 1]"
proof -
  have goal: "project_goal sample_labels sample_log = Inr (gf_goal sample_fold)"
    using sample_replays by (simp add: project_goal_def sample_fold_def)
  have "length (goal_claims (ip_claimed (gf_inbox sample_fold))) \<le> u32_max"
    by (simp add: sample_fold_def sample_message_def u32_max_def)
  from goal_rounds_sequential [OF goal sample_inbox this, of "''g1''", THEN conjunct2] show ?thesis
    by (simp add: sample_fold_def sample_goal_def)
qed

text \<open>
  The lifecycle of a goal. A change that is not a creation keeps the identity, adds one to
  the revision, keeps the round counter and the creation time, moves the phase along the
  allowed edge, and, unless it is an edit, keeps objective and cap. The current goal of a log
  that replays is a valid snapshot that respects its round cap.
\<close>

theorem goal_change_lifecycle:
  assumes "try_fold (goal_event_step ser) goal_fold_default es = Inr s"
    and "apply_goal_change (gf_goal s, gf_seen s)
           (GoalSnapshotChange version action goal rounds created updated) = Inr (goal', seen')"
    and "action \<noteq> OpCreate"
  shows "\<exists>view. gp_current (gf_goal s) = Some view
    \<and> gs_id goal = gs_id (gv_snapshot view)
    \<and> gs_revision goal = saturating_add_u64 (gs_revision (gv_snapshot view)) 1
    \<and> phase_step action (gs_phase (gv_snapshot view)) (gs_phase goal)
    \<and> (action \<noteq> OpEdit \<longrightarrow> gs_objective goal = gs_objective (gv_snapshot view)
         \<and> gs_max_rounds goal = gs_max_rounds (gv_snapshot view))
    \<and> gp_current goal' = Some \<lparr>gv_snapshot = goal, gv_rounds = gv_rounds view,
         gv_created = gv_created view, gv_updated = updated\<rparr>
    \<and> (gs_max_rounds goal \<noteq> 0 \<longrightarrow> gv_rounds view \<le> gs_max_rounds goal)
    \<and> goal_snapshot_validate goal = Inr ()"
proof -
  have ok: "goal_ok (gf_goal s, gf_seen s)"
    using goal.good_replay [OF assms(1)] by (simp add: goal_fold_ok_def)
  have "goal_ok (goal', seen')" by (rule goal_ok_change [OF ok assms(2)])
  then show ?thesis
    using assms(2,3)
    by (auto simp: goal_ok_def split: option.splits dest!: validate_transition_Inr)
qed

theorem goal_change_lifecycle_witness:
  "\<exists>view. gp_current (gf_goal sample_fold) = Some view
     \<and> phase_step OpResume (gs_phase (gv_snapshot view)) GoalActive"
proof -
  let ?goal = "sample_goal\<lparr>gs_revision := 3\<rparr>"
  have "\<exists>goal' seen'. apply_goal_change (gf_goal sample_fold, gf_seen sample_fold)
      (GoalSnapshotChange 1 OpResume ?goal 1 5 9) = Inr (goal', seen')"
    by (simp add: sample_fold_def sample_goal_def inbox_eval goal_eval plain_text_ok)
  then obtain goal' seen' where "apply_goal_change (gf_goal sample_fold, gf_seen sample_fold)
      (GoalSnapshotChange 1 OpResume ?goal 1 5 9) = Inr (goal', seen')" by blast
  from goal_change_lifecycle [OF sample_replays this] show ?thesis
    by (auto simp: sample_goal_def)
qed

section \<open>Job identities\<close>

text \<open>
  Printing and parsing of job identities agree. The text of a 64-bit number parses back to
  it, a longer number does not parse, and the job ids a message source may carry are exactly
  the prefix followed by the canonical text of such a number.
\<close>

theorem job_ids_roundtrip:
  "parse_u64 (show_nat n) = (if n \<le> u64_max then Some n else None)
   \<and> (valid_job_id job \<longleftrightarrow> (\<exists>n. n \<le> u64_max \<and> job = ''job-'' @ show_nat n))"
  by (simp add: parse_show_nat valid_job_id_iff)

end
