(* ===== verification/Team_Laws.thy ===== *)
theory Team_Laws
  imports Team_Board
begin

text \<open>
  The cycle check decides exactly the soundness of the task graph, and every accepted change
  keeps the invariant of a team.
\<close>

section \<open>The cycle check\<close>

definition task_deps :: "task_table \<Rightarrow> string \<Rightarrow> string list option" where
  "task_deps tasks i = map_option tt_dependencies (bt_get tasks i)"

abbreviation task_edges :: "task_table \<Rightarrow> (string \<times> string) set" where
  "task_edges tasks \<equiv> dep_edges (task_deps tasks)"

lemma task_edges_iff:
  "(i, d) \<in> task_edges tasks \<longleftrightarrow> (\<exists>t. bt_get tasks i = Some t \<and> d \<in> set (tt_dependencies t))"
  by (auto simp: dep_edges_def task_deps_def)

lemma dom_task_deps: "dom (task_deps tasks) = dom (bt_get tasks)"
  by (auto simp: task_deps_def)

text \<open>
  What a successful visit returns: it keeps what was visited, and everything it adds is an
  existing task all of whose dependency chains end.
\<close>

definition settled_set :: "task_table \<Rightarrow> string list \<Rightarrow> bool" where
  "settled_set tasks visited \<longleftrightarrow>
     set visited \<subseteq> Wellfounded.acc ((task_edges tasks)\<inverse>)
     \<and> (\<forall>i \<in> set visited. \<exists>t. bt_get tasks i = Some t \<and> set (tt_dependencies t) \<subseteq> set visited)"

lemma visit_sound:
  "visit tasks visiting visited i = Some visited' \<Longrightarrow> settled_set tasks visited \<Longrightarrow>
     settled_set tasks visited' \<and> set visited \<subseteq> set visited' \<and> i \<in> set visited'"
  "visit_all tasks visiting visited ds = Some visited' \<Longrightarrow> settled_set tasks visited \<Longrightarrow>
     settled_set tasks visited' \<and> set visited \<subseteq> set visited' \<and> set ds \<subseteq> set visited'"
proof (induction tasks visiting visited i and tasks visiting visited ds
    arbitrary: visited' and visited' rule: visit_visit_all.induct)
  case (1 tasks visiting visited i)
  show ?case
  proof (cases "i \<in> set visited")
    case True
    then show ?thesis using "1.prems" by (simp add: visit.simps)
  next
    case False
    with "1.prems"(1) obtain t v where t: "bt_get tasks i = Some t" "i \<notin> set visiting"
      and v: "visit_all tasks (i # visiting) visited (tt_dependencies t) = Some v"
      and visited': "visited' = i # v"
      by (auto simp: visit.simps [of tasks visiting visited i] split: if_splits option.splits)
    from "1.IH" [OF False t(2) t(1) v "1.prems"(2)]
    have IH: "settled_set tasks v" "set visited \<subseteq> set v" "set (tt_dependencies t) \<subseteq> set v"
      by blast+
    have "i \<in> Wellfounded.acc ((task_edges tasks)\<inverse>)"
    proof (rule accI)
      fix y assume "(y, i) \<in> (task_edges tasks)\<inverse>"
      then have "y \<in> set v" using t(1) IH(3) by (auto simp: task_edges_iff)
      then show "y \<in> Wellfounded.acc ((task_edges tasks)\<inverse>)" using IH(1) by (auto simp: settled_set_def)
    qed
    moreover have "\<exists>u. bt_get tasks j = Some u \<and> set (tt_dependencies u) \<subseteq> set visited'"
      if "j \<in> set visited'" for j
    proof (cases "j = i")
      case True
      then show ?thesis using t(1) IH(3) visited' by auto
    next
      case False
      then show ?thesis using that IH(1) visited' by (fastforce simp: settled_set_def)
    qed
    ultimately show ?thesis using IH visited' unfolding settled_set_def by auto
  qed
next
  case (2 tasks visiting visited)
  then show ?case by simp
next
  case (3 tasks visiting visited d ds)
  then show ?case by (auto split: option.splits) blast+
qed

text \<open>In a sound graph a visit cannot fail: nothing being visited can be met again.\<close>

lemma visit_complete:
  "deps_sound (task_deps tasks) \<Longrightarrow> i \<in> dom (bt_get tasks) \<Longrightarrow>
     \<forall>x \<in> set visiting. (x, i) \<in> (task_edges tasks)\<^sup>+ \<Longrightarrow> visit tasks visiting visited i \<noteq> None"
  "deps_sound (task_deps tasks) \<Longrightarrow> set ds \<subseteq> dom (bt_get tasks) \<Longrightarrow>
     \<forall>x \<in> set visiting. \<forall>d \<in> set ds. (x, d) \<in> (task_edges tasks)\<^sup>+ \<Longrightarrow>
     visit_all tasks visiting visited ds \<noteq> None"
proof (induction tasks visiting visited i and tasks visiting visited ds rule: visit_visit_all.induct)
  case (1 tasks visiting visited i)
  from "1.prems"(2) obtain t where t: "bt_get tasks i = Some t" by auto
  have "i \<notin> set visiting"
    using "1.prems"(1,3) by (auto simp: deps_sound_def acyclic_def)
  moreover have "visit_all tasks (i # visiting) visited (tt_dependencies t) \<noteq> None"
    if "i \<notin> set visited"
  proof (rule "1.IH" [OF that \<open>i \<notin> set visiting\<close> t "1.prems"(1)])
    show "set (tt_dependencies t) \<subseteq> dom (bt_get tasks)"
      using "1.prems"(1) t unfolding deps_sound_def deps_closed_def dom_task_deps
      by (auto simp: task_deps_def)
    have edge: "(i, d) \<in> task_edges tasks" if "d \<in> set (tt_dependencies t)" for d
      using t that by (auto simp: task_edges_iff)
    show "\<forall>x \<in> set (i # visiting). \<forall>d \<in> set (tt_dependencies t). (x, d) \<in> (task_edges tasks)\<^sup>+"
      using edge "1.prems"(3) by (auto intro: trancl_into_trancl)
  qed
  ultimately show ?case using t by (auto simp: visit.simps [of tasks visiting visited i])
next
  case (2 tasks visiting visited)
  then show ?case by simp
next
  case (3 tasks visiting visited d ds)
  then show ?case by (auto split: option.splits)
qed

text \<open>The check accepts exactly the tables whose dependencies exist and form no cycle.\<close>

lemma ensure_acyclic_iff:
  assumes "bt_inv (tv_tasks team)"
  shows "ensure_acyclic team seq = Inr () \<longleftrightarrow> deps_sound (task_deps (tv_tasks team))"
proof
  let ?tasks = "tv_tasks team" and ?E = "task_edges (tv_tasks team)"
  have keys: "set (bt_keys ?tasks) = dom (bt_get ?tasks)" using assms by (rule bt.set_keys)
  assume "ensure_acyclic team seq = Inr ()"
  then obtain v where "visit_all ?tasks [] [] (bt_keys ?tasks) = Some v"
    by (auto simp: ensure_acyclic_def split: option.splits)
  from visit_sound(2) [OF this] have v: "settled_set ?tasks v" "dom (bt_get ?tasks) \<subseteq> set v"
    by (auto simp: settled_set_def keys)
  have "i \<in> Wellfounded.acc (?E\<inverse>)" for i
  proof (cases "bt_get ?tasks i")
    case None
    show ?thesis by (rule accI) (use None in \<open>simp add: task_edges_iff\<close>)
  next
    case (Some t)
    then have "i \<in> set v" using v(2) by blast
    then show ?thesis using v(1) unfolding settled_set_def by blast
  qed
  then have "wf (?E\<inverse>)" by (metis acc_wfI)
  then have "acyclic ?E" by (metis acyclic_converse wf_acyclic)
  moreover have "finite (dom (task_deps ?tasks))"
    using bt.finite_dom [OF assms] by (simp add: dom_task_deps)
  moreover have "deps_closed (task_deps ?tasks)"
    unfolding deps_closed_def dom_task_deps
  proof (intro allI impI)
    fix i ds assume "task_deps ?tasks i = Some ds"
    then obtain t where t: "bt_get ?tasks i = Some t" "ds = tt_dependencies t"
      by (auto simp: task_deps_def)
    have closed: "\<exists>u. bt_get ?tasks j = Some u \<and> set (tt_dependencies u) \<subseteq> set v" if "j \<in> set v" for j
      using v(1) that unfolding settled_set_def by blast
    have "i \<in> set v" using v(2) t(1) by blast
    from closed [OF this] t have "set ds \<subseteq> set v" by simp
    moreover have "set v \<subseteq> dom (bt_get ?tasks)" using closed by blast
    ultimately show "set ds \<subseteq> dom (bt_get ?tasks)" by blast
  qed
  ultimately show "deps_sound (task_deps ?tasks)" by (simp add: deps_sound_def)
next
  assume "deps_sound (task_deps (tv_tasks team))"
  then have "visit_all (tv_tasks team) [] [] (bt_keys (tv_tasks team)) \<noteq> None"
    using assms by (intro visit_complete(2)) (auto simp: bt.set_keys)
  then show "ensure_acyclic team seq = Inr ()" by (auto simp: ensure_acyclic_def)
qed

section \<open>The invariant of a team\<close>

text \<open>
  Tables are keyed by the id of their rows and bounded; the lead is a member; the task graph is
  sound; a task that is running or completed has only completed dependencies; a task that is
  not deleted depends on no deleted task; an unsettled task is assigned to a member.
\<close>

definition tasks_ok :: "task_table \<Rightarrow> bool" where
  "tasks_ok tasks \<longleftrightarrow>
     bt_inv tasks \<and> (\<forall>i t. bt_get tasks i = Some t \<longrightarrow> tt_id t = i)
     \<and> deps_sound (task_deps tasks)
     \<and> (\<forall>i t d. bt_get tasks i = Some t \<longrightarrow> d \<in> set (tt_dependencies t) \<longrightarrow>
          (\<exists>u. bt_get tasks d = Some u
             \<and> (tt_state t \<in> {TaskInProgress, TaskCompleted} \<longrightarrow> tt_state u = TaskCompleted)
             \<and> (tt_state t \<noteq> TaskDeleted \<longrightarrow> tt_state u \<noteq> TaskDeleted)))"

definition team_ok :: "team_view \<Rightarrow> bool" where
  "team_ok team \<longleftrightarrow>
     tasks_ok (tv_tasks team)
     \<and> bt_inv (tv_members team) \<and> bt_contains (tv_members team) (tv_lead team)
     \<and> length (tv_members team) \<le> max_members
     \<and> length (tv_tasks team) \<le> max_tasks
     \<and> bt_inv (tv_mailbox team) \<and> length (tv_mailbox team) \<le> max_mailbox_messages
     \<and> (\<forall>i t. bt_get (tv_tasks team) i = Some t \<longrightarrow>
          tt_state t \<in> {TaskPending, TaskBlocked, TaskInProgress} \<longrightarrow>
          bt_contains (tv_members team) (tt_assignee t))"

lemma tasks_of_iff: "bt_inv (tv_tasks team) \<Longrightarrow> t \<in> set (tasks_of team) \<longleftrightarrow> (\<exists>i. bt_get (tv_tasks team) i = Some t)"
  by (simp add: tasks_of_def bt_values_iff)

text \<open>Replacing or adding one row keeps the table good when its neighbours agree with it.\<close>

lemma tasks_ok_insert:
  assumes ok: "tasks_ok tasks" and i: "tt_id t = i"
    and sound: "deps_sound (task_deps (bt_insert i t tasks))"
    and below: "\<And>d. d \<in> set (tt_dependencies t) \<Longrightarrow> d \<noteq> i \<Longrightarrow>
      \<exists>u. bt_get tasks d = Some u
        \<and> (tt_state t \<in> {TaskInProgress, TaskCompleted} \<longrightarrow> tt_state u = TaskCompleted)
        \<and> (tt_state t \<noteq> TaskDeleted \<longrightarrow> tt_state u \<noteq> TaskDeleted)"
    and above: "\<And>j u. bt_get tasks j = Some u \<Longrightarrow> j \<noteq> i \<Longrightarrow> i \<in> set (tt_dependencies u) \<Longrightarrow>
      (tt_state u \<in> {TaskInProgress, TaskCompleted} \<longrightarrow> tt_state t = TaskCompleted)
      \<and> (tt_state u \<noteq> TaskDeleted \<longrightarrow> tt_state t \<noteq> TaskDeleted)"
  shows "tasks_ok (bt_insert i t tasks)"
proof -
  have inv: "bt_inv tasks" using ok by (simp add: tasks_ok_def)
  have self: "i \<notin> set (tt_dependencies t)"
  proof
    assume "i \<in> set (tt_dependencies t)"
    then have "(i, i) \<in> task_edges (bt_insert i t tasks)" using inv by (auto simp: task_edges_iff)
    with sound show False by (auto simp: deps_sound_def acyclic_def)
  qed
  have "\<exists>u. bt_get (bt_insert i t tasks) d = Some u
      \<and> (tt_state x \<in> {TaskInProgress, TaskCompleted} \<longrightarrow> tt_state u = TaskCompleted)
      \<and> (tt_state x \<noteq> TaskDeleted \<longrightarrow> tt_state u \<noteq> TaskDeleted)"
    if x: "bt_get (bt_insert i t tasks) j = Some x" and d: "d \<in> set (tt_dependencies x)" for j x d
  proof (cases "j = i")
    case True
    then have "x = t" using x inv by simp
    with d self below [of d] show ?thesis using inv by auto
  next
    case False
    then have old: "bt_get tasks j = Some x" using x inv by simp
    show ?thesis
    proof (cases "d = i")
      case True
      with above [OF old False] d inv show ?thesis by auto
    next
      case False
      with ok old d inv show ?thesis by (auto simp: tasks_ok_def)
    qed
  qed
  then show ?thesis using ok i sound inv by (auto simp: tasks_ok_def split: if_splits)
qed

section \<open>Every accepted change keeps the invariant\<close>

lemma tasks_okD:
  assumes "tasks_ok tasks"
  shows "bt_inv tasks" "deps_sound (task_deps tasks)"
    "\<And>i t. bt_get tasks i = Some t \<Longrightarrow> tt_id t = i"
    "\<And>i t d. bt_get tasks i = Some t \<Longrightarrow> d \<in> set (tt_dependencies t) \<Longrightarrow>
       \<exists>u. bt_get tasks d = Some u
         \<and> (tt_state t \<in> {TaskInProgress, TaskCompleted} \<longrightarrow> tt_state u = TaskCompleted)
         \<and> (tt_state t \<noteq> TaskDeleted \<longrightarrow> tt_state u \<noteq> TaskDeleted)"
  using assms unfolding tasks_ok_def by (elim conjE, assumption | blast)+

lemma team_okD:
  assumes "team_ok team"
  shows "tasks_ok (tv_tasks team)" "bt_inv (tv_tasks team)" "bt_inv (tv_members team)"
    "bt_contains (tv_members team) (tv_lead team)" "length (tv_members team) \<le> max_members"
    "length (tv_tasks team) \<le> max_tasks" "bt_inv (tv_mailbox team)"
    "length (tv_mailbox team) \<le> max_mailbox_messages" "deps_sound (task_deps (tv_tasks team))"
    and "\<And>i t. bt_get (tv_tasks team) i = Some t \<Longrightarrow> tt_id t = i"
    and "\<And>i t. bt_get (tv_tasks team) i = Some t \<Longrightarrow>
       tt_state t \<in> {TaskPending, TaskBlocked, TaskInProgress} \<Longrightarrow>
       bt_contains (tv_members team) (tt_assignee t)"
    and "\<And>i t d. bt_get (tv_tasks team) i = Some t \<Longrightarrow> d \<in> set (tt_dependencies t) \<Longrightarrow>
       \<exists>u. bt_get (tv_tasks team) d = Some u
         \<and> (tt_state t \<in> {TaskInProgress, TaskCompleted} \<longrightarrow> tt_state u = TaskCompleted)
         \<and> (tt_state t \<noteq> TaskDeleted \<longrightarrow> tt_state u \<noteq> TaskDeleted)"
proof -
  show tasks: "tasks_ok (tv_tasks team)" using assms by (simp add: team_ok_def)
  show "bt_inv (tv_members team)" "bt_contains (tv_members team) (tv_lead team)"
    "length (tv_members team) \<le> max_members" "length (tv_tasks team) \<le> max_tasks"
    "bt_inv (tv_mailbox team)" "length (tv_mailbox team) \<le> max_mailbox_messages"
    using assms by (simp_all add: team_ok_def del: bt_contains_iff)
  show "bt_inv (tv_tasks team)" "deps_sound (task_deps (tv_tasks team))"
    by (rule tasks_okD [OF tasks])+
  show "\<And>i t. bt_get (tv_tasks team) i = Some t \<Longrightarrow> tt_id t = i"
    by (rule tasks_okD(3) [OF tasks])
  show "\<And>i t d. bt_get (tv_tasks team) i = Some t \<Longrightarrow> d \<in> set (tt_dependencies t) \<Longrightarrow>
       \<exists>u. bt_get (tv_tasks team) d = Some u
         \<and> (tt_state t \<in> {TaskInProgress, TaskCompleted} \<longrightarrow> tt_state u = TaskCompleted)
         \<and> (tt_state t \<noteq> TaskDeleted \<longrightarrow> tt_state u \<noteq> TaskDeleted)"
    by (rule tasks_okD(4) [OF tasks])
  show "\<And>i t. bt_get (tv_tasks team) i = Some t \<Longrightarrow>
       tt_state t \<in> {TaskPending, TaskBlocked, TaskInProgress} \<Longrightarrow>
       bt_contains (tv_members team) (tt_assignee t)"
    using assms unfolding team_ok_def by blast
qed

lemma require_lead_Inr: "require_lead team actor seq = Inr u \<longleftrightarrow> actor = tv_lead team"
  by (simp add: require_lead_def)

lemma team_ok_members:
  assumes "team_ok team" "bt_inv ms" "length ms \<le> max_members"
    "\<And>i. bt_contains (tv_members team) i \<Longrightarrow> bt_contains ms i \<or>
       (i \<noteq> tv_lead team \<and> (\<forall>j t. bt_get (tv_tasks team) j = Some t \<longrightarrow> tt_assignee t = i \<longrightarrow>
          tt_state t \<notin> {TaskPending, TaskBlocked, TaskInProgress}))"
  shows "team_ok (team\<lparr>tv_members := ms\<rparr>)"
proof -
  have "bt_contains ms (tt_assignee t)"
    if "bt_get (tv_tasks team) j = Some t" "tt_state t \<in> {TaskPending, TaskBlocked, TaskInProgress}" for j t
    using assms(4) [OF team_okD(11) [OF assms(1) that]] that by blast
  moreover have "bt_contains ms (tv_lead team)"
    using assms(4) [OF team_okD(4) [OF assms(1)]] by blast
  ultimately show ?thesis using assms(1-3) by (simp add: team_ok_def)
qed

lemma team_ok_remove_member:
  assumes "team_ok team" "remove_member actor member seq team = Inr team'"
  shows "team_ok team'"
proof -
  have team': "team' = team\<lparr>tv_members := bt_remove member (tv_members team)\<rparr>"
    and lead: "member \<noteq> tv_lead team"
    and free: "\<not> list_ex (\<lambda>t. tt_assignee t = member
        \<and> tt_state t \<in> {TaskPending, TaskBlocked, TaskInProgress}) (tasks_of team)"
    using assms(2) by (auto simp: remove_member_def)
  have free': "tt_state t \<notin> {TaskPending, TaskBlocked, TaskInProgress}"
    if "bt_get (tv_tasks team) j = Some t" "tt_assignee t = member" for j t
    using free that team_okD(2) [OF assms(1)] by (auto simp: list_ex_iff tasks_of_iff)
  show ?thesis
    unfolding team'
  proof (rule team_ok_members [OF assms(1)])
    show "bt_inv (bt_remove member (tv_members team))" using team_okD(3) [OF assms(1)] by simp
    show "length (bt_remove member (tv_members team)) \<le> max_members"
      using team_okD(5) [OF assms(1)] length_bt_remove [of member "tv_members team"] by simp
    fix i assume "bt_contains (tv_members team) i"
    then show "bt_contains (bt_remove member (tv_members team)) i \<or>
       (i \<noteq> tv_lead team \<and> (\<forall>j t. bt_get (tv_tasks team) j = Some t \<longrightarrow> tt_assignee t = i \<longrightarrow>
          tt_state t \<notin> {TaskPending, TaskBlocked, TaskInProgress}))"
      using team_okD(3) [OF assms(1)] lead free' by (cases "i = member") auto
  qed
qed

lemma length_fold_insert:
  "bt_inv m \<Longrightarrow> bt_inv (fold (\<lambda>x. bt_insert (f x) (g x)) xs m)
     \<and> length (fold (\<lambda>x. bt_insert (f x) (g x)) xs m) \<le> length xs + length m
     \<and> (\<forall>k. bt_contains m k \<longrightarrow> bt_contains (fold (\<lambda>x. bt_insert (f x) (g x)) xs m) k)"
proof (induction xs arbitrary: m)
  case Nil
  then show ?case by simp
next
  case (Cons x xs)
  have "bt_inv (bt_insert (f x) (g x) m)" using Cons.prems by simp
  note IH = Cons.IH [OF this]
  have "length (bt_insert (f x) (g x) m) \<le> Suc (length m)"
    using Cons.prems by (simp add: length_bt_insert)
  moreover have "bt_contains (bt_insert (f x) (g x) m) k" if "bt_contains m k" for k
    using Cons.prems that by auto
  ultimately show ?case using IH by (simp del: bt_contains_iff)
qed

lemma team_ok_bootstrap:
  assumes "team_ok team" "bootstrap_members actor ms seq team = Inr team'"
  shows "team_ok team'"
proof -
  have team': "team' = team\<lparr>tv_members := fold (\<lambda>m. bt_insert (tm_id m) m) ms (tv_members team)\<rparr>"
    and bound: "length ms + length (tv_members team) \<le> max_members"
    using assms(2) by (auto simp: bootstrap_members_def)
  note fold = length_fold_insert [OF team_okD(3) [OF assms(1)], of tm_id "\<lambda>m. m" ms]
  show ?thesis
    unfolding team' by (rule team_ok_members [OF assms(1)]) (use fold bound in \<open>auto simp del: bt_contains_iff\<close>)
qed

lemma team_ok_add_member:
  assumes "team_ok team" "add_member actor m seq team = Inr team'"
  shows "team_ok team'"
proof -
  have team': "team' = team\<lparr>tv_members := bt_insert (tm_id m) m (tv_members team)\<rparr>"
    and bound: "length (tv_members team) < max_members"
    using assms(2) by (auto simp: add_member_def)
  show ?thesis
    unfolding team'
    by (rule team_ok_members [OF assms(1)])
      (use team_okD(3) [OF assms(1)] bound in \<open>auto simp: length_bt_insert\<close>)
qed

lemma team_ok_lifecycle:
  "team_ok team \<Longrightarrow> change_lifecycle actor lifecycle seq team = Inr team' \<Longrightarrow> team_ok team'"
  by (auto simp: change_lifecycle_def team_ok_def)

lemma team_ok_mailbox:
  assumes "team_ok team" "bt_inv mail" "length mail \<le> max_mailbox_messages"
  shows "team_ok (team\<lparr>tv_mailbox := mail\<rparr>)"
  using assms by (simp add: team_ok_def)

lemma team_ok_send:
  assumes "team_ok team" "send_message actor m seq team = Inr team'"
  shows "team_ok team'"
  using assms team_okD(7,8) [OF assms(1)]
  by (auto simp: send_message_def length_bt_insert intro!: team_ok_mailbox)

lemma team_ok_deliver:
  assumes "team_ok team" "deliver_message actor i seq team = Inr team'"
  shows "team_ok team'"
  using assms team_okD(7,8) [OF assms(1)]
  by (auto simp: deliver_message_def length_bt_insert intro!: team_ok_mailbox split: prod.splits)

lemma team_ok_claim:
  assumes "team_ok team" "claim_message actor i seq team = Inr team'"
  shows "team_ok team'"
  using assms team_okD(7,8) [OF assms(1)]
  by (auto simp: claim_message_def length_bt_insert intro!: team_ok_mailbox split: prod.splits)

lemma team_ok_tasks:
  assumes "team_ok team" "tasks_ok (bt_insert i t (tv_tasks team))"
    "bt_get (tv_tasks team) i = None \<Longrightarrow> length (tv_tasks team) < max_tasks"
    "tt_state t \<in> {TaskPending, TaskBlocked, TaskInProgress} \<Longrightarrow>
       bt_contains (tv_members team) (tt_assignee t)"
  shows "team_ok (team\<lparr>tv_tasks := bt_insert i t (tv_tasks team)\<rparr>)"
proof -
  note inv = team_okD(2) [OF assms(1)]
  have "length (bt_insert i t (tv_tasks team)) \<le> max_tasks"
    using assms(3) team_okD(6) [OF assms(1)] inv by (cases "bt_get (tv_tasks team) i") (simp_all add: length_bt_insert)
  moreover have "bt_contains (tv_members team) (tt_assignee x)"
    if "bt_get (bt_insert i t (tv_tasks team)) j = Some x"
      "tt_state x \<in> {TaskPending, TaskBlocked, TaskInProgress}" for j x
    using that inv assms(4) team_okD(11) [OF assms(1), of j x] by (cases "j = i") (simp_all del: bt_contains_iff)
  ultimately show ?thesis using assms(1,2) by (simp add: team_ok_def del: bt_contains_iff)
qed

lemma task_deadD: "\<not> task_dead team d \<Longrightarrow> \<exists>u. bt_get (tv_tasks team) d = Some u \<and> tt_state u \<noteq> TaskDeleted"
  by (auto simp: task_dead_def split: option.splits)

lemma task_completedD: "task_completed team d \<Longrightarrow> \<exists>u. bt_get (tv_tasks team) d = Some u \<and> tt_state u = TaskCompleted"
  by (auto simp: task_completed_def split: option.splits)

lemma team_ok_update:
  assumes "team_ok team" "update_task actor expected t seq team = Inr team'"
  shows "team_ok team'"
proof -
  let ?tasks = "tv_tasks team"
  note inv = team_okD(2) [OF assms(1)]
  obtain current where
    current: "bt_get ?tasks (tt_id t) = Some current"
    and member: "bt_contains (tv_members team) (tt_assignee t)"
    and live: "\<forall>d \<in> set (tt_dependencies t). \<not> task_dead team d"
    and above: "tt_state t = TaskCompleted \<or> (\<forall>u \<in> set (tasks_of team). tt_id t \<in> set (tt_dependencies u) \<longrightarrow>
        tt_state u \<notin> {TaskInProgress, TaskCompleted} \<and> (tt_state t = TaskDeleted \<longrightarrow> tt_state u = TaskDeleted))"
    and below: "tt_state t \<in> {TaskInProgress, TaskCompleted} \<Longrightarrow>
        \<forall>d \<in> set (tt_dependencies t). task_completed team d"
    and acyc: "ensure_acyclic (team\<lparr>tv_tasks := bt_insert (tt_id t) t ?tasks\<rparr>) seq = Inr ()"
    and team': "team' = team\<lparr>tv_tasks := bt_insert (tt_id t) t ?tasks\<rparr>"
    using assms(2)
    by (auto simp: update_task_def insert_task_def Let_def list_ex_iff simp del: bt_contains_iff)
  have sound: "deps_sound (task_deps (bt_insert (tt_id t) t ?tasks))"
    using acyc inv ensure_acyclic_iff [of "team\<lparr>tv_tasks := bt_insert (tt_id t) t ?tasks\<rparr>" seq] by simp
  have "tasks_ok (bt_insert (tt_id t) t ?tasks)"
  proof (rule tasks_ok_insert [OF team_okD(1) [OF assms(1)] refl sound])
    fix d assume d: "d \<in> set (tt_dependencies t)"
    from live d obtain u where "bt_get ?tasks d = Some u" "tt_state u \<noteq> TaskDeleted"
      using task_deadD by blast
    moreover have "tt_state u = TaskCompleted" if "tt_state t \<in> {TaskInProgress, TaskCompleted}"
      using below [OF that] d task_completedD [of team d] calculation(1) by auto
    ultimately show "\<exists>u. bt_get ?tasks d = Some u
        \<and> (tt_state t \<in> {TaskInProgress, TaskCompleted} \<longrightarrow> tt_state u = TaskCompleted)
        \<and> (tt_state t \<noteq> TaskDeleted \<longrightarrow> tt_state u \<noteq> TaskDeleted)"
      by blast
  next
    fix j u assume u: "bt_get ?tasks j = Some u" "tt_id t \<in> set (tt_dependencies u)"
    then have "u \<in> set (tasks_of team)" using inv by (auto simp: tasks_of_iff)
    with above u(2) show "(tt_state u \<in> {TaskInProgress, TaskCompleted} \<longrightarrow> tt_state t = TaskCompleted)
      \<and> (tt_state u \<noteq> TaskDeleted \<longrightarrow> tt_state t \<noteq> TaskDeleted)"
      by auto
  qed
  then show ?thesis
    unfolding team' by (rule team_ok_tasks [OF assms(1)]) (use current member in auto)
qed

lemma team_ok_create:
  assumes "team_ok team" "create_task actor t seq team = Inr team'" "tt_state t = TaskPending"
  shows "team_ok team'"
proof -
  let ?tasks = "tv_tasks team"
  note inv = team_okD(2) [OF assms(1)]
  have fresh: "bt_get ?tasks (tt_id t) = None" and room: "length ?tasks < max_tasks"
    and member: "bt_contains (tv_members team) (tt_assignee t)"
    and live: "\<forall>d \<in> set (tt_dependencies t). \<not> task_dead team d"
    and acyc: "ensure_acyclic (team\<lparr>tv_tasks := bt_insert (tt_id t) t ?tasks\<rparr>) seq = Inr ()"
    and team': "team' = team\<lparr>tv_tasks := bt_insert (tt_id t) t ?tasks\<rparr>"
    using assms(2)
    by (auto simp: create_task_def insert_task_def Let_def list_ex_iff)
  have sound: "deps_sound (task_deps (bt_insert (tt_id t) t ?tasks))"
    using acyc inv ensure_acyclic_iff [of "team\<lparr>tv_tasks := bt_insert (tt_id t) t ?tasks\<rparr>" seq] by simp
  have "tasks_ok (bt_insert (tt_id t) t ?tasks)"
  proof (rule tasks_ok_insert [OF team_okD(1) [OF assms(1)] refl sound])
    fix d assume "d \<in> set (tt_dependencies t)"
    with live show "\<exists>u. bt_get ?tasks d = Some u
        \<and> (tt_state t \<in> {TaskInProgress, TaskCompleted} \<longrightarrow> tt_state u = TaskCompleted)
        \<and> (tt_state t \<noteq> TaskDeleted \<longrightarrow> tt_state u \<noteq> TaskDeleted)"
      using task_deadD [of team d] assms(3) by auto
  next
    fix j u assume u: "bt_get ?tasks j = Some u" "tt_id t \<in> set (tt_dependencies u)"
    with team_okD(12) [OF assms(1) u] fresh
    show "(tt_state u \<in> {TaskInProgress, TaskCompleted} \<longrightarrow> tt_state t = TaskCompleted)
      \<and> (tt_state u \<noteq> TaskDeleted \<longrightarrow> tt_state t \<noteq> TaskDeleted)"
      by auto
  qed
  then show ?thesis
    unfolding team' by (rule team_ok_tasks [OF assms(1)]) (use room member in auto)
qed

lemma task_deps_same:
  assumes "bt_inv tasks" "bt_get tasks i = Some t" "tt_dependencies t' = tt_dependencies t"
  shows "task_deps (bt_insert i t' tasks) = task_deps tasks"
  using assms by (auto simp: task_deps_def fun_eq_iff)

lemma team_ok_state:
  assumes "team_ok team" "change_task_state actor i expected state summary seq team = Inr team'"
  shows "team_ok team'"
proof -
  let ?tasks = "tv_tasks team"
  note inv = team_okD(2) [OF assms(1)]
  obtain t where t: "bt_get ?tasks i = Some t"
    and trans: "valid_task_transition (tt_state t) state"
    and runnable: "state = TaskInProgress \<Longrightarrow> list_all (task_completed team) (tt_dependencies t)"
    and team': "team' = team\<lparr>tv_tasks := bt_insert i
                (t\<lparr>tt_revision := saturating_add_u64 (tt_revision t) 1, tt_state := state,
                   tt_result := summary\<rparr>) ?tasks\<rparr>"
    using assms(2) by (auto simp: change_task_state_def is_runnable_def)
  let ?t = "t\<lparr>tt_revision := saturating_add_u64 (tt_revision t) 1, tt_state := state, tt_result := summary\<rparr>"
  have old: "tt_state t \<in> {TaskPending, TaskBlocked, TaskInProgress}" and new: "state \<noteq> TaskDeleted"
    and comp: "state = TaskCompleted \<Longrightarrow> tt_state t = TaskInProgress"
    using trans by auto
  have "tasks_ok (bt_insert i ?t ?tasks)"
  proof (rule tasks_ok_insert [OF team_okD(1) [OF assms(1)]])
    show "tt_id ?t = i" using team_okD(10) [OF assms(1) t] by simp
    show "deps_sound (task_deps (bt_insert i ?t ?tasks))"
      using task_deps_same [OF inv t, of ?t] team_okD(9) [OF assms(1)] by simp
    fix d assume "d \<in> set (tt_dependencies ?t)"
    then have d: "d \<in> set (tt_dependencies t)" by simp
    from team_okD(12) [OF assms(1) t d] obtain u where u: "bt_get ?tasks d = Some u"
      "tt_state t \<in> {TaskInProgress, TaskCompleted} \<longrightarrow> tt_state u = TaskCompleted"
      "tt_state t \<noteq> TaskDeleted \<longrightarrow> tt_state u \<noteq> TaskDeleted" by blast
    have "state = TaskInProgress \<Longrightarrow> tt_state u = TaskCompleted"
      using runnable d u(1) task_completedD [of team d] by (auto simp: list_all_iff)
    then show "\<exists>u. bt_get ?tasks d = Some u
        \<and> (tt_state ?t \<in> {TaskInProgress, TaskCompleted} \<longrightarrow> tt_state u = TaskCompleted)
        \<and> (tt_state ?t \<noteq> TaskDeleted \<longrightarrow> tt_state u \<noteq> TaskDeleted)"
      using u old comp by auto
  next
    fix j u assume u: "bt_get ?tasks j = Some u" "i \<in> set (tt_dependencies u)"
    from team_okD(12) [OF assms(1) u] t old new
    show "(tt_state u \<in> {TaskInProgress, TaskCompleted} \<longrightarrow> tt_state ?t = TaskCompleted)
      \<and> (tt_state u \<noteq> TaskDeleted \<longrightarrow> tt_state ?t \<noteq> TaskDeleted)"
      by auto
  qed
  then show ?thesis
    unfolding team'
    by (rule team_ok_tasks [OF assms(1)])
      (use t team_okD(11) [OF assms(1) t old] in \<open>auto simp del: bt_contains_iff\<close>)
qed

lemma team_ok_dependencies:
  assumes "team_ok team" "change_task_dependencies actor i expected deps seq team = Inr team'"
  shows "team_ok team'"
proof -
  let ?tasks = "tv_tasks team"
  note inv = team_okD(2) [OF assms(1)]
  obtain t where live: "\<forall>d \<in> set deps. \<not> task_dead team d" and t: "bt_get ?tasks i = Some t"
    and old: "tt_state t \<in> {TaskPending, TaskBlocked}"
    and acyc: "ensure_acyclic (team\<lparr>tv_tasks := bt_insert i
                (t\<lparr>tt_revision := saturating_add_u64 (tt_revision t) 1, tt_dependencies := deps\<rparr>) ?tasks\<rparr>) seq = Inr ()"
    and team': "team' = team\<lparr>tv_tasks := bt_insert i
                (t\<lparr>tt_revision := saturating_add_u64 (tt_revision t) 1, tt_dependencies := deps\<rparr>) ?tasks\<rparr>"
    using assms(2) by (auto simp: change_task_dependencies_def Let_def list_ex_iff)
  let ?t = "t\<lparr>tt_revision := saturating_add_u64 (tt_revision t) 1, tt_dependencies := deps\<rparr>"
  have "tasks_ok (bt_insert i ?t ?tasks)"
  proof (rule tasks_ok_insert [OF team_okD(1) [OF assms(1)]])
    show "tt_id ?t = i" using team_okD(10) [OF assms(1) t] by simp
    show "deps_sound (task_deps (bt_insert i ?t ?tasks))"
      using acyc inv ensure_acyclic_iff [of "team\<lparr>tv_tasks := bt_insert i ?t ?tasks\<rparr>" seq] by simp
    fix d assume "d \<in> set (tt_dependencies ?t)"
    then have "\<not> task_dead team d" using live by simp
    with old show "\<exists>u. bt_get ?tasks d = Some u
        \<and> (tt_state ?t \<in> {TaskInProgress, TaskCompleted} \<longrightarrow> tt_state u = TaskCompleted)
        \<and> (tt_state ?t \<noteq> TaskDeleted \<longrightarrow> tt_state u \<noteq> TaskDeleted)"
      using task_deadD [of team d] by auto
  next
    fix j u assume u: "bt_get ?tasks j = Some u" "i \<in> set (tt_dependencies u)"
    from team_okD(12) [OF assms(1) u] t old
    show "(tt_state u \<in> {TaskInProgress, TaskCompleted} \<longrightarrow> tt_state ?t = TaskCompleted)
      \<and> (tt_state u \<noteq> TaskDeleted \<longrightarrow> tt_state ?t \<noteq> TaskDeleted)"
      by auto
  qed
  moreover have "bt_contains (tv_members team) (tt_assignee t)"
    using team_okD(11) [OF assms(1) t] old by auto
  ultimately show ?thesis
    unfolding team' by (intro team_ok_tasks [OF assms(1)]) (use t in auto)
qed

lemma team_ok_apply:
  assumes "team_ok team" "change_shape ext change = Inr ()" "apply_to_team change seq team = Inr team'"
  shows "team_ok team'"
  using assms
  by (cases change)
    (auto intro: team_ok_bootstrap team_ok_add_member team_ok_remove_member team_ok_lifecycle
      team_ok_update team_ok_create team_ok_state team_ok_dependencies team_ok_send team_ok_deliver
      team_ok_claim split: if_splits simp del: bt_contains_iff)

end
