(* ===== verification/Team_Projection.thy ===== *)
theory Team_Projection
  imports Team_Laws Session_Event
begin

text \<open>
  The teams of a session from its whole log (\<open>project_teams\<close> of \<open>team.rs\<close>), with
  the invariant of the projection, who may make which change, what each change may touch, and
  the interpretations of the replay and dependency interfaces.
\<close>

definition team_event_step ::
  "work_ext \<Rightarrow> team_projection \<Rightarrow> session_event \<Rightarrow> team_projection_error + team_projection" where
  "team_event_step ext proj e =
     (case ev_kind e of
        TeamChange change \<Rightarrow> team_step ext proj (ev_seq e, change)
      | _ \<Rightarrow> Inr proj)"

definition project_teams ::
  "work_ext \<Rightarrow> session_event list \<Rightarrow> team_projection_error + team_projection" where
  "project_teams ext events = try_fold (team_event_step ext) bt_empty events"

section \<open>What a change may touch\<close>

lemma insert_task_Inr:
  "insert_task t seq team = Inr team' \<longleftrightarrow>
     team' = team\<lparr>tv_tasks := bt_insert (tt_id t) t (tv_tasks team)\<rparr> \<and> ensure_acyclic team' seq = Inr ()"
  by (auto simp: insert_task_def Let_def)

lemmas team_op_defs =
  bootstrap_members_def add_member_def remove_member_def change_lifecycle_def update_task_def
  create_task_def change_task_state_def change_task_dependencies_def send_message_def
  deliver_message_def claim_message_def

text \<open>No change alters identity, lead or revision counter of the team it is applied to.\<close>

lemma apply_to_team_frame:
  assumes "apply_to_team change seq team = Inr team'"
  shows "tv_id team' = tv_id team" "tv_lead team' = tv_lead team" "tv_revision team' = tv_revision team"
  using assms
  by (cases change; auto simp: team_op_defs insert_task_Inr Let_def split: prod.splits)+

fun changes_roster :: "team_change \<Rightarrow> bool" where
  "changes_roster (MembersBootstrapped _ _ _ _ _) = True"
| "changes_roster (MemberAdded _ _ _ _ _) = True"
| "changes_roster (MemberRemoved _ _ _ _ _) = True"
| "changes_roster _ = False"

fun changes_tasks :: "team_change \<Rightarrow> bool" where
  "changes_tasks (TaskUpdated _ _ _ _ _ _) = True"
| "changes_tasks (TaskCreated _ _ _ _ _) = True"
| "changes_tasks (TaskStateChanged _ _ _ _ _ _ _ _) = True"
| "changes_tasks (TaskDependenciesChanged _ _ _ _ _ _ _) = True"
| "changes_tasks _ = False"

fun changes_mailbox :: "team_change \<Rightarrow> bool" where
  "changes_mailbox (MessageSent _ _ _ _ _) = True"
| "changes_mailbox (MessageDelivered _ _ _ _ _) = True"
| "changes_mailbox (MessageClaimed _ _ _ _ _) = True"
| "changes_mailbox _ = False"

lemma apply_to_team_parts:
  assumes "apply_to_team change seq team = Inr team'"
  shows "changes_roster change \<or> tv_members team' = tv_members team"
    "changes_tasks change \<or> tv_tasks team' = tv_tasks team"
    "changes_mailbox change \<or> tv_mailbox team' = tv_mailbox team"
  using assms
  by (cases change; auto simp: team_op_defs insert_task_Inr Let_def split: prod.splits)+

text \<open>
  Who may make a change. The assignee of an assigned task may replace it but for its title,
  description, assignment, dependencies and metadata.
\<close>

fun authorised :: "team_change \<Rightarrow> team_view \<Rightarrow> bool" where
  "authorised (TeamCreated _ _ _) team = False"
| "authorised (MembersBootstrapped _ _ _ actor _) team = (actor = tv_lead team)"
| "authorised (MemberAdded _ _ _ actor _) team = (actor = tv_lead team)"
| "authorised (MemberRemoved _ _ _ actor _) team = (actor = tv_lead team)"
| "authorised (LifecycleChanged _ _ _ actor _) team = (actor = tv_lead team)"
| "authorised (TaskUpdated _ _ _ actor _ t) team =
     (actor = tv_lead team
      \<or> (\<exists>old. bt_get (tv_tasks team) (tt_id t) = Some old \<and> tt_assigned old
           \<and> tt_assignee old = actor \<and> tt_assignee t = actor \<and> tt_assigned t
           \<and> tt_title t = tt_title old \<and> tt_description t = tt_description old
           \<and> tt_dependencies t = tt_dependencies old \<and> tt_metadata t = tt_metadata old))"
| "authorised (TaskCreated _ _ _ actor _) team = (actor = tv_lead team)"
| "authorised (TaskStateChanged _ _ _ actor i _ _ _) team =
     (actor = tv_lead team
      \<or> (\<exists>t. bt_get (tv_tasks team) i = Some t \<and> tt_assignee t = actor))"
| "authorised (TaskDependenciesChanged _ _ _ actor _ _ _) team = (actor = tv_lead team)"
| "authorised (MessageSent _ _ _ actor m) team =
     (actor = mm_from m \<and> bt_contains (tv_members team) actor \<and> bt_contains (tv_members team) (mm_to m))"
| "authorised (MessageDelivered _ _ _ actor _) team = (actor = tv_lead team)"
| "authorised (MessageClaimed _ _ _ actor i) team =
     (\<exists>m d c. bt_get (tv_mailbox team) i = Some (m, d, c) \<and> mm_to m = actor)"

lemma apply_to_team_authorised:
  "apply_to_team change seq team = Inr team' \<Longrightarrow> authorised change team"
  by (cases change) (auto simp: team_op_defs require_lead_Inr split: prod.splits)

text \<open>Mail is inserted once, never removed or rewritten, and its marks are never taken back.\<close>

lemma apply_to_team_mailbox:
  assumes "apply_to_team change seq team = Inr team'" "bt_inv (tv_mailbox team)"
    and "bt_get (tv_mailbox team) i = Some (m, delivered, claimed)"
  shows "\<exists>delivered' claimed'. bt_get (tv_mailbox team') i = Some (m, delivered', claimed')
    \<and> (delivered \<longrightarrow> delivered') \<and> (claimed \<longrightarrow> claimed')"
  using assms
  by (cases change, auto simp: team_op_defs insert_task_Inr Let_def split: prod.splits, metis+)

section \<open>The invariant of the projection\<close>

definition teams_ok :: "team_projection \<Rightarrow> bool" where
  "teams_ok proj \<longleftrightarrow>
     bt_inv proj \<and> length proj \<le> 64
     \<and> (\<forall>i team. bt_get proj i = Some team \<longrightarrow> tv_id team = i \<and> team_ok team)"

lemma task_deps_empty [simp]: "task_deps bt_empty = (\<lambda>_. None)"
  by (simp add: task_deps_def fun_eq_iff)

lemma length_bt_empty [simp]: "length bt_empty = 0"
  by (simp add: bt_empty_def)

lemma team_ok_new: "team_ok (team_new team lead)"
  by (simp add: team_ok_def team_new_def tasks_ok_def max_members_def length_bt_insert)

lemma team_ok_revision [simp]: "team_ok (team\<lparr>tv_revision := r\<rparr>) = team_ok team"
  by (simp add: team_ok_def)

lemma apply_revisioned_Inr:
  "apply_revisioned change seq team = Inr team' \<longleftrightarrow>
     (\<exists>revision team1. change_revision change = Some revision
        \<and> revision = saturating_add_u64 (tv_revision team) 1
        \<and> (tv_lifecycle team = TeamActive \<or> allowed_inactive change)
        \<and> (tv_lifecycle team = TeamArchived \<longrightarrow> reactivates change)
        \<and> apply_to_team change seq team = Inr team1 \<and> team' = team1\<lparr>tv_revision := revision\<rparr>)"
  by (auto simp: apply_revisioned_def)

lemma apply_team_change_cases:
  assumes "apply_team_change proj change seq = Inr proj'"
  obtains (created) version team lead where "change = TeamCreated version team lead"
      "bt_get proj team = None" "length proj < 64" "proj' = bt_insert team (team_new team lead) proj"
    | (revised) team team' where "\<And>version i lead. change \<noteq> TeamCreated version i lead"
      "bt_get proj (change_team change) = Some team" "apply_revisioned change seq team = Inr team'"
      "proj' = bt_insert (change_team change) team' proj"
  using assms
  by (cases change) (auto simp: apply_team_change_def)

lemma team_event_step_cases:
  assumes "team_event_step ext proj e = Inr proj'"
  obtains (change) change where "ev_kind e = TeamChange change"
      "team_validate_shape ext change = Inr ()" "apply_team_change proj change (ev_seq e) = Inr proj'"
    | (other) "\<And>change. ev_kind e \<noteq> TeamChange change" "proj' = proj"
  using assms
  by (cases "ev_kind e") (auto simp: team_event_step_def team_step_def)

lemma teams_ok_change:
  assumes "teams_ok proj" "team_validate_shape ext change = Inr ()"
    and "apply_team_change proj change seq = Inr proj'"
  shows "teams_ok proj'"
  using assms(3)
proof (cases rule: apply_team_change_cases)
  case (created version team lead)
  then show ?thesis
    using assms(1) team_ok_new [of team lead]
    by (auto simp: teams_ok_def length_bt_insert team_new_def)
next
  case (revised team team')
  from revised(3) obtain team1 r where t: "apply_to_team change seq team = Inr team1"
    "team' = team1\<lparr>tv_revision := r\<rparr>"
    unfolding apply_revisioned_Inr by blast
  have old: "tv_id team = change_team change" "team_ok team"
    using assms(1) revised(2) by (simp_all add: teams_ok_def)
  have "change_shape ext change = Inr ()" using assms(2) by (simp add: team_validate_shape_def)
  then have "team_ok team1" by (rule team_ok_apply [OF old(2) _ t(1)])
  moreover have "tv_id team1 = change_team change" using apply_to_team_frame(1) [OF t(1)] old(1) by simp
  ultimately show ?thesis
    using assms(1) revised(2,4) t(2) by (auto simp: teams_ok_def length_bt_insert)
qed

lemma teams_ok_step:
  assumes "teams_ok proj" "team_event_step ext proj e = Inr proj'"
  shows "teams_ok proj'"
  using assms(2) by (cases rule: team_event_step_cases) (auto intro: teams_ok_change assms(1))

interpretation teams: replay bt_empty "team_event_step ext" teams_ok for ext
proof (unfold_locales, goal_cases)
  case 1
  show ?case by (simp add: teams_ok_def)
next
  case (2 s e s')
  then show ?case by (rule teams_ok_step)
qed

interpretation team_board: dependency_board "\<lambda>team. task_deps (tv_tasks team)" task_completed team_ok
  by unfold_locales (rule team_okD)


text \<open>Mail survives every change of the projection.\<close>

lemma mail_kept_step:
  assumes ok: "teams_ok proj" and step: "team_event_step ext proj e = Inr proj'"
    and team: "bt_get proj i = Some team" "bt_get (tv_mailbox team) m = Some (mail, delivered, claimed)"
  shows "\<exists>team' delivered' claimed'. bt_get proj' i = Some team'
    \<and> bt_get (tv_mailbox team') m = Some (mail, delivered', claimed')
    \<and> (delivered \<longrightarrow> delivered') \<and> (claimed \<longrightarrow> claimed')"
  using step
proof (cases rule: team_event_step_cases)
  case (change c)
  have inv: "bt_inv proj" "bt_inv (tv_mailbox team)"
    using ok team(1) by (auto simp: teams_ok_def intro: team_okD)
  from change(3) show ?thesis
  proof (cases rule: apply_team_change_cases)
    case (created version t lead)
    then show ?thesis using team inv by auto
  next
    case (revised old team')
    then obtain team1 r where a: "apply_to_team c (ev_seq e) old = Inr team1"
      and t: "team' = team1\<lparr>tv_revision := r\<rparr>"
      unfolding apply_revisioned_Inr by auto
    show ?thesis
    proof (cases "i = change_team c")
      case True
      then have "old = team" using revised(2) team(1) by simp
      then show ?thesis
        using apply_to_team_mailbox [OF a, of m mail delivered claimed] team(2) inv True revised(4) t by auto
    next
      case False
      then show ?thesis using team revised(4) inv by auto
    qed
  qed
next
  case other
  then show ?thesis using team by auto
qed

lemma mail_kept_fold:
  "try_fold (team_event_step ext) proj es = Inr proj' \<Longrightarrow> teams_ok proj \<Longrightarrow> bt_get proj i = Some team \<Longrightarrow>
   bt_get (tv_mailbox team) m = Some (mail, delivered, claimed) \<Longrightarrow>
   \<exists>team' delivered' claimed'. bt_get proj' i = Some team'
     \<and> bt_get (tv_mailbox team') m = Some (mail, delivered', claimed')
     \<and> (delivered \<longrightarrow> delivered') \<and> (claimed \<longrightarrow> claimed')"
proof (induction es arbitrary: proj team delivered claimed)
  case (Cons e es)
  from Cons.prems(1) obtain mid where mid: "team_event_step ext proj e = Inr mid"
    "try_fold (team_event_step ext) mid es = Inr proj'" by auto
  obtain team' d c where t: "bt_get mid i = Some team'" "bt_get (tv_mailbox team') m = Some (mail, d, c)"
    "delivered \<longrightarrow> d" "claimed \<longrightarrow> c"
    using mail_kept_step [OF Cons.prems(2) mid(1) Cons.prems(3,4)] by blast
  from Cons.IH [OF mid(2) teams_ok_step [OF Cons.prems(2) mid(1)] t(1,2)] t(3,4) show ?case by blast
qed auto


section \<open>History\<close>

text \<open>The team and the new revision of every change but a creation.\<close>

fun team_refs :: "session_event list \<Rightarrow> (string \<times> nat) list" where
  "team_refs [] = []"
| "team_refs (e # es) =
     (case ev_kind e of
        TeamChange c \<Rightarrow>
          (case change_revision c of
             None \<Rightarrow> team_refs es
           | Some r \<Rightarrow> (change_team c, r) # team_refs es)
      | _ \<Rightarrow> team_refs es)"

lemma team_refs_append: "team_refs (es @ fs) = team_refs es @ team_refs fs"
  by (induction es) (auto split: session_event_kind.splits option.splits)

text \<open>Every team has seen the revisions 1, 2, 3 and so on up to its own, and no other has any.\<close>

definition team_history :: "team_projection \<Rightarrow> (string \<times> nat) list \<Rightarrow> bool" where
  "team_history proj refs \<longleftrightarrow>
     (\<forall>i. numbers_of i refs =
        (case bt_get proj i of None \<Rightarrow> [] | Some team \<Rightarrow> [1..<Suc (tv_revision team)]))"

lemma change_revision_None: "change_revision c = None \<longleftrightarrow> (\<exists>v i lead. c = TeamCreated v i lead)"
  by (cases c) auto

lemma team_history_change:
  assumes h: "team_history proj refs" and inv: "bt_inv proj" and e: "ev_kind e = TeamChange c"
    and len: "length (refs @ team_refs [e]) \<le> u64_max"
    and step: "apply_team_change proj c seq = Inr proj'"
  shows "team_history proj' (refs @ team_refs [e])"
  using step
proof (cases rule: apply_team_change_cases)
  case (created version team lead)
  have "team_refs [e] = []" using e created(1) by simp
  with created h inv show ?thesis by (auto simp: team_history_def team_new_def)
next
  case (revised team team')
  then obtain team1 where r: "change_revision c = Some (tv_revision team')"
    "tv_revision team' = saturating_add_u64 (tv_revision team) 1"
    unfolding apply_revisioned_Inr by auto
  have refs: "team_refs [e] = [(change_team c, tv_revision team')]" using e r(1) by simp
  have old: "numbers_of (change_team c) refs = [1..<Suc (tv_revision team)]"
    using h revised(2) by (simp add: team_history_def)
  have "length refs < u64_max" using len refs by simp
  from numbers_next [OF old this] have
    new: "numbers_of (change_team c) (refs @ team_refs [e]) = [1..<Suc (tv_revision team')]"
    using r(2) unfolding refs by (simp add: saturating_add_u64_def)
  show ?thesis
    unfolding team_history_def
  proof
    fix i
    show "numbers_of i (refs @ team_refs [e]) =
        (case bt_get proj' i of None \<Rightarrow> [] | Some team \<Rightarrow> [1..<Suc (tv_revision team)])"
    proof (cases "i = change_team c")
      case True
      with new revised(4) inv show ?thesis by simp
    next
      case False
      then have "numbers_of i (refs @ team_refs [e]) = numbers_of i refs"
        unfolding refs by (simp add: numbers_of_snoc)
      moreover have "bt_get proj' i = bt_get proj i" using False revised(4) inv by simp
      ultimately show ?thesis using h by (simp add: team_history_def)
    qed
  qed
qed

lemma team_history_fold:
  assumes "try_fold (team_event_step ext) proj es = Inr proj'" "teams_ok proj"
    and "team_history proj refs" "length (refs @ team_refs es) \<le> u64_max"
  shows "team_history proj' (refs @ team_refs es)"
  using assms
proof (induction es arbitrary: proj refs)
  case Nil
  then show ?case by simp
next
  case (Cons e es)
  from Cons.prems(1) obtain t where t: "team_event_step ext proj e = Inr t"
    "try_fold (team_event_step ext) t es = Inr proj'" by auto
  have split: "refs @ team_refs (e # es) = (refs @ team_refs [e]) @ team_refs es"
    using team_refs_append [of "[e]" es] by simp
  have inv: "bt_inv proj" using Cons.prems(2) by (simp add: teams_ok_def)
  have len: "length (refs @ team_refs [e]) \<le> u64_max" using Cons.prems(4) [unfolded split] by simp
  from t(1) have "team_history t (refs @ team_refs [e])"
  proof (cases rule: team_event_step_cases)
    case (change c)
    show ?thesis by (rule team_history_change [OF Cons.prems(3) inv change(1) len change(3)])
  next
    case other
    then have "team_refs [e] = []" by (cases "ev_kind e") auto
    with other Cons.prems(3) show ?thesis by simp
  qed
  with Cons.IH [OF t(2) teams_ok_step [OF Cons.prems(2) t(1)]] Cons.prems(4) show ?case
    unfolding split by blast
qed

end
