(* ===== verification/Work_Projection.thy ===== *)
theory Work_Projection
  imports Team_Projection
begin

text \<open>
  The work board of a session from its whole log (\<open>project_work_items\<close> of
  \<open>work.rs\<close>): structured changes, the migration of historical todo lists, and the team
  tasks shown as work. The invariant of a board and the interpretations of the replay and
  dependency interfaces.
\<close>

section \<open>The invariant of a board\<close>

text \<open>
  Rows are keyed by their id, the graph is sound, prerequisites are in the same scope, a running
  or completed item has only completed prerequisites, and an item that is not deleted has no
  deleted prerequisite.
\<close>

definition work_dep_ok :: "work_item \<Rightarrow> work_item \<Rightarrow> bool" where
  "work_dep_ok item u \<longleftrightarrow>
     wi_scope u = wi_scope item
     \<and> (wif_status (wi_fields item) \<in> {WorkInProgress, WorkCompleted} \<longrightarrow>
          wif_status (wi_fields u) = WorkCompleted)
     \<and> (wif_status (wi_fields item) \<noteq> WorkDeleted \<longrightarrow> wif_status (wi_fields u) \<noteq> WorkDeleted)"

definition work_ok :: "work_projection \<Rightarrow> bool" where
  "work_ok items \<longleftrightarrow>
     bt_inv items \<and> length items \<le> max_work_items
     \<and> (\<forall>i item. bt_get items i = Some item \<longrightarrow> wi_id item = i)
     \<and> deps_sound (work_deps items)
     \<and> (\<forall>i item d. bt_get items i = Some item \<longrightarrow> d \<in> set (wif_dependencies (wi_fields item)) \<longrightarrow>
          (\<exists>u. bt_get items d = Some u \<and> work_dep_ok item u))"

lemma work_okD:
  assumes "work_ok items"
  shows "bt_inv items" "length items \<le> max_work_items" "deps_sound (work_deps items)"
    and "\<And>i item. bt_get items i = Some item \<Longrightarrow> wi_id item = i"
    and "\<And>i item d. bt_get items i = Some item \<Longrightarrow> d \<in> set (wif_dependencies (wi_fields item)) \<Longrightarrow>
      \<exists>u. bt_get items d = Some u \<and> work_dep_ok item u"
  using assms unfolding work_ok_def by blast+

lemma work_ok_empty: "work_ok bt_empty"
proof -
  have "work_deps bt_empty = (\<lambda>_. None)" by (simp add: work_deps_def fun_eq_iff)
  then show ?thesis by (simp add: work_ok_def)
qed

lemma check_revision_Inr:
  "check_revision items change = Inr fresh \<longleftrightarrow>
     (\<exists>existing. bt_get items (wi_id (wc_item change)) = Some existing \<and> wc_expected change = None
        \<and> wi_fingerprint existing = wi_fingerprint (wc_item change) \<and> \<not> fresh)
     \<or> (\<exists>existing. bt_get items (wi_id (wc_item change)) = Some existing
        \<and> wc_expected change = Some (wi_revision existing)
        \<and> wi_scope existing = wi_scope (wc_item change)
        \<and> wi_fingerprint existing = wi_fingerprint (wc_item change)
        \<and> wif_status (wi_fields existing) \<noteq> WorkDeleted \<and> fresh)
     \<or> (bt_get items (wi_id (wc_item change)) = None \<and> wc_expected change = None
        \<and> length items < max_work_items \<and> fresh)"
  by (auto simp: check_revision_def Let_def split: option.splits)

text \<open>What an accepted change that is not a retry has passed.\<close>

lemma work_apply_fresh:
  assumes "work_apply ext items change = Inr (True, items')"
  shows "items' = bt_insert (wi_id (wc_item change)) (wc_item change) items"
    and "work_validate_shape ext change = Inr ()"
    and "check_revision items change = Inr True"
    and "\<forall>d \<in> set (wif_dependencies (wi_fields (wc_item change))).
      check_dependency items (wc_item change) d = Inr ()"
    and "scan_cycle items (wi_id (wc_item change)) [] (wif_dependencies (wi_fields (wc_item change))) = Inr ()"
    and "wif_status (wi_fields (wc_item change)) = WorkCompleted
      \<or> \<not> work_dependents items (wi_id (wc_item change)) (\<lambda>s. s \<in> {WorkInProgress, WorkCompleted})"
    and "wif_status (wi_fields (wc_item change)) \<noteq> WorkDeleted
      \<or> \<not> work_dependents items (wi_id (wc_item change)) (\<lambda>s. s \<noteq> WorkDeleted)"
  using assms by (auto simp: work_apply_def Let_def split: if_splits)

lemma work_apply_retry: "work_apply ext items change = Inr (False, items') \<Longrightarrow> items' = items"
  by (auto simp: work_apply_def Let_def split: if_splits)

lemma check_dependency_Inr:
  "check_dependency items item d = Inr () \<longleftrightarrow>
     d \<noteq> wi_id item \<and> (\<exists>u. bt_get items d = Some u \<and> wi_scope u = wi_scope item
       \<and> wif_status (wi_fields u) \<noteq> WorkDeleted
       \<and> (wif_status (wi_fields item) \<in> {WorkInProgress, WorkCompleted} \<longrightarrow>
            wif_status (wi_fields u) = WorkCompleted))"
  by (auto simp: check_dependency_def)

lemma work_dependents_iff:
  "bt_inv items \<Longrightarrow> work_dependents items i P \<longleftrightarrow>
     (\<exists>j other. bt_get items j = Some other \<and> P (wif_status (wi_fields other))
        \<and> i \<in> set (wif_dependencies (wi_fields other)))"
  unfolding work_dependents_def list_ex_iff Bex_def by (auto simp: bt_values_iff)

lemma work_deps_insert:
  "bt_inv items \<Longrightarrow> work_deps (bt_insert i item items) =
     (work_deps items)(i \<mapsto> wif_dependencies (wi_fields item))"
  by (simp add: work_deps_def fun_eq_iff)

lemma work_ok_insert:
  assumes ok: "work_ok items" and app: "work_apply ext items change = Inr (True, items')"
  shows "work_ok items'"
proof -
  let ?item = "wc_item change"
  let ?i = "wi_id ?item" and ?ds = "wif_dependencies (wi_fields ?item)"
  note facts = work_apply_fresh [OF app]
  have inv: "bt_inv items" by (rule work_okD [OF ok])
  have dep: "\<exists>u. bt_get items d = Some u \<and> work_dep_ok ?item u" "d \<noteq> ?i" if "d \<in> set ?ds" for d
    using facts(4) that unfolding check_dependency_Inr work_dep_ok_def by blast+
  have known: "set ?ds \<subseteq> dom (bt_get items)" using dep(1) by blast
  have free: "\<forall>d \<in> set ?ds. (d, ?i) \<notin> (dep_edges (work_deps items))\<^sup>*"
    using facts(5) scan_cycle_iff [OF _ known] work_okD(3) [OF ok] by (simp add: deps_sound_def)
  have sound: "deps_sound (work_deps items')"
    unfolding facts(1) work_deps_insert [OF inv]
    by (rule deps_sound_update [OF work_okD(3) [OF ok] _ free]) (use known dom_work_deps in blast)
  have above: "work_dep_ok other ?item"
    if other: "bt_get items j = Some other" "?i \<in> set (wif_dependencies (wi_fields other))" "j \<noteq> ?i"
    for j other
  proof -
    obtain u where u: "bt_get items ?i = Some u" "work_dep_ok other u"
      using work_okD(5) [OF ok other(1,2)] by blast
    then have "wi_scope u = wi_scope ?item"
      using facts(3) unfolding check_revision_Inr by auto
    then show ?thesis
      using u(2) facts(6,7) other unfolding work_dependents_iff [OF inv] work_dep_ok_def by metis
  qed
  have "\<exists>u. bt_get items' d = Some u \<and> work_dep_ok x u"
    if x: "bt_get items' j = Some x" and d: "d \<in> set (wif_dependencies (wi_fields x))" for j x d
  proof (cases "j = ?i")
    case True
    then have "x = ?item" using x inv by (simp add: facts(1))
    with d dep [of d] inv show ?thesis by (auto simp: facts(1))
  next
    case False
    then have old: "bt_get items j = Some x" using x inv by (simp add: facts(1))
    show ?thesis
    proof (cases "d = ?i")
      case True
      with above [OF old _ False] d inv show ?thesis by (simp add: facts(1))
    next
      case False
      with work_okD(5) [OF ok old d] inv show ?thesis by (simp add: facts(1))
    qed
  qed
  moreover have "length items' \<le> max_work_items"
    using facts(3) work_okD(2) [OF ok] inv unfolding facts(1) check_revision_Inr
    by (auto simp: length_bt_insert)
  moreover have "bt_inv items'" using inv by (simp add: facts(1))
  moreover have "wi_id x = j" if "bt_get items' j = Some x" for j x
    using that work_okD(4) [OF ok, of j x] inv unfolding facts(1) by (auto split: if_splits)
  ultimately show ?thesis using sound unfolding work_ok_def by blast
qed

lemma work_ok_apply:
  assumes "work_ok items" "work_apply ext items change = Inr (changed, items')"
  shows "work_ok items'"
proof (cases changed)
  case True
  with assms show ?thesis by (simp add: work_ok_insert)
next
  case False
  with assms work_apply_retry [of ext items change items'] show ?thesis by simp
qed

definition work_done :: "work_projection \<Rightarrow> string \<Rightarrow> bool" where
  "work_done items i \<longleftrightarrow> work_status_of items i = Some WorkCompleted"

interpretation work_board: dependency_board work_deps work_done work_ok
  by unfold_locales (rule work_okD)


section \<open>Historical todo lists\<close>

text \<open>\<open>Value::get\<close> with a string index and \<open>Value::as_str\<close>.\<close>

fun json_get :: "json \<Rightarrow> string \<Rightarrow> json option" where
  "json_get (JObject kvs) key = map_of kvs key"
| "json_get _ key = None"

definition json_str_field :: "json \<Rightarrow> string \<Rightarrow> string option" where
  "json_str_field row key = (case json_get row key of None \<Rightarrow> None | Some v \<Rightarrow> json_as_str v)"

fun legacy_status :: "string option \<Rightarrow> work_status option" where
  "legacy_status None = None"
| "legacy_status (Some s) =
     (if s = ''pending'' then Some WorkPending
      else if s = ''in_progress'' then Some WorkInProgress
      else if s = ''completed'' then Some WorkCompleted
      else None)"

text \<open>\<open>replace(['\n', '\r', '\t'], " ")\<close>\<close>

definition blanked :: "string \<Rightarrow> string" where
  "blanked s =
     map (\<lambda>c. if c = CHR 0x0A \<or> c = CHR 0x0D \<or> c = CHR 0x09 then CHR 0x20 else c) s"

definition legacy_subject :: "string \<Rightarrow> string" where
  "legacy_subject subject =
     (let trimmed = trim (blanked (clean_legacy_text subject))
      in if trimmed = [] then ''Legacy work item'' else bounded_text trimmed 256)"

definition legacy_fields :: "string \<Rightarrow> work_status \<Rightarrow> nat \<Rightarrow> work_fields" where
  "legacy_fields subject status seq =
     \<lparr>wif_subject = legacy_subject subject,
      wif_description =
        (if 256 < length subject then bounded_text (clean_legacy_text subject) 16384 else []),
      wif_status = status, wif_owner = None, wif_dependencies = [],
      wif_metadata =
        bt_insert ''legacy_source_seq'' (JInt (int seq))
          (bt_insert ''legacy_content_truncated'' (JBool (16384 < length subject)) bt_empty)\<rparr>"

text \<open>One row of a todo list; a row without text or with an unknown status is skipped.\<close>

definition migrate_row ::
  "work_ext \<Rightarrow> nat \<Rightarrow> work_projection \<Rightarrow> json \<Rightarrow> work_error + work_projection" where
  "migrate_row ext seq migrated row =
     (case json_str_field row ''content'' of
        None \<Rightarrow> Inr migrated
      | Some subject \<Rightarrow>
          (case legacy_status (json_str_field row ''status'') of
             None \<Rightarrow> Inr migrated
           | Some status \<Rightarrow>
               and_then
                 (work_change_create ext ScopeSession
                    (''legacy-todo-'' @ we_sha256_hex ext subject) (legacy_fields subject status seq))
                 (\<lambda>change. and_then (work_apply ext migrated change) (\<lambda>r. Inr (snd r)))))"

definition migrate_rows :: "work_ext \<Rightarrow> nat \<Rightarrow> json list \<Rightarrow> work_error + work_projection" where
  "migrate_rows ext seq rows =
     and_then (refuse_if (max_work_items < length rows) WorkErrLimit)
       (\<lambda>_. try_fold (migrate_row ext seq) bt_empty rows)"

section \<open>The fold\<close>

record work_fold =
  wfo_items :: work_projection
  wfo_old_calls :: "string btree_set"
  wfo_native :: bool

definition work_fold_default :: work_fold where
  "work_fold_default = \<lparr>wfo_items = bt_empty, wfo_old_calls = bt_empty, wfo_native = False\<rparr>"

definition work_event_step ::
  "work_ext \<Rightarrow> work_fold \<Rightarrow> session_event \<Rightarrow> work_error + work_fold" where
  "work_event_step ext s e =
     (case ev_kind e of
        WorkChange change \<Rightarrow>
          and_then (work_apply ext (wfo_items s) change)
            (\<lambda>r. Inr (s\<lparr>wfo_items := snd r, wfo_native := True\<rparr>))
      | ToolCall turn call name args \<Rightarrow>
          Inr (if \<not> wfo_native s \<and> (name = ''todo_write'' \<or> name = ''mcp__heycode__todo_write'')
               then s\<lparr>wfo_old_calls := bt_insert call () (wfo_old_calls s)\<rparr> else s)
      | ToolResult call content is_error boundary \<Rightarrow>
          if \<not> is_error \<and> \<not> wfo_native s \<and> bt_contains (wfo_old_calls s) call
          then let s' = s\<lparr>wfo_old_calls := bt_remove call (wfo_old_calls s)\<rparr>
               in (case we_parse_rows ext content of
                     None \<Rightarrow> Inr s'
                   | Some rows \<Rightarrow>
                       and_then (migrate_rows ext (ev_seq e) rows)
                         (\<lambda>migrated. Inr (s'\<lparr>wfo_items := migrated\<rparr>)))
          else Inr s
      | _ \<Rightarrow> Inr s)"

text \<open>The team tasks as further rows; an id that is taken is a conflict.\<close>

definition overlay_task ::
  "work_ext \<Rightarrow> string \<Rightarrow> work_projection \<Rightarrow> team_task \<Rightarrow> work_error + work_projection" where
  "overlay_task ext team items t =
     and_then (work_from_team_task ext team t) (\<lambda>item.
     and_then (refuse_if (bt_contains items (wi_id item)) WorkErrConflict)
       (\<lambda>_. Inr (bt_insert (wi_id item) item items)))"

definition overlay_team ::
  "work_ext \<Rightarrow> work_projection \<Rightarrow> team_view \<Rightarrow> work_error + work_projection" where
  "overlay_team ext items team = try_fold (overlay_task ext (tv_id team)) items (tasks_of team)"

definition project_work_items ::
  "work_ext \<Rightarrow> session_event list \<Rightarrow> work_error + work_projection" where
  "project_work_items ext events =
     and_then (try_fold (work_event_step ext) work_fold_default events) (\<lambda>s.
     and_then (map_err (\<lambda>_. WorkErrConflict) (project_teams ext events)) (\<lambda>teams.
       try_fold (overlay_team ext) (wfo_items s) (bt_values teams)))"

section \<open>Laws of the fold\<close>

lemma migrate_row_ok:
  assumes "work_ok items" "migrate_row ext seq items row = Inr items'"
  shows "work_ok items'"
  using assms by (auto simp: migrate_row_def intro: work_ok_apply split: option.splits)

lemma migrate_rows_ok: "migrate_rows ext seq rows = Inr items \<Longrightarrow> work_ok items"
  unfolding migrate_rows_def
  by (auto intro: try_fold_inv [where P = work_ok] work_ok_empty migrate_row_ok)

lemma work_event_step_cases:
  assumes "work_event_step ext s e = Inr s'"
  obtains (change) change changed where "ev_kind e = WorkChange change"
      "work_apply ext (wfo_items s) change = Inr (changed, wfo_items s')" "wfo_native s'"
    | (migrated) rows where "\<not> wfo_native s" "migrate_rows ext (ev_seq e) rows = Inr (wfo_items s')"
        "wfo_native s' = wfo_native s"
    | (same) "\<And>change. ev_kind e \<noteq> WorkChange change" "wfo_items s' = wfo_items s"
        "wfo_native s' = wfo_native s"
  using assms
  by (cases "ev_kind e")
    (auto simp: work_event_step_def Let_def split: option.splits if_splits)

definition work_fold_ok :: "work_fold \<Rightarrow> bool" where
  "work_fold_ok s \<longleftrightarrow> work_ok (wfo_items s)"

lemma work_fold_ok_step:
  assumes "work_fold_ok s" "work_event_step ext s e = Inr s'"
  shows "work_fold_ok s'"
  using assms(2)
  by (cases rule: work_event_step_cases)
    (use assms(1) in \<open>auto simp: work_fold_ok_def intro: work_ok_apply migrate_rows_ok\<close>)

interpretation work: replay work_fold_default "work_event_step ext" work_fold_ok for ext
proof (unfold_locales, goal_cases)
  case 1
  show ?case by (simp add: work_fold_ok_def work_fold_default_def work_ok_empty)
next
  case (2 s e s')
  then show ?case by (rule work_fold_ok_step)
qed

text \<open>The overlay only adds rows, one for each team task.\<close>

lemma overlay_task_Inr:
  "overlay_task ext team items t = Inr items' \<longleftrightarrow>
     (\<exists>item. work_from_team_task ext team t = Inr item \<and> \<not> bt_contains items (wi_id item)
        \<and> items' = bt_insert (wi_id item) item items)"
  by (auto simp: overlay_task_def)

lemma overlay_task_keeps:
  assumes "bt_inv items" "overlay_task ext team items t = Inr items'"
  shows "bt_inv items' \<and> length items' = Suc (length items)
    \<and> (\<forall>i x. bt_get items i = Some x \<longrightarrow> bt_get items' i = Some x)"
  using assms by (auto simp: overlay_task_Inr length_bt_insert)

lemma overlay_tasks_keeps:
  "bt_inv items \<Longrightarrow> try_fold (overlay_task ext team) items ts = Inr items' \<Longrightarrow>
   bt_inv items' \<and> length items' = length items + length ts
   \<and> (\<forall>i x. bt_get items i = Some x \<longrightarrow> bt_get items' i = Some x)"
proof (induction ts arbitrary: items)
  case (Cons t ts)
  then obtain mid where mid: "overlay_task ext team items t = Inr mid"
    "try_fold (overlay_task ext team) mid ts = Inr items'" by auto
  with Cons.IH [OF _ mid(2)] overlay_task_keeps [OF Cons.prems(1) mid(1)] show ?case by simp
qed simp

lemma overlay_teams_keeps:
  "bt_inv items \<Longrightarrow> try_fold (overlay_team ext) items teams = Inr items' \<Longrightarrow>
   bt_inv items' \<and> length items' = length items + sum_list (map (\<lambda>team. length (tv_tasks team)) teams)
   \<and> (\<forall>i x. bt_get items i = Some x \<longrightarrow> bt_get items' i = Some x)"
proof (induction teams arbitrary: items)
  case (Cons team teams)
  then obtain mid where mid: "overlay_team ext items team = Inr mid"
    "try_fold (overlay_team ext) mid teams = Inr items'" by auto
  have "bt_inv mid \<and> length mid = length items + length (tv_tasks team)
     \<and> (\<forall>i x. bt_get items i = Some x \<longrightarrow> bt_get mid i = Some x)"
    using overlay_tasks_keeps [OF Cons.prems(1)] mid(1)
    by (simp add: overlay_team_def tasks_of_def bt_values_def)
  with Cons.IH [OF _ mid(2)] show ?case by simp
qed simp

end
