(* ===== verification/Board_Properties.thy ===== *)
theory Board_Properties
  imports Work_Projection
begin

text \<open>
  The properties of the teams and of the work board of a session: what every replayed board
  satisfies, who may change it, how changes are numbered, and that neither board can deadlock.
\<close>

section \<open>Samples\<close>

definition sample_ext :: work_ext where
  "sample_ext =
     \<lparr>we_metadata_len = (\<lambda>_. Some 2), we_identity_json = (\<lambda>_ key. Some key),
      we_fields_json = (\<lambda>_ f. Some (wif_subject f)),
      we_sha256_hex = (\<lambda>s. take 64 (s @ replicate 64 (CHR ''0''))), we_parse_rows = (\<lambda>_. None)\<rparr>"

definition board_event :: "nat \<Rightarrow> session_event_kind \<Rightarrow> session_event" where
  "board_event seq k = \<lparr>ev_v = current_session_log_version, ev_seq = seq, ev_time = 5, ev_kind = k\<rparr>"

definition sample_task :: "string \<Rightarrow> string list \<Rightarrow> team_task" where
  "sample_task i deps =
     \<lparr>tt_id = i, tt_title = ''do'', tt_assignee = ''w1'', tt_assigned = True,
      tt_dependencies = deps, tt_revision = 1, tt_state = TaskPending, tt_result = None,
      tt_description = '''', tt_metadata = bt_empty, tt_fingerprint = None\<rparr>"

definition sample_lead :: team_member where
  "sample_lead = \<lparr>tm_id = ''l1'', tm_display = ''lead'', tm_role = Lead\<rparr>"

definition sample_worker :: team_member where
  "sample_worker = \<lparr>tm_id = ''w1'', tm_display = ''worker'', tm_role = Worker\<rparr>"

definition sample_mail :: mailbox_message where
  "sample_mail = \<lparr>mm_id = ''x1'', mm_from = ''l1'', mm_to = ''w1'', mm_body = ''hello''\<rparr>"

text \<open>A team with one worker, a task, a task that depends on it, and a mail.\<close>

definition team_log :: "session_event list" where
  "team_log =
     [board_event 0 (TeamChange (TeamCreated 1 ''t1'' sample_lead)),
      board_event 1 (TeamChange (MemberAdded 1 ''t1'' 1 ''l1'' sample_worker)),
      board_event 2 (TeamChange (TaskCreated 1 ''t1'' 2 ''l1'' (sample_task ''a'' []))),
      board_event 3 (TeamChange (TaskCreated 1 ''t1'' 3 ''l1'' (sample_task ''b'' [''a'']))),
      board_event 4 (TeamChange (MessageSent 1 ''t1'' 4 ''l1'' sample_mail))]"

definition sample_team :: team_view where
  "sample_team =
     \<lparr>tv_id = ''t1'', tv_lifecycle = TeamActive, tv_revision = 4, tv_lead = ''l1'',
      tv_members = [(''l1'', sample_lead), (''w1'', sample_worker)],
      tv_tasks = [(''a'', sample_task ''a'' []), (''b'', sample_task ''b'' [''a''])],
      tv_mailbox = [(''x1'', (sample_mail, False, False))]\<rparr>"

lemmas text_eval =
  is_ascii_alphanumeric_def is_ascii_digit_def is_ascii_lowercase_def is_ascii_uppercase_def
  is_ascii_hexdigit_def plain_simps plain_eval map_eval Let_def

lemmas team_eval =
  team_event_step_def team_step_def team_validate_shape_def apply_team_change_def
  apply_revisioned_def team_op_defs insert_task_def require_lead_def ensure_acyclic_def
  team_new_def task_content_valid_def task_new_def with_work_content_def validate_dependencies_def
  team_valid_id_def valid_one_line_def valid_body_def work_fields_validate_def work_valid_id_def
  tasks_of_def task_dead_def visit.simps saturating_add_u64_def u64_max_def
  max_members_def max_tasks_def max_task_dependencies_def max_mailbox_messages_def
  max_label_bytes_def max_message_bytes_def max_work_dependencies_def text_eval

lemmas team_samples =
  sample_ext_def board_event_def sample_task_def sample_lead_def sample_worker_def sample_mail_def

lemma team_log_replays: "project_teams sample_ext team_log = Inr [(''t1'', sample_team)]"
  by (simp add: project_teams_def team_log_def sample_team_def team_samples team_eval bt_keys_def)

section \<open>Teams\<close>

text \<open>
  The depth-first cycle check accepts a task table exactly when every dependency names a
  task of the table and no task depends on itself, however indirectly.
\<close>

theorem task_cycle_check_exact:
  assumes "bt_inv (tv_tasks team)"
  shows "ensure_acyclic team seq = Inr () \<longleftrightarrow>
     (\<forall>i t d. bt_get (tv_tasks team) i = Some t \<and> d \<in> set (tt_dependencies t) \<longrightarrow>
        bt_contains (tv_tasks team) d)
     \<and> acyclic (dep_edges (task_deps (tv_tasks team)))"
proof -
  have "finite (dom (task_deps (tv_tasks team)))"
    unfolding dom_task_deps bt.set_keys [OF assms, symmetric] by simp
  then show ?thesis
    unfolding ensure_acyclic_iff [OF assms] deps_sound_def deps_closed_def dom_task_deps
    by (auto simp: task_deps_def subset_iff dom_def)
qed

theorem task_cycle_check_exact_witness:
  "acyclic (dep_edges (task_deps (tv_tasks sample_team)))"
proof -
  have "bt_inv (tv_tasks sample_team)" by (simp add: sample_team_def bt_inv_def less_char_def)
  moreover have "ensure_acyclic sample_team 0 = Inr ()"
    by (simp add: sample_team_def team_samples team_eval bt_keys_def)
  ultimately show ?thesis using task_cycle_check_exact [of sample_team 0] by blast
qed

text \<open>
  C7: every team of a log that replays is well formed: it is filed under its own id, its lead is
  a member, roster, task table and mailbox respect their bounds, the task graph is closed and
  acyclic, a running or completed task has only completed dependencies, a task that is not
  deleted has no deleted dependency, and every task that is still to be done is assigned to a
  member.
\<close>

theorem replayed_teams_well_formed:
  assumes "project_teams ext es = Inr teams" "bt_get teams i = Some team"
  shows "tv_id team = i \<and> bt_contains (tv_members team) (tv_lead team)
    \<and> length (tv_members team) \<le> 32 \<and> length (tv_tasks team) \<le> 1024 \<and> length (tv_mailbox team) \<le> 4096
    \<and> acyclic (dep_edges (task_deps (tv_tasks team)))
    \<and> (\<forall>i t d. bt_get (tv_tasks team) i = Some t \<and> d \<in> set (tt_dependencies t) \<longrightarrow>
         (\<exists>u. bt_get (tv_tasks team) d = Some u
            \<and> (tt_state t \<in> {TaskInProgress, TaskCompleted} \<longrightarrow> tt_state u = TaskCompleted)
            \<and> (tt_state t \<noteq> TaskDeleted \<longrightarrow> tt_state u \<noteq> TaskDeleted)))
    \<and> (\<forall>i t. bt_get (tv_tasks team) i = Some t \<and> tt_state t \<in> {TaskPending, TaskBlocked, TaskInProgress} \<longrightarrow>
         bt_contains (tv_members team) (tt_assignee t))"
proof -
  have ok: "tv_id team = i" "team_ok team"
    using teams.good_replay assms by (auto simp: project_teams_def teams_ok_def)
  note facts = team_okD [OF ok(2)]
  show ?thesis
    using ok(1) facts(4-6,8,9,11,12)
    unfolding max_members_def max_tasks_def max_mailbox_messages_def deps_sound_def by blast
qed

theorem replayed_teams_well_formed_witness: "bt_contains (tv_members sample_team) (tv_lead sample_team)"
  using replayed_teams_well_formed [OF team_log_replays, of "''t1''" sample_team]
  by (simp add: map_eval)

text \<open>
  The changes of a log that replays number the revisions of every team 1, 2, 3 and so on up
  to the revision the team stands at, and no change is recorded for a team that does not exist,
  as long as there are fewer changes than a 64-bit counter holds.
\<close>

theorem team_revisions_sequential:
  assumes "project_teams ext es = Inr teams" "length (team_refs es) \<le> u64_max"
  shows "numbers_of i (team_refs es) =
    (case bt_get teams i of None \<Rightarrow> [] | Some team \<Rightarrow> [1..<Suc (tv_revision team)])"
proof -
  have "team_history bt_empty []" by (simp add: team_history_def numbers_of_def)
  from team_history_fold [OF assms(1) [unfolded project_teams_def] teams.good_init this]
  have "team_history teams (team_refs es)" using assms(2) by simp
  then show ?thesis by (simp add: team_history_def)
qed

theorem team_revisions_sequential_witness: "numbers_of ''t1'' (team_refs team_log) = [1, 2, 3, 4]"
proof -
  have "length (team_refs team_log) \<le> u64_max" by (simp add: team_log_def board_event_def u64_max_def)
  from team_revisions_sequential [OF team_log_replays this, of "''t1''"] show ?thesis
    by (simp add: map_eval sample_team_def eval_nat_numeral)
qed

text \<open>
  C34: authority and frame. An accepted change of an existing team was made by someone it allows
  (the lead; the assignee of a task, who may not change what the task is; the sender of a
  message; its recipient), touches that team only, leaves its id and lead alone, and changes
  the roster, the tasks and the mailbox only when it is a change of that kind.
\<close>

theorem team_change_authorised:
  assumes "apply_team_change teams change seq = Inr teams'" "bt_inv teams"
    and "bt_get teams (change_team change) = Some team"
  shows "authorised change team
    \<and> (\<exists>team'. bt_get teams' (change_team change) = Some team'
         \<and> tv_id team' = tv_id team \<and> tv_lead team' = tv_lead team
         \<and> (changes_roster change \<or> tv_members team' = tv_members team)
         \<and> (changes_tasks change \<or> tv_tasks team' = tv_tasks team)
         \<and> (changes_mailbox change \<or> tv_mailbox team' = tv_mailbox team))
    \<and> (\<forall>i. i \<noteq> change_team change \<longrightarrow> bt_get teams' i = bt_get teams i)"
  using assms(1)
proof (cases rule: apply_team_change_cases)
  case (created version i lead)
  then show ?thesis using assms(3) by simp
next
  case (revised old team')
  then obtain team1 r where a: "apply_to_team change seq team = Inr team1"
    and t: "team' = team1\<lparr>tv_revision := r\<rparr>"
    using assms(3) unfolding apply_revisioned_Inr by auto
  show ?thesis
    using apply_to_team_authorised [OF a] apply_to_team_frame [OF a] apply_to_team_parts [OF a]
      revised(4) assms(2) t by simp
qed

theorem team_change_authorised_witness:
  "authorised (MessageClaimed 1 ''t1'' 5 ''w1'' ''x1'') sample_team"
proof -
  let ?c = "MessageClaimed 1 ''t1'' 5 ''w1'' ''x1''"
  have "\<exists>teams'. apply_team_change [(''t1'', sample_team)] ?c 5 = Inr teams'"
    by (simp add: sample_team_def team_samples team_eval) metis
  then obtain teams' where "apply_team_change [(''t1'', sample_team)] ?c 5 = Inr teams'" by blast
  then show ?thesis
    using team_change_authorised [of "[(''t1'', sample_team)]" ?c 5 teams' sample_team]
    by (simp add: bt_inv_def map_eval)
qed

text \<open>
  Mail is never lost, rewritten or taken back: whatever a team's mailbox held after a prefix
  of a log is still there after the whole log, with the same sender, recipient and text, and a
  message once delivered or claimed stays so.
\<close>

theorem mail_is_kept:
  assumes "project_teams ext es = Inr teams" "project_teams ext (es @ later) = Inr teams'"
    and "bt_get teams i = Some team" "bt_get (tv_mailbox team) m = Some (mail, delivered, claimed)"
  shows "\<exists>team' delivered' claimed'. bt_get teams' i = Some team'
    \<and> bt_get (tv_mailbox team') m = Some (mail, delivered', claimed')
    \<and> (delivered \<longrightarrow> delivered') \<and> (claimed \<longrightarrow> claimed')"
proof -
  have "teams_ok teams" using assms(1) teams.good_replay by (simp add: project_teams_def)
  moreover have "try_fold (team_event_step ext) teams later = Inr teams'"
    using assms(1,2) by (simp add: project_teams_def try_fold_append)
  ultimately show ?thesis using mail_kept_fold assms(3,4) by blast
qed

theorem mail_is_kept_witness:
  "\<exists>team. bt_get [(''t1'', sample_team)] ''t1'' = Some team
     \<and> (\<exists>d c. bt_get (tv_mailbox team) ''x1'' = Some (sample_mail, d, c))"
proof -
  have "bt_get (tv_mailbox sample_team) ''x1'' = Some (sample_mail, False, False)"
    by (simp add: sample_team_def map_eval)
  with mail_is_kept [OF team_log_replays, of "[]" "[(''t1'', sample_team)]" "''t1''" sample_team "''x1''"]
  show ?thesis using team_log_replays by (auto simp: map_eval)
qed

text \<open>
  A team cannot deadlock on its task graph. As long as some task is not completed, a task
  is left that is not completed and whose dependencies are all completed, and it is one the
  first task waits for.
\<close>

theorem team_tasks_progress:
  assumes "project_teams ext es = Inr teams" "bt_get teams i = Some team"
    and "bt_contains (tv_tasks team) k" "\<not> task_completed team k"
  shows "\<exists>r t. (k, r) \<in> (dep_edges (task_deps (tv_tasks team)))\<^sup>*
    \<and> bt_get (tv_tasks team) r = Some t \<and> \<not> task_completed team r
    \<and> list_all (task_completed team) (tt_dependencies t)"
proof -
  have ok: "team_ok team" using teams.good_replay assms(1,2) by (auto simp: project_teams_def teams_ok_def)
  have "task_deps (tv_tasks team) k \<noteq> None" using assms(3) by (auto simp: task_deps_def)
  from team_board.ready_exists [OF ok this assms(4)] show ?thesis
    by (auto simp: task_deps_def list_all_iff)
qed

theorem team_tasks_progress_witness:
  "\<exists>r t. bt_get (tv_tasks sample_team) r = Some t \<and> list_all (task_completed sample_team) (tt_dependencies t)"
proof -
  have "bt_contains (tv_tasks sample_team) ''b''" "\<not> task_completed sample_team ''b''"
    by (simp_all add: sample_team_def sample_task_def task_completed_def map_eval)
  with team_tasks_progress [OF team_log_replays, of "''t1''" sample_team "''b''"] show ?thesis
    by (auto simp: map_eval)
qed

section \<open>Work\<close>

definition sample_work :: "string \<Rightarrow> work_status \<Rightarrow> string list \<Rightarrow> work_item" where
  "sample_work i status deps =
     \<lparr>wi_id = i, wi_scope = ScopeSession, wi_revision = 1, wi_fingerprint = replicate 64 (CHR ''a''),
      wi_fields = \<lparr>wif_subject = ''do'', wif_description = [], wif_status = status, wif_owner = None,
        wif_dependencies = deps, wif_metadata = bt_empty\<rparr>,
      wi_team_task = None, wi_result = None\<rparr>"

definition create_work :: "string \<Rightarrow> string list \<Rightarrow> work_change" where
  "create_work i deps = \<lparr>wc_version = 1, wc_expected = None, wc_item = sample_work i WorkPending deps\<rparr>"

definition work_log :: "session_event list" where
  "work_log =
     team_log @ [board_event 5 (WorkChange (create_work ''p'' [])),
                 board_event 6 (WorkChange (create_work ''q'' [''p'']))]"

definition sample_board :: work_projection where
  "sample_board = [(''p'', sample_work ''p'' WorkPending []), (''q'', sample_work ''q'' WorkPending [''p''])]"

lemmas work_eval =
  work_event_step_def work_apply_def work_validate_shape_def check_revision_def check_dependency_def
  work_dependents_def scan_cycle.simps work_fields_validate_def work_valid_id_def max_work_items_def
  max_work_dependencies_def checked_add_u64_def u64_max_def bt_keys_def list_all_iff text_eval

lemmas work_samples =
  sample_work_def create_work_def sample_board_def sample_ext_def board_event_def

lemma work_log_replays:
  "try_fold (work_event_step sample_ext) work_fold_default work_log =
     Inr \<lparr>wfo_items = sample_board, wfo_old_calls = [], wfo_native = True\<rparr>"
  by (simp add: work_log_def team_log_def work_fold_default_def work_samples work_eval) metis

lemma sample_board_ok: "work_ok sample_board"
  using work.good_replay [OF work_log_replays] by (simp add: work_fold_ok_def)

text \<open>
  What an accepted change of the work board does. Either it is the retry of a creation, the
  row is there with the same fingerprint and nothing changes; or exactly the row of the change
  is written: a creation of an absent row with revision 1 on a board that has room, or a
  replacement of a row that is not deleted, whose revision is the expected one, by one with the
  same scope and fingerprint and the next revision. The board keeps its invariant.
\<close>

theorem work_change_effect:
  assumes "work_ok items" "work_apply ext items change = Inr (changed, items')"
  shows "work_ok items'
    \<and> (\<forall>i. bt_get items' i =
         (if changed \<and> i = wi_id (wc_item change) then Some (wc_item change) else bt_get items i))
    \<and> (\<not> changed \<longrightarrow> wc_expected change = None
         \<and> (\<exists>old. bt_get items (wi_id (wc_item change)) = Some old
              \<and> wi_fingerprint old = wi_fingerprint (wc_item change)))
    \<and> (changed \<and> wc_expected change = None \<longrightarrow>
         bt_get items (wi_id (wc_item change)) = None \<and> wi_revision (wc_item change) = 1
         \<and> length items < max_work_items)
    \<and> (\<forall>expected. changed \<and> wc_expected change = Some expected \<longrightarrow>
         wi_revision (wc_item change) = expected + 1
         \<and> (\<exists>old. bt_get items (wi_id (wc_item change)) = Some old \<and> wi_revision old = expected
              \<and> wi_scope old = wi_scope (wc_item change)
              \<and> wi_fingerprint old = wi_fingerprint (wc_item change)
              \<and> wif_status (wi_fields old) \<noteq> WorkDeleted))"
proof -
  have "work_ok items'" by (rule work_ok_apply [OF assms])
  moreover have "wi_revision (wc_item change) =
      (case wc_expected change of None \<Rightarrow> 0 | Some r \<Rightarrow> r) + 1"
    using assms(2) by (auto simp: work_apply_def work_validate_shape_def Let_def)
  moreover have "bt_inv items" by (rule work_okD [OF assms(1)])
  ultimately show ?thesis
    using assms(2) by (auto simp: work_apply_def Let_def check_revision_Inr split: if_splits)
qed

theorem work_change_effect_witness:
  "\<exists>items'. work_apply sample_ext sample_board (create_work ''r'' [''p'', ''q'']) = Inr (True, items')
     \<and> work_ok items'"
proof -
  have "\<exists>items'. work_apply sample_ext sample_board (create_work ''r'' [''p'', ''q'']) = Inr (True, items')"
    by (simp add: work_samples work_eval)
  then obtain items' where "work_apply sample_ext sample_board (create_work ''r'' [''p'', ''q'']) = Inr (True, items')"
    by blast
  with work_change_effect [OF sample_board_ok this] show ?thesis by blast
qed

text \<open>
  Creating is idempotent. A creation that was accepted, as a new row or as a retry, is
  accepted again right away as a retry that changes nothing.
\<close>

theorem work_create_idempotent:
  assumes "bt_inv items" "wc_expected change = None"
    and "work_apply ext items change = Inr (changed, items')"
  shows "work_apply ext items' change = Inr (False, items')"
  using assms by (auto simp: work_apply_def Let_def check_revision_def split: if_splits option.splits)

theorem work_create_idempotent_witness:
  "work_apply sample_ext sample_board (create_work ''q'' [''p'']) = Inr (False, sample_board)"
proof -
  let ?start = "[(''p'', sample_work ''p'' WorkPending [])]"
  have "work_apply sample_ext ?start (create_work ''q'' [''p'']) = Inr (True, sample_board)"
    by (simp add: work_samples work_eval)
  from work_create_idempotent [OF _ _ this] show ?thesis
    by (simp add: bt_inv_def create_work_def)
qed

text \<open>
  C37: the cycle scan of a candidate row, a worklist that pops from its end, accepts exactly the
  candidates that none of their prerequisites depends on, directly or indirectly.
\<close>

theorem work_cycle_scan_exact:
  assumes "work_ok items" "\<forall>d \<in> set deps. bt_contains items d"
  shows "scan_cycle items target [] deps = Inr () \<longleftrightarrow>
     (\<forall>d \<in> set deps. (d, target) \<notin> (dep_edges (work_deps items))\<^sup>*)"
proof (rule scan_cycle_iff)
  show "deps_closed (work_deps items)" using work_okD(3) [OF assms(1)] by (simp add: deps_sound_def)
  show "set deps \<subseteq> dom (bt_get items)" using assms(2) by auto
qed

theorem work_cycle_scan_exact_witness:
  "(''q'', ''r'') \<notin> (dep_edges (work_deps sample_board))\<^sup>*"
proof -
  have "\<forall>d \<in> set [''q'']. bt_contains sample_board d" by (simp add: work_samples map_eval)
  from work_cycle_scan_exact [OF sample_board_ok this, of "''r''"] show ?thesis
    by (simp add: work_samples work_eval)
qed

text \<open>
  The whole board of a log. It consists of a board of session rows that satisfies the
  invariant (ids, bound, scopes, statuses, a closed acyclic graph) and, added to it without
  displacing any row, one row for every task of every team.
\<close>

theorem work_board_composed:
  assumes "project_work_items ext es = Inr items"
  shows "\<exists>s teams. try_fold (work_event_step ext) work_fold_default es = Inr s
    \<and> project_teams ext es = Inr teams \<and> work_ok (wfo_items s)
    \<and> (\<forall>i x. bt_get (wfo_items s) i = Some x \<longrightarrow> bt_get items i = Some x)
    \<and> length items =
        length (wfo_items s) + sum_list (map (\<lambda>team. length (tv_tasks team)) (bt_values teams))"
proof -
  from assms obtain s teams where s: "try_fold (work_event_step ext) work_fold_default es = Inr s"
    and t: "project_teams ext es = Inr teams"
    and o: "try_fold (overlay_team ext) (wfo_items s) (bt_values teams) = Inr items"
    by (auto simp: project_work_items_def)
  have ok: "work_ok (wfo_items s)" using work.good_replay [OF s] by (simp add: work_fold_ok_def)
  from overlay_teams_keeps [OF work_okD(1) [OF ok] o] s t ok show ?thesis by blast
qed

theorem work_board_composed_witness:
  "\<exists>items. project_work_items sample_ext work_log = Inr items \<and> length items = 4"
proof -
  have teams: "project_teams sample_ext work_log = Inr [(''t1'', sample_team)]"
    using team_log_replays
    by (simp add: project_teams_def work_log_def try_fold_append team_event_step_def board_event_def)
  have "\<exists>items. project_work_items sample_ext work_log = Inr items"
    using work_log_replays teams
    by (simp add: project_work_items_def overlay_team_def overlay_task_def work_from_team_task_def
        team_work_id_def work_change_create_def sample_team_def team_samples work_samples work_eval
        tasks_of_def bounded_text_def clean_legacy_text_def team_valid_id_def)
  then obtain items where i: "project_work_items sample_ext work_log = Inr items" by blast
  from work_board_composed [OF i] show ?thesis
    using i work_log_replays teams by (auto simp: sample_board_def sample_team_def bt_values_def)
qed

text \<open>
  The session board cannot deadlock. As long as an item is not completed, an item is left
  that is not completed and whose prerequisites are all completed, and it is one the first item
  waits for.
\<close>

theorem work_items_progress:
  assumes "try_fold (work_event_step ext) work_fold_default es = Inr s"
    and "bt_contains (wfo_items s) k" "work_status_of (wfo_items s) k \<noteq> Some WorkCompleted"
  shows "\<exists>r item. (k, r) \<in> (dep_edges (work_deps (wfo_items s)))\<^sup>*
    \<and> bt_get (wfo_items s) r = Some item \<and> wif_status (wi_fields item) \<noteq> WorkCompleted
    \<and> (\<forall>d \<in> set (wif_dependencies (wi_fields item)). work_status_of (wfo_items s) d = Some WorkCompleted)"
proof -
  have ok: "work_ok (wfo_items s)" using work.good_replay [OF assms(1)] by (simp add: work_fold_ok_def)
  have "work_deps (wfo_items s) k \<noteq> None" using assms(2) by (auto simp: work_deps_def)
  from work_board.ready_exists [OF ok this] assms(3) show ?thesis
    by (auto simp: work_done_def work_deps_def work_status_of_def)
qed

theorem work_items_progress_witness:
  "\<exists>r item. bt_get sample_board r = Some item
     \<and> (\<forall>d \<in> set (wif_dependencies (wi_fields item)). work_status_of sample_board d = Some WorkCompleted)"
proof -
  have "bt_contains sample_board ''q''" "work_status_of sample_board ''q'' \<noteq> Some WorkCompleted"
    by (simp_all add: work_samples work_status_of_def map_eval)
  with work_items_progress [OF work_log_replays, of "''q''"] show ?thesis by auto
qed

end
