(* ===== verification/Message_Projection.thy ===== *)
theory Message_Projection
  imports Session_Event Replay "HOL-Library.Sublist"
begin

text \<open>
  The provider-facing messages of a log (\<open>heycode-session/src/projection.rs\<close>): the
  faithful fold and the fold that closes unanswered tool calls. The text of a rich tool result is
  the argument \<open>rich\<close>; attachments and document routes are opaque.
\<close>

section \<open>Messages\<close>

datatype wire_role = RoleSystem | RoleUser | RoleAssistant | RoleTool

record wire_message =
  wm_role :: wire_role
  wm_content :: string
  wm_attachments :: "attachment list"
  wm_routes :: "document_route list"
  wm_calls :: "tool_call_out list option"
  wm_call_id :: "string option"
  wm_is_error :: "bool option"
  wm_boundary :: "untrusted_source option"

datatype unanswered = Keep | Close

text \<open>A message with nothing but role and text.\<close>

definition plain_message :: "wire_role \<Rightarrow> string \<Rightarrow> wire_message" where
  "plain_message role content =
     \<lparr>wm_role = role, wm_content = content, wm_attachments = [], wm_routes = [], wm_calls = None,
      wm_call_id = None, wm_is_error = None, wm_boundary = None\<rparr>"

definition interrupted_tool_result :: string where
  "interrupted_tool_result =
     ''heycode was interrupted before this tool call recorded a result. Its outcome is unknown: it may have completed, partially completed, or never started. Do not assume it succeeded.''"

definition interrupted_message :: "string \<Rightarrow> wire_message" where
  "interrupted_message i =
     (plain_message RoleTool interrupted_tool_result)\<lparr>wm_call_id := Some i, wm_is_error := Some True\<rparr>"

section \<open>Compaction\<close>

text \<open>The marker that reaches furthest; of two that reach as far, the later one.\<close>

definition better_marker :: "(nat \<times> string) option \<Rightarrow> session_event \<Rightarrow> (nat \<times> string) option" where
  "better_marker best e =
     (case ev_kind e of
        CompactionApplied summary reach \<Rightarrow>
          (case best of
             Some (best_to, s) \<Rightarrow> if reach < best_to then best else Some (reach, summary)
           | None \<Rightarrow> Some (reach, summary))
      | _ \<Rightarrow> best)"

definition compaction_winner :: "session_event list \<Rightarrow> (nat \<times> string) option" where
  "compaction_winner events = foldl better_marker None events"

definition summary_message :: "string \<Rightarrow> wire_message" where
  "summary_message summary =
     plain_message RoleUser
       (''<compacted-summary>'' @ [CHR 0x0A] @ summary @ [CHR 0x0A] @ ''</compacted-summary>'')"

fun is_marker :: "session_event_kind \<Rightarrow> bool" where
  "is_marker (CompactionApplied _ _) = True"
| "is_marker (NativeCompactionApplied _ _ _ _) = True"
| "is_marker _ = False"

definition skipped :: "(nat \<times> string) option \<Rightarrow> session_event \<Rightarrow> bool" where
  "skipped winner e \<longleftrightarrow>
     is_marker (ev_kind e)
     \<or> (case winner of None \<Rightarrow> False | Some (reach, _) \<Rightarrow> ev_seq e \<le> reach)"

section \<open>The fold\<close>

record message_fold =
  mf_out :: "wire_message list"
  mf_attachments :: "attachment list"
  mf_routes :: "document_route list"
  mf_unanswered :: "string list"

definition close_unanswered :: "message_fold \<Rightarrow> message_fold" where
  "close_unanswered s =
     s\<lparr>mf_out := mf_out s @ map interrupted_message (mf_unanswered s), mf_unanswered := []\<rparr>"

definition push :: "wire_message \<Rightarrow> message_fold \<Rightarrow> message_fold" where
  "push m s = s\<lparr>mf_out := mf_out s @ [m]\<rparr>"

definition answer :: "string \<Rightarrow> wire_message \<Rightarrow> message_fold \<Rightarrow> message_fold" where
  "answer call m s =
     push m (s\<lparr>mf_unanswered := filter (\<lambda>i. i \<noteq> call) (mf_unanswered s)\<rparr>)"

definition message_event ::
  "(rich_result \<Rightarrow> string) \<Rightarrow> unanswered \<Rightarrow> message_fold \<Rightarrow> session_event_kind \<Rightarrow> message_fold" where
  "message_event rich mode s k =
     (case k of
        UserAttachments attachments routes \<Rightarrow>
          s\<lparr>mf_attachments := attachments, mf_routes := routes\<rparr>
      | UserMessage body \<Rightarrow>
          (push ((plain_message RoleUser body)\<lparr>wm_attachments := mf_attachments s,
              wm_routes := mf_routes s\<rparr>) (close_unanswered s))
            \<lparr>mf_attachments := [], mf_routes := []\<rparr>
      | HookContribution h \<Rightarrow>
          push ((plain_message RoleUser (hook_render h))\<lparr>wm_boundary := hc_boundary h\<rparr>)
            (close_unanswered s)
      | AssistantMessage turn step content reasoning calls usage \<Rightarrow>
          let s1 = close_unanswered s;
              s2 = (case calls of
                      Some cs \<Rightarrow>
                        if mode = Close
                        then s1\<lparr>mf_unanswered := mf_unanswered s1 @ map tco_id cs\<rparr> else s1
                    | None \<Rightarrow> s1)
          in push ((plain_message RoleAssistant content)\<lparr>wm_calls := calls\<rparr>) s2
      | ToolResult call content is_error boundary \<Rightarrow>
          answer call
            ((plain_message RoleTool content)
               \<lparr>wm_call_id := Some call, wm_is_error := Some is_error, wm_boundary := boundary\<rparr>) s
      | RichToolResult call result is_error boundary \<Rightarrow>
          answer call
            ((plain_message RoleTool (rich result))
               \<lparr>wm_call_id := Some call, wm_is_error := Some is_error, wm_boundary := boundary\<rparr>) s
      | _ \<Rightarrow> s)"

definition message_step ::
  "(rich_result \<Rightarrow> string) \<Rightarrow> unanswered \<Rightarrow> (nat \<times> string) option \<Rightarrow> message_fold \<Rightarrow> session_event
   \<Rightarrow> message_fold" where
  "message_step rich mode winner s e =
     (if skipped winner e then s else message_event rich mode s (ev_kind e))"

definition message_fold_start :: "(nat \<times> string) option \<Rightarrow> message_fold" where
  "message_fold_start winner =
     \<lparr>mf_out = (case winner of None \<Rightarrow> [] | Some (_, summary) \<Rightarrow> [summary_message summary]),
      mf_attachments = [], mf_routes = [], mf_unanswered = []\<rparr>"

definition fold_messages ::
  "(rich_result \<Rightarrow> string) \<Rightarrow> session_event list \<Rightarrow> unanswered \<Rightarrow> wire_message list" where
  "fold_messages rich events mode =
     (let winner = compaction_winner events
      in mf_out (close_unanswered
           (foldl (message_step rich mode winner) (message_fold_start winner) events)))"

definition derive_messages :: "(rich_result \<Rightarrow> string) \<Rightarrow> session_event list \<Rightarrow> wire_message list" where
  "derive_messages rich events = fold_messages rich events Keep"

definition derive_messages_repaired ::
  "(rich_result \<Rightarrow> string) \<Rightarrow> session_event list \<Rightarrow> wire_message list" where
  "derive_messages_repaired rich events = fold_messages rich events Close"


section \<open>What the folds guarantee\<close>

text \<open>
  The calls a message list leaves open: a tool message answers its call, any other message must
  find no call open and opens its own. \<open>None\<close> is a message that interrupts an unanswered call.
\<close>

fun scan_calls :: "string list \<Rightarrow> wire_message list \<Rightarrow> string list option" where
  "scan_calls open [] = Some open"
| "scan_calls open (m # ms) =
     (if wm_role m = RoleTool
      then scan_calls (filter (\<lambda>i. Some i \<noteq> wm_call_id m) open) ms
      else if open \<noteq> [] then None
      else scan_calls (case wm_calls m of None \<Rightarrow> [] | Some cs \<Rightarrow> map tco_id cs) ms)"

lemma scan_calls_append:
  "scan_calls op (xs @ ys) = (case scan_calls op xs of None \<Rightarrow> None | Some op' \<Rightarrow> scan_calls op' ys)"
  by (induction op xs rule: scan_calls.induct) auto

lemma scan_interrupted:
  "scan_calls op (map interrupted_message ids) = Some (filter (\<lambda>i. i \<notin> set ids) op)"
  by (induction ids arbitrary: op)
    (auto simp: interrupted_message_def plain_message_def intro!: filter_cong)

lemma scan_close_unanswered:
  "scan_calls [] (mf_out s) = Some (mf_unanswered s) \<Longrightarrow>
   scan_calls [] (mf_out (close_unanswered s)) = Some []"
  by (simp add: close_unanswered_def scan_calls_append scan_interrupted filter_False)

lemma scan_message_event:
  assumes "scan_calls [] (mf_out s) = Some (mf_unanswered s)"
  shows "scan_calls [] (mf_out (message_event rich Close s k)) =
    Some (mf_unanswered (message_event rich Close s k))"
  using assms scan_close_unanswered [OF assms]
  by (cases k)
    (auto simp: message_event_def push_def answer_def plain_message_def Let_def scan_calls_append
        close_unanswered_def split: option.splits intro!: filter_cong)

lemma scan_foldl:
  "scan_calls [] (mf_out s) = Some (mf_unanswered s) \<Longrightarrow>
   scan_calls [] (mf_out (foldl (message_step rich Close w) s es)) =
     Some (mf_unanswered (foldl (message_step rich Close w) s es))"
  by (induction es arbitrary: s) (auto simp: message_step_def scan_message_event)

lemma scan_start: "scan_calls [] (mf_out (message_fold_start w)) = Some (mf_unanswered (message_fold_start w))"
  by (auto simp: message_fold_start_def summary_message_def plain_message_def split: option.splits)

text \<open>
  The two folds side by side: the same pending attachments, the faithful output a subsequence of
  the repaired one, and no difference at all as long as the faithful output interrupts no call.
\<close>

definition folds_agree :: "message_fold \<Rightarrow> message_fold \<Rightarrow> bool" where
  "folds_agree a b \<longleftrightarrow>
     mf_attachments a = mf_attachments b \<and> mf_routes a = mf_routes b \<and> mf_unanswered a = []
     \<and> scan_calls [] (mf_out b) = Some (mf_unanswered b)
     \<and> subseq (mf_out a) (mf_out b)
     \<and> (scan_calls [] (mf_out a) \<noteq> None \<longrightarrow> mf_out b = mf_out a)"

lemma scan_calls_snoc:
  "wm_role m \<noteq> RoleTool \<Longrightarrow> scan_calls [] (xs @ [m]) \<noteq> None \<Longrightarrow> scan_calls [] xs = Some []"
  by (auto simp: scan_calls_append split: option.splits if_splits)

lemma scan_calls_prefix: "scan_calls op (xs @ ys) \<noteq> None \<Longrightarrow> scan_calls op xs \<noteq> None"
  by (auto simp: scan_calls_append split: option.splits)

lemma subseq_snoc_insert: "subseq xs ys \<Longrightarrow> subseq (xs @ [m]) (ys @ zs @ [m])"
  by (metis list_emb_append_mono append.assoc subseq_order.order_refl list_emb_append2)

lemma subseq_append_right: "subseq xs ys \<Longrightarrow> subseq xs (ys @ zs)"
  by (metis append.right_neutral list_emb_append_mono subseq_order.order_refl list_emb_Nil)

lemma folds_agree_event:
  assumes "folds_agree a b"
  shows "folds_agree (message_event rich Keep a k) (message_event rich Close b k)"
proof -
  have open_call: "scan_calls [] (mf_out b) = Some (mf_unanswered b)"
    and sub: "subseq (mf_out a) (mf_out b)"
    and same: "scan_calls [] (mf_out a) \<noteq> None \<Longrightarrow> mf_out b = mf_out a"
    and closed: "mf_unanswered a = []"
    and att: "mf_attachments a = mf_attachments b" "mf_routes a = mf_routes b"
    using assms by (simp_all add: folds_agree_def)
  have scan: "scan_calls [] (mf_out (message_event rich Close b k)) =
      Some (mf_unanswered (message_event rich Close b k))"
    by (rule scan_message_event [OF open_call])
  have plain: "mf_unanswered b = [] \<and> mf_out b = mf_out a"
    if "wm_role m \<noteq> RoleTool" "scan_calls [] (mf_out a @ [m]) \<noteq> None" for m
    using scan_calls_snoc [OF that] same open_call by auto
  have answered: "mf_out b = mf_out a" if "scan_calls [] (mf_out a @ [m]) = Some y" for m y
    using same scan_calls_prefix [of "[]" "mf_out a" "[m]"] that by simp
  have interrupted: "mf_unanswered b = [] \<and> mf_out b = mf_out a"
    if "scan_calls [] (mf_out (message_event rich Keep a k)) \<noteq> None"
      "mf_out (message_event rich Keep a k) = mf_out a @ [m]" "wm_role m \<noteq> RoleTool" for m
    using plain [OF that(3)] that(1,2) by simp
  show ?thesis
    unfolding folds_agree_def
  proof (intro conjI impI)
    show "subseq (mf_out (message_event rich Keep a k)) (mf_out (message_event rich Close b k))"
      using sub closed subseq_snoc_insert [OF sub, of _ "[]"] att
      by (cases k)
        (simp_all add: message_event_def push_def answer_def close_unanswered_def Let_def
          subseq_append_right subseq_snoc_insert split: option.split)
    assume ok: "scan_calls [] (mf_out (message_event rich Keep a k)) \<noteq> None"
    show "mf_out (message_event rich Close b k) = mf_out (message_event rich Keep a k)"
      using ok interrupted [OF ok] closed att same
      by (cases k)
        (auto simp: message_event_def push_def answer_def close_unanswered_def Let_def
          plain_message_def dest: answered split: option.splits)
  qed (use att closed scan in \<open>cases k; auto simp: message_event_def push_def answer_def
      close_unanswered_def Let_def split: option.splits\<close>)+
qed

lemma folds_agree_foldl:
  "folds_agree a b \<Longrightarrow>
   folds_agree (foldl (message_step rich Keep w) a es) (foldl (message_step rich Close w) b es)"
  by (induction es arbitrary: a b) (auto simp: message_step_def folds_agree_event)

lemma folds_agree_start: "folds_agree (message_fold_start w) (message_fold_start w)"
  using scan_start [of w] by (simp add: folds_agree_def message_fold_start_def)

lemma folds_agree_close:
  assumes "folds_agree a b"
  shows "subseq (mf_out (close_unanswered a)) (mf_out (close_unanswered b))"
    and "mf_out (close_unanswered b) = mf_out (close_unanswered a) \<longleftrightarrow>
      scan_calls [] (mf_out (close_unanswered a)) = Some []"
proof -
  have a: "mf_out (close_unanswered a) = mf_out a"
    using assms by (simp add: folds_agree_def close_unanswered_def)
  show "subseq (mf_out (close_unanswered a)) (mf_out (close_unanswered b))"
    unfolding a using assms by (simp add: close_unanswered_def folds_agree_def subseq_append_right)
  have b: "scan_calls [] (mf_out (close_unanswered b)) = Some []"
    using assms scan_close_unanswered by (auto simp: folds_agree_def)
  show "mf_out (close_unanswered b) = mf_out (close_unanswered a) \<longleftrightarrow>
      scan_calls [] (mf_out (close_unanswered a)) = Some []"
    using assms b by (auto simp: a folds_agree_def close_unanswered_def)
qed


section \<open>Compaction\<close>

text \<open>What the events already folded put out before is a prefix of what the fold puts out.\<close>

definition with_prefix :: "wire_message list \<Rightarrow> message_fold \<Rightarrow> message_fold" where
  "with_prefix ms s = s\<lparr>mf_out := ms @ mf_out s\<rparr>"

lemma message_event_prefix:
  "message_event rich mode (with_prefix ms s) k = with_prefix ms (message_event rich mode s k)"
  by (cases k)
    (simp_all add: message_event_def with_prefix_def push_def answer_def close_unanswered_def Let_def
      split: option.split)

lemma close_unanswered_prefix:
  "close_unanswered (with_prefix ms s) = with_prefix ms (close_unanswered s)"
  by (simp add: close_unanswered_def with_prefix_def)

lemma foldl_prefix:
  "foldl (message_step rich mode w) (with_prefix ms s) es =
   with_prefix ms (foldl (message_step rich mode w) s es)"
  by (induction es arbitrary: s) (auto simp: message_step_def message_event_prefix)

lemma foldl_skipped:
  "foldl (message_step rich mode w) s es =
   foldl (message_step rich mode None) s (filter (\<lambda>e. \<not> skipped w e) es)"
  by (induction es arbitrary: s) (auto simp: message_step_def skipped_def)

lemma compaction_winner_snoc: "compaction_winner (es @ [e]) = better_marker (compaction_winner es) e"
  by (simp add: compaction_winner_def)

lemma compaction_winner_none: "\<forall>e \<in> set es. \<not> is_marker (ev_kind e) \<Longrightarrow> compaction_winner es = None"
proof (induction es rule: rev_induct)
  case Nil
  show ?case by (simp add: compaction_winner_def)
next
  case (snoc e es)
  then show ?case by (cases "ev_kind e") (auto simp: compaction_winner_snoc better_marker_def)
qed

lemma compaction_winner_bound:
  "\<forall>x s r. x \<in> set es \<and> ev_kind x = CompactionApplied s r \<longrightarrow>
     (\<exists>best s'. compaction_winner es = Some (best, s') \<and> r \<le> best)"
proof (induction es rule: rev_induct)
  case (snoc e es)
  show ?case
  proof (intro allI impI)
    fix x s r assume x: "x \<in> set (es @ [e]) \<and> ev_kind x = CompactionApplied s r"
    show "\<exists>best s'. compaction_winner (es @ [e]) = Some (best, s') \<and> r \<le> best"
    proof (cases "x = e")
      case True
      with x show ?thesis
        by (auto simp: compaction_winner_snoc better_marker_def split: option.splits)
    next
      case False
      with x have "x \<in> set es \<and> ev_kind x = CompactionApplied s r" by simp
      with snoc.IH obtain best s' where "compaction_winner es = Some (best, s')" "r \<le> best"
        by blast
      then show ?thesis
        by (cases "ev_kind e") (auto simp: compaction_winner_snoc better_marker_def)
    qed
  qed
qed simp

text \<open>The winner is the last marker of those that reach furthest.\<close>

lemma compaction_winner_max:
  "compaction_winner es = Some (reach, summary) \<Longrightarrow>
   \<exists>pre e post. es = pre @ e # post \<and> ev_kind e = CompactionApplied summary reach
     \<and> (\<forall>x s r. x \<in> set pre \<and> ev_kind x = CompactionApplied s r \<longrightarrow> r \<le> reach)
     \<and> (\<forall>x s r. x \<in> set post \<and> ev_kind x = CompactionApplied s r \<longrightarrow> r < reach)"
proof (induction es arbitrary: reach summary rule: rev_induct)
  case Nil
  then show ?case by (simp add: compaction_winner_def)
next
  case (snoc e es)
  have bound: "\<forall>x s r. x \<in> set es \<and> ev_kind x = CompactionApplied s r \<longrightarrow>
      (\<exists>best s'. compaction_winner es = Some (best, s') \<and> r \<le> best)"
    by (rule compaction_winner_bound)
  show ?case
  proof (cases "compaction_winner es = Some (reach, summary) \<and>
      (\<forall>s r. ev_kind e = CompactionApplied s r \<longrightarrow> r < reach)")
    case True
    then obtain pre x post where "es = pre @ x # post" "ev_kind x = CompactionApplied summary reach"
      "\<forall>y s r. y \<in> set pre \<and> ev_kind y = CompactionApplied s r \<longrightarrow> r \<le> reach"
      "\<forall>y s r. y \<in> set post \<and> ev_kind y = CompactionApplied s r \<longrightarrow> r < reach"
      using snoc.IH by blast
    with True show ?thesis by (intro exI [of _ pre] exI [of _ x] exI [of _ "post @ [e]"]) auto
  next
    case False
    then have e: "ev_kind e = CompactionApplied summary reach"
      and best: "\<forall>best s'. compaction_winner es = Some (best, s') \<longrightarrow> best \<le> reach"
      using snoc.prems unfolding compaction_winner_snoc better_marker_def
      by (auto split: session_event_kind.splits option.splits if_splits)
    from bound best have "\<forall>x s r. x \<in> set es \<and> ev_kind x = CompactionApplied s r \<longrightarrow> r \<le> reach"
      by (meson order_trans)
    with e show ?thesis by (intro exI [of _ es] exI [of _ e] exI [of _ "[]"]) auto
  qed
qed

end
