(* ===== verification/Conversation_Properties.thy ===== *)
theory Conversation_Properties
  imports Message_Projection
begin

text \<open>
  The properties of the messages a log derives for the model: the repaired list answers every
  tool call, differs from the faithful one only where the faithful one is incomplete, and
  compaction replaces exactly the prefix it names.
\<close>

definition talk_event :: "nat \<Rightarrow> session_event_kind \<Rightarrow> session_event" where
  "talk_event seq k = \<lparr>ev_v = current_session_log_version, ev_seq = seq, ev_time = 5, ev_kind = k\<rparr>"

definition sample_call :: tool_call_out where
  "sample_call = \<lparr>tco_id = ''c1'', tco_name = ''ls'', tco_arguments = ''{}''\<rparr>"

text \<open>A call the process never answered, and the message that came after the restart.\<close>

definition talk :: "session_event list" where
  "talk =
     [talk_event 0 (UserMessage ''list''),
      talk_event 1 (AssistantMessage 0 0 ''ok'' None (Some [sample_call]) None),
      talk_event 2 (UserMessage ''again'')]"

lemmas talk_eval =
  talk_def talk_event_def sample_call_def derive_messages_def derive_messages_repaired_def
  fold_messages_def compaction_winner_def better_marker_def message_step_def skipped_def
  message_event_def message_fold_start_def push_def close_unanswered_def plain_message_def
  summary_message_def Let_def

text \<open>
  C35: the repaired messages are a well formed conversation: every tool call an assistant message
  makes is answered by a tool message before any other message follows, also the calls of the
  last assistant message.
\<close>

theorem repaired_messages_answer_every_call:
  "scan_calls [] (derive_messages_repaired rich events) = Some []"
proof -
  let ?w = "compaction_winner events"
  have "scan_calls [] (mf_out (foldl (message_step rich Close ?w) (message_fold_start ?w) events)) =
      Some (mf_unanswered (foldl (message_step rich Close ?w) (message_fold_start ?w) events))"
    by (rule scan_foldl [OF scan_start])
  from scan_close_unanswered [OF this] show ?thesis
    by (simp add: derive_messages_repaired_def fold_messages_def Let_def)
qed

text \<open>
  C39: the repair only adds. The faithful messages are a subsequence of the repaired ones, and the
  two are equal exactly when the faithful messages answer every call in place.
\<close>

theorem repair_is_conservative:
  "subseq (derive_messages rich events) (derive_messages_repaired rich events)
   \<and> (derive_messages_repaired rich events = derive_messages rich events \<longleftrightarrow>
        scan_calls [] (derive_messages rich events) = Some [])"
  unfolding derive_messages_def derive_messages_repaired_def fold_messages_def Let_def
  using folds_agree_close [OF folds_agree_foldl [OF folds_agree_start]] by blast

text \<open>
  What a repair adds for one interrupted call. When a log ends in an assistant message, the
  repaired messages are those of the faithful fold of the log without it, repaired, then the
  message itself, then one interrupted result, marked as an error, for every call it makes, in
  the order of the calls.
\<close>

theorem interrupted_calls_closed:
  assumes "ev_kind e = AssistantMessage turn step content reasoning (Some calls) usage"
    and "\<not> skipped (compaction_winner (events @ [e])) e"
  shows "derive_messages_repaired rich (events @ [e]) =
    derive_messages_repaired rich events
    @ [(plain_message RoleAssistant content)\<lparr>wm_calls := Some calls\<rparr>]
    @ map (\<lambda>c. interrupted_message (tco_id c)) calls"
proof -
  have "compaction_winner (events @ [e]) = compaction_winner events"
    using assms(1) by (simp add: compaction_winner_def better_marker_def)
  with assms show ?thesis
    by (simp add: derive_messages_repaired_def fold_messages_def Let_def message_step_def
        message_event_def push_def close_unanswered_def)
qed

theorem interrupted_calls_closed_witness:
  "derive_messages_repaired (\<lambda>_. []) (butlast talk) =
     [plain_message RoleUser ''list'',
      (plain_message RoleAssistant ''ok'')\<lparr>wm_calls := Some [sample_call]\<rparr>,
      interrupted_message ''c1'']"
proof -
  let ?e = "talk_event 1 (AssistantMessage 0 0 ''ok'' None (Some [sample_call]) None)"
  let ?es = "[talk_event 0 (UserMessage ''list'')]"
  have "ev_kind ?e = AssistantMessage 0 0 ''ok'' None (Some [sample_call]) None"
    "\<not> skipped (compaction_winner (?es @ [?e])) ?e"
    by (simp_all add: talk_eval)
  from interrupted_calls_closed [OF this, of "\<lambda>_. []"] show ?thesis
    by (simp add: talk_eval)
qed

text \<open>
  Compaction. The marker that wins is one of the log that no marker outreaches, and the last
  of those that reach as far. The messages of the log are its summary followed by the messages
  of the events after its reach, whatever lies before and wherever the marker stands.
\<close>

theorem compaction_replaces_prefix:
  assumes "compaction_winner events = Some (reach, summary)"
  shows "derive_messages rich events =
      summary_message summary #
      derive_messages rich (filter (\<lambda>e. \<not> is_marker (ev_kind e) \<and> reach < ev_seq e) events)
    \<and> (\<exists>pre e post. events = pre @ e # post \<and> ev_kind e = CompactionApplied summary reach
         \<and> (\<forall>x s r. x \<in> set pre \<and> ev_kind x = CompactionApplied s r \<longrightarrow> r \<le> reach)
         \<and> (\<forall>x s r. x \<in> set post \<and> ev_kind x = CompactionApplied s r \<longrightarrow> r < reach))"
proof
  let ?rest = "filter (\<lambda>e. \<not> is_marker (ev_kind e) \<and> reach < ev_seq e) events"
  have none: "compaction_winner ?rest = None"
    by (rule compaction_winner_none) auto
  have rest: "filter (\<lambda>e. \<not> skipped (Some (reach, summary)) e) events = ?rest"
    by (rule filter_cong) (auto simp: skipped_def)
  have start: "message_fold_start (Some (reach, summary)) =
      with_prefix [summary_message summary] (message_fold_start None)"
    by (simp add: message_fold_start_def with_prefix_def)
  show "derive_messages rich events = summary_message summary # derive_messages rich ?rest"
    unfolding derive_messages_def fold_messages_def assms none Let_def start
      foldl_skipped [of rich Keep "Some (reach, summary)"] rest foldl_prefix close_unanswered_prefix
    by (simp add: with_prefix_def)
  show "\<exists>pre e post. events = pre @ e # post \<and> ev_kind e = CompactionApplied summary reach
      \<and> (\<forall>x s r. x \<in> set pre \<and> ev_kind x = CompactionApplied s r \<longrightarrow> r \<le> reach)
      \<and> (\<forall>x s r. x \<in> set post \<and> ev_kind x = CompactionApplied s r \<longrightarrow> r < reach)"
    by (rule compaction_winner_max [OF assms])
qed

theorem compaction_replaces_prefix_witness:
  "derive_messages (\<lambda>_. []) (talk @ [talk_event 3 (CompactionApplied ''so far'' 1)]) =
     [summary_message ''so far'', plain_message RoleUser ''again'']"
proof -
  have "compaction_winner (talk @ [talk_event 3 (CompactionApplied ''so far'' 1)]) = Some (1, ''so far'')"
    by (simp add: talk_eval)
  from compaction_replaces_prefix [OF this, of "\<lambda>_. []"] show ?thesis by (simp add: talk_eval)
qed

end
