(* ===== verification/Event_Validation.thy ===== *)
theory Event_Validation
  imports Session_Event
begin

text \<open>
  Semantic validation of an event kind against the envelope version that carries it
  (\<open>SessionEventKind::validate_for_version\<close> in \<open>heycode-session/src/event.rs\<close>,
  \<open>HookContributionRecord::validate\<close> in \<open>hook.rs\<close>). The record
  \<open>payload_ext\<close> holds what other crates decide: serde\_json renderings, URL parsing, and
  the validators of payloads that this development keeps as JSON.
\<close>

section \<open>What the code takes from elsewhere\<close>

record payload_ext =
  pe_labels :: label_json
  pe_work :: work_ext
  pe_code_len :: "code_mode_change \<Rightarrow> nat option"
  pe_rich :: rich_ext
  pe_request :: request_ext
  pe_workflow :: workflow_ext
  pe_cron :: cron_ext

text \<open>The URL parser and the JSON renderer are the same everywhere.\<close>

abbreviation pe_url :: "payload_ext \<Rightarrow> parse_url" where
  "pe_url ext \<equiv> re_url (pe_rich ext)"

abbreviation pe_json_len :: "payload_ext \<Rightarrow> json \<Rightarrow> nat option" where
  "pe_json_len ext \<equiv> re_json_len (pe_rich ext)"

datatype event_error = RequiresEnvelopeV2 | InvalidPayload

section \<open>Kind tags\<close>

definition min_session_log_version :: nat where
  "min_session_log_version = 1"

definition known_kinds_v1 :: "string list" where
  "known_kinds_v1 =
     [''turn/start'', ''turn/end'', ''step/start'', ''step/end'', ''user/message'',
      ''assistant/chunk'', ''assistant/message'', ''tool/call'', ''tool/result'',
      ''compaction/applied'', ''plan/mode'', ''session/title'']"

definition known_kinds_v2 :: "string list" where
  "known_kinds_v2 =
     [''session/created'', ''session/activated'', ''runtime/linked'', ''runtime/configured'',
      ''turn/start'', ''turn/end'', ''step/start'', ''step/end'', ''agent/inbox/splice'',
      ''goal/change'', ''workflow/change'', ''schedule/change'', ''team/change'', ''work/change'',
      ''review/change'', ''code-mode/change'', ''hook/contribution'', ''request/header'',
      ''request/context'', ''user/message'', ''user/attachments'', ''attachment/added'',
      ''assistant/chunk'', ''assistant/message'', ''assistant/audio'',
      ''assistant/provider-item'', ''assistant/response-metadata'', ''server-tool/call'',
      ''server-tool/result'', ''server-tool/usage'', ''assistant/citation'', ''tool/call'',
      ''tool/result'', ''tool/rich-result'', ''compaction/applied'', ''compaction/native'',
      ''plan/mode'', ''plan/review'', ''session/title'']"

section \<open>Parts\<close>

definition valid_runtime_control :: "string \<Rightarrow> nat \<Rightarrow> bool" where
  "valid_runtime_control s limit \<longleftrightarrow>
     s \<noteq> [] \<and> length s \<le> limit \<and> trim s = s \<and> \<not> has_control s"

definition runtime_tool_ok :: "(json \<Rightarrow> nat option) \<Rightarrow> tool_spec \<Rightarrow> bool" where
  "runtime_tool_ok json_len t \<longleftrightarrow>
     valid_runtime_control (ts_name t) 128
     \<and> list_all (\<lambda>b. is_ascii_alphanumeric b \<or> b = CHR ''_'' \<or> b = CHR ''-'') (ts_name t)
     \<and> \<not> is_blank (ts_description t)
     \<and> length (ts_description t) \<le> 4 * 1024
     \<and> \<not> contains_nul (ts_description t)
     \<and> is_json_object (ts_parameters t)
     \<and> (case json_len (ts_parameters t) of None \<Rightarrow> False | Some n \<Rightarrow> n \<le> 64 * 1024)"

definition valid_runtime_tools :: "(json \<Rightarrow> nat option) \<Rightarrow> tool_spec list \<Rightarrow> bool" where
  "valid_runtime_tools json_len tools \<longleftrightarrow>
     length tools \<le> 256 \<and> list_all (runtime_tool_ok json_len) tools
     \<and> \<not> has_repeat (map ts_name tools)"

definition valid_system_prompt :: "string \<Rightarrow> bool" where
  "valid_system_prompt p \<longleftrightarrow> \<not> is_blank p \<and> length p \<le> 1024 * 1024 \<and> \<not> contains_nul p"

definition opt_ok :: "('a \<Rightarrow> bool) \<Rightarrow> 'a option \<Rightarrow> bool" where
  "opt_ok P x = (case x of None \<Rightarrow> True | Some a \<Rightarrow> P a)"

text \<open>The loop over the attachments of one event; \<open>seen\<close> is the set of content ids.\<close>

fun attachments_distinct ::
  "parse_url \<Rightarrow> (attachment \<Rightarrow> bool) \<Rightarrow> string btree_set \<Rightarrow> attachment list \<Rightarrow> event_error + unit" where
  "attachments_distinct url ok seen [] = Inr ()"
| "attachments_distinct url ok seen (a # as) =
     and_then (map_err (\<lambda>_. InvalidPayload) (attachment_validate url a)) (\<lambda>_.
       let (fresh, seen') = set_insert (at_content_id a) seen
       in and_then (refuse_if (\<not> ok a \<or> \<not> fresh) InvalidPayload) (\<lambda>_.
            attachments_distinct url ok seen' as))"

fun routes_distinct ::
  "parse_url \<Rightarrow> attachment list \<Rightarrow> string btree_set \<Rightarrow> string btree_set \<Rightarrow> document_route list
   \<Rightarrow> event_error + unit" where
  "routes_distinct url as sources selected [] = Inr ()"
| "routes_distinct url as sources selected (r # rs) =
     and_then (map_err (\<lambda>_. InvalidPayload) (route_validate url r)) (\<lambda>_.
       let (fresh_source, sources') = set_insert (at_content_id (dr_source r)) sources;
           (fresh_selected, selected') = set_insert (at_content_id (dr_selected r)) selected
       in and_then
            (refuse_if (\<not> fresh_source \<or> \<not> fresh_selected \<or> dr_selected r \<notin> set as) InvalidPayload)
            (\<lambda>_. routes_distinct url as sources' selected' rs))"

definition route_count :: "document_route list \<Rightarrow> attachment \<Rightarrow> nat" where
  "route_count routes a = length (filter (\<lambda>r. dr_selected r = a) routes)"

definition route_count_ok :: "document_route list \<Rightarrow> attachment \<Rightarrow> bool" where
  "route_count_ok routes a =
     (if media_is_image (at_media_type a) \<or> media_is_audio (at_media_type a)
      then route_count routes a = 0 else route_count routes a = 1)"

definition validate_document_routes ::
  "parse_url \<Rightarrow> attachment list \<Rightarrow> document_route list \<Rightarrow> event_error + unit" where
  "validate_document_routes url as routes =
     and_then (refuse_if (4 < length routes) InvalidPayload) (\<lambda>_.
     and_then (routes_distinct url as bt_empty bt_empty routes) (\<lambda>_.
       refuse_if (\<not> list_all (route_count_ok routes) as) InvalidPayload))"

definition hook_byte_ok :: "char \<Rightarrow> bool" where
  "hook_byte_ok b \<longleftrightarrow> 32 \<le> byte_val b \<and> byte_val b < 127"

definition max_hook_contribution_bytes :: nat where
  "max_hook_contribution_bytes = 64 * 1024"

definition hook_validate :: "hook_contribution \<Rightarrow> event_error + unit" where
  "hook_validate h =
     refuse_if
       (\<not> (1 \<le> length (hc_owner h) \<and> length (hc_owner h) \<le> 128)
        \<or> trim (hc_owner h) \<noteq> hc_owner h
        \<or> \<not> list_all hook_byte_ok (hc_owner h)
        \<or> hc_text h = []
        \<or> max_hook_contribution_bytes < length (hc_text h)) InvalidPayload"

definition valid_strategy :: "string \<Rightarrow> bool" where
  "valid_strategy s \<longleftrightarrow>
     s \<noteq> [] \<and> length s \<le> 64
     \<and> list_all (\<lambda>part. part \<noteq> [] \<and> list_all (\<lambda>b. is_ascii_lowercase b \<or> is_ascii_digit b) part)
         (split_on (CHR ''-'') s)"

definition same_route :: "provider_state \<Rightarrow> provider_state \<Rightarrow> bool" where
  "same_route a b \<longleftrightarrow>
     ps_provider a = ps_provider b \<and> ps_model a = ps_model b \<and> ps_protocol a = ps_protocol b"

definition checkpoint_ok :: "string \<Rightarrow> provider_state list \<Rightarrow> bool" where
  "checkpoint_ok strategy items =
     (valid_strategy strategy \<and> length items \<le> 256
      \<and> (case items of
           [] \<Rightarrow> False
         | first # _ \<Rightarrow>
             ps_protocol first \<noteq> ProtocolUnknown
             \<and> list_all (\<lambda>i. is_ok (provider_state_validate i) \<and> same_route i first) items))"

section \<open>Validation of a kind\<close>

definition since_v2 :: "nat \<Rightarrow> bool \<Rightarrow> event_error + unit" where
  "since_v2 version valid =
     and_then (refuse_if (version < 2) RequiresEnvelopeV2) (\<lambda>_. refuse_if (\<not> valid) InvalidPayload)"

fun runtime_link_ok :: "string \<Rightarrow> string \<Rightarrow> bool" where
  "runtime_link_ok runtime session =
     (valid_runtime_id runtime \<and> session \<noteq> [] \<and> length session \<le> 256 \<and> trim session = session
      \<and> \<not> has_control session)"

definition configuration_ok ::
  "(json \<Rightarrow> nat option) \<Rightarrow> string option \<Rightarrow> tool_spec list option \<Rightarrow> string option \<Rightarrow> string option
   \<Rightarrow> bool" where
  "configuration_ok json_len prompt tools model effort \<longleftrightarrow>
     opt_ok valid_system_prompt prompt
     \<and> opt_ok (\<lambda>s. valid_runtime_control s 256) model
     \<and> opt_ok (\<lambda>s. valid_runtime_control s 128) effort
     \<and> opt_ok (valid_runtime_tools json_len) tools"

definition plan_review_ok :: "nat \<Rightarrow> string \<Rightarrow> string \<Rightarrow> bool" where
  "plan_review_ok version plan decision \<longleftrightarrow>
     2 \<le> version \<and> starts_with ''# '' (trim_start plan)
     \<and> decision \<in> {''pending'', ''accepted_edits'', ''default'', ''stay_in_plan''}"

definition audio_ok :: "attachment \<Rightarrow> bool" where
  "audio_ok a \<longleftrightarrow> media_is_audio (at_media_type a) \<and> at_audio a \<noteq> None"

fun validate_for_version ::
  "payload_ext \<Rightarrow> nat \<Rightarrow> session_event_kind \<Rightarrow> event_error + unit" where
  "validate_for_version ext v (PlanReview plan decision feedback) =
     refuse_if (\<not> plan_review_ok v plan decision) InvalidPayload"
| "validate_for_version ext v (SessionCreated creation) =
     since_v2 v (is_ok (creation_validate creation))"
| "validate_for_version ext v (RuntimeLinked runtime session) =
     since_v2 v (runtime_link_ok runtime session)"
| "validate_for_version ext v (RuntimeConfigured state prompt tools model effort) =
     since_v2 v (configuration_ok (pe_json_len ext) prompt tools model effort)"
| "validate_for_version ext v (RequestHeader turn step request header) =
     since_v2 v (is_ok (request_header_validate (pe_request ext) header))"
| "validate_for_version ext v (RequestContext request ctx) =
     since_v2 v (is_ok (context_validate ctx))"
| "validate_for_version ext v (AssistantProviderItem turn step request idx item) =
     since_v2 v (is_ok (provider_state_validate item))"
| "validate_for_version ext v (AssistantAudio turn step request as) =
     and_then (since_v2 v (as \<noteq> [] \<and> length as \<le> 4)) (\<lambda>_.
       attachments_distinct (pe_url ext) audio_ok bt_empty as)"
| "validate_for_version ext v (AssistantResponseMetadata turn step request metadata) =
     since_v2 v (is_ok (response_metadata_validate metadata))"
| "validate_for_version ext v (ServerToolCall turn step request idx call) =
     since_v2 v (is_ok (server_call_validate (pe_json_len ext) call))"
| "validate_for_version ext v (ServerToolResult turn step request idx result) =
     since_v2 v (is_ok (server_result_validate (pe_url ext) result))"
| "validate_for_version ext v (ServerToolUsage turn step request usage) =
     since_v2 v (is_ok (server_usage_validate usage))"
| "validate_for_version ext v (AssistantCitation turn step request idx citation) =
     since_v2 v (is_ok (url_citation_validate (pe_url ext) citation))"
| "validate_for_version ext v (AttachmentAdded a) =
     since_v2 v (is_ok (attachment_validate (pe_url ext) a))"
| "validate_for_version ext v (UserAttachments as routes) =
     and_then (since_v2 v (as \<noteq> [] \<and> length as \<le> 16)) (\<lambda>_.
     and_then (attachments_distinct (pe_url ext) (\<lambda>_. True) bt_empty as) (\<lambda>_.
       validate_document_routes (pe_url ext) as routes))"
| "validate_for_version ext v (ToolResult call content is_error boundary) =
     refuse_if (boundary \<noteq> None \<and> v < 2) RequiresEnvelopeV2"
| "validate_for_version ext v (RichToolResult call result is_error boundary) =
     since_v2 v (is_ok (rich_result_validate (pe_rich ext) result))"
| "validate_for_version ext v (AgentInboxSplice sp) =
     since_v2 v (is_ok (validate_splice_shape (pe_labels ext) sp))"
| "validate_for_version ext v (GoalChange change) = since_v2 v (is_ok (goal_change_validate change))"
| "validate_for_version ext v (WorkflowChange change) =
     since_v2 v (is_ok (workflow_validate_shape (pe_workflow ext) change))"
| "validate_for_version ext v (ScheduleChange change) =
     since_v2 v (is_ok (schedule_validate_shape (pe_cron ext) change))"
| "validate_for_version ext v (WorkChange change) =
     since_v2 v (is_ok (work_validate_shape (pe_work ext) change))"
| "validate_for_version ext v (TeamChange change) =
     since_v2 v (is_ok (team_validate_shape (pe_work ext) change))"
| "validate_for_version ext v (ReviewChange change) =
     since_v2 v (is_ok (review_validate_shape change))"
| "validate_for_version ext v (CodeModeChange change) =
     since_v2 v (is_ok (code_validate_shape (pe_code_len ext) change))"
| "validate_for_version ext v (HookContribution h) = since_v2 v (is_ok (hook_validate h))"
| "validate_for_version ext v (CompactionApplied summary replaced) =
     refuse_if (is_blank summary \<or> 64 * 1024 < length summary) InvalidPayload"
| "validate_for_version ext v (NativeCompactionApplied strategy replaced items usage) =
     since_v2 v (checkpoint_ok strategy items)"
| "validate_for_version ext v _ = Inr ()"

section \<open>Envelope versions and kinds\<close>

lemma kind_name_known: "kind_name k \<in> set known_kinds_v2"
  by (cases k) (simp_all add: known_kinds_v2_def)

lemma since_v2_Inr [simp]: "since_v2 v b = Inr u \<longleftrightarrow> 2 \<le> v \<and> b"
  by (auto simp: since_v2_def)

text \<open>What a version-one reader may hold is exactly the version-one kinds without v2 fields.\<close>

lemma v1_kinds_sound:
  "validate_for_version ext 1 k = Inr () \<Longrightarrow>
   kind_name k \<in> set known_kinds_v1 \<or> k = SessionActivated"
  by (cases k) (auto simp: known_kinds_v1_def plan_review_ok_def)

end
