(* ===== verification/Code_Projection.thy ===== *)
theory Code_Projection
  imports Session_Event Replay
begin

text \<open>
  The replay of durable scripts from a session log (\<open>project_code_mode\<close> in
  \<open>heycode-session/src/code_mode.rs\<close>) and what later events can still change about a run.
\<close>

definition code_mode_event ::
  "(code_mode_change \<Rightarrow> nat option) \<Rightarrow> code_mode \<Rightarrow> session_event \<Rightarrow> code_mode_error + code_mode" where
  "code_mode_event len p e =
     (case ev_kind e of CodeModeChange change \<Rightarrow> code_mode_apply len p change | _ \<Rightarrow> Inr p)"

definition project_code_mode ::
  "(code_mode_change \<Rightarrow> nat option) \<Rightarrow> session_event list \<Rightarrow> code_mode_error + code_mode" where
  "project_code_mode len events = try_fold (code_mode_event len) code_mode_default events"

lemma code_mode_event_ok:
  "code_mode_ok p \<Longrightarrow> code_mode_event len p e = Inr p' \<Longrightarrow> code_mode_ok p'"
  by (cases "ev_kind e") (auto simp: code_mode_event_def intro: code_mode_ok_apply)

interpretation code_replay: replay code_mode_default "code_mode_event len" code_mode_ok for len
  by unfold_locales (auto intro: code_mode_ok_default code_mode_event_ok)

lemma code_mode_event_extends:
  assumes "code_mode_ok p" "code_mode_event len p e = Inr p'" "bt_get (cmo_runs p) i = Some r"
  shows "\<exists>r'. bt_get (cmo_runs p') i = Some r' \<and> run_extends r r'"
  using assms code_mode_extends [OF assms(1) _ assms(3)]
  by (cases "ev_kind e") (auto simp: code_mode_event_def)

lemma code_mode_fold_extends:
  "code_mode_ok p \<Longrightarrow> try_fold (code_mode_event len) p es = Inr p' \<Longrightarrow> bt_get (cmo_runs p) i = Some r
   \<Longrightarrow> \<exists>r'. bt_get (cmo_runs p') i = Some r' \<and> run_extends r r'"
proof (induction es arbitrary: p r)
  case (Cons e es)
  then obtain q where q: "code_mode_event len p e = Inr q" "try_fold (code_mode_event len) q es = Inr p'"
    by (cases "code_mode_event len p e") auto
  from code_mode_event_extends [OF Cons.prems(1) q(1) Cons.prems(3)]
  obtain r1 where r1: "bt_get (cmo_runs q) i = Some r1" "run_extends r r1" by blast
  from Cons.IH [OF code_mode_event_ok [OF Cons.prems(1) q(1)] q(2) r1(1)] r1(2)
  show ?case by (blast intro: run_extends_trans)
qed auto

lemma project_code_mode_snoc:
  "project_code_mode len (es @ [e]) = and_then (project_code_mode len es) (\<lambda>p. code_mode_event len p e)"
  by (cases "project_code_mode len es")
    (auto simp: project_code_mode_def try_fold_append and_then_return split: sum.splits)

end
