(* ===== verification/Log_Text.thy ===== *)
theory Log_Text
  imports Rust_Text
begin

text \<open>
  Text of a log file: valid UTF-8 (what \<open>fs::read_to_string\<close> accepts), the lines of a
  newline-terminated file, and how both behave when a line is appended.
\<close>

section \<open>Valid UTF-8\<close>

fun utf8_chunk_ok :: "string \<Rightarrow> bool" where
  "utf8_chunk_ok [a] = (byte_val a < 128)"
| "utf8_chunk_ok [a, b] = (byte_in 194 223 a \<and> byte_in 128 191 b)"
| "utf8_chunk_ok [a, b, c] =
     (byte_in 128 191 c
      \<and> (if byte_val a = 224 then byte_in 160 191 b
         else if byte_val a = 237 then byte_in 128 159 b
         else byte_in 225 239 a \<and> byte_in 128 191 b))"
| "utf8_chunk_ok [a, b, c, d] =
     (byte_in 128 191 c \<and> byte_in 128 191 d
      \<and> (if byte_val a = 240 then byte_in 144 191 b
         else if byte_val a = 244 then byte_in 128 143 b
         else byte_in 241 243 a \<and> byte_in 128 191 b))"
| "utf8_chunk_ok _ = False"

definition valid_utf8 :: "string \<Rightarrow> bool" where
  "valid_utf8 s \<longleftrightarrow> list_all utf8_chunk_ok (utf8_chunks s)"

lemma utf8_chunk_width: "utf8_chunk_ok ch \<Longrightarrow> \<exists>c cs. ch = c # cs \<and> utf8_width c = Suc (length cs)"
  by (cases ch rule: utf8_chunk_ok.cases)
    (auto simp: utf8_width_def byte_in_def Let_def split: if_splits)

lemma utf8_chunks_chunk: "utf8_chunk_ok ch \<Longrightarrow> utf8_chunks (ch @ s) = ch # utf8_chunks s"
proof -
  assume "utf8_chunk_ok ch"
  then obtain c cs where "ch = c # cs" "utf8_width c = Suc (length cs)"
    using utf8_chunk_width by blast
  then show ?thesis by simp
qed

lemma utf8_chunks_concat:
  "list_all utf8_chunk_ok chs \<Longrightarrow> utf8_chunks (concat chs @ s) = chs @ utf8_chunks s"
  by (induction chs) (simp_all add: utf8_chunks_chunk)

lemma valid_utf8_append: "valid_utf8 a \<Longrightarrow> valid_utf8 (a @ b) \<longleftrightarrow> valid_utf8 b"
proof -
  assume "valid_utf8 a"
  then have "utf8_chunks (concat (utf8_chunks a) @ b) = utf8_chunks a @ utf8_chunks b"
    unfolding valid_utf8_def by (rule utf8_chunks_concat)
  with \<open>valid_utf8 a\<close> show ?thesis by (simp add: valid_utf8_def)
qed

lemma valid_utf8_Nil [simp]: "valid_utf8 []"
  by (simp add: valid_utf8_def)

lemma ascii_valid_utf8: "list_all (\<lambda>c. byte_val c < 128) s \<Longrightarrow> valid_utf8 s"
proof (induction s)
  case (Cons c s)
  then have "utf8_chunk_ok [c]" by simp
  from utf8_chunks_chunk [OF this, of s] Cons show ?case by (simp add: valid_utf8_def)
qed simp

section \<open>Lines\<close>

abbreviation newline :: char where
  "newline \<equiv> CHR 0x0A"

text \<open>\<open>raw[..raw.len() - 1].split('\n')\<close> of a file that ends with a newline.\<close>

definition log_lines :: "string \<Rightarrow> string list" where
  "log_lines raw = (if raw = [] then [] else split_on newline (butlast raw))"

definition complete_text :: "string \<Rightarrow> bool" where
  "complete_text raw \<longleftrightarrow> raw = [] \<or> last raw = newline"

definition text_of_lines :: "string list \<Rightarrow> string" where
  "text_of_lines ls = concat (map (\<lambda>l. l @ [newline]) ls)"

lemma split_on_plain: "d \<notin> set l \<Longrightarrow> split_on d l = [l]"
  by (induction l) auto

lemma split_on_append: "split_on d (a @ d # b) = split_on d a @ split_on d b"
proof (induction a)
  case (Cons c a)
  then show ?case
    using split_on_nonempty [of d a] by (cases "split_on d a") auto
qed simp

lemma log_lines_snoc:
  assumes "complete_text raw" "newline \<notin> set l"
  shows "log_lines (raw @ l @ [newline]) = log_lines raw @ [l]"
proof (cases "raw = []")
  case True
  with assms(2) show ?thesis by (simp add: log_lines_def split_on_plain butlast_append)
next
  case False
  with assms(1) obtain r where "raw = r @ [newline]"
    by (cases raw rule: rev_cases) (auto simp: complete_text_def)
  with assms(2) show ?thesis
    by (simp add: log_lines_def butlast_append split_on_append split_on_plain)
qed

lemma complete_text_of_lines: "complete_text raw \<Longrightarrow> complete_text (raw @ text_of_lines ls)"
  by (induction ls rule: rev_induct) (auto simp: complete_text_def text_of_lines_def)

lemma log_lines_append:
  assumes "complete_text raw" "\<And>l. l \<in> set ls \<Longrightarrow> newline \<notin> set l"
  shows "log_lines (raw @ text_of_lines ls) = log_lines raw @ ls"
  using assms(2)
proof (induction ls rule: rev_induct)
  case Nil
  then show ?case by (simp add: text_of_lines_def)
next
  case (snoc l ls)
  have "text_of_lines (ls @ [l]) = text_of_lines ls @ l @ [newline]"
    by (simp add: text_of_lines_def)
  with log_lines_snoc [OF complete_text_of_lines [OF assms(1)], of l ls] snoc show ?case by simp
qed

lemma valid_utf8_text_of_lines:
  "(\<And>l. l \<in> set ls \<Longrightarrow> valid_utf8 l) \<Longrightarrow> valid_utf8 (text_of_lines ls)"
proof (induction ls)
  case (Cons l ls)
  have "valid_utf8 ([newline] @ text_of_lines ls)"
    using Cons ascii_valid_utf8 [of "[newline]"]
    by (subst valid_utf8_append) (auto simp: byte_val_def)
  with Cons.prems [of l] show ?case
    by (simp add: text_of_lines_def valid_utf8_append)
qed (simp add: text_of_lines_def)

end
