(* ===== verification/Session_Log.thy ===== *)
theory Session_Log
  imports Event_Validation Code_Projection Inbox_Projection Log_Text
begin

text \<open>
  The durable log of a session (\<open>heycode-session/src/session.rs\<close>): its errors, the store of
  session directories, the session handle, and the rules that reader and writer share. The
  record \<open>log_ext\<close> holds serde\_json (rendering an event, reading a line's envelope head
  and its kind) and SHA-256; everything else is the code's own.
\<close>

section \<open>What the code takes from elsewhere\<close>

record log_ext =
  lx_payload :: payload_ext
  lx_encode :: "session_event \<Rightarrow> string option"
  lx_head :: "string \<Rightarrow> (nat \<times> nat \<times> int \<times> string) option" \<comment> \<open>v, seq, time, kind\<close>
  lx_kind :: "string \<Rightarrow> session_event_kind option"
  lx_sha256 :: "string \<Rightarrow> string"

abbreviation lx_labels :: "log_ext \<Rightarrow> label_json" where
  "lx_labels ext \<equiv> pe_labels (lx_payload ext)"

abbreviation lx_code_len :: "log_ext \<Rightarrow> code_mode_change \<Rightarrow> nat option" where
  "lx_code_len ext \<equiv> pe_code_len (lx_payload ext)"

section \<open>Bounds and errors\<close>

definition max_session_log_bytes :: nat where
  "max_session_log_bytes = 64 * 1024 * 1024"

definition max_logical_session_events :: nat where
  "max_logical_session_events = 1000000"

definition max_lineage_depth :: nat where
  "max_lineage_depth = 64"

datatype fork_boundary = BoundaryLatest | BoundaryThrough nat | BoundaryCount nat

datatype neighbour_error =
    SelectionMalformed | AttachmentNotAdmitted | MessageMustFollow | MessageMissing
  | AudioMalformed | AudioRequestUnknown | AudioContextUnknown | AudioNotAdmitted

datatype invalid_event =
    BadPayload event_error
  | BadBoundary
  | BadInbox inbox_projection_error
  | BadCodeMode code_mode_error
  | BadNeighbour neighbour_error

datatype open_error =
    CorruptLine nat
  | UnterminatedTail
  | UnsupportedVersion nat
  | VersionRegression nat nat nat \<comment> \<open>line, previous, found\<close>
  | UnknownKind nat string
  | SeqGap nat nat \<comment> \<open>expected, found\<close>
  | InvalidEvent nat invalid_event
  | UnsafePath
  | AlreadyOpen
  | LogTooLarge
  | TooManyEvents
  | LineageParentMissing string
  | LineageCycle string
  | LineageTooDeep
  | LineageDigestMismatch string
  | InvalidLineageLine nat
  | OpenIo

datatype append_error =
    AppendIo
  | AppendSerialize
  | AppendInvalid invalid_event
  | CreationOwned
  | CreationNotFirst
  | LinkedTwice
  | RoutesWithoutAttachments
  | NoPendingMessage
  | RecallOutOfRange
  | BatchEmpty
  | LogFull
  | AppendTooManyEvents
  | Superseded

datatype create_error = CreateMetadata session_metadata_error | CreateIo | CreateAppend append_error

datatype fork_error =
    ForkInvalidBoundary "nat option" "nat option" \<comment> \<open>requested, latest\<close>
  | ForkOpenTurn nat
  | ForkTooManyEvents
  | ForkLineageTooDeep
  | ForkWrongRoot
  | ForkMetadata session_metadata_error
  | ForkSerialize
  | ForkProjection
  | ForkIo

section \<open>The store and the handle\<close>

text \<open>
  A session directory is named by its sessions root and its id. It may be a symlink or no
  directory, and its log may be missing or no regular file.
\<close>

datatype log_file = NoLog | UnsafeLog | LogFile string

datatype stored = UnsafeDir | StoredDir log_file

type_synonym session_key = "string \<times> string"

type_synonym store = "session_key \<Rightarrow> stored option"

record session =
  se_root :: string
  se_id :: string
  se_events :: "session_event list"
  se_hashes :: "string list"
  se_inbox :: inbox_projection
  se_creation :: "session_creation option"
  se_first :: nat
  se_bytes :: nat
  se_writer :: "nat option" \<comment> \<open>generation of the writer lease\<close>
  se_published :: "session_event list" \<comment> \<open>what the bus has emitted\<close>

abbreviation session_key :: "session \<Rightarrow> session_key" where
  "session_key s \<equiv> (se_root s, se_id s)"

section \<open>Rules shared by reader and writer\<close>

fun replaced_upto :: "session_event_kind \<Rightarrow> nat option" where
  "replaced_upto (CompactionApplied summary n) = Some n"
| "replaced_upto (NativeCompactionApplied strategy n items usage) = Some n"
| "replaced_upto _ = None"

definition validate_compaction_boundary :: "session_event_kind \<Rightarrow> nat \<Rightarrow> invalid_event + unit" where
  "validate_compaction_boundary k seq =
     refuse_if (case replaced_upto k of None \<Rightarrow> False | Some n \<Rightarrow> seq \<le> n) BadBoundary"

definition admitted :: "session_event list \<Rightarrow> attachment \<Rightarrow> bool" where
  "admitted events a \<longleftrightarrow> list_ex (\<lambda>e. ev_kind e = AttachmentAdded a) events"

definition validate_selection_against_events ::
  "session_event list \<Rightarrow> session_event_kind \<Rightarrow> neighbour_error + unit" where
  "validate_selection_against_events events k =
     (case k of
        UserAttachments attachments routes \<Rightarrow>
          try_all (\<lambda>a. refuse_if (\<not> admitted events a) AttachmentNotAdmitted)
            (attachments @ concat (map (\<lambda>r. [dr_source r, dr_selected r]) routes))
      | _ \<Rightarrow> Inl SelectionMalformed)"

datatype pairing_state = Settled | PendingSelection

fun is_user_message :: "session_event_kind \<Rightarrow> bool" where
  "is_user_message (UserMessage text) = True"
| "is_user_message _ = False"

definition advance_pairing ::
  "pairing_state \<Rightarrow> session_event_kind \<Rightarrow> neighbour_error + pairing_state" where
  "advance_pairing state k =
     and_then (refuse_if (state = PendingSelection \<and> \<not> is_user_message k) MessageMustFollow) (\<lambda>_.
       case k of
         UserAttachments attachments routes \<Rightarrow> Inr PendingSelection
       | UserMessage text \<Rightarrow> Inr Settled
       | _ \<Rightarrow> Inr state)"

definition settle_pairing :: "session_event_kind list \<Rightarrow> neighbour_error + unit" where
  "settle_pairing kinds =
     and_then (try_fold advance_pairing Settled kinds) (\<lambda>state.
       refuse_if (state = PendingSelection) MessageMissing)"

fun is_header_of :: "nat \<Rightarrow> nat \<Rightarrow> string \<Rightarrow> session_event_kind \<Rightarrow> bool" where
  "is_header_of turn step request (RequestHeader t s r header) = (t = turn \<and> s = step \<and> r = request)"
| "is_header_of turn step request _ = False"

fun is_context_of :: "string \<Rightarrow> session_event_kind \<Rightarrow> bool" where
  "is_context_of request (RequestContext r ctx) = (r = request)"
| "is_context_of request _ = False"

definition validate_assistant_audio_against_events ::
  "session_event list \<Rightarrow> session_event_kind \<Rightarrow> neighbour_error + unit" where
  "validate_assistant_audio_against_events events k =
     (case k of
        AssistantAudio turn step request attachments \<Rightarrow>
          and_then
            (refuse_if (\<not> list_ex (\<lambda>e. is_header_of turn step request (ev_kind e)) events)
               AudioRequestUnknown) (\<lambda>_.
          and_then
            (refuse_if (\<not> list_ex (\<lambda>e. is_context_of request (ev_kind e)) events)
               AudioContextUnknown) (\<lambda>_.
            try_all (\<lambda>a. refuse_if (\<not> admitted events a) AudioNotAdmitted) attachments))
      | _ \<Rightarrow> Inl AudioMalformed)"

text \<open>\<open>project_code_mode(events)?.apply(change)?\<close> and the two backward rules.\<close>

definition validate_code_mode ::
  "log_ext \<Rightarrow> session_event list \<Rightarrow> session_event_kind \<Rightarrow> invalid_event + unit" where
  "validate_code_mode ext events k =
     (case k of
        CodeModeChange change \<Rightarrow>
          map_err BadCodeMode
            (and_then (project_code_mode (lx_code_len ext) events) (\<lambda>p.
             and_then (code_mode_apply (lx_code_len ext) p change) (\<lambda>_. Inr ())))
      | _ \<Rightarrow> Inr ())"

definition validate_against_events ::
  "log_ext \<Rightarrow> session_event list \<Rightarrow> session_event_kind \<Rightarrow> invalid_event + unit" where
  "validate_against_events ext events k =
     and_then (validate_code_mode ext events k) (\<lambda>_.
       case k of
         AssistantAudio turn step request attachments \<Rightarrow>
           map_err BadNeighbour (validate_assistant_audio_against_events events k)
       | UserAttachments attachments routes \<Rightarrow>
           map_err BadNeighbour (validate_selection_against_events events k)
       | _ \<Rightarrow> Inr ())"

definition events_before :: "session_event list \<Rightarrow> nat \<Rightarrow> session_event list" where
  "events_before events seq = take (min seq (length events)) events"

fun is_selection :: "session_event_kind \<Rightarrow> bool" where
  "is_selection (UserAttachments attachments routes) = True"
| "is_selection _ = False"

fun is_audio_output :: "session_event_kind \<Rightarrow> bool" where
  "is_audio_output (AssistantAudio turn step request attachments) = True"
| "is_audio_output _ = False"

text \<open>The line number of an error is the sequence number plus one.\<close>

definition selection_step ::
  "session_event list \<Rightarrow> pairing_state \<Rightarrow> session_event \<Rightarrow> (nat \<times> neighbour_error) + pairing_state" where
  "selection_step events state e =
     and_then (map_err (Pair (ev_seq e + 1)) (advance_pairing state (ev_kind e))) (\<lambda>state'.
     and_then
       (if is_selection (ev_kind e)
        then map_err (Pair (ev_seq e + 1))
               (validate_selection_against_events (events_before events (ev_seq e)) (ev_kind e))
        else Inr ()) (\<lambda>_. Inr state'))"

definition validate_user_attachment_sequence ::
  "session_event list \<Rightarrow> (nat \<times> neighbour_error) + unit" where
  "validate_user_attachment_sequence events =
     and_then (try_fold (selection_step events) Settled events) (\<lambda>state.
       refuse_if (state = PendingSelection) (length events, MessageMissing))"

definition validate_assistant_audio_sequence ::
  "session_event list \<Rightarrow> (nat \<times> neighbour_error) + unit" where
  "validate_assistant_audio_sequence events =
     try_all (\<lambda>e.
       if is_audio_output (ev_kind e)
       then map_err (Pair (ev_seq e + 1))
              (validate_assistant_audio_against_events (events_before events (ev_seq e)) (ev_kind e))
       else Inr ()) events"

section \<open>Digests\<close>

definition le_bytes :: "nat \<Rightarrow> nat \<Rightarrow> string" where
  "le_bytes width n = map (\<lambda>i. char_of (n div 256 ^ i)) [0..<width]"

definition be_bytes :: "nat \<Rightarrow> nat \<Rightarrow> string" where
  "be_bytes width n = rev (le_bytes width n)"

definition event_leaf_sha256 :: "log_ext \<Rightarrow> string \<Rightarrow> string" where
  "event_leaf_sha256 ext line = lx_sha256 ext line"

definition nul :: string where
  "nul = [CHR 0x00]"

definition prefix_sha256 :: "log_ext \<Rightarrow> string list \<Rightarrow> string" where
  "prefix_sha256 ext hashes =
     hex_of (lx_sha256 ext
       (''dshx-session-prefix-raw-leaves-v1'' @ nul @ le_bytes 8 (length hashes) @ concat hashes))"

definition logical_source_sha256 :: "log_ext \<Rightarrow> session \<Rightarrow> string" where
  "logical_source_sha256 ext s =
     hex_of (lx_sha256 ext
       (''dshx/session-index-source/v1'' @ nul @ be_bytes 8 (length (se_hashes s)) @ concat (se_hashes s)))"

section \<open>Reading the handle\<close>

definition open_turn_step :: "nat option \<Rightarrow> session_event \<Rightarrow> nat option" where
  "open_turn_step open e =
     (case ev_kind e of
        TurnStart turn \<Rightarrow> Some turn
      | TurnEnd turn reason \<Rightarrow> if open = Some turn then None else open
      | _ \<Rightarrow> open)"

definition open_turn :: "session_event list \<Rightarrow> nat option" where
  "open_turn events = foldl open_turn_step None events"

definition session_metadata :: "session \<Rightarrow> creation_metadata option" where
  "session_metadata s = map_option cr_metadata (se_creation s)"

definition session_lineage :: "session \<Rightarrow> session_parent option" where
  "session_lineage s = Option.bind (se_creation s) cr_parent"

fun audit_kind :: "session_event_kind \<Rightarrow> bool" where
  "audit_kind (SessionCreated creation) = True"
| "audit_kind (RuntimeConfigured state prompt tools model effort) = True"
| "audit_kind _ = False"

definition is_fresh :: "session \<Rightarrow> bool" where
  "is_fresh s \<longleftrightarrow> session_lineage s = None \<and> list_all (\<lambda>e. audit_kind (ev_kind e)) (se_events s)"

fun link_of :: "session_event_kind \<Rightarrow> (string \<times> string) option" where
  "link_of (RuntimeLinked runtime session) = Some (runtime, session)"
| "link_of _ = None"

definition local_events :: "session \<Rightarrow> session_event list" where
  "local_events s = filter (\<lambda>e. se_first s \<le> ev_seq e) (se_events s)"

definition runtime_link :: "session \<Rightarrow> (string \<times> string) option" where
  "runtime_link s =
     (case List.find (\<lambda>e. link_of (ev_kind e) \<noteq> None) (local_events s) of
        None \<Rightarrow> None | Some e \<Rightarrow> link_of (ev_kind e))"

datatype downgrade_guidance =
  DowngradeCompatible nat | RestorePreUpgradeCopy nat nat nat \<comment> \<open>reader, first seq, version\<close>

datatype guidance_error = ReaderTooOld nat

definition downgrade_guidance :: "session \<Rightarrow> nat \<Rightarrow> guidance_error + downgrade_guidance" where
  "downgrade_guidance s reader =
     and_then (refuse_if (reader < min_session_log_version) (ReaderTooOld min_session_log_version)) (\<lambda>_.
       case List.find (\<lambda>e. reader < ev_v e) (se_events s) of
         Some e \<Rightarrow> Inr (RestorePreUpgradeCopy reader (ev_seq e) (ev_v e))
       | None \<Rightarrow> Inr (DowngradeCompatible reader))"

end
