(* ===== verification/Session_Reader.thy ===== *)
theory Session_Reader
  imports Session_Log
begin

text \<open>
  Reopening a session (\<open>Session::open\<close>): one line, the fold over the lines, the prefix a
  fork inherits, and the recursion through its ancestors. The code bounds the recursion by the
  size of the set of sessions being opened, which grows by one per level: \<open>open_inner\<close>
  counts the levels that are left, 65 at the start, and refuses at none.
\<close>

section \<open>One line\<close>

definition known_kinds :: "nat \<Rightarrow> open_error + string list" where
  "known_kinds v =
     (if v = 1 then Inr known_kinds_v1
      else if v = 2 then Inr known_kinds_v2
      else Inl (UnsupportedVersion v))"

definition parse_line_unsequenced :: "log_ext \<Rightarrow> nat \<Rightarrow> string \<Rightarrow> open_error + session_event" where
  "parse_line_unsequenced ext n line =
     and_then (ok_or (CorruptLine n) (lx_head ext line)) (\<lambda>(v, seq, time, tag).
     and_then (known_kinds v) (\<lambda>tags.
     and_then (refuse_if (tag \<notin> set tags) (UnknownKind n tag)) (\<lambda>_.
     and_then (ok_or (CorruptLine n) (lx_kind ext line)) (\<lambda>k.
     and_then
       (map_err (\<lambda>e. InvalidEvent n (BadPayload e)) (validate_for_version (lx_payload ext) v k)) (\<lambda>_.
       Inr \<lparr>ev_v = v, ev_seq = seq, ev_time = time, ev_kind = k\<rparr>)))))"

definition parse_line :: "log_ext \<Rightarrow> nat \<Rightarrow> string \<Rightarrow> nat \<Rightarrow> open_error + session_event" where
  "parse_line ext n line expected =
     and_then (parse_line_unsequenced ext n line) (\<lambda>e.
     and_then (refuse_if (ev_seq e \<noteq> expected) (SeqGap expected (ev_seq e))) (\<lambda>_.
     and_then (map_err (InvalidEvent n) (validate_compaction_boundary (ev_kind e) (ev_seq e))) (\<lambda>_.
       Inr e)))"

section \<open>The fold over the lines\<close>

record read_state =
  rd_events :: "session_event list"
  rd_hashes :: "string list"
  rd_inbox :: inbox_projection
  rd_creation :: "session_creation option"
  rd_previous :: "nat option" \<comment> \<open>version of the event before\<close>

definition creation_step ::
  "nat \<Rightarrow> session_event \<Rightarrow> session_creation option \<Rightarrow> open_error + session_creation option" where
  "creation_step idx e creation =
     (case ev_kind e of
        SessionCreated candidate \<Rightarrow>
          (if idx = 0
           then and_then
                  (refuse_if (cr_parent candidate = None \<and> ev_seq e \<noteq> 0) (InvalidLineageLine (idx + 1)))
                  (\<lambda>_. Inr (Some candidate))
           else Inl (InvalidLineageLine (idx + 1)))
      | _ \<Rightarrow> Inr creation)"

definition read_line ::
  "log_ext \<Rightarrow> nat \<Rightarrow> read_state \<Rightarrow> nat \<times> string \<Rightarrow> open_error + read_state" where
  "read_line ext first st = (\<lambda>(idx, line).
     and_then (ok_or (InvalidLineageLine (idx + 1)) (checked_add_u64 first idx)) (\<lambda>expected.
     and_then (parse_line ext (idx + 1) line expected) (\<lambda>e.
     and_then
       (case rd_previous st of
          None \<Rightarrow> Inr ()
        | Some v \<Rightarrow> refuse_if (ev_v e < v) (VersionRegression (idx + 1) v (ev_v e))) (\<lambda>_.
     and_then (creation_step idx e (rd_creation st)) (\<lambda>creation.
     and_then
       (map_err (\<lambda>err. InvalidEvent (idx + 1) (BadInbox err))
          (inbox_apply_event (lx_labels ext) (rd_inbox st) e)) (\<lambda>inbox.
     and_then
       (refuse_if (max_logical_session_events < length (rd_events st) + 1) TooManyEvents) (\<lambda>_.
       Inr \<lparr>rd_events = rd_events st @ [e],
            rd_hashes = rd_hashes st @ [event_leaf_sha256 ext line],
            rd_inbox = inbox, rd_creation = creation, rd_previous = Some (ev_v e)\<rparr>)))))))"

definition read_checks :: "log_ext \<Rightarrow> session_event list \<Rightarrow> open_error + unit" where
  "read_checks ext events =
     and_then
       (map_err (\<lambda>e. InvalidEvent 1 (BadCodeMode e)) (project_code_mode (lx_code_len ext) events)) (\<lambda>_.
     and_then
       (map_err (\<lambda>(n, e). InvalidEvent n (BadNeighbour e)) (validate_user_attachment_sequence events)) (\<lambda>_.
       map_err (\<lambda>(n, e). InvalidEvent n (BadNeighbour e)) (validate_assistant_audio_sequence events)))"

section \<open>The inherited prefix\<close>

record inherited =
  ih_events :: "session_event list"
  ih_hashes :: "string list"
  ih_first :: nat
  ih_creation :: "session_creation option"

definition nothing_inherited :: inherited where
  "nothing_inherited = \<lparr>ih_events = [], ih_hashes = [], ih_first = 0, ih_creation = None\<rparr>"

text \<open>The parent of the first line, when that line records a fork.\<close>

definition fork_origin :: "session_event \<Rightarrow> (session_creation \<times> session_parent) option" where
  "fork_origin e =
     (case ev_kind e of
        SessionCreated c \<Rightarrow> (case cr_parent c of None \<Rightarrow> None | Some p \<Rightarrow> Some (c, p))
      | _ \<Rightarrow> None)"

definition inherit_prefix ::
  "log_ext \<Rightarrow> (string \<Rightarrow> open_error + session) \<Rightarrow> (string \<Rightarrow> bool) \<Rightarrow> string \<Rightarrow> session_event
   \<Rightarrow> session_creation \<Rightarrow> session_parent \<Rightarrow> open_error + inherited" where
  "inherit_prefix ext open_parent present name e c p =
     and_then
       (refuse_if
          (ev_seq e \<noteq> par_seed p \<or> par_id p = name \<or> max_logical_session_events \<le> par_seed p)
          (InvalidLineageLine 1)) (\<lambda>_.
     and_then (refuse_if (\<not> present (par_id p)) (LineageParentMissing (par_id p))) (\<lambda>_.
     and_then (open_parent (par_id p)) (\<lambda>parent.
     and_then (refuse_if (length (se_events parent) < par_seed p) (InvalidLineageLine 1)) (\<lambda>_.
     and_then (refuse_if (length (se_hashes parent) < par_seed p) (InvalidLineageLine 1)) (\<lambda>_.
     and_then
       (refuse_if (prefix_sha256 ext (take (par_seed p) (se_hashes parent)) \<noteq> par_digest p)
          (LineageDigestMismatch name)) (\<lambda>_.
       Inr \<lparr>ih_events = take (par_seed p) (se_events parent),
            ih_hashes = take (par_seed p) (se_hashes parent),
            ih_first = par_seed p, ih_creation = Some c\<rparr>))))))"

definition inherit ::
  "log_ext \<Rightarrow> (string \<Rightarrow> open_error + session) \<Rightarrow> (string \<Rightarrow> bool) \<Rightarrow> string \<Rightarrow> string list
   \<Rightarrow> open_error + inherited" where
  "inherit ext open_parent present name lines =
     (case lines of
        [] \<Rightarrow> Inr nothing_inherited
      | line # _ \<Rightarrow>
          and_then (parse_line_unsequenced ext 1 line) (\<lambda>e.
            case fork_origin e of
              None \<Rightarrow> Inr nothing_inherited
            | Some (c, p) \<Rightarrow> inherit_prefix ext open_parent present name e c p))"

section \<open>Opening\<close>

definition last_version :: "session_event list \<Rightarrow> nat option" where
  "last_version events = (if events = [] then None else Some (ev_v (last events)))"

definition read_start :: "inherited \<Rightarrow> inbox_projection \<Rightarrow> read_state" where
  "read_start ih inbox =
     \<lparr>rd_events = ih_events ih, rd_hashes = ih_hashes ih, rd_inbox = inbox,
      rd_creation = ih_creation ih, rd_previous = last_version (ih_events ih)\<rparr>"

definition opened :: "session_key \<Rightarrow> nat \<Rightarrow> nat \<Rightarrow> read_state \<Rightarrow> session" where
  "opened key first bytes st =
     \<lparr>se_root = fst key, se_id = snd key, se_events = rd_events st, se_hashes = rd_hashes st,
      se_inbox = rd_inbox st, se_creation = rd_creation st, se_first = first, se_bytes = bytes,
      se_writer = None, se_published = []\<rparr>"

definition log_text :: "store \<Rightarrow> session_key \<Rightarrow> open_error + string" where
  "log_text store key =
     (case store key of
        None \<Rightarrow> Inl OpenIo
      | Some UnsafeDir \<Rightarrow> Inl UnsafePath
      | Some (StoredDir NoLog) \<Rightarrow> Inl OpenIo
      | Some (StoredDir UnsafeLog) \<Rightarrow> Inl UnsafePath
      | Some (StoredDir (LogFile raw)) \<Rightarrow>
          and_then (refuse_if (max_session_log_bytes < length raw) LogTooLarge) (\<lambda>_.
          and_then (refuse_if (\<not> valid_utf8 raw) OpenIo) (\<lambda>_.
          and_then (refuse_if (raw \<noteq> [] \<and> last raw \<noteq> newline) UnterminatedTail) (\<lambda>_. Inr raw))))"

definition open_inner_loaded ::
  "log_ext \<Rightarrow> store \<Rightarrow> string \<Rightarrow> (string \<Rightarrow> open_error + session) \<Rightarrow> string \<Rightarrow> open_error + session" where
  "open_inner_loaded ext store root open_parent name =
     and_then (log_text store (root, name)) (\<lambda>raw.
     and_then
       (inherit ext open_parent (\<lambda>p. store (root, p) \<noteq> None) name (log_lines raw)) (\<lambda>ih.
     and_then
       (map_err (\<lambda>_. InvalidLineageLine 1) (project_inbox (lx_labels ext) (ih_events ih))) (\<lambda>inbox.
     and_then
       (try_fold (read_line ext (ih_first ih)) (read_start ih inbox) (List.enumerate 0 (log_lines raw))) (\<lambda>st.
     and_then (read_checks ext (rd_events st)) (\<lambda>_.
       Inr (opened (root, name) (ih_first ih) (length raw) st))))))"

primrec open_inner ::
  "nat \<Rightarrow> log_ext \<Rightarrow> store \<Rightarrow> string \<Rightarrow> string list \<Rightarrow> string \<Rightarrow> open_error + session" where
  "open_inner 0 ext store root visited name =
     and_then (refuse_if (\<not> valid_session_component name) UnsafePath) (\<lambda>_. Inl LineageTooDeep)"
| "open_inner (Suc room) ext store root visited name =
     and_then (refuse_if (\<not> valid_session_component name) UnsafePath) (\<lambda>_.
     and_then (refuse_if (name \<in> set visited) (LineageCycle name)) (\<lambda>_.
       open_inner_loaded ext store root (open_inner room ext store root (name # visited)) name))"

definition open_session :: "log_ext \<Rightarrow> store \<Rightarrow> session_key \<Rightarrow> open_error + session" where
  "open_session ext store key =
     open_inner (max_lineage_depth + 1) ext store (fst key) [] (snd key)"

section \<open>What an opened session satisfies\<close>

text \<open>Events are numbered from zero, and each has the hash of its line.\<close>

definition numbered :: "session_event list \<Rightarrow> bool" where
  "numbered events \<longleftrightarrow> map ev_seq events = [0..<length events]"

definition versions_ok :: "session_event list \<Rightarrow> bool" where
  "versions_ok events \<longleftrightarrow>
     list_all (\<lambda>e. ev_v e = 1 \<or> ev_v e = 2) events \<and> sorted (map ev_v events)"

definition kinds_ok :: "log_ext \<Rightarrow> session_event list \<Rightarrow> bool" where
  "kinds_ok ext events \<longleftrightarrow>
     list_all (\<lambda>e. validate_for_version (lx_payload ext) (ev_v e) (ev_kind e) = Inr ()
       \<and> validate_compaction_boundary (ev_kind e) (ev_seq e) = Inr ()) events"

definition stream_ok :: "log_ext \<Rightarrow> session_event list \<Rightarrow> string list \<Rightarrow> inbox_projection \<Rightarrow> bool" where
  "stream_ok ext events hashes inbox \<longleftrightarrow>
     numbered events \<and> versions_ok events \<and> kinds_ok ext events
     \<and> length hashes = length events \<and> length events \<le> max_logical_session_events
     \<and> project_inbox (lx_labels ext) events = Inr inbox"

lemma numbered_take: "numbered events \<Longrightarrow> numbered (take n events)"
  by (simp add: numbered_def take_map [symmetric] take_upt [symmetric] min_def)

lemma numbered_snoc: "numbered (events @ [e]) \<longleftrightarrow> numbered events \<and> ev_seq e = length events"
  by (auto simp: numbered_def)

lemma versions_ok_take: "versions_ok events \<Longrightarrow> versions_ok (take n events)"
  by (auto simp: versions_ok_def list_all_iff take_map [symmetric] sorted_wrt_take dest: in_set_takeD)

lemma kinds_ok_take: "kinds_ok ext events \<Longrightarrow> kinds_ok ext (take n events)"
  by (auto simp: kinds_ok_def list_all_iff dest: in_set_takeD)

lemma versions_le_last: "versions_ok events \<Longrightarrow> x \<in> set events \<Longrightarrow> ev_v x \<le> ev_v (last events)"
  by (induction events rule: rev_induct) (auto simp: versions_ok_def sorted_append)

lemma versions_ok_snoc:
  "versions_ok (events @ [e]) \<longleftrightarrow>
     versions_ok events \<and> (ev_v e = 1 \<or> ev_v e = 2)
     \<and> (case last_version events of None \<Rightarrow> True | Some v \<Rightarrow> v \<le> ev_v e)"
proof (cases "events = []")
  case True
  then show ?thesis by (simp add: versions_ok_def last_version_def)
next
  case False
  then have last: "last_version events = Some (ev_v (last events))" "last events \<in> set events"
    by (simp_all add: last_version_def)
  have "(\<forall>x \<in> set events. ev_v x \<le> ev_v e) \<longleftrightarrow> ev_v (last events) \<le> ev_v e" if "versions_ok events"
    using versions_le_last [OF that] last(2) order_trans by blast
  then show ?thesis unfolding last(1) by (auto simp: versions_ok_def sorted_append)
qed

lemma kinds_ok_snoc:
  "kinds_ok ext (events @ [e]) \<longleftrightarrow>
     kinds_ok ext events \<and> validate_for_version (lx_payload ext) (ev_v e) (ev_kind e) = Inr ()
     \<and> validate_compaction_boundary (ev_kind e) (ev_seq e) = Inr ()"
  by (simp add: kinds_ok_def)

lemma project_inbox_snoc:
  "project_inbox ser (events @ [e]) =
     and_then (project_inbox ser events) (\<lambda>p. inbox_apply_event ser p e)"
  unfolding project_inbox_def try_fold_append by (simp add: and_then_return)

definition next_ok :: "log_ext \<Rightarrow> session_event list \<Rightarrow> session_event \<Rightarrow> bool" where
  "next_ok ext events e \<longleftrightarrow>
     ev_seq e = length events \<and> (ev_v e = 1 \<or> ev_v e = 2)
     \<and> (case last_version events of None \<Rightarrow> True | Some v \<Rightarrow> v \<le> ev_v e)
     \<and> validate_for_version (lx_payload ext) (ev_v e) (ev_kind e) = Inr ()
     \<and> validate_compaction_boundary (ev_kind e) (ev_seq e) = Inr ()
     \<and> length events < max_logical_session_events"

lemma stream_ok_snoc:
  assumes "stream_ok ext events hashes inbox" "next_ok ext events e"
    and "inbox_apply_event (lx_labels ext) inbox e = Inr inbox'"
  shows "stream_ok ext (events @ [e]) (hashes @ [h]) inbox'"
  using assms unfolding stream_ok_def next_ok_def
  by (elim conjE) (simp only: numbered_snoc versions_ok_snoc kinds_ok_snoc project_inbox_snoc
      length_append_singleton Suc_le_eq and_then.simps simp_thms)

end
