(* ===== verification/Session_Writer.thy ===== *)
theory Session_Writer
  imports Session_Reader
begin

text \<open>
  Writing a session log (\<open>heycode-session/src/session.rs\<close>): the writer lease, creation,
  appending one event or a batch, the operations on pending input, and forking. A write takes
  the outcome of \<open>write_all\<close> and \<open>flush\<close> as an argument: all bytes reached the
  file, or an error came after the first \<open>n\<close>. \<open>clock\<close> gives the successive readings
  of \<open>Utc::now\<close>, and fresh session ids are arguments.
\<close>

section \<open>The world\<close>

text \<open>
  One entry of \<open>leases\<close> is a live \<open>WriterLeaseFile\<close>: its generation and how many
  handles hold it. \<open>foreign\<close> tells which directories another process has locked.
\<close>

record lease =
  ls_generation :: nat
  ls_holders :: nat

record world =
  w_store :: store
  w_leases :: "session_key \<Rightarrow> lease option"
  w_foreign :: "session_key \<Rightarrow> bool"

datatype write_outcome = WriteAll | WriteFailed nat

definition append_bytes :: "session_key \<Rightarrow> string \<Rightarrow> store \<Rightarrow> store" where
  "append_bytes key bytes store =
     (case store key of
        Some (StoredDir (LogFile raw)) \<Rightarrow> store(key \<mapsto> StoredDir (LogFile (raw @ bytes)))
      | _ \<Rightarrow> store)"

section \<open>The writer lease\<close>

text \<open>\<open>acquire_writer_lease\<close>: no value without a directory, otherwise whether it is ours.\<close>

definition acquire_writer_lease :: "world \<Rightarrow> session_key \<Rightarrow> bool option" where
  "acquire_writer_lease w key =
     (if w_store w key = None then None
      else case w_leases w key of Some l \<Rightarrow> Some True | None \<Rightarrow> Some (\<not> w_foreign w key))"

definition commit_lease :: "session_key \<Rightarrow> world \<Rightarrow> nat \<times> world" where
  "commit_lease key w =
     (let (g, n) = (case w_leases w key of None \<Rightarrow> (0, 0) | Some l \<Rightarrow> (ls_generation l, ls_holders l))
      in (g + 1, w\<lparr>w_leases := (w_leases w)(key \<mapsto> \<lparr>ls_generation = g + 1, ls_holders = n + 1\<rparr>)\<rparr>))"

text \<open>Dropping a handle: the entry dies with its last holder.\<close>

definition drop_session :: "session \<Rightarrow> world \<Rightarrow> world" where
  "drop_session s w =
     (case se_writer s of
        None \<Rightarrow> w
      | Some g \<Rightarrow>
          (case w_leases w (session_key s) of
             None \<Rightarrow> w
           | Some l \<Rightarrow>
               w\<lparr>w_leases := (w_leases w)(session_key s :=
                  (if ls_holders l \<le> 1 then None else Some (l\<lparr>ls_holders := ls_holders l - 1\<rparr>)))\<rparr>))"

definition is_current :: "world \<Rightarrow> session_key \<Rightarrow> nat \<Rightarrow> bool" where
  "is_current w key g = (case w_leases w key of None \<Rightarrow> False | Some l \<Rightarrow> ls_generation l = g)"

definition open_for_writing ::
  "log_ext \<Rightarrow> world \<Rightarrow> session_key \<Rightarrow> (open_error + session) \<times> world" where
  "open_for_writing ext w key =
     (case acquire_writer_lease w key of
        None \<Rightarrow> (Inl OpenIo, w)
      | Some False \<Rightarrow> (Inl AlreadyOpen, w)
      | Some True \<Rightarrow>
          (case open_session ext (w_store w) key of
             Inl e \<Rightarrow> (Inl e, w)
           | Inr s \<Rightarrow> let (g, w') = commit_lease key w in (Inr (s\<lparr>se_writer := Some g\<rparr>), w')))"

section \<open>Guards of an append\<close>

definition check_writable :: "world \<Rightarrow> session \<Rightarrow> append_error + unit" where
  "check_writable w s =
     refuse_if
       (case se_writer s of None \<Rightarrow> False | Some g \<Rightarrow> \<not> is_current w (session_key s) g) Superseded"

definition reserve :: "session \<Rightarrow> nat \<Rightarrow> nat \<Rightarrow> append_error + unit" where
  "reserve s events bytes =
     and_then
       (refuse_if (max_logical_session_events < saturating_add_u64 (length (se_events s)) events)
          AppendTooManyEvents) (\<lambda>_.
       refuse_if (max_session_log_bytes < saturating_add_u64 (se_bytes s) bytes) LogFull)"

definition stamp :: "int \<Rightarrow> nat \<Rightarrow> session_event_kind \<Rightarrow> session_event" where
  "stamp now seq k =
     \<lparr>ev_v = current_session_log_version, ev_seq = seq, ev_time = now, ev_kind = k\<rparr>"

definition validate_payload :: "log_ext \<Rightarrow> session_event_kind \<Rightarrow> append_error + unit" where
  "validate_payload ext k =
     map_err (\<lambda>e. AppendInvalid (BadPayload e))
       (validate_for_version (lx_payload ext) current_session_log_version k)"

definition settle_batch :: "session_event_kind list \<Rightarrow> append_error + unit" where
  "settle_batch kinds = map_err (\<lambda>e. AppendInvalid (BadNeighbour e)) (settle_pairing kinds)"

definition validate_boundary :: "session_event \<Rightarrow> append_error + unit" where
  "validate_boundary e =
     map_err AppendInvalid (validate_compaction_boundary (ev_kind e) (ev_seq e))"

definition validate_inbox ::
  "log_ext \<Rightarrow> inbox_projection \<Rightarrow> session_event \<Rightarrow> append_error + validated_splice option" where
  "validate_inbox ext p e =
     map_err (\<lambda>err. AppendInvalid (BadInbox err)) (inbox_validate_event (lx_labels ext) p e)"

definition commit_inbox ::
  "session_event \<Rightarrow> validated_splice option \<Rightarrow> inbox_projection \<Rightarrow> inbox_projection" where
  "commit_inbox e r p = (case r of None \<Rightarrow> p | Some v \<Rightarrow> inbox_commit e v p)"

section \<open>Appending one event\<close>

definition prepare_event ::
  "log_ext \<Rightarrow> int \<Rightarrow> world \<Rightarrow> session \<Rightarrow> session_event_kind
   \<Rightarrow> append_error + session_event \<times> validated_splice option \<times> string" where
  "prepare_event ext now w s k =
     and_then (check_writable w s) (\<lambda>_.
     and_then (validate_payload ext k) (\<lambda>_.
     and_then (map_err AppendInvalid (validate_against_events ext (se_events s) k)) (\<lambda>_.
     and_then (settle_batch [k]) (\<lambda>_.
     let e = stamp now (length (se_events s)) k in
     and_then (validate_boundary e) (\<lambda>_.
     and_then (validate_inbox ext (se_inbox s) e) (\<lambda>sp.
     and_then (ok_or AppendSerialize (lx_encode ext e)) (\<lambda>line.
     and_then (reserve s 1 (length line + 1)) (\<lambda>_.
       Inr (e, sp, line)))))))))"

definition append_kind ::
  "log_ext \<Rightarrow> int \<Rightarrow> write_outcome \<Rightarrow> session_event_kind \<Rightarrow> world \<times> session
   \<Rightarrow> (append_error + session_event) \<times> world \<times> session" where
  "append_kind ext now outcome k = (\<lambda>(w, s).
     case prepare_event ext now w s k of
       Inl err \<Rightarrow> (Inl err, w, s)
     | Inr (e, sp, line) \<Rightarrow>
         (case outcome of
            WriteFailed n \<Rightarrow>
              (Inl AppendIo,
               w\<lparr>w_store := append_bytes (session_key s) (take n (line @ [newline])) (w_store w)\<rparr>, s)
          | WriteAll \<Rightarrow>
              (Inr e,
               w\<lparr>w_store := append_bytes (session_key s) (line @ [newline]) (w_store w)\<rparr>,
               s\<lparr>se_events := se_events s @ [e],
                 se_hashes := se_hashes s @ [event_leaf_sha256 ext line],
                 se_inbox := commit_inbox e sp (se_inbox s),
                 se_bytes := saturating_add_u64 (se_bytes s) (length line + 1),
                 se_published := se_published s @ [e]\<rparr>)))"

fun is_creation :: "session_event_kind \<Rightarrow> bool" where
  "is_creation (SessionCreated creation) = True"
| "is_creation _ = False"

definition append_session ::
  "log_ext \<Rightarrow> int \<Rightarrow> write_outcome \<Rightarrow> session_event_kind \<Rightarrow> world \<times> session
   \<Rightarrow> (append_error + session_event) \<times> world \<times> session" where
  "append_session ext now outcome k = (\<lambda>(w, s).
     if is_creation k then (Inl CreationOwned, w, s)
     else if link_of k \<noteq> None \<and> list_ex (\<lambda>e. link_of (ev_kind e) \<noteq> None) (local_events s)
     then (Inl LinkedTwice, w, s)
     else append_kind ext now outcome k (w, s))"

section \<open>Appending a batch\<close>

fun prepare_batch ::
  "log_ext \<Rightarrow> (nat \<Rightarrow> int) \<Rightarrow> session \<Rightarrow> nat \<Rightarrow> inbox_projection \<Rightarrow> session_event_kind list
   \<Rightarrow> append_error + (session_event \<times> string) list \<times> inbox_projection" where
  "prepare_batch ext clock s offset inbox [] = Inr ([], inbox)"
| "prepare_batch ext clock s offset inbox (k # ks) =
     and_then (validate_payload ext k) (\<lambda>_.
     and_then (map_err AppendInvalid (validate_against_events ext (se_events s) k)) (\<lambda>_.
     let e = stamp (clock offset) (saturating_add_u64 (length (se_events s)) offset) k in
     and_then (validate_boundary e) (\<lambda>_.
     and_then (validate_inbox ext inbox e) (\<lambda>sp.
     and_then (ok_or AppendSerialize (lx_encode ext e)) (\<lambda>line.
     and_then (prepare_batch ext clock s (offset + 1) (commit_inbox e sp inbox) ks) (\<lambda>(rest, inbox').
       Inr ((e, line) # rest, inbox')))))))"

definition batch_text :: "(session_event \<times> string) list \<Rightarrow> string" where
  "batch_text rows = text_of_lines (map snd rows)"

definition prepare_atomically ::
  "log_ext \<Rightarrow> (nat \<Rightarrow> int) \<Rightarrow> world \<Rightarrow> session \<Rightarrow> session_event_kind list
   \<Rightarrow> append_error + (session_event \<times> string) list \<times> inbox_projection" where
  "prepare_atomically ext clock w s kinds =
     and_then (check_writable w s) (\<lambda>_.
     and_then (reserve s (length kinds) 0) (\<lambda>_.
     and_then (settle_batch kinds) (\<lambda>_.
     and_then (prepare_batch ext clock s 0 (se_inbox s) kinds) (\<lambda>(rows, inbox).
     and_then (reserve s (length rows) (length (batch_text rows))) (\<lambda>_.
       Inr (rows, inbox))))))"

definition append_kinds_atomically ::
  "log_ext \<Rightarrow> (nat \<Rightarrow> int) \<Rightarrow> write_outcome \<Rightarrow> session_event_kind list \<Rightarrow> world \<times> session
   \<Rightarrow> (append_error + session_event) \<times> world \<times> session" where
  "append_kinds_atomically ext clock outcome kinds = (\<lambda>(w, s).
     case prepare_atomically ext clock w s kinds of
       Inl err \<Rightarrow> (Inl err, w, s)
     | Inr (rows, inbox) \<Rightarrow>
         (case outcome of
            WriteFailed n \<Rightarrow>
              (Inl AppendIo,
               w\<lparr>w_store := append_bytes (session_key s) (take n (batch_text rows)) (w_store w)\<rparr>, s)
          | WriteAll \<Rightarrow>
              (if rows = [] then Inl BatchEmpty else Inr (fst (last rows)),
               w\<lparr>w_store := append_bytes (session_key s) (batch_text rows) (w_store w)\<rparr>,
               s\<lparr>se_events := se_events s @ map fst rows,
                 se_hashes := se_hashes s @ map (\<lambda>r. event_leaf_sha256 ext (snd r)) rows,
                 se_inbox := inbox,
                 se_bytes := saturating_add_u64 (se_bytes s) (length (batch_text rows)),
                 se_published := se_published s @ map fst rows\<rparr>)))"

section \<open>User input\<close>

definition append_user_message_with_routes ::
  "log_ext \<Rightarrow> (nat \<Rightarrow> int) \<Rightarrow> write_outcome \<Rightarrow> string \<Rightarrow> attachment list \<Rightarrow> document_route list
   \<Rightarrow> world \<times> session \<Rightarrow> (append_error + session_event) \<times> world \<times> session" where
  "append_user_message_with_routes ext clock outcome text attachments routes = (\<lambda>(w, s).
     if attachments = []
     then if routes \<noteq> [] then (Inl RoutesWithoutAttachments, w, s)
          else append_kind ext (clock 0) outcome (UserMessage text) (w, s)
     else append_kinds_atomically ext clock outcome
            [UserAttachments attachments routes, UserMessage text] (w, s))"

definition append_assistant_audio ::
  "log_ext \<Rightarrow> int \<Rightarrow> write_outcome \<Rightarrow> nat \<Rightarrow> nat \<Rightarrow> string \<Rightarrow> attachment list
   \<Rightarrow> world \<times> session \<Rightarrow> (append_error + session_event) \<times> world \<times> session" where
  "append_assistant_audio ext now outcome turn step request attachments =
     append_kind ext now outcome (AssistantAudio turn step request attachments)"

definition claim_splice :: "inbox_target \<Rightarrow> nat \<Rightarrow> session_event_kind" where
  "claim_splice target start =
     AgentInboxSplice \<lparr>sp_target = target, sp_start = start, sp_removed = Some 1, sp_inserted = [],
       sp_outcome = None\<rparr>"

definition append_inbox_claim ::
  "log_ext \<Rightarrow> (nat \<Rightarrow> int) \<Rightarrow> write_outcome \<Rightarrow> inbox_target \<Rightarrow> nat \<Rightarrow> world \<times> session
   \<Rightarrow> (append_error + inbox_message) \<times> world \<times> session" where
  "append_inbox_claim ext clock outcome target start = (\<lambda>(w, s).
     let queue = inbox_queue (se_inbox s) target in
     if start < length queue
     then let m = queue ! start;
              (r, w', s') = append_kinds_atomically ext clock outcome
                [claim_splice target start, UserMessage (im_text m)] (w, s)
          in (and_then r (\<lambda>_. Inr m), w', s')
     else (Inl NoPendingMessage, w, s))"

definition is_human :: "inbox_message \<Rightarrow> bool" where
  "is_human m \<longleftrightarrow> im_source m = SourceHuman"

definition pending_human_messages :: "session \<Rightarrow> inbox_message list" where
  "pending_human_messages s =
     (let pending = map im_id (filter is_human
            (ip_next_turn (se_inbox s) @ ip_next_step (se_inbox s)))
      in filter (\<lambda>m. im_id m \<in> set pending) (concat (map inserted_by (se_events s))))"

definition cancel_splice :: "inbox_target \<Rightarrow> nat \<Rightarrow> session_event_kind" where
  "cancel_splice target start =
     AgentInboxSplice \<lparr>sp_target = target, sp_start = start, sp_removed = Some 1, sp_inserted = [],
       sp_outcome = Some Canceled\<rparr>"

text \<open>\<open>enumerate().rev()\<close> of one queue, keeping the human messages' positions.\<close>

definition human_positions :: "inbox_message list \<Rightarrow> nat list" where
  "human_positions queue = rev (filter (\<lambda>i. is_human (queue ! i)) [0..<length queue])"

definition cancellations :: "inbox_projection \<Rightarrow> session_event_kind list" where
  "cancellations p =
     map (cancel_splice NextTurn) (human_positions (ip_next_turn p))
     @ map (cancel_splice NextStep) (human_positions (ip_next_step p))"

definition recall_positions_ok :: "inbox_projection \<Rightarrow> bool" where
  "recall_positions_ok p \<longleftrightarrow>
     list_all (\<lambda>i. i \<le> u32_max) (human_positions (ip_next_turn p) @ human_positions (ip_next_step p))"

definition recall_human_messages ::
  "log_ext \<Rightarrow> (nat \<Rightarrow> int) \<Rightarrow> write_outcome \<Rightarrow> world \<times> session
   \<Rightarrow> (append_error + inbox_message list) \<times> world \<times> session" where
  "recall_human_messages ext clock outcome = (\<lambda>(w, s).
     let messages = pending_human_messages s in
     if messages = [] then (Inr [], w, s)
     else if \<not> recall_positions_ok (se_inbox s) then (Inl RecallOutOfRange, w, s)
     else let (r, w', s') =
                append_kinds_atomically ext clock outcome (cancellations (se_inbox s)) (w, s)
          in (and_then r (\<lambda>_. Inr messages), w', s'))"

section \<open>Creating a session\<close>

definition new_session :: "session_key \<Rightarrow> nat \<Rightarrow> session" where
  "new_session key generation =
     \<lparr>se_root = fst key, se_id = snd key, se_events = [], se_hashes = [], se_inbox = inbox_default,
      se_creation = None, se_first = 0, se_bytes = 0, se_writer = Some generation,
      se_published = []\<rparr>"

definition create_with_id :: "session_key \<Rightarrow> world \<Rightarrow> (create_error + session) \<times> world" where
  "create_with_id key w =
     (if \<not> valid_session_component (snd key) \<or> w_store w key \<noteq> None then (Inl CreateIo, w)
      else let w1 = w\<lparr>w_store := (w_store w)(key \<mapsto> StoredDir (LogFile []))\<rparr> in
           (case acquire_writer_lease w1 key of
              Some True \<Rightarrow> let (g, w2) = commit_lease key w1 in (Inr (new_session key g), w2)
            | _ \<Rightarrow> (Inl CreateIo, w)))"

definition append_creation ::
  "log_ext \<Rightarrow> int \<Rightarrow> write_outcome \<Rightarrow> session_creation \<Rightarrow> world \<times> session
   \<Rightarrow> (append_error + session_event) \<times> world \<times> session" where
  "append_creation ext now outcome c = (\<lambda>(w, s).
     if se_events s \<noteq> [] \<or> se_creation s \<noteq> None then (Inl CreationNotFirst, w, s)
     else case append_kind ext now outcome (SessionCreated c) (w, s) of
            (Inl err, w', s') \<Rightarrow> (Inl err, w', s')
          | (Inr e, w', s') \<Rightarrow> (Inr e, w', s'\<lparr>se_creation := Some c\<rparr>))"

text \<open>A failed first event removes the directory; the handle is dropped.\<close>

definition commit_creation ::
  "log_ext \<Rightarrow> int \<Rightarrow> write_outcome \<Rightarrow> session_creation \<Rightarrow> world \<times> session
   \<Rightarrow> (create_error + session) \<times> world" where
  "commit_creation ext now outcome c = (\<lambda>(w, s).
     case append_creation ext now outcome c (w, s) of
       (Inr e, w', s') \<Rightarrow> (Inr s', w')
     | (Inl err, w', s') \<Rightarrow>
         (Inl (CreateAppend err),
          drop_session s' (w'\<lparr>w_store := (w_store w')(session_key s' := None)\<rparr>)))"

definition create_with_id_and_metadata ::
  "log_ext \<Rightarrow> int \<Rightarrow> write_outcome \<Rightarrow> session_key \<Rightarrow> creation_metadata \<Rightarrow> world
   \<Rightarrow> (create_error + session) \<times> world" where
  "create_with_id_and_metadata ext now outcome key metadata w =
     (case creation_new metadata of
        Inl e \<Rightarrow> (Inl (CreateMetadata e), w)
      | Inr c \<Rightarrow>
          (case create_with_id key w of
             (Inl e, w') \<Rightarrow> (Inl e, w')
           | (Inr s, w') \<Rightarrow> commit_creation ext now outcome c (w', s)))"

section \<open>Forking\<close>

definition lineage_depth :: "session_event list \<Rightarrow> nat" where
  "lineage_depth events = length (filter (\<lambda>e. fork_origin e \<noteq> None) events)"

definition latest_seq :: "session \<Rightarrow> nat option" where
  "latest_seq s = (if se_events s = [] then None else Some (ev_seq (last (se_events s))))"

definition seed_count :: "session \<Rightarrow> fork_boundary \<Rightarrow> fork_error + nat" where
  "seed_count s boundary =
     (case boundary of
        BoundaryLatest \<Rightarrow> Inr (length (se_events s))
      | BoundaryThrough n \<Rightarrow>
          and_then
            (refuse_if (\<not> (n < length (se_events s) \<and> ev_seq (se_events s ! n) = n))
               (ForkInvalidBoundary (Some n) (latest_seq s))) (\<lambda>_. Inr (n + 1))
      | BoundaryCount n \<Rightarrow>
          and_then
            (refuse_if (length (se_events s) < n) (ForkInvalidBoundary (Some n) (latest_seq s)))
            (\<lambda>_. Inr n))"

text \<open>What the fork decides before it touches the store: the creation, its event and line.\<close>

record fork_plan =
  fp_seed :: nat
  fp_creation :: session_creation
  fp_event :: session_event
  fp_line :: string
  fp_inbox :: inbox_projection

definition plan_fork ::
  "log_ext \<Rightarrow> int \<Rightarrow> session \<Rightarrow> string \<Rightarrow> fork_boundary \<Rightarrow> creation_metadata \<Rightarrow> fork_error + fork_plan" where
  "plan_fork ext now s root boundary metadata =
     and_then (refuse_if (root \<noteq> se_root s) ForkWrongRoot) (\<lambda>_.
     and_then
       (refuse_if (max_lineage_depth \<le> lineage_depth (se_events s)) ForkLineageTooDeep) (\<lambda>_.
     and_then (seed_count s boundary) (\<lambda>seed.
     let prefix = take seed (se_events s) in
     and_then (refuse_if (max_logical_session_events \<le> seed) ForkTooManyEvents) (\<lambda>_.
     and_then (case open_turn prefix of None \<Rightarrow> Inr () | Some turn \<Rightarrow> Inl (ForkOpenTurn turn)) (\<lambda>_.
     and_then
       (map_err (\<lambda>_. ForkProjection) (validate_user_attachment_sequence prefix)) (\<lambda>_.
     and_then (refuse_if (length (se_hashes s) < seed) ForkProjection) (\<lambda>_.
     and_then
       (map_err ForkMetadata
          (parent_new (se_id s) seed (prefix_sha256 ext (take seed (se_hashes s))))) (\<lambda>parent.
     and_then (map_err ForkMetadata (creation_fork metadata parent)) (\<lambda>c.
     let e = stamp now seed (SessionCreated c) in
     and_then (ok_or ForkSerialize (lx_encode ext e)) (\<lambda>line.
     and_then (map_err (\<lambda>_. ForkProjection) (project_inbox (lx_labels ext) prefix)) (\<lambda>inbox.
     and_then
       (map_err (\<lambda>_. ForkProjection) (inbox_apply_event (lx_labels ext) inbox e)) (\<lambda>inbox'.
       Inr \<lparr>fp_seed = seed, fp_creation = c, fp_event = e, fp_line = line,
            fp_inbox = inbox'\<rparr>))))))))))))"

text \<open>
  The child is written to a staging directory and renamed: a failed write leaves nothing, and
  a child directory that exists already makes the rename fail.
\<close>

definition fork_with_metadata ::
  "log_ext \<Rightarrow> int \<Rightarrow> write_outcome \<Rightarrow> string \<Rightarrow> session \<Rightarrow> string \<Rightarrow> fork_boundary \<Rightarrow> creation_metadata
   \<Rightarrow> world \<Rightarrow> (fork_error + session) \<times> world" where
  "fork_with_metadata ext now outcome child s root boundary metadata w =
     (case plan_fork ext now s root boundary metadata of
        Inl err \<Rightarrow> (Inl err, w)
      | Inr plan \<Rightarrow>
          (if outcome \<noteq> WriteAll \<or> w_store w (root, child) \<noteq> None then (Inl ForkIo, w)
           else let key = (root, child);
                    w1 = w\<lparr>w_store := (w_store w)(key \<mapsto>
                           StoredDir (LogFile (fp_line plan @ [newline])))\<rparr> in
             (case acquire_writer_lease w1 key of
                Some True \<Rightarrow>
                  let (g, w2) = commit_lease key w1 in
                  (Inr \<lparr>se_root = root, se_id = child,
                        se_events = take (fp_seed plan) (se_events s) @ [fp_event plan],
                        se_hashes = take (fp_seed plan) (se_hashes s)
                          @ [event_leaf_sha256 ext (fp_line plan)],
                        se_inbox = fp_inbox plan, se_creation = Some (fp_creation plan),
                        se_first = fp_seed plan, se_bytes = length (fp_line plan) + 1,
                        se_writer = Some g, se_published = []\<rparr>, w2)
              | _ \<Rightarrow> (Inl ForkIo, w1))))"

definition fork_session ::
  "log_ext \<Rightarrow> int \<Rightarrow> write_outcome \<Rightarrow> string \<Rightarrow> session \<Rightarrow> string \<Rightarrow> fork_boundary
   \<Rightarrow> world \<Rightarrow> (fork_error + session) \<times> world" where
  "fork_session ext now outcome child s root boundary w =
     (case session_metadata s of
        Some metadata \<Rightarrow>
          fork_with_metadata ext now outcome child s root boundary (inherited_for_fork metadata) w
      | None \<Rightarrow>
          (case metadata_new None None FromFork of
             Inl e \<Rightarrow> (Inl (ForkMetadata e), w)
           | Inr metadata \<Rightarrow> fork_with_metadata ext now outcome child s root boundary metadata w))"

end
