(* ===== verification/Reader_Laws.thy ===== *)
theory Reader_Laws
  imports Session_Reader
begin

text \<open>
  What reading a log guarantees: an opened session is a well-formed stream, the result does not
  depend on which descendants are being opened, and appending acceptable lines to a log extends
  the session read from it.
\<close>

section \<open>One line\<close>

lemma parse_line_unsequenced_Inr:
  "parse_line_unsequenced ext n line = Inr e \<longleftrightarrow>
     (\<exists>tag tags. lx_head ext line = Some (ev_v e, ev_seq e, ev_time e, tag)
        \<and> known_kinds (ev_v e) = Inr tags \<and> tag \<in> set tags \<and> lx_kind ext line = Some (ev_kind e)
        \<and> validate_for_version (lx_payload ext) (ev_v e) (ev_kind e) = Inr ())"
  by (cases e) (auto simp: parse_line_unsequenced_def)

lemma known_kinds_Inr: "known_kinds v = Inr tags \<Longrightarrow> v = 1 \<or> v = 2"
  by (auto simp: known_kinds_def split: if_splits)

lemma parse_line_Inr:
  "parse_line ext n line expected = Inr e \<longleftrightarrow>
     parse_line_unsequenced ext n line = Inr e \<and> ev_seq e = expected
     \<and> validate_compaction_boundary (ev_kind e) (ev_seq e) = Inr ()"
  by (auto simp: parse_line_def)

text \<open>The read state of a stream, and the state after one more event.\<close>

definition stream_state ::
  "session_event list \<Rightarrow> string list \<Rightarrow> inbox_projection \<Rightarrow> session_creation option \<Rightarrow> read_state" where
  "stream_state events hashes inbox creation =
     \<lparr>rd_events = events, rd_hashes = hashes, rd_inbox = inbox, rd_creation = creation,
      rd_previous = last_version events\<rparr>"

definition reads_ok :: "log_ext \<Rightarrow> read_state \<Rightarrow> bool" where
  "reads_ok ext st \<longleftrightarrow>
     stream_ok ext (rd_events st) (rd_hashes st) (rd_inbox st)
     \<and> rd_previous st = last_version (rd_events st)"

lemma last_version_snoc [simp]: "last_version (events @ [e]) = Some (ev_v e)"
  by (simp add: last_version_def)

lemma read_line_Inr:
  "read_line ext first st (idx, line) = Inr st' \<longleftrightarrow>
     (\<exists>e creation inbox.
        first + idx \<le> u64_max
        \<and> parse_line ext (idx + 1) line (first + idx) = Inr e
        \<and> (case rd_previous st of None \<Rightarrow> True | Some v \<Rightarrow> v \<le> ev_v e)
        \<and> creation_step idx e (rd_creation st) = Inr creation
        \<and> inbox_apply_event (lx_labels ext) (rd_inbox st) e = Inr inbox
        \<and> length (rd_events st) < max_logical_session_events
        \<and> st' = \<lparr>rd_events = rd_events st @ [e],
                 rd_hashes = rd_hashes st @ [event_leaf_sha256 ext line],
                 rd_inbox = inbox, rd_creation = creation, rd_previous = Some (ev_v e)\<rparr>)"
  unfolding read_line_def split_conv and_then_Inr map_err_Inr refuse_if_Inr ok_or_Inr checked_add_u64_Some
  by (cases "rd_previous st") (auto simp: not_less Suc_le_eq)

lemma read_line_ok:
  assumes "reads_ok ext st" "read_line ext first st (idx, line) = Inr st'"
    and "first + idx = length (rd_events st)"
  shows "reads_ok ext st' \<and> (\<exists>e. rd_events st' = rd_events st @ [e])"
proof -
  obtain e creation inbox where e: "parse_line ext (idx + 1) line (first + idx) = Inr e"
    "case rd_previous st of None \<Rightarrow> True | Some v \<Rightarrow> v \<le> ev_v e"
    "inbox_apply_event (lx_labels ext) (rd_inbox st) e = Inr inbox"
    "length (rd_events st) < max_logical_session_events"
    "st' = \<lparr>rd_events = rd_events st @ [e], rd_hashes = rd_hashes st @ [event_leaf_sha256 ext line],
       rd_inbox = inbox, rd_creation = creation, rd_previous = Some (ev_v e)\<rparr>"
    using assms(2) unfolding read_line_Inr by blast
  have ok: "stream_ok ext (rd_events st) (rd_hashes st) (rd_inbox st)"
    "rd_previous st = last_version (rd_events st)"
    using assms(1) by (simp_all add: reads_ok_def)
  have "ev_v e = 1 \<or> ev_v e = 2" "validate_for_version (lx_payload ext) (ev_v e) (ev_kind e) = Inr ()"
    "ev_seq e = length (rd_events st)" "validate_compaction_boundary (ev_kind e) (ev_seq e) = Inr ()"
    using e(1) assms(3) known_kinds_Inr unfolding parse_line_Inr parse_line_unsequenced_Inr by auto
  then have "next_ok ext (rd_events st) e"
    using e(2,4) ok(2) by (simp add: next_ok_def)
  from stream_ok_snoc [OF ok(1) this e(3)] show ?thesis
    by (simp add: e(5) reads_ok_def)
qed

lemma read_fold_ok:
  assumes "reads_ok ext st" "first + idx = length (rd_events st)"
    and "try_fold (read_line ext first) st (List.enumerate idx lines) = Inr st'"
  shows "reads_ok ext st' \<and> length (rd_events st') = length (rd_events st) + length lines
    \<and> take (length (rd_events st)) (rd_events st') = rd_events st"
  using assms
proof (induction lines arbitrary: idx st)
  case Nil
  then show ?case by simp
next
  case (Cons line lines)
  then obtain st1 where st1: "read_line ext first st (idx, line) = Inr st1"
    "try_fold (read_line ext first) st1 (List.enumerate (Suc idx) lines) = Inr st'"
    by auto
  from read_line_ok [OF Cons.prems(1) st1(1) Cons.prems(2)] obtain e where
    e: "reads_ok ext st1" "rd_events st1 = rd_events st @ [e]" by blast
  have "first + Suc idx = length (rd_events st1)" using Cons.prems(2) e(2) by simp
  from Cons.IH [OF e(1) this st1(2)]
  have ih: "reads_ok ext st'" "length (rd_events st') = Suc (length (rd_events st)) + length lines"
    "take (Suc (length (rd_events st))) (rd_events st') = rd_events st @ [e]"
    by (simp_all add: e(2))
  have "take (length (rd_events st)) (rd_events st')
      = take (length (rd_events st)) (take (Suc (length (rd_events st))) (rd_events st'))"
    by (simp add: min_def)
  also have "\<dots> = rd_events st" by (simp add: ih(3))
  finally show ?case using ih by simp
qed

section \<open>An opened session\<close>

definition session_ok :: "log_ext \<Rightarrow> session \<Rightarrow> bool" where
  "session_ok ext s \<longleftrightarrow>
     stream_ok ext (se_events s) (se_hashes s) (se_inbox s)
     \<and> read_checks ext (se_events s) = Inr () \<and> valid_session_component (se_id s)
     \<and> se_first s \<le> length (se_events s)"

lemma reads_ok_stream: "reads_ok ext st \<Longrightarrow>
   st = stream_state (rd_events st) (rd_hashes st) (rd_inbox st) (rd_creation st)"
  by (simp add: reads_ok_def stream_state_def)

text \<open>The state after the lines of a log is the stream of the session read from it.\<close>

definition session_state :: "session \<Rightarrow> read_state" where
  "session_state s = stream_state (se_events s) (se_hashes s) (se_inbox s) (se_creation s)"

lemma stream_ok_take:
  assumes "stream_ok ext events hashes inbox" "project_inbox (lx_labels ext) (take n events) = Inr inbox'"
  shows "stream_ok ext (take n events) (take n hashes) inbox'"
  using assms unfolding stream_ok_def
  by (auto simp: numbered_take versions_ok_take kinds_ok_take min_def)

definition prefix_from ::
  "log_ext \<Rightarrow> string \<Rightarrow> session_event \<Rightarrow> session_creation \<Rightarrow> session_parent \<Rightarrow> session \<Rightarrow> inherited \<Rightarrow> bool" where
  "prefix_from ext name e c p t ih \<longleftrightarrow>
     ev_seq e = par_seed p \<and> par_id p \<noteq> name \<and> par_seed p < max_logical_session_events
     \<and> par_seed p \<le> length (se_events t) \<and> par_seed p \<le> length (se_hashes t)
     \<and> prefix_sha256 ext (take (par_seed p) (se_hashes t)) = par_digest p
     \<and> ih = \<lparr>ih_events = take (par_seed p) (se_events t),
              ih_hashes = take (par_seed p) (se_hashes t),
              ih_first = par_seed p, ih_creation = Some c\<rparr>"

lemma inherit_prefix_Inr:
  "inherit_prefix ext op present name e c p = Inr ih \<longleftrightarrow>
     present (par_id p) \<and> (\<exists>t. op (par_id p) = Inr t \<and> prefix_from ext name e c p t ih)"
  unfolding inherit_prefix_def prefix_from_def and_then_Inr refuse_if_Inr not_less not_le de_Morgan_disj
    not_not sum.inject
  by (rule iffI; elim exE conjE; intro conjI exI; (assumption | rule sym, assumption | simp))

lemma inherit_Nil [simp]: "inherit ext op present name [] = Inr ih \<longleftrightarrow> ih = nothing_inherited"
  by (auto simp: inherit_def)

lemma inherit_Cons:
  "inherit ext op present name (l # ls) = Inr ih \<longleftrightarrow>
     (\<exists>e. parse_line_unsequenced ext 1 l = Inr e
        \<and> (case fork_origin e of
              None \<Rightarrow> ih = nothing_inherited
            | Some (c, p) \<Rightarrow>
                present (par_id p) \<and> (\<exists>t. op (par_id p) = Inr t \<and> prefix_from ext name e c p t ih)))"
  unfolding inherit_def list.case and_then_Inr
  by (rule ex_cong1) (auto simp: inherit_prefix_Inr split: option.splits)

lemma inherit_cases:
  assumes "inherit ext op present name lines = Inr ih"
  obtains "ih = nothing_inherited"
  | l ls e c p t where "lines = l # ls" "parse_line_unsequenced ext 1 l = Inr e"
      "fork_origin e = Some (c, p)" "present (par_id p)" "op (par_id p) = Inr t"
      "prefix_from ext name e c p t ih"
  using assms by (cases lines) (auto simp: inherit_Cons split: option.splits)

definition streams :: "log_ext \<Rightarrow> (string \<Rightarrow> open_error + session) \<Rightarrow> bool" where
  "streams ext op \<longleftrightarrow> (\<forall>p t. op p = Inr t \<longrightarrow> stream_ok ext (se_events t) (se_hashes t) (se_inbox t))"

lemma streamsD: "streams ext op \<Longrightarrow> op p = Inr t \<Longrightarrow> stream_ok ext (se_events t) (se_hashes t) (se_inbox t)"
  by (simp add: streams_def)

lemma reads_ok_start:
  assumes ih: "inherit ext op present name lines = Inr ih"
    and op: "streams ext op"
    and inbox: "project_inbox (lx_labels ext) (ih_events ih) = Inr inbox"
  shows "reads_ok ext (read_start ih inbox) \<and> ih_first ih = length (ih_events ih)"
proof -
  have fresh: "reads_ok ext (read_start nothing_inherited inbox)" if "ih = nothing_inherited"
    using inbox that
    by (simp add: reads_ok_def read_start_def stream_ok_def nothing_inherited_def numbered_def
        versions_ok_def kinds_ok_def)
  from ih show ?thesis
  proof (cases rule: inherit_cases)
    case 1
    have "reads_ok ext (read_start nothing_inherited inbox)" using fresh 1 by blast
    moreover have "ih_first nothing_inherited = length (ih_events nothing_inherited)"
      by (simp add: nothing_inherited_def)
    ultimately show ?thesis unfolding 1 by blast
  next
    case (2 l ls e c p t)
    then have ih': "ih = \<lparr>ih_events = take (par_seed p) (se_events t),
        ih_hashes = take (par_seed p) (se_hashes t), ih_first = par_seed p, ih_creation = Some c\<rparr>"
      and le: "par_seed p \<le> length (se_events t)" by (simp_all add: prefix_from_def)
    have "stream_ok ext (take (par_seed p) (se_events t)) (take (par_seed p) (se_hashes t)) inbox"
      using stream_ok_take [OF streamsD [OF op 2(5)]] inbox by (simp add: ih')
    then show ?thesis using le by (simp add: ih' reads_ok_def read_start_def)
  qed
qed

lemma open_inner_loaded_Inr:
  "open_inner_loaded ext store root op name = Inr s \<longleftrightarrow>
     (\<exists>raw ih inbox st.
        log_text store (root, name) = Inr raw
        \<and> inherit ext op (\<lambda>p. store (root, p) \<noteq> None) name (log_lines raw) = Inr ih
        \<and> project_inbox (lx_labels ext) (ih_events ih) = Inr inbox
        \<and> try_fold (read_line ext (ih_first ih)) (read_start ih inbox)
            (List.enumerate 0 (log_lines raw)) = Inr st
        \<and> read_checks ext (rd_events st) = Inr ()
        \<and> s = opened (root, name) (ih_first ih) (length raw) st)"
  by (auto simp: open_inner_loaded_def)

lemma open_inner_loaded_ok:
  assumes opens: "open_inner_loaded ext store root op name = Inr s"
    and op: "streams ext op"
    and name: "valid_session_component name"
  shows "session_ok ext s \<and> session_key s = (root, name) \<and> se_writer s = None \<and> se_published s = []
    \<and> (\<exists>raw ih inbox. log_text store (root, name) = Inr raw \<and> se_bytes s = length raw
         \<and> inherit ext op (\<lambda>p. store (root, p) \<noteq> None) name (log_lines raw) = Inr ih
         \<and> project_inbox (lx_labels ext) (ih_events ih) = Inr inbox \<and> ih_first ih = se_first s
         \<and> length (se_events s) = se_first s + length (log_lines raw)
         \<and> try_fold (read_line ext (se_first s)) (read_start ih inbox)
             (List.enumerate 0 (log_lines raw)) = Inr (session_state s))"
proof -
  from opens obtain raw ih inbox st where parts:
    "log_text store (root, name) = Inr raw"
    "inherit ext op (\<lambda>p. store (root, p) \<noteq> None) name (log_lines raw) = Inr ih"
    "project_inbox (lx_labels ext) (ih_events ih) = Inr inbox"
    "try_fold (read_line ext (ih_first ih)) (read_start ih inbox) (List.enumerate 0 (log_lines raw)) = Inr st"
    "read_checks ext (rd_events st) = Inr ()"
    "s = opened (root, name) (ih_first ih) (length raw) st"
    unfolding open_inner_loaded_Inr by blast
  from reads_ok_start [OF parts(2) op parts(3)]
  have start: "reads_ok ext (read_start ih inbox)" "ih_first ih = length (rd_events (read_start ih inbox))"
    by (auto simp: read_start_def)
  from read_fold_ok [OF start(1) _ parts(4)] start(2)
  have st: "reads_ok ext st" "length (rd_events st) = ih_first ih + length (log_lines raw)" by simp_all
  have "session_state s = st"
    using reads_ok_stream [OF st(1)] by (simp add: session_state_def parts(6) opened_def)
  with parts st name show ?thesis
    by (auto simp: session_ok_def opened_def reads_ok_def)
qed

lemma open_inner_ok:
  "open_inner room ext store root visited name = Inr s \<Longrightarrow>
   session_ok ext s \<and> session_key s = (root, name)"
proof (induction room arbitrary: visited name s)
  case 0
  then show ?case by simp
next
  case (Suc room)
  have "streams ext (open_inner room ext store root (name # visited))"
    unfolding streams_def using Suc.IH session_ok_def by blast
  moreover from Suc.prems have "valid_session_component name"
    "open_inner_loaded ext store root (open_inner room ext store root (name # visited)) name = Inr s"
    by simp_all
  ultimately show ?case using open_inner_loaded_ok by blast
qed

lemma open_inner_streams: "streams ext (open_inner room ext store root visited)"
  unfolding streams_def using open_inner_ok session_ok_def by blast

section \<open>Independence of the descendants\<close>

lemma inherit_mono:
  assumes "inherit ext op present name lines = Inr ih"
    and "\<And>p t. op p = Inr t \<Longrightarrow> p \<noteq> name \<Longrightarrow> \<exists>t'. op' p = Inr t' \<and>
      (\<forall>e c q. par_id q = p \<longrightarrow> prefix_from ext name e c q t ih \<longrightarrow> prefix_from ext name e c q t' ih)"
    and "\<And>p. present p \<Longrightarrow> present' p"
  shows "inherit ext op' present' name lines = Inr ih"
proof (cases lines)
  case Nil
  with assms(1) show ?thesis by simp
next
  case (Cons l ls)
  from assms(1) [unfolded Cons inherit_Cons] obtain e where e:
    "parse_line_unsequenced ext 1 l = Inr e"
    "case fork_origin e of None \<Rightarrow> ih = nothing_inherited
     | Some (c, p) \<Rightarrow> present (par_id p) \<and> (\<exists>t. op (par_id p) = Inr t \<and> prefix_from ext name e c p t ih)"
    by blast
  have "present' (par_id p) \<and> (\<exists>t. op' (par_id p) = Inr t \<and> prefix_from ext name e c p t ih)"
    if p: "fork_origin e = Some (c, p)" for c p
  proof -
    from e(2) p obtain t where t: "present (par_id p)" "op (par_id p) = Inr t"
      "prefix_from ext name e c p t ih" by auto
    then have "par_id p \<noteq> name" by (simp add: prefix_from_def)
    with assms(2) [OF t(2)] t assms(3) show ?thesis by blast
  qed
  with e show ?thesis unfolding Cons inherit_Cons by (auto split: option.splits)
qed

lemma inherit_det:
  assumes "inherit ext op present name lines = Inr ih" "inherit ext op' present' name lines = Inr ih'"
    and det: "\<And>p t t'. op p = Inr t \<Longrightarrow> op' p = Inr t' \<Longrightarrow> t = t'"
  shows "ih = ih'"
proof (cases lines)
  case Nil
  with assms show ?thesis by simp
next
  case (Cons l ls)
  from assms(1,2) show ?thesis
    unfolding Cons inherit_Cons
    by (auto split: option.splits prod.splits dest: det simp: prefix_from_def)
qed

lemma open_inner_det:
  "open_inner room ext store root visited name = Inr s \<Longrightarrow>
   open_inner room' ext store root visited' name = Inr s' \<Longrightarrow> s = s'"
proof (induction room arbitrary: room' visited visited' name s s')
  case 0
  then show ?case by simp
next
  case (Suc room)
  obtain n' where n': "room' = Suc n'" using Suc.prems(2) by (cases room') auto
  let ?op = "open_inner room ext store root (name # visited)"
  let ?op' = "open_inner n' ext store root (name # visited')"
  from Suc.prems n' have
    "open_inner_loaded ext store root ?op name = Inr s"
    "open_inner_loaded ext store root ?op' name = Inr s'" by simp_all
  then obtain raw ih inbox st ih' inbox' st' where
    a: "log_text store (root, name) = Inr raw"
      "inherit ext ?op (\<lambda>p. store (root, p) \<noteq> None) name (log_lines raw) = Inr ih"
      "project_inbox (lx_labels ext) (ih_events ih) = Inr inbox"
      "try_fold (read_line ext (ih_first ih)) (read_start ih inbox) (List.enumerate 0 (log_lines raw)) = Inr st"
      "s = opened (root, name) (ih_first ih) (length raw) st"
    and b: "inherit ext ?op' (\<lambda>p. store (root, p) \<noteq> None) name (log_lines raw) = Inr ih'"
      "project_inbox (lx_labels ext) (ih_events ih') = Inr inbox'"
      "try_fold (read_line ext (ih_first ih')) (read_start ih' inbox') (List.enumerate 0 (log_lines raw)) = Inr st'"
      "s' = opened (root, name) (ih_first ih') (length raw) st'"
    unfolding open_inner_loaded_Inr by auto
  have "ih = ih'" by (rule inherit_det [OF a(2) b(1)]) (rule Suc.IH)
  with a b show ?case by auto
qed

section \<open>Appending lines to a log\<close>

lemma log_text_Inr:
  "log_text store key = Inr raw \<longleftrightarrow>
     store key = Some (StoredDir (LogFile raw)) \<and> length raw \<le> max_session_log_bytes
     \<and> valid_utf8 raw \<and> complete_text raw"
proof -
  have "raw = [] \<or> last raw = newline \<longleftrightarrow> \<not> (raw \<noteq> [] \<and> last raw \<noteq> newline)" for raw by blast
  then show ?thesis
    unfolding complete_text_def
    by (auto simp: log_text_def not_less split: option.splits stored.splits log_file.splits)
qed

text \<open>The first line of an extended log: unchanged unless the log was empty.\<close>

definition no_fork_first :: "log_ext \<Rightarrow> string list \<Rightarrow> bool" where
  "no_fork_first ext lines \<longleftrightarrow>
     (case lines of [] \<Rightarrow> True
      | line # _ \<Rightarrow> (\<exists>e. parse_line_unsequenced ext 1 line = Inr e \<and> fork_origin e = None))"

lemma inherit_append:
  assumes "inherit ext op present name lines = Inr ih"
    and "lines = [] \<Longrightarrow> no_fork_first ext ls"
  shows "inherit ext op present name (lines @ ls) = Inr ih"
  using assms
  by (cases lines; cases ls) (auto simp: inherit_Cons no_fork_first_def)

lemma enumerate_append_map:
  "List.enumerate n (xs @ ys) = List.enumerate n xs @ List.enumerate (n + length xs) ys"
  by (rule enumerate_append_eq)

lemma open_inner_loaded_append:
  assumes opens: "open_inner_loaded ext store root op name = Inr s"
    and stream: "streams ext op"
    and name: "valid_session_component name"
    and op': "\<And>p t. op p = Inr t \<Longrightarrow> p \<noteq> name \<Longrightarrow> op' p = Inr t"
    and raw: "store (root, name) = Some (StoredDir (LogFile raw))"
    and lines: "\<And>l. l \<in> set ls \<Longrightarrow> newline \<notin> set l \<and> valid_utf8 l"
    and bytes: "length (raw @ text_of_lines ls) \<le> max_session_log_bytes"
    and first: "log_lines raw = [] \<Longrightarrow> no_fork_first ext ls"
    and fold: "try_fold (read_line ext (se_first s)) (session_state s)
      (List.enumerate (length (se_events s) - se_first s) ls) = Inr st"
    and checks: "read_checks ext (rd_events st) = Inr ()"
  shows "open_inner_loaded ext (store((root, name) \<mapsto> StoredDir (LogFile (raw @ text_of_lines ls)))) root op' name
    = Inr (opened (root, name) (se_first s) (length (raw @ text_of_lines ls)) st)"
proof -
  let ?store = "store((root, name) \<mapsto> StoredDir (LogFile (raw @ text_of_lines ls)))"
  from open_inner_loaded_ok [OF opens stream name]
  obtain raw' ih inbox where parts': "log_text store (root, name) = Inr raw'"
    "inherit ext op (\<lambda>p. store (root, p) \<noteq> None) name (log_lines raw') = Inr ih"
    "project_inbox (lx_labels ext) (ih_events ih) = Inr inbox" "ih_first ih = se_first s"
    "length (se_events s) = se_first s + length (log_lines raw')"
    "try_fold (read_line ext (se_first s)) (read_start ih inbox) (List.enumerate 0 (log_lines raw'))
       = Inr (session_state s)"
    by blast
  have "raw' = raw" using parts'(1) raw by (simp add: log_text_Inr)
  note parts = parts' [unfolded this]
  have complete: "complete_text raw" "valid_utf8 raw" using parts(1) by (simp_all add: log_text_Inr)
  have log: "log_text ?store (root, name) = Inr (raw @ text_of_lines ls)"
    using complete lines bytes
    by (simp add: log_text_Inr valid_utf8_append valid_utf8_text_of_lines complete_text_of_lines)
  have split: "log_lines (raw @ text_of_lines ls) = log_lines raw @ ls"
    using log_lines_append [OF complete(1)] lines by blast
  have "inherit ext op' (\<lambda>p. ?store (root, p) \<noteq> None) name (log_lines raw @ ls) = Inr ih"
    by (rule inherit_append [OF inherit_mono [OF parts(2)] first]) (use op' in auto)
  moreover have "try_fold (read_line ext (ih_first ih)) (read_start ih inbox)
      (List.enumerate 0 (log_lines raw @ ls)) = Inr st"
    using fold parts(5,6) by (simp add: enumerate_append_map try_fold_append parts(4))
  ultimately show ?thesis
    unfolding open_inner_loaded_Inr using log split parts(3,4) checks by auto
qed

end
