(* ===== verification/Writer_Laws.thy ===== *)
theory Writer_Laws
  imports Session_Writer Reader_Laws
begin

text \<open>
  The writer keeps what the reader demands: what a session appends, the reader accepts and
  extends the session with, and no other session of the store reads differently. The
  hypothesis about serde\_json is \<open>faithful_codec\<close>, on the events it prints exactly.
\<close>

section \<open>The codec\<close>

text \<open>
  serde\_json reads back what it prints, on one line, with these exceptions: a number that is no
  integer may change; \<open>Some(Value::Null)\<close> of an \<open>Option<Value>\<close> field
  prints as \<open>null\<close>, which reads as \<open>None\<close>; and its reader, unlike its
  printer, stops at a nesting of 128 levels. A kind is exact when it avoids all three. An integer
  of a \<open>Value\<close> is an \<open>i64\<close> or a \<open>u64\<close>, and its maps are sorted by
  their keys. The nesting of a line is that of its values plus that of the records around them,
  which is less than 27 for every kind; so values of up to 100 levels stay readable.
\<close>

definition payload_depth :: nat where
  "payload_depth = 100"

fun json_prints :: "json \<Rightarrow> bool" where
  "json_prints (JNumber text) = False"
| "json_prints (JInt i) = (- (2 ^ 63) \<le> i \<and> i < 2 ^ 64)"
| "json_prints (JArray js) = list_all json_prints js"
| "json_prints (JObject kvs) =
     (sorted_wrt (<) (map fst kvs) \<and> list_all (\<lambda>f. json_prints (snd f)) kvs)"
| "json_prints _ = True"

definition json_exact :: "json \<Rightarrow> bool" where
  "json_exact j \<longleftrightarrow> json_prints j \<and> json_depth j \<le> payload_depth"

definition present_exact :: "json option \<Rightarrow> bool" where
  "present_exact j = (case j of None \<Rightarrow> True | Some v \<Rightarrow> v \<noteq> JNull \<and> json_exact v)"

fun code_change_exact :: "code_mode_change \<Rightarrow> bool" where
  "code_change_exact (CallStarted run call name args) = json_exact args"
| "code_change_exact (CallFinished run call result err) = present_exact result"
| "code_change_exact (ScriptFinished run result err) = present_exact result"
| "code_change_exact _ = True"

definition header_exact :: "request_header \<Rightarrow> bool" where
  "header_exact h \<longleftrightarrow>
     list_all (\<lambda>t. json_exact (ts_parameters t)) (rh_tools h)
     \<and> list_all (\<lambda>p. json_exact (po_data p)) (ro_provider_options (rh_options h))
     \<and> present_exact (ro_structured (rh_options h)) \<and> ro_temperature (rh_options h) = None"

text \<open>A line is read into a \<open>Value\<close> first, whose integers end at \<open>u64\<close>.\<close>

fun cost_exact :: "usage_cost \<Rightarrow> bool" where
  "cost_exact CostUnknown = True"
| "cost_exact (CostPublished currency pico) = (pico \<le> u64_max)"

abbreviation members_exact :: "(string \<times> json) list \<Rightarrow> bool" where
  "members_exact kvs \<equiv> list_all (\<lambda>f. json_exact (snd f)) kvs"

definition metadata_exact :: "block_metadata \<Rightarrow> bool" where
  "metadata_exact m \<longleftrightarrow>
     members_exact (bm_extensions m) \<and> members_exact (an_extensions (bm_annotations m))
     \<and> (case an_priority (bm_annotations m) of None \<Rightarrow> True | Some p \<Rightarrow> json_exact p)"

fun block_exact :: "result_block \<Rightarrow> bool" where
  "block_exact (BlockText body m) = metadata_exact m"
| "block_exact (BlockImage media m) = metadata_exact m"
| "block_exact (BlockAudio media m) = metadata_exact m"
| "block_exact (BlockLink l) = metadata_exact (rl_metadata l)"
| "block_exact (BlockEmbeddedText uri mime body exts m) = (members_exact exts \<and> metadata_exact m)"
| "block_exact (BlockEmbeddedBlob uri media exts m) = (members_exact exts \<and> metadata_exact m)"

definition rich_exact :: "rich_result \<Rightarrow> bool" where
  "rich_exact r \<longleftrightarrow>
     list_all block_exact (rr_blocks r) \<and> members_exact (rr_extensions r)
     \<and> (case rr_structured r of StructuredAbsent \<Rightarrow> True | StructuredPresent j \<Rightarrow> json_exact j)"

fun kind_exact :: "session_event_kind \<Rightarrow> bool" where
  "kind_exact (RuntimeConfigured state prompt tools model effort) =
     (case tools of None \<Rightarrow> True | Some ts \<Rightarrow> list_all (\<lambda>t. json_exact (ts_parameters t)) ts)"
| "kind_exact (WorkflowChange change) = list_all json_exact (workflow_values change)"
| "kind_exact (WorkChange change) =
     list_all (\<lambda>f. json_exact (snd f)) (wif_metadata (wi_fields (wc_item change)))"
| "kind_exact (CodeModeChange change) = code_change_exact change"
| "kind_exact (RequestHeader turn step request h) = header_exact h"
| "kind_exact (AssistantProviderItem turn step request idx item) = json_exact (ps_data item)"
| "kind_exact (ServerToolCall turn step request idx call) = json_exact (sv_input call)"
| "kind_exact (ServerToolUsage turn step request usage) = cost_exact (su_cost usage)"
| "kind_exact (ToolCall turn call name j) = json_exact j"
| "kind_exact (RichToolResult call result is_error boundary) = rich_exact result"
| "kind_exact (NativeCompactionApplied strategy n items usage) =
     list_all (\<lambda>item. json_exact (ps_data item)) items"
| "kind_exact _ = True"

definition line_of :: "log_ext \<Rightarrow> session_event \<Rightarrow> string \<Rightarrow> bool" where
  "line_of ext e line \<longleftrightarrow>
     lx_head ext line = Some (ev_v e, ev_seq e, ev_time e, kind_name (ev_kind e))
     \<and> lx_kind ext line = Some (ev_kind e) \<and> newline \<notin> set line \<and> valid_utf8 line"

text \<open>
  What is relied on of serde\_json: it prints an event on one line of UTF-8; and of an event whose
  values are exact, the line it prints reads back as that event. Some properties need the second
  only for kinds that hold no JSON value at all, such as creation records.
\<close>

definition prints_lines :: "log_ext \<Rightarrow> bool" where
  "prints_lines ext \<longleftrightarrow>
     (\<forall>e line. lx_encode ext e = Some line \<longrightarrow> newline \<notin> set line \<and> valid_utf8 line)"

definition faithful_for :: "(session_event_kind \<Rightarrow> bool) \<Rightarrow> log_ext \<Rightarrow> bool" where
  "faithful_for kinds ext \<longleftrightarrow>
     (\<forall>e line. lx_encode ext e = Some line \<longrightarrow> ev_v e = current_session_log_version \<longrightarrow>
        validate_for_version (lx_payload ext) current_session_log_version (ev_kind e) = Inr () \<longrightarrow>
        kinds (ev_kind e) \<longrightarrow> line_of ext e line)"

definition faithful_codec :: "log_ext \<Rightarrow> bool" where
  "faithful_codec ext \<longleftrightarrow> faithful_for kind_exact ext"

lemma faithful_forD:
  "faithful_for kinds ext \<Longrightarrow> lx_encode ext e = Some line \<Longrightarrow> ev_v e = current_session_log_version \<Longrightarrow>
   validate_for_version (lx_payload ext) current_session_log_version (ev_kind e) = Inr () \<Longrightarrow>
   kinds (ev_kind e) \<Longrightarrow> line_of ext e line"
  by (simp add: faithful_for_def)

lemma codec_creations: "faithful_codec ext \<Longrightarrow> faithful_for is_creation ext"
proof -
  have "is_creation k \<Longrightarrow> kind_exact k" for k by (cases k) simp_all
  then show "faithful_codec ext \<Longrightarrow> ?thesis" unfolding faithful_codec_def faithful_for_def by blast
qed

section \<open>Neighbour rules, one event at a time\<close>

lemma admitted_append: "admitted events a \<Longrightarrow> admitted (events @ more_events) a"
  by (simp add: admitted_def)

lemma selection_append:
  "validate_selection_against_events events k = Inr () \<Longrightarrow>
   validate_selection_against_events (events @ es) k = Inr ()"
  by (auto simp: validate_selection_against_events_def admitted_append split: session_event_kind.splits)

lemma audio_append:
  "validate_assistant_audio_against_events events k = Inr () \<Longrightarrow>
   validate_assistant_audio_against_events (events @ es) k = Inr ()"
  by (auto simp: validate_assistant_audio_against_events_def admitted_append
      split: session_event_kind.splits)

definition backward_ok :: "session_event list \<Rightarrow> session_event_kind \<Rightarrow> bool" where
  "backward_ok events k \<longleftrightarrow>
     (is_selection k \<longrightarrow> validate_selection_against_events events k = Inr ())
     \<and> (is_audio_output k \<longrightarrow> validate_assistant_audio_against_events events k = Inr ())"

lemma backward_ok_append: "backward_ok events k \<Longrightarrow> backward_ok (events @ es) k"
  by (auto simp: backward_ok_def intro: selection_append audio_append)

lemma backward_ok_iff:
  "(case k of
      AssistantAudio turn step request attachments \<Rightarrow>
        map_err BadNeighbour (validate_assistant_audio_against_events events k)
    | UserAttachments attachments routes \<Rightarrow>
        map_err BadNeighbour (validate_selection_against_events events k)
    | _ \<Rightarrow> Inr ()) = Inr () \<longleftrightarrow> backward_ok events k"
  by (cases k) (simp_all add: backward_ok_def)

lemma validate_against_events_Inr:
  "validate_against_events ext events k = Inr () \<longleftrightarrow>
     validate_code_mode ext events k = Inr () \<and> backward_ok events k"
  unfolding validate_against_events_def and_then_Inr backward_ok_iff by auto

text \<open>The numbered log sees before each event exactly the events in front of it.\<close>

definition all_backward_ok :: "session_event list \<Rightarrow> bool" where
  "all_backward_ok events \<longleftrightarrow> (\<forall>i < length events. backward_ok (take i events) (ev_kind (events ! i)))"

lemma all_backward_ok_snoc:
  "all_backward_ok (events @ [e]) \<longleftrightarrow> all_backward_ok events \<and> backward_ok events (ev_kind e)"
  by (auto simp: all_backward_ok_def nth_append less_Suc_eq)

lemma all_backward_ok_append:
  "all_backward_ok events \<Longrightarrow> list_all (\<lambda>e. backward_ok events (ev_kind e)) es \<Longrightarrow>
   all_backward_ok (events @ es)"
proof (induction es rule: rev_induct)
  case (snoc e es)
  then have "all_backward_ok ((events @ es) @ [e])"
    unfolding all_backward_ok_snoc by (simp add: backward_ok_append)
  then show ?case by simp
qed simp

lemma numbered_before:
  assumes "numbered events" "i < length events"
  shows "events_before events (ev_seq (events ! i)) = take i events"
proof -
  have "map ev_seq events ! i = [0..<length events] ! i" using assms(1) by (simp add: numbered_def)
  then have "ev_seq (events ! i) = i" using assms(2) by simp
  with assms(2) show ?thesis by (simp add: events_before_def)
qed

lemma selection_step_Inr:
  "selection_step events state e = Inr state' \<longleftrightarrow>
     advance_pairing state (ev_kind e) = Inr state'
     \<and> (is_selection (ev_kind e) \<longrightarrow>
          validate_selection_against_events (events_before events (ev_seq e)) (ev_kind e) = Inr ())"
  by (auto simp: selection_step_def)

lemma selection_fold_Inr:
  "try_fold (selection_step events) state es = Inr state' \<longleftrightarrow>
     try_fold advance_pairing state (map ev_kind es) = Inr state'
     \<and> (\<forall>e \<in> set es. is_selection (ev_kind e) \<longrightarrow>
          validate_selection_against_events (events_before events (ev_seq e)) (ev_kind e) = Inr ())"
proof (induction es arbitrary: state)
  case (Cons e es)
  show ?case
    unfolding try_fold.simps list.map and_then_Inr selection_step_Inr Cons.IH list.set by blast
qed auto

lemma neighbours_Inr:
  assumes "numbered events"
  shows "validate_user_attachment_sequence events = Inr () \<and> validate_assistant_audio_sequence events = Inr ()
    \<longleftrightarrow> settle_pairing (map ev_kind events) = Inr () \<and> all_backward_ok events"
proof -
  have sel: "(\<forall>e \<in> set events. is_selection (ev_kind e) \<longrightarrow>
        validate_selection_against_events (events_before events (ev_seq e)) (ev_kind e) = Inr ())
      \<longleftrightarrow> (\<forall>i < length events. is_selection (ev_kind (events ! i)) \<longrightarrow>
        validate_selection_against_events (take i events) (ev_kind (events ! i)) = Inr ())"
    unfolding all_set_conv_all_nth by (simp add: numbered_before [OF assms] cong: conj_cong imp_cong)
  have aud: "(\<forall>e \<in> set events. is_audio_output (ev_kind e) \<longrightarrow>
        validate_assistant_audio_against_events (events_before events (ev_seq e)) (ev_kind e) = Inr ())
      \<longleftrightarrow> (\<forall>i < length events. is_audio_output (ev_kind (events ! i)) \<longrightarrow>
        validate_assistant_audio_against_events (take i events) (ev_kind (events ! i)) = Inr ())"
    unfolding all_set_conv_all_nth by (simp add: numbered_before [OF assms] cong: conj_cong imp_cong)
  have "validate_assistant_audio_sequence events = Inr () \<longleftrightarrow>
      (\<forall>e \<in> set events. is_audio_output (ev_kind e) \<longrightarrow>
        validate_assistant_audio_against_events (events_before events (ev_seq e)) (ev_kind e) = Inr ())"
    unfolding validate_assistant_audio_sequence_def try_all_Inr by (simp split: if_splits)
  moreover have "validate_user_attachment_sequence events = Inr () \<longleftrightarrow>
      settle_pairing (map ev_kind events) = Inr ()
      \<and> (\<forall>e \<in> set events. is_selection (ev_kind e) \<longrightarrow>
        validate_selection_against_events (events_before events (ev_seq e)) (ev_kind e) = Inr ())"
    unfolding validate_user_attachment_sequence_def settle_pairing_def and_then_Inr selection_fold_Inr
      refuse_if_Inr by blast
  ultimately show ?thesis
    unfolding sel aud all_backward_ok_def backward_ok_def by blast
qed

lemma settle_pairing_append:
  "settle_pairing ks = Inr () \<Longrightarrow> settle_pairing (ks @ ks') = settle_pairing ks'"
  unfolding settle_pairing_def and_then_Inr refuse_if_Inr try_fold_append
  by (metis (full_types) and_then.simps(2) pairing_state.exhaust)

lemma read_checks_Inr:
  assumes "numbered events"
  shows "read_checks ext events = Inr () \<longleftrightarrow>
    is_ok (project_code_mode (lx_code_len ext) events)
    \<and> settle_pairing (map ev_kind events) = Inr () \<and> all_backward_ok events"
  using neighbours_Inr [OF assms] unfolding read_checks_def is_ok_iff by auto

text \<open>What a batch must satisfy for the checks after the last line.\<close>

fun is_code_mode :: "session_event_kind \<Rightarrow> bool" where
  "is_code_mode (CodeModeChange change) = True"
| "is_code_mode _ = False"

lemma code_mode_quiet:
  "list_all (\<lambda>e. \<not> is_code_mode (ev_kind e)) es \<Longrightarrow> try_fold (code_mode_event len) p es = Inr p"
proof (induction es)
  case (Cons e es)
  then have "code_mode_event len p e = Inr p" by (cases "ev_kind e") (auto simp: code_mode_event_def)
  with Cons show ?case by simp
qed simp

lemma project_code_mode_quiet:
  "list_all (\<lambda>e. \<not> is_code_mode (ev_kind e)) es \<Longrightarrow>
   project_code_mode len (events @ es) = project_code_mode len events"
  by (cases "project_code_mode len events")
    (simp_all add: project_code_mode_def try_fold_append code_mode_quiet)

lemma project_code_mode_one:
  assumes "validate_code_mode ext events (ev_kind e) = Inr ()"
    and "is_ok (project_code_mode (lx_code_len ext) events)"
  shows "is_ok (project_code_mode (lx_code_len ext) (events @ [e]))"
proof (cases "is_code_mode (ev_kind e)")
  case True
  then obtain change where change: "ev_kind e = CodeModeChange change" by (cases "ev_kind e") auto
  with assms(1) show ?thesis
    unfolding project_code_mode_snoc by (auto simp: validate_code_mode_def code_mode_event_def is_ok_iff)
next
  case False
  with assms(2) show ?thesis by (simp add: project_code_mode_quiet)
qed

end
