(* ===== verification/Append_Laws.thy ===== *)
theory Append_Laws
  imports Writer_Laws
begin

text \<open>
  Every append that succeeds leaves a log that reopens to the session the handle holds, and
  leaves every other session of the store as it reads.
\<close>

section \<open>An accepted line\<close>

lemma last_version_le: "stream_ok ext events hashes inbox \<Longrightarrow> last_version events = Some v \<Longrightarrow> v \<le> 2"
proof -
  assume "stream_ok ext events hashes inbox" "last_version events = Some v"
  then have "versions_ok events" "events \<noteq> []" "v = ev_v (last events)"
    by (auto simp: stream_ok_def last_version_def split: if_splits)
  then have "v = 1 \<or> v = 2" by (auto simp: versions_ok_def list_all_iff)
  then show ?thesis by auto
qed

lemma creation_step_other: "\<not> is_creation (ev_kind e) \<Longrightarrow> creation_step idx e c = Inr c"
  by (cases "ev_kind e") (simp_all add: creation_step_def)

lemma parse_written:
  assumes "line_of ext e line" "ev_v e = current_session_log_version"
    and "validate_for_version (lx_payload ext) current_session_log_version (ev_kind e) = Inr ()"
  shows "parse_line_unsequenced ext n line = Inr e"
  using assms kind_name_known [of "ev_kind e"]
  unfolding parse_line_unsequenced_Inr line_of_def
  by (auto simp: known_kinds_def current_session_log_version_def)

lemma read_line_accepts:
  assumes line: "line_of ext e line" and v: "ev_v e = current_session_log_version"
    and payload: "validate_for_version (lx_payload ext) current_session_log_version (ev_kind e) = Inr ()"
    and boundary: "validate_compaction_boundary (ev_kind e) (ev_seq e) = Inr ()"
    and inbox: "inbox_validate_event (lx_labels ext) (rd_inbox st) e = Inr sp"
    and seq: "ev_seq e = length (rd_events st)" "first + idx = length (rd_events st)"
      "length (rd_events st) < max_logical_session_events"
    and ok: "reads_ok ext st" and creation: "creation_step idx e (rd_creation st) = Inr c"
  shows "read_line ext first st (idx, line) = Inr
    (stream_state (rd_events st @ [e]) (rd_hashes st @ [event_leaf_sha256 ext line])
       (commit_inbox e sp (rd_inbox st)) c)"
proof -
  have "first + idx \<le> u64_max"
    using seq by (simp add: max_logical_session_events_def u64_max_def)
  moreover have "parse_line ext (idx + 1) line (first + idx) = Inr e"
    using parse_written [OF line v payload] boundary seq by (simp add: parse_line_Inr)
  moreover have "case rd_previous st of None \<Rightarrow> True | Some w \<Rightarrow> w \<le> ev_v e"
    using ok v last_version_le
    by (auto simp: reads_ok_def current_session_log_version_def split: option.splits)
  moreover have "inbox_apply_event (lx_labels ext) (rd_inbox st) e = Inr (commit_inbox e sp (rd_inbox st))"
    using inbox by (simp add: inbox_apply_event_def commit_inbox_def)
  ultimately show ?thesis
    using creation seq(3) unfolding read_line_Inr stream_state_def last_version_snoc by auto
qed

section \<open>An accepted batch\<close>

lemma codecD:
  "faithful_codec ext \<Longrightarrow> lx_encode ext e = Some line \<Longrightarrow> ev_v e = current_session_log_version \<Longrightarrow>
   validate_for_version (lx_payload ext) current_session_log_version (ev_kind e) = Inr () \<Longrightarrow>
   kind_exact (ev_kind e) \<Longrightarrow> line_of ext e line"
  unfolding faithful_codec_def by (rule faithful_forD)

lemma stamp_simps [simp]:
  "ev_v (stamp now seq k) = current_session_log_version" "ev_seq (stamp now seq k) = seq"
  "ev_kind (stamp now seq k) = k"
  by (simp_all add: stamp_def)

lemma prepare_batch_Cons:
  "prepare_batch ext clock s offset inbox (k # ks) = Inr (rows, inbox') \<longleftrightarrow>
     (\<exists>sp line rest.
        validate_for_version (lx_payload ext) current_session_log_version k = Inr ()
        \<and> validate_against_events ext (se_events s) k = Inr ()
        \<and> validate_compaction_boundary k (saturating_add_u64 (length (se_events s)) offset) = Inr ()
        \<and> inbox_validate_event (lx_labels ext) inbox
            (stamp (clock offset) (saturating_add_u64 (length (se_events s)) offset) k) = Inr sp
        \<and> lx_encode ext (stamp (clock offset) (saturating_add_u64 (length (se_events s)) offset) k) = Some line
        \<and> prepare_batch ext clock s (offset + 1)
            (commit_inbox (stamp (clock offset) (saturating_add_u64 (length (se_events s)) offset) k) sp inbox) ks
            = Inr (rest, inbox')
        \<and> rows = (stamp (clock offset) (saturating_add_u64 (length (se_events s)) offset) k, line) # rest)"
  unfolding prepare_batch.simps Let_def and_then_Inr validate_payload_def validate_boundary_def
    validate_inbox_def map_err_Inr ok_or_Inr stamp_simps
  by (auto split: prod.splits)

definition small_enough :: "nat \<Rightarrow> bool" where
  "small_enough n \<longleftrightarrow> n \<le> max_logical_session_events"

lemma saturating_small: "a + b \<le> max_logical_session_events \<Longrightarrow> saturating_add_u64 a b = a + b"
  by (simp add: saturating_add_u64_def max_logical_session_events_def u64_max_def)

lemma batch_accepted:
  assumes codec: "faithful_codec ext"
  shows "prepare_batch ext clock s offset (rd_inbox st) kinds = Inr (rows, inbox') \<Longrightarrow>
    reads_ok ext st \<Longrightarrow> length (rd_events st) = length (se_events s) + offset \<Longrightarrow>
    first + idx = length (rd_events st) \<Longrightarrow>
    length (rd_events st) + length kinds \<le> max_logical_session_events \<Longrightarrow>
    list_all (\<lambda>k. kind_exact k \<and> \<not> is_creation k) kinds \<Longrightarrow>
    try_fold (read_line ext first) st (List.enumerate idx (map snd rows)) =
      Inr (stream_state (rd_events st @ map fst rows)
        (rd_hashes st @ map (\<lambda>r. event_leaf_sha256 ext (snd r)) rows) inbox' (rd_creation st))
    \<and> map (\<lambda>r. ev_kind (fst r)) rows = kinds
    \<and> (\<forall>r \<in> set rows. line_of ext (fst r) (snd r) \<and> ev_v (fst r) = current_session_log_version)
    \<and> list_all (\<lambda>k. validate_against_events ext (se_events s) k = Inr ()) kinds"
proof (induction kinds arbitrary: offset st rows idx)
  case Nil
  then show ?case using reads_ok_stream [of ext st] by simp
next
  case (Cons k ks)
  let ?n = "length (se_events s)"
  have sat: "saturating_add_u64 ?n offset = ?n + offset"
    using Cons.prems(3,5) by (intro saturating_small) simp
  let ?e = "stamp (clock offset) (?n + offset) k"
  from Cons.prems(1) obtain sp line rest where k:
    "validate_for_version (lx_payload ext) current_session_log_version k = Inr ()"
    "validate_against_events ext (se_events s) k = Inr ()"
    "validate_compaction_boundary k (?n + offset) = Inr ()"
    "inbox_validate_event (lx_labels ext) (rd_inbox st) ?e = Inr sp"
    "lx_encode ext ?e = Some line"
    "prepare_batch ext clock s (offset + 1) (commit_inbox ?e sp (rd_inbox st)) ks = Inr (rest, inbox')"
    "rows = (?e, line) # rest"
    unfolding prepare_batch_Cons sat by blast
  have kind: "kind_exact k" "\<not> is_creation k" using Cons.prems(6) by simp_all
  have line: "line_of ext ?e line" using codecD [OF codec k(5)] k(1) kind(1) by simp
  let ?st = "stream_state (rd_events st @ [?e]) (rd_hashes st @ [event_leaf_sha256 ext line])
    (commit_inbox ?e sp (rd_inbox st)) (rd_creation st)"
  have step: "read_line ext first st (idx, line) = Inr ?st"
    by (rule read_line_accepts [OF line _ _ _ k(4)])
      (use k kind Cons.prems in \<open>simp_all add: creation_step_other\<close>)
  have ok: "reads_ok ext ?st" using read_line_ok [OF Cons.prems(2) step Cons.prems(4)] by blast
  have state: "rd_inbox ?st = commit_inbox ?e sp (rd_inbox st)" "rd_creation ?st = rd_creation st"
    "rd_events ?st = rd_events st @ [?e]" "rd_hashes ?st = rd_hashes st @ [event_leaf_sha256 ext line]"
    by (simp_all add: stream_state_def)
  have "try_fold (read_line ext first) ?st (List.enumerate (Suc idx) (map snd rest)) =
      Inr (stream_state (rd_events ?st @ map fst rest)
        (rd_hashes ?st @ map (\<lambda>r. event_leaf_sha256 ext (snd r)) rest) inbox' (rd_creation ?st))
    \<and> map (\<lambda>r. ev_kind (fst r)) rest = ks
    \<and> (\<forall>r \<in> set rest. line_of ext (fst r) (snd r) \<and> ev_v (fst r) = current_session_log_version)
    \<and> list_all (\<lambda>k. validate_against_events ext (se_events s) k = Inr ()) ks"
    by (rule Cons.IH [where offset = "offset + 1", OF _ ok])
      (use k(6) Cons.prems in \<open>simp_all add: state\<close>)
  then show ?case using step line k(2) by (simp add: k(7) state)
qed

section \<open>The store after an append\<close>

text \<open>What a handle claims: its log reads as the handle, up to the lease and the bus.\<close>

definition as_read :: "session \<Rightarrow> session" where
  "as_read s = s\<lparr>se_writer := None, se_published := []\<rparr>"

definition reads_back :: "log_ext \<Rightarrow> store \<Rightarrow> session \<Rightarrow> bool" where
  "reads_back ext store s \<longleftrightarrow> open_session ext store (session_key s) = Inr (as_read s)"

text \<open>Every session that read before still does, and only the written one reads differently.\<close>

definition only_changes :: "log_ext \<Rightarrow> session_key \<Rightarrow> store \<Rightarrow> store \<Rightarrow> bool" where
  "only_changes ext key store store' \<longleftrightarrow>
     (\<forall>key' t. key' \<noteq> key \<longrightarrow> open_session ext store key' = Inr t \<longrightarrow>
        open_session ext store' key' = Inr t)"

lemma open_inner_cong:
  "(\<And>p. store (root, p) = store' (root, p)) \<Longrightarrow>
   open_inner room ext store root visited name = open_inner room ext store' root visited name"
proof (induction room arbitrary: visited name)
  case (Suc room)
  then have "open_inner room ext store root (name # visited) = open_inner room ext store' root (name # visited)"
    by blast
  with Suc.prems show ?case by (simp add: open_inner_loaded_def log_text_def)
qed simp

lemma prefix_from_extended:
  assumes "prefix_from ext name e c p s ih"
    and "take (length (se_events s)) (se_events s') = se_events s"
    and "take (length (se_hashes s)) (se_hashes s') = se_hashes s"
  shows "prefix_from ext name e c p s' ih"
proof -
  let ?n = "par_seed p"
  have le: "?n \<le> length (se_events s)" "?n \<le> length (se_hashes s)"
    using assms(1) by (simp_all add: prefix_from_def)
  have "take ?n (se_events s') = take ?n (take (length (se_events s)) (se_events s'))"
    using le by (simp add: min_def)
  then have ev: "take ?n (se_events s') = take ?n (se_events s)" using assms(2) by simp
  have "take ?n (se_hashes s') = take ?n (take (length (se_hashes s)) (se_hashes s'))"
    using le by (simp add: min_def)
  then have h: "take ?n (se_hashes s') = take ?n (se_hashes s)" using assms(3) by simp
  have "length (se_events s) \<le> length (se_events s')" "length (se_hashes s) \<le> length (se_hashes s')"
    using arg_cong [OF assms(2), of length] arg_cong [OF assms(3), of length] by simp_all
  with le assms(1) ev h show ?thesis by (simp add: prefix_from_def)
qed

lemma open_session_det:
  "open_inner room ext store root visited i = Inr t \<Longrightarrow> open_session ext store (root, i) = Inr s \<Longrightarrow> t = s"
  unfolding open_session_def fst_conv snd_conv by (rule open_inner_det)

text \<open>Whatever opens the parents, the written log now reads as \<open>s'\<close>.\<close>

definition reloads ::
  "log_ext \<Rightarrow> string \<Rightarrow> string \<Rightarrow> store \<Rightarrow> store \<Rightarrow> session \<Rightarrow> session \<Rightarrow> bool" where
  "reloads ext root i store store' s s' \<longleftrightarrow>
     (\<forall>op op'. open_inner_loaded ext store root op i = Inr s \<longrightarrow> streams ext op \<longrightarrow>
        valid_session_component i \<longrightarrow> (\<forall>p t. op p = Inr t \<longrightarrow> p \<noteq> i \<longrightarrow> op' p = Inr t) \<longrightarrow>
        open_inner_loaded ext store' root op' i = Inr s')"

lemma open_inner_extended:
  assumes s: "open_session ext store (root, i) = Inr s"
    and raw: "store (root, i) = Some (StoredDir (LogFile raw))"
    and store': "store' = store((root, i) \<mapsto> StoredDir (LogFile (raw @ text_of_lines ls)))"
    and loaded: "reloads ext root i store store' s s'"
    and ext_events: "take (length (se_events s)) (se_events s') = se_events s"
    and ext_hashes: "take (length (se_hashes s)) (se_hashes s') = se_hashes s"
  shows "open_inner room ext store root visited name = Inr t \<Longrightarrow>
    open_inner room ext store' root visited name = Inr (if name = i then s' else t)"
proof (induction room arbitrary: visited name t)
  case 0
  then show ?case by simp
next
  case (Suc room)
  let ?op = "open_inner room ext store root (name # visited)"
  let ?op' = "open_inner room ext store' root (name # visited)"
  from Suc.prems have name: "valid_session_component name" "name \<notin> set visited"
    and opens: "open_inner_loaded ext store root ?op name = Inr t" by simp_all
  have "open_inner_loaded ext store' root ?op' name = Inr (if name = i then s' else t)"
  proof (cases "name = i")
    case True
    have "t = s" by (rule open_session_det [OF Suc.prems [unfolded True] s])
    with opens True have "open_inner_loaded ext store root ?op i = Inr s" by simp
    with loaded open_inner_streams name True Suc.IH show ?thesis
      unfolding reloads_def by (auto split: if_splits)
  next
    case False
    from opens obtain raw0 ih inbox st where parts:
      "log_text store (root, name) = Inr raw0"
      "inherit ext ?op (\<lambda>p. store (root, p) \<noteq> None) name (log_lines raw0) = Inr ih"
      "project_inbox (lx_labels ext) (ih_events ih) = Inr inbox"
      "try_fold (read_line ext (ih_first ih)) (read_start ih inbox) (List.enumerate 0 (log_lines raw0)) = Inr st"
      "read_checks ext (rd_events st) = Inr ()"
      "t = opened (root, name) (ih_first ih) (length raw0) st"
      unfolding open_inner_loaded_Inr by blast
    have "log_text store' (root, name) = Inr raw0"
      using parts(1) False by (simp add: log_text_def store')
    moreover have "inherit ext ?op' (\<lambda>p. store' (root, p) \<noteq> None) name (log_lines raw0) = Inr ih"
    proof (rule inherit_mono [OF parts(2)])
      fix p u
      assume p: "?op p = Inr u" "p \<noteq> name"
      have "u = s" if "p = i"
        using open_session_det [OF _ s] p(1) that by blast
      with Suc.IH [OF p(1)] prefix_from_extended [OF _ ext_events ext_hashes]
      show "\<exists>t'. ?op' p = Inr t' \<and>
          (\<forall>e c q. par_id q = p \<longrightarrow> prefix_from ext name e c q u ih \<longrightarrow> prefix_from ext name e c q t' ih)"
        by (cases "p = i") auto
    qed (simp add: store')
    ultimately show ?thesis
      unfolding open_inner_loaded_Inr using parts(3-6) False by auto
  qed
  with name show ?case by simp
qed

lemma append_only_changes:
  assumes "open_session ext store (root, i) = Inr s"
    and "store (root, i) = Some (StoredDir (LogFile raw))"
    and "store' = store((root, i) \<mapsto> StoredDir (LogFile (raw @ text_of_lines ls)))"
    and "reloads ext root i store store' s s'"
    and "take (length (se_events s)) (se_events s') = se_events s"
    and "take (length (se_hashes s)) (se_hashes s') = se_hashes s"
  shows "open_session ext store' (root, i) = Inr s' \<and> only_changes ext (root, i) store store'"
proof -
  note extended = open_inner_extended [OF assms]
  have "open_session ext store' (root, i) = Inr s'"
    using extended [OF assms(1) [unfolded open_session_def fst_conv snd_conv]]
    unfolding open_session_def by simp
  moreover have "open_session ext store' key' = Inr t"
    if "key' \<noteq> (root, i)" "open_session ext store key' = Inr t" for key' t
  proof (cases "fst key' = root")
    case True
    then have "snd key' \<noteq> i" using that(1) by (cases key') auto
    then have same: "(if snd key' = i then s' else t) = t" by simp
    show ?thesis
      using extended [OF that(2) [unfolded open_session_def True]] unfolding open_session_def True same .
  next
    case False
    have "open_inner (max_lineage_depth + 1) ext store (fst key') [] (snd key')
        = open_inner (max_lineage_depth + 1) ext store' (fst key') [] (snd key')"
      by (rule open_inner_cong) (use False in \<open>simp add: assms(3)\<close>)
    with that(2) show ?thesis unfolding open_session_def by (rule trans [OF sym, rotated])
  qed
  ultimately show ?thesis unfolding only_changes_def by blast
qed

end
