(* ===== verification/Log_Durability.thy ===== *)
theory Log_Durability
  imports Append_Laws
begin

text \<open>
  Durability of the log: appending one event, a batch, a message with attachments, a claim or a
  recall leaves a log that reopens to the handle's session.
\<close>

section \<open>From a handle to its log\<close>

lemma reads_backE:
  assumes "reads_back ext store s"
  obtains raw where "store (session_key s) = Some (StoredDir (LogFile raw))"
    "se_bytes s = length raw" "session_ok ext (as_read s)"
    "length (se_events s) = se_first s + length (log_lines raw)"
    "log_lines raw = [] \<Longrightarrow> se_events s = []"
proof -
  let ?op = "open_inner max_lineage_depth ext store (se_root s) [se_id s]"
  from assms have "valid_session_component (se_id s)"
    "open_inner_loaded ext store (se_root s) ?op (se_id s) = Inr (as_read s)"
    unfolding reads_back_def open_session_def by simp_all
  from open_inner_loaded_ok [OF this(2) open_inner_streams this(1)]
  obtain raw ih where raw: "session_ok ext (as_read s)" "log_text store (session_key s) = Inr raw"
    "se_bytes (as_read s) = length raw" "ih_first ih = se_first (as_read s)"
    "inherit ext ?op (\<lambda>p. store (se_root s, p) \<noteq> None) (se_id s) (log_lines raw) = Inr ih"
    "length (se_events (as_read s)) = se_first (as_read s) + length (log_lines raw)"
    by auto
  have "se_first s = 0" if "log_lines raw = []"
    using raw(4,5) that by (simp add: nothing_inherited_def as_read_def)
  with raw show thesis by (intro that) (auto simp: log_text_Inr as_read_def)
qed

lemma session_state_as_read [simp]: "session_state (as_read s) = session_state s"
  by (simp add: session_state_def as_read_def)

lemma session_stateD: "session_ok ext (as_read s) \<Longrightarrow>
   stream_ok ext (se_events s) (se_hashes s) (se_inbox s) \<and> reads_ok ext (session_state s)"
  by (simp add: session_ok_def as_read_def reads_ok_def session_state_def stream_state_def)

lemma session_checksD: "session_ok ext (as_read s) \<Longrightarrow>
   numbered (se_events s) \<and> is_ok (project_code_mode (lx_code_len ext) (se_events s))
   \<and> settle_pairing (map ev_kind (se_events s)) = Inr () \<and> all_backward_ok (se_events s)"
  using read_checks_Inr [of "se_events s" ext]
  by (simp add: session_ok_def as_read_def stream_ok_def)

lemma session_state_simps [simp]:
  "rd_events (session_state s) = se_events s" "rd_hashes (session_state s) = se_hashes s"
  "rd_inbox (session_state s) = se_inbox s" "rd_creation (session_state s) = se_creation s"
  by (simp_all add: session_state_def stream_state_def)

text \<open>Committing rows: the file grows by their text, the handle by their events.\<close>

definition extend_session ::
  "log_ext \<Rightarrow> (session_event \<times> string) list \<Rightarrow> inbox_projection \<Rightarrow> session \<Rightarrow> session" where
  "extend_session ext rows inbox s =
     s\<lparr>se_events := se_events s @ map fst rows,
       se_hashes := se_hashes s @ map (\<lambda>r. event_leaf_sha256 ext (snd r)) rows,
       se_inbox := inbox, se_bytes := se_bytes s + length (batch_text rows),
       se_published := se_published s @ map fst rows\<rparr>"

lemma commit_rows:
  assumes rb: "reads_back ext store s"
    and fold: "try_fold (read_line ext (se_first s)) (session_state s)
      (List.enumerate (length (se_events s) - se_first s) (map snd rows)) =
      Inr (stream_state (se_events s @ map fst rows)
        (se_hashes s @ map (\<lambda>r. event_leaf_sha256 ext (snd r)) rows) inbox c)"
    and lines: "\<And>r. r \<in> set rows \<Longrightarrow> newline \<notin> set (snd r) \<and> valid_utf8 (snd r)"
    and bytes: "se_bytes s + length (batch_text rows) \<le> max_session_log_bytes"
    and first: "se_events s = [] \<Longrightarrow> no_fork_first ext (map snd rows)"
    and checks: "read_checks ext (se_events s @ map fst rows) = Inr ()"
  shows "reads_back ext (append_bytes (session_key s) (batch_text rows) store)
      ((extend_session ext rows inbox s)\<lparr>se_creation := c\<rparr>)
    \<and> only_changes ext (session_key s) store (append_bytes (session_key s) (batch_text rows) store)"
proof -
  from reads_backE [OF rb] obtain raw where raw:
    "store (se_root s, se_id s) = Some (StoredDir (LogFile raw))" "se_bytes s = length raw"
    "session_ok ext (as_read s)" "length (se_events s) = se_first s + length (log_lines raw)"
    "log_lines raw = [] \<Longrightarrow> se_events s = []"
    by auto
  let ?ls = "map snd rows"
  let ?store = "store((se_root s, se_id s) \<mapsto> StoredDir (LogFile (raw @ text_of_lines ?ls)))"
  let ?st = "stream_state (se_events s @ map fst rows)
    (se_hashes s @ map (\<lambda>r. event_leaf_sha256 ext (snd r)) rows) inbox c"
  let ?s = "opened (se_root s, se_id s) (se_first s) (length (raw @ text_of_lines ?ls)) ?st"
  have store': "append_bytes (session_key s) (batch_text rows) store = ?store"
    by (simp add: append_bytes_def raw(1) batch_text_def)
  have s': "?s = as_read ((extend_session ext rows inbox s)\<lparr>se_creation := c\<rparr>)"
    using raw(2)
    by (simp add: opened_def as_read_def extend_session_def stream_state_def batch_text_def)
  have loaded: "reloads ext (se_root s) (se_id s) store ?store (as_read s) ?s"
    unfolding reloads_def
  proof (intro allI impI)
    fix op op' :: "string \<Rightarrow> open_error + session"
    assume a: "open_inner_loaded ext store (se_root s) op (se_id s) = Inr (as_read s)"
      "streams ext op" "valid_session_component (se_id s)"
      "\<forall>p t. op p = Inr t \<longrightarrow> p \<noteq> se_id s \<longrightarrow> op' p = Inr t"
    have "open_inner_loaded ext ?store (se_root s) op' (se_id s) =
        Inr (opened (se_root s, se_id s) (se_first (as_read s)) (length (raw @ text_of_lines ?ls)) ?st)"
    proof (rule open_inner_loaded_append [OF a(1,2,3) _ raw(1)])
      show "log_lines raw = [] \<Longrightarrow> no_fork_first ext ?ls" using raw(5) first by simp
      show "read_checks ext (rd_events ?st) = Inr ()" using checks by (simp add: stream_state_def)
      show "try_fold (read_line ext (se_first (as_read s))) (session_state (as_read s))
          (List.enumerate (length (se_events (as_read s)) - se_first (as_read s)) ?ls) = Inr ?st"
        using fold by (simp add: as_read_def session_state_def)
    qed (use a(4) lines bytes raw(2) in \<open>auto simp: batch_text_def\<close>)
    then show "open_inner_loaded ext ?store (se_root s) op' (se_id s) = Inr ?s"
      by (simp add: as_read_def)
  qed
  have "open_session ext store (se_root s, se_id s) = Inr (as_read s)"
    using rb by (simp add: reads_back_def)
  from append_only_changes [OF this raw(1) refl loaded]
  have "open_session ext ?store (se_root s, se_id s) = Inr ?s"
    "only_changes ext (se_root s, se_id s) store ?store"
    by (simp_all add: opened_def stream_state_def as_read_def)
  then show ?thesis
    unfolding store' reads_back_def s' [symmetric] by (simp add: extend_session_def)
qed

section \<open>Batches\<close>

text \<open>Kinds that a batch may carry without a rule about the batch itself.\<close>

definition batch_kind :: "session_event_kind \<Rightarrow> bool" where
  "batch_kind k \<longleftrightarrow> kind_exact k \<and> \<not> is_creation k \<and> \<not> is_code_mode k"

lemma reserve_Inr:
  "reserve s events bytes = Inr () \<longleftrightarrow>
     length (se_events s) + events \<le> max_logical_session_events
     \<and> se_bytes s + bytes \<le> max_session_log_bytes"
  by (auto simp: reserve_def saturating_add_u64_def max_logical_session_events_def
      max_session_log_bytes_def u64_max_def)

lemma saturating_bytes: "a + b \<le> max_session_log_bytes \<Longrightarrow> saturating_add_u64 a b = a + b"
  by (simp add: saturating_add_u64_def max_session_log_bytes_def u64_max_def)

lemma settle_batch_Inr: "settle_batch ks = Inr () \<longleftrightarrow> settle_pairing ks = Inr ()"
  by (simp add: settle_batch_def)

lemma prepare_atomically_Inr:
  "prepare_atomically ext clock w s kinds = Inr (rows, inbox) \<longleftrightarrow>
     check_writable w s = Inr () \<and> reserve s (length kinds) 0 = Inr ()
     \<and> settle_pairing kinds = Inr ()
     \<and> prepare_batch ext clock s 0 (se_inbox s) kinds = Inr (rows, inbox)
     \<and> reserve s (length rows) (length (batch_text rows)) = Inr ()"
  unfolding prepare_atomically_def and_then_Inr by (auto simp: settle_batch_Inr split: prod.splits)

lemma no_fork_first_batch:
  assumes "list_all (\<lambda>k. \<not> is_creation k) kinds" "map (\<lambda>r. ev_kind (fst r)) rows = kinds"
    and "\<forall>r \<in> set rows. line_of ext (fst r) (snd r) \<and> ev_v (fst r) = current_session_log_version"
    and "list_all (\<lambda>k. validate_for_version (lx_payload ext) current_session_log_version k = Inr ()) kinds"
  shows "no_fork_first ext (map snd rows)"
proof (cases rows)
  case Nil
  then show ?thesis by (simp add: no_fork_first_def)
next
  case (Cons r rest)
  with assms have "line_of ext (fst r) (snd r)" "ev_v (fst r) = current_session_log_version"
    "validate_for_version (lx_payload ext) current_session_log_version (ev_kind (fst r)) = Inr ()"
    "\<not> is_creation (ev_kind (fst r))" by auto
  then have "parse_line_unsequenced ext 1 (snd r) = Inr (fst r)" "fork_origin (fst r) = None"
    using parse_written
    by (auto simp: fork_origin_def split: session_event_kind.splits)
  then show ?thesis by (simp add: no_fork_first_def Cons)
qed

lemma prepare_batch_kinds:
  "prepare_batch ext clock s offset inbox kinds = Inr (rows, inbox') \<Longrightarrow>
   map (\<lambda>r. ev_kind (fst r)) rows = kinds"
proof (induction kinds arbitrary: offset inbox rows)
  case (Cons k ks)
  then show ?case unfolding prepare_batch_Cons by auto
qed simp

lemma prepare_batch_valid:
  "prepare_batch ext clock s offset inbox kinds = Inr (rows, inbox') \<Longrightarrow>
   list_all (\<lambda>k. validate_for_version (lx_payload ext) current_session_log_version k = Inr ()) kinds"
proof (induction kinds arbitrary: offset inbox rows)
  case (Cons k ks)
  then show ?case unfolding prepare_batch_Cons by auto
qed simp

lemma prepare_batch_reads_back:
  assumes codec: "faithful_codec ext" and rb: "reads_back ext store s"
    and batch: "prepare_batch ext clock s 0 (se_inbox s) kinds = Inr (rows, inbox)"
    and room: "reserve s (length kinds) (length (batch_text rows)) = Inr ()"
    and pair: "settle_pairing kinds = Inr ()"
    and exact: "list_all (\<lambda>k. kind_exact k \<and> \<not> is_creation k) kinds"
    and code: "is_ok (project_code_mode (lx_code_len ext) (se_events s @ map fst rows))"
  shows "reads_back ext (append_bytes (session_key s) (batch_text rows) store)
      (extend_session ext rows inbox s)
    \<and> only_changes ext (session_key s) store (append_bytes (session_key s) (batch_text rows) store)
    \<and> map (\<lambda>r. ev_kind (fst r)) rows = kinds"
proof -
  from reads_backE [OF rb] obtain raw where raw: "session_ok ext (as_read s)"
    "length (se_events s) = se_first s + length (log_lines raw)" by blast
  have state: "reads_ok ext (session_state s)" using session_stateD [OF raw(1)] by simp
  have le: "length (se_events s) + length kinds \<le> max_logical_session_events"
    "se_bytes s + length (batch_text rows) \<le> max_session_log_bytes"
    using room by (simp_all add: reserve_Inr)
  have accepted:
    "try_fold (read_line ext (se_first s)) (session_state s)
       (List.enumerate (length (se_events s) - se_first s) (map snd rows)) =
     Inr (stream_state (rd_events (session_state s) @ map fst rows)
       (rd_hashes (session_state s) @ map (\<lambda>r. event_leaf_sha256 ext (snd r)) rows) inbox
       (rd_creation (session_state s)))
     \<and> map (\<lambda>r. ev_kind (fst r)) rows = kinds
     \<and> (\<forall>r \<in> set rows. line_of ext (fst r) (snd r) \<and> ev_v (fst r) = current_session_log_version)
     \<and> list_all (\<lambda>k. validate_against_events ext (se_events s) k = Inr ()) kinds"
    by (rule batch_accepted [OF codec, where offset = 0 and clock = clock])
      (use batch state raw(2) le exact in simp_all)
  have kinds: "map ev_kind (map fst rows) = kinds"
    using accepted by (simp add: o_def)
  have nf: "list_all (\<lambda>k. \<not> is_creation k) kinds" using exact by (simp add: list_all_iff)
  have numbered: "numbered (se_events s @ map fst rows)"
    and backward: "all_backward_ok (se_events s @ map fst rows)"
  proof -
    have start: "se_first s + (length (se_events s) - se_first s) = length (rd_events (session_state s))"
      using raw(2) by simp
    from read_fold_ok [OF state start conjunct1 [OF accepted]]
    show "numbered (se_events s @ map fst rows)"
      by (simp add: reads_ok_def stream_state_def stream_ok_def)
    have "list_all (\<lambda>k. backward_ok (se_events s) k) kinds"
      using accepted by (auto simp: list_all_iff validate_against_events_Inr)
    then have "list_all (\<lambda>e. backward_ok (se_events s) (ev_kind e)) (map fst rows)"
      unfolding kinds [symmetric] by (simp add: list_all_iff)
    then show "all_backward_ok (se_events s @ map fst rows)"
      using session_checksD [OF raw(1)] by (intro all_backward_ok_append) simp_all
  qed
  have checks: "read_checks ext (se_events s @ map fst rows) = Inr ()"
    unfolding read_checks_Inr [OF numbered] map_append kinds
    using session_checksD [OF raw(1)] pair code backward by (simp add: settle_pairing_append)
  have "reads_back ext (append_bytes (session_key s) (batch_text rows) store)
      ((extend_session ext rows inbox s)\<lparr>se_creation := se_creation s\<rparr>)
    \<and> only_changes ext (session_key s) store (append_bytes (session_key s) (batch_text rows) store)"
  proof (rule commit_rows [OF rb _ _ le(2) _ checks])
    show "se_events s = [] \<Longrightarrow> no_fork_first ext (map snd rows)"
      using no_fork_first_batch [OF nf] accepted prepare_batch_valid [OF batch] by blast
  qed (use accepted in \<open>auto simp: line_of_def\<close>)
  then show ?thesis using accepted by (simp add: extend_session_def)
qed

lemma append_atomically_reads_back:
  assumes codec: "faithful_codec ext" and rb: "reads_back ext (w_store w) s"
    and kinds: "list_all batch_kind kinds"
    and ran: "append_kinds_atomically ext clock WriteAll kinds (w, s) = (Inr e, w', s')"
  shows "reads_back ext (w_store w') s' \<and> only_changes ext (session_key s) (w_store w) (w_store w')
    \<and> (\<exists>rows inbox. prepare_batch ext clock s 0 (se_inbox s) kinds = Inr (rows, inbox)
         \<and> s' = extend_session ext rows inbox s \<and> map (\<lambda>r. ev_kind (fst r)) rows = kinds)"
proof -
  from ran obtain rows inbox where p: "prepare_atomically ext clock w s kinds = Inr (rows, inbox)"
    by (auto simp: append_kinds_atomically_def split: sum.splits)
  from p have parts: "settle_pairing kinds = Inr ()"
    "prepare_batch ext clock s 0 (se_inbox s) kinds = Inr (rows, inbox)"
    "reserve s (length kinds) 0 = Inr ()"
    "reserve s (length rows) (length (batch_text rows)) = Inr ()"
    by (simp_all add: prepare_atomically_Inr)
  have room: "reserve s (length kinds) (length (batch_text rows)) = Inr ()"
    using parts(3,4) by (simp add: reserve_Inr)
  have bytes: "saturating_add_u64 (se_bytes s) (length (batch_text rows)) =
      se_bytes s + length (batch_text rows)"
    using parts(4) by (intro saturating_bytes) (simp add: reserve_Inr)
  have result: "w_store w' = append_bytes (session_key s) (batch_text rows) (w_store w)"
    "s' = extend_session ext rows inbox s"
    using ran p bytes
    by (auto simp: append_kinds_atomically_def extend_session_def split: if_splits)
  have exact: "list_all (\<lambda>k. kind_exact k \<and> \<not> is_creation k) kinds"
    using kinds by (auto simp: list_all_iff batch_kind_def)
  from reads_backE [OF rb] have ok: "session_ok ext (as_read s)" by blast
  have "map (\<lambda>r. ev_kind (fst r)) rows = kinds" by (rule prepare_batch_kinds [OF parts(2)])
  then have "list_all (\<lambda>e. \<not> is_code_mode (ev_kind e)) (map fst rows)"
    using kinds by (fastforce simp: list_all_iff batch_kind_def)
  then have code: "is_ok (project_code_mode (lx_code_len ext) (se_events s @ map fst rows))"
    using session_checksD [OF ok] by (simp add: project_code_mode_quiet)
  from prepare_batch_reads_back [OF codec rb parts(2) room parts(1) exact code]
  show ?thesis using result parts(2) by auto
qed

section \<open>One event\<close>

lemma prepare_event_Inr:
  "prepare_event ext now w s k = Inr (e, sp, line) \<longleftrightarrow>
     check_writable w s = Inr ()
     \<and> validate_for_version (lx_payload ext) current_session_log_version k = Inr ()
     \<and> validate_against_events ext (se_events s) k = Inr () \<and> settle_pairing [k] = Inr ()
     \<and> e = stamp now (length (se_events s)) k
     \<and> validate_compaction_boundary k (length (se_events s)) = Inr ()
     \<and> inbox_validate_event (lx_labels ext) (se_inbox s) e = Inr sp
     \<and> lx_encode ext e = Some line \<and> reserve s 1 (length line + 1) = Inr ()"
  unfolding prepare_event_def Let_def and_then_Inr validate_payload_def validate_boundary_def
    validate_inbox_def map_err_Inr ok_or_Inr stamp_simps
  by (auto simp: settle_batch_Inr)

lemma prepare_event_batch:
  assumes "prepare_event ext now w s k = Inr (e, sp, line)"
  shows "prepare_batch ext (\<lambda>_. now) s 0 (se_inbox s) [k] =
    Inr ([(e, line)], commit_inbox e sp (se_inbox s))"
proof -
  have "length (se_events s) \<le> u64_max"
    using assms by (auto simp: prepare_event_Inr reserve_Inr max_logical_session_events_def u64_max_def)
  then have "saturating_add_u64 (length (se_events s)) 0 = length (se_events s)"
    by (simp add: saturating_add_u64_def)
  with assms show ?thesis
    unfolding prepare_batch_Cons prepare_event_Inr by auto
qed

lemma batch_text_one [simp]: "batch_text [(e, line)] = line @ [newline]"
  by (simp add: batch_text_def text_of_lines_def)

lemma append_kind_reads_back:
  assumes codec: "faithful_codec ext" and rb: "reads_back ext (w_store w) s"
    and kind: "kind_exact k" "\<not> is_creation k"
    and ran: "append_kind ext now WriteAll k (w, s) = (Inr e, w', s')"
  shows "reads_back ext (w_store w') s' \<and> only_changes ext (session_key s) (w_store w) (w_store w')
    \<and> e = stamp now (length (se_events s)) k \<and> se_events s' = se_events s @ [e]
    \<and> session_key s' = session_key s"
proof -
  from ran obtain sp line where p: "prepare_event ext now w s k = Inr (e, sp, line)"
    by (auto simp: append_kind_def split: sum.splits)
  note batch = prepare_event_batch [OF p]
  note parts = p [unfolded prepare_event_Inr]
  have room: "reserve s (length [k]) (length (batch_text [(e, line)])) = Inr ()"
    using parts by simp
  have bytes: "saturating_add_u64 (se_bytes s) (length line + 1) = se_bytes s + (length line + 1)"
    using parts by (intro saturating_bytes) (simp add: reserve_Inr)
  have result: "w_store w' = append_bytes (session_key s) (batch_text [(e, line)]) (w_store w)"
    "s' = extend_session ext [(e, line)] (commit_inbox e sp (se_inbox s)) s"
    using ran p bytes by (auto simp: append_kind_def extend_session_def)
  from reads_backE [OF rb] have ok: "session_ok ext (as_read s)" by blast
  have "ev_kind e = k" using parts by simp
  then have code: "is_ok (project_code_mode (lx_code_len ext) (se_events s @ map fst [(e, line)]))"
    using project_code_mode_one [of ext "se_events s" e] session_checksD [OF ok] parts
    by (simp add: validate_against_events_Inr)
  have "list_all (\<lambda>k. kind_exact k \<and> \<not> is_creation k) [k]" using kind by simp
  from prepare_batch_reads_back [OF codec rb batch room _ this code] parts
  show ?thesis unfolding result by (simp add: extend_session_def)
qed

end
