(* ===== verification/Session_Operations.thy ===== *)
theory Session_Operations
  imports Log_Durability
begin

text \<open>
  The public operations on pending input and their effect on the durable inbox: a claim moves
  one message to the model, a recall withdraws the human messages and nothing else.
\<close>

section \<open>Failed operations\<close>

text \<open>An operation that fails leaves the handle as it was; only a failed write reaches the file.\<close>

definition failed_cleanly ::
  "session_key \<Rightarrow> append_error \<Rightarrow> world \<Rightarrow> session \<Rightarrow> world \<Rightarrow> session \<Rightarrow> bool" where
  "failed_cleanly key err w s w' s' \<longleftrightarrow>
     s' = s
     \<and> (w' = w \<or> (err = AppendIo \<and> (\<exists>bytes. w' = w\<lparr>w_store := append_bytes key bytes (w_store w)\<rparr>)))"

lemma append_kind_failed:
  "append_kind ext now outcome k (w, s) = (Inl err, w', s') \<Longrightarrow> failed_cleanly (session_key s) err w s w' s'"
  by (auto simp: append_kind_def failed_cleanly_def split: sum.splits write_outcome.splits)

lemma append_atomically_failed:
  "append_kinds_atomically ext clock outcome ks (w, s) = (Inl err, w', s') \<Longrightarrow> ks \<noteq> [] \<Longrightarrow>
   failed_cleanly (session_key s) err w s w' s'"
  by (auto simp: append_kinds_atomically_def failed_cleanly_def prepare_atomically_Inr
      dest: prepare_batch_kinds split: sum.splits write_outcome.splits if_splits)

section \<open>Removing one pending message\<close>

definition remove_nth :: "nat \<Rightarrow> 'a list \<Rightarrow> 'a list" where
  "remove_nth i xs = take i xs @ drop (Suc i) xs"

definition removal :: "inbox_target \<Rightarrow> nat \<Rightarrow> inbox_splice_outcome option \<Rightarrow> session_event_kind" where
  "removal target i how =
     AgentInboxSplice \<lparr>sp_target = target, sp_start = i, sp_removed = Some 1, sp_inserted = [],
       sp_outcome = how\<rparr>"

lemma claim_splice_removal: "claim_splice target i = removal target i None"
  and cancel_splice_removal: "cancel_splice target i = removal target i (Some Canceled)"
  by (simp_all add: claim_splice_def cancel_splice_def removal_def)

lemma removal_exact [simp]: "batch_kind (removal target i how)" "batch_kind (UserMessage body)"
  by (simp_all add: removal_def batch_kind_def)

lemma removal_applied:
  assumes e: "ev_kind e = removal target i how" and q: "inbox_apply_event ser p e = Inr q"
  defines "m \<equiv> inbox_queue p target ! i"
  shows "i < length (inbox_queue p target)"
    and "inbox_queue q t = (if t = target then remove_nth i (inbox_queue p target) else inbox_queue p t)"
    and "ip_claimed q = ip_claimed p
      @ (if how = None then [\<lparr>st_seq = ev_seq e, st_target = target, st_message = m\<rparr>] else [])"
    and "ip_canceled q = ip_canceled p
      @ (if how = Some Canceled then [\<lparr>st_seq = ev_seq e, st_target = target, st_message = m\<rparr>] else [])"
proof -
  let ?sp = "\<lparr>sp_target = target, sp_start = i, sp_removed = Some 1, sp_inserted = [], sp_outcome = how\<rparr>"
  have e': "ev_kind e = AgentInboxSplice ?sp" using e by (simp add: removal_def)
  obtain r where r: "inbox_validate_event ser p e = Inr r"
    and q': "q = (case r of None \<Rightarrow> p | Some v \<Rightarrow> inbox_commit e v p)"
    using q by (auto simp: inbox_apply_event_def)
  obtain v where v: "r = Some v" using r e' inbox_validate_event_None [of ser p e] by (cases r) auto
  from r [unfolded v] e' have vs: "v = \<lparr>vs_target = target, vs_start = i, vs_removed = 1, vs_outcome = how\<rparr>"
    and i: "i < length (inbox_queue p target)"
    by (auto simp: inbox_validate_event_Some)
  have one: "take 1 (drop i (inbox_queue p target)) = [m]"
    using i by (simp add: m_def take_Suc_conv_app_nth hd_drop_conv_nth take_Suc)
  show "i < length (inbox_queue p target)" by (rule i)
  show "inbox_queue q t = (if t = target then remove_nth i (inbox_queue p target) else inbox_queue p t)"
    using queue_commit [OF e', of v p t] by (auto simp: q' v vs vec_splice_def remove_nth_def)
  show "ip_claimed q = ip_claimed p
      @ (if how = None then [\<lparr>st_seq = ev_seq e, st_target = target, st_message = m\<rparr>] else [])"
    "ip_canceled q = ip_canceled p
      @ (if how = Some Canceled then [\<lparr>st_seq = ev_seq e, st_target = target, st_message = m\<rparr>] else [])"
    using one by (simp_all add: q' v ledger_commit [OF e'] settled_by_def vs)
qed

lemma message_applied: "ev_kind e = UserMessage body \<Longrightarrow> inbox_apply_event ser p e = Inr q \<Longrightarrow> q = p"
  by (auto simp: inbox_apply_event_def inbox_validate_event_def)

lemma prepare_batch_inbox:
  "prepare_batch ext clock s offset inbox kinds = Inr (rows, inbox') \<Longrightarrow>
   try_fold (inbox_apply_event (lx_labels ext)) inbox (map fst rows) = Inr inbox'"
proof (induction kinds arbitrary: offset inbox rows)
  case (Cons k ks)
  let ?e = "stamp (clock offset) (saturating_add_u64 (length (se_events s)) offset) k"
  from Cons.prems obtain sp line rest where r: "inbox_validate_event (lx_labels ext) inbox ?e = Inr sp"
    "prepare_batch ext clock s (offset + 1) (commit_inbox ?e sp inbox) ks = Inr (rest, inbox')"
    "rows = (?e, line) # rest"
    unfolding prepare_batch_Cons by blast
  have "inbox_apply_event (lx_labels ext) inbox ?e = Inr (commit_inbox ?e sp inbox)"
    using r(1) by (simp add: inbox_apply_event_def commit_inbox_def)
  with Cons.IH [OF r(2)] r(3) show ?case by simp
qed simp

section \<open>Claiming\<close>

lemma claim_applied:
  assumes "try_fold (inbox_apply_event ser) p es = Inr q"
    and "map ev_kind es = [claim_splice target i, UserMessage body]"
  shows "i < length (inbox_queue p target)
    \<and> (\<forall>t. inbox_queue q t = (if t = target then remove_nth i (inbox_queue p target) else inbox_queue p t))
    \<and> map st_message (ip_claimed q) = map st_message (ip_claimed p) @ [inbox_queue p target ! i]
    \<and> ip_canceled q = ip_canceled p"
proof -
  obtain e1 e2 where es: "es = [e1, e2]" "ev_kind e1 = removal target i None" "ev_kind e2 = UserMessage body"
    using assms(2) by (cases es; cases "tl es") (auto simp: claim_splice_removal)
  with assms(1) obtain q1 where "inbox_apply_event ser p e1 = Inr q1" "inbox_apply_event ser q1 e2 = Inr q"
    by auto
  note r = removal_applied [OF es(2) this(1)] and m = message_applied [OF es(3) this(2)]
  show ?thesis unfolding m using r by simp
qed

section \<open>Recalling\<close>

lemma nths_remove_nth:
  assumes "i < length xs" "\<And>j. j \<in> A \<Longrightarrow> j < i"
  shows "nths (remove_nth i xs) (- A) = nths xs (- insert i A)"
proof -
  have xs: "xs = take i xs @ xs ! i # drop (Suc i) xs" using assms(1) by (simp add: id_take_nth_drop)
  have low: "nths (take i xs) (- A) = nths (take i xs) (- insert i A)"
    unfolding nths_def using assms(1) by (intro arg_cong [of _ _ "map fst"] filter_cong) (auto simp: set_zip)
  have high: "{j. j + i \<in> - A} \<supseteq> UNIV" "{j. j + Suc i \<in> - insert i A} \<supseteq> UNIV"
    using assms(2) by force+
  have len: "length (take i xs) = i" using assms(1) by simp
  have "nths (remove_nth i xs) (- A) = nths (take i xs) (- A) @ drop (Suc i) xs"
    unfolding remove_nth_def nths_append len using high by (simp add: top.extremum_unique nths_all)
  also have "\<dots> = nths (take i xs @ xs ! i # drop (Suc i) xs) (- insert i A)"
    unfolding nths_append nths_Cons len low using high by (simp add: top.extremum_unique nths_all)
  finally show ?thesis using xs by simp
qed

lemma nths_human:
  "nths queue (- set (human_positions queue)) = filter (\<lambda>m. \<not> is_human m) queue"
proof -
  have "nths queue (- set (human_positions queue)) = nths queue {i. i < length queue \<and> \<not> is_human (queue ! i)}"
    unfolding nths_def human_positions_def
    by (intro arg_cong [of _ _ "map fst"] filter_cong) (auto simp: set_zip)
  then show ?thesis by (simp add: filter_eq_nths)
qed

lemma cancels_applied:
  assumes "try_fold (inbox_apply_event ser) p es = Inr q" "map ev_kind es = map (cancel_splice target) js"
    and "sorted_wrt (>) js"
  shows "inbox_queue q target = nths (inbox_queue p target) (- set js)
    \<and> (\<forall>t. t \<noteq> target \<longrightarrow> inbox_queue q t = inbox_queue p t) \<and> ip_claimed q = ip_claimed p
    \<and> map st_message (ip_canceled q) =
        map st_message (ip_canceled p) @ map (\<lambda>j. inbox_queue p target ! j) js"
  using assms
proof (induction js arbitrary: es p)
  case Nil
  then show ?case by (simp add: nths_all)
next
  case (Cons j js)
  then obtain e es' where es: "es = e # es'" "ev_kind e = removal target j (Some Canceled)"
    "map ev_kind es' = map (cancel_splice target) js"
    by (cases es) (auto simp: cancel_splice_removal)
  with Cons.prems(1) obtain p1 where p1: "inbox_apply_event ser p e = Inr p1"
    "try_fold (inbox_apply_event ser) p1 es' = Inr q" by auto
  note r = removal_applied [OF es(2) p1(1)]
  have lt: "\<And>k. k \<in> set js \<Longrightarrow> k < j" using Cons.prems(3) by auto
  have q: "inbox_queue p1 target = remove_nth j (inbox_queue p target)" using r(2) by simp
  have same: "map ((!) (inbox_queue p1 target)) js = map ((!) (inbox_queue p target)) js"
    using lt r(1) by (auto simp: q remove_nth_def nth_append)
  from Cons.IH [OF p1(2) es(3)] Cons.prems(3)
  have ih: "inbox_queue q target = nths (inbox_queue p1 target) (- set js)"
    "\<forall>t. t \<noteq> target \<longrightarrow> inbox_queue q t = inbox_queue p1 t" "ip_claimed q = ip_claimed p1"
    "map st_message (ip_canceled q) =
       map st_message (ip_canceled p1) @ map (\<lambda>j. inbox_queue p1 target ! j) js" by simp_all
  have "nths (remove_nth j (inbox_queue p target)) (- set js) = nths (inbox_queue p target) (- insert j (set js))"
    by (rule nths_remove_nth [OF r(1) lt])
  with ih r(2-4) same show ?case by (simp add: q)
qed

lemma human_positions_desc: "sorted_wrt (>) (human_positions queue)"
  unfolding human_positions_def sorted_wrt_rev by (rule sorted_wrt_filter) (rule sorted_wrt_upt)

lemma map_human_positions: "map ((!) queue) (human_positions queue) = rev (filter is_human queue)"
proof -
  have "filter is_human (map ((!) queue) [0..<length queue]) =
      map ((!) queue) (filter (is_human \<circ> (!) queue) [0..<length queue])" by (rule filter_map)
  then show ?thesis by (simp add: human_positions_def rev_map [symmetric] map_nth o_def)
qed

lemma recall_applied:
  assumes fold: "try_fold (inbox_apply_event ser) p es = Inr q"
    and kinds: "map ev_kind es = cancellations p"
  shows "(\<forall>t. inbox_queue q t = filter (\<lambda>m. \<not> is_human m) (inbox_queue p t))
    \<and> ip_claimed q = ip_claimed p
    \<and> mset (map st_message (ip_canceled q)) = mset (map st_message (ip_canceled p))
        + mset (filter is_human (ip_next_turn p @ ip_next_step p))"
proof -
  let ?turn = "human_positions (inbox_queue p NextTurn)" and ?step = "human_positions (inbox_queue p NextStep)"
  obtain es1 es2 where es: "es = es1 @ es2" "map ev_kind es1 = map (cancel_splice NextTurn) ?turn"
    "map ev_kind es2 = map (cancel_splice NextStep) ?step"
    using kinds unfolding cancellations_def by (auto simp: map_eq_append_conv)
  from fold obtain p1 where p1: "try_fold (inbox_apply_event ser) p es1 = Inr p1"
    "try_fold (inbox_apply_event ser) p1 es2 = Inr q" unfolding es(1) try_fold_append by auto
  note a = cancels_applied [OF p1(1) es(2) human_positions_desc]
  note b = cancels_applied [OF p1(2) es(3) human_positions_desc]
  have turn: "inbox_queue q NextTurn = filter (\<lambda>m. \<not> is_human m) (inbox_queue p NextTurn)"
    using a b nths_human [of "inbox_queue p NextTurn"] by (simp del: inbox_queue.simps)
  have step: "inbox_queue q NextStep = filter (\<lambda>m. \<not> is_human m) (inbox_queue p NextStep)"
    using a b nths_human [of "inbox_queue p NextStep"] by (simp del: inbox_queue.simps)
  have "inbox_queue q t = filter (\<lambda>m. \<not> is_human m) (inbox_queue p t)" for t
    using turn step by (cases t) simp_all
  moreover have "map st_message (ip_canceled q) = map st_message (ip_canceled p)
      @ rev (filter is_human (inbox_queue p NextTurn)) @ rev (filter is_human (inbox_queue p NextStep))"
    using a b by (simp add: map_human_positions del: inbox_queue.simps)
  ultimately show ?thesis using a b by simp
qed

text \<open>The messages a recall returns are the pending human ones.\<close>

lemma pending_human_exact:
  assumes inbox: "project_inbox ser (se_events s) = Inr (se_inbox s)"
  shows "mset (pending_human_messages s) =
    mset (filter is_human (ip_next_turn (se_inbox s) @ ip_next_step (se_inbox s)))"
proof -
  let ?p = "se_inbox s"
  let ?pending = "ip_next_turn ?p @ ip_next_step ?p"
  let ?ids = "im_id ` set (filter is_human ?pending)"
  have ok: "inbox_ok ser ?p" using inbox by (simp add: project_inbox_def inbox.good_replay)
  have all: "mset (inbox_messages ?p) = mset (concat (map inserted_by (se_events s)))"
    using mset_inbox_fold [of ser inbox_default "se_events s" ?p] inbox
    by (simp add: project_inbox_def inbox_default_def inbox_messages_def)
  let ?settled = "map st_message (ip_claimed ?p) @ map st_message (ip_canceled ?p)"
  have split: "inbox_messages ?p = ?pending @ ?settled" by (simp add: inbox_messages_def)
  have dist: "distinct (map im_id (?pending @ ?settled))" using inbox_okD(2) [OF ok] by (simp add: split)
  have inj: "m = h" if "m \<in> set (?pending @ ?settled)" "h \<in> set (?pending @ ?settled)" "im_id m = im_id h" for m h
    using dist that unfolding distinct_map by (meson inj_onD)
  have apart: "im_id m \<notin> im_id ` set ?pending" if "m \<in> set ?settled" for m
    using dist that by auto
  have "filter (\<lambda>m. im_id m \<in> ?ids) ?pending = filter is_human ?pending"
  proof (rule filter_cong [OF refl])
    fix m assume m: "m \<in> set ?pending"
    show "im_id m \<in> ?ids \<longleftrightarrow> is_human m"
    proof
      assume "im_id m \<in> ?ids"
      then obtain h where h: "h \<in> set ?pending" "is_human h" "im_id m = im_id h" by auto
      have "m = h" by (rule inj) (use m h in auto)
      with h show "is_human m" by simp
    qed (use m in auto)
  qed
  moreover have "filter (\<lambda>m. im_id m \<in> ?ids) ?settled = []"
    unfolding filter_empty_conv using apart by auto
  ultimately have "filter (\<lambda>m. im_id m \<in> ?ids) (inbox_messages ?p) = filter is_human ?pending"
    unfolding split filter_append by simp
  moreover have "pending_human_messages s =
      filter (\<lambda>m. im_id m \<in> ?ids) (concat (map inserted_by (se_events s)))"
    unfolding pending_human_messages_def Let_def set_map ..
  ultimately show ?thesis using all by (metis mset_filter)
qed

end
