(* ===== verification/Lineage_Laws.thy ===== *)
theory Lineage_Laws
  imports Log_Durability
begin

text \<open>
  Creating and forking sessions: a new directory changes what no other session reads, a created
  session and a forked child reopen to their handles, and how many levels of ancestors opening
  a child takes.
\<close>

section \<open>A fresh directory\<close>

lemma open_inner_text: "open_inner room ext store root visited name = Inr t \<Longrightarrow> is_ok (log_text store (root, name))"
  by (cases room) (auto simp: open_inner_loaded_def is_ok_iff)

text \<open>A log that a session does not inherit from may change, or come to be.\<close>

lemma open_inner_update:
  "open_inner room ext store root visited name = Inr t \<Longrightarrow> store (root, i) = None \<or> i \<in> set visited \<Longrightarrow>
   open_inner room ext (store((root, i) \<mapsto> x)) root visited name = Inr t"
proof (induction room arbitrary: visited name t)
  case 0
  then show ?case by simp
next
  case (Suc room)
  let ?store = "store((root, i) \<mapsto> x)"
  let ?op = "open_inner room ext store root (name # visited)"
  let ?op' = "open_inner room ext ?store root (name # visited)"
  have avoid: "store (root, i) = None \<or> i \<in> set (name # visited)" using Suc.prems(2) by auto
  have "name \<noteq> i"
    using open_inner_text [OF Suc.prems(1)] Suc.prems by (auto simp: is_ok_iff log_text_Inr)
  from Suc.prems(1) obtain raw ih inbox st where parts:
    "log_text store (root, name) = Inr raw"
    "inherit ext ?op (\<lambda>p. store (root, p) \<noteq> None) name (log_lines raw) = Inr ih"
    "project_inbox (lx_labels ext) (ih_events ih) = Inr inbox"
    "try_fold (read_line ext (ih_first ih)) (read_start ih inbox) (List.enumerate 0 (log_lines raw)) = Inr st"
    "read_checks ext (rd_events st) = Inr ()"
    "t = opened (root, name) (ih_first ih) (length raw) st"
    by (auto simp: open_inner_loaded_Inr)
  have "log_text ?store (root, name) = Inr raw"
    using parts(1) \<open>name \<noteq> i\<close> by (simp add: log_text_def)
  moreover have "inherit ext ?op' (\<lambda>p. ?store (root, p) \<noteq> None) name (log_lines raw) = Inr ih"
  proof (rule inherit_mono [OF parts(2)])
    fix p u assume "?op p = Inr u"
    then show "\<exists>t'. ?op' p = Inr t' \<and>
        (\<forall>e c q. par_id q = p \<longrightarrow> prefix_from ext name e c q u ih \<longrightarrow> prefix_from ext name e c q t' ih)"
      using Suc.IH [OF _ avoid] by blast
  qed simp
  ultimately have "open_inner_loaded ext ?store root ?op' name = Inr t"
    unfolding open_inner_loaded_Inr using parts(3-6) by blast
  with Suc.prems(1) show ?case by (simp del: fun_upd_apply)
qed

lemma open_inner_fresh:
  "store (root, i) = None \<Longrightarrow> open_inner room ext store root visited name = Inr t \<Longrightarrow>
   open_inner room ext (store((root, i) \<mapsto> x)) root visited name = Inr t"
  by (rule open_inner_update) simp_all

lemma fresh_only_changes:
  assumes "store (root, i) = None"
  shows "only_changes ext (root, i) store (store((root, i) \<mapsto> x))"
  unfolding only_changes_def
proof (intro allI impI)
  fix key t
  assume key: "key \<noteq> (root, i)" "open_session ext store key = Inr t"
  show "open_session ext (store((root, i) \<mapsto> x)) key = Inr t"
  proof (cases "fst key = root")
    case True
    show ?thesis
      using open_inner_fresh [OF assms key(2) [unfolded open_session_def True]]
      unfolding open_session_def True .
  next
    case False
    have "open_inner (max_lineage_depth + 1) ext store (fst key) [] (snd key)
        = open_inner (max_lineage_depth + 1) ext (store((root, i) \<mapsto> x)) (fst key) [] (snd key)"
      by (rule open_inner_cong) (use False in simp)
    with key(2) show ?thesis unfolding open_session_def by (rule trans [OF sym, rotated])
  qed
qed

lemma only_changes_trans:
  "only_changes ext key s1 s2 \<Longrightarrow> only_changes ext key s2 s3 \<Longrightarrow> only_changes ext key s1 s3"
  by (simp add: only_changes_def)

section \<open>Levels and visited sessions\<close>

lemma inherit_mono':
  assumes "inherit ext op present name lines = Inr ih"
    and "\<And>p t. op p = Inr t \<Longrightarrow> op' p = Inr t"
  shows "inherit ext op' present name lines = Inr ih"
  by (rule inherit_mono [OF assms(1)]) (use assms(2) in auto)

lemma open_inner_loaded_mono:
  assumes "open_inner_loaded ext store root op name = Inr t"
    and "\<And>p u. op p = Inr u \<Longrightarrow> op' p = Inr u"
  shows "open_inner_loaded ext store root op' name = Inr t"
  using assms inherit_mono' [of ext op _ name _ _ op'] unfolding open_inner_loaded_Inr by blast

lemma open_inner_Suc: "open_inner room ext store root visited name = Inr t \<Longrightarrow>
   open_inner (Suc room) ext store root visited name = Inr t"
proof (induction room arbitrary: visited name t)
  case 0
  then show ?case by simp
next
  case (Suc room)
  from Suc.prems have name: "valid_session_component name" "name \<notin> set visited"
    and "open_inner_loaded ext store root (open_inner room ext store root (name # visited)) name = Inr t"
    by simp_all
  from open_inner_loaded_mono [OF this(3), of "open_inner (Suc room) ext store root (name # visited)"]
  have "open_inner_loaded ext store root (open_inner (Suc room) ext store root (name # visited)) name = Inr t"
    using Suc.IH by blast
  with name show ?case by (subst open_inner.simps(2)) simp
qed

lemma open_inner_room:
  "room \<le> room' \<Longrightarrow> open_inner room ext store root visited name = Inr t \<Longrightarrow>
   open_inner room' ext store root visited name = Inr t"
proof (induction room' rule: dec_induct)
  case (step n)
  then show ?case using open_inner_Suc by blast
qed

text \<open>Sessions that have no directory may be added to the visited ones.\<close>

lemma open_inner_visited:
  assumes "\<And>x. x \<in> set visited' - set visited \<Longrightarrow> store (root, x) = None"
    and "open_inner room ext store root visited name = Inr t"
  shows "open_inner room ext store root visited' name = Inr t"
  using assms
proof (induction room arbitrary: visited visited' name t)
  case 0
  then show ?case by simp
next
  case (Suc room)
  have "is_ok (log_text store (root, name))" using open_inner_text [OF Suc.prems(2)] .
  then have "store (root, name) \<noteq> None" by (auto simp: is_ok_iff log_text_Inr)
  with Suc.prems have name: "valid_session_component name" "name \<notin> set visited'"
    and t: "open_inner_loaded ext store root (open_inner room ext store root (name # visited)) name = Inr t"
    by auto
  have "open_inner_loaded ext store root (open_inner room ext store root (name # visited')) name = Inr t"
  proof (rule open_inner_loaded_mono [OF t])
    fix p u assume "open_inner room ext store root (name # visited) p = Inr u"
    then show "open_inner room ext store root (name # visited') p = Inr u"
      by (rule Suc.IH [rotated]) (use Suc.prems(1) in auto)
  qed
  with name show ?case by simp
qed

text \<open>Fewer visited sessions never hurt.\<close>

lemma open_inner_forget:
  "set visited' \<subseteq> set visited \<Longrightarrow> open_inner room ext store root visited name = Inr t \<Longrightarrow>
   open_inner room ext store root visited' name = Inr t"
  by (rule open_inner_visited [of visited' visited]) auto

section \<open>Creating a session\<close>

lemma read_checks_Nil [simp]: "read_checks ext [] = Inr ()"
  by (simp add: read_checks_def project_code_mode_def validate_user_attachment_sequence_def
      validate_assistant_audio_sequence_def)

lemma open_empty_log:
  assumes "valid_session_component i" "store (root, i) = Some (StoredDir (LogFile []))"
  shows "open_inner (Suc room) ext store root [] i =
    Inr (opened (root, i) 0 0 (stream_state [] [] inbox_default None))"
proof -
  have "open_inner_loaded ext store root op i =
      Inr (opened (root, i) 0 0 (stream_state [] [] inbox_default None))" for op
    using assms(2)
    by (simp add: open_inner_loaded_def log_text_def log_lines_def inherit_def nothing_inherited_def
        project_inbox_def read_start_def stream_state_def)
  with assms(1) show ?thesis by simp
qed

lemma create_with_id_reads_back:
  assumes "create_with_id key w = (Inr s, w')"
  shows "reads_back ext (w_store w') s \<and> only_changes ext key (w_store w) (w_store w')
    \<and> session_key s = key \<and> se_events s = [] \<and> se_creation s = None \<and> w_store w key = None
    \<and> check_writable w' s = Inr ()"
proof -
  from assms have key: "valid_session_component (snd key)" "w_store w key = None"
    and s: "\<exists>g. s = new_session key g \<and> is_current w' key g"
    and store: "w_store w' = (w_store w)(key \<mapsto> StoredDir (LogFile []))"
    by (auto simp: create_with_id_def Let_def commit_lease_def acquire_writer_lease_def is_current_def
        split: if_splits option.splits bool.splits prod.splits)
  have "open_session ext (w_store w') key = Inr (opened key 0 0 (stream_state [] [] inbox_default None))"
    using open_empty_log [OF key(1), of "w_store w'" "fst key" max_lineage_depth ext]
    by (simp add: open_session_def store del: open_inner.simps)
  moreover have "only_changes ext key (w_store w) (w_store w')"
    using fresh_only_changes [of "w_store w" "fst key" "snd key"] key(2) by (simp add: store)
  ultimately show ?thesis
    using s key(2)
    by (auto simp: reads_back_def new_session_def as_read_def opened_def stream_state_def check_writable_def)
qed

lemma creation_exact [simp]: "kind_exact (SessionCreated c)"
  by simp

lemma append_creation_reads_back:
  assumes codec: "faithful_codec ext" and rb: "reads_back ext (w_store w) s"
    and root: "cr_parent c = None"
    and ran: "append_creation ext now WriteAll c (w, s) = (Inr e, w', s')"
  shows "reads_back ext (w_store w') s' \<and> only_changes ext (session_key s) (w_store w) (w_store w')
    \<and> se_events s' = [stamp now 0 (SessionCreated c)] \<and> se_creation s' = Some c
    \<and> session_key s' = session_key s"
proof -
  from ran have first: "se_events s = []" "se_creation s = None"
    by (auto simp: append_creation_def split: if_splits)
  from ran obtain s1 where s1: "append_kind ext now WriteAll (SessionCreated c) (w, s) = (Inr e, w', s1)"
    "s' = s1\<lparr>se_creation := Some c\<rparr>"
    by (auto simp: append_creation_def split: if_splits sum.splits prod.splits)
  from s1(1) obtain sp line where p: "prepare_event ext now w s (SessionCreated c) = Inr (e, sp, line)"
    by (auto simp: append_kind_def split: sum.splits)
  note parts = p [unfolded prepare_event_Inr first list.size]
  have bytes: "saturating_add_u64 (se_bytes s) (length line + 1) = se_bytes s + (length line + 1)"
    using parts by (intro saturating_bytes) (simp add: reserve_Inr)
  have result: "w_store w' = append_bytes (session_key s) (batch_text [(e, line)]) (w_store w)"
    "s' = (extend_session ext [(e, line)] (commit_inbox e sp (se_inbox s)) s)\<lparr>se_creation := Some c\<rparr>"
    using s1 p bytes by (auto simp: append_kind_def extend_session_def)
  from reads_backE [OF rb] obtain raw where raw: "session_ok ext (as_read s)"
    "length (se_events s) = se_first s + length (log_lines raw)" by blast
  have state: "reads_ok ext (session_state s)" using session_stateD [OF raw(1)] by simp
  have e: "ev_seq e = 0" "ev_kind e = SessionCreated c" "ev_v e = current_session_log_version"
    using parts by simp_all
  have sp: "inbox_validate_event (lx_labels ext) (se_inbox s) e = Inr sp"
    and boundary: "validate_compaction_boundary (ev_kind e) (ev_seq e) = Inr ()"
    unfolding e(1,2) using parts by blast+
  have valid: "validate_for_version (lx_payload ext) current_session_log_version (ev_kind e) = Inr ()"
    unfolding e(2) using parts by blast
  have line: "line_of ext e line"
    by (rule codecD [OF codec _ e(3) valid]) (use parts in blast, simp add: e(2))
  have step: "read_line ext 0 (session_state s) (0, line) = Inr
      (stream_state (se_events s @ [e]) (se_hashes s @ [event_leaf_sha256 ext line])
        (commit_inbox e sp (se_inbox s)) (Some c))"
    using read_line_accepts [OF line e(3) valid, of "session_state s" sp 0 0 "Some c"] sp boundary e state first
    by (simp add: creation_step_def max_logical_session_events_def)
  have numbered: "numbered [e]" using e by (simp add: numbered_def)
  have checks: "read_checks ext [e] = Inr ()"
    unfolding read_checks_Inr [OF numbered]
    by (simp add: e project_code_mode_def code_mode_event_def settle_pairing_def advance_pairing_def
        all_backward_ok_def backward_ok_def is_ok_iff)
  have parse: "parse_line_unsequenced ext 1 line = Inr e"
    using parse_written [OF line e(3) valid] .
  have "reads_back ext (append_bytes (session_key s) (batch_text [(e, line)]) (w_store w))
      ((extend_session ext [(e, line)] (commit_inbox e sp (se_inbox s)) s)\<lparr>se_creation := Some c\<rparr>)
    \<and> only_changes ext (session_key s) (w_store w)
        (append_bytes (session_key s) (batch_text [(e, line)]) (w_store w))"
  proof (rule commit_rows [OF rb])
    show "no_fork_first ext (map snd [(e, line)])"
      using parse root e by (simp add: no_fork_first_def fork_origin_def)
    show "se_bytes s + length (batch_text [(e, line)]) \<le> max_session_log_bytes"
      using parts by (simp add: reserve_Inr)
  qed (use step first raw line checks in \<open>auto simp: line_of_def\<close>)
  then show ?thesis unfolding result using first parts by (simp add: extend_session_def)
qed

end
