(* ===== verification/Fork_Laws.thy ===== *)
theory Fork_Laws
  imports Lineage_Laws
begin

text \<open>
  Forking: the child's log holds one line, and reopening it stitches the parent's prefix back in
  front of it. The code bounds the ancestors by counting the fork records it inherits; the last
  section shows what that count misses.
\<close>

section \<open>The plan of a fork\<close>

lemma plan_fork_Inr:
  "plan_fork ext now s root boundary metadata = Inr plan \<longleftrightarrow>
     root = se_root s \<and> lineage_depth (se_events s) < max_lineage_depth
     \<and> seed_count s boundary = Inr (fp_seed plan) \<and> fp_seed plan < max_logical_session_events
     \<and> open_turn (take (fp_seed plan) (se_events s)) = None
     \<and> validate_user_attachment_sequence (take (fp_seed plan) (se_events s)) = Inr ()
     \<and> fp_seed plan \<le> length (se_hashes s)
     \<and> (\<exists>p inbox.
          parent_new (se_id s) (fp_seed plan)
            (prefix_sha256 ext (take (fp_seed plan) (se_hashes s))) = Inr p
          \<and> creation_fork metadata p = Inr (fp_creation plan)
          \<and> fp_event plan = stamp now (fp_seed plan) (SessionCreated (fp_creation plan))
          \<and> lx_encode ext (fp_event plan) = Some (fp_line plan)
          \<and> project_inbox (lx_labels ext) (take (fp_seed plan) (se_events s)) = Inr inbox
          \<and> inbox_apply_event (lx_labels ext) inbox (fp_event plan) = Inr (fp_inbox plan))"
proof -
  have turn: "(case open_turn es of None \<Rightarrow> Inr () | Some turn \<Rightarrow> Inl (ForkOpenTurn turn)) = Inr u
      \<longleftrightarrow> open_turn es = None" for es and u :: unit
    by (simp split: option.split)
  show ?thesis
    unfolding plan_fork_def Let_def and_then_Inr turn map_err_Inr ok_or_Inr refuse_if_Inr not_le not_less
      not_not
    by (cases plan) auto
qed

lemma seed_count_le: "seed_count s boundary = Inr n \<Longrightarrow> n \<le> length (se_events s)"
  by (cases boundary) (auto simp: seed_count_def)

lemma parent_new_Inr:
  "parent_new i seed digest = Inr p \<longleftrightarrow>
     valid_session_component i \<and> valid_sha256 digest
     \<and> p = \<lparr>par_id = i, par_seed = seed, par_digest = digest\<rparr>"
  by (auto simp: parent_new_def parent_validate_def Let_def)

section \<open>The child reopens\<close>

definition child_of :: "log_ext \<Rightarrow> string \<Rightarrow> session \<Rightarrow> fork_plan \<Rightarrow> session" where
  "child_of ext i s plan =
     \<lparr>se_root = se_root s, se_id = i,
      se_events = take (fp_seed plan) (se_events s) @ [fp_event plan],
      se_hashes = take (fp_seed plan) (se_hashes s) @ [event_leaf_sha256 ext (fp_line plan)],
      se_inbox = fp_inbox plan, se_creation = Some (fp_creation plan), se_first = fp_seed plan,
      se_bytes = length (fp_line plan) + 1, se_writer = None, se_published = []\<rparr>"

text \<open>A creation record is bounded, so its line fits every log.\<close>

definition creation_fits :: "log_ext \<Rightarrow> bool" where
  "creation_fits ext \<longleftrightarrow>
     (\<forall>e c line. lx_encode ext e = Some line \<longrightarrow> ev_kind e = SessionCreated c \<longrightarrow>
        creation_validate c = Inr () \<longrightarrow> length line < max_session_log_bytes)"

lemma all_backward_ok_take: "all_backward_ok events \<Longrightarrow> all_backward_ok (take n events)"
  by (simp add: all_backward_ok_def min_def)

lemma attachment_sequence_pairing:
  "validate_user_attachment_sequence events = Inr () \<Longrightarrow> settle_pairing (map ev_kind events) = Inr ()"
  unfolding validate_user_attachment_sequence_def settle_pairing_def and_then_Inr selection_fold_Inr
    refuse_if_Inr by blast

lemma project_code_mode_take:
  "is_ok (project_code_mode len events) \<Longrightarrow> is_ok (project_code_mode len (take n events))"
proof -
  assume "is_ok (project_code_mode len events)"
  then obtain p where "try_fold (code_mode_event len) code_mode_default (take n events @ drop n events) = Inr p"
    by (auto simp: is_ok_iff project_code_mode_def)
  then show ?thesis unfolding try_fold_append by (auto simp: is_ok_iff project_code_mode_def)
qed

lemma forked_child_opens:
  assumes codec: "faithful_for is_creation ext" and fits: "creation_fits ext"
    and plan: "plan_fork ext now s (se_root s) boundary metadata = Inr plan"
    and parent: "open_inner room ext store (se_root s) [] (se_id s) = Inr (as_read s)"
    and fresh: "store (se_root s, i) = None" and valid: "valid_session_component i"
  shows "open_inner (Suc room) ext
    (store((se_root s, i) \<mapsto> StoredDir (LogFile (fp_line plan @ [newline])))) (se_root s) [] i =
    Inr (child_of ext i s plan)"
proof -
  let ?root = "se_root s" and ?seed = "fp_seed plan" and ?e = "fp_event plan" and ?line = "fp_line plan"
  let ?c = "fp_creation plan"
  let ?store = "store((?root, i) \<mapsto> StoredDir (LogFile (?line @ [newline])))"
  let ?op = "open_inner room ext ?store ?root [i]"
  from plan obtain p inbox where parts:
    "seed_count s boundary = Inr ?seed" "?seed < max_logical_session_events"
    "validate_user_attachment_sequence (take ?seed (se_events s)) = Inr ()"
    "?seed \<le> length (se_hashes s)"
    "parent_new (se_id s) ?seed (prefix_sha256 ext (take ?seed (se_hashes s))) = Inr p"
    "creation_fork metadata p = Inr ?c" "?e = stamp now ?seed (SessionCreated ?c)"
    "lx_encode ext ?e = Some ?line"
    "project_inbox (lx_labels ext) (take ?seed (se_events s)) = Inr inbox"
    "inbox_apply_event (lx_labels ext) inbox ?e = Inr (fp_inbox plan)"
    unfolding plan_fork_Inr by blast
  have le: "?seed \<le> length (se_events s)" using seed_count_le [OF parts(1)] .
  have p: "p = \<lparr>par_id = se_id s, par_seed = ?seed,
      par_digest = prefix_sha256 ext (take ?seed (se_hashes s))\<rparr>"
    using parts(5) by (simp add: parent_new_Inr)
  have c: "creation_validate ?c = Inr ()" "cr_parent ?c = Some p"
    using parts(6) by (auto simp: creation_fork_Inr creation_validate_def)
  have e: "ev_v ?e = current_session_log_version" "ev_seq ?e = ?seed" "ev_kind ?e = SessionCreated ?c"
    by (simp_all only: parts(7) stamp_simps)
  have payload: "validate_for_version (lx_payload ext) current_session_log_version (ev_kind ?e) = Inr ()"
    using c(1) by (simp add: e(3) is_ok_iff current_session_log_version_def)
  have line: "line_of ext ?e ?line" using faithful_forD [OF codec parts(8) e(1) payload] e(3) by simp
  have parse: "parse_line_unsequenced ext n ?line = Inr ?e" for n by (rule parse_written [OF line e(1) payload])
  have origin: "fork_origin ?e = Some (?c, p)" using c(2) by (simp add: fork_origin_def e(3))
  have "is_ok (log_text store (?root, se_id s))" by (rule open_inner_text [OF parent])
  then have other: "se_id s \<noteq> i" and present: "?store (?root, se_id s) \<noteq> None"
    using fresh by (auto simp: is_ok_iff log_text_Inr)
  have op: "?op (se_id s) = Inr (as_read s)"
    by (rule open_inner_fresh [OF fresh open_inner_visited [OF _ parent]]) (use fresh in auto)
  let ?ih = "\<lparr>ih_events = take ?seed (se_events s), ih_hashes = take ?seed (se_hashes s),
    ih_first = ?seed, ih_creation = Some ?c\<rparr>"
  have text': "log_text ?store (?root, i) = Inr (?line @ [newline])"
  proof -
    have "length ?line < max_session_log_bytes"
      using fits parts(8) e(3) c(1) unfolding creation_fits_def by blast
    moreover have "valid_utf8 (?line @ [newline])" using line valid_utf8_text_of_lines [of "[?line]"]
      by (simp add: line_of_def text_of_lines_def)
    ultimately show ?thesis by (simp add: log_text_Inr complete_text_def)
  qed
  have lines: "log_lines (?line @ [newline]) = [?line]"
    using log_lines_snoc [of "[]" ?line] line by (simp add: line_of_def complete_text_def log_lines_def)
  have inherits: "inherit ext ?op (\<lambda>p. ?store (?root, p) \<noteq> None) i [?line] = Inr ?ih"
    unfolding inherit_Cons
  proof (intro exI conjI)
    show "parse_line_unsequenced ext 1 ?line = Inr ?e" by (rule parse)
    have "prefix_from ext i ?e ?c p (as_read s) ?ih"
      using other parts(2,4) le by (simp add: prefix_from_def p e(2) as_read_def)
    with op present show "case fork_origin ?e of None \<Rightarrow> ?ih = nothing_inherited
      | Some (c, p) \<Rightarrow> ?store (?root, par_id p) \<noteq> None
          \<and> (\<exists>t. ?op (par_id p) = Inr t \<and> prefix_from ext i ?e c p t ?ih)"
      unfolding origin option.case split_conv by (auto simp: p)
  qed
  have ok: "session_ok ext (as_read s)" using open_inner_ok [OF parent] by simp
  have start: "reads_ok ext (read_start ?ih inbox)"
    using reads_ok_start [OF inherits open_inner_streams] parts(9) by simp
  obtain sp where sp: "inbox_validate_event (lx_labels ext) inbox ?e = Inr sp"
    "fp_inbox plan = commit_inbox ?e sp inbox"
    using parts(10) by (auto simp: inbox_apply_event_def commit_inbox_def)
  let ?st = "stream_state (take ?seed (se_events s) @ [?e])
    (take ?seed (se_hashes s) @ [event_leaf_sha256 ext ?line]) (fp_inbox plan) (Some ?c)"
  have step: "read_line ext ?seed (read_start ?ih inbox) (0, ?line) = Inr ?st"
    using read_line_accepts [OF line e(1) payload, of "read_start ?ih inbox" sp ?seed 0 "Some ?c"]
      start sp parts(2) le c(2)
    by (simp add: e(2,3) validate_compaction_boundary_def read_start_def creation_step_def min_def)
  have numbered: "numbered (take ?seed (se_events s) @ [?e])"
    using read_line_ok [OF start step] le by (simp add: reads_ok_def stream_ok_def stream_state_def
        read_start_def min_def)
  have checks: "read_checks ext (take ?seed (se_events s) @ [?e]) = Inr ()"
    unfolding read_checks_Inr [OF numbered] map_append all_backward_ok_snoc
  proof (intro conjI)
    show "is_ok (project_code_mode (lx_code_len ext) (take ?seed (se_events s) @ [?e]))"
      using project_code_mode_take session_checksD [OF ok] by (simp add: project_code_mode_quiet e(3))
    show "settle_pairing (map ev_kind (take ?seed (se_events s)) @ map ev_kind [?e]) = Inr ()"
      unfolding settle_pairing_append [OF attachment_sequence_pairing [OF parts(3)]]
      by (simp add: settle_pairing_def advance_pairing_def e(3))
    show "all_backward_ok (take ?seed (se_events s))"
      using session_checksD [OF ok] by (simp add: all_backward_ok_take)
    show "backward_ok (take ?seed (se_events s)) (ev_kind ?e)" by (simp add: backward_ok_def e(3))
  qed
  have "open_inner_loaded ext ?store ?root ?op i =
      Inr (opened (?root, i) ?seed (length (?line @ [newline])) ?st)"
    unfolding open_inner_loaded_Inr
  proof (intro exI conjI)
    show "log_text ?store (?root, i) = Inr (?line @ [newline])" by (rule text')
    show "inherit ext ?op (\<lambda>p. ?store (?root, p) \<noteq> None) i (log_lines (?line @ [newline])) = Inr ?ih"
      unfolding lines by (rule inherits)
    show "project_inbox (lx_labels ext) (ih_events ?ih) = Inr inbox" using parts(9) by simp
    show "try_fold (read_line ext (ih_first ?ih)) (read_start ?ih inbox)
        (List.enumerate 0 (log_lines (?line @ [newline]))) = Inr ?st"
      unfolding lines using step by simp
    show "read_checks ext (rd_events ?st) = Inr ()" using checks by (simp add: stream_state_def)
  qed simp
  moreover have "opened (?root, i) ?seed (length (?line @ [newline])) ?st = child_of ext i s plan"
    by (simp add: opened_def child_of_def stream_state_def)
  ultimately show ?thesis using valid by (simp del: fun_upd_apply)
qed

section \<open>Levels\<close>

text \<open>\<open>opens_within n\<close>: the session opens with \<open>n\<close> levels to go.\<close>

definition opens_within :: "nat \<Rightarrow> log_ext \<Rightarrow> store \<Rightarrow> session \<Rightarrow> bool" where
  "opens_within n ext store s \<longleftrightarrow>
     open_inner n ext store (se_root s) [] (se_id s) = Inr (as_read s)"

lemma opens_within_reads_back:
  "opens_within n ext store s \<Longrightarrow> n \<le> max_lineage_depth + 1 \<Longrightarrow> reads_back ext store s"
  unfolding opens_within_def reads_back_def open_session_def by (simp only: fst_conv snd_conv open_inner_room)

lemma lineage_depth_snoc:
  "lineage_depth (events @ [e]) = lineage_depth events + (if fork_origin e = None then 0 else 1)"
  by (simp add: lineage_depth_def)

lemma fork_with_metadata_Inr:
  assumes "fork_with_metadata ext now WriteAll i s root boundary metadata w = (Inr c, w')"
  obtains plan where "plan_fork ext now s (se_root s) boundary metadata = Inr plan" "root = se_root s"
    "w_store w (se_root s, i) = None"
    "w_store w' = (w_store w)((se_root s, i) \<mapsto> StoredDir (LogFile (fp_line plan @ [newline])))"
    "as_read c = child_of ext i s plan" "check_writable w' c = Inr ()"
proof -
  from assms obtain plan where plan: "plan_fork ext now s root boundary metadata = Inr plan"
    by (auto simp: fork_with_metadata_def split: sum.splits)
  then have root: "root = se_root s" by (simp add: plan_fork_Inr)
  from assms plan show thesis
    by (intro that [of plan])
      (auto simp: fork_with_metadata_def root Let_def commit_lease_def as_read_def child_of_def
        check_writable_def is_current_def split: if_splits option.splits bool.splits prod.splits)
qed

lemma fork_reads_back:
  assumes codec: "faithful_for is_creation ext" and fits: "creation_fits ext"
    and ran: "fork_with_metadata ext now WriteAll i s root boundary metadata w = (Inr c, w')"
    and valid: "valid_session_component i"
    and parent: "opens_within (lineage_depth (se_events s) + 1) ext (w_store w) s"
    and covered: "lineage_depth (take (se_first c) (se_events s)) = lineage_depth (se_events s)"
  shows "reads_back ext (w_store w') c \<and> opens_within (lineage_depth (se_events c) + 1) ext (w_store w') c
    \<and> opens_within (lineage_depth (se_events s) + 1) ext (w_store w') s
    \<and> only_changes ext (root, i) (w_store w) (w_store w')"
proof -
  from fork_with_metadata_Inr [OF ran] obtain plan where plan:
    "plan_fork ext now s (se_root s) boundary metadata = Inr plan" "root = se_root s"
    "w_store w (se_root s, i) = None"
    "w_store w' = (w_store w)((se_root s, i) \<mapsto> StoredDir (LogFile (fp_line plan @ [newline])))"
    "as_read c = child_of ext i s plan" by blast
  have c: "se_root c = se_root s" "se_id c = i" "se_first c = fp_seed plan"
    "se_events c = take (fp_seed plan) (se_events s) @ [fp_event plan]"
    using plan(5) by (auto simp: as_read_def child_of_def dest: arg_cong [where f = se_root]
        arg_cong [where f = se_id] arg_cong [where f = se_first] arg_cong [where f = se_events])
  from plan(1) obtain p where e: "fp_event plan = stamp now (fp_seed plan) (SessionCreated (fp_creation plan))"
    "creation_fork metadata p = Inr (fp_creation plan)"
    and bound: "lineage_depth (se_events s) < max_lineage_depth"
    unfolding plan_fork_Inr by blast
  have "fork_origin (fp_event plan) \<noteq> None"
    using e(2) by (auto simp: fork_origin_def e(1) creation_fork_Inr)
  then have depth: "lineage_depth (se_events c) = Suc (lineage_depth (se_events s))"
    using covered by (simp add: c lineage_depth_snoc)
  have "open_inner (Suc (lineage_depth (se_events s) + 1)) ext (w_store w') (se_root s) [] i =
      Inr (child_of ext i s plan)"
    unfolding plan(4)
    by (rule forked_child_opens [OF codec fits plan(1) parent [unfolded opens_within_def] plan(3) valid])
  then have opens: "opens_within (lineage_depth (se_events c) + 1) ext (w_store w') c"
    unfolding opens_within_def depth c(1,2) plan(5) by simp
  have "opens_within (lineage_depth (se_events s) + 1) ext (w_store w') s"
    using open_inner_fresh [OF plan(3) parent [unfolded opens_within_def]]
    unfolding opens_within_def plan(4) .
  moreover have "reads_back ext (w_store w') c"
    by (rule opens_within_reads_back [OF opens]) (use bound depth in simp)
  ultimately show ?thesis
    using opens fresh_only_changes [of "w_store w" "se_root s" i] plan(3) by (simp add: plan(2,4))
qed

section \<open>Beyond the limit\<close>

text \<open>A chain of logs whose first lines name the next directory as their parent.\<close>

definition forked_from :: "log_ext \<Rightarrow> store \<Rightarrow> string \<Rightarrow> string \<Rightarrow> string \<Rightarrow> bool" where
  "forked_from ext store root i parent \<longleftrightarrow>
     valid_session_component i \<and> store (root, parent) \<noteq> None
     \<and> (\<exists>raw line rest e c p. log_text store (root, i) = Inr raw \<and> log_lines raw = line # rest
          \<and> parse_line_unsequenced ext 1 line = Inr e \<and> fork_origin e = Some (c, p)
          \<and> par_id p = parent \<and> parent \<noteq> i \<and> ev_seq e = par_seed p
          \<and> par_seed p < max_logical_session_events)"

fun lineage_chain :: "log_ext \<Rightarrow> store \<Rightarrow> string \<Rightarrow> string list \<Rightarrow> bool" where
  "lineage_chain ext store root [] = True"
| "lineage_chain ext store root [i] = valid_session_component i"
| "lineage_chain ext store root (i # parent # is) =
     (forked_from ext store root i parent \<and> lineage_chain ext store root (parent # is))"

lemma forked_from_fresh:
  "store (root, j) = None \<Longrightarrow> forked_from ext store root i parent \<Longrightarrow>
   forked_from ext (store((root, j) \<mapsto> x)) root i parent"
  unfolding forked_from_def log_text_Inr by auto

lemma lineage_chain_fresh:
  "store (root, j) = None \<Longrightarrow> lineage_chain ext store root is \<Longrightarrow>
   lineage_chain ext (store((root, j) \<mapsto> x)) root is"
  by (induction "is" rule: induct_list012) (auto intro: forked_from_fresh simp del: fun_upd_apply)

lemma lineage_chain_too_deep:
  "lineage_chain ext store root (i # is) \<Longrightarrow> distinct (i # is) \<Longrightarrow> set (i # is) \<inter> set visited = {} \<Longrightarrow>
   room \<le> length is \<Longrightarrow> open_inner room ext store root visited i = Inl LineageTooDeep"
proof (induction "is" arbitrary: i visited room)
  case Nil
  then show ?case by (simp add: refuse_if_def)
next
  case (Cons j js)
  from Cons.prems(1) have step: "forked_from ext store root i j" "lineage_chain ext store root (j # js)"
    by simp_all
  then have valid: "valid_session_component i" by (simp add: forked_from_def)
  show ?case
  proof (cases room)
    case 0
    with valid show ?thesis by (simp add: refuse_if_def)
  next
    case (Suc n)
    have parent: "open_inner n ext store root (i # visited) j = Inl LineageTooDeep"
      by (rule Cons.IH [OF step(2)]) (use Cons.prems Suc in auto)
    from step(1) obtain raw line rest e c p where f:
      "log_text store (root, i) = Inr raw" "log_lines raw = line # rest"
      "parse_line_unsequenced ext 1 line = Inr e" "fork_origin e = Some (c, p)" "par_id p = j" "j \<noteq> i"
      "ev_seq e = par_seed p" "par_seed p < max_logical_session_events" "store (root, j) \<noteq> None"
      unfolding forked_from_def by blast
    have "inherit ext (open_inner n ext store root (i # visited)) (\<lambda>p. store (root, p) \<noteq> None) i
        (line # rest) = Inl LineageTooDeep"
      using f parent by (simp add: inherit_def inherit_prefix_def refuse_if_def)
    then have "open_inner_loaded ext store root (open_inner n ext store root (i # visited)) i =
        Inl LineageTooDeep"
      using f(1,2) by (simp add: open_inner_loaded_def)
    with valid Cons.prems(3) show ?thesis by (simp add: Suc refuse_if_def)
  qed
qed

end
