(* ===== verification/Log_History.thy ===== *)
theory Log_History
  imports Session_Operations Fork_Laws "HOL-Library.Sublist"
begin

text \<open>
  The life of a sessions root in one process: handles are created, opened for writing, forked
  from, written through and dropped, in any order. \<open>log_system\<close> is the step relation on
  the world and the list of live handles with a lease; it is parametric in the kinds that callers
  append and in the forks whose child handle they keep, so that each law names the restriction it
  needs. A write reaches the file whole or not at all; what happens otherwise is a matter of its own.
\<close>

section \<open>One write\<close>

definition whole_write :: "write_outcome \<Rightarrow> bool" where
  "whole_write outcome \<longleftrightarrow> outcome = WriteAll \<or> outcome = WriteFailed 0"

inductive log_step ::
  "(session_event_kind \<Rightarrow> bool) \<Rightarrow> log_ext \<Rightarrow> world \<times> session \<Rightarrow> world \<times> session \<Rightarrow> bool"
  for kinds ext where
  log_append: "append_session ext now outcome k (w, s) = (r, w', s') \<Longrightarrow> whole_write outcome \<Longrightarrow>
     kinds k \<Longrightarrow> log_step kinds ext (w, s) (w', s')"
| log_input: "append_user_message_with_routes ext clock outcome body atts routes (w, s) = (r, w', s') \<Longrightarrow>
     whole_write outcome \<Longrightarrow> log_step kinds ext (w, s) (w', s')"
| log_audio: "append_assistant_audio ext now outcome turn step request atts (w, s) = (r, w', s') \<Longrightarrow>
     whole_write outcome \<Longrightarrow> log_step kinds ext (w, s) (w', s')"
| log_claim: "append_inbox_claim ext clock outcome target start (w, s) = (m, w', s') \<Longrightarrow>
     whole_write outcome \<Longrightarrow> log_step kinds ext (w, s) (w', s')"
| log_recall: "recall_human_messages ext clock outcome (w, s) = (ms, w', s') \<Longrightarrow>
     whole_write outcome \<Longrightarrow> log_step kinds ext (w, s) (w', s')"

text \<open>What every operation comes down to: one event or one batch reached the file.\<close>

definition log_written ::
  "(session_event_kind \<Rightarrow> bool) \<Rightarrow> log_ext \<Rightarrow> world \<times> session \<Rightarrow> world \<times> session \<Rightarrow> bool" where
  "log_written kinds ext = (\<lambda>(w, s) (w', s').
     (\<exists>now k e. append_kind ext now WriteAll k (w, s) = (Inr e, w', s')
          \<and> (kinds k \<or> kind_exact k) \<and> \<not> is_creation k)
     \<or> (\<exists>clock ks e. append_kinds_atomically ext clock WriteAll ks (w, s) = (Inr e, w', s')
          \<and> list_all batch_kind ks))"

lemma append_bytes_Nil [simp]: "append_bytes key [] store = store"
  by (auto simp: append_bytes_def fun_upd_idem split: option.split stored.split log_file.split)

lemma append_kind_whole:
  assumes "append_kind ext now outcome k (w, s) = (r, w', s')" "whole_write outcome"
    and "kinds k \<or> kind_exact k" "\<not> is_creation k"
  shows "(w', s') = (w, s) \<or> log_written kinds ext (w, s) (w', s')"
proof (cases r)
  case (Inl err)
  with assms(1,2) show ?thesis
    by (auto simp: append_kind_def whole_write_def split: sum.splits)
next
  case (Inr e)
  with assms(1) have "outcome = WriteAll"
    by (auto simp: append_kind_def split: sum.splits write_outcome.splits)
  with assms Inr show ?thesis unfolding log_written_def by blast
qed

lemmas append_exact_whole = append_kind_whole [OF _ _ disjI2]

lemma append_atomically_whole:
  assumes "append_kinds_atomically ext clock outcome ks (w, s) = (r, w', s')" "whole_write outcome"
    and "list_all batch_kind ks" "ks \<noteq> []"
  shows "(w', s') = (w, s) \<or> log_written kinds ext (w, s) (w', s')"
proof (cases r)
  case (Inl err)
  with assms(1,2,4) show ?thesis
    by (auto simp: append_kinds_atomically_def whole_write_def prepare_atomically_Inr
        dest: prepare_batch_kinds split: sum.splits if_splits)
next
  case (Inr e)
  with assms(1) have "outcome = WriteAll"
    by (auto simp: append_kinds_atomically_def split: sum.splits write_outcome.splits)
  with assms Inr show ?thesis unfolding log_written_def by blast
qed

lemma cancellations_batch: "list_all batch_kind (cancellations p)"
  by (auto simp: cancellations_def list_all_iff cancel_splice_removal)

lemma no_recall: "cancellations (se_inbox s) = [] \<Longrightarrow> pending_human_messages s = []"
proof -
  assume "cancellations (se_inbox s) = []"
  then have "rev (filter is_human (ip_next_turn (se_inbox s))) = []"
    "rev (filter is_human (ip_next_step (se_inbox s))) = []"
    unfolding map_human_positions [symmetric] by (simp_all add: cancellations_def)
  then show ?thesis by (simp add: pending_human_messages_def)
qed

lemma log_stepD:
  "log_step kinds ext c c' \<Longrightarrow> c' = c \<or> log_written kinds ext c c'"
proof (induction rule: log_step.induct)
  case (log_append now outcome k w s r w' s')
  show ?case
  proof (cases "is_creation k")
    case False
    with log_append(1) have "(w', s') = (w, s) \<or> append_kind ext now outcome k (w, s) = (r, w', s')"
      by (auto simp: append_session_def split: if_splits)
    moreover have "kinds k \<or> kind_exact k" using log_append(3) by blast
    ultimately show ?thesis using append_kind_whole log_append(2) False by blast
  qed (use log_append(1) in \<open>auto simp: append_session_def split: if_splits\<close>)
next
  case (log_input clock outcome body atts routes w s r w' s')
  then show ?case
    by (auto simp: append_user_message_with_routes_def batch_kind_def split: if_splits
        dest: append_exact_whole append_atomically_whole)
next
  case (log_audio now outcome turn step request atts w s r w' s')
  then show ?case by (auto simp: append_assistant_audio_def dest: append_exact_whole)
next
  case (log_claim clock outcome target start w s m w' s')
  then show ?case
    by (auto simp: append_inbox_claim_def Let_def claim_splice_removal split: if_splits prod.splits
        dest!: append_atomically_whole)
next
  case (log_recall clock outcome w s ms w' s')
  then show ?case
    using no_recall [of s]
    by (auto simp: recall_human_messages_def Let_def cancellations_batch split: if_splits prod.splits
        dest!: append_atomically_whole)
qed

definition handle_id :: "session \<Rightarrow> session_key \<times> nat option" where
  "handle_id s = (session_key s, se_writer s)"

text \<open>No write removes a session.\<close>

definition keeps_sessions :: "store \<Rightarrow> store \<Rightarrow> bool" where
  "keeps_sessions store store' \<longleftrightarrow> dom store \<subseteq> dom store'"

lemma keeps_append_bytes [simp]: "keeps_sessions store (append_bytes key bytes store)"
  by (auto simp: keeps_sessions_def append_bytes_def split: option.split stored.split log_file.split)

lemma append_kind_frame:
  "append_kind ext now WriteAll k (w, s) = (Inr e, w', s') \<Longrightarrow>
   check_writable w s = Inr () \<and> handle_id s' = handle_id s \<and> w_leases w' = w_leases w
   \<and> prefix (se_events s) (se_events s') \<and> keeps_sessions (w_store w) (w_store w')"
  by (auto simp: append_kind_def handle_id_def prepare_event_Inr split: sum.splits)

lemma append_atomically_frame:
  "append_kinds_atomically ext clock WriteAll ks (w, s) = (Inr e, w', s') \<Longrightarrow>
   check_writable w s = Inr () \<and> handle_id s' = handle_id s \<and> w_leases w' = w_leases w
   \<and> prefix (se_events s) (se_events s') \<and> keeps_sessions (w_store w) (w_store w')"
  by (auto simp: append_kinds_atomically_def handle_id_def prepare_atomically_Inr
      split: sum.splits if_splits)

lemma log_written_frame:
  "log_written kinds ext (w, s) (w', s') \<Longrightarrow>
   check_writable w s = Inr () \<and> handle_id s' = handle_id s \<and> w_leases w' = w_leases w
   \<and> prefix (se_events s) (se_events s') \<and> keeps_sessions (w_store w) (w_store w')"
  unfolding log_written_def split_conv
  by (elim disjE exE conjE) (simp_all only: append_kind_frame append_atomically_frame simp_thms)

lemma log_written_reads_back:
  assumes "faithful_codec ext" "reads_back ext (w_store w) s" "log_written kind_exact ext (w, s) (w', s')"
  shows "reads_back ext (w_store w') s' \<and> only_changes ext (session_key s) (w_store w) (w_store w')"
  using assms(3) unfolding log_written_def split_conv disj_absorb
proof (elim disjE exE conjE)
  fix now k e assume "append_kind ext now WriteAll k (w, s) = (Inr e, w', s')" "kind_exact k" "\<not> is_creation k"
  then show ?thesis using append_kind_reads_back [OF assms(1,2)] by blast
next
  fix clock ks e assume "append_kinds_atomically ext clock WriteAll ks (w, s) = (Inr e, w', s')"
    "list_all batch_kind ks"
  then show ?thesis using append_atomically_reads_back [OF assms(1,2)] by blast
qed

section \<open>Handles of one process\<close>

inductive log_system ::
  "(session_event_kind \<Rightarrow> bool) \<Rightarrow> (world \<Rightarrow> session \<Rightarrow> string \<Rightarrow> bool) \<Rightarrow> log_ext
   \<Rightarrow> world \<times> session list \<Rightarrow> world \<times> session list \<Rightarrow> bool"
  for kinds forks ext where
  system_create: "create_with_id key w = (Inr s, w') \<Longrightarrow>
     log_system kinds forks ext (w, ss) (w', s # ss)"
| system_metadata: "create_with_id_and_metadata ext now WriteAll key metadata w = (Inr s, w') \<Longrightarrow>
     log_system kinds forks ext (w, ss) (w', s # ss)"
| system_open: "open_for_writing ext w key = (Inr s, w') \<Longrightarrow>
     log_system kinds forks ext (w, ss) (w', s # ss)"
| system_fork: "fork_with_metadata ext now WriteAll child s root boundary metadata w = (Inr c, w') \<Longrightarrow>
     forks w s child \<Longrightarrow> log_system kinds forks ext (w, ss) (w', c # ss)"
| system_fork_dropped: "fork_with_metadata ext now WriteAll child s root boundary metadata w = (Inr c, w') \<Longrightarrow>
     log_system kinds forks ext (w, ss) (drop_session c w', ss)"
| system_write: "i < length ss \<Longrightarrow> log_step kinds ext (w, ss ! i) (w', s') \<Longrightarrow>
     log_system kinds forks ext (w, ss) (w', ss[i := s'])"
| system_drop: "i < length ss \<Longrightarrow>
     log_system kinds forks ext (w, ss) (drop_session (ss ! i) w, remove_nth i ss)"

text \<open>
  The forks whose child is sure to reopen: the parent opens with a level of ancestors to spare,
  and the child's id, which the code generates, is a valid name.
\<close>

definition readable_fork :: "log_ext \<Rightarrow> world \<Rightarrow> session \<Rightarrow> string \<Rightarrow> bool" where
  "readable_fork ext w s child \<longleftrightarrow>
     valid_session_component child \<and> opens_within max_lineage_depth ext (w_store w) s"

text \<open>
  A key with a lease has as many live handles as the lease counts, with different generations,
  none above the lease's; and the one handle that may write holds what its log reads back as.
\<close>

definition handles_of :: "session_key \<Rightarrow> session list \<Rightarrow> session list" where
  "handles_of key ss = filter (\<lambda>s. session_key s = key) ss"

definition leases_ok :: "world \<Rightarrow> session list \<Rightarrow> bool" where
  "leases_ok w ss \<longleftrightarrow>
     distinct (map handle_id ss)
     \<and> (\<forall>s \<in> set ss. w_store w (session_key s) \<noteq> None
          \<and> (\<exists>l g. w_leases w (session_key s) = Some l \<and> se_writer s = Some g \<and> g \<le> ls_generation l))
     \<and> (\<forall>key l. w_leases w key = Some l \<longrightarrow> ls_holders l = length (handles_of key ss))"

definition handles_ok :: "log_ext \<Rightarrow> world \<Rightarrow> session list \<Rightarrow> bool" where
  "handles_ok ext w ss \<longleftrightarrow>
     (\<forall>s \<in> set ss. check_writable w s = Inr () \<longrightarrow> reads_back ext (w_store w) s)"

lemma writable_iff:
  "check_writable w s = Inr () \<longleftrightarrow>
     (case se_writer s of None \<Rightarrow> True
      | Some g \<Rightarrow> (\<exists>l. w_leases w (session_key s) = Some l \<and> ls_generation l = g))"
  by (auto simp: check_writable_def is_current_def split: option.split)

lemma one_writable:
  assumes ok: "leases_ok w ss" and ij: "i < length ss" "j < length ss"
    and key: "session_key (ss ! i) = session_key (ss ! j)"
    and w: "check_writable w (ss ! i) = Inr ()" "check_writable w (ss ! j) = Inr ()"
  shows "i = j"
proof -
  from ok ij obtain g h where "se_writer (ss ! i) = Some g" "se_writer (ss ! j) = Some h"
    unfolding leases_ok_def by (meson nth_mem)
  with w key have "handle_id (ss ! i) = handle_id (ss ! j)"
    by (auto simp: writable_iff handle_id_def)
  with ok ij show ?thesis unfolding leases_ok_def by (simp add: distinct_conv_nth) (metis length_map nth_map)
qed

text \<open>A new handle: \<open>commit_lease\<close> supersedes the others of its key.\<close>

lemma lease_added:
  assumes ok: "leases_ok w ss" and keeps: "keeps_sessions (w_store w) (w_store w')"
    and lease: "commit_lease key w = (g, w1)" "w_leases w' = w_leases w1"
    and s: "session_key s = key" "se_writer s = Some g" "w_store w' key \<noteq> None"
  shows "leases_ok w' (s # ss)"
    and "\<And>t. t \<in> set ss \<Longrightarrow> check_writable w' t = Inr () \<Longrightarrow>
      session_key t \<noteq> key \<and> check_writable w t = Inr ()"
proof -
  have store: "w_store w key \<noteq> None \<Longrightarrow> w_store w' key \<noteq> None" for key
    using keeps by (auto simp: keeps_sessions_def simp del: split_paired_All)
  define n where "n = length (handles_of key ss)"
  obtain g0 where l: "g = Suc g0" "w_leases w' = (w_leases w)(key \<mapsto> \<lparr>ls_generation = Suc g0, ls_holders = n + 1\<rparr>)"
    and below: "\<And>t h. t \<in> set ss \<Longrightarrow> session_key t = key \<Longrightarrow> se_writer t = Some h \<Longrightarrow> h \<le> g0"
  proof (cases "w_leases w key")
    case None
    then have "\<And>t. t \<in> set ss \<Longrightarrow> session_key t \<noteq> key" using ok unfolding leases_ok_def by fastforce
    moreover from this have "n = 0" by (simp add: n_def handles_of_def filter_empty_conv)
    ultimately show thesis using that [of 0] lease None by (auto simp: commit_lease_def)
  next
    case (Some l)
    then have "ls_holders l = n" using ok unfolding leases_ok_def n_def by blast
    moreover have "t \<in> set ss \<Longrightarrow> session_key t = key \<Longrightarrow> se_writer t = Some h \<Longrightarrow> h \<le> ls_generation l" for t h
      using ok Some unfolding leases_ok_def by fastforce
    ultimately show thesis using that [of "ls_generation l"] lease Some by (auto simp: commit_lease_def)
  qed
  have writer: "\<exists>l g. w_leases w (session_key t) = Some l \<and> se_writer t = Some g \<and> g \<le> ls_generation l"
    "w_store w (session_key t) \<noteq> None"
    if "t \<in> set ss" for t using ok that unfolding leases_ok_def by blast+
  have "handle_id s \<notin> set (map handle_id ss)"
  proof
    assume "handle_id s \<in> set (map handle_id ss)"
    then obtain t where "t \<in> set ss" "handle_id t = handle_id s" by force
    with s l(1) have "session_key t = key" "se_writer t = Some (Suc g0)"
      by (simp_all only: handle_id_def prod.inject)
    from below [OF \<open>t \<in> set ss\<close> this] show False by simp
  qed
  moreover have "w_store w' (session_key t) \<noteq> None \<and> (\<exists>l g. w_leases w' (session_key t) = Some l \<and>
      se_writer t = Some g \<and> g \<le> ls_generation l)" if t: "t \<in> set ss" for t
  proof (cases "session_key t = key")
    case True
    with writer(1) [OF t] below [OF t] store [OF writer(2) [OF t]] show ?thesis by (auto simp: l)
  next
    case False
    with writer(1) [OF t] store [OF writer(2) [OF t]] show ?thesis by (auto simp: l)
  qed
  moreover have "ls_holders l = length (handles_of k (s # ss))" if "w_leases w' k = Some l" for k l
    using that ok s(1)
    by (auto simp: l n_def leases_ok_def handles_of_def simp del: split_paired_All split: if_splits)
  ultimately show "leases_ok w' (s # ss)"
    using ok s l unfolding leases_ok_def by (auto simp del: fun_upd_apply simp: fun_upd_same)
  show "session_key t \<noteq> key \<and> check_writable w t = Inr ()"
    if "t \<in> set ss" "check_writable w' t = Inr ()" for t
    using that below [OF that(1)] writer(1) [OF that(1)]
    by (auto simp: writable_iff l split: if_splits option.splits)
qed

text \<open>A dropped handle: the entry goes with the last holder, and no other handle is affected.\<close>

lemma lease_dropped:
  assumes ok: "leases_ok w (xs @ s # ys)"
  shows "leases_ok (drop_session s w) (xs @ ys)"
    and "\<And>t. t \<in> set (xs @ ys) \<Longrightarrow> check_writable (drop_session s w) t = Inr () \<Longrightarrow> check_writable w t = Inr ()"
    and "w_store (drop_session s w) = w_store w"
proof -
  let ?key = "session_key s"
  have s: "s \<in> set (xs @ s # ys)" by simp
  with ok obtain l g where l: "w_leases w ?key = Some l" "se_writer s = Some g"
    unfolding leases_ok_def by meson
  have count: "ls_holders l = Suc (length (handles_of ?key (xs @ ys)))"
    using ok l(1) unfolding leases_ok_def by (simp add: handles_of_def)
  let ?left = "if ls_holders l \<le> 1 then None else Some (l\<lparr>ls_holders := ls_holders l - 1\<rparr>)"
  have w': "drop_session s w = w\<lparr>w_leases := (w_leases w)(?key := ?left)\<rparr>"
    by (simp add: drop_session_def l)
  have alone: "session_key t \<noteq> ?key" if "ls_holders l \<le> 1" "t \<in> set (xs @ ys)" for t
    using that count by (auto simp: handles_of_def filter_empty_conv)
  have writer: "w_store w (session_key t) \<noteq> None"
    "\<exists>l g. w_leases w (session_key t) = Some l \<and> se_writer t = Some g \<and> g \<le> ls_generation l"
    if "t \<in> set (xs @ ys)" for t using ok that unfolding leases_ok_def by (auto simp del: split_paired_All)
  show "leases_ok (drop_session s w) (xs @ ys)"
    unfolding leases_ok_def
  proof (intro conjI ballI allI impI)
    show "distinct (map handle_id (xs @ ys))" using ok by (simp add: leases_ok_def)
    fix t assume t: "t \<in> set (xs @ ys)"
    show "w_store (drop_session s w) (session_key t) \<noteq> None" using writer(1) [OF t] by (simp add: w')
    show "\<exists>l g. w_leases (drop_session s w) (session_key t) = Some l \<and> se_writer t = Some g
        \<and> g \<le> ls_generation l"
      using writer(2) [OF t] alone [OF _ t] l(1) by (cases "session_key t = ?key") (auto simp: w')
  next
    fix key k assume k: "w_leases (drop_session s w) key = Some k"
    show "ls_holders k = length (handles_of key (xs @ ys))"
    proof (cases "key = ?key")
      case True
      with k count show ?thesis by (auto simp: w' split: if_splits)
    next
      case False
      then have "w_leases w key = Some k" using k by (simp add: w' del: split_paired_All)
      then have "ls_holders k = length (handles_of key (xs @ s # ys))"
        using ok unfolding leases_ok_def by blast
      with False show ?thesis by (simp add: handles_of_def)
    qed
  qed
  show "check_writable w t = Inr ()"
    if "t \<in> set (xs @ ys)" "check_writable (drop_session s w) t = Inr ()" for t
    using that writer(2) [OF that(1)] alone [OF _ that(1)] l(1)
    by (cases "session_key t = ?key") (auto simp: writable_iff w' split: if_splits option.splits)
qed (auto simp: drop_session_def split: option.splits)

lemma leases_ok_frame:
  assumes "leases_ok w ss" "w_leases w' = w_leases w"
    and "keeps_sessions (w_store w) (w_store w')"
    and "map handle_id ss' = map handle_id ss"
  shows "leases_ok w' ss'"
proof -
  have len: "length (handles_of key zs) = length (filter (\<lambda>h. fst h = key) (map handle_id zs))" for key zs
    by (simp add: handles_of_def filter_map o_def handle_id_def)
  have handles: "length (handles_of key ss') = length (handles_of key ss)" for key
    unfolding len assms(4) ..
  have mem: "\<exists>s \<in> set ss. handle_id s = handle_id t" if "t \<in> set ss'" for t
    using that assms(4) by (metis imageE image_eqI list.set_map)
  have "w_store w' (session_key t) \<noteq> None \<and> (\<exists>l g. w_leases w' (session_key t) = Some l
      \<and> se_writer t = Some g \<and> g \<le> ls_generation l)" if t: "t \<in> set ss'" for t
  proof -
    obtain s where s: "s \<in> set ss" "handle_id s = handle_id t" using mem [OF t] by blast
    have "session_key t = session_key s" "se_writer t = se_writer s"
      using s(2) by (simp_all only: handle_id_def prod.inject)
    moreover have "w_store w key \<noteq> None \<Longrightarrow> w_store w' key \<noteq> None" for key
      using assms(3) by (auto simp: keeps_sessions_def simp del: split_paired_All)
    ultimately show ?thesis using s(1) assms(1) unfolding assms(2) leases_ok_def by metis
  qed
  with assms(1) show ?thesis unfolding leases_ok_def handles assms(2,4) by blast
qed

section \<open>The invariant\<close>

definition system_ok :: "log_ext \<Rightarrow> world \<Rightarrow> session list \<Rightarrow> bool" where
  "system_ok ext w ss \<longleftrightarrow> leases_ok w ss \<and> handles_ok ext w ss"

lemma reads_back_changed:
  "reads_back ext store t \<Longrightarrow> only_changes ext key store store' \<Longrightarrow> session_key t \<noteq> key \<Longrightarrow>
   reads_back ext store' t"
  unfolding reads_back_def only_changes_def by blast

lemma handle_added:
  assumes ok: "system_ok ext w ss"
    and keeps: "keeps_sessions (w_store w) (w_store w')" "only_changes ext key (w_store w) (w_store w')"
    and lease: "commit_lease key w0 = (g, w1)" "w_leases w0 = w_leases w" "w_leases w' = w_leases w1"
    and s: "session_key s = key" "se_writer s = Some g" "w_store w' key \<noteq> None" "reads_back ext (w_store w') s"
  shows "system_ok ext w' (s # ss)"
proof -
  have lease': "commit_lease key w = (g, w\<lparr>w_leases := w_leases w'\<rparr>)"
    using lease by (auto simp: commit_lease_def Let_def split: option.splits)
  note added = lease_added [OF _ keeps(1) lease' _ s(1-3)]
  have l: "leases_ok w ss" using ok by (simp add: system_ok_def)
  have "handles_ok ext w' (s # ss)"
    unfolding handles_ok_def
  proof (intro ballI impI)
    fix t assume t: "t \<in> set (s # ss)" "check_writable w' t = Inr ()"
    show "reads_back ext (w_store w') t"
    proof (cases "t = s")
      case False
      with t have "session_key t \<noteq> key" "check_writable w t = Inr ()" "t \<in> set ss"
        using added(2) [OF l] by auto
      with ok keeps(2) show ?thesis
        unfolding system_ok_def handles_ok_def by (blast intro: reads_back_changed)
    qed (use s(4) in simp)
  qed
  with added(1) [OF l] show ?thesis by (simp add: system_ok_def)
qed

lemma handle_written:
  assumes ok: "system_ok ext w ss" and i: "i < length ss" "check_writable w (ss ! i) = Inr ()"
    and s': "handle_id s' = handle_id (ss ! i)" "reads_back ext (w_store w') s'"
    and w': "w_leases w' = w_leases w" "keeps_sessions (w_store w) (w_store w')"
      "only_changes ext (session_key (ss ! i)) (w_store w) (w_store w')"
  shows "system_ok ext w' (ss[i := s'])"
proof -
  have l: "leases_ok w ss" using ok by (simp add: system_ok_def)
  have "map handle_id (ss[i := s']) = map handle_id ss"
    using i(1) s'(1) by (simp add: map_update list_update_same_conv)
  then have "leases_ok w' (ss[i := s'])" by (rule leases_ok_frame [OF l w'(1,2)])
  moreover have "reads_back ext (w_store w') (ss[i := s'] ! j)"
    if j: "j < length ss" "check_writable w' (ss[i := s'] ! j) = Inr ()" for j
  proof (cases "j = i")
    case False
    then have same: "ss[i := s'] ! j = ss ! j" by simp
    have w: "check_writable w (ss ! j) = Inr ()" using j(2) unfolding writable_iff w'(1) same .
    then have "session_key (ss ! j) \<noteq> session_key (ss ! i)"
      using one_writable [OF l i(1) j(1) _ i(2)] False by fastforce
    with w j(1) ok w'(3) False show ?thesis
      unfolding system_ok_def handles_ok_def by (auto intro: reads_back_changed simp del: split_paired_All)
  qed (use s'(2) i(1) in simp)
  then have "handles_ok ext w' (ss[i := s'])"
    unfolding handles_ok_def by (metis in_set_conv_nth length_list_update)
  ultimately show ?thesis by (simp add: system_ok_def)
qed

section \<open>Steps\<close>

lemma create_with_id_frame:
  assumes "create_with_id key w = (Inr s, w')"
  shows "\<exists>g. commit_lease key (w\<lparr>w_store := (w_store w)(key \<mapsto> StoredDir (LogFile []))\<rparr>) = (g, w')
    \<and> se_writer s = Some g"
  using assms
  by (auto simp: create_with_id_def new_session_def Let_def split: if_splits option.splits
      bool.splits prod.splits)

lemma commit_lease_store: "commit_lease key w = (g, w') \<Longrightarrow> w_store w' = w_store w"
  by (auto simp: commit_lease_def Let_def split: option.splits)

lemma keeps_insert [simp]: "keeps_sessions store (store(key \<mapsto> x))"
  by (auto simp: keeps_sessions_def)

lemma system_ok_create:
  assumes ok: "system_ok ext w ss" and ran: "create_with_id key w = (Inr s, w')"
  shows "system_ok ext w' (s # ss)"
proof -
  let ?w = "w\<lparr>w_store := (w_store w)(key \<mapsto> StoredDir (LogFile []))\<rparr>"
  from create_with_id_frame [OF ran] obtain g where f: "commit_lease key ?w = (g, w')" "se_writer s = Some g"
    by blast
  have store: "w_store w' = w_store ?w" by (rule commit_lease_store [OF f(1)])
  note created = create_with_id_reads_back [OF ran, of ext]
  show ?thesis
    by (rule handle_added [OF ok _ _ f(1) _ refl _ f(2)]) (use created store in simp_all)
qed

lemma append_creation_frame:
  assumes "append_creation ext now WriteAll c (w, s) = (Inr e, w', s')"
  shows "check_writable w s = Inr () \<and> handle_id s' = handle_id s \<and> w_leases w' = w_leases w
    \<and> keeps_sessions (w_store w) (w_store w')"
proof -
  from assms obtain s1 where "append_kind ext now WriteAll (SessionCreated c) (w, s) = (Inr e, w', s1)"
    "s' = s1\<lparr>se_creation := Some c\<rparr>"
    by (auto simp: append_creation_def split: if_splits sum.splits prod.splits)
  with append_kind_frame [OF this(1)] show ?thesis by (simp add: handle_id_def)
qed

lemma create_with_metadata_Inr:
  assumes "create_with_id_and_metadata ext now WriteAll key metadata w = (Inr s', w')"
  obtains c w0 s e where "creation_new metadata = Inr c" "create_with_id key w = (Inr s, w0)"
    "append_creation ext now WriteAll c (w0, s) = (Inr e, w', s')"
  using assms
  by (auto simp: create_with_id_and_metadata_def commit_creation_def split: sum.splits prod.splits)

lemma system_ok_metadata:
  assumes codec: "faithful_codec ext" and ok: "system_ok ext w ss"
    and ran: "create_with_id_and_metadata ext now WriteAll key metadata w = (Inr s', w')"
  shows "system_ok ext w' (s' # ss)"
proof -
  obtain c w0 s e where parts: "creation_new metadata = Inr c" "create_with_id key w = (Inr s, w0)"
    "append_creation ext now WriteAll c (w0, s) = (Inr e, w', s')"
    by (rule create_with_metadata_Inr [OF ran])
  have root: "cr_parent c = None" using parts(1) by (auto simp: creation_new_Inr)
  note created = create_with_id_reads_back [OF parts(2), of ext]
  note wrote = append_creation_reads_back [OF codec conjunct1 [OF created] root parts(3)]
  note frame = append_creation_frame [OF parts(3)]
  have "system_ok ext w' ((s # ss)[0 := s'])"
    by (rule handle_written [OF system_ok_create [OF ok parts(2)]]) (use frame wrote in simp_all)
  then show ?thesis by simp
qed

lemma open_session_handle: "open_session ext store key = Inr t \<Longrightarrow> as_read t = t \<and> session_key t = key"
  unfolding open_session_def
  by (auto simp: open_inner_loaded_Inr as_read_def opened_def)

lemma open_for_writing_Inr:
  assumes "open_for_writing ext w key = (Inr s, w')"
  obtains t g where "open_session ext (w_store w) key = Inr t" "commit_lease key w = (g, w')"
    "s = t\<lparr>se_writer := Some g\<rparr>" "w_store w key \<noteq> None"
  using assms
  by (auto simp: open_for_writing_def acquire_writer_lease_def split: option.splits bool.splits sum.splits
      prod.splits if_splits)

lemma system_ok_open:
  assumes ok: "system_ok ext w ss" and ran: "open_for_writing ext w key = (Inr s, w')"
  shows "system_ok ext w' (s # ss)"
proof -
  obtain t g where t: "open_session ext (w_store w) key = Inr t" "commit_lease key w = (g, w')"
    "s = t\<lparr>se_writer := Some g\<rparr>" "w_store w key \<noteq> None" by (rule open_for_writing_Inr [OF ran])
  have "as_read s = t" "session_key s = key"
    using open_session_handle [OF t(1)] by (auto simp: t(3) as_read_def)
  then show ?thesis
    by (intro handle_added [OF ok _ _ t(2) refl refl])
      (use t commit_lease_store [OF t(2)] in \<open>simp_all add: keeps_sessions_def only_changes_def reads_back_def\<close>)
qed

lemma fork_handle:
  assumes "fork_with_metadata ext now WriteAll child s root boundary metadata w = (Inr c, w')"
  shows "\<exists>x g. commit_lease (root, child) (w\<lparr>w_store := (w_store w)((root, child) \<mapsto> x)\<rparr>) = (g, w')
    \<and> w_store w (root, child) = None \<and> session_key c = (root, child) \<and> se_writer c = Some g"
  using assms
  by (auto simp: fork_with_metadata_def Let_def split: sum.splits if_splits option.splits
      bool.splits prod.splits)

lemma system_ok_fork:
  assumes ok: "system_ok ext w ss"
    and ran: "fork_with_metadata ext now WriteAll child s root boundary metadata w = (Inr c, w')"
  shows "system_ok ext (drop_session c w') ss"
proof -
  from fork_handle [OF ran] obtain x g where f:
    "commit_lease (root, child) (w\<lparr>w_store := (w_store w)((root, child) \<mapsto> x)\<rparr>) = (g, w')"
    "w_store w (root, child) = None" "session_key c = (root, child)" "se_writer c = Some g" by blast
  have store: "w_store w' = (w_store w)((root, child) \<mapsto> x)" using commit_lease_store [OF f(1)] by simp
  have l: "leases_ok w ss" using ok by (simp add: system_ok_def)
  have lease: "commit_lease (root, child) w = (g, w\<lparr>w_leases := w_leases w'\<rparr>)"
    using f(1) by (auto simp: commit_lease_def Let_def split: option.splits)
  have "leases_ok w' (c # ss)"
    and writable: "\<And>t. t \<in> set ss \<Longrightarrow> check_writable w' t = Inr () \<Longrightarrow>
      session_key t \<noteq> (root, child) \<and> check_writable w t = Inr ()"
    using lease_added [OF l _ lease, of w' c] f(3,4) unfolding store by simp_all
  note dropped = lease_dropped [of w' "[]" c ss, unfolded append_Nil, OF this(1)]
  have changes: "only_changes ext (root, child) (w_store w) (w_store w')"
    unfolding store by (rule fresh_only_changes) (rule f(2))
  have "handles_ok ext (drop_session c w') ss"
    unfolding handles_ok_def dropped(3)
  proof (intro ballI impI)
    fix t assume "t \<in> set ss" "check_writable (drop_session c w') t = Inr ()"
    with dropped(2) writable have "session_key t \<noteq> (root, child)" "check_writable w t = Inr ()" by blast+
    with ok \<open>t \<in> set ss\<close> changes show "reads_back ext (w_store w') t"
      unfolding system_ok_def handles_ok_def by (blast intro: reads_back_changed)
  qed
  with dropped(1) show ?thesis by (simp add: system_ok_def)
qed

lemma system_ok_fork_kept:
  assumes codec: "faithful_codec ext" and fits: "creation_fits ext" and ok: "system_ok ext w ss"
    and ran: "fork_with_metadata ext now WriteAll child s root boundary metadata w = (Inr c, w')"
    and kept: "readable_fork ext w s child"
  shows "system_ok ext w' (c # ss)"
proof -
  from fork_handle [OF ran] obtain x g where f:
    "commit_lease (root, child) (w\<lparr>w_store := (w_store w)((root, child) \<mapsto> x)\<rparr>) = (g, w')"
    "w_store w (root, child) = None" "session_key c = (root, child)" "se_writer c = Some g" by blast
  from fork_with_metadata_Inr [OF ran] obtain plan where plan:
    "plan_fork ext now s (se_root s) boundary metadata = Inr plan" "root = se_root s"
    "w_store w (se_root s, child) = None"
    "w_store w' = (w_store w)((se_root s, child) \<mapsto> StoredDir (LogFile (fp_line plan @ [newline])))"
    "as_read c = child_of ext child s plan" by blast
  have "open_inner (Suc max_lineage_depth) ext (w_store w') (se_root s) [] child =
      Inr (child_of ext child s plan)"
    unfolding plan(4)
    using kept forked_child_opens [OF codec_creations [OF codec] fits plan(1), of max_lineage_depth "w_store w" child] plan(3)
    by (simp add: readable_fork_def opens_within_def)
  then have reads: "reads_back ext (w_store w') c"
    unfolding reads_back_def open_session_def f(3) plan(5) by (simp add: plan(2))
  have changes: "only_changes ext (root, child) (w_store w) (w_store w')"
    unfolding plan(2,4) by (rule fresh_only_changes) (rule plan(3))
  have keeps: "keeps_sessions (w_store w) (w_store w')" unfolding plan(4) by simp
  show ?thesis
    by (rule handle_added [OF ok keeps changes f(1) _ refl f(3,4) _ reads]) (simp_all add: plan(2,4))
qed

section \<open>Leases, whatever is appended\<close>

text \<open>
  The leases need neither the codec nor a restriction of what is written: they depend on
  \<open>handle_id\<close> alone. A step revives none when no handle that was superseded may write after it.
\<close>

definition revives_none :: "world \<times> session list \<Rightarrow> world \<times> session list \<Rightarrow> bool" where
  "revives_none = (\<lambda>(w, ss) (w', ss').
     \<forall>t \<in> set ss. \<forall>t' \<in> set ss'. handle_id t' = handle_id t \<longrightarrow> check_writable w' t' = Inr () \<longrightarrow>
       check_writable w t = Inr ())"

lemma writable_handle:
  "handle_id s = handle_id t \<Longrightarrow> w_leases w' = w_leases w \<Longrightarrow>
   check_writable w' s = Inr () \<longleftrightarrow> check_writable w t = Inr ()"
  unfolding writable_iff handle_id_def by (simp only: prod.inject)

lemma same_leases:
  "leases_ok w ss \<Longrightarrow> w_leases w' = w_leases w \<Longrightarrow> keeps_sessions (w_store w) (w_store w') \<Longrightarrow>
   map handle_id ss' = map handle_id ss \<Longrightarrow> leases_ok w' ss' \<and> revives_none (w, ss) (w', ss')"
  using leases_ok_frame writable_handle unfolding revives_none_def split_conv by blast

lemma added_lease:
  assumes ok: "leases_ok w ss" and keeps: "keeps_sessions (w_store w) (w_store w')"
    and lease: "commit_lease key w0 = (g, w1)" "w_leases w0 = w_leases w" "w_leases w' = w_leases w1"
    and s: "session_key s = key" "se_writer s = Some g" "w_store w' key \<noteq> None"
  shows "leases_ok w' (s # ss) \<and> revives_none (w, ss) (w', s # ss) \<and> check_writable w' s = Inr ()
    \<and> (\<forall>t \<in> set ss. session_key t = key \<longrightarrow> check_writable w' t \<noteq> Inr ())"
proof -
  have lease': "commit_lease key w = (g, w\<lparr>w_leases := w_leases w'\<rparr>)"
    using lease by (auto simp: commit_lease_def Let_def split: option.splits)
  note added = lease_added [OF ok keeps lease' _ s]
  have l: "leases_ok w' (s # ss)" using added(1) by simp
  have old: "session_key t \<noteq> key \<and> check_writable w t = Inr ()"
    if "t \<in> set ss" "check_writable w' t = Inr ()" for t using added(2) [OF _ that] by simp
  have "check_writable w t = Inr ()"
    if t: "t \<in> set ss" "t' \<in> set (s # ss)" "handle_id t' = handle_id t" "check_writable w' t' = Inr ()" for t t'
  proof -
    have "check_writable w' t = Inr ()" using writable_handle [OF t(3) refl, of w'] t(4) by simp
    then show ?thesis using old [OF t(1)] by blast
  qed
  then have "revives_none (w, ss) (w', s # ss)" unfolding revives_none_def by blast
  moreover have "check_writable w' s = Inr ()"
    using lease s(1,2) by (auto simp: writable_iff commit_lease_def Let_def split: option.splits)
  ultimately show ?thesis using l old by blast
qed

lemma dropped_lease:
  assumes "leases_ok w (xs @ s # ys)"
  shows "leases_ok (drop_session s w) (xs @ ys)
    \<and> revives_none (w, xs @ s # ys) (drop_session s w, xs @ ys)"
proof -
  have "check_writable w t = Inr ()"
    if t: "t' \<in> set (xs @ ys)" "handle_id t' = handle_id t"
      "check_writable (drop_session s w) t' = Inr ()" for t t'
    using lease_dropped(2) [OF assms t(1,3)] writable_handle [OF t(2) refl, of w] by simp
  then show ?thesis using lease_dropped(1) [OF assms] unfolding revives_none_def by blast
qed

lemma revives_none_trans:
  assumes "revives_none (w, ss) (w1, ss1)" "revives_none (w1, ss1) (w2, ss2)" "set ss \<subseteq> set ss1"
  shows "revives_none (w, ss) (w2, ss2)"
  using assms unfolding revives_none_def split_conv by (metis subsetD)

lemma created_lease:
  assumes ok: "leases_ok w ss" and ran: "create_with_id key w = (Inr s, w')"
  shows "leases_ok w' (s # ss) \<and> revives_none (w, ss) (w', s # ss)"
proof -
  let ?w = "w\<lparr>w_store := (w_store w)(key \<mapsto> StoredDir (LogFile []))\<rparr>"
  from create_with_id_frame [OF ran] obtain g where f: "commit_lease key ?w = (g, w')" "se_writer s = Some g"
    by blast
  have store: "w_store w' = w_store ?w" by (rule commit_lease_store [OF f(1)])
  note created = create_with_id_reads_back [OF ran]
  have "leases_ok w' (s # ss) \<and> revives_none (w, ss) (w', s # ss) \<and> check_writable w' s = Inr ()
    \<and> (\<forall>t \<in> set ss. session_key t = key \<longrightarrow> check_writable w' t \<noteq> Inr ())"
    by (rule added_lease [OF ok _ f(1) _ refl _ f(2)]) (use created store in simp_all)
  then show ?thesis by blast
qed

lemma opened_lease:
  assumes ok: "leases_ok w ss" and ran: "open_for_writing ext w key = (Inr s, w')"
  shows "leases_ok w' (s # ss) \<and> revives_none (w, ss) (w', s # ss) \<and> check_writable w' s = Inr ()
    \<and> (\<forall>t \<in> set ss. session_key t = key \<longrightarrow> check_writable w' t \<noteq> Inr ()) \<and> session_key s = key"
proof -
  obtain t g where t: "open_session ext (w_store w) key = Inr t" "commit_lease key w = (g, w')"
    "s = t\<lparr>se_writer := Some g\<rparr>" "w_store w key \<noteq> None" by (rule open_for_writing_Inr [OF ran])
  have key: "session_key s = key" using open_session_handle [OF t(1)] by (auto simp: t(3))
  have "leases_ok w' (s # ss) \<and> revives_none (w, ss) (w', s # ss) \<and> check_writable w' s = Inr ()
    \<and> (\<forall>t \<in> set ss. session_key t = key \<longrightarrow> check_writable w' t \<noteq> Inr ())"
    by (rule added_lease [OF ok _ t(2) refl refl key])
      (use t commit_lease_store [OF t(2)] in \<open>simp_all add: keeps_sessions_def\<close>)
  with key show ?thesis by blast
qed

lemma forked_lease:
  assumes ok: "leases_ok w ss"
    and ran: "fork_with_metadata ext now WriteAll child s root boundary metadata w = (Inr c, w')"
  shows "leases_ok w' (c # ss) \<and> revives_none (w, ss) (w', c # ss)"
proof -
  from fork_handle [OF ran] obtain x g where f:
    "commit_lease (root, child) (w\<lparr>w_store := (w_store w)((root, child) \<mapsto> x)\<rparr>) = (g, w')"
    "session_key c = (root, child)" "se_writer c = Some g" by blast
  have store: "w_store w' = (w_store w)((root, child) \<mapsto> x)" using commit_lease_store [OF f(1)] by simp
  have "leases_ok w' (c # ss) \<and> revives_none (w, ss) (w', c # ss) \<and> check_writable w' c = Inr ()
    \<and> (\<forall>t \<in> set ss. session_key t = (root, child) \<longrightarrow> check_writable w' t \<noteq> Inr ())"
    by (rule added_lease [OF ok _ f(1) _ refl f(2,3)]) (simp_all add: store)
  then show ?thesis by blast
qed

lemma leases_step:
  "log_system kinds forks ext c c' \<Longrightarrow> leases_ok (fst c) (snd c) \<Longrightarrow>
   leases_ok (fst c') (snd c') \<and> revives_none c c'"
proof (induction rule: log_system.induct)
  case (system_create key w s w' ss)
  then show ?case using created_lease by simp
next
  case (system_metadata now key metadata w s' w' ss)
  then have ok: "leases_ok w ss" by simp
  obtain c w0 s e where parts: "creation_new metadata = Inr c" "create_with_id key w = (Inr s, w0)"
    "append_creation ext now WriteAll c (w0, s) = (Inr e, w', s')"
    by (rule create_with_metadata_Inr [OF system_metadata(1)])
  note frame = append_creation_frame [OF parts(3)]
  note created = created_lease [OF ok parts(2)]
  have "leases_ok w' (s' # ss) \<and> revives_none (w0, s # ss) (w', s' # ss)"
    by (rule same_leases) (use created frame in simp_all)
  then show ?case using revives_none_trans [OF conjunct2 [OF created]] by auto
next
  case (system_open w key s w' ss)
  then show ?case using opened_lease by simp
next
  case (system_fork now child s root boundary metadata w c w' ss)
  then show ?case using forked_lease by simp
next
  case (system_fork_dropped now child s root boundary metadata w c w' ss)
  then have ok: "leases_ok w ss" by simp
  note forked = forked_lease [OF ok system_fork_dropped(1)]
  note dropped = dropped_lease [of w' "[]" c ss, unfolded append_Nil, OF conjunct1 [OF forked]]
  show ?case using dropped revives_none_trans [OF conjunct2 [OF forked] conjunct2 [OF dropped]] by auto
next
  case (system_write i ss w w' s')
  from log_stepD [OF system_write(2)] show ?case
  proof
    assume "(w', s') = (w, ss ! i)"
    with system_write(3) show ?thesis using same_leases [of w ss w ss] by (simp add: keeps_sessions_def)
  next
    assume "log_written kinds ext (w, ss ! i) (w', s')"
    note frame = log_written_frame [OF this]
    have "map handle_id (ss[i := s']) = map handle_id ss"
      using system_write(1) frame by (simp add: map_update list_update_same_conv)
    with same_leases [of w ss w' "ss[i := s']"] frame system_write(3) show ?thesis by simp
  qed
next
  case (system_drop i ss w)
  have "ss = take i ss @ ss ! i # drop (Suc i) ss" using system_drop(1) by (rule id_take_nth_drop)
  with dropped_lease [of w "take i ss" "ss ! i" "drop (Suc i) ss"] system_drop(2)
  show ?case by (simp add: remove_nth_def)
qed

section \<open>Every reachable state\<close>

lemma system_ok_step:
  assumes codec: "faithful_codec ext" and fits: "creation_fits ext"
  shows "log_system kind_exact (readable_fork ext) ext c c' \<Longrightarrow> system_ok ext (fst c) (snd c) \<Longrightarrow> system_ok ext (fst c') (snd c')"
proof (induction rule: log_system.induct)
  case (system_create key w s w' ss)
  then show ?case using system_ok_create by simp
next
  case (system_metadata now key metadata w s w' ss)
  then show ?case using system_ok_metadata [OF codec] by simp
next
  case (system_open w key s w' ss)
  then show ?case using system_ok_open by simp
next
  case (system_fork now child s root boundary metadata w c w' ss)
  then show ?case using system_ok_fork_kept [OF codec fits] by simp
next
  case (system_fork_dropped now child s root boundary metadata w c w' ss)
  then show ?case using system_ok_fork by simp
next
  case (system_write i ss w w' s')
  then have ok: "system_ok ext w ss" by simp
  from log_stepD [OF system_write(2)] show ?case
  proof
    assume "(w', s') = (w, ss ! i)"
    with ok show ?thesis by simp
  next
    assume written: "log_written kind_exact ext (w, ss ! i) (w', s')"
    note frame = log_written_frame [OF written]
    have current: "reads_back ext (w_store w) (ss ! i)"
      using ok frame system_write(1) by (simp add: system_ok_def handles_ok_def)
    show ?thesis
      using handle_written [OF ok system_write(1)] frame log_written_reads_back [OF codec current written] by simp
  qed
next
  case (system_drop i ss w)
  let ?xs = "take i ss" and ?ys = "drop (Suc i) ss"
  have ss: "ss = ?xs @ ss ! i # ?ys" using system_drop(1) by (rule id_take_nth_drop)
  from system_drop(2) have ok: "system_ok ext w (?xs @ ss ! i # ?ys)" using ss by simp
  note dropped = lease_dropped [OF conjunct1 [OF ok [unfolded system_ok_def]]]
  have "handles_ok ext (drop_session (ss ! i) w) (?xs @ ?ys)"
    using ok dropped(2,3) unfolding system_ok_def handles_ok_def by auto
  with dropped(1) show ?case by (simp add: system_ok_def remove_nth_def)
qed

text \<open>No step shortens or rewrites what a session reads back as.\<close>

definition log_grows :: "log_ext \<Rightarrow> store \<Rightarrow> store \<Rightarrow> bool" where
  "log_grows ext store store' \<longleftrightarrow>
     (\<forall>key t. open_session ext store key = Inr t \<longrightarrow>
        (\<exists>t'. open_session ext store' key = Inr t' \<and> prefix (se_events t) (se_events t')))"

lemma log_grows_refl [simp]: "log_grows ext store store"
  by (simp add: log_grows_def)

lemma log_grows_trans: "log_grows ext s1 s2 \<Longrightarrow> log_grows ext s2 s3 \<Longrightarrow> log_grows ext s1 s3"
  unfolding log_grows_def by (meson prefix_order.trans)

lemma log_grows_changes:
  assumes "only_changes ext key store store'"
    and "\<And>t. open_session ext store key = Inr t \<Longrightarrow>
      \<exists>t'. open_session ext store' key = Inr t' \<and> prefix (se_events t) (se_events t')"
  shows "log_grows ext store store'"
  unfolding log_grows_def
proof (intro allI impI)
  fix k t assume t: "open_session ext store k = Inr t"
  show "\<exists>t'. open_session ext store' k = Inr t' \<and> prefix (se_events t) (se_events t')"
  proof (cases "k = key")
    case False
    with assms(1) t have "open_session ext store' k = Inr t" unfolding only_changes_def by blast
    then show ?thesis by blast
  qed (use assms(2) t in simp)
qed

lemma log_grows_fresh: "only_changes ext key store store' \<Longrightarrow> store key = None \<Longrightarrow> log_grows ext store store'"
proof (rule log_grows_changes)
  fix t assume fresh: "store key = None" and t: "open_session ext store key = Inr t"
  have "is_ok (log_text store (fst key, snd key))"
    by (rule open_inner_text [OF t [unfolded open_session_def]])
  then show "\<exists>t'. open_session ext store' key = Inr t' \<and> prefix (se_events t) (se_events t')"
    using fresh by (simp add: is_ok_iff log_text_Inr)
qed

lemma log_grows_written:
  assumes codec: "faithful_codec ext" and rb: "reads_back ext (w_store w) s"
    and written: "log_written kind_exact ext (w, s) (w', s')"
  shows "log_grows ext (w_store w) (w_store w')"
proof -
  note kept = log_written_reads_back [OF codec rb written]
  note frame = log_written_frame [OF written]
  have keys: "session_key s' = session_key s" using frame by (simp add: handle_id_def)
  show ?thesis
  proof (rule log_grows_changes [OF conjunct2 [OF kept]])
    fix t assume "open_session ext (w_store w) (session_key s) = Inr t"
    then have "t = as_read s" using rb by (simp add: reads_back_def)
    moreover have "open_session ext (w_store w') (session_key s) = Inr (as_read s')"
      using kept unfolding reads_back_def keys by blast
    ultimately show "\<exists>t'. open_session ext (w_store w') (session_key s) = Inr t'
        \<and> prefix (se_events t) (se_events t')"
      using frame by (simp add: as_read_def)
  qed
qed

lemma log_grows_forked:
  assumes "fork_with_metadata ext now WriteAll child s root boundary metadata w = (Inr c, w')"
  shows "log_grows ext (w_store w) (w_store w')"
proof -
  from fork_handle [OF assms] obtain x g where f:
    "commit_lease (root, child) (w\<lparr>w_store := (w_store w)((root, child) \<mapsto> x)\<rparr>) = (g, w')"
    "w_store w (root, child) = None" by blast
  have "only_changes ext (root, child) (w_store w) (w_store w')"
    unfolding commit_lease_store [OF f(1)] by (simp add: fresh_only_changes f(2))
  then show ?thesis using log_grows_fresh f(2) by simp
qed

lemma log_grows_step:
  assumes codec: "faithful_codec ext"
  shows "log_system kind_exact forks ext c c' \<Longrightarrow> system_ok ext (fst c) (snd c) \<Longrightarrow>
    log_grows ext (w_store (fst c)) (w_store (fst c'))"
proof (induction rule: log_system.induct)
  case (system_create key w s w' ss)
  then show ?case
    using create_with_id_reads_back [OF system_create(1), of ext] log_grows_fresh by simp blast
next
  case (system_metadata now key metadata w s' w' ss)
  obtain c w0 s e where parts: "creation_new metadata = Inr c" "create_with_id key w = (Inr s, w0)"
    "append_creation ext now WriteAll c (w0, s) = (Inr e, w', s')"
    by (rule create_with_metadata_Inr [OF system_metadata(1)])
  have root: "cr_parent c = None" using parts(1) by (auto simp: creation_new_Inr)
  note created = create_with_id_reads_back [OF parts(2), of ext]
  have "only_changes ext key (w_store w) (w_store w')"
    using append_creation_reads_back [OF codec conjunct1 [OF created] root parts(3)] created
    by (auto intro: only_changes_trans simp del: split_paired_All)
  then show ?case using created log_grows_fresh by simp
next
  case (system_open w key s w' ss)
  obtain t g where "commit_lease key w = (g, w')" by (rule open_for_writing_Inr [OF system_open(1)])
  then show ?case using commit_lease_store [of key w g w'] by simp
next
  case (system_fork now child s root boundary metadata w c w' ss)
  then show ?case using log_grows_forked by simp
next
  case (system_fork_dropped now child s root boundary metadata w c w' ss)
  then have "log_grows ext (w_store w) (w_store w')" using log_grows_forked by simp
  then show ?case by (simp add: drop_session_def split: option.split)
next
  case (system_write i ss w w' s')
  from log_stepD [OF system_write(2)] show ?case
  proof
    assume written: "log_written kind_exact ext (w, ss ! i) (w', s')"
    have "reads_back ext (w_store w) (ss ! i)"
      using system_write(1,3) log_written_frame [OF written] by (simp add: system_ok_def handles_ok_def)
    from log_grows_written [OF codec this written] show ?thesis by simp
  qed simp
next
  case (system_drop i ss w)
  then show ?case by (simp add: drop_session_def split: option.split)
qed

text \<open>Runs of the system from a process without handles.\<close>

definition no_leases :: "world \<Rightarrow> bool" where
  "no_leases w \<longleftrightarrow> (\<forall>key. w_leases w key = None)"

lemma system_ok_start: "no_leases w \<Longrightarrow> system_ok ext w []"
  by (simp add: no_leases_def system_ok_def leases_ok_def handles_ok_def)

lemma system_run:
  assumes codec: "faithful_codec ext" and fits: "creation_fits ext"
    and run: "(log_system kind_exact (readable_fork ext) ext)\<^sup>*\<^sup>* c c'"
    and ok: "system_ok ext (fst c) (snd c)"
  shows "system_ok ext (fst c') (snd c') \<and> log_grows ext (w_store (fst c)) (w_store (fst c'))"
  using run
proof (induction rule: rtranclp_induct)
  case (step d e)
  then show ?case
    using system_ok_step [OF codec fits step(2)] log_grows_step [OF codec step(2)] by (blast intro: log_grows_trans)
qed (use ok in simp)

lemma leases_run:
  assumes "no_leases w0" "(log_system kinds forks ext)\<^sup>*\<^sup>* (w0, []) (w, ss)"
  shows "leases_ok w ss"
proof -
  have "leases_ok (fst c) (snd c)" if "(log_system kinds forks ext)\<^sup>*\<^sup>* (w0, []) c" for c
    using that
  proof (induction rule: rtranclp_induct)
    case base
    show ?case using assms(1) by (simp add: no_leases_def leases_ok_def)
  next
    case (step d e)
    then show ?case using leases_step by blast
  qed
  from this [OF assms(2)] show ?thesis by simp
qed

end
