(* ===== verification/Log_Damage.thy ===== *)
theory Log_Damage
  imports Lineage_Laws
begin

text \<open>
  Logs that stop opening: a last line the reader refuses, and the tail that a failed write leaves
  behind a handle that stays writable.
\<close>

section \<open>A last line the reader refuses\<close>

lemma inherit_refused:
  "parse_line_unsequenced ext 1 l = Inl err \<Longrightarrow> inherit ext op present name (l # ls) = Inl err"
  by (simp add: inherit_def)

lemma last_line_refused:
  assumes rb: "reads_back ext store s" and raw: "store (session_key s) = Some (StoredDir (LogFile raw))"
    and line: "newline \<notin> set l" "valid_utf8 (l @ [newline])" "length (raw @ l @ [newline]) \<le> max_session_log_bytes"
    and room: "length (se_events s) < max_logical_session_events"
    and bad: "parse_line_unsequenced ext (Suc (length (log_lines raw))) l = Inl err"
  shows "open_session ext (store(session_key s \<mapsto> StoredDir (LogFile (raw @ l @ [newline])))) (session_key s) = Inl err"
proof -
  let ?root = "se_root s" and ?i = "se_id s"
  let ?store = "store((?root, ?i) \<mapsto> StoredDir (LogFile (raw @ l @ [newline])))"
  let ?op = "open_inner max_lineage_depth ext store ?root [?i]"
  let ?op' = "open_inner max_lineage_depth ext ?store ?root [?i]"
  from rb have opens: "valid_session_component ?i" "open_inner_loaded ext store ?root ?op ?i = Inr (as_read s)"
    unfolding reads_back_def open_session_def by simp_all
  from open_inner_loaded_ok [OF opens(2) open_inner_streams opens(1)] raw
  obtain ih inbox where parts:
    "log_text store (?root, ?i) = Inr raw"
    "inherit ext ?op (\<lambda>p. store (?root, p) \<noteq> None) ?i (log_lines raw) = Inr ih"
    "project_inbox (lx_labels ext) (ih_events ih) = Inr inbox" "ih_first ih = se_first s"
    "length (se_events s) = se_first s + length (log_lines raw)"
    "try_fold (read_line ext (se_first s)) (read_start ih inbox) (List.enumerate 0 (log_lines raw))
       = Inr (session_state (as_read s))"
    by (auto simp: as_read_def log_text_Inr)
  have complete: "complete_text raw" "valid_utf8 raw" using parts(1) by (simp_all add: log_text_Inr)
  have text': "log_text ?store (?root, ?i) = Inr (raw @ l @ [newline])"
    using complete line by (simp add: log_text_Inr valid_utf8_append complete_text_def)
  have lines: "log_lines (raw @ l @ [newline]) = log_lines raw @ [l]"
    by (rule log_lines_snoc [OF complete(1) line(1)])
  have "open_inner_loaded ext ?store ?root ?op' ?i = Inl err"
  proof (cases "log_lines raw")
    case Nil
    then show ?thesis using bad
      by (simp add: open_inner_loaded_def text' lines inherit_refused del: fun_upd_apply)
  next
    case (Cons l0 ls)
    have ops: "?op' p = Inr t" if "?op p = Inr t" for p t
      by (rule open_inner_update [OF that]) simp
    have "inherit ext ?op' (\<lambda>p. ?store (?root, p) \<noteq> None) ?i (log_lines raw @ [l]) = Inr ih"
      by (rule inherit_append [OF inherit_mono [OF parts(2)]])
        (use ops Cons in \<open>auto simp del: fun_upd_apply simp: fun_upd_apply [of store]\<close>)
    moreover have "read_line ext (se_first s) (session_state (as_read s)) (length (log_lines raw), l) = Inl err"
      using bad parts(5) room
      by (simp add: read_line_def parse_line_def checked_add_u64_def max_logical_session_events_def
          u64_max_def ok_or_def)
    then have "try_fold (read_line ext (se_first s)) (read_start ih inbox)
        (List.enumerate 0 (log_lines raw @ [l])) = Inl err"
      using parts(6) by (simp add: enumerate_append_map try_fold_append)
    ultimately show ?thesis
      using parts(3,4) by (simp add: open_inner_loaded_def text' lines del: fun_upd_apply)
  qed
  then show ?thesis
    using opens(1) unfolding open_session_def by (simp add: refuse_if_def del: fun_upd_apply)
qed

section \<open>A torn write\<close>

lemma no_text_refused:
  assumes "\<not> is_ok (log_text store (fst key, snd key))"
  shows "\<exists>err. open_session ext store key = Inl err"
proof -
  have "open_session ext store key \<noteq> Inr t" for t
    using assms open_inner_text unfolding open_session_def by blast
  then show ?thesis by (cases "open_session ext store key") auto
qed

lemma torn_log_refused:
  assumes torn: "store key = Some (StoredDir (LogFile raw))" "raw \<noteq> []" "last raw \<noteq> newline"
  shows "\<exists>err. open_session ext store key = Inl err"
  by (rule no_text_refused) (use torn in \<open>simp add: is_ok_iff log_text_Inr complete_text_def\<close>)

text \<open>
  The line that follows a torn one: whatever the joined text is, the log does not open; where it
  is UTF-8 within the limits, the reader finds the joined line corrupt.
\<close>

lemma joined_line_refused:
  assumes rb: "reads_back ext store s" and raw: "store (session_key s) = Some (StoredDir (LogFile raw))"
    and line: "newline \<notin> set l" and room: "length (se_events s) < max_logical_session_events"
    and bad: "lx_head ext l = None"
    and store': "store' = store(session_key s \<mapsto> StoredDir (LogFile (raw @ l @ [newline])))"
  shows "(\<exists>err. open_session ext store' (session_key s) = Inl err)
    \<and> (valid_utf8 (l @ [newline]) \<and> length (raw @ l @ [newline]) \<le> max_session_log_bytes \<longrightarrow>
        open_session ext store' (session_key s) = Inl (CorruptLine (Suc (length (log_lines raw)))))"
proof -
  have parse: "parse_line_unsequenced ext m l = Inl (CorruptLine m)" for m
    by (simp add: parse_line_unsequenced_def bad ok_or_def)
  note refused = last_line_refused [OF rb raw line _ _ room parse]
  show ?thesis
  proof (cases "is_ok (log_text store' (fst (session_key s), snd (session_key s)))")
    case True
    from reads_backE [OF rb] raw have "is_ok (log_text store (session_key s))"
      using open_inner_text [OF rb [unfolded reads_back_def open_session_def fst_conv snd_conv]] by simp
    then have "valid_utf8 raw" using raw by (auto simp: is_ok_iff log_text_Inr)
    with True have "valid_utf8 (l @ [newline])" "length (raw @ l @ [newline]) \<le> max_session_log_bytes"
      unfolding is_ok_iff log_text_Inr store' by (auto simp: valid_utf8_append)
    then show ?thesis using refused unfolding store' by blast
  next
    case False
    then show ?thesis using no_text_refused [of store' "session_key s"] refused unfolding store' by blast
  qed
qed

text \<open>An append decides by the leases and the handle, never by what is in the file.\<close>

lemma append_again:
  assumes "append_session ext now outcome k (w, s) = (Inr e, w', s')" "w_leases w1 = w_leases w"
    and "lx_encode ext e = Some line"
  shows "append_session ext now WriteAll k (w1, s) =
    (Inr e, w1\<lparr>w_store := append_bytes (session_key s) (line @ [newline]) (w_store w1)\<rparr>, s')
    \<and> se_events s' = se_events s @ [e] \<and> e = stamp now (length (se_events s)) k
    \<and> validate_for_version (lx_payload ext) current_session_log_version k = Inr ()"
proof -
  have writable: "check_writable w1 s = check_writable w s"
    by (simp add: check_writable_def is_current_def assms(2) split: option.split)
  have same: "prepare_event ext now w1 s k = prepare_event ext now w s k"
    unfolding prepare_event_def writable ..
  from assms(1) have kind: "append_kind ext now outcome k (w, s) = (Inr e, w', s')"
    by (simp add: append_session_def split: if_splits)
  then obtain sp l where p: "prepare_event ext now w s k = Inr (e, sp, l)"
    by (auto simp: append_kind_def split: sum.splits write_outcome.splits)
  note parts = p [unfolded prepare_event_Inr]
  have "l = line" using parts assms(3) by auto
  then show ?thesis using assms(1) kind p parts
    by (auto simp: append_session_def append_kind_def same split: if_splits write_outcome.splits)
qed

lemma append_kind_torn:
  assumes "append_kind ext now (WriteFailed n) k (w, s) = (Inl AppendIo, w', s')"
    and "lx_encode ext (stamp now (length (se_events s)) k) = Some line" "n \<le> length line"
    and "w_store w (session_key s) = Some (StoredDir (LogFile raw))" "check_writable w s = Inr ()"
  shows "s' = s \<and> w_leases w' = w_leases w
    \<and> (w_store w' = (w_store w)(session_key s \<mapsto> StoredDir (LogFile (raw @ take n line))) \<or> w' = w)"
  using assms
  by (auto simp: append_kind_def prepare_event_Inr append_bytes_def split: sum.splits)

text \<open>Only the write itself reports an I/O error.\<close>

lemma prepare_event_no_io: "prepare_event ext now w s k \<noteq> Inl AppendIo"
proof
  assume "prepare_event ext now w s k = Inl AppendIo"
  then show False
    unfolding prepare_event_def Let_def check_writable_def validate_payload_def settle_batch_def
      validate_boundary_def validate_inbox_def reserve_def and_then_Inl map_err_Inl refuse_if_Inl ok_or_Inl
    by (elim disjE exE conjE) (simp_all only: append_error.distinct sum.distinct)
qed

lemma append_kind_prepared:
  assumes "append_kind ext now outcome k (w, s) = (Inl AppendIo, w', s')"
  shows "\<exists>e sp line. prepare_event ext now w s k = Inr (e, sp, line)"
  using assms prepare_event_no_io [of ext now w s k]
  by (cases "prepare_event ext now w s k") (auto simp: append_kind_def)

end
