(* ===== verification/Fork_Limit.thy ===== *)
theory Fork_Limit
  imports Fork_Laws
begin

text \<open>
  What the count of inherited fork records misses: a fork that inherits no event of its parent has
  one such record, however many ancestors stand behind it. A chain of these forks grows past the
  number of levels that \<open>Session::open\<close> follows.
\<close>

section \<open>A fork that inherits nothing\<close>

definition seedless_creation :: "log_ext \<Rightarrow> creation_metadata \<Rightarrow> string \<Rightarrow> session_creation" where
  "seedless_creation ext m parent =
     \<lparr>cr_metadata = m,
      cr_parent = Some \<lparr>par_id = parent, par_seed = 0, par_digest = prefix_sha256 ext []\<rparr>\<rparr>"

definition seedless_fork :: "log_ext \<Rightarrow> int \<Rightarrow> creation_metadata \<Rightarrow> string \<Rightarrow> session_event" where
  "seedless_fork ext now m parent = stamp now 0 (SessionCreated (seedless_creation ext m parent))"

text \<open>What a chain of such forks needs of the environment.\<close>

definition forks_encode :: "log_ext \<Rightarrow> int \<Rightarrow> creation_metadata \<Rightarrow> bool" where
  "forks_encode ext now m \<longleftrightarrow>
     metadata_validate m = Inr () \<and> cm_source m = FromFork \<and> (\<forall>x. length (lx_sha256 ext x) = 32)
     \<and> (\<forall>i. valid_session_component i \<longrightarrow> lx_encode ext (seedless_fork ext now m i) \<noteq> None)"

definition unused :: "world \<Rightarrow> session_key \<Rightarrow> bool" where
  "unused w key \<longleftrightarrow> w_store w key = None \<and> w_leases w key = None \<and> \<not> w_foreign w key"

lemma prefix_sha256_valid: "length (lx_sha256 ext x) = 32 \<Longrightarrow> valid_sha256 (hex_of (lx_sha256 ext x))"
proof -
  have "is_lower_hex b \<Longrightarrow> is_ascii_hexdigit b \<and> \<not> is_ascii_uppercase b" for b
    by (auto simp: is_lower_hex_def is_ascii_hexdigit_def is_ascii_uppercase_def is_ascii_digit_def
        byte_in_def)
  then have "list_all (\<lambda>b. is_ascii_hexdigit b \<and> \<not> is_ascii_uppercase b) (hex_of (lx_sha256 ext x))"
    using hex_of_lower [of "lx_sha256 ext x"] by (auto simp: list_all_iff)
  then show "length (lx_sha256 ext x) = 32 \<Longrightarrow> ?thesis" by (simp add: valid_sha256_def)
qed

lemma no_prefix_valid: "forks_encode ext now m \<Longrightarrow> valid_sha256 (prefix_sha256 ext [])"
  unfolding prefix_sha256_def by (rule prefix_sha256_valid) (simp add: forks_encode_def)

lemma seedless_validate:
  assumes "forks_encode ext now m" "valid_session_component parent"
  shows "creation_validate (seedless_creation ext m parent) = Inr ()"
    and "parent_new parent 0 (prefix_sha256 ext []) =
      Inr \<lparr>par_id = parent, par_seed = 0, par_digest = prefix_sha256 ext []\<rparr>"
  using assms no_prefix_valid [OF assms(1)]
  by (simp_all add: forks_encode_def seedless_creation_def creation_validate_def parent_validate_def
      parent_new_Inr)

lemma seedless_plan:
  assumes env: "forks_encode ext now m" and parent: "valid_session_component (se_id s)"
    and depth: "lineage_depth (se_events s) < max_lineage_depth"
    and line: "lx_encode ext (seedless_fork ext now m (se_id s)) = Some line"
  shows "plan_fork ext now s (se_root s) (BoundaryCount 0) m =
    Inr \<lparr>fp_seed = 0, fp_creation = seedless_creation ext m (se_id s),
      fp_event = seedless_fork ext now m (se_id s), fp_line = line, fp_inbox = inbox_default\<rparr>"
  unfolding plan_fork_Inr
proof (intro conjI exI)
  show "creation_fork m \<lparr>par_id = se_id s, par_seed = 0, par_digest = prefix_sha256 ext []\<rparr> =
      Inr (fp_creation \<lparr>fp_seed = 0, fp_creation = seedless_creation ext m (se_id s),
        fp_event = seedless_fork ext now m (se_id s), fp_line = line, fp_inbox = inbox_default\<rparr>)"
    using seedless_validate(1) [OF env parent] env
    by (simp add: creation_fork_def seedless_creation_def Let_def)
qed (use seedless_validate(2) [OF env parent] depth line in \<open>simp_all add: seed_count_def
    max_logical_session_events_def open_turn_def validate_user_attachment_sequence_def
    project_inbox_def inbox_apply_event_def inbox_validate_event_def seedless_fork_def\<close>)

lemma seedless_runs:
  assumes env: "forks_encode ext now m" and codec: "faithful_for is_creation ext" and fits: "creation_fits ext"
    and s: "valid_session_component (se_id s)" "lineage_depth (se_events s) < max_lineage_depth"
      "w_store w (se_root s, se_id s) \<noteq> None"
    and i: "valid_session_component i" "unused w (se_root s, i)" "i \<noteq> se_id s"
  obtains c x where
    "fork_with_metadata ext now WriteAll i s (se_root s) (BoundaryCount 0) m w = (Inr c, w
       \<lparr>w_store := (w_store w)((se_root s, i) \<mapsto> x),
        w_leases := (w_leases w)((se_root s, i) \<mapsto> \<lparr>ls_generation = 1, ls_holders = 1\<rparr>)\<rparr>)"
    "session_key c = (se_root s, i)" "lineage_depth (se_events c) = 1"
    "forked_from ext ((w_store w)((se_root s, i) \<mapsto> x)) (se_root s) i (se_id s)"
proof -
  let ?e = "seedless_fork ext now m (se_id s)" and ?key = "(se_root s, i)"
  from env s(1) obtain line where line: "lx_encode ext ?e = Some line"
    by (auto simp: forks_encode_def)
  let ?x = "StoredDir (LogFile (line @ [newline]))"
  note plan = seedless_plan [OF env s(1,2) line]
  have e: "ev_v ?e = current_session_log_version" "ev_seq ?e = 0"
    "ev_kind ?e = SessionCreated (seedless_creation ext m (se_id s))"
    by (simp_all add: seedless_fork_def)
  note valid = seedless_validate(1) [OF env s(1)]
  have payload: "validate_for_version (lx_payload ext) current_session_log_version (ev_kind ?e) = Inr ()"
    using valid by (simp add: e(3) is_ok_iff current_session_log_version_def)
  have l: "line_of ext ?e line" using faithful_forD [OF codec line e(1) payload] e(3) by simp
  have origin: "fork_origin ?e = Some (seedless_creation ext m (se_id s),
      \<lparr>par_id = se_id s, par_seed = 0, par_digest = prefix_sha256 ext []\<rparr>)"
    by (simp add: fork_origin_def e(3) seedless_creation_def)
  define c where "c = \<lparr>se_root = se_root s, se_id = i, se_events = [?e],
    se_hashes = [event_leaf_sha256 ext line], se_inbox = inbox_default,
    se_creation = Some (seedless_creation ext m (se_id s)), se_first = 0,
    se_bytes = length line + 1, se_writer = Some 1, se_published = []\<rparr>"
  have run: "fork_with_metadata ext now WriteAll i s (se_root s) (BoundaryCount 0) m w = (Inr c, w
       \<lparr>w_store := (w_store w)(?key \<mapsto> ?x),
        w_leases := (w_leases w)(?key \<mapsto> \<lparr>ls_generation = 1, ls_holders = 1\<rparr>)\<rparr>)"
    using i(2) unfolding fork_with_metadata_def plan
    by (simp add: unused_def acquire_writer_lease_def commit_lease_def Let_def c_def)
  have "length line < max_session_log_bytes"
    using fits line e(3) valid unfolding creation_fits_def by blast
  moreover have "valid_utf8 (line @ [newline])" using l valid_utf8_text_of_lines [of "[line]"]
    by (simp add: line_of_def text_of_lines_def)
  ultimately have text': "log_text ((w_store w)(?key \<mapsto> ?x)) ?key = Inr (line @ [newline])"
    by (simp add: log_text_Inr complete_text_def)
  have lines: "log_lines (line @ [newline]) = [line]"
    using log_lines_snoc [of "[]" line] l by (simp add: line_of_def complete_text_def log_lines_def)
  have "forked_from ext ((w_store w)(?key \<mapsto> ?x)) (se_root s) i (se_id s)"
    unfolding forked_from_def
  proof (intro conjI exI)
    show "parse_line_unsequenced ext 1 line = Inr ?e" by (rule parse_written [OF l e(1) payload])
    show "fork_origin ?e = Some (seedless_creation ext m (se_id s),
      \<lparr>par_id = se_id s, par_seed = 0, par_digest = prefix_sha256 ext []\<rparr>)" by (rule origin)
    show "log_text ((w_store w)(?key \<mapsto> ?x)) (se_root s, i) = Inr (line @ [newline])" by (rule text')
  qed (use i s lines in \<open>simp_all add: e(2) max_logical_session_events_def\<close>)
  moreover have "lineage_depth (se_events c) = 1" by (simp add: c_def lineage_depth_def origin)
  moreover have "session_key c = ?key" by (simp add: c_def)
  ultimately show thesis by (intro that [OF run]) simp_all
qed

section \<open>A chain of forks\<close>

text \<open>Fork the session, then its child, and so on, always in front of the first event.\<close>

fun fork_chain ::
  "log_ext \<Rightarrow> int \<Rightarrow> creation_metadata \<Rightarrow> string list \<Rightarrow> world \<Rightarrow> session
   \<Rightarrow> (fork_error + session) \<times> world" where
  "fork_chain ext now m [] w s = (Inr s, w)"
| "fork_chain ext now m (i # is) w s =
     (case fork_with_metadata ext now WriteAll i s (se_root s) (BoundaryCount 0) m w of
        (Inl err, w') \<Rightarrow> (Inl err, w')
      | (Inr c, w') \<Rightarrow> fork_chain ext now m is w' c)"

lemma fork_chain_grows:
  assumes env: "forks_encode ext now m" "faithful_for is_creation ext" "creation_fits ext"
  shows "lineage_chain ext (w_store w) (se_root s) (se_id s # older) \<Longrightarrow>
    valid_session_component (se_id s) \<Longrightarrow> w_store w (session_key s) \<noteq> None \<Longrightarrow>
    lineage_depth (se_events s) < max_lineage_depth \<Longrightarrow> distinct (rev is @ se_id s # older) \<Longrightarrow>
    (\<And>i. i \<in> set is \<Longrightarrow> valid_session_component i \<and> unused w (se_root s, i)) \<Longrightarrow>
    \<exists>c w'. fork_chain ext now m is w s = (Inr c, w')
      \<and> lineage_chain ext (w_store w') (se_root s) (rev is @ se_id s # older)
      \<and> session_key c = (se_root s, hd (rev is @ se_id s # older))"
proof (induction "is" arbitrary: w s older)
  case (Cons i js)
  have i: "valid_session_component i" "unused w (se_root s, i)" "i \<noteq> se_id s"
    using Cons.prems(5,6) by auto
  obtain c x where run:
    "fork_with_metadata ext now WriteAll i s (se_root s) (BoundaryCount 0) m w = (Inr c, w
       \<lparr>w_store := (w_store w)((se_root s, i) \<mapsto> x),
        w_leases := (w_leases w)((se_root s, i) \<mapsto> \<lparr>ls_generation = 1, ls_holders = 1\<rparr>)\<rparr>)"
    "session_key c = (se_root s, i)" "lineage_depth (se_events c) = 1"
    "forked_from ext ((w_store w)((se_root s, i) \<mapsto> x)) (se_root s) i (se_id s)"
    by (rule seedless_runs [OF env Cons.prems(2,4) Cons.prems(3) i])
  let ?w = "w\<lparr>w_store := (w_store w)((se_root s, i) \<mapsto> x),
    w_leases := (w_leases w)((se_root s, i) \<mapsto> \<lparr>ls_generation = 1, ls_holders = 1\<rparr>)\<rparr>"
  have c: "se_root c = se_root s" "se_id c = i" using run(2) by simp_all
  have fresh: "w_store w (se_root s, i) = None" using i(2) by (simp add: unused_def)
  have chain: "lineage_chain ext (w_store ?w) (se_root c) (se_id c # se_id s # older)"
    using lineage_chain_fresh [OF fresh Cons.prems(1), of x] run(4)
    by (simp add: c del: fun_upd_apply)
  have rest: "valid_session_component j \<and> unused ?w (se_root c, j)" if "j \<in> set js" for j
    using Cons.prems(5) Cons.prems(6) [of j] that by (auto simp: c unused_def)
  from Cons.IH [OF chain _ _ _ _ rest] i(1) run(3) Cons.prems(5) obtain d w' where
    "fork_chain ext now m js ?w c = (Inr d, w')"
    "lineage_chain ext (w_store w') (se_root c) (rev js @ se_id c # se_id s # older)"
    "session_key d = (se_root c, hd (rev js @ se_id c # se_id s # older))"
    by (auto simp: c max_lineage_depth_def)
  then show ?case unfolding fork_chain.simps run(1) by (simp add: c)
qed simp

text \<open>With as many children as \<open>Session::open\<close> follows levels, the last one does not open.\<close>

lemma fork_chain_unreadable:
  assumes env: "forks_encode ext now m" "faithful_for is_creation ext" "creation_fits ext"
    and s: "valid_session_component (se_id s)" "w_store w (session_key s) \<noteq> None"
      "lineage_depth (se_events s) < max_lineage_depth"
    and ids: "distinct (se_id s # is)" "max_lineage_depth < length is"
      "\<And>i. i \<in> set is \<Longrightarrow> valid_session_component i \<and> unused w (se_root s, i)"
  obtains c w' where "fork_chain ext now m is w s = (Inr c, w')"
    "open_session ext (w_store w') (session_key c) = Inl LineageTooDeep"
proof -
  obtain c w' where run: "fork_chain ext now m is w s = (Inr c, w')"
    "lineage_chain ext (w_store w') (se_root s) (rev is @ [se_id s])"
    "session_key c = (se_root s, hd (rev is @ [se_id s]))"
    using fork_chain_grows [OF env, of w s "[]" "is"] s ids by auto
  obtain j js where js: "rev is @ [se_id s] = j # js" by (cases "rev is @ [se_id s]") auto
  have "length (rev is @ [se_id s]) = Suc (length js)" unfolding js by simp
  then have room: "max_lineage_depth + 1 \<le> length js" using ids(2) by simp
  have dist: "distinct (j # js)" unfolding js [symmetric] using ids(1) by simp
  have key: "fst (session_key c) = se_root s" "snd (session_key c) = j" using run(3) by (simp_all add: js)
  have "open_session ext (w_store w') (session_key c) = Inl LineageTooDeep"
    unfolding open_session_def key
    by (rule lineage_chain_too_deep [OF run(2) [unfolded js] dist _ room]) simp
  then show thesis by (rule that [OF run(1)])
qed

end
