(* ===== verification/Sample_Log.thy ===== *)
theory Sample_Log
  imports Log_History Log_Damage Fork_Limit Session_Properties
begin

text \<open>
  A small sessions root on which the properties of the log are evaluated: a codec given by a
  table of lines, one session with a pending message, and what its operations do.
\<close>

section \<open>A codec of finitely many lines\<close>

definition no_calendar :: calendar where
  "no_calendar =
     \<lparr>ca_local = \<lambda>_. LocalNone, ca_instant = \<lambda>_ _ _. LocalNone, ca_next_day = \<lambda>_. None,
      ca_month = \<lambda>_. 1, ca_day = \<lambda>_. 1, ca_weekday = \<lambda>_. 0\<rparr>"

definition plain_payload :: payload_ext where
  "plain_payload =
     \<lparr>pe_labels = \<lambda>_. None,
      pe_work = \<lparr>we_metadata_len = \<lambda>_. None, we_identity_json = \<lambda>_ _. None, we_fields_json = \<lambda>_ _. None,
        we_sha256_hex = \<lambda>_. [], we_parse_rows = \<lambda>_. None\<rparr>,
      pe_code_len = \<lambda>_. Some 1,
      pe_rich = \<lparr>re_json_len = \<lambda>_. Some 1, re_pretty = \<lambda>_. [], re_in_unit = \<lambda>_. False,
        re_url = \<lambda>_. None\<rparr>,
      pe_request = \<lparr>rq_sha256 = \<lambda>_. replicate 32 (CHR 0x00), rq_bytes = \<lambda>_. Some [],
        rq_len = \<lambda>_. Some 1, rq_float = \<lambda>_. JNull\<rparr>,
      pe_workflow = \<lparr>we_len = \<lambda>_. Some 1, we_infinite = \<lambda>_. False\<rparr>,
      pe_cron = \<lparr>ce_calendar = no_calendar, ce_sha256 = \<lambda>_. replicate 32 (CHR 0x00)\<rparr>\<rparr>"

definition table_ext :: "(session_event \<times> string) list \<Rightarrow> log_ext" where
  "table_ext rows =
     \<lparr>lx_payload = plain_payload, lx_encode = map_of rows,
      lx_head = \<lambda>line. map_option (\<lambda>e. (ev_v e, ev_seq e, ev_time e, kind_name (ev_kind e)))
        (map_of (map prod.swap rows) line),
      lx_kind = \<lambda>line. map_option ev_kind (map_of (map prod.swap rows) line),
      lx_sha256 = \<lambda>_. replicate 32 (CHR 0x00)\<rparr>"

lemma table_faithful:
  assumes "distinct (map snd rows)" "\<And>r. r \<in> set rows \<Longrightarrow> newline \<notin> set (snd r) \<and> valid_utf8 (snd r)"
  shows "faithful_for kinds (table_ext rows)"
proof -
  have "map_of (map prod.swap rows) line = Some e" if "map_of rows e = Some line" for e line
  proof -
    have "(e, line) \<in> set rows" using that by (rule map_of_SomeD)
    then have "(line, e) \<in> set (map prod.swap rows)" by force
    moreover have "distinct (map fst (map prod.swap rows))" using assms(1) by (simp add: o_def)
    ultimately show ?thesis by simp
  qed
  moreover have "newline \<notin> set line \<and> valid_utf8 line" if "map_of rows e = Some line" for e line
    using assms(2) [OF map_of_SomeD [OF that]] by simp
  ultimately show ?thesis by (auto simp: faithful_for_def line_of_def table_ext_def)
qed

section \<open>A session with a pending message\<close>

definition root_world :: world where
  "root_world = \<lparr>w_store = \<lambda>_. None, w_leases = \<lambda>_. None, w_foreign = \<lambda>_. False\<rparr>"

definition root_key :: session_key where
  "root_key = (''r'', ''a'')"

definition root_message :: inbox_message where
  "root_message = \<lparr>im_id = ''m1'', im_delivery = FollowUp, im_text = ''go'', im_source = SourceHuman\<rparr>"

definition root_insert :: session_event_kind where
  "root_insert =
     AgentInboxSplice \<lparr>sp_target = NextTurn, sp_start = 0, sp_removed = None, sp_inserted = [root_message],
       sp_outcome = None\<rparr>"

definition root_rows :: "(session_event \<times> string) list" where
  "root_rows =
     [(stamp 5 0 root_insert, ''x''), (stamp 5 1 (claim_splice NextTurn 0), ''y''),
      (stamp 5 2 (UserMessage ''go''), ''z''), (stamp 5 1 (cancel_splice NextTurn 0), ''w'')]"

definition root_ext :: log_ext where
  "root_ext = table_ext root_rows"

lemma root_faithful: "faithful_codec root_ext"
  unfolding root_ext_def faithful_codec_def
  by (rule table_faithful) (auto simp: root_rows_def byte_val_def intro!: ascii_valid_utf8)

definition root_opened :: world where
  "root_opened = snd (create_with_id root_key root_world)"

definition root_fresh :: session where
  "root_fresh = new_session root_key 1"

lemma root_created: "create_with_id root_key root_world = (Inr root_fresh, root_opened)"
  unfolding root_opened_def root_fresh_def
  by (simp add: create_with_id_def root_world_def root_key_def valid_session_component_def
      acquire_writer_lease_def commit_lease_def Let_def windows_reserved_name_def byte_to_upper_def
      strip_prefix_def is_ascii_alphanumeric_def is_ascii_digit_def is_ascii_lowercase_def
      is_ascii_uppercase_def plain_eval)

text \<open>Appending the message.\<close>

definition root_pending :: session where
  "root_pending =
     \<lparr>se_root = ''r'', se_id = ''a'', se_events = [stamp 5 0 root_insert],
      se_hashes = [replicate 32 (CHR 0x00)],
      se_inbox = \<lparr>ip_next_turn = [root_message], ip_next_step = [], ip_claimed = [], ip_canceled = [],
        ip_seen = [(''m1'', ())]\<rparr>,
      se_creation = None, se_first = 0, se_bytes = 2, se_writer = Some 1,
      se_published = [stamp 5 0 root_insert]\<rparr>"

definition root_written :: world where
  "root_written =
     root_opened\<lparr>w_store := (w_store root_opened)(root_key \<mapsto> StoredDir (LogFile (''x'' @ [newline])))\<rparr>"

lemmas log_eval =
  append_session_def append_kind_def prepare_event_def validate_payload_def validate_against_events_def
  validate_code_mode_def settle_batch_def settle_pairing_def advance_pairing_def validate_boundary_def
  validate_compaction_boundary_def validate_inbox_def commit_inbox_def reserve_def check_writable_def
  is_current_def saturating_add_u64_def u64_max_def max_logical_session_events_def max_session_log_bytes_def
  append_bytes_def new_session_def event_leaf_sha256_def since_v2_def ok_or_def and_then.simps
  refuse_if_def stamp_def current_session_log_version_def

lemma root_opened_eq:
  "root_opened =
     \<lparr>w_store = (\<lambda>_. None)(root_key \<mapsto> StoredDir (LogFile [])),
      w_leases = (\<lambda>_. None)(root_key \<mapsto> \<lparr>ls_generation = 1, ls_holders = 1\<rparr>), w_foreign = \<lambda>_. False\<rparr>"
  unfolding root_opened_def
  by (simp add: create_with_id_def root_world_def root_key_def valid_session_component_def
      acquire_writer_lease_def commit_lease_def Let_def windows_reserved_name_def byte_to_upper_def
      strip_prefix_def is_ascii_alphanumeric_def is_ascii_digit_def is_ascii_lowercase_def
      is_ascii_uppercase_def plain_eval)

lemma root_appended:
  "append_session root_ext 5 WriteAll root_insert (root_opened, root_fresh) =
     (Inr (stamp 5 0 root_insert), root_written, root_pending)"
  by (simp add: log_eval root_opened_eq root_written_def root_pending_def root_fresh_def root_key_def
      root_insert_def root_message_def root_ext_def table_ext_def root_rows_def plain_payload_def inbox_eval
      plain_text_ok inbox_default_def claim_splice_def cancel_splice_def)

text \<open>Claiming it, or recalling it.\<close>

definition root_claim :: "(append_error + inbox_message) \<times> world \<times> session" where
  "root_claim = append_inbox_claim root_ext (\<lambda>_. 5) WriteAll NextTurn 0 (root_written, root_pending)"

definition root_recall :: "(append_error + inbox_message list) \<times> world \<times> session" where
  "root_recall = recall_human_messages root_ext (\<lambda>_. 5) WriteAll (root_written, root_pending)"

lemmas batch_eval =
  append_inbox_claim_def recall_human_messages_def append_kinds_atomically_def prepare_atomically_def
  prepare_batch.simps batch_text_def text_of_lines_def claim_splice_def cancel_splice_def
  cancellations_def human_positions_def is_human_def recall_positions_ok_def
  upt_conv_Cons u32_max_def

lemmas root_defs =
  root_opened_eq root_written_def root_pending_def root_key_def root_insert_def root_message_def
  root_ext_def table_ext_def root_rows_def plain_payload_def

lemma root_claimed: "fst root_claim = Inr root_message"
  unfolding root_claim_def
  by (simp add: log_eval batch_eval root_defs inbox_eval plain_text_ok inbox_default_def)

lemma root_humans: "pending_human_messages root_pending = [root_message]"
  unfolding pending_human_messages_def
  by (auto simp: root_pending_def root_message_def root_insert_def is_human_def inserted_by_def stamp_def Let_def)

lemma root_recalled: "fst root_recall = Inr [root_message]"
  unfolding root_recall_def recall_human_messages_def split_conv root_humans
  by (simp add: log_eval batch_eval root_defs inbox_eval plain_text_ok inbox_default_def)

end
