(* ===== verification/Log_Properties.thy ===== *)
theory Log_Properties
  imports Sample_Log
begin

text \<open>
  The properties of the durable log: what every live handle can rely on after any sequence of
  operations, what each operation does to the log and to the inbox, what a fork reopens to, and
  the cases in which a log stops opening.
\<close>

section \<open>Live handles\<close>









definition root_reopened :: world where
  "root_reopened = root_written\<lparr>w_leases := (w_leases root_written)(root_key \<mapsto> \<lparr>ls_generation = 2, ls_holders = 2\<rparr>)\<rparr>"


lemma root_superseded: "check_writable root_reopened root_pending = Inl Superseded"
  by (simp add: check_writable_def is_current_def root_reopened_def root_pending_def root_key_def)













section \<open>Operations\<close>

text \<open>
  C16: claiming is exactly once. A claim that succeeds returns the message that waited at the
  position, takes it and nothing else out of its queue, settles it in the ledger of claims, and
  commits it as the text of the user message that follows; a claim that fails changes no handle,
  and the file only if the write itself failed.
\<close>

theorem claim_admits_one_message:
  assumes "append_inbox_claim ext clock outcome target start (w, s) = (r, w', s')"
  shows "case r of
      Inl err \<Rightarrow> s' = s \<and> (err \<noteq> AppendIo \<longrightarrow> w' = w)
    | Inr m \<Rightarrow>
        start < length (inbox_queue (se_inbox s) target) \<and> m = inbox_queue (se_inbox s) target ! start
        \<and> inbox_queue (se_inbox s') target = remove_nth start (inbox_queue (se_inbox s) target)
        \<and> (\<forall>t. t \<noteq> target \<longrightarrow> inbox_queue (se_inbox s') t = inbox_queue (se_inbox s) t)
        \<and> map st_message (ip_claimed (se_inbox s')) = map st_message (ip_claimed (se_inbox s)) @ [m]
        \<and> ip_canceled (se_inbox s') = ip_canceled (se_inbox s)
        \<and> map ev_kind (se_events s') =
            map ev_kind (se_events s) @ [claim_splice target start, UserMessage (im_text m)]
        \<and> prefix (se_events s) (se_events s')"
proof -
  let ?queue = "inbox_queue (se_inbox s) target"
  let ?kinds = "[claim_splice target start, UserMessage (im_text (?queue ! start))]"
  show ?thesis
  proof (cases "start < length ?queue")
    case False
    with assms show ?thesis by (auto simp: append_inbox_claim_def)
  next
    case True
    obtain r0 where ran: "append_kinds_atomically ext clock outcome ?kinds (w, s) = (r0, w', s')"
      "r = and_then r0 (\<lambda>_. Inr (?queue ! start))"
      using assms True by (auto simp: append_inbox_claim_def Let_def split: prod.splits)
    show ?thesis
    proof (cases r0)
      case (Inl err)
      with append_atomically_failed [of ext clock outcome ?kinds w s err w' s'] ran show ?thesis
        by (auto simp: failed_cleanly_def)
    next
      case (Inr e)
      with ran(1) obtain rows inbox where p: "prepare_atomically ext clock w s ?kinds = Inr (rows, inbox)"
        "se_inbox s' = inbox" "se_events s' = se_events s @ map fst rows"
        by (auto simp: append_kinds_atomically_def split: sum.splits write_outcome.splits if_splits)
      have batch: "prepare_batch ext clock s 0 (se_inbox s) ?kinds = Inr (rows, inbox)"
        using p(1) unfolding prepare_atomically_Inr by blast
      have kinds: "map ev_kind (map fst rows) = ?kinds"
        using prepare_batch_kinds [OF batch] by (simp add: o_def)
      from claim_applied [OF prepare_batch_inbox [OF batch] kinds] show ?thesis
        using ran(2) Inr kinds by (simp add: p(2,3) del: inbox_queue.simps)
    qed
  qed
qed

lemma root_claim_run:
  "append_inbox_claim root_ext (\<lambda>_. 5) WriteAll NextTurn 0 (root_written, root_pending) =
     (Inr root_message, fst (snd root_claim), snd (snd root_claim))"
  unfolding root_claim_def [symmetric] root_claimed [symmetric] by simp

theorem claim_admits_one_message_witness:
  "map st_message (ip_claimed (se_inbox (snd (snd root_claim)))) = [root_message]
   \<and> ip_next_turn (se_inbox (snd (snd root_claim))) = []"
  using claim_admits_one_message [OF root_claim_run] by (simp add: root_pending_def remove_nth_def)

text \<open>
  A recall withdraws the human messages and only those. It returns the pending messages of
  the user, cancels each of them, and leaves the deliveries of jobs, goals and teams queued in
  their order; nothing is claimed. When it fails the handle is unchanged.
\<close>

theorem recall_withdraws_human_messages:
  assumes "project_inbox (lx_labels ext) (se_events s) = Inr (se_inbox s)"
    and "recall_human_messages ext clock outcome (w, s) = (r, w', s')"
  shows "case r of
      Inl err \<Rightarrow> s' = s \<and> (err \<noteq> AppendIo \<longrightarrow> w' = w)
    | Inr ms \<Rightarrow>
        mset ms = mset (filter is_human (ip_next_turn (se_inbox s) @ ip_next_step (se_inbox s)))
        \<and> (\<forall>t. inbox_queue (se_inbox s') t = filter (\<lambda>m. \<not> is_human m) (inbox_queue (se_inbox s) t))
        \<and> ip_claimed (se_inbox s') = ip_claimed (se_inbox s)
        \<and> mset (map st_message (ip_canceled (se_inbox s'))) =
            mset (map st_message (ip_canceled (se_inbox s))) + mset ms
        \<and> prefix (se_events s) (se_events s')"
proof -
  let ?p = "se_inbox s"
  let ?humans = "filter is_human (ip_next_turn ?p @ ip_next_step ?p)"
  have pending: "mset (pending_human_messages s) = mset ?humans"
    by (rule pending_human_exact [OF assms(1)])
  show ?thesis
  proof (cases "pending_human_messages s = []")
    case True
    then have "?humans = []" using pending by simp
    then have "filter (\<lambda>m. \<not> is_human m) (inbox_queue ?p t) = inbox_queue ?p t" for t
      by (cases t) (auto simp: filter_empty_conv intro!: filter_True)
    with True assms(2) \<open>?humans = []\<close> show ?thesis
      by (auto simp: recall_human_messages_def Let_def simp del: inbox_queue.simps)
  next
    case False
    show ?thesis
    proof (cases "recall_positions_ok ?p")
      case False
      with \<open>pending_human_messages s \<noteq> []\<close> assms(2) show ?thesis
        by (auto simp: recall_human_messages_def Let_def)
    next
      case True
      with False obtain r0 where ran:
        "append_kinds_atomically ext clock outcome (cancellations ?p) (w, s) = (r0, w', s')"
        "r = and_then r0 (\<lambda>_. Inr (pending_human_messages s))"
        using assms(2) by (auto simp: recall_human_messages_def Let_def split: prod.splits)
      have some: "cancellations ?p \<noteq> []" using no_recall False by blast
      show ?thesis
      proof (cases r0)
        case (Inl err)
        with append_atomically_failed [OF _ some, of ext clock outcome w s err w' s'] ran show ?thesis
          by (auto simp: failed_cleanly_def)
      next
        case (Inr e)
        with ran(1) obtain rows inbox where p:
          "prepare_atomically ext clock w s (cancellations ?p) = Inr (rows, inbox)"
          "se_inbox s' = inbox" "se_events s' = se_events s @ map fst rows"
          by (auto simp: append_kinds_atomically_def split: sum.splits write_outcome.splits if_splits)
        have batch: "prepare_batch ext clock s 0 ?p (cancellations ?p) = Inr (rows, inbox)"
          using p(1) unfolding prepare_atomically_Inr by blast
        have kinds: "map ev_kind (map fst rows) = cancellations ?p"
          using prepare_batch_kinds [OF batch] by (simp add: o_def)
        from recall_applied [OF prepare_batch_inbox [OF batch] kinds] show ?thesis
          using ran(2) Inr pending by (simp add: p(2,3) del: inbox_queue.simps)
      qed
    qed
  qed
qed

lemma root_inbox: "project_inbox (lx_labels root_ext) (se_events root_pending) = Inr (se_inbox root_pending)"
  by (simp add: root_defs inbox_eval plain_text_ok project_inbox_def inbox_default_def stamp_def
      current_session_log_version_def)

lemma root_recall_run:
  "recall_human_messages root_ext (\<lambda>_. 5) WriteAll (root_written, root_pending) =
     (Inr [root_message], fst (snd root_recall), snd (snd root_recall))"
  unfolding root_recall_def [symmetric] root_recalled [symmetric] by simp

theorem recall_withdraws_human_messages_witness:
  "mset (map st_message (ip_canceled (se_inbox (snd (snd root_recall))))) = {#root_message#}
   \<and> ip_next_turn (se_inbox (snd (snd root_recall))) = []"
  using recall_withdraws_human_messages [OF root_inbox root_recall_run]
  by (auto simp: root_pending_def root_message_def is_human_def dest: spec [of _ NextTurn])

end
