(* ===== verification/Damage_Properties.thy ===== *)
theory Damage_Properties
  imports Sample_Log
begin

text \<open>
  Forks and logs that stop opening: a forked child reopens to the prefix it was given; a chain of
  forks can outgrow the reader; a settlement with a null result, and a write that was torn, leave
  a log that no longer opens although every call reported success afterwards.
\<close>

section \<open>Forks\<close>

text \<open>
  C20: forking is sound. When the parent opens with the levels its own fork records count, and the
  chosen prefix keeps all of those records, the child reopens from the store to its handle: the
  prefix of the parent followed by its own creation record. The parent and every other session
  read as before. Of serde\_json it is assumed that it reads back the lines it prints of valid creation
  records, which hold no JSON value of a caller (\<open>faithful_for is_creation\<close>), and that such a
  line, whose fields are bounded, is shorter than a log may be (\<open>creation_fits\<close>); the child's id, which the
  code generates, is a valid name.
\<close>

theorem forked_child_reopens:
  assumes "faithful_for is_creation ext" "creation_fits ext" "valid_session_component i"
    and "fork_with_metadata ext now WriteAll i s root boundary metadata w = (Inr c, w')"
    and "open_inner (lineage_depth (se_events s) + 1) ext (w_store w) (se_root s) [] (se_id s) =
      Inr (s\<lparr>se_writer := None, se_published := []\<rparr>)"
    and "lineage_depth (take (se_first c) (se_events s)) = lineage_depth (se_events s)"
  shows "open_session ext (w_store w') (root, i) = Inr (c\<lparr>se_writer := None, se_published := []\<rparr>)
    \<and> take (se_first c) (se_events c) = take (se_first c) (se_events s)
    \<and> length (se_events c) = se_first c + 1
    \<and> open_session ext (w_store w') (session_key s) = Inr (s\<lparr>se_writer := None, se_published := []\<rparr>)
    \<and> only_changes ext (root, i) (w_store w) (w_store w')"
proof -
  have parent: "opens_within (lineage_depth (se_events s) + 1) ext (w_store w) s"
    using assms(5) unfolding opens_within_def as_read_def .
  note fork = fork_reads_back [OF assms(1,2,4,3) parent assms(6)]
  obtain plan where plan: "plan_fork ext now s (se_root s) boundary metadata = Inr plan" "root = se_root s"
    "as_read c = child_of ext i s plan"
    by (rule fork_with_metadata_Inr [OF assms(4)])
  from plan(1) have seed: "seed_count s boundary = Inr (fp_seed plan)" and
    depth: "lineage_depth (se_events s) < max_lineage_depth"
    unfolding plan_fork_Inr by blast+
  have c: "se_first c = fp_seed plan" "se_events c = take (fp_seed plan) (se_events s) @ [fp_event plan]"
    "session_key c = (root, i)"
    using arg_cong [OF plan(3), of se_first] arg_cong [OF plan(3), of se_events]
      arg_cong [OF plan(3), of se_root] arg_cong [OF plan(3), of se_id]
    by (simp_all add: as_read_def child_of_def plan(2))
  have "open_session ext (w_store w') (session_key s) = Inr (as_read s)"
    using opens_within_reads_back [of "lineage_depth (se_events s) + 1"] fork depth
    unfolding reads_back_def by simp
  with fork seed_count_le [OF seed] show ?thesis
    unfolding reads_back_def c(3) by (simp add: c(1,2) as_read_def)
qed

text \<open>
  C29: the limit on ancestors does not bound them. Forking in front of the first event, then
  forking the child the same way, and so on, succeeds as often as one likes; with more children
  than the sixty-four ancestors the reader follows, the last child, whose handle was returned as
  a success, does not open. Of serde\_json it is assumed that it prints these creation records
  (\<open>forks_encode\<close>, which also asks of SHA-256 that its digests have 32 bytes and of the
  given metadata that it is valid for a fork), in lines shorter than a log may be
  (\<open>creation_fits\<close>), and reads the lines of valid creation records back
  (\<open>faithful_for is_creation\<close>); the children's ids are valid, different and unused.
\<close>

theorem fork_limit_exceeded:
  assumes "faithful_for is_creation ext" "creation_fits ext" "forks_encode ext now metadata"
    and "valid_session_component (se_id s)" "w_store w (session_key s) \<noteq> None"
    and "lineage_depth (se_events s) < max_lineage_depth"
    and "distinct (se_id s # children)" "max_lineage_depth < length children"
    and "\<forall>i \<in> set children. valid_session_component i \<and> unused w (se_root s, i)"
  shows "\<exists>c w'. fork_chain ext now metadata children w s = (Inr c, w')
    \<and> open_session ext (w_store w') (session_key c) = Inl LineageTooDeep"
proof -
  obtain c w' where "fork_chain ext now metadata children w s = (Inr c, w')"
    "open_session ext (w_store w') (session_key c) = Inl LineageTooDeep"
    by (rule fork_chain_unreadable [OF assms(3,1,2,4-8)]) (use assms(9) in auto)
  then show ?thesis by blast
qed

section \<open>A null result\<close>

text \<open>
  What serde\_json does with a settlement whose value is \<open>Some(Value::Null)\<close>: it prints
  \<open>null\<close>, and reads the field back as \<open>None\<close>.
\<close>

definition null_reads_as_absent :: "log_ext \<Rightarrow> session_event \<Rightarrow> string \<Rightarrow> bool" where
  "null_reads_as_absent ext e line \<longleftrightarrow>
     (\<exists>run call. ev_kind e = CodeModeChange (CallFinished run call (Some JNull) None)
        \<and> lx_head ext line = Some (ev_v e, ev_seq e, ev_time e, kind_name (ev_kind e))
        \<and> lx_kind ext line = Some (CodeModeChange (CallFinished run call None None))
        \<and> newline \<notin> set line \<and> valid_utf8 line)"

lemma append_session_kind:
  "append_session ext now outcome k (w, s) = (Inr e, w', s') \<Longrightarrow>
   append_kind ext now outcome k (w, s) = (Inr e, w', s')"
  by (simp add: append_session_def split: if_splits)


lemma no_outcome_refused: "code_validate_shape len (CallFinished run call None None) \<noteq> Inr ()"
  by (simp add: code_validate_shape_def script_outcome_ok_def)

text \<open>
  C33: a script call that settles with the JSON value null locks its session out. The append is
  accepted and returns the event, and from then on the log does not open: the reader finds a
  settlement with neither value nor error on the last line.
\<close>

theorem null_result_unreadable:
  assumes "open_session ext (w_store w) (session_key s) = Inr (s\<lparr>se_writer := None, se_published := []\<rparr>)"
    and "w_store w (session_key s) = Some (StoredDir (LogFile raw))"
    and "append_session ext now WriteAll (CodeModeChange (CallFinished run call (Some JNull) None)) (w, s) =
      (Inr e, w', s')"
    and "lx_encode ext e = Some line" "null_reads_as_absent ext e line"
  shows "open_session ext (w_store w') (session_key s) =
    Inl (InvalidEvent (Suc (length (log_lines raw))) (BadPayload InvalidPayload))"
proof -
  let ?k = "CodeModeChange (CallFinished run call (Some JNull) None)"
  have rb: "reads_back ext (w_store w) s" using assms(1) by (simp add: reads_back_def as_read_def)
  from append_session_kind [OF assms(3)] obtain sp l where
    p: "prepare_event ext now w s ?k = Inr (e, sp, l)"
    "w_store w' = append_bytes (session_key s) (l @ [newline]) (w_store w)"
    by (auto simp: append_kind_def split: sum.splits)
  note parts = p(1) [unfolded prepare_event_Inr]
  have e: "e = stamp now (length (se_events s)) ?k" and l: "l = line" using parts assms(4) by auto
  have w': "w_store w' = (w_store w)(session_key s \<mapsto> StoredDir (LogFile (raw @ line @ [newline])))"
    using assms(2) p(2) by (simp add: append_bytes_def l)
  have bounds: "length (raw @ line @ [newline]) \<le> max_session_log_bytes"
    "length (se_events s) < max_logical_session_events"
  proof -
    from reads_backE [OF rb] obtain raw' where
      "w_store w (session_key s) = Some (StoredDir (LogFile raw'))" "se_bytes s = length raw'" by blast
    moreover have "reserve s 1 (length l + 1) = Inr ()" using parts by blast
    ultimately show "length (raw @ line @ [newline]) \<le> max_session_log_bytes"
      "length (se_events s) < max_logical_session_events"
      using assms(2) by (simp_all add: reserve_Inr l)
  qed
  have ek: "ev_kind e = ?k" by (simp add: e)
  from assms(5) obtain run' call' where n: "ev_kind e = CodeModeChange (CallFinished run' call' (Some JNull) None)"
    "lx_head ext line = Some (ev_v e, ev_seq e, ev_time e, kind_name (ev_kind e))"
    "lx_kind ext line = Some (CodeModeChange (CallFinished run' call' None None))"
    "newline \<notin> set line" "valid_utf8 line"
    unfolding null_reads_as_absent_def by blast
  have "run' = run" "call' = call" using n(1) ek by simp_all
  then have kind: "lx_kind ext line = Some (CodeModeChange (CallFinished run call None None))"
    and head: "lx_head ext line = Some (ev_v e, ev_seq e, ev_time e, kind_name ?k)"
    using n(2,3) ek by simp_all
  have known: "known_kinds (ev_v e) = Inr known_kinds_v2"
    by (simp add: e known_kinds_def current_session_log_version_def)
  have shape: "validate_for_version (lx_payload ext) (ev_v e) (CodeModeChange (CallFinished run call None None))
      = Inl InvalidPayload"
    using no_outcome_refused [of "lx_code_len ext" run call]
    by (simp add: e current_session_log_version_def since_v2_def is_ok_iff refuse_if_def)
  have parse: "parse_line_unsequenced ext n line = Inl (InvalidEvent n (BadPayload InvalidPayload))" for n
    using kind_name_known [of ?k]
    by (simp add: parse_line_unsequenced_def kind head known shape ok_or_def refuse_if_def
        del: kind_name.simps validate_for_version.simps)
  show ?thesis
    unfolding w'
    by (rule last_line_refused [OF rb assms(2) n(4) _ bounds parse])
      (use n(5) valid_utf8_text_of_lines [of "[line]"] in \<open>simp add: text_of_lines_def\<close>)
qed

section \<open>A torn write\<close>


section \<open>Samples\<close>

text \<open>Sessions named \<open>a\<close>, \<open>aa\<close>, and so on, and a codec that prints a fork as its parent's name.\<close>

definition fork_metadata :: creation_metadata where
  "fork_metadata = \<lparr>cm_cwd = None, cm_runtime = None, cm_source = FromFork\<rparr>"

definition chain_fork :: "string \<Rightarrow> session_event" where
  "chain_fork parent = seedless_fork (table_ext []) 5 fork_metadata parent"

definition chain_parent :: "session_event_kind \<Rightarrow> string option" where
  "chain_parent k =
     (case k of SessionCreated c \<Rightarrow> map_option par_id (cr_parent c) | _ \<Rightarrow> None)"

definition chain_ext :: log_ext where
  "chain_ext = (table_ext [])
     \<lparr>lx_encode := \<lambda>e. (case chain_parent (ev_kind e) of
          Some i \<Rightarrow> if e = chain_fork i \<and> valid_session_component i then Some i else None
        | None \<Rightarrow> None),
      lx_head := \<lambda>line. Some (2, 0, 5, ''session/created''),
      lx_kind := \<lambda>line. Some (ev_kind (chain_fork line))\<rparr>"

lemma chain_seedless: "seedless_fork chain_ext 5 fork_metadata i = chain_fork i"
  by (simp add: chain_fork_def seedless_fork_def seedless_creation_def prefix_sha256_def chain_ext_def
      table_ext_def)

lemma newline_byte: "byte_val newline = 10"
  by (simp add: byte_val_def)

lemma dash_bytes: "byte_val (CHR ''-'') = 45" "byte_val (CHR ''_'') = 95" "byte_val (CHR ''.'') = 46"
  by (simp_all add: byte_val_def)

lemma component_byte:
  "is_ascii_alphanumeric b \<or> b = CHR ''-'' \<or> b = CHR ''_'' \<or> b = CHR ''.'' \<Longrightarrow> byte_val b < 128 \<and> b \<noteq> newline"
proof -
  assume b: "is_ascii_alphanumeric b \<or> b = CHR ''-'' \<or> b = CHR ''_'' \<or> b = CHR ''.''"
  have "is_ascii_alphanumeric b \<Longrightarrow> 45 \<le> byte_val b \<and> byte_val b < 128"
    unfolding is_ascii_alphanumeric_def is_ascii_digit_def is_ascii_lowercase_def is_ascii_uppercase_def
      byte_in_def by linarith
  moreover have "b = CHR ''-'' \<or> b = CHR ''_'' \<or> b = CHR ''.'' \<Longrightarrow> 45 \<le> byte_val b \<and> byte_val b < 128"
    using dash_bytes by fastforce
  ultimately have range: "45 \<le> byte_val b" "byte_val b < 128" using b by blast+
  moreover have "b \<noteq> newline"
  proof
    assume "b = newline"
    with range(1) newline_byte show False by simp
  qed
  ultimately show ?thesis by blast
qed

lemma component_ascii: "valid_session_component i \<Longrightarrow> newline \<notin> set i \<and> valid_utf8 i \<and> length i \<le> 128"
proof -
  assume i: "valid_session_component i"
  then have "list_all (\<lambda>b. is_ascii_alphanumeric b \<or> b = CHR ''-'' \<or> b = CHR ''_'' \<or> b = CHR ''.'') i"
    "length i \<le> 128" by (simp_all add: valid_session_component_def)
  then have "list_all (\<lambda>b. byte_val b < 128 \<and> b \<noteq> newline) i"
    unfolding list_all_iff using component_byte by blast
  then have "list_all (\<lambda>b. byte_val b < 128) i" "newline \<notin> set i" unfolding list_all_iff by blast+
  with \<open>length i \<le> 128\<close> ascii_valid_utf8 show ?thesis by blast
qed

lemma chain_parent_fork: "chain_parent (ev_kind (chain_fork i)) = Some i"
  by (simp add: chain_parent_def chain_fork_def seedless_fork_def seedless_creation_def)

lemma chain_encode:
  "lx_encode chain_ext e = Some line \<longleftrightarrow> e = chain_fork line \<and> valid_session_component line"
proof -
  have "chain_fork i = chain_fork j \<Longrightarrow> i = j" for i j using chain_parent_fork by (metis option.inject)
  then show ?thesis by (auto simp: chain_ext_def chain_parent_fork split: option.splits if_splits)
qed

lemma chain_faithful: "faithful_codec chain_ext"
  unfolding faithful_codec_def faithful_for_def line_of_def chain_encode
  using component_ascii
  by (auto simp: chain_ext_def chain_fork_def seedless_fork_def stamp_def current_session_log_version_def)

lemma chain_fits: "creation_fits chain_ext"
  unfolding creation_fits_def chain_encode using component_ascii
  by (force simp: max_session_log_bytes_def)

lemma chain_forks: "forks_encode chain_ext 5 fork_metadata"
  unfolding forks_encode_def chain_seedless
  using chain_encode [of "chain_fork i" i for i]
  by (simp add: fork_metadata_def metadata_validate_def chain_ext_def table_ext_def chain_parent_fork)

text \<open>A root session \<open>a\<close>, and as many names as one likes.\<close>

definition child_name :: "nat \<Rightarrow> string" where
  "child_name n = replicate n (CHR ''a'')"

lemma child_name_valid: "0 < n \<Longrightarrow> n \<le> 128 \<Longrightarrow> valid_session_component (child_name n)"
proof -
  assume n: "0 < n" "n \<le> 128"
  then obtain m where m: "n = Suc m" by (cases n) auto
  have a: "is_ascii_alphanumeric (CHR ''a'')"
    by (simp add: is_ascii_alphanumeric_def is_ascii_lowercase_def plain_eval)
  have upper: "byte_to_upper (CHR ''a'') = CHR ''A''"
    by (simp add: byte_to_upper_def is_ascii_lowercase_def plain_eval char_of_def bit_0)
  have "split_on (CHR ''.'') (child_name n) = [child_name n]"
    by (rule split_on_plain) (simp add: child_name_def)
  moreover have "replicate m (CHR ''A'') \<noteq> ''UX''" by (cases m) simp_all
  ultimately have "\<not> windows_reserved_name (child_name n)"
    by (simp add: windows_reserved_name_def child_name_def m upper strip_prefix_def Let_def)
  with n a show ?thesis
    by (simp add: valid_session_component_def child_name_def m last_replicate list_all_iff del: replicate_Suc)
qed

definition child_names :: "string list" where
  "child_names = map child_name [2..<67]"

lemma root_fresh_opens: "open_inner 1 chain_ext (w_store root_opened) ''r'' [] ''a'' = Inr (as_read root_fresh)"
  using open_empty_log [of "''a''" "w_store root_opened" "''r''" 0 chain_ext] child_name_valid [of 1]
  by (simp add: root_opened_eq root_key_def root_fresh_def new_session_def opened_def stream_state_def
      as_read_def child_name_def del: open_inner.simps)

theorem fork_limit_exceeded_witness:
  "\<exists>c w'. fork_chain chain_ext 5 fork_metadata child_names root_opened root_fresh = (Inr c, w')
    \<and> open_session chain_ext (w_store w') (session_key c) = Inl LineageTooDeep"
proof (rule fork_limit_exceeded [OF codec_creations [OF chain_faithful] chain_fits chain_forks])
  have root: "session_key root_fresh = (''r'', child_name 1)" "se_events root_fresh = []"
    by (simp_all add: root_fresh_def new_session_def root_key_def child_name_def)
  show "valid_session_component (se_id root_fresh)" using root child_name_valid [of 1] by simp
  show "w_store root_opened (session_key root_fresh) \<noteq> None"
    by (simp add: root_opened_eq root_fresh_def new_session_def root_key_def)
  show "lineage_depth (se_events root_fresh) < max_lineage_depth"
    by (simp add: root lineage_depth_def max_lineage_depth_def)
  have inj: "inj child_name" by (rule injI) (metis child_name_def length_replicate)
  have "distinct child_names"
    unfolding child_names_def distinct_map using inj by (simp only: distinct_upt inj_on_subset [OF _ subset_UNIV] simp_thms)
  moreover have "child_name 1 \<notin> set child_names"
    unfolding child_names_def using injD [OF inj] by fastforce
  ultimately show "distinct (se_id root_fresh # child_names)" using root by simp
  show "max_lineage_depth < length child_names" by (simp add: child_names_def max_lineage_depth_def)
  have "child_name n \<noteq> ''a''" if "2 \<le> n" for n
    using injD [OF inj, of n 1] that by (auto simp: child_name_def)
  then show "\<forall>i \<in> set child_names. valid_session_component i \<and> unused root_opened (se_root root_fresh, i)"
    using child_name_valid
    by (auto simp: child_names_def unused_def root_opened_eq root_fresh_def new_session_def root_key_def)
qed

theorem forked_child_reopens_witness:
  "\<exists>c w'. fork_with_metadata chain_ext 5 WriteAll ''aa'' root_fresh ''r'' (BoundaryCount 0) fork_metadata
      root_opened = (Inr c, w')
    \<and> open_session chain_ext (w_store w') (''r'', ''aa'') = Inr (c\<lparr>se_writer := None, se_published := []\<rparr>)"
proof -
  have root: "session_key root_fresh = (''r'', ''a'')" "se_events root_fresh = []"
    by (simp_all add: root_fresh_def new_session_def root_key_def)
  have names: "valid_session_component ''a''" "valid_session_component ''aa''"
    using child_name_valid [of 1] child_name_valid [of 2] by (simp_all add: child_name_def eval_nat_numeral)
  obtain c x where run: "fork_with_metadata chain_ext 5 WriteAll ''aa'' root_fresh (se_root root_fresh)
      (BoundaryCount 0) fork_metadata root_opened = (Inr c, root_opened
       \<lparr>w_store := (w_store root_opened)((se_root root_fresh, ''aa'') \<mapsto> x),
        w_leases := (w_leases root_opened)((se_root root_fresh, ''aa'') \<mapsto>
          \<lparr>ls_generation = 1, ls_holders = 1\<rparr>)\<rparr>)"
    by (rule seedless_runs [OF chain_forks codec_creations [OF chain_faithful] chain_fits, of root_fresh root_opened "''aa''"])
      (use root names in \<open>simp_all add: lineage_depth_def max_lineage_depth_def root_opened_eq root_key_def
        unused_def\<close>)
  show ?thesis
    using forked_child_reopens [OF codec_creations [OF chain_faithful] chain_fits names(2) run] root_fresh_opens root run
    by (simp add: lineage_depth_def as_read_def del: open_inner.simps fun_upd_apply)
qed





text \<open>A script run whose only call settles with null.\<close>

definition null_script :: saved_script where
  "null_script = \<lparr>sc_name = ''s'', sc_source = ''go'', sc_tools = [(''t'', ())]\<rparr>"

definition null_start :: session_event_kind where
  "null_start = CodeModeChange (ScriptStarted ''r'' null_script)"

definition null_call :: session_event_kind where
  "null_call = CodeModeChange (CallStarted ''r'' 0 ''t'' (JObject []))"

definition null_settle :: "json option \<Rightarrow> session_event_kind" where
  "null_settle value = CodeModeChange (CallFinished ''r'' 0 value None)"

definition null_rows :: "json option \<Rightarrow> (session_event \<times> string) list" where
  "null_rows value =
     [(stamp 5 0 null_start, ''x''), (stamp 5 1 null_call, ''y''), (stamp 5 2 (null_settle value), ''z'')]"

definition null_ext :: log_ext where
  "null_ext = (table_ext (null_rows None))\<lparr>lx_encode := map_of (null_rows (Some JNull))\<rparr>"

lemma null_faithful: "faithful_codec null_ext"
  by (auto simp: faithful_codec_def faithful_for_def line_of_def null_ext_def table_ext_def null_rows_def null_settle_def
      null_start_def null_call_def present_exact_def byte_val_def stamp_def split: if_splits
      intro!: ascii_valid_utf8)

definition null_session :: "session_event list \<Rightarrow> session" where
  "null_session es =
     root_fresh\<lparr>se_events := es, se_hashes := map (\<lambda>_. replicate 32 (CHR 0x00)) es,
       se_bytes := 2 * length es, se_published := es\<rparr>"

definition null_world :: "string \<Rightarrow> world" where
  "null_world raw = root_opened\<lparr>w_store := (w_store root_opened)(root_key \<mapsto> StoredDir (LogFile raw))\<rparr>"

lemmas null_defs =
  null_session_def null_world_def root_fresh_def root_opened_eq root_key_def null_ext_def table_ext_def
  null_rows_def null_settle_def null_start_def null_call_def null_script_def plain_payload_def

lemmas script_eval =
  project_code_mode_def code_mode_event_def code_mode_apply_def code_validate_shape_def script_ok_def
  code_id_ok_def script_outcome_ok_def code_mode_default_def active_run_def set_run_def plain_is_blank
  plain_trim plain_no_control bt_keys_def

lemma null_started:
  "append_session null_ext 5 WriteAll null_start (root_opened, root_fresh) =
     (Inr (stamp 5 0 null_start), null_world (''x'' @ [newline]), null_session [stamp 5 0 null_start])"
  by (simp add: log_eval null_defs script_eval plain_eval map_eval inbox_eval inbox_default_def)

lemma null_called:
  "append_session null_ext 5 WriteAll null_call (null_world (''x'' @ [newline]), null_session [stamp 5 0 null_start]) =
     (Inr (stamp 5 1 null_call), null_world (''x'' @ [newline] @ ''y'' @ [newline]),
      null_session [stamp 5 0 null_start, stamp 5 1 null_call])"
  by (simp add: log_eval null_defs script_eval plain_eval map_eval inbox_eval inbox_default_def)

definition null_settled :: "world \<times> session" where
  "null_settled =
     snd (append_session null_ext 5 WriteAll (null_settle (Some JNull))
       (null_world (''x'' @ [newline] @ ''y'' @ [newline]),
        null_session [stamp 5 0 null_start, stamp 5 1 null_call]))"

lemma null_settles:
  "append_session null_ext 5 WriteAll (null_settle (Some JNull))
     (null_world (''x'' @ [newline] @ ''y'' @ [newline]),
      null_session [stamp 5 0 null_start, stamp 5 1 null_call]) =
   (Inr (stamp 5 2 (null_settle (Some JNull))), fst null_settled, snd null_settled)"
  unfolding null_settled_def
  by (simp add: log_eval null_defs script_eval plain_eval map_eval inbox_eval inbox_default_def)

lemma null_session_reads:
  "reads_back null_ext (w_store (null_world (''x'' @ [newline] @ ''y'' @ [newline])))
     (null_session [stamp 5 0 null_start, stamp 5 1 null_call])"
proof -
  have fresh: "reads_back null_ext (w_store root_opened) root_fresh"
    using create_with_id_reads_back [OF root_created] by blast
  have exact: "kind_exact null_start" "\<not> is_creation null_start" "kind_exact null_call" "\<not> is_creation null_call"
    by (simp_all add: null_start_def null_call_def json_exact_def)
  have "reads_back null_ext (w_store (null_world (''x'' @ [newline]))) (null_session [stamp 5 0 null_start])"
    using append_kind_reads_back [OF null_faithful fresh exact(1,2) append_session_kind [OF null_started]]
    by blast
  from append_kind_reads_back [OF null_faithful this exact(3,4) append_session_kind [OF null_called]]
  show ?thesis by blast
qed

theorem null_result_unreadable_witness:
  "open_session null_ext (w_store (fst null_settled)) root_key = Inl (InvalidEvent 3 (BadPayload InvalidPayload))"
proof -
  let ?raw = "''x'' @ [newline] @ ''y'' @ [newline]"
  let ?s = "null_session [stamp 5 0 null_start, stamp 5 1 null_call]"
  have opens: "open_session null_ext (w_store (null_world ?raw)) (session_key ?s) =
      Inr (?s\<lparr>se_writer := None, se_published := []\<rparr>)"
    using null_session_reads unfolding reads_back_def as_read_def .
  have raw: "w_store (null_world ?raw) (session_key ?s) = Some (StoredDir (LogFile ?raw))"
    by (simp add: null_world_def null_session_def root_fresh_def new_session_def root_key_def)
  have line: "lx_encode null_ext (stamp 5 2 (null_settle (Some JNull))) = Some ''z''"
    by (simp add: null_ext_def null_rows_def null_settle_def null_start_def null_call_def stamp_def)
  have null: "null_reads_as_absent null_ext (stamp 5 2 (null_settle (Some JNull))) ''z''"
    by (auto simp: null_reads_as_absent_def null_ext_def table_ext_def null_rows_def null_settle_def
        byte_val_def stamp_def intro!: ascii_valid_utf8)
  have lines: "length (log_lines ?raw) = 2" by (simp add: log_lines_def)
  have "open_session null_ext (w_store (fst null_settled)) (session_key ?s) =
      Inl (InvalidEvent (Suc (length (log_lines ?raw))) (BadPayload InvalidPayload))"
    by (rule null_result_unreadable [OF opens raw null_settles [unfolded null_settle_def] line
        [unfolded null_settle_def] null [unfolded null_settle_def]])
  then show ?thesis unfolding lines by (simp add: null_session_def root_fresh_def new_session_def root_key_def)
qed

end
