(* ===== verification/Session_Repair.thy ===== *)
theory Session_Repair
  imports Session_Event Ordered_Map Replay "HOL-Library.Product_Lexorder"
begin

text \<open>
  What a killed process left open (\<open>heycode-session/src/repair.rs\<close>). The code keeps slots in
  log order and one queue of slot indices per correlation key; the abstract specification is a
  plain list of open records, and the refinement between the two is proved here.
\<close>

section \<open>Records\<close>

datatype open_outcome = OutcomeUnknown | OutcomeInterrupted

datatype open_record_kind =
    OpenTurn nat
  | OpenStep nat nat \<comment> \<open>turn, step\<close>
  | OpenToolCall nat string string bool \<comment> \<open>turn, call, name, dispatched\<close>
  | OpenServerToolCall nat nat string \<comment> \<open>turn, step, call\<close>

fun record_turn :: "open_record_kind \<Rightarrow> nat" where
  "record_turn (OpenTurn turn) = turn"
| "record_turn (OpenStep turn _) = turn"
| "record_turn (OpenToolCall turn _ _ _) = turn"
| "record_turn (OpenServerToolCall turn _ _) = turn"

record open_slot =
  os_seq :: nat
  os_kind :: open_record_kind

record open_record =
  or_seq :: nat
  or_kind :: open_record_kind
  or_outcome :: open_outcome

type_synonym session_repair = "open_record list"

definition repair_is_clean :: "session_repair \<Rightarrow> bool" where
  "repair_is_clean repair \<longleftrightarrow> repair = []"

fun is_tool_record :: "open_record_kind \<Rightarrow> bool" where
  "is_tool_record (OpenToolCall _ _ _ _) = True"
| "is_tool_record _ = False"

definition unanswered_tool_calls :: "session_repair \<Rightarrow> open_record list" where
  "unanswered_tool_calls repair = filter (\<lambda>r. is_tool_record (or_kind r)) repair"

section \<open>The projection\<close>

record repair_state =
  rs_slots :: "open_slot option list"
  rs_turns :: "(nat, nat list) btree_map"
  rs_steps :: "(nat \<times> nat, nat list) btree_map"
  rs_tools :: "(string, nat list) btree_map"
  rs_servers :: "(string, nat list) btree_map"
  rs_ends :: "(nat, nat) btree_map"

definition repair_new :: repair_state where
  "repair_new =
     \<lparr>rs_slots = [], rs_turns = bt_empty, rs_steps = bt_empty, rs_tools = bt_empty,
      rs_servers = bt_empty, rs_ends = bt_empty\<rparr>"

text \<open>\<open>entry(key).or_default()\<close> as a read, and writing the queue back.\<close>

definition queue_of :: "('k::linorder, nat list) btree_map \<Rightarrow> 'k \<Rightarrow> nat list" where
  "queue_of queues key = (case bt_get queues key of None \<Rightarrow> [] | Some q \<Rightarrow> q)"

text \<open>\<open>open_slot\<close>: the queue and the slots afterwards.\<close>

definition push_slot ::
  "'k::linorder \<Rightarrow> open_slot \<Rightarrow> open_slot option list \<times> ('k, nat list) btree_map
   \<Rightarrow> open_slot option list \<times> ('k, nat list) btree_map" where
  "push_slot key slot = (\<lambda>(slots, queues).
     (slots @ [Some slot], bt_insert key (queue_of queues key @ [length slots]) queues))"

text \<open>\<open>close_slot\<close>; an absent queue and an empty one settle nothing.\<close>

definition close_slot ::
  "'k::linorder \<Rightarrow> open_slot option list \<times> ('k, nat list) btree_map
   \<Rightarrow> open_slot option list \<times> ('k, nat list) btree_map" where
  "close_slot key = (\<lambda>(slots, queues).
     case bt_get queues key of
       None \<Rightarrow> (slots, queues)
     | Some [] \<Rightarrow> (slots, queues)
     | Some (i # rest) \<Rightarrow>
         (if i < length slots then slots[i := None] else slots, bt_insert key rest queues))"

fun undispatched :: "open_slot option \<Rightarrow> bool" where
  "undispatched (Some slot) =
     (case os_kind slot of OpenToolCall _ _ _ dispatched \<Rightarrow> \<not> dispatched | _ \<Rightarrow> False)"
| "undispatched None = False"

fun set_dispatched :: "open_record_kind \<Rightarrow> open_record_kind" where
  "set_dispatched (OpenToolCall turn call name _) = OpenToolCall turn call name True"
| "set_dispatched k = k"

definition open_calls ::
  "nat \<Rightarrow> nat \<Rightarrow> tool_call_out list
   \<Rightarrow> open_slot option list \<times> (string, nat list) btree_map
   \<Rightarrow> open_slot option list \<times> (string, nat list) btree_map" where
  "open_calls turn seq calls =
     fold (\<lambda>c. push_slot (tco_id c)
         \<lparr>os_seq = seq, os_kind = OpenToolCall turn (tco_id c) (tco_name c) False\<rparr>) calls"

definition dispatch_call ::
  "nat \<Rightarrow> nat \<Rightarrow> string \<Rightarrow> string
   \<Rightarrow> open_slot option list \<times> (string, nat list) btree_map
   \<Rightarrow> open_slot option list \<times> (string, nat list) btree_map" where
  "dispatch_call turn seq call name = (\<lambda>(slots, queues).
     let queue = queue_of queues call; queues' = bt_insert call queue queues in
     case List.find (\<lambda>i. i < length slots \<and> undispatched (slots ! i)) queue of
       Some i \<Rightarrow>
         (slots[i := map_option (\<lambda>s. s\<lparr>os_kind := set_dispatched (os_kind s)\<rparr>) (slots ! i)], queues')
     | None \<Rightarrow>
         push_slot call \<lparr>os_seq = seq, os_kind = OpenToolCall turn call name True\<rparr> (slots, queues'))"

definition repair_step :: "repair_state \<Rightarrow> session_event \<Rightarrow> repair_state" where
  "repair_step s e =
     (case ev_kind e of
        TurnStart turn \<Rightarrow>
          let (slots, qs) = push_slot turn \<lparr>os_seq = ev_seq e, os_kind = OpenTurn turn\<rparr>
                (rs_slots s, rs_turns s)
          in s\<lparr>rs_slots := slots, rs_turns := qs\<rparr>
      | TurnEnd turn reason \<Rightarrow>
          let s' = s\<lparr>rs_ends := bt_insert turn (ev_seq e) (rs_ends s)\<rparr>;
              (slots, qs) = close_slot turn (rs_slots s', rs_turns s')
          in s'\<lparr>rs_slots := slots, rs_turns := qs\<rparr>
      | StepStart turn step \<Rightarrow>
          let (slots, qs) = push_slot (turn, step) \<lparr>os_seq = ev_seq e, os_kind = OpenStep turn step\<rparr>
                (rs_slots s, rs_steps s)
          in s\<lparr>rs_slots := slots, rs_steps := qs\<rparr>
      | StepEnd turn step \<Rightarrow>
          let (slots, qs) = close_slot (turn, step) (rs_slots s, rs_steps s)
          in s\<lparr>rs_slots := slots, rs_steps := qs\<rparr>
      | AssistantMessage turn step content reasoning (Some calls) usage \<Rightarrow>
          let (slots, qs) = open_calls turn (ev_seq e) calls (rs_slots s, rs_tools s)
          in s\<lparr>rs_slots := slots, rs_tools := qs\<rparr>
      | ToolCall turn call name args \<Rightarrow>
          let (slots, qs) = dispatch_call turn (ev_seq e) call name (rs_slots s, rs_tools s)
          in s\<lparr>rs_slots := slots, rs_tools := qs\<rparr>
      | ToolResult call content is_error boundary \<Rightarrow>
          let (slots, qs) = close_slot call (rs_slots s, rs_tools s)
          in s\<lparr>rs_slots := slots, rs_tools := qs\<rparr>
      | RichToolResult call result is_error boundary \<Rightarrow>
          let (slots, qs) = close_slot call (rs_slots s, rs_tools s)
          in s\<lparr>rs_slots := slots, rs_tools := qs\<rparr>
      | ServerToolCall turn step request idx call \<Rightarrow>
          let (slots, qs) = push_slot (sv_id call)
                \<lparr>os_seq = ev_seq e, os_kind = OpenServerToolCall turn step (sv_id call)\<rparr>
                (rs_slots s, rs_servers s)
          in s\<lparr>rs_slots := slots, rs_servers := qs\<rparr>
      | ServerToolResult turn step request idx result \<Rightarrow>
          let (slots, qs) = close_slot (sr_call_id result) (rs_slots s, rs_servers s)
          in s\<lparr>rs_slots := slots, rs_servers := qs\<rparr>
      | _ \<Rightarrow> s)"

definition outcome_for :: "(nat, nat) btree_map \<Rightarrow> nat \<Rightarrow> nat \<Rightarrow> open_outcome" where
  "outcome_for ends turn opened_at =
     (case bt_get ends turn of
        Some seq \<Rightarrow> if opened_at < seq then OutcomeInterrupted else OutcomeUnknown
      | None \<Rightarrow> OutcomeUnknown)"

definition settle_slot :: "(nat, nat) btree_map \<Rightarrow> open_slot \<Rightarrow> open_record" where
  "settle_slot ends slot =
     \<lparr>or_seq = os_seq slot, or_kind = os_kind slot,
      or_outcome = outcome_for ends (record_turn (os_kind slot)) (os_seq slot)\<rparr>"

text \<open>\<open>into_iter().flatten()\<close>\<close>

definition flatten :: "'a option list \<Rightarrow> 'a list" where
  "flatten xs = map the (filter (\<lambda>x. x \<noteq> None) xs)"

definition project_repair :: "session_event list \<Rightarrow> session_repair" where
  "project_repair events =
     (let s = foldl repair_step repair_new events
      in map (settle_slot (rs_ends s)) (flatten (rs_slots s)))"

section \<open>The abstract specification\<close>

text \<open>
  A plain list of the open slots, oldest first. Opening appends; closing removes the first slot
  with the key; a dispatch marks the first undispatched slot of the call and opens one when
  there is none.
\<close>

datatype record_key = KTurn nat | KStep "nat \<times> nat" | KTool string | KServer string

fun key_of :: "open_record_kind \<Rightarrow> record_key" where
  "key_of (OpenTurn turn) = KTurn turn"
| "key_of (OpenStep turn step) = KStep (turn, step)"
| "key_of (OpenToolCall _ call _ _) = KTool call"
| "key_of (OpenServerToolCall _ _ call) = KServer call"

abbreviation slot_key :: "open_slot \<Rightarrow> record_key" where
  "slot_key slot \<equiv> key_of (os_kind slot)"

fun remove_first :: "('a \<Rightarrow> bool) \<Rightarrow> 'a list \<Rightarrow> 'a list" where
  "remove_first P [] = []"
| "remove_first P (x # xs) = (if P x then xs else x # remove_first P xs)"

fun update_first :: "('a \<Rightarrow> bool) \<Rightarrow> ('a \<Rightarrow> 'a) \<Rightarrow> 'a list \<Rightarrow> 'a list" where
  "update_first P f [] = []"
| "update_first P f (x # xs) = (if P x then f x # xs else x # update_first P f xs)"

definition awaits_dispatch :: "string \<Rightarrow> open_slot \<Rightarrow> bool" where
  "awaits_dispatch call slot \<longleftrightarrow> slot_key slot = KTool call \<and> undispatched (Some slot)"

definition mark_dispatched :: "open_slot \<Rightarrow> open_slot" where
  "mark_dispatched slot = slot\<lparr>os_kind := set_dispatched (os_kind slot)\<rparr>"

definition spec_close :: "record_key \<Rightarrow> open_slot list \<Rightarrow> open_slot list" where
  "spec_close key = remove_first (\<lambda>slot. slot_key slot = key)"

definition spec_step :: "open_slot list \<Rightarrow> session_event \<Rightarrow> open_slot list" where
  "spec_step xs e =
     (case ev_kind e of
        TurnStart turn \<Rightarrow> xs @ [\<lparr>os_seq = ev_seq e, os_kind = OpenTurn turn\<rparr>]
      | TurnEnd turn reason \<Rightarrow> spec_close (KTurn turn) xs
      | StepStart turn step \<Rightarrow> xs @ [\<lparr>os_seq = ev_seq e, os_kind = OpenStep turn step\<rparr>]
      | StepEnd turn step \<Rightarrow> spec_close (KStep (turn, step)) xs
      | AssistantMessage turn step content reasoning (Some calls) usage \<Rightarrow>
          xs @ map (\<lambda>c. \<lparr>os_seq = ev_seq e,
                     os_kind = OpenToolCall turn (tco_id c) (tco_name c) False\<rparr>) calls
      | ToolCall turn call name args \<Rightarrow>
          (if list_ex (awaits_dispatch call) xs
           then update_first (awaits_dispatch call) mark_dispatched xs
           else xs @ [\<lparr>os_seq = ev_seq e, os_kind = OpenToolCall turn call name True\<rparr>])
      | ToolResult call content is_error boundary \<Rightarrow> spec_close (KTool call) xs
      | RichToolResult call result is_error boundary \<Rightarrow> spec_close (KTool call) xs
      | ServerToolCall turn step request idx call \<Rightarrow>
          xs @ [\<lparr>os_seq = ev_seq e, os_kind = OpenServerToolCall turn step (sv_id call)\<rparr>]
      | ServerToolResult turn step request idx result \<Rightarrow> spec_close (KServer (sr_call_id result)) xs
      | _ \<Rightarrow> xs)"

text \<open>The last turn end of each turn.\<close>

definition last_end :: "session_event list \<Rightarrow> nat \<Rightarrow> nat option" where
  "last_end events turn =
     foldl (\<lambda>found e. case ev_kind e of TurnEnd t _ \<Rightarrow> if t = turn then Some (ev_seq e) else found
                      | _ \<Rightarrow> found) None events"

definition spec_record :: "session_event list \<Rightarrow> open_slot \<Rightarrow> open_record" where
  "spec_record events slot =
     \<lparr>or_seq = os_seq slot, or_kind = os_kind slot,
      or_outcome =
        (case last_end events (record_turn (os_kind slot)) of
           Some seq \<Rightarrow> if os_seq slot < seq then OutcomeInterrupted else OutcomeUnknown
         | None \<Rightarrow> OutcomeUnknown)\<rparr>"

definition repair_spec :: "session_event list \<Rightarrow> session_repair" where
  "repair_spec events = map (spec_record events) (foldl spec_step [] events)"

section \<open>Slots and their queues\<close>

definition positions :: "('a \<Rightarrow> bool) \<Rightarrow> 'a list \<Rightarrow> nat list" where
  "positions P xs = filter (\<lambda>i. P (xs ! i)) [0..<length xs]"

lemma positions_Nil [simp]: "positions P [] = []"
  by (simp add: positions_def)

lemma positions_Cons:
  "positions P (x # xs) = (if P x then [0] else []) @ map Suc (positions P xs)"
proof -
  have "[0..<length (x # xs)] = 0 # map Suc [0..<length xs]"
    by (simp add: map_Suc_upt upt_conv_Cons del: upt_Suc)
  then show ?thesis by (simp add: positions_def filter_map o_def)
qed

lemma positions_snoc:
  "positions P (xs @ [x]) = positions P xs @ (if P x then [length xs] else [])"
  by (auto simp: positions_def nth_append intro!: filter_cong)

lemma flatten_simps [simp]:
  "flatten [] = []" "flatten (Some x # xs) = x # flatten xs" "flatten (None # xs) = flatten xs"
  "flatten (xs @ ys) = flatten xs @ flatten ys"
  by (simp_all add: flatten_def)

text \<open>Overwriting the first position that satisfies a predicate.\<close>

fun opt_holds :: "('a \<Rightarrow> bool) \<Rightarrow> 'a option \<Rightarrow> bool" where
  "opt_holds P None = False"
| "opt_holds P (Some x) = P x"

lemma positions_empty:
  "positions (opt_holds P) slots = [] \<longleftrightarrow> \<not> list_ex P (flatten slots)"
  by (induction slots rule: list.induct) (auto simp: positions_Cons split: option.splits elim: opt_holds.elims)

lemma remove_first_none: "\<not> list_ex P xs \<Longrightarrow> remove_first P xs = xs"
  by (induction xs) auto

lemma first_position:
  assumes "positions (opt_holds P) slots = i # rest"
  shows "i < length slots \<and> opt_holds P (slots ! i)
    \<and> flatten (slots[i := None]) = remove_first P (flatten slots)
    \<and> flatten (slots[i := map_option f (slots ! i)]) = update_first P f (flatten slots)
    \<and> list_ex P (flatten slots)"
  using assms
proof (induction slots arbitrary: i rest)
  case (Cons x xs)
  show ?case
  proof (cases "opt_holds P x")
    case True
    with Cons.prems show ?thesis by (cases x) (auto simp: positions_Cons)
  next
    case False
    with Cons.prems obtain j rest' where "positions (opt_holds P) xs = j # rest'" "i = Suc j"
      by (cases "positions (opt_holds P) xs") (auto simp: positions_Cons)
    with Cons.IH False show ?thesis by (cases x) auto
  qed
qed simp

lemma positions_clear:
  assumes "positions P slots = i # rest" "\<not> P x"
  shows "positions P (slots[i := x]) = rest"
  using assms
proof (induction slots arbitrary: i rest)
  case (Cons y ys)
  show ?case
  proof (cases "P y")
    case True
    with Cons.prems show ?thesis by (auto simp: positions_Cons)
  next
    case False
    with Cons.prems obtain j rest' where "positions P ys = j # rest'" "i = Suc j" "rest = map Suc rest'"
      by (cases "positions P ys") (auto simp: positions_Cons)
    with Cons.IH [of j rest'] Cons.prems(2) False show ?thesis by (simp add: positions_Cons)
  qed
qed simp

lemma positions_other:
  "P (slots ! i) = P x \<Longrightarrow> positions P (slots[i := x]) = positions P slots"
  unfolding positions_def length_list_update
proof (rule filter_cong [OF refl])
  fix j assume "P (slots ! i) = P x" "j \<in> set [0..<length slots]"
  then show "P (slots[i := x] ! j) = P (slots ! j)" by (cases "j = i") auto
qed

lemma find_filter: "List.find Q (filter P xs) = List.find (\<lambda>x. P x \<and> Q x) xs"
  by (induction xs) auto

lemma find_hd: "List.find P xs = (case filter P xs of [] \<Rightarrow> None | x # _ \<Rightarrow> Some x)"
  by (induction xs) auto

section \<open>The refinement\<close>

definition tracks :: "('k::linorder \<Rightarrow> record_key) \<Rightarrow> open_slot option list \<Rightarrow> ('k, nat list) btree_map \<Rightarrow> bool" where
  "tracks emb slots queues \<longleftrightarrow>
     bt_inv queues
     \<and> (\<forall>k. queue_of queues k = positions (opt_holds (\<lambda>slot. slot_key slot = emb k)) slots)"

lemma tracks_other_push:
  "tracks emb slots queues \<Longrightarrow> slot_key slot \<notin> range emb \<Longrightarrow> tracks emb (slots @ [Some slot]) queues"
  by (auto simp: tracks_def positions_snoc)

lemma tracks_other_write:
  assumes "tracks emb slots queues" "opt_holds (\<lambda>slot. slot_key slot \<notin> range emb) (slots ! i)"
    and "opt_holds (\<lambda>slot. slot_key slot \<notin> range emb) x \<or> x = None"
  shows "tracks emb (slots[i := x]) queues"
proof -
  have "positions (opt_holds (\<lambda>slot. slot_key slot = emb k)) (slots[i := x]) =
      positions (opt_holds (\<lambda>slot. slot_key slot = emb k)) slots" for k
    by (rule positions_other) (use assms(2,3) in \<open>cases "slots ! i"; cases x; auto\<close>)
  with assms(1) show ?thesis by (simp add: tracks_def)
qed

text \<open>One kind of correlation key, embedded in the keys of the specification.\<close>

locale slot_keys =
  fixes emb :: "'k::linorder \<Rightarrow> record_key"
  assumes emb_inj: "emb a = emb b \<longleftrightarrow> a = b"
begin

lemma tracks_push:
  assumes "tracks emb slots queues" "slot_key slot = emb key"
    and "push_slot key slot (slots, queues) = (slots', queues')"
  shows "tracks emb slots' queues' \<and> slots' = slots @ [Some slot]"
  using assms by (auto simp: tracks_def push_slot_def positions_snoc queue_of_def emb_inj)

lemma tracks_close:
  assumes t: "tracks emb slots queues" and c: "close_slot key (slots, queues) = (slots', queues')"
  shows "tracks emb slots' queues' \<and> flatten slots' = spec_close (emb key) (flatten slots)
    \<and> (slots' = slots \<or> (\<exists>i. opt_holds (\<lambda>slot. slot_key slot = emb key) (slots ! i) \<and> slots' = slots[i := None]))"
proof (cases "queue_of queues key")
  case Nil
  then have "slots' = slots" "queues' = queues"
    using c by (auto simp: close_slot_def queue_of_def split: option.splits list.splits)
  moreover have "positions (opt_holds (\<lambda>slot. slot_key slot = emb key)) slots = []"
    using t Nil by (simp add: tracks_def)
  ultimately show ?thesis using t by (simp add: spec_close_def positions_empty remove_first_none)
next
  case (Cons i rest)
  let ?P = "\<lambda>k. opt_holds (\<lambda>slot. slot_key slot = emb k)"
  have p: "positions (?P key) slots = i # rest" using t Cons by (simp add: tracks_def)
  note first = first_position [OF p, where f = id]
  have q: "slots' = slots[i := None]" "queues' = bt_insert key rest queues"
    using c Cons first by (auto simp: close_slot_def queue_of_def split: option.splits list.splits)
  have "positions (?P k) (slots[i := None]) = positions (?P k) slots" if "k \<noteq> key" for k
    by (rule positions_other) (use first that in \<open>cases "slots ! i"; auto simp: emb_inj\<close>)
  moreover have "positions (?P key) (slots[i := None]) = rest"
    by (rule positions_clear [OF p]) simp
  ultimately have "tracks emb slots' queues'"
    using t by (auto simp: q tracks_def queue_of_def)
  then show ?thesis using first unfolding q spec_close_def by blast
qed

end

interpretation turn_keys: slot_keys KTurn by unfold_locales simp
interpretation step_keys: slot_keys KStep by unfold_locales simp
interpretation tool_keys: slot_keys KTool by unfold_locales simp
interpretation server_keys: slot_keys KServer by unfold_locales simp

text \<open>Only tool calls are dispatched, so this is about one interpretation.\<close>

lemma awaits_dispatch_eq:
  "opt_holds (awaits_dispatch call) x \<longleftrightarrow> opt_holds (\<lambda>slot. slot_key slot = KTool call) x \<and> undispatched x"
  by (cases x) (auto simp: awaits_dispatch_def)

lemma key_set_dispatched [simp]: "key_of (set_dispatched k) = key_of k"
  by (cases k) auto

lemma tracks_dispatch:
  assumes t: "tracks KTool slots queues" and d: "dispatch_call turn seq call name (slots, queues) = (slots', queues')"
  shows "tracks KTool slots' queues'
    \<and> flatten slots' =
       (if list_ex (awaits_dispatch call) (flatten slots)
        then update_first (awaits_dispatch call) mark_dispatched (flatten slots)
        else flatten slots @ [\<lparr>os_seq = seq, os_kind = OpenToolCall turn call name True\<rparr>])
    \<and> (slots' = slots @ [Some \<lparr>os_seq = seq, os_kind = OpenToolCall turn call name True\<rparr>]
       \<or> (\<exists>i. opt_holds (awaits_dispatch call) (slots ! i)
            \<and> slots' = slots[i := map_option mark_dispatched (slots ! i)]))"
proof -
  let ?q = "queue_of queues call"
  let ?slot = "\<lparr>os_seq = seq, os_kind = OpenToolCall turn call name True\<rparr>"
  have q: "?q = positions (opt_holds (\<lambda>slot. slot_key slot = KTool call)) slots"
    using t by (simp add: tracks_def)
  have same: "tracks KTool slots (bt_insert call ?q queues)"
    using t by (auto simp: tracks_def queue_of_def)
  have found: "List.find (\<lambda>i. i < length slots \<and> undispatched (slots ! i)) ?q =
      (case positions (opt_holds (awaits_dispatch call)) slots of [] \<Rightarrow> None | i # _ \<Rightarrow> Some i)"
    unfolding q find_hd positions_def awaits_dispatch_eq
    by (simp add: filter_filter) (metis (no_types, lifting) atLeastLessThan_iff filter_cong set_upt)
  show ?thesis
  proof (cases "positions (opt_holds (awaits_dispatch call)) slots")
    case Nil
    then have "push_slot call ?slot (slots, bt_insert call ?q queues) = (slots', queues')"
      using d found by (simp add: dispatch_call_def Let_def)
    from tool_keys.tracks_push [OF same _ this] Nil show ?thesis by (auto simp: positions_empty)
  next
    case (Cons i rest)
    note first = first_position [OF Cons, where f = mark_dispatched]
    have upd: "map_option (\<lambda>s. s\<lparr>os_kind := set_dispatched (os_kind s)\<rparr>) = map_option mark_dispatched"
      by (simp add: mark_dispatched_def [abs_def])
    have w: "slots' = slots[i := map_option mark_dispatched (slots ! i)]"
      "queues' = bt_insert call ?q queues"
      using d found Cons by (simp_all add: dispatch_call_def Let_def upd [symmetric])
    have "positions (opt_holds (\<lambda>slot. slot_key slot = k)) slots' =
        positions (opt_holds (\<lambda>slot. slot_key slot = k)) slots" for k
      unfolding w(1) by (rule positions_other) (cases "slots ! i"; simp add: mark_dispatched_def)
    then have "tracks KTool slots' queues'" using same unfolding w(2) by (simp add: tracks_def)
    then show ?thesis using first w(1) by auto
  qed
qed

lemma tracks_open_calls:
  "tracks KTool slots queues \<Longrightarrow> open_calls turn seq calls (slots, queues) = (slots', queues') \<Longrightarrow>
   tracks KTool slots' queues'
   \<and> slots' = slots @ map (\<lambda>c. Some \<lparr>os_seq = seq, os_kind = OpenToolCall turn (tco_id c) (tco_name c) False\<rparr>) calls"
proof (induction calls arbitrary: slots queues)
  case Nil
  then show ?case by (simp add: open_calls_def)
next
  case (Cons c calls)
  let ?slot = "\<lparr>os_seq = seq, os_kind = OpenToolCall turn (tco_id c) (tco_name c) False\<rparr>"
  obtain slots1 queues1 where p: "push_slot (tco_id c) ?slot (slots, queues) = (slots1, queues1)"
    by (cases "push_slot (tco_id c) ?slot (slots, queues)")
  from tool_keys.tracks_push [OF Cons.prems(1) _ p]
  have t: "tracks KTool slots1 queues1" "slots1 = slots @ [Some ?slot]" by auto
  have "open_calls turn seq calls (slots1, queues1) = (slots', queues')"
    using Cons.prems(2) p by (simp add: open_calls_def)
  from Cons.IH [OF t(1) this] t(2) show ?case by auto
qed

definition repair_ok :: "repair_state \<Rightarrow> bool" where
  "repair_ok s \<longleftrightarrow>
     tracks KTurn (rs_slots s) (rs_turns s) \<and> tracks KStep (rs_slots s) (rs_steps s)
     \<and> tracks KTool (rs_slots s) (rs_tools s) \<and> tracks KServer (rs_slots s) (rs_servers s)
     \<and> bt_inv (rs_ends s)"

lemma repair_ok_new: "repair_ok repair_new"
  by (simp add: repair_ok_def repair_new_def tracks_def queue_of_def)

lemma tracks_other_closed:
  assumes "tracks emb slots queues" "key \<notin> range emb"
    and "slots' = slots \<or> (\<exists>i. opt_holds (\<lambda>slot. slot_key slot = key) (slots ! i) \<and> slots' = slots[i := None])"
  shows "tracks emb slots' queues"
  using assms(3)
proof
  assume "\<exists>i. opt_holds (\<lambda>slot. slot_key slot = key) (slots ! i) \<and> slots' = slots[i := None]"
  then obtain i where "opt_holds (\<lambda>slot. slot_key slot = key) (slots ! i)" "slots' = slots[i := None]" by blast
  moreover from this(1) assms(2) have "opt_holds (\<lambda>slot. slot_key slot \<notin> range emb) (slots ! i)"
    by (cases "slots ! i") auto
  ultimately show ?thesis using tracks_other_write [OF assms(1)] by blast
qed (use assms(1) in simp)

lemma tracks_other_marked:
  assumes "tracks emb slots queues" "KTool call \<notin> range emb"
    and "slots' = slots @ [Some \<lparr>os_seq = seq, os_kind = OpenToolCall turn call name True\<rparr>]
       \<or> (\<exists>i. opt_holds (awaits_dispatch call) (slots ! i)
            \<and> slots' = slots[i := map_option mark_dispatched (slots ! i)])"
  shows "tracks emb slots' queues"
  using assms(3)
proof
  assume "\<exists>i. opt_holds (awaits_dispatch call) (slots ! i)
      \<and> slots' = slots[i := map_option mark_dispatched (slots ! i)]"
  then obtain i where i: "opt_holds (awaits_dispatch call) (slots ! i)"
    "slots' = slots[i := map_option mark_dispatched (slots ! i)]" by blast
  then show ?thesis
    unfolding i(2) using assms(2)
    by (intro tracks_other_write [OF assms(1)]; cases "slots ! i"; auto simp: awaits_dispatch_def mark_dispatched_def)
qed (use assms(1,2) in \<open>simp add: tracks_other_push\<close>)

lemma tracks_other_calls:
  "tracks emb slots queues \<Longrightarrow> (\<And>c. KTool c \<notin> range emb) \<Longrightarrow>
   tracks emb (slots @ map (\<lambda>c. Some \<lparr>os_seq = seq, os_kind = OpenToolCall turn (tco_id c) (tco_name c) False\<rparr>) calls) queues"
proof (induction calls arbitrary: slots)
  case (Cons c calls)
  let ?slot = "\<lparr>os_seq = seq, os_kind = OpenToolCall turn (tco_id c) (tco_name c) False\<rparr>"
  have "tracks emb (slots @ [Some ?slot]) queues" using Cons.prems by (intro tracks_other_push) auto
  from Cons.IH [OF this Cons.prems(2)] show ?case by simp
qed simp

lemma flatten_map_Some [simp]: "flatten (map (\<lambda>x. Some (f x)) xs) = map f xs"
  by (induction xs) simp_all

text \<open>One event: the invariant is kept and the slots move as the specification says.\<close>

lemma repair_step_refines:
  assumes ok: "repair_ok s"
  shows "repair_ok (repair_step s e) \<and> flatten (rs_slots (repair_step s e)) = spec_step (flatten (rs_slots s)) e"
proof -
  have t: "tracks KTurn (rs_slots s) (rs_turns s)" "tracks KStep (rs_slots s) (rs_steps s)"
    "tracks KTool (rs_slots s) (rs_tools s)" "tracks KServer (rs_slots s) (rs_servers s)"
    and ends: "bt_inv (rs_ends s)"
    using ok by (simp_all add: repair_ok_def)
  show ?thesis
  proof (cases "ev_kind e")
    case (TurnStart turn)
    obtain slots qs where p: "push_slot turn \<lparr>os_seq = ev_seq e, os_kind = OpenTurn turn\<rparr> (rs_slots s, rs_turns s) = (slots, qs)"
      by fastforce
    from turn_keys.tracks_push [OF t(1) _ p] t ends show ?thesis
      by (auto simp: TurnStart p repair_step_def spec_step_def repair_ok_def intro!: tracks_other_push)
  next
    case (TurnEnd turn reason)
    obtain slots qs where p: "close_slot turn (rs_slots s, rs_turns s) = (slots, qs)" by fastforce
    note c = turn_keys.tracks_close [OF t(1) p]
    note settled = c [THEN conjunct2, THEN conjunct2]
    have f2: "tracks KStep slots (rs_steps s)" by (rule tracks_other_closed [OF t(2) _ settled]) auto
    have f3: "tracks KTool slots (rs_tools s)" by (rule tracks_other_closed [OF t(3) _ settled]) auto
    have f4: "tracks KServer slots (rs_servers s)" by (rule tracks_other_closed [OF t(4) _ settled]) auto
    from c f2 f3 f4 ends show ?thesis
      by (simp add: TurnEnd p repair_step_def spec_step_def repair_ok_def)
  next
    case (StepStart turn step)
    obtain slots qs where p: "push_slot (turn, step) \<lparr>os_seq = ev_seq e, os_kind = OpenStep turn step\<rparr> (rs_slots s, rs_steps s) = (slots, qs)"
      by fastforce
    from step_keys.tracks_push [OF t(2) _ p] t ends show ?thesis
      by (auto simp: StepStart p repair_step_def spec_step_def repair_ok_def intro!: tracks_other_push)
  next
    case (StepEnd turn step)
    obtain slots qs where p: "close_slot (turn, step) (rs_slots s, rs_steps s) = (slots, qs)" by fastforce
    note c = step_keys.tracks_close [OF t(2) p]
    note settled = c [THEN conjunct2, THEN conjunct2]
    have f1: "tracks KTurn slots (rs_turns s)" by (rule tracks_other_closed [OF t(1) _ settled]) auto
    have f3: "tracks KTool slots (rs_tools s)" by (rule tracks_other_closed [OF t(3) _ settled]) auto
    have f4: "tracks KServer slots (rs_servers s)" by (rule tracks_other_closed [OF t(4) _ settled]) auto
    from c f1 f3 f4 ends show ?thesis
      by (simp add: StepEnd p repair_step_def spec_step_def repair_ok_def)
  next
    case (AssistantMessage turn step content reasoning calls usage)
    show ?thesis
    proof (cases calls)
      case None
      then show ?thesis using ok by (simp add: AssistantMessage repair_step_def spec_step_def)
    next
      case (Some cs)
      obtain slots qs where p: "open_calls turn (ev_seq e) cs (rs_slots s, rs_tools s) = (slots, qs)" by fastforce
      from tracks_open_calls [OF t(3) p] t ends show ?thesis
        by (auto simp: AssistantMessage Some p repair_step_def spec_step_def repair_ok_def
            intro!: tracks_other_calls)
    qed
  next
    case (ToolCall turn call name args)
    obtain slots qs where p: "dispatch_call turn (ev_seq e) call name (rs_slots s, rs_tools s) = (slots, qs)" by fastforce
    note d = tracks_dispatch [OF t(3) p]
    note marked = d [THEN conjunct2, THEN conjunct2]
    have f1: "tracks KTurn slots (rs_turns s)" by (rule tracks_other_marked [OF t(1) _ marked]) auto
    have f2: "tracks KStep slots (rs_steps s)" by (rule tracks_other_marked [OF t(2) _ marked]) auto
    have f4: "tracks KServer slots (rs_servers s)" by (rule tracks_other_marked [OF t(4) _ marked]) auto
    from d f1 f2 f4 ends show ?thesis by (simp add: ToolCall p repair_step_def spec_step_def repair_ok_def)
  next
    case (ToolResult call content is_error boundary)
    obtain slots qs where p: "close_slot call (rs_slots s, rs_tools s) = (slots, qs)" by fastforce
    note c = tool_keys.tracks_close [OF t(3) p]
    note settled = c [THEN conjunct2, THEN conjunct2]
    have f1: "tracks KTurn slots (rs_turns s)" by (rule tracks_other_closed [OF t(1) _ settled]) auto
    have f2: "tracks KStep slots (rs_steps s)" by (rule tracks_other_closed [OF t(2) _ settled]) auto
    have f4: "tracks KServer slots (rs_servers s)" by (rule tracks_other_closed [OF t(4) _ settled]) auto
    from c f1 f2 f4 ends show ?thesis
      by (simp add: ToolResult p repair_step_def spec_step_def repair_ok_def)
  next
    case (RichToolResult call result is_error boundary)
    obtain slots qs where p: "close_slot call (rs_slots s, rs_tools s) = (slots, qs)" by fastforce
    note c = tool_keys.tracks_close [OF t(3) p]
    note settled = c [THEN conjunct2, THEN conjunct2]
    have f1: "tracks KTurn slots (rs_turns s)" by (rule tracks_other_closed [OF t(1) _ settled]) auto
    have f2: "tracks KStep slots (rs_steps s)" by (rule tracks_other_closed [OF t(2) _ settled]) auto
    have f4: "tracks KServer slots (rs_servers s)" by (rule tracks_other_closed [OF t(4) _ settled]) auto
    from c f1 f2 f4 ends show ?thesis
      by (simp add: RichToolResult p repair_step_def spec_step_def repair_ok_def)
  next
    case (ServerToolCall turn step request idx call)
    obtain slots qs where p: "push_slot (sv_id call) \<lparr>os_seq = ev_seq e, os_kind = OpenServerToolCall turn step (sv_id call)\<rparr> (rs_slots s, rs_servers s) = (slots, qs)"
      by fastforce
    from server_keys.tracks_push [OF t(4) _ p] t ends show ?thesis
      by (auto simp: ServerToolCall p repair_step_def spec_step_def repair_ok_def intro!: tracks_other_push)
  next
    case (ServerToolResult turn step request idx result)
    obtain slots qs where p: "close_slot (sr_call_id result) (rs_slots s, rs_servers s) = (slots, qs)" by fastforce
    note c = server_keys.tracks_close [OF t(4) p]
    note settled = c [THEN conjunct2, THEN conjunct2]
    have f1: "tracks KTurn slots (rs_turns s)" by (rule tracks_other_closed [OF t(1) _ settled]) auto
    have f2: "tracks KStep slots (rs_steps s)" by (rule tracks_other_closed [OF t(2) _ settled]) auto
    have f3: "tracks KTool slots (rs_tools s)" by (rule tracks_other_closed [OF t(3) _ settled]) auto
    from c f1 f2 f3 ends show ?thesis
      by (simp add: ServerToolResult p repair_step_def spec_step_def repair_ok_def)
  qed (use ok in \<open>simp_all add: repair_step_def spec_step_def\<close>)
qed

lemma repair_fold_refines:
  "repair_ok s \<Longrightarrow> repair_ok (foldl repair_step s events)
     \<and> flatten (rs_slots (foldl repair_step s events)) = foldl spec_step (flatten (rs_slots s)) events"
  by (induction events arbitrary: s) (simp_all add: repair_step_refines)

lemma repair_ends:
  "repair_ok s \<Longrightarrow> bt_get (rs_ends (foldl repair_step s events)) turn =
     foldl (\<lambda>found e. case ev_kind e of TurnEnd t _ \<Rightarrow> if t = turn then Some (ev_seq e) else found
                      | _ \<Rightarrow> found) (bt_get (rs_ends s) turn) events"
proof (induction events arbitrary: s)
  case (Cons e es)
  have inv: "bt_inv (rs_ends s)" using Cons.prems by (simp add: repair_ok_def)
  have "bt_get (rs_ends (repair_step s e)) turn =
      (case ev_kind e of TurnEnd t _ \<Rightarrow> if t = turn then Some (ev_seq e) else bt_get (rs_ends s) turn
       | _ \<Rightarrow> bt_get (rs_ends s) turn)"
    using inv by (cases "ev_kind e") (auto simp: repair_step_def Let_def split: prod.splits option.splits)
  with Cons.IH [of "repair_step s e"] repair_step_refines [OF Cons.prems] show ?case by simp
qed simp

lemma project_repair_spec: "project_repair events = repair_spec events"
proof -
  have "settle_slot (rs_ends (foldl repair_step repair_new events)) slot = spec_record events slot" for slot
    using repair_ends [OF repair_ok_new, of events]
    by (simp add: settle_slot_def spec_record_def outcome_for_def last_end_def repair_new_def)
  then show ?thesis
    using repair_fold_refines [OF repair_ok_new, of events]
    by (simp add: project_repair_def repair_spec_def Let_def repair_new_def)
qed

section \<open>Where open records come from\<close>

text \<open>The slots an event opens, before any dispatch.\<close>

definition opened_by :: "session_event \<Rightarrow> open_record_kind list" where
  "opened_by e =
     (case ev_kind e of
        TurnStart turn \<Rightarrow> [OpenTurn turn]
      | StepStart turn step \<Rightarrow> [OpenStep turn step]
      | AssistantMessage turn step content reasoning (Some calls) usage \<Rightarrow>
          map (\<lambda>c. OpenToolCall turn (tco_id c) (tco_name c) False) calls
      | ToolCall turn call name args \<Rightarrow> [OpenToolCall turn call name True]
      | ServerToolCall turn step request idx call \<Rightarrow> [OpenServerToolCall turn step (sv_id call)]
      | _ \<Rightarrow> [])"

definition slot_from :: "session_event list \<Rightarrow> open_slot \<Rightarrow> bool" where
  "slot_from events slot \<longleftrightarrow>
     (\<exists>e \<in> set events. os_seq slot = ev_seq e
        \<and> set_dispatched (os_kind slot) \<in> set_dispatched ` set (opened_by e))"

lemma set_remove_first: "set (remove_first P xs) \<subseteq> set xs"
  by (induction xs) auto

lemma set_update_first: "set (update_first P f xs) \<subseteq> set xs \<union> f ` {x \<in> set xs. P x}"
  by (induction xs) auto

lemma slot_from_marked: "slot_from es slot \<Longrightarrow> slot_from es (mark_dispatched slot)"
proof -
  have "set_dispatched (set_dispatched k) = set_dispatched k" for k by (cases k) auto
  then show "slot_from es slot \<Longrightarrow> slot_from es (mark_dispatched slot)"
    by (simp add: slot_from_def mark_dispatched_def)
qed

lemma slot_from_more: "slot_from es slot \<Longrightarrow> slot_from (es @ [e]) slot"
  by (auto simp: slot_from_def)

lemma spec_step_set:
  "set (spec_step xs e) \<subseteq> set xs \<union> mark_dispatched ` set xs
     \<union> (\<lambda>k. \<lparr>os_seq = ev_seq e, os_kind = k\<rparr>) ` set (opened_by e)"
proof -
  have close: "set (spec_close key xs) \<subseteq> set xs" for key
    unfolding spec_close_def by (rule set_remove_first)
  have mark: "set (update_first (awaits_dispatch call) mark_dispatched xs) \<subseteq> set xs \<union> mark_dispatched ` set xs" for call
    using set_update_first [of "awaits_dispatch call" mark_dispatched xs] by blast
  show ?thesis
    by (cases "ev_kind e")
      (use close mark in \<open>simp_all add: spec_step_def opened_by_def le_supI1 image_image subset_insertI2 split: option.split\<close>)
qed

lemma open_slots_from: "slot \<in> set (foldl spec_step [] events) \<Longrightarrow> slot_from events slot"
proof (induction events arbitrary: slot rule: rev_induct)
  case (snoc e es)
  have new: "slot_from (es @ [e]) \<lparr>os_seq = ev_seq e, os_kind = k\<rparr>" if "k \<in> set (opened_by e)" for k
    using that by (auto simp: slot_from_def)
  consider "slot \<in> set (foldl spec_step [] es)"
    | x where "x \<in> set (foldl spec_step [] es)" "slot = mark_dispatched x"
    | k where "k \<in> set (opened_by e)" "slot = \<lparr>os_seq = ev_seq e, os_kind = k\<rparr>"
    using snoc.prems spec_step_set [of "foldl spec_step [] es" e] by auto
  then show ?case
  proof cases
    case 1
    then show ?thesis by (rule slot_from_more [OF snoc.IH])
  next
    case (2 x)
    then show ?thesis by (simp only: slot_from_more [OF slot_from_marked [OF snoc.IH]])
  next
    case (3 k)
    then show ?thesis by (simp only: new)
  qed
qed simp

end
