(* ===== verification/Recovery_Properties.thy ===== *)
theory Recovery_Properties
  imports Session_Repair Code_Projection
begin

text \<open>
  Recovery after a crash: what the repair projection reports of a log that was cut off, and what
  a later event can still change about a durable script run.
\<close>

section \<open>Repair\<close>

lemma last_end_snoc:
  "last_end (es @ [e]) turn =
     (case ev_kind e of TurnEnd t _ \<Rightarrow> if t = turn then Some (ev_seq e) else last_end es turn
      | _ \<Rightarrow> last_end es turn)"
  unfolding last_end_def foldl_append foldl.simps ..

definition ends_turn :: "nat \<Rightarrow> session_event \<Rightarrow> bool" where
  "ends_turn turn e \<longleftrightarrow> (\<exists>reason. ev_kind e = TurnEnd turn reason)"

lemma last_end_iff:
  "sorted (map ev_seq es) \<Longrightarrow>
   (case last_end es turn of None \<Rightarrow> \<forall>e \<in> set es. \<not> ends_turn turn e
    | Some n \<Rightarrow> (\<exists>e \<in> set es. ends_turn turn e \<and> ev_seq e = n) \<and> (\<forall>e \<in> set es. ends_turn turn e \<longrightarrow> ev_seq e \<le> n))"
proof (induction es rule: rev_induct)
  case Nil
  then show ?case by (simp add: last_end_def)
next
  case (snoc e es)
  then have sorted: "sorted (map ev_seq es)" "\<forall>x \<in> set es. ev_seq x \<le> ev_seq e"
    by (auto simp: sorted_append)
  show ?case
  proof (cases "ends_turn turn e")
    case True
    then have "last_end (es @ [e]) turn = Some (ev_seq e)" by (auto simp: last_end_snoc ends_turn_def)
    with True sorted(2) show ?thesis by auto
  next
    case False
    then have "last_end (es @ [e]) turn = last_end es turn"
      by (auto simp: last_end_snoc ends_turn_def split: session_event_kind.split)
    with snoc.IH [OF sorted(1)] False show ?thesis by (auto split: option.splits)
  qed
qed

lemma last_end_after:
  assumes "sorted (map ev_seq es)"
  shows "(\<exists>n. last_end es turn = Some n \<and> k < n) \<longleftrightarrow> (\<exists>e \<in> set es. ends_turn turn e \<and> k < ev_seq e)"
  using last_end_iff [OF assms, of turn] by (fastforce split: option.splits)

lemma spec_record_outcome:
  "or_outcome (spec_record es slot) = OutcomeInterrupted \<longleftrightarrow>
     (\<exists>n. last_end es (record_turn (os_kind slot)) = Some n \<and> os_seq slot < n)"
  by (auto simp: spec_record_def split: option.split)

text \<open>
  C15: the slots and per-key queues of the repair projection implement a plain list of open
  records, which each event extends, marks or shortens in log order; every record reported comes
  from the event at its sequence number, of the kind that event opened; and it is called
  interrupted exactly when its turn has an end later in the log, and unknown otherwise.
\<close>

theorem repair_reports_the_log:
  assumes "sorted (map ev_seq events)"
  shows "project_repair events = map (spec_record events) (foldl spec_step [] events)
    \<and> (\<forall>r \<in> set (project_repair events).
        (\<exists>e \<in> set events. or_seq r = ev_seq e
           \<and> set_dispatched (or_kind r) \<in> set_dispatched ` set (opened_by e))
        \<and> (or_outcome r = OutcomeInterrupted \<longleftrightarrow>
            (\<exists>e \<in> set events. ends_turn (record_turn (or_kind r)) e \<and> or_seq r < ev_seq e)))"
proof -
  have spec: "project_repair events = map (spec_record events) (foldl spec_step [] events)"
    unfolding project_repair_spec repair_spec_def ..
  have "(\<exists>e \<in> set events. or_seq r = ev_seq e
           \<and> set_dispatched (or_kind r) \<in> set_dispatched ` set (opened_by e))
        \<and> (or_outcome r = OutcomeInterrupted \<longleftrightarrow>
            (\<exists>e \<in> set events. ends_turn (record_turn (or_kind r)) e \<and> or_seq r < ev_seq e))"
    if "r \<in> set (project_repair events)" for r
  proof -
    from that obtain slot where slot: "slot \<in> set (foldl spec_step [] events)" "r = spec_record events slot"
      unfolding spec by auto
    have parts: "or_seq (spec_record events slot) = os_seq slot"
      "or_kind (spec_record events slot) = os_kind slot" by (simp_all add: spec_record_def)
    have "slot_from events slot" by (rule open_slots_from [OF slot(1)])
    then show ?thesis
      unfolding slot(2) parts slot_from_def spec_record_outcome last_end_after [OF assms] by blast
  qed
  with spec show ?thesis by blast
qed

definition crash_log :: "session_event list" where
  "crash_log =
     [\<lparr>ev_v = 2, ev_seq = 0, ev_time = 5, ev_kind = TurnStart 1\<rparr>,
      \<lparr>ev_v = 2, ev_seq = 1, ev_time = 5, ev_kind = StepStart 1 0\<rparr>,
      \<lparr>ev_v = 2, ev_seq = 2, ev_time = 5, ev_kind = ToolCall 1 ''c'' ''bash'' JNull\<rparr>]"

theorem repair_reports_the_log_witness:
  "length (project_repair crash_log) = 3
   \<and> list_all (\<lambda>r. or_outcome r \<noteq> OutcomeInterrupted \<and> or_seq r < 3) (project_repair crash_log)"
proof -
  have open_records: "length (project_repair crash_log) = 3"
    unfolding project_repair_spec repair_spec_def by (simp add: crash_log_def spec_step_def awaits_dispatch_def)
  have "sorted (map ev_seq crash_log)" by (simp add: crash_log_def)
  from repair_reports_the_log [OF this]
  have "list_all (\<lambda>r. or_outcome r \<noteq> OutcomeInterrupted \<and> or_seq r < 3) (project_repair crash_log)"
    unfolding list_all_iff by (fastforce simp: crash_log_def ends_turn_def)
  with open_records show ?thesis ..
qed

section \<open>Durable scripts\<close>

text \<open>
  Settled is final. In a log whose scripts replay, every call of a run is one of the tools
  frozen with the run, has one outcome once it is settled and none before, and a run that
  succeeded has no unsettled call; whatever follows in the log, a run keeps its script, a settled
  run and a settled call stay exactly as they are, and no call disappears.
\<close>

theorem settled_scripts_stay_settled:
  assumes "project_code_mode len es = Inr p" "project_code_mode len (es @ es') = Inr p'"
    and "bt_get (cmo_runs p) i = Some r"
  shows "run_ok r
    \<and> (\<exists>r'. bt_get (cmo_runs p') i = Some r' \<and> run_ok r' \<and> sr_script r' = sr_script r
        \<and> (sr_settled r \<longrightarrow> r' = r)
        \<and> (\<forall>k c. bt_get (sr_calls r) k = Some c \<longrightarrow>
             (\<exists>c'. bt_get (sr_calls r') k = Some c' \<and> sk_name c' = sk_name c
                \<and> sk_arguments c' = sk_arguments c \<and> (sk_settled c \<longrightarrow> c' = c))))"
proof -
  have ok: "code_mode_ok p" "code_mode_ok p'"
    using assms(1,2) by (simp_all add: project_code_mode_def code_replay.good_replay)
  have "try_fold (code_mode_event len) p es' = Inr p'"
    using assms(1,2) by (simp add: project_code_mode_def try_fold_append)
  from code_mode_fold_extends [OF ok(1) this assms(3)] obtain r' where
    "bt_get (cmo_runs p') i = Some r'" "run_extends r r'" by blast
  with ok assms(3) show ?thesis unfolding code_mode_ok_def run_extends_def by blast
qed

definition script_log :: "session_event list" where
  "script_log =
     [\<lparr>ev_v = 2, ev_seq = 0, ev_time = 5,
       ev_kind = CodeModeChange (ScriptStarted ''r''
         \<lparr>sc_name = ''s'', sc_source = ''go'', sc_tools = [(''t'', ())]\<rparr>)\<rparr>,
      \<lparr>ev_v = 2, ev_seq = 1, ev_time = 5, ev_kind = CodeModeChange (ScriptFinished ''r'' None (Some ''no''))\<rparr>]"

definition script_after :: "code_mode_error + code_mode" where
  "script_after = project_code_mode (\<lambda>_. Some 1) script_log"

lemmas script_log_eval =
  project_code_mode_def code_mode_event_def code_mode_apply_def code_validate_shape_def script_ok_def
  code_id_ok_def script_outcome_ok_def code_mode_default_def active_run_def set_run_def plain_is_blank
  plain_trim plain_no_control bt_keys_def ok_or_def refuse_if_def

theorem settled_scripts_stay_settled_witness:
  "\<exists>p r. project_code_mode (\<lambda>_. Some 1) (take 1 script_log) = Inr p \<and> bt_get (cmo_runs p) ''r'' = Some r
    \<and> run_ok r"
proof -
  obtain p where p: "project_code_mode (\<lambda>_. Some 1) (take 1 script_log) = Inr p"
    "bt_get (cmo_runs p) ''r'' \<noteq> None"
    by (simp add: script_log_def script_log_eval plain_eval map_eval)
  obtain p' where p': "project_code_mode (\<lambda>_. Some 1) (take 1 script_log @ drop 1 script_log) = Inr p'"
    by (simp add: script_log_def script_log_eval plain_eval map_eval)
  from p(2) obtain r where r: "bt_get (cmo_runs p) ''r'' = Some r" by blast
  from settled_scripts_stay_settled [OF p(1) p' r] p(1) r show ?thesis by blast
qed

end
