(* ===== verification/Workflow_Projection.thy ===== *)
theory Workflow_Projection
  imports Session_Event Replay
begin

text \<open>
  The replay of workflow runs (\<open>project_workflows\<close> in
  \<open>heycode-session/src/orchestration.rs\<close>): the view of a run, what each change does to it and
  when it is refused. The error is the code's message.
\<close>

section \<open>Views\<close>

datatype workflow_state = WfPaused | WfRunning | WfCompleted | WfFailed | WfCancelled

record workflow_run =
  wr_jobs :: "(nat, workflow_job_record) btree_map"
  wr_attempt_activity :: bool
  wr_agents :: "(string, workflow_agent_record) btree_map"
  wr_definition :: workflow_definition
  wr_state :: workflow_state
  wr_attempt :: nat
  wr_progress :: nat
  wr_completed :: nat
  wr_checkpoint :: "json option"
  wr_nodes :: "(string, workflow_node_record) btree_map"

record workflow_projection =
  wp_runs :: "(string, workflow_run) btree_map"
  wp_definitions :: "(string, workflow_definition) btree_map"

definition workflow_default :: workflow_projection where
  "workflow_default = \<lparr>wp_runs = bt_empty, wp_definitions = bt_empty\<rparr>"

definition put_run :: "string \<Rightarrow> workflow_run \<Rightarrow> workflow_projection \<Rightarrow> workflow_projection" where
  "put_run i r p = p\<lparr>wp_runs := bt_insert i r (wp_runs p)\<rparr>"

definition running_workflow :: "workflow_projection \<Rightarrow> string \<Rightarrow> workflow_error + workflow_run" where
  "running_workflow p i =
     and_then (ok_or (WorkflowInvalid ''workflow update has no start'') (bt_get (wp_runs p) i)) (\<lambda>r.
     and_then
       (refuse_if (wr_state r \<noteq> WfRunning)
          (WorkflowInvalid ''workflow update follows terminal settlement''))
       (\<lambda>_. Inr r))"

definition find_step :: "workflow_definition \<Rightarrow> string \<Rightarrow> workflow_step option" where
  "find_step d i = List.find (\<lambda>s. wst_id s = i) (wd_steps d)"

definition node_settled :: "workflow_node_record \<Rightarrow> bool" where
  "node_settled n \<longleftrightarrow> wn_state n = NodeCompleted \<or> wn_state n = NodeSkipped"

definition settled_in :: "(string, workflow_node_record) btree_map \<Rightarrow> string \<Rightarrow> bool" where
  "settled_in nodes i \<longleftrightarrow> (case bt_get nodes i of None \<Rightarrow> False | Some n \<Rightarrow> node_settled n)"

section \<open>Coordinators and native tasks\<close>

definition job_known :: "workflow_projection \<Rightarrow> string \<Rightarrow> bool" where
  "job_known p job \<longleftrightarrow>
     list_ex (\<lambda>r. list_ex (\<lambda>j. wj_job_id j = job) (bt_values (wr_jobs r))) (bt_values (wp_runs p))"

definition wf_job ::
  "workflow_projection \<Rightarrow> int \<Rightarrow> string \<Rightarrow> nat \<Rightarrow> string \<Rightarrow> workflow_error + workflow_projection" where
  "wf_job p time i attempt job =
     and_then
       (refuse_if (job_known p job) (WorkflowInvalid ''workflow coordinator job id reused'')) (\<lambda>_.
     and_then (running_workflow p i) (\<lambda>r.
     and_then
       (refuse_if
          (wr_attempt r \<noteq> attempt \<or> bt_contains (wr_jobs r) attempt \<or> wr_attempt_activity r)
          (WorkflowInvalid ''workflow coordinator must be recorded once before attempt work''))
       (\<lambda>_.
       Inr (put_run i
         (r\<lparr>wr_jobs := bt_insert attempt
              \<lparr>wj_attempt = attempt, wj_job_id = job, wj_admitted_at = time, wj_settled_at = None,
               wj_outcome = None\<rparr> (wr_jobs r)\<rparr>) p))))"

definition task_elsewhere :: "workflow_projection \<Rightarrow> string \<Rightarrow> string \<Rightarrow> bool" where
  "task_elsewhere p i task \<longleftrightarrow>
     list_ex (\<lambda>(k, r). k \<noteq> i \<and> bt_contains (wr_agents r) task) (wp_runs p)"

definition keeps_known :: "string option \<Rightarrow> string option \<Rightarrow> bool" where
  "keeps_known prior new \<longleftrightarrow> (case prior of None \<Rightarrow> True | Some i \<Rightarrow> new = Some i)"

definition usage_regressed :: "workflow_usage \<Rightarrow> workflow_usage \<Rightarrow> bool" where
  "usage_regressed prior new \<longleftrightarrow>
     wu_reported_requests new < wu_reported_requests prior
     \<or> wu_unreported_requests new < wu_unreported_requests prior
     \<or> wu_prompt_tokens new < wu_prompt_tokens prior
     \<or> wu_completion_tokens new < wu_completion_tokens prior"

definition observation_follows :: "workflow_agent_record \<Rightarrow> workflow_agent_record \<Rightarrow> bool" where
  "observation_follows prior new \<longleftrightarrow>
     war_node_id prior = war_node_id new
     \<and> war_node_attempt prior = war_node_attempt new
     \<and> war_owner_session_id prior = war_owner_session_id new
     \<and> war_label prior = war_label new
     \<and> war_prompt prior = war_prompt new
     \<and> war_prompt_truncated prior = war_prompt_truncated new
     \<and> war_created_at prior = war_created_at new
     \<and> war_revision prior < war_revision new
     \<and> war_updated_at prior \<le> war_updated_at new
     \<and> keeps_known (war_session_id prior) (war_session_id new)
     \<and> keeps_known (war_job_id prior) (war_job_id new)
     \<and> \<not> usage_regressed (war_usage prior) (war_usage new)"

definition attempt_current :: "workflow_run \<Rightarrow> workflow_agent_record \<Rightarrow> bool" where
  "attempt_current r a \<longleftrightarrow>
     (case bt_get (wr_nodes r) (war_node_id a) of None \<Rightarrow> False
      | Some n \<Rightarrow> wn_attempt n = war_node_attempt a)"

definition same_attempt :: "workflow_agent_record \<Rightarrow> workflow_agent_record \<Rightarrow> bool" where
  "same_attempt a b \<longleftrightarrow> war_node_id a = war_node_id b \<and> war_node_attempt a = war_node_attempt b"

definition may_link :: "workflow_run \<Rightarrow> workflow_agent_record \<Rightarrow> bool" where
  "may_link r a \<longleftrightarrow>
     wr_state r = WfRunning
     \<and> (case bt_get (wr_nodes r) (war_node_id a) of None \<Rightarrow> False
        | Some n \<Rightarrow> wn_state n = NodeStarted)
     \<and> \<not> list_ex (\<lambda>b. same_attempt b a) (bt_values (wr_agents r))"

definition wf_agent ::
  "workflow_projection \<Rightarrow> string \<Rightarrow> workflow_agent_record \<Rightarrow> workflow_error + workflow_projection" where
  "wf_agent p i a =
     and_then
       (refuse_if (task_elsewhere p i (war_task_id a))
          (WorkflowInvalid ''workflow task identity reused across runs'')) (\<lambda>_.
     and_then
       (ok_or (WorkflowInvalid ''agent observation has no workflow run'') (bt_get (wp_runs p) i)) (\<lambda>r.
     and_then
       (ok_or (WorkflowInvalid ''agent observation has unknown node'')
          (find_step (wr_definition r) (war_node_id a))) (\<lambda>s.
     and_then
       (refuse_if (\<not> is_agent (wst_action s) \<or> \<not> attempt_current r a)
          (WorkflowInvalid ''agent observation does not match agent node attempt'')) (\<lambda>_.
     and_then
       (case bt_get (wr_agents r) (war_task_id a) of
          Some prior \<Rightarrow>
            refuse_if (\<not> observation_follows prior a)
              (WorkflowInvalid ''workflow task correlation changed or observation regressed'')
        | None \<Rightarrow>
            refuse_if (\<not> may_link r a)
              (WorkflowInvalid ''workflow task must link once before node settlement''))
       (\<lambda>_. Inr (put_run i (r\<lparr>wr_agents := bt_insert (war_task_id a) a (wr_agents r)\<rparr>) p))))))"

section \<open>Definitions and graph nodes\<close>

definition wf_saved ::
  "workflow_projection \<Rightarrow> workflow_definition \<Rightarrow> workflow_error + workflow_projection" where
  "wf_saved p d =
     and_then
       (refuse_if
          (\<not> bt_contains (wp_definitions p) (wd_name d) \<and> 64 \<le> length (wp_definitions p))
          (WorkflowInvalid ''saved workflow library is full (64 definitions)''))
       (\<lambda>_. Inr (p\<lparr>wp_definitions := bt_insert (wd_name d) d (wp_definitions p)\<rparr>))"

fun node_transition_ok ::
  "workflow_step \<Rightarrow> workflow_node_record option \<Rightarrow> workflow_node_record \<Rightarrow> bool" where
  "node_transition_ok s prior n =
     (case wn_state n of
        NodeStarted \<Rightarrow>
          (case prior of
             None \<Rightarrow> wn_attempt n = 1
           | Some m \<Rightarrow>
               wn_state m = NodeFailed \<and> wn_attempt n = wn_attempt m + 1 \<and> wst_replay_safe s)
      | NodeSkipped \<Rightarrow> prior = None \<and> wn_attempt n = 1
      | _ \<Rightarrow>
          (case prior of None \<Rightarrow> False
           | Some m \<Rightarrow> wn_state m = NodeStarted \<and> wn_attempt m = wn_attempt n))"

definition settled_count :: "(string, workflow_node_record) btree_map \<Rightarrow> nat" where
  "settled_count nodes = length (filter node_settled (bt_values nodes))"

definition wf_node ::
  "workflow_projection \<Rightarrow> string \<Rightarrow> string \<Rightarrow> workflow_node_record
   \<Rightarrow> workflow_error + workflow_projection" where
  "wf_node p i step n =
     and_then (running_workflow p i) (\<lambda>r.
     and_then (ok_or (WorkflowInvalid ''unknown graph node'') (find_step (wr_definition r) step)) (\<lambda>s.
     and_then
       (refuse_if (\<not> is_graph (wr_definition r) \<or> wst_max_attempts s < wn_attempt n)
          (WorkflowInvalid ''graph node attempt exceeds definition'')) (\<lambda>_.
     and_then
       (refuse_if
          (\<not> node_transition_ok s (bt_get (wr_nodes r) step) n
           \<or> list_ex (\<lambda>d. \<not> settled_in (wr_nodes r) d) (wst_depends_on s))
          (WorkflowInvalid ''invalid graph node transition or unsettled dependencies'')) (\<lambda>_.
     let nodes = bt_insert step n (wr_nodes r) in
       Inr (put_run i
         (r\<lparr>wr_attempt_activity := True, wr_nodes := nodes, wr_completed := settled_count nodes,
            wr_checkpoint := Some (wn_value n)\<rparr>) p)))))"

section \<open>Lifecycle\<close>

definition fresh_run :: "workflow_definition \<Rightarrow> workflow_run" where
  "fresh_run d =
     \<lparr>wr_jobs = bt_empty, wr_attempt_activity = False, wr_agents = bt_empty, wr_definition = d,
      wr_state = WfRunning, wr_attempt = 1, wr_progress = 0, wr_completed = 0, wr_checkpoint = None,
      wr_nodes = bt_empty\<rparr>"

definition wf_start ::
  "workflow_projection \<Rightarrow> string \<Rightarrow> workflow_definition \<Rightarrow> workflow_error + workflow_projection" where
  "wf_start p i d =
     and_then
       (refuse_if (bt_contains (wp_runs p) i) (WorkflowInvalid ''workflow run id was reused''))
       (\<lambda>_. Inr (put_run i (fresh_run d) p))"

definition wf_progress ::
  "workflow_projection \<Rightarrow> string \<Rightarrow> nat \<Rightarrow> nat \<Rightarrow> workflow_error + workflow_projection" where
  "wf_progress p i sequence step =
     and_then (running_workflow p i) (\<lambda>r.
     and_then
       (refuse_if
          (is_graph (wr_definition r)
           \<or> sequence \<noteq> saturating_add_u32 (wr_progress r) 1
           \<or> step \<noteq> saturating_add_u32 (wr_completed r) 1
           \<or> length (wd_steps (wr_definition r)) < step)
          (WorkflowInvalid ''workflow progress is non-contiguous''))
       (\<lambda>_. Inr (put_run i (r\<lparr>wr_attempt_activity := True, wr_progress := sequence\<rparr>) p)))"

definition wf_checkpoint ::
  "workflow_projection \<Rightarrow> string \<Rightarrow> nat \<Rightarrow> json \<Rightarrow> workflow_error + workflow_projection" where
  "wf_checkpoint p i completed result =
     and_then (running_workflow p i) (\<lambda>r.
     and_then
       (refuse_if
          (is_graph (wr_definition r)
           \<or> completed \<noteq> saturating_add_u32 (wr_completed r) 1
           \<or> wr_progress r < completed
           \<or> length (wd_steps (wr_definition r)) < completed)
          (WorkflowInvalid ''workflow checkpoint skipped a step''))
       (\<lambda>_. Inr (put_run i (r\<lparr>wr_completed := completed, wr_checkpoint := Some result\<rparr>) p)))"

definition wf_resume ::
  "workflow_projection \<Rightarrow> string \<Rightarrow> nat \<Rightarrow> nat \<Rightarrow> workflow_error + workflow_projection" where
  "wf_resume p i attempt completed =
     and_then (ok_or (WorkflowInvalid ''unknown workflow run'') (bt_get (wp_runs p) i)) (\<lambda>r.
     and_then
       (refuse_if (wr_state r \<noteq> WfRunning \<and> wr_state r \<noteq> WfPaused)
          (WorkflowInvalid ''workflow is terminal'')) (\<lambda>_.
     and_then
       (refuse_if
          (attempt \<noteq> saturating_add_u32 (wr_attempt r) 1 \<or> completed \<noteq> wr_completed r)
          (WorkflowInvalid ''workflow resume does not match its checkpoint''))
       (\<lambda>_.
       Inr (put_run i
         (r\<lparr>wr_attempt := attempt, wr_attempt_activity := False, wr_state := WfRunning\<rparr>) p))))"

fun outcome_state :: "workflow_outcome \<Rightarrow> workflow_state" where
  "outcome_state RunPaused = WfPaused"
| "outcome_state RunCompleted = WfCompleted"
| "outcome_state RunFailed = WfFailed"
| "outcome_state RunCancelled = WfCancelled"

definition settle_job :: "workflow_run \<Rightarrow> int \<Rightarrow> workflow_outcome \<Rightarrow> (nat, workflow_job_record) btree_map" where
  "settle_job r time result =
     (case bt_get (wr_jobs r) (wr_attempt r) of
        Some j \<Rightarrow>
          if wj_outcome j = None
          then bt_insert (wr_attempt r) (j\<lparr>wj_outcome := Some result, wj_settled_at := Some time\<rparr>) (wr_jobs r)
          else wr_jobs r
      | None \<Rightarrow> wr_jobs r)"

definition settlement_matches :: "workflow_run \<Rightarrow> workflow_outcome \<Rightarrow> nat \<Rightarrow> bool" where
  "settlement_matches r result completed \<longleftrightarrow>
     completed = wr_completed r
     \<and> \<not> (result = RunPaused \<and> list_ex (\<lambda>n. wn_state n = NodeStarted) (bt_values (wr_nodes r)))
     \<and> \<not> (result = RunCompleted \<and> completed \<noteq> length (wd_steps (wr_definition r)))"

definition wf_end ::
  "workflow_projection \<Rightarrow> int \<Rightarrow> string \<Rightarrow> workflow_outcome \<Rightarrow> nat
   \<Rightarrow> workflow_error + workflow_projection" where
  "wf_end p time i result completed =
     and_then (ok_or (WorkflowInvalid ''unknown workflow run'') (bt_get (wp_runs p) i)) (\<lambda>r.
     and_then
       (refuse_if
          (wr_state r \<noteq> WfRunning \<and> \<not> (wr_state r = WfPaused \<and> result = RunCancelled))
          (WorkflowInvalid ''workflow update follows terminal settlement'')) (\<lambda>_.
     and_then
       (refuse_if (\<not> settlement_matches r result completed)
          (WorkflowInvalid ''workflow settlement does not match its checkpoint''))
       (\<lambda>_.
       Inr (put_run i
         (r\<lparr>wr_jobs := settle_job r time result, wr_state := outcome_state result\<rparr>) p))))"

section \<open>The fold\<close>

fun workflow_apply ::
  "workflow_projection \<Rightarrow> int \<Rightarrow> workflow_change \<Rightarrow> workflow_error + workflow_projection" where
  "workflow_apply p time (WorkflowJob version i attempt job) = wf_job p time i attempt job"
| "workflow_apply p time (WorkflowAgent version i a) = wf_agent p i a"
| "workflow_apply p time (WorkflowSaved version d) = wf_saved p d"
| "workflow_apply p time (WorkflowNode version i step n) = wf_node p i step n"
| "workflow_apply p time (WorkflowStart version i d) = wf_start p i d"
| "workflow_apply p time (WorkflowProgress version i sequence step message) =
     wf_progress p i sequence step"
| "workflow_apply p time (WorkflowCheckpoint version i completed result) =
     wf_checkpoint p i completed result"
| "workflow_apply p time (WorkflowResume version i attempt completed) =
     wf_resume p i attempt completed"
| "workflow_apply p time (WorkflowEnd version i result completed message) =
     wf_end p time i result completed"

definition workflow_event ::
  "workflow_ext \<Rightarrow> workflow_projection \<Rightarrow> session_event \<Rightarrow> workflow_error + workflow_projection" where
  "workflow_event ext p e =
     (case ev_kind e of
        WorkflowChange change \<Rightarrow>
          and_then (workflow_validate_shape ext change) (\<lambda>_. workflow_apply p (ev_time e) change)
      | _ \<Rightarrow> Inr p)"

definition project_workflows ::
  "workflow_ext \<Rightarrow> session_event list \<Rightarrow> workflow_error + workflow_projection" where
  "project_workflows ext es = try_fold (workflow_event ext) workflow_default es"

end
