(* ===== verification/Workflow_Graph.thy ===== *)
theory Workflow_Graph
  imports Workflow_Definition Replay
begin

text \<open>
  The dependency graph of a workflow definition: what a valid definition guarantees about it, and
  that the readiness loop accepts exactly the acyclic graphs.
\<close>

section \<open>Steps by id\<close>

definition step_deps :: "workflow_step list \<Rightarrow> string \<Rightarrow> string list option" where
  "step_deps steps i = map_option wst_depends_on (List.find (\<lambda>s. wst_id s = i) steps)"

lemma find_id:
  "distinct (map wst_id steps) \<Longrightarrow> s \<in> set steps \<Longrightarrow> List.find (\<lambda>t. wst_id t = wst_id s) steps = Some s"
  by (induction steps) force+

lemma step_deps_Some:
  "distinct (map wst_id steps) \<Longrightarrow>
   step_deps steps i = Some ds \<longleftrightarrow> (\<exists>s \<in> set steps. wst_id s = i \<and> ds = wst_depends_on s)"
  unfolding step_deps_def by (auto dest: find_SomeD simp: find_id)

lemma dom_step_deps: "dom (step_deps steps) = wst_id ` set steps"
  by (rule set_eqI) (auto simp: domIff step_deps_def)

section \<open>The readiness loop\<close>

text \<open>Ready ids have a finite history: every chain of dependencies below them ends.\<close>

definition ready_sound :: "workflow_step list \<Rightarrow> string list \<Rightarrow> bool" where
  "ready_sound steps ready \<longleftrightarrow>
     distinct ready \<and> set ready \<subseteq> wst_id ` set steps
     \<and> set ready \<subseteq> Wellfounded.acc ((dep_edges (step_deps steps))\<inverse>)"

lemma ready_sound_step:
  assumes ids: "distinct (map wst_id steps)" and s: "s \<in> set steps" and ok: "ready_sound steps ready"
  shows "ready_sound steps (ready_step ready s)"
proof (cases "list_all (\<lambda>i. i \<in> set ready) (wst_depends_on s)")
  case True
  have "wst_id s \<in> Wellfounded.acc ((dep_edges (step_deps steps))\<inverse>)"
  proof (rule accI)
    fix d assume "(d, wst_id s) \<in> (dep_edges (step_deps steps))\<inverse>"
    then have "d \<in> set (wst_depends_on s)"
      using ids s by (auto simp: dep_edges_def step_deps_def find_id)
    with True ok show "d \<in> Wellfounded.acc ((dep_edges (step_deps steps))\<inverse>)"
      by (auto simp: ready_sound_def list_all_iff)
  qed
  with ok s True show ?thesis by (auto simp: ready_sound_def ready_step_def)
next
  case False
  with ok show ?thesis by (auto simp: ready_step_def)
qed

lemma ready_sound_pass:
  assumes "distinct (map wst_id steps)" "ready_sound steps ready"
  shows "ready_sound steps (ready_pass steps ready)"
proof -
  have "ready_sound steps (foldl ready_step ready ss)" if "set ss \<subseteq> set steps" for ss
    using that assms(2)
    by (induction ss arbitrary: ready) (auto intro: ready_sound_step [OF assms(1)])
  then show ?thesis by (simp add: ready_pass_def)
qed

lemma ready_step_fixed: "foldl ready_step ready ss = ready \<Longrightarrow> s \<in> set ss \<Longrightarrow> ready_step ready s = ready"
proof (induction ss)
  case Nil
  then show ?case by simp
next
  case (Cons t ss)
  have "grows (ready_step ready t) ready"
    using ready_pass_grows [of "ready_step ready t" ss] Cons.prems(1) by (simp add: ready_pass_def)
  with ready_step_grows [of ready t] have "ready_step ready t = ready" by (auto simp: grows_def)
  with Cons show ?case by auto
qed

lemma all_ready:
  assumes "distinct (map wst_id steps)" "ready_sound steps ready" "length ready = length steps"
  shows "set ready = wst_id ` set steps"
proof (rule card_subset_eq)
  show "card (set ready) = card (wst_id ` set steps)"
    using assms by (simp add: ready_sound_def distinct_card flip: set_map)
qed (use assms(2) in \<open>auto simp: ready_sound_def\<close>)

text \<open>
  The state of the loop as a board: while some step is not ready, one of them has all its
  dependencies ready.
\<close>

interpretation ready_board: dependency_board
  "\<lambda>(steps, ready). step_deps steps" "\<lambda>(steps, ready) i. i \<in> set ready"
  "\<lambda>(steps, ready). deps_sound (step_deps steps)"
  by unfold_locales auto

lemma ready_loop_complete:
  assumes "deps_sound (step_deps steps)" "distinct (map wst_id steps)" "ready_sound steps ready"
  shows "ready_loop steps ready = Inr ()"
  using assms
proof (induction steps ready rule: ready_loop.induct)
  case (1 steps ready)
  let ?next = "ready_pass steps ready"
  have sound: "ready_sound steps ?next" by (rule ready_sound_pass [OF "1.prems"(2,3)])
  show ?case
  proof (cases "length ?next = length steps")
    case True
    then show ?thesis by (subst ready_loop.simps) simp
  next
    case False
    note unfinished = this
    show ?thesis
    proof (cases "length ?next = length ready")
      case False
      with unfinished show ?thesis
        using "1.IH" [OF refl unfinished False "1.prems"(1,2) sound] by (subst ready_loop.simps) simp
    next
      case True
      have stuck: "?next = ready"
        using True ready_pass_grows [of ready steps] by (auto simp: grows_def)
      have "\<exists>i \<in> wst_id ` set steps. i \<notin> set ready"
      proof (rule ccontr)
        assume "\<not> ?thesis"
        then have "set ready = wst_id ` set steps" using "1.prems"(3) by (auto simp: ready_sound_def)
        then have "length ready = length steps"
          using "1.prems"(2,3) distinct_card [of ready] distinct_card [OF "1.prems"(2)] by (simp add: ready_sound_def)
        with unfinished stuck show False by simp
      qed
      then obtain i where i: "step_deps steps i \<noteq> None" "i \<notin> set ready"
        using dom_step_deps [of steps] by fast
      then obtain r ds where r: "step_deps steps r = Some ds" "r \<notin> set ready" "\<forall>d \<in> set ds. d \<in> set ready"
        using ready_board.ready_exists [of "(steps, ready)" i] "1.prems"(1) by auto
      then obtain s where s: "s \<in> set steps" "wst_id s = r" "ds = wst_depends_on s"
        by (auto simp: step_deps_Some [OF "1.prems"(2)])
      from ready_step_fixed [OF stuck [unfolded ready_pass_def] s(1)] have "ready_step ready s = ready" .
      with r s have False by (auto simp: ready_step_def list_all_iff not_in_set_insert split: if_splits)
      then show ?thesis ..
    qed
  qed
qed

lemma ready_loop_sound:
  assumes "ready_loop steps ready = Inr ()" "distinct (map wst_id steps)" "ready_sound steps ready"
  shows "acyclic (dep_edges (step_deps steps))"
  using assms
proof (induction steps ready rule: ready_loop.induct)
  case (1 steps ready)
  let ?next = "ready_pass steps ready" and ?E = "dep_edges (step_deps steps)"
  have sound: "ready_sound steps ?next" by (rule ready_sound_pass [OF "1.prems"(2,3)])
  show ?case
  proof (cases "length ?next = length steps")
    case True
    have "wst_id ` set steps \<subseteq> Wellfounded.acc (?E\<inverse>)"
      using sound all_ready [OF "1.prems"(2) sound True] by (simp add: ready_sound_def)
    moreover have "i \<in> Wellfounded.acc (?E\<inverse>)" if "i \<notin> wst_id ` set steps" for i
    proof (rule accI)
      fix y assume "(y, i) \<in> ?E\<inverse>"
      then have "i \<in> dom (step_deps steps)" by (auto simp: dep_edges_def)
      with that show "y \<in> Wellfounded.acc (?E\<inverse>)" by (simp add: dom_step_deps)
    qed
    ultimately have "wf (?E\<inverse>)" by (intro acc_wfI) blast
    then have "acyclic (?E\<inverse>)" by (rule wf_acyclic)
    then show ?thesis by simp
  next
    case False
    with "1.prems"(1) have "length ?next \<noteq> length ready" "ready_loop steps ?next = Inr ()"
      by (auto simp: ready_loop.simps [of steps ready] Let_def split: if_splits)
    with "1.IH" [OF refl False _ _ "1.prems"(2) sound] show ?thesis by blast
  qed
qed

lemma ready_loop_exact:
  assumes "distinct (map wst_id steps)" "deps_closed (step_deps steps)"
  shows "ready_loop steps [] = Inr () \<longleftrightarrow> acyclic (dep_edges (step_deps steps))"
proof -
  have start: "ready_sound steps []" by (simp add: ready_sound_def)
  have "finite (dom (step_deps steps))" by (simp add: dom_step_deps)
  then show ?thesis
    using ready_loop_sound [OF _ assms(1) start] ready_loop_complete [OF _ assms(1) start] assms(2)
    unfolding deps_sound_def by blast
qed

section \<open>Valid definitions\<close>

lemma steps_distinct_Inr:
  assumes "steps_distinct ext caps seen steps = Inr ids" "bt_inv seen"
  shows "distinct (map wst_id steps) \<and> wst_id ` set steps \<inter> set (bt_keys seen) = {}
    \<and> bt_inv ids \<and> set (bt_keys ids) = set (bt_keys seen) \<union> wst_id ` set steps
    \<and> (\<forall>s \<in> set steps. step_validate ext s = Inr () \<and> required_capability (wst_action s) \<in> set caps)"
  using assms
proof (induction steps arbitrary: seen)
  case Nil
  then show ?case by simp
next
  case (Cons s ss)
  let ?seen = "bt_insert (wst_id s) () seen"
  from Cons.prems have s: "step_validate ext s = Inr ()" "wst_id s \<notin> set (bt_keys seen)"
    "required_capability (wst_action s) \<in> set caps" "steps_distinct ext caps ?seen ss = Inr ids"
    by (auto simp: set_insert_def Let_def bt_keys_iff)
  have "bt_inv ?seen" "set (bt_keys ?seen) = insert (wst_id s) (set (bt_keys seen))"
    using Cons.prems(2) by (auto simp: bt_inv_insert bt_keys_iff split: if_splits)
  with Cons.IH [OF s(4)] s show ?case by auto
qed

lemma links_validate_Inr:
  assumes "links_validate d ids s = Inr ()" "bt_inv ids"
  shows "distinct (wst_depends_on s) \<and> set (wst_depends_on s) \<subseteq> set (bt_keys ids)
    \<and> wst_id s \<notin> set (wst_depends_on s)
    \<and> (\<not> is_graph d \<longrightarrow> wst_depends_on s = [] \<and> wst_when s = None \<and> wst_max_attempts s = 1
         \<and> \<not> is_effect (wst_action s))"
  using assms by (auto simp: links_validate_def list_ex_iff bt_keys_iff)

definition well_linked :: "workflow_definition \<Rightarrow> bool" where
  "well_linked d \<longleftrightarrow>
     distinct (map wst_id (wd_steps d)) \<and> deps_sound (step_deps (wd_steps d))"

lemma steps_linked:
  assumes ids: "steps_distinct ext (wd_capabilities d) bt_empty (wd_steps d) = Inr ids"
    and links: "\<forall>s \<in> set (wd_steps d). links_validate d ids s = Inr ()"
  shows "distinct (map wst_id (wd_steps d))" "deps_closed (step_deps (wd_steps d))"
proof -
  have "bt_keys (bt_empty :: string btree_set) = []" by (simp add: bt_keys_def bt_empty_def)
  then have steps: "distinct (map wst_id (wd_steps d))" "bt_inv ids"
    "set (bt_keys ids) = wst_id ` set (wd_steps d)"
    using steps_distinct_Inr [OF ids] by simp_all
  have "set (wst_depends_on s) \<subseteq> wst_id ` set (wd_steps d)" if "s \<in> set (wd_steps d)" for s
    using links_validate_Inr [of d ids s] links that steps by simp
  then show "deps_closed (step_deps (wd_steps d))"
    unfolding deps_closed_def dom_step_deps by (auto dest: find_SomeD simp: step_deps_def)
  show "distinct (map wst_id (wd_steps d))" by (fact steps(1))
qed

lemma definition_validateD:
  assumes "definition_validate ext d = Inr ()"
  shows "well_linked d" "s \<in> set (wd_steps d) \<Longrightarrow> step_validate ext s = Inr ()"
    "length (wd_steps d) \<le> max_workflow_steps"
    "wd_steps d \<noteq> []" "s \<in> set (wd_steps d) \<Longrightarrow> \<not> is_graph d \<Longrightarrow> \<not> is_effect (wst_action s)"
proof -
  from assms obtain ids where ids: "steps_distinct ext (wd_capabilities d) bt_empty (wd_steps d) = Inr ids"
    and links: "\<forall>s \<in> set (wd_steps d). links_validate d ids s = Inr ()"
    and loop: "ready_loop (wd_steps d) [] = Inr ()" and header: "header_validate d = Inr ()"
    by (auto simp: definition_validate_def)
  have "bt_keys (bt_empty :: string btree_set) = []" by (simp add: bt_keys_def bt_empty_def)
  then have steps: "distinct (map wst_id (wd_steps d))" "bt_inv ids"
    "set (bt_keys ids) = wst_id ` set (wd_steps d)" "\<forall>s \<in> set (wd_steps d). step_validate ext s = Inr ()"
    using steps_distinct_Inr [OF ids] by simp_all
  with loop steps_linked [OF ids links] ready_loop_exact [of "wd_steps d"] show "well_linked d"
    by (simp add: well_linked_def deps_sound_def dom_step_deps)
  show "s \<in> set (wd_steps d) \<Longrightarrow> step_validate ext s = Inr ()" using steps by blast
  show "length (wd_steps d) \<le> max_workflow_steps" "wd_steps d \<noteq> []"
    using header by (auto simp: header_validate_def)
  show "s \<in> set (wd_steps d) \<Longrightarrow> \<not> is_graph d \<Longrightarrow> \<not> is_effect (wst_action s)"
    using steps links links_validate_Inr [of d ids s] by blast
qed

end
