(* ===== verification/Workflow_Laws.thy ===== *)
theory Workflow_Laws
  imports Workflow_Projection Workflow_Graph
begin

text \<open>
  The invariant of replayed workflow runs, what no later event can change about a run, and the
  progress that the dependency graph guarantees.
\<close>

section \<open>The invariant of a run\<close>

definition wf_node_ok ::
  "workflow_definition \<Rightarrow> (string, workflow_node_record) btree_map \<Rightarrow> string \<Rightarrow> workflow_node_record \<Rightarrow> bool"
where
  "wf_node_ok d nodes i n \<longleftrightarrow>
     (\<exists>s. find_step d i = Some s \<and> 1 \<le> wn_attempt n \<and> wn_attempt n \<le> wst_max_attempts s
        \<and> (1 < wn_attempt n \<longrightarrow> wst_replay_safe s)
        \<and> (\<forall>dep \<in> set (wst_depends_on s). settled_in nodes dep))"

definition wf_job_ok :: "nat \<Rightarrow> nat \<Rightarrow> workflow_job_record \<Rightarrow> bool" where
  "wf_job_ok attempt k j \<longleftrightarrow>
     wj_attempt j = k \<and> k \<le> attempt \<and> (wj_outcome j = None \<longleftrightarrow> wj_settled_at j = None)"

definition wf_agents_ok ::
  "(string, workflow_node_record) btree_map \<Rightarrow> (string, workflow_agent_record) btree_map \<Rightarrow> bool" where
  "wf_agents_ok nodes agents \<longleftrightarrow>
     (\<forall>t a. bt_get agents t = Some a \<longrightarrow>
        war_task_id a = t
        \<and> (\<exists>n. bt_get nodes (war_node_id a) = Some n \<and> war_node_attempt a \<le> wn_attempt n))
     \<and> (\<forall>t a u b. bt_get agents t = Some a \<longrightarrow> bt_get agents u = Some b \<longrightarrow> same_attempt a b \<longrightarrow> t = u)"

definition wf_run_ok :: "workflow_ext \<Rightarrow> workflow_run \<Rightarrow> bool" where
  "wf_run_ok ext r \<longleftrightarrow>
     definition_validate ext (wr_definition r) = Inr ()
     \<and> bt_inv (wr_jobs r) \<and> bt_inv (wr_agents r) \<and> bt_inv (wr_nodes r)
     \<and> (\<forall>i n. bt_get (wr_nodes r) i = Some n \<longrightarrow> wf_node_ok (wr_definition r) (wr_nodes r) i n)
     \<and> (if is_graph (wr_definition r) then wr_completed r = settled_count (wr_nodes r)
        else wr_nodes r = bt_empty \<and> wr_completed r \<le> wr_progress r)
     \<and> wr_completed r \<le> length (wd_steps (wr_definition r))
     \<and> (wr_state r = WfCompleted \<longrightarrow> wr_completed r = length (wd_steps (wr_definition r)))
     \<and> (\<forall>k j. bt_get (wr_jobs r) k = Some j \<longrightarrow> wf_job_ok (wr_attempt r) k j)
     \<and> wf_agents_ok (wr_nodes r) (wr_agents r)
     \<and> wr_attempt r \<le> u32_max"

lemma settled_count_card: "bt_inv nodes \<Longrightarrow> settled_count nodes = card {i. settled_in nodes i}"
proof -
  assume inv: "bt_inv nodes"
  let ?S = "filter (\<lambda>p. node_settled (snd p)) nodes"
  have "{i. settled_in nodes i} = fst ` set ?S"
    (is "?A = ?B")
  proof (rule set_eqI)
    fix i
    have "i \<in> ?A \<longleftrightarrow> (\<exists>n. bt_get nodes i = Some n \<and> node_settled n)"
      by (simp add: settled_in_def split: option.split)
    also have "\<dots> \<longleftrightarrow> (\<exists>n. (i, n) \<in> set nodes \<and> node_settled n)" by (simp add: bt_get_in_set [OF inv])
    also have "\<dots> \<longleftrightarrow> i \<in> ?B" by force
    finally show "i \<in> ?A \<longleftrightarrow> i \<in> ?B" .
  qed
  moreover have "distinct (map fst ?S)"
    using bt_inv_distinct [OF inv] by (rule distinct_map_filter)
  then have "card (fst ` set ?S) = length ?S" using distinct_card [of "map fst ?S"] by simp
  moreover have "settled_count nodes = length ?S"
    by (simp add: settled_count_def bt_values_def filter_map o_def)
  ultimately show ?thesis by simp
qed

lemma find_step_Some: "find_step d i = Some s \<Longrightarrow> s \<in> set (wd_steps d) \<and> wst_id s = i"
  unfolding find_step_def by (auto dest: find_SomeD)

text \<open>The settled nodes of a graph run are steps, so counting them tells when all are settled.\<close>

lemma settled_steps:
  assumes "wf_run_ok ext r" "settled_in (wr_nodes r) i"
  shows "i \<in> wst_id ` set (wd_steps (wr_definition r))"
proof -
  from assms(2) obtain n where "bt_get (wr_nodes r) i = Some n"
    by (auto simp: settled_in_def split: option.splits)
  with assms(1) obtain s where "find_step (wr_definition r) i = Some s"
    unfolding wf_run_ok_def wf_node_ok_def by blast
  from find_step_Some [OF this] show ?thesis by blast
qed

lemma all_settled:
  assumes ok: "wf_run_ok ext r" and graph: "is_graph (wr_definition r)"
    and full: "wr_completed r = length (wd_steps (wr_definition r))"
    and s: "s \<in> set (wd_steps (wr_definition r))"
  shows "settled_in (wr_nodes r) (wst_id s)"
proof -
  let ?ids = "wst_id ` set (wd_steps (wr_definition r))"
  have inv: "bt_inv (wr_nodes r)" and d: "definition_validate ext (wr_definition r) = Inr ()"
    using ok by (simp_all add: wf_run_ok_def)
  have "distinct (map wst_id (wd_steps (wr_definition r)))"
    using definition_validateD(1) [OF d] by (simp add: well_linked_def)
  then have "card ?ids = length (wd_steps (wr_definition r))"
    using distinct_card [of "map wst_id (wd_steps (wr_definition r))"] by simp
  then have "card {i. settled_in (wr_nodes r) i} = card ?ids"
    using ok graph full settled_count_card [OF inv] by (simp add: wf_run_ok_def)
  moreover have "{i. settled_in (wr_nodes r) i} \<subseteq> ?ids" using settled_steps [OF ok] by blast
  ultimately have "{i. settled_in (wr_nodes r) i} = ?ids" by (intro card_subset_eq) auto
  with s show ?thesis by blast
qed

lemma completed_when_settled:
  assumes ok: "wf_run_ok ext r" and graph: "is_graph (wr_definition r)"
    and settled: "\<not> (\<exists>s \<in> set (wd_steps (wr_definition r)). \<not> settled_in (wr_nodes r) (wst_id s))"
  shows "wr_completed r = length (wd_steps (wr_definition r))"
proof -
  let ?steps = "wd_steps (wr_definition r)"
  have inv: "bt_inv (wr_nodes r)" and d: "definition_validate ext (wr_definition r) = Inr ()"
    using ok by (simp_all add: wf_run_ok_def)
  have "{i. settled_in (wr_nodes r) i} = wst_id ` set ?steps"
    using settled_steps [OF ok] settled by blast
  moreover have "card (wst_id ` set ?steps) = length ?steps"
    using definition_validateD(1) [OF d] distinct_card [of "map wst_id ?steps"] by (simp add: well_linked_def)
  ultimately show ?thesis using ok graph settled_count_card [OF inv] by (simp add: wf_run_ok_def)
qed

section \<open>What an update of a run may do\<close>

definition terminal :: "workflow_state \<Rightarrow> bool" where
  "terminal st \<longleftrightarrow> st = WfCompleted \<or> st = WfFailed \<or> st = WfCancelled"

definition job_extends :: "workflow_job_record \<Rightarrow> workflow_job_record \<Rightarrow> bool" where
  "job_extends j j' \<longleftrightarrow>
     wj_job_id j' = wj_job_id j \<and> wj_attempt j' = wj_attempt j \<and> wj_admitted_at j' = wj_admitted_at j
     \<and> (wj_outcome j \<noteq> None \<longrightarrow> j' = j)"

definition agent_extends :: "workflow_agent_record \<Rightarrow> workflow_agent_record \<Rightarrow> bool" where
  "agent_extends a b \<longleftrightarrow>
     same_attempt a b \<and> war_task_id b = war_task_id a
     \<and> war_owner_session_id b = war_owner_session_id a \<and> war_prompt b = war_prompt a
     \<and> keeps_known (war_session_id a) (war_session_id b) \<and> war_revision a \<le> war_revision b"

definition run_extends :: "workflow_run \<Rightarrow> workflow_run \<Rightarrow> bool" where
  "run_extends r r' \<longleftrightarrow>
     wr_definition r' = wr_definition r
     \<and> wr_attempt r \<le> wr_attempt r' \<and> wr_completed r \<le> wr_completed r'
     \<and> (\<forall>i. settled_in (wr_nodes r) i \<longrightarrow> bt_get (wr_nodes r') i = bt_get (wr_nodes r) i)
     \<and> (\<forall>i n. bt_get (wr_nodes r) i = Some n \<longrightarrow>
          (\<exists>n'. bt_get (wr_nodes r') i = Some n' \<and> wn_attempt n \<le> wn_attempt n'))
     \<and> (\<forall>k j. bt_get (wr_jobs r) k = Some j \<longrightarrow>
          (\<exists>j'. bt_get (wr_jobs r') k = Some j' \<and> job_extends j j'))
     \<and> (\<forall>t a. bt_get (wr_agents r) t = Some a \<longrightarrow>
          (\<exists>b. bt_get (wr_agents r') t = Some b \<and> agent_extends a b))
     \<and> (terminal (wr_state r) \<longrightarrow> r' = r\<lparr>wr_agents := wr_agents r'\<rparr>)"

lemma keeps_known_trans: "keeps_known a b \<Longrightarrow> keeps_known b c \<Longrightarrow> keeps_known a c"
  by (auto simp: keeps_known_def split: option.splits)

lemma keeps_known_refl [simp]: "keeps_known a a"
  by (simp add: keeps_known_def split: option.splits)

lemma agent_extends_refl [simp]: "agent_extends a a"
  by (simp add: agent_extends_def same_attempt_def)

lemma agent_extends_trans: "agent_extends a b \<Longrightarrow> agent_extends b c \<Longrightarrow> agent_extends a c"
  unfolding agent_extends_def same_attempt_def by (auto intro: keeps_known_trans)

lemma job_extends_refl [simp]: "job_extends j j"
  by (simp add: job_extends_def)

lemma job_extends_trans: "job_extends j k \<Longrightarrow> job_extends k l \<Longrightarrow> job_extends j l"
  by (auto simp: job_extends_def)

lemma wf_run_extends_refl [simp]: "run_extends r r"
  by (simp add: run_extends_def)

lemma wf_run_extends_trans:
  assumes a: "run_extends r s" and b: "run_extends s t"
  shows "run_extends r t"
proof -
  have "settled_in (wr_nodes s) i" if "settled_in (wr_nodes r) i" for i
    using a that by (simp add: run_extends_def settled_in_def)
  moreover have "\<exists>n'. bt_get (wr_nodes t) i = Some n' \<and> wn_attempt n \<le> wn_attempt n'"
    if "bt_get (wr_nodes r) i = Some n" for i n
    using a b that unfolding run_extends_def by (meson le_trans)
  moreover have "\<exists>j'. bt_get (wr_jobs t) k = Some j' \<and> job_extends j j'"
    if "bt_get (wr_jobs r) k = Some j" for k j
    using a b that unfolding run_extends_def by (meson job_extends_trans)
  moreover have "\<exists>c. bt_get (wr_agents t) u = Some c \<and> agent_extends x c"
    if "bt_get (wr_agents r) u = Some x" for u x
    using a b that unfolding run_extends_def by (meson agent_extends_trans)
  moreover have "t = r\<lparr>wr_agents := wr_agents t\<rparr>" if "terminal (wr_state r)"
  proof -
    from a that have s: "s = r\<lparr>wr_agents := wr_agents s\<rparr>" by (simp add: run_extends_def)
    then have "wr_state s = wr_state r" by (metis workflow_run.ext_inject workflow_run.surjective workflow_run.update_convs(3))
    with b that have "t = s\<lparr>wr_agents := wr_agents t\<rparr>" by (simp add: run_extends_def)
    with s show ?thesis by (metis workflow_run.update_convs(3) workflow_run.surjective)
  qed
  ultimately show ?thesis using a b by (simp add: run_extends_def)
qed

section \<open>Every update keeps a run well-formed and extends it\<close>

definition keeps :: "workflow_ext \<Rightarrow> workflow_run \<Rightarrow> workflow_run \<Rightarrow> bool" where
  "keeps ext r r' \<longleftrightarrow> wf_run_ok ext r' \<and> run_extends r r'"

lemma wf_run_okD:
  assumes "wf_run_ok ext r"
  shows "definition_validate ext (wr_definition r) = Inr ()" "bt_inv (wr_jobs r)" "bt_inv (wr_agents r)"
    "bt_inv (wr_nodes r)"
    "\<And>i n. bt_get (wr_nodes r) i = Some n \<Longrightarrow> wf_node_ok (wr_definition r) (wr_nodes r) i n"
    "wr_completed r \<le> length (wd_steps (wr_definition r))"
    "wr_completed r < u32_max" "wr_attempt r \<le> u32_max"
    "\<And>k j. bt_get (wr_jobs r) k = Some j \<Longrightarrow> wf_job_ok (wr_attempt r) k j"
    "wf_agents_ok (wr_nodes r) (wr_agents r)"
proof -
  have "length (wd_steps (wr_definition r)) \<le> 64"
    using definition_validateD(3) [of ext "wr_definition r"] assms
    by (simp add: wf_run_ok_def max_workflow_steps_def)
  with assms show "wr_completed r < u32_max" by (simp add: wf_run_ok_def u32_max_def)
qed (use assms in \<open>simp_all add: wf_run_ok_def\<close>)

lemma keeps_job:
  assumes ok: "wf_run_ok ext r" and fresh: "bt_get (wr_jobs r) (wr_attempt r) = None"
    and running: "wr_state r = WfRunning"
  shows "keeps ext r (r\<lparr>wr_jobs := bt_insert (wr_attempt r)
      \<lparr>wj_attempt = wr_attempt r, wj_job_id = job, wj_admitted_at = time, wj_settled_at = None,
       wj_outcome = None\<rparr> (wr_jobs r)\<rparr>)"
  using ok fresh running wf_run_okD(9) [OF ok]
  by (auto simp: keeps_def wf_run_ok_def run_extends_def wf_job_ok_def bt_inv_insert terminal_def)

lemma keeps_agent:
  assumes ok: "wf_run_ok ext r" and current: "attempt_current r a"
    and follows: "case bt_get (wr_agents r) (war_task_id a) of Some prior \<Rightarrow> observation_follows prior a
      | None \<Rightarrow> may_link r a"
  shows "keeps ext r (r\<lparr>wr_agents := bt_insert (war_task_id a) a (wr_agents r)\<rparr>)"
proof -
  let ?t = "war_task_id a" and ?agents = "wr_agents r"
  have inv: "bt_inv ?agents" and agents: "wf_agents_ok (wr_nodes r) ?agents"
    using wf_run_okD(3,10) [OF ok] .
  from current obtain n where n: "bt_get (wr_nodes r) (war_node_id a) = Some n" "war_node_attempt a = wn_attempt n"
    by (auto simp: attempt_current_def split: option.splits)
  have other: "\<not> same_attempt a b \<and> \<not> same_attempt b a" if "bt_get ?agents u = Some b" "u \<noteq> ?t" for u b
  proof (cases "bt_get ?agents ?t")
    case None
    with follows that(1) bt_values_getI [OF that(1)] show ?thesis
      by (auto simp: may_link_def list_ex_iff same_attempt_def)
  next
    case (Some prior)
    with follows have "same_attempt prior a" by (simp add: observation_follows_def same_attempt_def)
    moreover have "\<not> same_attempt prior b" using agents Some that unfolding wf_agents_ok_def by blast
    ultimately show ?thesis by (auto simp: same_attempt_def)
  qed
  have "wf_agents_ok (wr_nodes r) (bt_insert ?t a ?agents)"
    using agents inv n other unfolding wf_agents_ok_def by (simp split: if_splits)
  moreover have "\<exists>c. bt_get (bt_insert ?t a ?agents) u = Some c \<and> agent_extends b c"
    if "bt_get ?agents u = Some b" for u b
  proof (cases "u = ?t")
    case True
    with that follows have "observation_follows b a" by simp
    moreover have "war_task_id b = ?t" using agents that True by (auto simp: wf_agents_ok_def)
    ultimately show ?thesis
      using inv True by (simp add: agent_extends_def observation_follows_def same_attempt_def)
  next
    case False
    with that inv show ?thesis by simp
  qed
  ultimately show ?thesis
    using ok inv by (simp add: keeps_def wf_run_ok_def run_extends_def bt_inv_insert)
qed

lemma node_transition_facts:
  assumes "node_transition_ok s prior n"
  shows "prior = Some m \<Longrightarrow> \<not> node_settled m \<and> wn_attempt m \<le> wn_attempt n"
    "wn_attempt n = 1 \<or> (\<exists>m. prior = Some m \<and> (wn_attempt n = wn_attempt m
       \<or> (wn_attempt n = wn_attempt m + 1 \<and> wst_replay_safe s)))"
  using assms by (auto simp: node_settled_def split: workflow_node_state.splits option.splits)

lemma keeps_node:
  assumes ok: "wf_run_ok ext r" and running: "wr_state r = WfRunning"
    and s: "find_step (wr_definition r) step = Some s" and graph: "is_graph (wr_definition r)"
    and attempt: "1 \<le> wn_attempt n" "wn_attempt n \<le> wst_max_attempts s"
    and trans: "node_transition_ok s (bt_get (wr_nodes r) step) n"
    and deps: "\<forall>d \<in> set (wst_depends_on s). settled_in (wr_nodes r) d"
    and nodes': "nodes' = bt_insert step n (wr_nodes r)"
  shows "keeps ext r (r\<lparr>wr_attempt_activity := True, wr_nodes := nodes',
      wr_completed := settled_count nodes', wr_checkpoint := Some (wn_value n)\<rparr>)"
proof -
  let ?nodes = "wr_nodes r" and ?d = "wr_definition r"
  note facts = wf_run_okD [OF ok]
  have inv: "bt_inv ?nodes" "bt_inv nodes'" using facts(4) by (simp_all add: nodes' bt_inv_insert)
  have get: "bt_get nodes' i = (if i = step then Some n else bt_get ?nodes i)" for i
    using inv by (simp add: nodes')
  have unsettled: "\<not> settled_in ?nodes step"
    using node_transition_facts(1) [OF trans] by (auto simp: settled_in_def split: option.splits)
  have same: "bt_get nodes' i = bt_get ?nodes i" if "settled_in ?nodes i" for i
    using that unsettled get by auto
  then have mono: "settled_in nodes' i" if "settled_in ?nodes i" for i
    using that by (simp add: settled_in_def)
  have safe: "1 < wn_attempt n \<longrightarrow> wst_replay_safe s"
    using node_transition_facts(2) [OF trans] facts(5) [of step] s by (auto simp: wf_node_ok_def)
  have node_ok: "wf_node_ok ?d nodes' i m" if "bt_get nodes' i = Some m" for i m
  proof (cases "i = step")
    case True
    with that get have "m = n" by simp
    with True s attempt safe deps mono show ?thesis by (auto simp: wf_node_ok_def)
  next
    case False
    with that get have "wf_node_ok ?d ?nodes i m" using facts(5) by simp
    with mono show ?thesis by (auto simp: wf_node_ok_def)
  qed
  have "settled_in nodes' i \<Longrightarrow> i \<in> wst_id ` set (wd_steps ?d)" for i
    using node_ok find_step_Some by (fastforce simp: settled_in_def wf_node_ok_def split: option.splits)
  then have sub: "{i. settled_in nodes' i} \<subseteq> wst_id ` set (wd_steps ?d)" by blast
  then have count: "settled_count nodes' \<le> length (wd_steps ?d)"
    unfolding settled_count_card [OF inv(2)]
    by (meson card_mono finite_imageI finite_set card_image_le length_remdups_leq le_trans card_length)
  have "finite {i. settled_in nodes' i}" using sub by (rule finite_subset) simp
  then have grow: "settled_count ?nodes \<le> settled_count nodes'"
    unfolding settled_count_card [OF inv(1)] settled_count_card [OF inv(2)]
    using mono by (intro card_mono) auto
  have attempts: "\<exists>m'. bt_get nodes' i = Some m' \<and> wn_attempt m \<le> wn_attempt m'"
    if "bt_get ?nodes i = Some m" for i m
    using that get node_transition_facts(1) [OF trans] by auto
  then have "wf_agents_ok nodes' (wr_agents r)"
    using facts(10) unfolding wf_agents_ok_def by (meson le_trans)
  then show ?thesis
    using ok inv(2) node_ok count grow same attempts graph running
    by (simp add: keeps_def wf_run_ok_def run_extends_def terminal_def)
qed

lemma keeps_progress:
  assumes "wf_run_ok ext r" "wr_state r = WfRunning" "\<not> is_graph (wr_definition r)"
    "sequence = saturating_add_u32 (wr_progress r) 1" "wr_completed r < u32_max"
  shows "keeps ext r (r\<lparr>wr_attempt_activity := True, wr_progress := sequence\<rparr>)"
  using assms by (auto simp: keeps_def wf_run_ok_def run_extends_def terminal_def saturating_add_u32_def)

lemma keeps_checkpoint:
  assumes "wf_run_ok ext r" "wr_state r = WfRunning" "\<not> is_graph (wr_definition r)"
    "completed = saturating_add_u32 (wr_completed r) 1" "completed \<le> wr_progress r"
    "completed \<le> length (wd_steps (wr_definition r))"
  shows "keeps ext r (r\<lparr>wr_completed := completed, wr_checkpoint := Some result\<rparr>)"
  using assms wf_run_okD(7) [OF assms(1)]
  by (auto simp: keeps_def wf_run_ok_def run_extends_def terminal_def saturating_add_u32_def)

lemma keeps_resume:
  assumes "wf_run_ok ext r" "wr_state r = WfRunning \<or> wr_state r = WfPaused"
    "attempt = saturating_add_u32 (wr_attempt r) 1"
  shows "keeps ext r (r\<lparr>wr_attempt := attempt, wr_attempt_activity := False, wr_state := WfRunning\<rparr>)"
proof -
  have "wr_attempt r \<le> attempt" "attempt \<le> u32_max"
    using wf_run_okD(8) [OF assms(1)] assms(3) by (auto simp: saturating_add_u32_def)
  moreover have "wf_job_ok attempt k j" if "bt_get (wr_jobs r) k = Some j" for k j
    using wf_run_okD(9) [OF assms(1) that] \<open>wr_attempt r \<le> attempt\<close> by (auto simp: wf_job_ok_def)
  ultimately show ?thesis
    using assms(1,2) by (auto simp: keeps_def wf_run_ok_def run_extends_def terminal_def)
qed

lemma settle_job_get:
  assumes "bt_inv (wr_jobs r)"
  shows "bt_inv (settle_job r time result)"
    "bt_get (settle_job r time result) k =
       (case bt_get (wr_jobs r) k of
          Some j \<Rightarrow> Some (if k = wr_attempt r \<and> wj_outcome j = None
                          then j\<lparr>wj_outcome := Some result, wj_settled_at := Some time\<rparr> else j)
        | None \<Rightarrow> None)"
  using assms by (auto simp: settle_job_def bt_inv_insert split: option.split)

lemma keeps_end:
  assumes ok: "wf_run_ok ext r"
    and state: "wr_state r = WfRunning \<or> (wr_state r = WfPaused \<and> result = RunCancelled)"
    and matches: "settlement_matches r result completed"
  shows "keeps ext r (r\<lparr>wr_jobs := settle_job r time result, wr_state := outcome_state result\<rparr>)"
proof -
  note jobs = settle_job_get [OF wf_run_okD(2) [OF ok], of time result]
  have "wf_job_ok (wr_attempt r) k j" if "bt_get (settle_job r time result) k = Some j" for k j
    using that wf_run_okD(9) [OF ok, of k] unfolding jobs(2)
    by (auto simp: wf_job_ok_def split: option.splits if_splits)
  moreover have "\<exists>j'. bt_get (settle_job r time result) k = Some j' \<and> job_extends j j'"
    if "bt_get (wr_jobs r) k = Some j" for k j
    using that unfolding jobs(2) by (auto simp: job_extends_def)
  moreover have "wr_completed r = length (wd_steps (wr_definition r))" if "outcome_state result = WfCompleted"
    using that matches by (cases result) (auto simp: settlement_matches_def)
  moreover have "\<not> terminal (wr_state r)" using state by (auto simp: terminal_def)
  ultimately show ?thesis
    using ok jobs(1) by (simp add: keeps_def wf_run_ok_def run_extends_def)
qed

lemma fresh_run_ok: "definition_validate ext d = Inr () \<Longrightarrow> wf_run_ok ext (fresh_run d)"
  by (simp add: wf_run_ok_def fresh_run_def wf_agents_ok_def settled_count_def bt_values_def bt_empty_def
      bt_get_def u32_max_def bt_inv_def)

section \<open>The projection\<close>

text \<open>The coordinators by run and attempt, and the runs that own a native task.\<close>

definition job_at :: "workflow_projection \<Rightarrow> string \<times> nat \<Rightarrow> string option" where
  "job_at p = (\<lambda>(i, k). case bt_get (wp_runs p) i of None \<Rightarrow> None
     | Some r \<Rightarrow> map_option wj_job_id (bt_get (wr_jobs r) k))"

definition task_in :: "workflow_projection \<Rightarrow> string \<Rightarrow> string \<Rightarrow> bool" where
  "task_in p i t \<longleftrightarrow>
     (case bt_get (wp_runs p) i of None \<Rightarrow> False | Some r \<Rightarrow> bt_contains (wr_agents r) t)"

definition workflow_ok :: "workflow_ext \<Rightarrow> workflow_projection \<Rightarrow> bool" where
  "workflow_ok ext p \<longleftrightarrow>
     bt_inv (wp_runs p) \<and> bt_inv (wp_definitions p)
     \<and> (\<forall>i r. bt_get (wp_runs p) i = Some r \<longrightarrow> wf_run_ok ext r)
     \<and> (\<forall>i d. bt_get (wp_definitions p) i = Some d \<longrightarrow> wd_name d = i \<and> definition_validate ext d = Inr ())
     \<and> length (wp_definitions p) \<le> 64
     \<and> inj_on (job_at p) (dom (job_at p))
     \<and> (\<forall>i j t. task_in p i t \<longrightarrow> task_in p j t \<longrightarrow> i = j)"

text \<open>Replacing or adding one run.\<close>

lemma job_at_put:
  "bt_inv (wp_runs p) \<Longrightarrow> job_at (put_run i r p) (j, k) =
     (if j = i then map_option wj_job_id (bt_get (wr_jobs r) k) else job_at p (j, k))"
  by (simp add: job_at_def put_run_def)

lemma task_in_put:
  "bt_inv (wp_runs p) \<Longrightarrow> task_in (put_run i r p) j t = (if j = i then bt_contains (wr_agents r) t else task_in p j t)"
  by (simp add: task_in_def put_run_def)

lemma workflow_ok_put:
  assumes ok: "workflow_ok ext p" and r: "wf_run_ok ext r'"
    and jobs: "inj_on (job_at (put_run i r' p)) (dom (job_at (put_run i r' p)))"
    and tasks: "\<And>t. bt_contains (wr_agents r') t \<Longrightarrow> task_in p i t \<or> (\<forall>j. j \<noteq> i \<longrightarrow> \<not> task_in p j t)"
  shows "workflow_ok ext (put_run i r' p)"
proof -
  have inv: "bt_inv (wp_runs p)" using ok by (simp add: workflow_ok_def)
  have "j = k" if "task_in (put_run i r' p) j t" "task_in (put_run i r' p) k t" for j k t
  proof -
    have "a = b" if "task_in p a t" "task_in p b t" for a b using ok that by (auto simp: workflow_ok_def)
    with that tasks [of t] show ?thesis unfolding task_in_put [OF inv] by (metis (full_types))
  qed
  with ok r jobs inv show ?thesis
    unfolding workflow_ok_def by (simp add: put_run_def bt_inv_insert)
qed

text \<open>An update that adds no coordinator and no task.\<close>

lemma workflow_ok_same_jobs:
  assumes ok: "workflow_ok ext p" and get: "bt_get (wp_runs p) i = Some r" and r: "wf_run_ok ext r'"
    and jobs: "\<And>k. map_option wj_job_id (bt_get (wr_jobs r') k) = map_option wj_job_id (bt_get (wr_jobs r) k)"
    and agents: "wr_agents r' = wr_agents r"
  shows "workflow_ok ext (put_run i r' p)"
proof (rule workflow_ok_put [OF ok r])
  have inv: "bt_inv (wp_runs p)" using ok by (simp add: workflow_ok_def)
  have "job_at (put_run i r' p) x = job_at p x" for x
    using jobs get by (cases x) (simp add: job_at_put [OF inv], simp add: job_at_def)
  then have "job_at (put_run i r' p) = job_at p" ..
  with ok show "inj_on (job_at (put_run i r' p)) (dom (job_at (put_run i r' p)))"
    by (simp add: workflow_ok_def)
  show "task_in p i t \<or> (\<forall>j. j \<noteq> i \<longrightarrow> \<not> task_in p j t)" if "bt_contains (wr_agents r') t" for t
    using that get agents by (simp add: task_in_def)
qed

definition runs_extend :: "workflow_projection \<Rightarrow> workflow_projection \<Rightarrow> bool" where
  "runs_extend p p' \<longleftrightarrow>
     (\<forall>i r. bt_get (wp_runs p) i = Some r \<longrightarrow> (\<exists>r'. bt_get (wp_runs p') i = Some r' \<and> run_extends r r'))"

lemma runs_extend_refl [simp]: "runs_extend p p"
  by (auto simp: runs_extend_def)

lemma runs_extend_trans: "runs_extend p q \<Longrightarrow> runs_extend q s \<Longrightarrow> runs_extend p s"
  unfolding runs_extend_def by (meson wf_run_extends_trans)

definition evolves :: "workflow_ext \<Rightarrow> workflow_projection \<Rightarrow> workflow_projection \<Rightarrow> bool" where
  "evolves ext p p' \<longleftrightarrow> workflow_ok ext p' \<and> runs_extend p p'"

lemma evolves_refl: "workflow_ok ext p \<Longrightarrow> evolves ext p p"
  by (simp add: evolves_def)

lemma workflow_okD:
  assumes "workflow_ok ext p"
  shows "bt_inv (wp_runs p)" "\<And>i r. bt_get (wp_runs p) i = Some r \<Longrightarrow> wf_run_ok ext r"
  using assms by (auto simp: workflow_ok_def)

lemma runs_extend_put:
  assumes "bt_inv (wp_runs p)" "\<And>r. bt_get (wp_runs p) i = Some r \<Longrightarrow> run_extends r r'"
  shows "runs_extend p (put_run i r' p)"
  using assms by (simp add: runs_extend_def put_run_def)

text \<open>An update of one run that keeps its coordinators and tasks.\<close>

lemma evolves_same:
  assumes ok: "workflow_ok ext p" and get: "bt_get (wp_runs p) i = Some r" and keeps: "keeps ext r r'"
    and jobs: "\<And>k. map_option wj_job_id (bt_get (wr_jobs r') k) = map_option wj_job_id (bt_get (wr_jobs r) k)"
    and agents: "wr_agents r' = wr_agents r"
  shows "evolves ext p (put_run i r' p)"
  using workflow_ok_same_jobs [OF ok get _ jobs agents] runs_extend_put [of p i r'] workflow_okD(1) [OF ok]
    keeps get
  by (simp add: evolves_def keeps_def)

lemma running_workflow_Inr:
  "running_workflow p i = Inr r \<longleftrightarrow> bt_get (wp_runs p) i = Some r \<and> wr_state r = WfRunning"
  by (auto simp: running_workflow_def)

lemma evolves_job:
  assumes ok: "workflow_ok ext p" and step: "wf_job p time i attempt job = Inr p'"
  shows "evolves ext p p'"
proof -
  from step obtain r where new: "\<not> job_known p job" and r: "bt_get (wp_runs p) i = Some r" "wr_state r = WfRunning"
    "wr_attempt r = attempt" "bt_get (wr_jobs r) attempt = None"
    and p': "p' = put_run i (r\<lparr>wr_jobs := bt_insert attempt \<lparr>wj_attempt = attempt, wj_job_id = job,
        wj_admitted_at = time, wj_settled_at = None, wj_outcome = None\<rparr> (wr_jobs r)\<rparr>) p" (is "_ = put_run i ?r p")
    by (auto simp: wf_job_def running_workflow_Inr)
  note inv = workflow_okD(1) [OF ok] and run = workflow_okD(2) [OF ok r(1)]
  have keeps: "keeps ext r ?r"
    using keeps_job [OF run, of job time] r by simp
  have at: "job_at p' = (job_at p)((i, attempt) \<mapsto> job)"
    using wf_run_okD(2) [OF run] r(1) unfolding p'
    by (rule_tac ext, rename_tac x, case_tac x) (simp add: job_at_put [OF inv], simp add: job_at_def)
  have "job_at p x \<noteq> Some job" for x
    using new by (cases x) (auto simp: job_known_def job_at_def list_ex_iff dest!: bt_values_getI split: option.splits)
  then have inj: "inj_on (job_at p') (dom (job_at p'))"
    using ok unfolding at workflow_ok_def inj_on_def by auto
  have "workflow_ok ext p'"
    unfolding p'
  proof (rule workflow_ok_put [OF ok])
    show "wf_run_ok ext ?r" using keeps by (simp add: keeps_def)
    show "inj_on (job_at (put_run i ?r p)) (dom (job_at (put_run i ?r p)))" using inj unfolding p' .
    show "task_in p i t \<or> (\<forall>j. j \<noteq> i \<longrightarrow> \<not> task_in p j t)" if "bt_contains (wr_agents ?r) t" for t
      using that r(1) by (simp add: task_in_def)
  qed
  moreover have "runs_extend p p'"
    unfolding p' using keeps r(1) by (intro runs_extend_put [OF inv]) (simp add: keeps_def)
  ultimately show ?thesis by (simp add: evolves_def)
qed

lemma evolves_agent:
  assumes ok: "workflow_ok ext p" and step: "wf_agent p i a = Inr p'"
  shows "evolves ext p p'"
proof -
  from step obtain r where only: "\<not> task_elsewhere p i (war_task_id a)" and r: "bt_get (wp_runs p) i = Some r"
    and current: "attempt_current r a"
    and follows: "case bt_get (wr_agents r) (war_task_id a) of Some prior \<Rightarrow> observation_follows prior a
      | None \<Rightarrow> may_link r a"
    and p': "p' = put_run i (r\<lparr>wr_agents := bt_insert (war_task_id a) a (wr_agents r)\<rparr>) p" (is "_ = put_run i ?r p")
    by (auto simp: wf_agent_def split: option.splits)
  note inv = workflow_okD(1) [OF ok] and run = workflow_okD(2) [OF ok r]
  have keeps: "keeps ext r ?r" by (rule keeps_agent [OF run current follows])
  have "job_at (put_run i ?r p) x = job_at p x" for x
    using r by (cases x) (simp add: job_at_put [OF inv], simp add: job_at_def)
  then have jobs: "job_at (put_run i ?r p) = job_at p" ..
  have elsewhere: "\<not> task_in p j (war_task_id a)" if "j \<noteq> i" for j
    using only that
    by (auto simp: task_elsewhere_def task_in_def list_ex_iff dest: bt_get_SomeD split: option.splits)
  have "workflow_ok ext p'"
    unfolding p'
  proof (rule workflow_ok_put [OF ok])
    show "wf_run_ok ext ?r" using keeps by (simp add: keeps_def)
    show "inj_on (job_at (put_run i ?r p)) (dom (job_at (put_run i ?r p)))"
      using ok unfolding jobs by (simp add: workflow_ok_def)
    show "task_in p i t \<or> (\<forall>j. j \<noteq> i \<longrightarrow> \<not> task_in p j t)" if "bt_contains (wr_agents ?r) t" for t
      using that r elsewhere wf_run_okD(3) [OF run] by (auto simp: task_in_def split: if_splits)
  qed
  moreover have "runs_extend p p'"
    unfolding p' using keeps r by (intro runs_extend_put [OF inv]) (simp add: keeps_def)
  ultimately show ?thesis by (simp add: evolves_def)
qed

lemma evolves_node:
  assumes ok: "workflow_ok ext p" and step: "wf_node p i step n = Inr p'" and "1 \<le> wn_attempt n"
  shows "evolves ext p p'"
  using step assms(3) workflow_okD(2) [OF ok]
  by (auto simp: wf_node_def running_workflow_Inr Let_def list_ex_iff simp del: node_transition_ok.simps
      intro!: evolves_same [OF ok] keeps_node)

lemma evolves_progress:
  assumes ok: "workflow_ok ext p" and step: "wf_progress p i sequence s = Inr p'"
  shows "evolves ext p p'"
  using step wf_run_okD(7) [OF workflow_okD(2) [OF ok]] workflow_okD(2) [OF ok]
  by (auto simp: wf_progress_def running_workflow_Inr intro!: evolves_same [OF ok] keeps_progress)

lemma evolves_checkpoint:
  assumes ok: "workflow_ok ext p" and step: "wf_checkpoint p i completed result = Inr p'"
  shows "evolves ext p p'"
  using step workflow_okD(2) [OF ok]
  by (auto simp: wf_checkpoint_def running_workflow_Inr intro!: evolves_same [OF ok] keeps_checkpoint)

lemma evolves_resume:
  assumes ok: "workflow_ok ext p" and step: "wf_resume p i attempt completed = Inr p'"
  shows "evolves ext p p'"
  using step workflow_okD(2) [OF ok]
  by (auto simp: wf_resume_def intro!: evolves_same [OF ok] keeps_resume)

lemma evolves_end:
  assumes ok: "workflow_ok ext p" and step: "wf_end p time i result completed = Inr p'"
  shows "evolves ext p p'"
proof -
  from step obtain r where r: "bt_get (wp_runs p) i = Some r"
    and state: "wr_state r = WfRunning \<or> (wr_state r = WfPaused \<and> result = RunCancelled)"
    and matches: "settlement_matches r result completed"
    and p': "p' = put_run i (r\<lparr>wr_jobs := settle_job r time result, wr_state := outcome_state result\<rparr>) p"
    by (auto simp: wf_end_def)
  note run = workflow_okD(2) [OF ok r]
  have "map_option wj_job_id (bt_get (settle_job r time result) k) = map_option wj_job_id (bt_get (wr_jobs r) k)" for k
    unfolding settle_job_get(2) [OF wf_run_okD(2) [OF run]] by (simp split: option.split)
  then show ?thesis
    unfolding p' by (intro evolves_same [OF ok r keeps_end [OF run state matches]]) simp_all
qed

lemma evolves_start:
  assumes ok: "workflow_ok ext p" and step: "wf_start p i d = Inr p'" and d: "definition_validate ext d = Inr ()"
  shows "evolves ext p p'"
proof -
  from step have none: "bt_get (wp_runs p) i = None" and p': "p' = put_run i (fresh_run d) p"
    by (auto simp: wf_start_def)
  note inv = workflow_okD(1) [OF ok]
  have "job_at (put_run i (fresh_run d) p) x = job_at p x" for x
    using none by (cases x) (simp add: job_at_put [OF inv], simp add: job_at_def fresh_run_def)
  then have "job_at (put_run i (fresh_run d) p) = job_at p" ..
  with ok fresh_run_ok [OF d] have "workflow_ok ext p'"
    unfolding p' by (intro workflow_ok_put) (simp_all add: workflow_ok_def fresh_run_def)
  with none inv show ?thesis
    unfolding evolves_def p' by (auto intro: runs_extend_put)
qed

lemma evolves_saved:
  assumes ok: "workflow_ok ext p" and step: "wf_saved p d = Inr p'" and d: "definition_validate ext d = Inr ()"
  shows "evolves ext p p'"
proof -
  from step have room: "bt_contains (wp_definitions p) (wd_name d) \<or> length (wp_definitions p) < 64"
    and p': "p' = p\<lparr>wp_definitions := bt_insert (wd_name d) d (wp_definitions p)\<rparr>"
    by (auto simp: wf_saved_def)
  have inv: "bt_inv (wp_definitions p)" and le: "length (wp_definitions p) \<le> 64"
    using ok by (simp_all add: workflow_ok_def)
  have "length (bt_insert (wd_name d) d (wp_definitions p)) \<le> 64"
    using length_bt_insert [OF inv, of "wd_name d" d] room le by (auto split: if_splits)
  moreover have "job_at p' = job_at p" "task_in p' = task_in p"
    by (simp_all add: p' job_at_def task_in_def fun_eq_iff)
  ultimately show ?thesis
    using ok d inv by (simp add: evolves_def workflow_ok_def runs_extend_def p' bt_inv_insert)
qed

lemma workflow_apply_evolves:
  assumes ok: "workflow_ok ext p" and shape: "workflow_validate_shape ext change = Inr ()"
    and step: "workflow_apply p time change = Inr p'"
  shows "evolves ext p p'"
  using workflow_shape_run [OF shape] step
  by (cases change)
    (auto intro: evolves_job [OF ok] evolves_agent [OF ok] evolves_saved [OF ok] evolves_node [OF ok]
      evolves_start [OF ok] evolves_progress [OF ok] evolves_checkpoint [OF ok] evolves_resume [OF ok]
      evolves_end [OF ok])

lemma workflow_event_evolves:
  assumes "workflow_ok ext p" "workflow_event ext p e = Inr p'"
  shows "evolves ext p p'"
  using assms
  by (auto simp: workflow_event_def intro: workflow_apply_evolves evolves_refl
      split: session_event_kind.splits)

lemma workflow_ok_default: "workflow_ok ext workflow_default"
  by (simp add: workflow_ok_def workflow_default_def job_at_def task_in_def bt_empty_def bt_get_def bt_inv_def
      dom_def case_prod_beta)

interpretation workflows: replay workflow_default "workflow_event ext" "workflow_ok ext" for ext
proof (unfold_locales, goal_cases)
  case 1
  show ?case by (rule workflow_ok_default)
next
  case (2 p e p')
  with workflow_event_evolves show ?case unfolding evolves_def by blast
qed

lemma workflows_extend:
  assumes "workflow_ok ext p" "try_fold (workflow_event ext) p es = Inr p'"
  shows "workflow_ok ext p' \<and> runs_extend p p'"
proof -
  have "workflow_ok ext p' \<and> runs_extend p p'"
    using assms(2)
  proof (rule try_fold_inv [where P = "\<lambda>q. workflow_ok ext q \<and> runs_extend p q"])
    show "workflow_ok ext p \<and> runs_extend p p" using assms(1) by simp
  next
    fix q e q'
    assume "workflow_ok ext q \<and> runs_extend p q" "workflow_event ext q e = Inr q'"
    with workflow_event_evolves [of ext q e q'] show "workflow_ok ext q' \<and> runs_extend p q'"
      unfolding evolves_def by (blast intro: runs_extend_trans)
  qed
  then show ?thesis .
qed

section \<open>Attempts of a node\<close>

definition nodes_of :: "workflow_projection \<Rightarrow> string \<Rightarrow> (string, workflow_node_record) btree_map" where
  "nodes_of p i = (case bt_get (wp_runs p) i of None \<Rightarrow> bt_empty | Some r \<Rightarrow> wr_nodes r)"

text \<open>The attempt that a change starts for a node of a run.\<close>

fun started_attempt :: "string \<Rightarrow> string \<Rightarrow> session_event_kind \<Rightarrow> nat list" where
  "started_attempt i step (WorkflowChange (WorkflowNode version j t n)) =
     (if j = i \<and> t = step \<and> wn_state n = NodeStarted then [wn_attempt n] else [])"
| "started_attempt i step _ = []"

definition started_attempts :: "string \<Rightarrow> string \<Rightarrow> session_event list \<Rightarrow> nat list" where
  "started_attempts i step es = concat (map (\<lambda>e. started_attempt i step (ev_kind e)) es)"

definition attempts_made :: "workflow_projection \<Rightarrow> string \<Rightarrow> string \<Rightarrow> nat" where
  "attempts_made p i step =
     (case bt_get (nodes_of p i) step of None \<Rightarrow> 0
      | Some n \<Rightarrow> if wn_state n = NodeSkipped then 0 else wn_attempt n)"

lemma nodes_of_put: "bt_inv (wp_runs p) \<Longrightarrow> nodes_of (put_run i r p) j = (if j = i then wr_nodes r else nodes_of p j)"
  by (simp add: nodes_of_def put_run_def)

lemma nodes_kept:
  assumes "bt_inv (wp_runs p)" "workflow_apply p time change = Inr p'"
    and "\<And>version j t n. change \<noteq> WorkflowNode version j t n"
  shows "nodes_of p' i = nodes_of p i"
  using assms
  by (cases change)
    (auto simp: wf_job_def wf_agent_def wf_saved_def wf_start_def wf_progress_def wf_checkpoint_def wf_resume_def
      wf_end_def running_workflow_Inr nodes_of_put, auto simp: nodes_of_def fresh_run_def)

lemma node_changed:
  assumes ok: "workflow_ok ext p" and step: "wf_node p j t n = Inr p'"
  shows "bt_get (nodes_of p' i) u = (if i = j \<and> u = t then Some n else bt_get (nodes_of p i) u)
    \<and> (\<exists>r s. bt_get (wp_runs p) j = Some r \<and> find_step (wr_definition r) t = Some s
         \<and> node_transition_ok s (bt_get (nodes_of p j) t) n)"
proof -
  from step obtain r s where r: "bt_get (wp_runs p) j = Some r" and s: "find_step (wr_definition r) t = Some s"
    "node_transition_ok s (bt_get (wr_nodes r) t) n"
    and p': "p' = put_run j (r\<lparr>wr_attempt_activity := True, wr_nodes := bt_insert t n (wr_nodes r),
        wr_completed := settled_count (bt_insert t n (wr_nodes r)), wr_checkpoint := Some (wn_value n)\<rparr>) p"
    by (auto simp: wf_node_def running_workflow_Inr Let_def simp del: node_transition_ok.simps)
  have "nodes_of p j = wr_nodes r" using r by (simp add: nodes_of_def)
  then show ?thesis
    using r s workflow_okD(1) [OF ok] wf_run_okD(4) [OF workflow_okD(2) [OF ok r]]
    by (simp add: p' nodes_of_put del: node_transition_ok.simps)
qed

text \<open>The attempts a log starts for a node are 1, 2, 3 and so on, up to the recorded one.\<close>

lemma attempts_step:
  assumes ok: "workflow_ok ext p" and step: "workflow_event ext p e = Inr p'"
    and so_far: "starts = [1..<Suc (attempts_made p i t)]"
  shows "starts @ started_attempt i t (ev_kind e) = [1..<Suc (attempts_made p' i t)]"
proof (cases "\<exists>version j u n. ev_kind e = WorkflowChange (WorkflowNode version j u n)")
  case False
  then have "started_attempt i t (ev_kind e) = []"
    by (cases "(i, t, ev_kind e)" rule: started_attempt.cases) auto
  moreover have "nodes_of p' i = nodes_of p i"
  proof (cases "\<exists>change. ev_kind e = WorkflowChange change")
    case True
    with False step show ?thesis
      by (auto simp: workflow_event_def intro!: nodes_kept [OF workflow_okD(1) [OF ok]])
  next
    case no_change: False
    with step have "p' = p" by (auto simp: workflow_event_def split: session_event_kind.splits)
    then show ?thesis by simp
  qed
  ultimately show ?thesis using so_far by (simp add: attempts_made_def)
next
  case True
  then obtain version j u n where e: "ev_kind e = WorkflowChange (WorkflowNode version j u n)" by blast
  with step have node: "wf_node p j u n = Inr p'" by (simp add: workflow_event_def)
  from node_changed [OF ok node, of i t] obtain r s where
    get: "bt_get (nodes_of p' i) t = (if i = j \<and> t = u then Some n else bt_get (nodes_of p i) t)"
    and s: "node_transition_ok s (bt_get (nodes_of p j) u) n" by blast
  show ?thesis
  proof (cases "i = j \<and> t = u")
    case False
    with get so_far e show ?thesis by (auto simp: attempts_made_def)
  next
    case True
    with s have "node_transition_ok s (bt_get (nodes_of p i) t) n" by simp
    with True get so_far e show ?thesis
      by (auto simp: attempts_made_def split: workflow_node_state.splits option.splits)
  qed
qed

lemma attempts_sequential:
  assumes "project_workflows ext es = Inr p"
  shows "workflow_ok ext p \<and> started_attempts i t es = [1..<Suc (attempts_made p i t)]"
  using assms
proof (induction es arbitrary: p rule: rev_induct)
  case Nil
  then have "p = workflow_default" by (simp add: project_workflows_def)
  moreover have "attempts_made workflow_default i t = 0"
    by (simp add: attempts_made_def nodes_of_def workflow_default_def)
  ultimately show ?case by (simp add: started_attempts_def workflow_ok_default)
next
  case (snoc e es)
  from snoc.prems obtain q where q: "project_workflows ext es = Inr q" "workflow_event ext q e = Inr p"
    by (auto simp: project_workflows_def try_fold_append)
  from snoc.IH [OF q(1)] have ok: "workflow_ok ext q"
    and starts: "started_attempts i t es = [1..<Suc (attempts_made q i t)]" by simp_all
  from workflow_event_evolves [OF ok q(2)] have "workflow_ok ext p" by (simp add: evolves_def)
  with attempts_step [OF ok q(2) starts] show ?case by (simp add: started_attempts_def)
qed

section \<open>No deadlock\<close>

interpretation run_board: dependency_board
  "\<lambda>r. step_deps (wd_steps (wr_definition r))" "\<lambda>r. settled_in (wr_nodes r)" "wf_run_ok ext" for ext
  by unfold_locales (use definition_validateD(1) in \<open>auto simp: wf_run_ok_def well_linked_def\<close>)

lemma run_ready:
  assumes ok: "wf_run_ok ext r" and s: "s \<in> set (wd_steps (wr_definition r))"
    and open_node: "\<not> settled_in (wr_nodes r) (wst_id s)"
  shows "\<exists>u \<in> set (wd_steps (wr_definition r)). \<not> settled_in (wr_nodes r) (wst_id u)
    \<and> find_step (wr_definition r) (wst_id u) = Some u
    \<and> (\<forall>d \<in> set (wst_depends_on u). settled_in (wr_nodes r) d)"
proof -
  let ?steps = "wd_steps (wr_definition r)"
  have ids: "distinct (map wst_id ?steps)"
    using definition_validateD(1) [OF wf_run_okD(1) [OF ok]] by (simp add: well_linked_def)
  have "step_deps ?steps (wst_id s) \<noteq> None" using s by (simp add: step_deps_def find_id [OF ids s])
  from run_board.ready_exists [OF ok this open_node] obtain i ds where
    i: "step_deps ?steps i = Some ds" "\<not> settled_in (wr_nodes r) i" "\<forall>d \<in> set ds. settled_in (wr_nodes r) d"
    by blast
  then obtain u where "u \<in> set ?steps" "wst_id u = i" "ds = wst_depends_on u"
    by (auto simp: step_deps_Some [OF ids])
  with i find_id [OF ids] show ?thesis by (auto simp: find_step_def)
qed

lemma node_accepted:
  assumes "bt_get (wp_runs p) i = Some r" "wr_state r = WfRunning" "is_graph (wr_definition r)"
    and "find_step (wr_definition r) t = Some s" "\<forall>d \<in> set (wst_depends_on s). settled_in (wr_nodes r) d"
    and "wn_attempt n \<le> wst_max_attempts s" "node_transition_ok s (bt_get (wr_nodes r) t) n"
  shows "is_ok (wf_node p i t n)"
  using assms unfolding is_ok_iff
  by (auto simp: wf_node_def running_workflow_Inr Let_def list_ex_iff simp del: node_transition_ok.simps)

lemma end_accepted:
  assumes "bt_get (wp_runs p) i = Some r" "wr_state r = WfRunning"
    and "result = RunCompleted \<and> wr_completed r = length (wd_steps (wr_definition r)) \<or> result = RunFailed"
  shows "is_ok (wf_end p time i result (wr_completed r))"
  using assms unfolding is_ok_iff by (auto simp: wf_end_def settlement_matches_def)

text \<open>A run stands under an id that its start was checked for.\<close>

lemma apply_keeps_ids:
  assumes "workflow_apply p time c = Inr p'" "bt_inv (wp_runs p)" "bt_get (wp_runs p') i \<noteq> None"
  shows "bt_get (wp_runs p) i \<noteq> None \<or> workflow_run_id c = Some i"
  using assms
  by (cases c)
    (auto simp: wf_job_def wf_agent_def wf_saved_def wf_node_def wf_start_def wf_progress_def
      wf_checkpoint_def wf_resume_def wf_end_def put_run_def Let_def split: if_splits)

lemma run_ids_valid:
  "project_workflows ext es = Inr p \<Longrightarrow> bt_get (wp_runs p) i = Some r \<Longrightarrow>
   valid_opaque_id i max_workflow_id_bytes"
proof (induction es arbitrary: p r rule: rev_induct)
  case Nil
  then show ?case by (auto simp: project_workflows_def workflow_default_def)
next
  case (snoc e es)
  from snoc.prems(1) obtain q where q: "project_workflows ext es = Inr q" "workflow_event ext q e = Inr p"
    by (auto simp: project_workflows_def try_fold_append split: sum.splits)
  show ?case
  proof (cases "bt_get (wp_runs q) i")
    case (Some r')
    then show ?thesis using snoc.IH [OF q(1)] by blast
  next
    case None
    then have "p \<noteq> q" using snoc.prems(2) by auto
    with q(2) obtain c where c: "workflow_validate_shape ext c = Inr ()" "workflow_apply q (ev_time e) c = Inr p"
      by (auto simp: workflow_event_def split: session_event_kind.splits)
    have "bt_inv (wp_runs q)"
      using q(1) workflows.good_replay workflow_okD(1) unfolding project_workflows_def by blast
    from apply_keeps_ids [OF c(2) this, of i] None snoc.prems(2) have "workflow_run_id c = Some i" by simp
    with workflow_shape_run [OF c(1)] show ?thesis by blast
  qed
qed

section \<open>What a log may go on with\<close>

definition log_takes :: "workflow_ext \<Rightarrow> session_event list \<Rightarrow> workflow_change \<Rightarrow> bool" where
  "log_takes ext es change \<longleftrightarrow>
     (\<forall>e. ev_kind e = WorkflowChange change \<longrightarrow> is_ok (project_workflows ext (es @ [e])))"

definition log_refuses :: "workflow_ext \<Rightarrow> session_event list \<Rightarrow> workflow_change \<Rightarrow> bool" where
  "log_refuses ext es change \<longleftrightarrow>
     (\<forall>e. ev_kind e = WorkflowChange change \<longrightarrow> \<not> is_ok (project_workflows ext (es @ [e])))"

lemma log_takesI:
  assumes "project_workflows ext es = Inr p" "workflow_validate_shape ext change = Inr ()"
    and "\<And>time. is_ok (workflow_apply p time change)"
  shows "log_takes ext es change"
  using assms
  by (auto simp: log_takes_def project_workflows_def try_fold_append workflow_event_def is_ok_iff)

lemma log_refusesI:
  assumes "project_workflows ext es = Inr p" "\<And>time. \<not> is_ok (workflow_apply p time change)"
  shows "log_refuses ext es change"
  using assms
  by (auto simp: log_refuses_def project_workflows_def try_fold_append workflow_event_def is_ok_iff)

lemma take_node:
  assumes es: "project_workflows ext es = Inr p" "bt_get (wp_runs p) i = Some r" "wr_state r = WfRunning"
    and graph: "is_graph (wr_definition r)" "definition_validate ext (wr_definition r) = Inr ()"
    and s: "find_step (wr_definition r) t = Some s" "\<forall>d \<in> set (wst_depends_on s). settled_in (wr_nodes r) d"
    and n: "validate_workflow_json ext (wn_value n) = Inr ()" "1 \<le> wn_attempt n"
      "wn_attempt n \<le> wst_max_attempts s" "node_transition_ok s (bt_get (wr_nodes r) t) n"
  shows "log_takes ext es (WorkflowNode workflow_change_version i t n)"
proof (rule log_takesI [OF es(1)])
  have step: "s \<in> set (wd_steps (wr_definition r))" "wst_id s = t" using find_step_Some [OF s(1)] by blast+
  have "valid_opaque_id t max_workflow_step_id_bytes" "wst_max_attempts s \<le> 5"
    using definition_validateD(2) [OF graph(2) step(1)] step(2) by (auto simp: step_validate_def)
  then show "workflow_validate_shape ext (WorkflowNode workflow_change_version i t n) = Inr ()"
    using run_ids_valid [OF es(1,2)] n(1-3) by (simp add: workflow_validate_shape_def run_id_validate_def)
  show "is_ok (workflow_apply p time (WorkflowNode workflow_change_version i t n))" for time
    using node_accepted [OF es(2,3) graph(1) s n(3,4)] by simp
qed

lemma take_end:
  assumes es: "project_workflows ext es = Inr p" "bt_get (wp_runs p) i = Some r" "wr_state r = WfRunning"
    and result: "result = RunCompleted \<and> message = None \<and> wr_completed r = length (wd_steps (wr_definition r))
      \<or> result = RunFailed \<and> (\<exists>why. message = Some why \<and> valid_text why max_workflow_description_bytes)"
  shows "log_takes ext es (WorkflowEnd workflow_change_version i result (wr_completed r) message)"
proof (rule log_takesI [OF es(1)])
  show "workflow_validate_shape ext (WorkflowEnd workflow_change_version i result (wr_completed r) message) = Inr ()"
    using run_ids_valid [OF es(1,2)] result
    by (auto simp: workflow_validate_shape_def run_id_validate_def settlement_coherent_def)
  show "is_ok (workflow_apply p time (WorkflowEnd workflow_change_version i result (wr_completed r) message))" for time
    using end_accepted [OF es(2,3), of result time] result by auto
qed

text \<open>A failed node that may not be tried again takes no further change.\<close>

lemma node_exhausted:
  assumes "project_workflows ext es = Inr p" "bt_get (wp_runs p) i = Some r"
    and "find_step (wr_definition r) t = Some s" "bt_get (wr_nodes r) t = Some m" "wn_state m = NodeFailed"
    and "\<not> (wst_replay_safe s \<and> wn_attempt m < wst_max_attempts s)"
  shows "log_refuses ext es (WorkflowNode version i t n)"
  by (rule log_refusesI [OF assms(1)])
    (use assms(2-) in \<open>auto simp: wf_node_def running_workflow_Inr is_ok_iff Let_def
      split: workflow_node_state.splits\<close>)

end
