(* ===== verification/Workflow_Properties.thy ===== *)
theory Workflow_Properties
  imports Workflow_Laws Session_Properties
begin

text \<open>
  The properties of durable workflows: which graphs a definition may have, what a log that replays
  says about its runs, and what no later event can change.
\<close>

section \<open>A sample run\<close>

definition plain_workflow_ext :: workflow_ext where
  "plain_workflow_ext = \<lparr>we_len = \<lambda>_. Some 1, we_infinite = \<lambda>_. False\<rparr>"

lemma plain_workflow_ext [simp]:
  "we_len plain_workflow_ext j = Some 1" "\<not> we_infinite plain_workflow_ext t"
  by (simp_all add: plain_workflow_ext_def)

definition workflow_sample :: workflow_definition where
  "workflow_sample =
     \<lparr>wd_title = None, wd_phases = [], wd_version = 2, wd_name = ''w'', wd_description = ''go'',
      wd_capabilities = [CapProgress, CapAgent],
      wd_steps =
        [\<lparr>wst_phase = None, wst_id = ''b'', wst_label = ''b'', wst_action = ActEmit JNull,
          wst_depends_on = [''a''], wst_when = None, wst_max_attempts = 1, wst_replay_safe = False\<rparr>,
         \<lparr>wst_phase = None, wst_id = ''a'', wst_label = ''a'', wst_action = ActAgent (JString ''go''),
          wst_depends_on = [], wst_when = None, wst_max_attempts = 1, wst_replay_safe = False\<rparr>],
      wd_max_parallel = 4\<rparr>"

definition node_event :: "nat \<Rightarrow> string \<Rightarrow> workflow_node_state \<Rightarrow> session_event" where
  "node_event seq step st =
     sample_event seq (WorkflowChange (WorkflowNode 1 ''r'' step
       \<lparr>wn_attempt = 1, wn_state = st, wn_value = JNull\<rparr>))"

definition workflow_log :: "session_event list" where
  "workflow_log =
     [sample_event 0 (WorkflowChange (WorkflowStart 1 ''r'' workflow_sample)),
      node_event 1 ''a'' NodeStarted,
      node_event 2 ''a'' NodeCompleted]"

lemmas definition_eval =
  definition_validate_def presentation_validate_def header_validate_def links_validate_def
  step_validate_def phase_declared_def prompt_ok_def set_insert_def ref_key_def ready_loop.simps
  ready_pass_def ready_step_def

lemmas workflow_eval =
  is_graph_def validate_workflow_json_def
  max_workflow_steps_def max_workflow_step_id_bytes_def max_workflow_step_label_bytes_def
  max_workflow_name_bytes_def max_workflow_description_bytes_def max_workflow_id_bytes_def
  max_workflow_json_depth_def max_workflow_json_nodes_def max_workflow_json_bytes_def
  workflow_change_version_def valid_opaque_id_def opaque_id_byte_def is_ascii_alphanumeric_def
  is_ascii_digit_def is_ascii_lowercase_def is_ascii_uppercase_def plain_text_ok plain_is_blank
  plain_eval map_eval Let_def

lemma workflow_sample_valid: "definition_validate plain_workflow_ext workflow_sample = Inr ()"
  by (simp add: workflow_sample_def definition_eval workflow_eval)

lemmas run_eval =
  project_workflows_def workflow_event_def workflow_validate_shape_def run_id_validate_def
  workflow_sample_valid wf_start_def wf_node_def running_workflow_def find_step_def put_run_def
  workflow_default_def fresh_run_def settled_in_def node_settled_def settled_count_def
  sample_event_def node_event_def

text \<open>The run after a log of the sample; the second step is ready.\<close>

definition sample_run :: workflow_run where
  "sample_run = (fresh_run workflow_sample)
     \<lparr>wr_attempt_activity := True,
      wr_nodes := [(''a'', \<lparr>wn_attempt = 1, wn_state = NodeCompleted, wn_value = JNull\<rparr>)],
      wr_completed := 1, wr_checkpoint := Some JNull\<rparr>"

lemma workflow_log_replays:
  "project_workflows plain_workflow_ext workflow_log =
     Inr \<lparr>wp_runs = [(''r'', sample_run)], wp_definitions = []\<rparr>"
  unfolding workflow_log_def sample_run_def
  by (simp add: run_eval workflow_eval, simp add: workflow_sample_def node_settled_def)

section \<open>Graphs\<close>

text \<open>
  C17: a definition is accepted exactly when its presentation, its header, its steps and their
  links pass their own checks and no step depends on itself, however indirectly: the readiness
  loop refuses the cyclic graphs and no other.
\<close>

theorem workflow_graph_check_exact:
  "definition_validate ext d = Inr () \<longleftrightarrow>
     presentation_validate d = Inr () \<and> header_validate d = Inr ()
     \<and> (\<exists>ids. steps_distinct ext (wd_capabilities d) bt_empty (wd_steps d) = Inr ids
          \<and> list_all (\<lambda>s. links_validate d ids s = Inr ()) (wd_steps d))
     \<and> acyclic (dep_edges (step_deps (wd_steps d)))"
proof -
  have "ready_loop (wd_steps d) [] = Inr () \<longleftrightarrow> acyclic (dep_edges (step_deps (wd_steps d)))"
    if "steps_distinct ext (wd_capabilities d) bt_empty (wd_steps d) = Inr ids"
      "\<forall>s \<in> set (wd_steps d). links_validate d ids s = Inr ()" for ids
    using steps_linked [OF that] by (intro ready_loop_exact)
  then show ?thesis by (auto simp: definition_validate_def list_all_iff)
qed

section \<open>Runs\<close>

text \<open>
  Every run of a log that replays is well formed. No more steps are complete than the
  definition has, and a completed graph run has settled every one; a node that was attempted is a
  step whose dependencies are all settled, within its attempts and beyond the first only when
  it may be replayed; a native task belongs to an attempt of a node, and no attempt has two.
\<close>

theorem workflow_runs_well_formed:
  assumes "project_workflows ext es = Inr p" "bt_get (wp_runs p) i = Some r"
  shows "definition_validate ext (wr_definition r) = Inr ()
    \<and> wr_completed r \<le> length (wd_steps (wr_definition r))
    \<and> (wr_state r = WfCompleted \<and> is_graph (wr_definition r) \<longrightarrow>
         (\<forall>s \<in> set (wd_steps (wr_definition r)). settled_in (wr_nodes r) (wst_id s)))
    \<and> (\<forall>k n. bt_get (wr_nodes r) k = Some n \<longrightarrow>
         (\<exists>s. find_step (wr_definition r) k = Some s \<and> 1 \<le> wn_attempt n \<and> wn_attempt n \<le> wst_max_attempts s
            \<and> (1 < wn_attempt n \<longrightarrow> wst_replay_safe s)
            \<and> (\<forall>dep \<in> set (wst_depends_on s). settled_in (wr_nodes r) dep)))
    \<and> (\<forall>t a. bt_get (wr_agents r) t = Some a \<longrightarrow>
         (\<exists>n. bt_get (wr_nodes r) (war_node_id a) = Some n \<and> war_node_attempt a \<le> wn_attempt n)
         \<and> (\<forall>u b. bt_get (wr_agents r) u = Some b \<and> same_attempt a b \<longrightarrow> u = t))"
proof -
  have ok: "wf_run_ok ext r"
    using assms workflows.good_replay workflow_okD(2) unfolding project_workflows_def by blast
  then show ?thesis
    using all_settled [OF ok] unfolding wf_run_ok_def wf_node_ok_def wf_agents_ok_def by blast
qed

theorem workflow_runs_well_formed_witness:
  "wr_completed sample_run \<le> length (wd_steps (wr_definition sample_run))"
  using workflow_runs_well_formed [OF workflow_log_replays, of "''r''" sample_run] by (simp add: map_eval)

text \<open>
  C6: what a run has settled, no later event of the log changes. The run keeps its definition,
  the result of every settled node, its coordinators and its native tasks, whose identities and
  prompts never change; after the run has completed, failed or been cancelled, only observations
  of its tasks are still recorded.
\<close>

theorem workflow_results_are_final:
  assumes "project_workflows ext es = Inr p" "project_workflows ext (es @ es') = Inr p'"
    and "bt_get (wp_runs p) i = Some r"
  shows "\<exists>r'. bt_get (wp_runs p') i = Some r'
    \<and> wr_definition r' = wr_definition r \<and> wr_completed r \<le> wr_completed r'
    \<and> (\<forall>k. settled_in (wr_nodes r) k \<longrightarrow> bt_get (wr_nodes r') k = bt_get (wr_nodes r) k)
    \<and> (\<forall>k j. bt_get (wr_jobs r) k = Some j \<longrightarrow>
         (\<exists>j'. bt_get (wr_jobs r') k = Some j' \<and> wj_job_id j' = wj_job_id j
            \<and> (wj_outcome j \<noteq> None \<longrightarrow> j' = j)))
    \<and> (\<forall>t a. bt_get (wr_agents r) t = Some a \<longrightarrow>
         (\<exists>b. bt_get (wr_agents r') t = Some b \<and> same_attempt a b \<and> war_prompt b = war_prompt a
            \<and> keeps_known (war_session_id a) (war_session_id b)))
    \<and> (terminal (wr_state r) \<longrightarrow> r' = r\<lparr>wr_agents := wr_agents r'\<rparr>)"
proof -
  have "try_fold (workflow_event ext) p es' = Inr p'"
    using assms(1,2) by (simp add: project_workflows_def try_fold_append)
  moreover have "workflow_ok ext p"
    using assms(1) workflows.good_replay unfolding project_workflows_def by blast
  ultimately have "runs_extend p p'" using workflows_extend by blast
  with assms(3) obtain r' where r': "bt_get (wp_runs p') i = Some r'" "run_extends r r'"
    unfolding runs_extend_def by blast
  have "\<exists>j'. bt_get (wr_jobs r') k = Some j' \<and> wj_job_id j' = wj_job_id j \<and> (wj_outcome j \<noteq> None \<longrightarrow> j' = j)"
    if "bt_get (wr_jobs r) k = Some j" for k j
    using r'(2) that unfolding run_extends_def job_extends_def by blast
  moreover have "\<exists>b. bt_get (wr_agents r') t = Some b \<and> same_attempt a b \<and> war_prompt b = war_prompt a
      \<and> keeps_known (war_session_id a) (war_session_id b)"
    if "bt_get (wr_agents r) t = Some a" for t a
    using r'(2) that unfolding run_extends_def agent_extends_def by blast
  ultimately show ?thesis using r' unfolding run_extends_def by blast
qed

theorem workflow_results_are_final_witness:
  "\<exists>r'. bt_get [(''r'', sample_run)] ''r'' = Some r' \<and> wr_definition r' = workflow_sample"
proof -
  have start: "project_workflows plain_workflow_ext (take 1 workflow_log) =
      Inr \<lparr>wp_runs = [(''r'', fresh_run workflow_sample)], wp_definitions = []\<rparr>"
    unfolding workflow_log_def by (simp add: run_eval workflow_eval)
  have log: "project_workflows plain_workflow_ext (take 1 workflow_log @ drop 1 workflow_log) =
      Inr \<lparr>wp_runs = [(''r'', sample_run)], wp_definitions = []\<rparr>"
    using workflow_log_replays by simp
  from workflow_results_are_final [OF start log, of "''r''" "fresh_run workflow_sample"] show ?thesis
    by (simp add: fresh_run_def bt_get_def)
qed

text \<open>
  C10: effects run at most once unless the author said otherwise. The attempts that a log starts
  for one node of a run are numbered 1, 2, 3 and so on without a gap, there are never more than
  the step allows, and a step that is not declared safe to replay is started at most once.
\<close>

theorem node_attempts_bounded:
  assumes "project_workflows ext es = Inr p" "bt_get (wp_runs p) i = Some r"
    and "find_step (wr_definition r) t = Some s"
  shows "started_attempts i t es = [1..<Suc (length (started_attempts i t es))]
    \<and> length (started_attempts i t es) \<le> wst_max_attempts s
    \<and> (wst_replay_safe s \<or> length (started_attempts i t es) \<le> 1)"
proof -
  have ok: "wf_run_ok ext r"
    using assms(1,2) workflows.good_replay workflow_okD(2) unfolding project_workflows_def by blast
  have starts: "started_attempts i t es = [1..<Suc (attempts_made p i t)]"
    using attempts_sequential [OF assms(1)] by blast
  have "1 \<le> wst_max_attempts s"
    using definition_validateD(2) [OF wf_run_okD(1) [OF ok], of s] find_step_Some [OF assms(3)]
    by (simp add: step_validate_def)
  then have "attempts_made p i t \<le> wst_max_attempts s \<and> (wst_replay_safe s \<or> attempts_made p i t \<le> 1)"
  proof (cases "bt_get (wr_nodes r) t")
    case None
    then show ?thesis using assms(2) by (simp add: attempts_made_def nodes_of_def)
  next
    case (Some n)
    with wf_run_okD(5) [OF ok Some] assms(2,3) \<open>1 \<le> wst_max_attempts s\<close> show ?thesis
      by (auto simp: attempts_made_def nodes_of_def wf_node_ok_def)
  qed
  moreover have "length (started_attempts i t es) = attempts_made p i t"
    unfolding starts by (simp only: length_upt)
  ultimately show ?thesis using starts by (simp only: simp_thms)
qed

theorem node_attempts_bounded_witness: "length (started_attempts ''r'' ''a'' workflow_log) \<le> 1"
  using node_attempts_bounded [OF workflow_log_replays, of "''r''" sample_run "''a''"]
  by (simp add: find_step_def sample_run_def fresh_run_def workflow_sample_def map_eval)

text \<open>
  C19: a running graph never deadlocks. Either every node is settled and the log may go on with the
  completion of the run. Or some unsettled node has all its dependencies settled, and the log may go
  on at that node: with its start when it is new; with its result, or its failure, when it has
  started; with its next attempt when it failed, may be replayed and has attempts left. A node that
  failed for good takes no further change, and the log may go on with the failure of the run. Here
  the log goes on with a change when it still replays with that change at its end, checks of its
  shape included, at any time; the values and the message of the change are any that pass their own
  validation.
\<close>

theorem workflow_runs_progress:
  assumes "project_workflows ext es = Inr p" "bt_get (wp_runs p) i = Some r"
    and "wr_state r = WfRunning" "is_graph (wr_definition r)"
    and "validate_workflow_json ext v = Inr ()" "valid_text why max_workflow_description_bytes"
  shows "(\<forall>s \<in> set (wd_steps (wr_definition r)). settled_in (wr_nodes r) (wst_id s))
      \<and> log_takes ext es (WorkflowEnd workflow_change_version i RunCompleted (wr_completed r) None)
    \<or> (\<exists>s \<in> set (wd_steps (wr_definition r)).
        \<not> settled_in (wr_nodes r) (wst_id s)
        \<and> (\<forall>d \<in> set (wst_depends_on s). settled_in (wr_nodes r) d)
        \<and> (case bt_get (wr_nodes r) (wst_id s) of
             None \<Rightarrow> log_takes ext es (WorkflowNode workflow_change_version i (wst_id s)
               \<lparr>wn_attempt = 1, wn_state = NodeStarted, wn_value = v\<rparr>)
           | Some n \<Rightarrow>
               wn_state n = NodeStarted
               \<and> log_takes ext es (WorkflowNode workflow_change_version i (wst_id s)
                   (n\<lparr>wn_state := NodeCompleted, wn_value := v\<rparr>))
               \<and> log_takes ext es (WorkflowNode workflow_change_version i (wst_id s)
                   (n\<lparr>wn_state := NodeFailed, wn_value := v\<rparr>))
               \<or> wn_state n = NodeFailed
               \<and> (if wst_replay_safe s \<and> wn_attempt n < wst_max_attempts s
                  then log_takes ext es (WorkflowNode workflow_change_version i (wst_id s)
                    \<lparr>wn_attempt = wn_attempt n + 1, wn_state = NodeStarted, wn_value = v\<rparr>)
                  else (\<forall>version n'. log_refuses ext es (WorkflowNode version i (wst_id s) n'))
                    \<and> log_takes ext es
                        (WorkflowEnd workflow_change_version i RunFailed (wr_completed r) (Some why)))))"
  (is "?done \<or> (\<exists>s \<in> _. _ s \<and> _ s \<and> ?node s)")
proof -
  have ok: "wf_run_ok ext r"
    using assms(1,2) workflows.good_replay workflow_okD(2) unfolding project_workflows_def by blast
  note graph = assms(4) wf_run_okD(1) [OF ok]
  show ?thesis
  proof (cases "\<exists>s \<in> set (wd_steps (wr_definition r)). \<not> settled_in (wr_nodes r) (wst_id s)")
    case False
    then have "wr_completed r = length (wd_steps (wr_definition r))"
      by (rule completed_when_settled [OF ok assms(4)])
    with take_end [OF assms(1-3), of RunCompleted None] False show ?thesis by blast
  next
    case True
    then obtain u where u: "u \<in> set (wd_steps (wr_definition r))" "\<not> settled_in (wr_nodes r) (wst_id u)"
      "find_step (wr_definition r) (wst_id u) = Some u" "\<forall>d \<in> set (wst_depends_on u). settled_in (wr_nodes r) d"
      using run_ready [OF ok] by blast
    note takes = take_node [OF assms(1-3) graph u(3,4)]
    have first: "1 \<le> wst_max_attempts u"
      using definition_validateD(2) [OF graph(2) u(1)] by (simp add: step_validate_def)
    have fails: "log_takes ext es (WorkflowEnd workflow_change_version i RunFailed (wr_completed r) (Some why))"
      using take_end [OF assms(1-3), of RunFailed "Some why"] assms(6) by blast
    show ?thesis
    proof (cases "bt_get (wr_nodes r) (wst_id u)")
      case None
      have "log_takes ext es (WorkflowNode workflow_change_version i (wst_id u)
          \<lparr>wn_attempt = 1, wn_state = NodeStarted, wn_value = v\<rparr>)"
        by (rule takes) (use None first assms(5) in simp_all)
      with u None show ?thesis by (intro disjI2 bexI [of _ u] conjI) simp_all
    next
      case (Some n)
      have bounds: "1 \<le> wn_attempt n" "wn_attempt n \<le> wst_max_attempts u"
        using wf_run_okD(5) [OF ok Some] u(3) by (auto simp: wf_node_ok_def)
      have state: "wn_state n = NodeStarted \<or> wn_state n = NodeFailed"
        using u(2) Some by (cases "wn_state n") (auto simp: settled_in_def node_settled_def)
      have started: "wn_state n = NodeStarted \<Longrightarrow> log_takes ext es (WorkflowNode workflow_change_version i (wst_id u)
          (n\<lparr>wn_state := k, wn_value := v\<rparr>))" if "k = NodeCompleted \<or> k = NodeFailed" for k
        by (rule takes) (use that Some bounds assms(5) in auto)
      have retried: "wn_state n = NodeFailed \<Longrightarrow> wst_replay_safe u \<and> wn_attempt n < wst_max_attempts u \<Longrightarrow>
          log_takes ext es (WorkflowNode workflow_change_version i (wst_id u)
            \<lparr>wn_attempt = wn_attempt n + 1, wn_state = NodeStarted, wn_value = v\<rparr>)"
        by (rule takes) (use Some bounds assms(5) in auto)
      note stuck = node_exhausted [OF assms(1,2) u(3) Some]
      have "?node u"
      proof (cases "wn_state n = NodeStarted")
        case True
        with started show ?thesis by (simp add: Some)
      next
        case False
        with state have failed: "wn_state n = NodeFailed" by blast
        show ?thesis
        proof (cases "wst_replay_safe u \<and> wn_attempt n < wst_max_attempts u")
          case True
          with failed retried show ?thesis by (simp add: Some)
        next
          case False
          with failed stuck fails show ?thesis by (auto simp: Some)
        qed
      qed
      with u show ?thesis by blast
    qed
  qed
qed

theorem workflow_runs_progress_witness:
  "log_takes plain_workflow_ext workflow_log (WorkflowNode workflow_change_version ''r'' ''b''
     \<lparr>wn_attempt = 1, wn_state = NodeStarted, wn_value = JNull\<rparr>)"
proof -
  have v: "validate_workflow_json plain_workflow_ext JNull = Inr ()" "valid_text ''no'' max_workflow_description_bytes"
    by (simp_all add: workflow_eval)
  show ?thesis
    using workflow_runs_progress [OF workflow_log_replays, of "''r''" sample_run JNull "''no''"] v
    by (auto simp: sample_run_def fresh_run_def workflow_sample_def is_graph_def settled_in_def
        node_settled_def map_eval)
qed

end
