(* ===== verification/Schedule_Projection.thy ===== *)
theory Schedule_Projection
  imports Session_Event Replay
begin

text \<open>
  The replay of schedules (\<open>project_schedules\<close> in
  \<open>heycode-session/src/orchestration.rs\<close>): which schedules are live, which of them own a timer,
  and how a dispatch is tied to the inbox message that delivered it.
\<close>

section \<open>State\<close>

text \<open>
  The fields of \<open>ScheduleProjection\<close> and the two locals of the fold: the enqueues by message,
  and the messages dispatched so far.
\<close>

record schedule_fold =
  sf_active :: "(string, schedule_record) btree_map"
  sf_armed :: "string btree_set"
  sf_seen :: "string btree_set"
  sf_counts :: "(string, nat) btree_map"
  sf_enqueues :: "(string, string \<times> int) btree_map"
  sf_dispatched :: "string btree_set"

definition schedule_default :: schedule_fold where
  "schedule_default =
     \<lparr>sf_active = bt_empty, sf_armed = bt_empty, sf_seen = bt_empty, sf_counts = bt_empty,
      sf_enqueues = bt_empty, sf_dispatched = bt_empty\<rparr>"

definition dispatch_count :: "schedule_fold \<Rightarrow> string \<Rightarrow> nat" where
  "dispatch_count s i = (case bt_get (sf_counts s) i of None \<Rightarrow> 0 | Some n \<Rightarrow> n)"

section \<open>Operations\<close>

definition note_enqueue :: "schedule_fold \<Rightarrow> inbox_message \<Rightarrow> schedule_error + schedule_fold" where
  "note_enqueue s m =
     (case im_source m of
        SourceSchedule i occurrence \<Rightarrow>
          and_then
            (refuse_if (bt_contains (sf_enqueues s) (im_id m))
               (ScheduleInvalid ''schedule enqueue identity was reused''))
            (\<lambda>_. Inr (s\<lparr>sf_enqueues := bt_insert (im_id m) (i, occurrence) (sf_enqueues s)\<rparr>))
      | _ \<Rightarrow> Inr s)"

definition schedule_create :: "schedule_fold \<Rightarrow> nat \<Rightarrow> schedule_record \<Rightarrow> schedule_error + schedule_fold" where
  "schedule_create s version r =
     and_then
       (refuse_if (bt_contains (sf_seen s) (sch_id r)) (ScheduleInvalid ''schedule id was reused''))
       (\<lambda>_.
     and_then
       (refuse_if (version = schedule_change_version \<and> max_active_schedules \<le> length (sf_active s))
          (ScheduleInvalid ''active schedule limit exceeded''))
       (\<lambda>_.
       Inr (s\<lparr>sf_seen := bt_insert (sch_id r) () (sf_seen s),
              sf_armed := bt_insert (sch_id r) () (sf_armed s),
              sf_active := bt_insert (sch_id r) r (sf_active s)\<rparr>)))"

definition schedule_delete :: "schedule_fold \<Rightarrow> string \<Rightarrow> schedule_error + schedule_fold" where
  "schedule_delete s i =
     and_then
       (refuse_if (\<not> bt_contains (sf_active s) i)
          (ScheduleInvalid ''schedule delete targets an inactive id''))
       (\<lambda>_. Inr (s\<lparr>sf_active := bt_remove i (sf_active s), sf_armed := bt_remove i (sf_armed s)\<rparr>))"

text \<open>The next target of a fixed-rate schedule: aligned to the old one and after \<open>accepted\<close>.\<close>

definition every_target :: "nat \<Rightarrow> int \<Rightarrow> int \<Rightarrow> schedule_error + int" where
  "every_target every scheduled accepted =
     (let elapsed = saturate_i64 (accepted - scheduled) in
      and_then
        (refuse_if (elapsed < 0) (ScheduleInvalid ''schedule recurrence arithmetic is invalid'')) (\<lambda>_.
      and_then
        (ok_or (ScheduleInvalid ''schedule recurrence arithmetic overflowed'')
           (if every = 0 then None else checked_add_u64 (nat elapsed div every) 1)) (\<lambda>intervals.
      and_then
        (ok_or (ScheduleInvalid ''schedule recurrence arithmetic overflowed'')
           (if intervals * every \<le> u64_max then Some (intervals * every) else None)) (\<lambda>advance.
      and_then
        (ok_or (ScheduleInvalid ''schedule recurrence target overflowed'') (checked_i64 (int advance)))
        (\<lambda>a.
        ok_or (ScheduleInvalid ''schedule recurrence target overflowed'')
          (checked_i64 (scheduled + a)))))))"

definition expired :: "schedule_record \<Rightarrow> int \<Rightarrow> bool" where
  "expired r t \<longleftrightarrow> (case sch_expires_at r of None \<Rightarrow> False | Some expiry \<Rightarrow> expiry \<le> t)"

definition retire_schedule :: "schedule_fold \<Rightarrow> string \<Rightarrow> schedule_fold" where
  "retire_schedule s i = s\<lparr>sf_active := bt_remove i (sf_active s)\<rparr>"

definition rearm :: "schedule_fold \<Rightarrow> string \<Rightarrow> schedule_record \<Rightarrow> schedule_fold" where
  "rearm s i r =
     s\<lparr>sf_active := bt_insert i r (sf_active s), sf_armed := bt_insert i () (sf_armed s)\<rparr>"

text \<open>What a dispatch does to the record, once it is accepted and the timer is gone.\<close>

definition after_dispatch ::
  "cron_ext \<Rightarrow> schedule_fold \<Rightarrow> string \<Rightarrow> schedule_record \<Rightarrow> int \<Rightarrow> schedule_error + schedule_fold" where
  "after_dispatch ext s i r accepted =
     (case sch_rule r of
        RuleAfter delay \<Rightarrow> Inr (retire_schedule s i)
      | RuleAt \<Rightarrow> Inr (retire_schedule s i)
      | RuleEvery every \<Rightarrow>
          and_then (every_target every (sch_scheduled_at r) accepted) (\<lambda>t.
            Inr (rearm s i (r\<lparr>sch_scheduled_at := t\<rparr>)))
      | RuleCron expression recurring zone \<Rightarrow>
          if \<not> recurring \<or> expired r accepted then Inr (retire_schedule s i)
          else and_then (cron_parse expression) (\<lambda>spec.
               and_then (next_cron_target ext i spec accepted True) (\<lambda>(t, jitter).
                 Inr (rearm s i (r\<lparr>sch_scheduled_at := t, sch_jitter := jitter\<rparr>))))
      | RuleWakeup delay \<Rightarrow> Inr (if expired r accepted then retire_schedule s i else s))"

definition schedule_dispatch ::
  "cron_ext \<Rightarrow> schedule_fold \<Rightarrow> string \<Rightarrow> int \<Rightarrow> string \<Rightarrow> schedule_error + schedule_fold" where
  "schedule_dispatch ext s i accepted message =
     and_then
       (refuse_if (bt_contains (sf_dispatched s) message)
          (ScheduleInvalid ''schedule inbox message was dispatched twice'')) (\<lambda>_.
     and_then
       (ok_or (ScheduleInvalid ''schedule dispatch lacks a prior inbox enqueue'')
          (bt_get (sf_enqueues s) message)) (\<lambda>(enqueued_id, occurrence).
     and_then
       (ok_or (ScheduleInvalid ''schedule dispatch targets an inactive id'') (bt_get (sf_active s) i))
       (\<lambda>r.
     and_then
       (refuse_if
          (enqueued_id \<noteq> i \<or> occurrence \<noteq> sch_scheduled_at r \<or> accepted < sch_scheduled_at r
           \<or> \<not> bt_contains (sf_armed s) i)
          (ScheduleInvalid ''schedule dispatch correlation is stale'')) (\<lambda>_.
       after_dispatch ext
         (s\<lparr>sf_dispatched := bt_insert message () (sf_dispatched s),
            sf_armed := bt_remove i (sf_armed s),
            sf_counts := bt_insert i (saturating_add_u64 (dispatch_count s i) 1) (sf_counts s)\<rparr>)
         i r accepted))))"

definition schedule_reschedule ::
  "schedule_fold \<Rightarrow> int \<Rightarrow> string \<Rightarrow> nat \<Rightarrow> int \<Rightarrow> schedule_error + schedule_fold" where
  "schedule_reschedule s time i delay scheduled =
     and_then
       (ok_or (ScheduleInvalid ''schedule reschedule targets an inactive id'') (bt_get (sf_active s) i))
       (\<lambda>r.
     and_then
       (refuse_if (\<not> is_wakeup r \<or> scheduled \<le> time \<or> expired r time)
          (ScheduleInvalid ''schedule reschedule targets an ineligible wakeup''))
       (\<lambda>_. Inr (rearm s i (r\<lparr>sch_scheduled_at := scheduled, sch_rule := RuleWakeup delay\<rparr>))))"

section \<open>The fold\<close>

fun schedule_apply ::
  "cron_ext \<Rightarrow> schedule_fold \<Rightarrow> int \<Rightarrow> schedule_change \<Rightarrow> schedule_error + schedule_fold" where
  "schedule_apply ext s time (ScheduleCreate version r) = schedule_create s version r"
| "schedule_apply ext s time (ScheduleDelete version i) = schedule_delete s i"
| "schedule_apply ext s time (ScheduleDispatch version i accepted message) =
     schedule_dispatch ext s i accepted message"
| "schedule_apply ext s time (ScheduleReschedule version i delay scheduled) =
     schedule_reschedule s time i delay scheduled"

definition schedule_event ::
  "cron_ext \<Rightarrow> schedule_fold \<Rightarrow> session_event \<Rightarrow> schedule_error + schedule_fold" where
  "schedule_event ext s e =
     (case ev_kind e of
        AgentInboxSplice sp \<Rightarrow> try_fold note_enqueue s (sp_inserted sp)
      | ScheduleChange change \<Rightarrow>
          and_then (schedule_validate_shape ext change) (\<lambda>_. schedule_apply ext s (ev_time e) change)
      | _ \<Rightarrow> Inr s)"

definition project_schedules ::
  "cron_ext \<Rightarrow> nat \<Rightarrow> session_event list \<Rightarrow> schedule_error + schedule_fold" where
  "project_schedules ext local_start es =
     try_fold (schedule_event ext) schedule_default (filter (\<lambda>e. local_start \<le> ev_seq e) es)"

section \<open>Targets move forward\<close>

text \<open>A fixed-rate target is the first one after \<open>accepted\<close> in the grid of the old target.\<close>

lemma every_target_Inr:
  assumes "every_target every scheduled accepted = Inr t" "scheduled \<le> accepted" "accepted - scheduled \<le> i64_max"
  shows "accepted < t \<and> t \<le> accepted + int every \<and> (t - scheduled) mod int every = 0 \<and> in_i64 t"
proof -
  have "saturate_i64 (accepted - scheduled) = accepted - scheduled"
    using assms(2,3) by (intro saturate_i64_id) (simp add: in_i64_def i64_min_def)
  with assms(1,2) have every: "0 < every"
    and t: "t = scheduled + int ((nat (accepted - scheduled) div every + 1) * every)" "in_i64 t"
    by (auto simp: every_target_def Let_def split: if_splits)
  define d where "d = accepted - scheduled"
  have d: "0 \<le> d" "d = int (nat d)" using assms(2) by (simp_all add: d_def)
  have t': "t = scheduled + (d div int every + 1) * int every"
    using t(1) d by (simp add: d_def zdiv_int algebra_simps)
  define q where "q = d div int every * int every"
  have "d = q + d mod int every" by (simp add: q_def)
  moreover have "0 \<le> d mod int every" "d mod int every < int every" using every by simp_all
  moreover have "t = scheduled + q + int every" by (simp add: t' q_def distrib_right)
  ultimately have "accepted < t" "t \<le> accepted + int every" unfolding d_def by linarith+
  moreover have "(t - scheduled) mod int every = 0" unfolding t' by simp
  ultimately show ?thesis using t(2) by blast
qed

text \<open>A cron target is an occurrence after the reference, shifted by the id's own jitter.\<close>

definition jitter_for :: "cron_ext \<Rightarrow> string \<Rightarrow> int \<Rightarrow> bool \<Rightarrow> int" where
  "jitter_for ext i bound recurring =
     (if recurring then deterministic_jitter (ce_sha256 ext) i bound
      else - deterministic_jitter (ce_sha256 ext) i bound)"

lemma cron_target_shape:
  assumes "cron_target_from ext i spec after recurring cursor = Inr (t, jitter)"
  shows "after < t \<and> in_i64 t
    \<and> (\<exists>c base bound. cursor \<le> c \<and> next_cron_base (ce_calendar ext) spec c = Inr base
         \<and> cron_jitter_bound (ce_calendar ext) spec base recurring = Inr bound
         \<and> jitter = jitter_for ext i bound recurring \<and> t = base + jitter)"
  using assms
proof (induction ext i spec after recurring cursor rule: cron_target_from.induct)
  case (1 ext i spec after recurring cursor)
  let ?cal = "ce_calendar ext"
  from "1.prems" obtain base bound where base: "next_cron_base ?cal spec cursor = Inr base"
    and bound: "cron_jitter_bound ?cal spec base recurring = Inr bound"
    and range: "in_i64 (base + jitter_for ext i bound recurring)"
    and rest: "(if after < base + jitter_for ext i bound recurring
        then Inr (base + jitter_for ext i bound recurring, jitter_for ext i bound recurring)
        else cron_target_from ext i spec after recurring base) = Inr (t, jitter)"
    unfolding cron_target_from.simps [of ext i spec after recurring cursor] Let_def jitter_for_def [symmetric]
    by auto
  show ?case
  proof (cases "after < base + jitter_for ext i bound recurring")
    case True
    with rest base bound range show ?thesis by auto
  next
    case False
    have "ok_or (ScheduleInvalid ''cron jitter arithmetic overflowed'')
        (checked_i64 (base + (if recurring then deterministic_jitter (ce_sha256 ext) i bound
           else - deterministic_jitter (ce_sha256 ext) i bound))) = Inr (base + jitter_for ext i bound recurring)"
      using range by (simp add: jitter_for_def)
    from "1.IH" [OF base bound refl refl this] False rest
    obtain c base' bound' where c: "after < t" "in_i64 t" "base \<le> c"
      and found: "next_cron_base ?cal spec c = Inr base'"
        "cron_jitter_bound ?cal spec base' recurring = Inr bound'"
        "jitter = jitter_for ext i bound' recurring" "t = base' + jitter" by auto
    from c(3) next_cron_base_after [OF base] have "cursor \<le> c" by simp
    with c(1,2) found show ?thesis by blast
  qed
qed

end
