(* ===== verification/Schedule_Laws.thy ===== *)
theory Schedule_Laws
  imports Schedule_Projection
begin

text \<open>
  Laws of schedules: what a parsed cron expression and its next occurrence are, the invariant of
  the replay, and what ties dispatches to the inbox. Two hypotheses describe chrono's time zone:
  \<open>zone_consistent\<close> and, for the earliest occurrence, \<open>zone_regular\<close>.
\<close>

section \<open>Parsed expressions\<close>

definition field_ok :: "cron_field \<Rightarrow> bool" where
  "field_ok f \<longleftrightarrow> bt_inv (cf_values f)"

lemma cron_fill_inv: "bt_inv acc \<Longrightarrow> bt_inv (cron_fill sunday_seven step upper v acc)"
proof (induction sunday_seven step upper v acc rule: cron_fill.induct)
  case (1 sunday_seven step upper v acc)
  let ?acc = "snd (set_insert (if sunday_seven \<and> v = 7 then 0 else v) acc)"
  have "bt_inv ?acc" using "1.prems" by (simp add: set_insert_def bt_inv_insert)
  show ?case
  proof (cases "step = 0 \<or> u32_max < v + step \<or> upper < v + step")
    case True
    then have "cron_fill sunday_seven step upper v acc = ?acc"
      unfolding cron_fill.simps [of sunday_seven step upper v acc] Let_def by (simp only: if_True)
    with \<open>bt_inv ?acc\<close> show ?thesis by (simp only:)
  next
    case False
    then have "cron_fill sunday_seven step upper v acc = cron_fill sunday_seven step upper (v + step) ?acc"
      unfolding cron_fill.simps [of sunday_seven step upper v acc] Let_def by (simp only: if_False)
    with "1.IH" [OF refl False \<open>bt_inv ?acc\<close>] show ?thesis by (simp only:)
  qed
qed

lemma cron_item_ok: "cron_item minimum maximum sunday_seven f item = Inr f' \<Longrightarrow> field_ok f \<Longrightarrow> field_ok f'"
  unfolding cron_item_def Let_def and_then_Inr case_prod_beta sum.inject
  by (elim exE conjE) (drule sym, simp add: field_ok_def cron_fill_inv)

lemma cron_field_ok: "cron_field_parse field minimum maximum sunday_seven = Inr f \<Longrightarrow> field_ok f"
proof -
  assume "cron_field_parse field minimum maximum sunday_seven = Inr f"
  then have "try_fold (cron_item minimum maximum sunday_seven) \<lparr>cf_values = bt_empty, cf_unrestricted = False\<rparr>
      (split_on (CHR '','') field) = Inr f"
    by (simp add: cron_field_parse_def)
  moreover have "field_ok \<lparr>cf_values = bt_empty, cf_unrestricted = False\<rparr>"
    by (simp add: field_ok_def bt_inv_def bt_empty_def)
  ultimately show ?thesis by (rule try_fold_inv) (rule cron_item_ok)
qed

lemma cron_parse_ok:
  assumes "cron_parse expression = Inr spec"
  shows "field_ok (cs_minute spec)" "field_ok (cs_hour spec)"
  using assms by (auto simp: cron_parse_def Let_def intro: cron_field_ok)

section \<open>The next occurrence\<close>

text \<open>An instant chrono gives for a wall-clock time is read back as that time, on a whole minute.\<close>

definition zone_consistent :: "calendar \<Rightarrow> bool" where
  "zone_consistent cal \<longleftrightarrow>
     (\<forall>date hm t. cron_candidate cal date hm = Some t \<longrightarrow>
        t mod 60000 = 0
        \<and> (\<exists>m. ca_local cal t = LocalSingle m \<and> lm_date m = date \<and> lm_hour m = fst hm
             \<and> lm_minute m = snd hm))"

lemma search_days_Inr:
  assumes "search_days cal spec after n date = Inr t"
  shows "\<exists>d hm. matches_date cal spec d \<and> hm \<in> set (day_times spec) \<and> cron_candidate cal d hm = Some t
    \<and> after < t"
  using assms
proof (induction n arbitrary: date)
  case 0
  then show ?case by simp
next
  case (Suc n)
  show ?case
  proof (cases "matches_date cal spec date \<and> day_target cal spec after date \<noteq> None")
    case True
    then obtain u where u: "day_target cal spec after date = Some u" by blast
    with True Suc.prems have "u = t" by simp
    from find_SomeD [OF u [unfolded day_target_def]] obtain hm where
      "hm \<in> set (day_times spec)" "cron_candidate cal date hm = Some u" "after < u"
      by (auto simp: List.map_filter_def)
    with True \<open>u = t\<close> show ?thesis by blast
  next
    case False
    with Suc.prems obtain d where "search_days cal spec after n d = Inr t"
      by (auto split: if_splits option.splits)
    from Suc.IH [OF this] show ?thesis .
  qed
qed

lemma next_base_matches:
  assumes zone: "zone_consistent cal" and spec: "field_ok (cs_minute spec)" "field_ok (cs_hour spec)"
    and base: "next_cron_base cal spec after = Inr t"
  shows "matches_timestamp cal spec t"
proof -
  from base obtain d hm where d: "matches_date cal spec d" "hm \<in> set (day_times spec)" "cron_candidate cal d hm = Some t"
    unfolding next_cron_base_def by (auto dest: search_days_Inr)
  with zone obtain m where m: "t mod 60000 = 0" "ca_local cal t = LocalSingle m" "lm_date m = d"
    "lm_hour m = fst hm" "lm_minute m = snd hm" unfolding zone_consistent_def by blast
  moreover have "bt_contains (cf_values (cs_hour spec)) (fst hm)" "bt_contains (cf_values (cs_minute spec)) (snd hm)"
    using d(2) spec by (auto simp: day_times_def field_ok_def bt_keys_iff)
  ultimately show ?thesis using d(1) by (simp add: matches_timestamp_def)
qed

text \<open>The order of the loops over hours and minutes.\<close>

definition clock_less :: "nat \<times> nat \<Rightarrow> nat \<times> nat \<Rightarrow> bool" where
  "clock_less a b \<longleftrightarrow> fst a < fst b \<or> (fst a = fst b \<and> snd a < snd b)"

text \<open>
  A zone without transitions in the way: days follow each other by number, wall-clock times are
  ordered as their instants are, an instant is the candidate of its own wall-clock time, and the
  local date never goes back.
\<close>

definition zone_regular :: "calendar \<Rightarrow> bool" where
  "zone_regular cal \<longleftrightarrow>
     (\<forall>d d'. ca_next_day cal d = Some d' \<longrightarrow> d' = d + 1)
     \<and> (\<forall>d hm t d' hm' t'. cron_candidate cal d hm = Some t \<longrightarrow> cron_candidate cal d' hm' = Some t' \<longrightarrow>
          d < d' \<or> (d = d' \<and> clock_less hm hm') \<longrightarrow> t < t')
     \<and> (\<forall>t. \<exists>m. ca_local cal t = LocalSingle m
          \<and> (t mod 60000 = 0 \<longrightarrow> cron_candidate cal (lm_date m) (lm_hour m, lm_minute m) = Some t))
     \<and> (\<forall>t u m n. ca_local cal t = LocalSingle m \<longrightarrow> ca_local cal u = LocalSingle n \<longrightarrow> t \<le> u \<longrightarrow>
          lm_date m \<le> lm_date n)"

lemma zone_order:
  assumes "zone_regular cal" "cron_candidate cal d hm = Some t" "cron_candidate cal d' hm' = Some t'"
    and "d < d' \<or> (d = d' \<and> clock_less hm hm')"
  shows "t < t'"
  using assms unfolding zone_regular_def by blast

lemma sorted_product:
  assumes "sorted_wrt (<) xs" "sorted_wrt (<) (ys :: nat list)"
  shows "sorted_wrt clock_less (List.product xs ys)"
  using assms
proof (induction xs)
  case Nil
  then show ?case by simp
next
  case (Cons x xs)
  have "sorted_wrt clock_less (map (Pair x) ys)"
    using Cons.prems(2) by (simp add: sorted_wrt_map clock_less_def)
  moreover have "\<forall>a \<in> set (map (Pair x) ys). \<forall>b \<in> set (List.product xs ys). clock_less a b"
    using Cons.prems(1) by (auto simp: clock_less_def)
  ultimately show ?case using Cons by (auto simp: sorted_wrt_append)
qed

lemma day_times_sorted:
  "field_ok (cs_minute spec) \<Longrightarrow> field_ok (cs_hour spec) \<Longrightarrow> sorted_wrt clock_less (day_times spec)"
  unfolding day_times_def by (rule sorted_product) (simp_all add: field_ok_def bt_inv_def bt_keys_def)

text \<open>The first hit of a sorted list is the least.\<close>

lemma find_first_least:
  assumes "List.find P xs = Some x" "sorted_wrt R xs" "y \<in> set xs" "P y"
  shows "y = x \<or> R x y"
  using assms by (induction xs) (auto split: if_splits)

lemma day_target_least:
  assumes zone: "zone_regular cal" and spec: "field_ok (cs_minute spec)" "field_ok (cs_hour spec)"
    and hm: "hm \<in> set (day_times spec)" "cron_candidate cal d hm = Some u" "after < u"
  shows "\<exists>t. day_target cal spec after d = Some t \<and> t \<le> u"
proof -
  let ?ts = "List.map_filter (cron_candidate cal d) (day_times spec)"
  have mem: "u \<in> set ?ts" using hm by (force simp: List.map_filter_def)
  then obtain t where t: "List.find (\<lambda>t. after < t) ?ts = Some t"
    using hm(3) by (cases "List.find (\<lambda>t. after < t) ?ts") auto
  have "sorted_wrt (<) ?ts"
  proof -
    have "sorted_wrt (<) (List.map_filter (cron_candidate cal d) hms)" if "sorted_wrt clock_less hms" for hms
      using that
    proof (induction hms)
      case Nil
      then show ?case by simp
    next
      case (Cons h hms)
      have "t < u" if "cron_candidate cal d h = Some t" "k \<in> set hms" "cron_candidate cal d k = Some u" for t k u
        using zone_order [OF zone that(1,3)] that(2) Cons.prems by simp
      with Cons show ?case by (auto simp: List.map_filter_def split: option.split)
    qed
    then show ?thesis using day_times_sorted [OF spec] .
  qed
  from find_first_least [OF t this mem hm(3)] show ?thesis using t by (auto simp: day_target_def)
qed

lemma search_days_least:
  assumes zone: "zone_regular cal" and spec: "field_ok (cs_minute spec)" "field_ok (cs_hour spec)"
    and found: "search_days cal spec after n date = Inr t"
    and u: "matches_date cal spec d" "hm \<in> set (day_times spec)" "cron_candidate cal d hm = Some u" "after < u" "date \<le> d"
  shows "t \<le> u"
  using found u(5)
proof (induction n arbitrary: date)
  case 0
  then show ?case by simp
next
  case (Suc n)
  show ?case
  proof (cases "d = date")
    case True
    with day_target_least [OF zone spec u(2-4)] u(1) Suc.prems(1) show ?thesis by auto
  next
    case False
    show ?thesis
    proof (cases "matches_date cal spec date \<and> day_target cal spec after date \<noteq> None")
      case True
      with Suc.prems(1) have t: "day_target cal spec after date = Some t" by auto
      then obtain k where "cron_candidate cal date k = Some t"
        using find_SomeD [OF t [unfolded day_target_def]] by (auto simp: List.map_filter_def)
      from zone_order [OF zone this u(3)] show ?thesis using False Suc.prems(2) by simp
    next
      case nothing_today: False
      with Suc.prems(1) obtain d' where "ca_next_day cal date = Some d'" "search_days cal spec after n d' = Inr t"
        by (auto split: if_splits option.splits)
      moreover from this(1) have "d' = date + 1" using zone by (auto simp: zone_regular_def)
      ultimately show ?thesis using Suc.IH False Suc.prems(2) by simp
    qed
  qed
qed

lemma next_base_least:
  assumes zone: "zone_regular cal" and spec: "field_ok (cs_minute spec)" "field_ok (cs_hour spec)"
    and base: "next_cron_base cal spec after = Inr t"
    and u: "matches_timestamp cal spec u" "after < u"
  shows "t \<le> u"
proof -
  obtain m where m: "ca_local cal u = LocalSingle m"
    and now: "u mod 60000 = 0 \<longrightarrow> cron_candidate cal (lm_date m) (lm_hour m, lm_minute m) = Some u"
    using zone unfolding zone_regular_def by blast
  have hits: "u mod 60000 = 0" "matches_date cal spec (lm_date m)"
    "(lm_hour m, lm_minute m) \<in> set (day_times spec)"
    using u(1) m spec by (auto simp: matches_timestamp_def day_times_def field_ok_def bt_keys_iff)
  obtain k where k: "ca_local cal after = LocalSingle k" "lm_date k \<le> lm_date m"
    using zone m u(2) unfolding zone_regular_def by (metis order_less_imp_le)
  with base have "search_days cal spec after cron_search_days (lm_date k) = Inr t"
    by (simp add: next_cron_base_def local_at_def)
  from search_days_least [OF zone spec this hits(2,3) _ u(2) k(2)] now hits(1) show ?thesis by blast
qed

section \<open>The invariant\<close>

definition record_ok :: "cron_ext \<Rightarrow> schedule_record \<Rightarrow> bool" where
  "record_ok ext r \<longleftrightarrow> 0 \<le> sch_scheduled_at r
     \<and> (zone_consistent (ce_calendar ext) \<longrightarrow> schedule_validate ext r = Inr ())"

text \<open>The schedules of \<open>X\<close> are between losing their timer and getting the next one.\<close>

definition schedule_inv :: "cron_ext \<Rightarrow> string set \<Rightarrow> schedule_fold \<Rightarrow> bool" where
  "schedule_inv ext X s \<longleftrightarrow>
     bt_inv (sf_active s) \<and> bt_inv (sf_armed s) \<and> bt_inv (sf_seen s) \<and> bt_inv (sf_counts s)
     \<and> bt_inv (sf_enqueues s) \<and> bt_inv (sf_dispatched s)
     \<and> (\<forall>i r. bt_get (sf_active s) i = Some r \<longrightarrow>
          sch_id r = i \<and> bt_contains (sf_seen s) i \<and> record_ok ext r
          \<and> (bt_contains (sf_armed s) i \<or> is_wakeup r \<or> i \<in> X))
     \<and> (\<forall>i. bt_contains (sf_armed s) i \<longrightarrow> bt_contains (sf_active s) i)
     \<and> (\<forall>i. bt_contains (sf_counts s) i \<longrightarrow> bt_contains (sf_seen s) i)"

definition schedule_ok :: "cron_ext \<Rightarrow> schedule_fold \<Rightarrow> bool" where
  "schedule_ok ext s \<longleftrightarrow> schedule_inv ext {} s"

text \<open>What a record that passed validation says about its target and rule.\<close>

lemma validate_parts:
  "schedule_validate ext r = Inr () \<longleftrightarrow>
     schedule_id_validate (sch_id r) = Inr () \<and> valid_text (sch_prompt r) max_schedule_prompt_bytes
     \<and> 0 \<le> sch_scheduled_at r \<and> 0 \<le> sch_created_at r
     \<and> (\<forall>expiry. sch_expires_at r = Some expiry \<longrightarrow> sch_created_at r < expiry)
     \<and> rule_validate ext r = Inr ()"
  by (auto simp: schedule_validate_def split: option.splits)

lemma cron_rule_parts:
  "cron_rule_validate ext r expression recurring = Inr () \<longleftrightarrow>
     (\<exists>spec base bound. cron_parse expression = Inr spec \<and> cs_canonical spec = expression
        \<and> recurring = (sch_expires_at r \<noteq> None)
        \<and> (\<forall>expiry. sch_expires_at r = Some expiry \<longrightarrow> expiry_after (sch_created_at r) = Some expiry)
        \<and> base = sch_scheduled_at r - sch_jitter r \<and> in_i64 base \<and> sch_created_at r < base
        \<and> matches_timestamp (ce_calendar ext) spec base
        \<and> cron_jitter_bound (ce_calendar ext) spec base recurring = Inr bound
        \<and> (if recurring then 0 \<le> sch_jitter r \<and> sch_jitter r \<le> bound
           else - bound \<le> sch_jitter r \<and> sch_jitter r \<le> 0))"
  by (auto simp: cron_rule_validate_def not_less not_le split: option.splits)

lemma every_target_ge: "every_target every scheduled accepted = Inr t \<Longrightarrow> scheduled \<le> t"
  by (auto simp: every_target_def Let_def split: if_splits)

text \<open>The next record of a recurring cron schedule is valid again.\<close>

lemma next_cron_record_ok:
  assumes zone: "zone_consistent (ce_calendar ext)" and r: "schedule_validate ext r = Inr ()"
    and rule: "sch_rule r = RuleCron expression True zone'" and accepted: "sch_scheduled_at r \<le> accepted"
    and spec: "cron_parse expression = Inr spec"
    and target: "next_cron_target ext i spec accepted True = Inr (t, jitter)"
  shows "schedule_validate ext (r\<lparr>sch_scheduled_at := t, sch_jitter := jitter\<rparr>) = Inr ()"
proof -
  let ?cal = "ce_calendar ext"
  from target cron_target_shape [of ext i spec accepted True accepted t jitter] obtain c base bound where
    t: "accepted < t" "in_i64 t" "accepted \<le> c" and base: "next_cron_base ?cal spec c = Inr base"
    and bound: "cron_jitter_bound ?cal spec base True = Inr bound"
    and jitter: "jitter = jitter_for ext i bound True" "t = base + jitter"
    unfolding next_cron_target_def by blast
  have range: "0 \<le> jitter" "jitter \<le> max 0 bound"
    using jitter_range [of "ce_sha256 ext" i bound] jitter by (simp_all add: jitter_for_def)
  have bound_nonneg: "0 \<le> bound"
    using bound next_cron_base_after
    by (fastforce simp: cron_jitter_bound_def recurring_jitter_max_ms_def split: if_splits)
  from r rule spec have old: "sch_created_at r < sch_scheduled_at r - sch_jitter r" "0 \<le> sch_jitter r"
    "sch_expires_at r \<noteq> None" "cs_canonical spec = expression"
    "\<forall>expiry. sch_expires_at r = Some expiry \<longrightarrow> expiry_after (sch_created_at r) = Some expiry"
    "0 \<le> sch_created_at r"
    by (auto simp: validate_parts rule_validate_def cron_rule_parts)
  have "accepted < base" using next_cron_base_after [OF base] t(3) by simp
  then have "sch_created_at r < base" "0 \<le> base" using old accepted by linarith+
  moreover have "in_i64 base"
    using t(2) \<open>0 \<le> base\<close> range(1) jitter(2) by (auto simp: in_i64_def i64_min_def)
  moreover have "matches_timestamp ?cal spec base"
    by (rule next_base_matches [OF zone cron_parse_ok [OF spec] base])
  ultimately have "rule_validate ext (r\<lparr>sch_scheduled_at := t, sch_jitter := jitter\<rparr>) = Inr ()"
    using rule spec old bound range bound_nonneg jitter(2)
    by (simp add: rule_validate_def cron_rule_parts max_def split: if_splits)
  moreover have "0 \<le> t" using t(1) accepted old by linarith
  ultimately show ?thesis using r by (simp add: validate_parts)
qed

lemma every_record_ok:
  assumes "schedule_validate ext r = Inr ()" "sch_rule r = RuleEvery every" "0 \<le> t"
  shows "schedule_validate ext (r\<lparr>sch_scheduled_at := t\<rparr>) = Inr ()"
  using assms by (simp add: validate_parts rule_validate_def)

lemma wakeup_record_ok:
  assumes "schedule_validate ext r = Inr ()" "is_wakeup r" "0 \<le> t" "wakeup_delay_ok delay"
  shows "schedule_validate ext (r\<lparr>sch_scheduled_at := t, sch_rule := RuleWakeup delay\<rparr>) = Inr ()"
  using assms by (auto simp: validate_parts rule_validate_def is_wakeup_def split: schedule_rule.splits)

section \<open>Every event keeps the invariant\<close>

lemma schedule_ok_default: "schedule_ok ext schedule_default"
  by (simp add: schedule_ok_def schedule_inv_def schedule_default_def)

lemma schedule_invD:
  assumes "schedule_inv ext X s"
  shows "bt_inv (sf_active s)" "bt_inv (sf_armed s)" "bt_inv (sf_seen s)" "bt_inv (sf_counts s)"
    "bt_inv (sf_enqueues s)" "bt_inv (sf_dispatched s)"
    "\<And>i r. bt_get (sf_active s) i = Some r \<Longrightarrow> sch_id r = i \<and> bt_contains (sf_seen s) i \<and> record_ok ext r
       \<and> (bt_contains (sf_armed s) i \<or> is_wakeup r \<or> i \<in> X)"
    "\<And>i. bt_contains (sf_armed s) i \<Longrightarrow> bt_contains (sf_active s) i"
    "\<And>i. bt_contains (sf_counts s) i \<Longrightarrow> bt_contains (sf_seen s) i"
  using assms unfolding schedule_inv_def by blast+

lemma seen_ok: "schedule_inv ext X s \<Longrightarrow> schedule_inv ext X (s\<lparr>sf_seen := bt_insert i () (sf_seen s)\<rparr>)"
  unfolding schedule_inv_def by auto

lemma rearm_ok:
  assumes "schedule_inv ext X s" "bt_contains (sf_seen s) i" "sch_id r = i" "record_ok ext r"
  shows "schedule_inv ext (X - {i}) (rearm s i r)"
  using assms unfolding schedule_inv_def rearm_def by simp

lemma retire_schedule_ok:
  assumes "schedule_inv ext X s" "\<not> bt_contains (sf_armed s) i"
  shows "schedule_inv ext (X - {i}) (retire_schedule s i)"
  using assms unfolding schedule_inv_def retire_schedule_def by auto

text \<open>A wakeup needs no timer.\<close>

lemma wakeup_waits:
  assumes "schedule_inv ext {i} s" "\<forall>r. bt_get (sf_active s) i = Some r \<longrightarrow> is_wakeup r"
  shows "schedule_inv ext {} s"
  using assms unfolding schedule_inv_def by blast

lemma schedule_ok_create:
  assumes "schedule_ok ext s" "schedule_create s version r = Inr s'" "schedule_validate ext r = Inr ()"
  shows "schedule_ok ext s'"
proof -
  have s': "s' = rearm (s\<lparr>sf_seen := bt_insert (sch_id r) () (sf_seen s)\<rparr>) (sch_id r) r"
    using assms(2) by (auto simp: schedule_create_def rearm_def)
  have inv: "schedule_inv ext {} (s\<lparr>sf_seen := bt_insert (sch_id r) () (sf_seen s)\<rparr>)"
    using assms(1) seen_ok by (simp add: schedule_ok_def)
  have "record_ok ext r" using assms(3) by (simp add: record_ok_def validate_parts)
  with rearm_ok [OF inv _ refl] schedule_invD(3) [OF inv] show ?thesis
    using schedule_invD(3) [OF assms(1) [unfolded schedule_ok_def]] by (simp add: schedule_ok_def s')
qed

lemma schedule_ok_delete:
  assumes "schedule_ok ext s" "schedule_delete s i = Inr s'"
  shows "schedule_ok ext s'"
proof -
  have s': "s' = s\<lparr>sf_active := bt_remove i (sf_active s), sf_armed := bt_remove i (sf_armed s)\<rparr>"
    using assms(2) by (auto simp: schedule_delete_def)
  show ?thesis
    using assms(1) unfolding schedule_ok_def schedule_inv_def s' by auto
qed

text \<open>The state of a dispatch between giving up the timer and the next record.\<close>

definition dispatching :: "schedule_fold \<Rightarrow> string \<Rightarrow> string \<Rightarrow> schedule_fold" where
  "dispatching s i message =
     s\<lparr>sf_dispatched := bt_insert message () (sf_dispatched s), sf_armed := bt_remove i (sf_armed s),
       sf_counts := bt_insert i (saturating_add_u64 (dispatch_count s i) 1) (sf_counts s)\<rparr>"

lemma schedule_dispatch_Inr:
  "schedule_dispatch ext s i accepted message = Inr s' \<longleftrightarrow>
     (\<exists>r. \<not> bt_contains (sf_dispatched s) message
        \<and> bt_get (sf_enqueues s) message = Some (i, sch_scheduled_at r)
        \<and> bt_get (sf_active s) i = Some r \<and> sch_scheduled_at r \<le> accepted \<and> bt_contains (sf_armed s) i
        \<and> after_dispatch ext (dispatching s i message) i r accepted = Inr s')"
  by (auto simp: schedule_dispatch_def dispatching_def)

lemma dispatching_ok:
  assumes "schedule_inv ext {} s" "bt_get (sf_active s) i = Some r"
  shows "schedule_inv ext {i} (dispatching s i message)"
  using assms schedule_invD(7) [OF assms] unfolding schedule_inv_def dispatching_def by simp

lemma schedule_ok_dispatch:
  assumes ok: "schedule_ok ext s" and step: "schedule_dispatch ext s i accepted message = Inr s'"
  shows "schedule_ok ext s'"
proof -
  let ?s = "dispatching s i message"
  from ok have inv: "schedule_inv ext {} s" by (simp add: schedule_ok_def)
  from step obtain r where r: "bt_get (sf_active s) i = Some r" "sch_scheduled_at r \<le> accepted"
    and after: "after_dispatch ext ?s i r accepted = Inr s'"
    unfolding schedule_dispatch_Inr by blast
  have mid: "schedule_inv ext {i} ?s" by (rule dispatching_ok [OF inv r(1)])
  have facts: "sch_id r = i" "bt_contains (sf_seen ?s) i" "record_ok ext r"
    using schedule_invD(7) [OF inv r(1)] by (simp_all add: dispatching_def)
  have "\<not> bt_contains (sf_armed ?s) i" using schedule_invD(2) [OF inv] by (simp add: dispatching_def)
  from retire_schedule_ok [OF mid this] have retired: "schedule_inv ext {} (retire_schedule ?s i)" by simp
  have rearmed: "schedule_inv ext {} (rearm ?s i r')" if "sch_id r' = i" "record_ok ext r'" for r'
    using rearm_ok [OF mid facts(2) that] by simp
  note valid = facts(3) [unfolded record_ok_def]
  show ?thesis
    unfolding schedule_ok_def
  proof (cases "sch_rule r")
    case (RuleAfter delay)
    with after retired show "schedule_inv ext {} s'" by (simp add: after_dispatch_def)
  next
    case RuleAt
    with after retired show "schedule_inv ext {} s'" by (simp add: after_dispatch_def)
  next
    case (RuleEvery every)
    with after obtain t where t: "every_target every (sch_scheduled_at r) accepted = Inr t"
      "s' = rearm ?s i (r\<lparr>sch_scheduled_at := t\<rparr>)" by (auto simp: after_dispatch_def)
    have "record_ok ext (r\<lparr>sch_scheduled_at := t\<rparr>)"
      using valid every_target_ge [OF t(1)] every_record_ok [OF _ RuleEvery, of ext t]
      by (auto simp: record_ok_def)
    with rearmed facts(1) show "schedule_inv ext {} s'" unfolding t(2) by simp
  next
    case (RuleCron expression recurring zone)
    show "schedule_inv ext {} s'"
    proof (cases "\<not> recurring \<or> expired r accepted")
      case True
      with RuleCron after retired show ?thesis by (auto simp: after_dispatch_def)
    next
      case False
      with RuleCron after obtain spec t jitter where spec: "cron_parse expression = Inr spec"
        and target: "next_cron_target ext i spec accepted True = Inr (t, jitter)"
        and s': "s' = rearm ?s i (r\<lparr>sch_scheduled_at := t, sch_jitter := jitter\<rparr>)"
        by (auto simp: after_dispatch_def)
      have "accepted < t"
        using cron_target_shape target unfolding next_cron_target_def by blast
      then have "record_ok ext (r\<lparr>sch_scheduled_at := t, sch_jitter := jitter\<rparr>)"
        using valid next_cron_record_ok [OF _ _ _ r(2) spec target] RuleCron False r(2)
        by (auto simp: record_ok_def)
      with rearmed facts(1) show ?thesis unfolding s' by simp
    qed
  next
    case (RuleWakeup delay)
    have "schedule_inv ext {} ?s"
      using wakeup_waits [OF mid] r(1) RuleWakeup by (simp add: dispatching_def is_wakeup_def)
    with RuleWakeup after retired show "schedule_inv ext {} s'"
      by (auto simp: after_dispatch_def split: if_splits)
  qed
qed

lemma schedule_ok_reschedule:
  assumes ok: "schedule_ok ext s" and step: "schedule_reschedule s time i delay scheduled = Inr s'"
    and shape: "wakeup_delay_ok delay" "0 \<le> scheduled"
  shows "schedule_ok ext s'"
proof -
  from ok have inv: "schedule_inv ext {} s" by (simp add: schedule_ok_def)
  from step obtain r where r: "bt_get (sf_active s) i = Some r" "is_wakeup r"
    and s': "s' = rearm s i (r\<lparr>sch_scheduled_at := scheduled, sch_rule := RuleWakeup delay\<rparr>)"
    by (auto simp: schedule_reschedule_def)
  have facts: "sch_id r = i" "bt_contains (sf_seen s) i" "record_ok ext r"
    using schedule_invD(7) [OF inv r(1)] by simp_all
  have "record_ok ext (r\<lparr>sch_scheduled_at := scheduled, sch_rule := RuleWakeup delay\<rparr>)"
    using facts(3) wakeup_record_ok [OF _ r(2) shape(2,1)] shape(2) by (simp add: record_ok_def)
  with rearm_ok [OF inv facts(2)] facts(1) show ?thesis by (simp add: schedule_ok_def s')
qed

lemma schedule_ok_enqueue:
  assumes "schedule_ok ext s" "note_enqueue s m = Inr s'"
  shows "schedule_ok ext s'"
proof -
  have "schedule_inv ext {} (s\<lparr>sf_enqueues := bt_insert k v (sf_enqueues s)\<rparr>)" for k v
    using assms(1) by (simp add: schedule_ok_def schedule_inv_def)
  then show ?thesis
    using assms by (auto simp: note_enqueue_def schedule_ok_def split: inbox_source.splits)
qed

lemma schedule_ok_event:
  assumes ok: "schedule_ok ext s" and step: "schedule_event ext s e = Inr s'"
  shows "schedule_ok ext s'"
proof -
  consider (splice) sp where "ev_kind e = AgentInboxSplice sp"
    | (change) c where "ev_kind e = ScheduleChange c"
    | (other) "s' = s"
    using step by (cases "ev_kind e") (auto simp: schedule_event_def)
  then show ?thesis
  proof cases
    case splice
    with step have "try_fold note_enqueue s (sp_inserted sp) = Inr s'" by (simp add: schedule_event_def)
    then show ?thesis using ok by (rule try_fold_inv) (rule schedule_ok_enqueue)
  next
    case change
    with step have "schedule_validate_shape ext c = Inr ()" "schedule_apply ext s (ev_time e) c = Inr s'"
      by (auto simp: schedule_event_def)
    then show ?thesis
      by (cases c)
        (auto intro: schedule_ok_create [OF ok] schedule_ok_delete [OF ok] schedule_ok_dispatch [OF ok]
          schedule_ok_reschedule [OF ok])
  next
    case other
    with ok show ?thesis by simp
  qed
qed

interpretation schedules: replay schedule_default "schedule_event ext" "schedule_ok ext" for ext
  by unfold_locales (rule schedule_ok_default, rule schedule_ok_event)

section \<open>What a log says about dispatches\<close>

definition scheduled_source :: "inbox_message \<Rightarrow> (string \<times> string \<times> int) list" where
  "scheduled_source m =
     (case im_source m of SourceSchedule i occurrence \<Rightarrow> [(im_id m, i, occurrence)] | _ \<Rightarrow> [])"

text \<open>Messages enqueued for a schedule, dispatches (message, schedule, time), and creations.\<close>

fun enqueued_by :: "session_event_kind \<Rightarrow> (string \<times> string \<times> int) list" where
  "enqueued_by (AgentInboxSplice sp) = concat (map scheduled_source (sp_inserted sp))"
| "enqueued_by _ = []"

fun dispatched_by :: "session_event_kind \<Rightarrow> (string \<times> string \<times> int) list" where
  "dispatched_by (ScheduleChange (ScheduleDispatch version i accepted message)) = [(message, i, accepted)]"
| "dispatched_by _ = []"

fun created_by :: "session_event_kind \<Rightarrow> schedule_record list" where
  "created_by (ScheduleChange (ScheduleCreate version r)) = [r]"
| "created_by _ = []"

definition all_by :: "(session_event_kind \<Rightarrow> 'a list) \<Rightarrow> session_event list \<Rightarrow> 'a list" where
  "all_by f es = concat (map (\<lambda>e. f (ev_kind e)) es)"

lemma all_by_simps [simp]: "all_by f [] = []" "all_by f (es @ [e]) = all_by f es @ f (ev_kind e)"
  by (simp_all add: all_by_def)

definition fires :: "string \<Rightarrow> session_event list \<Rightarrow> nat" where
  "fires i es = length (filter (\<lambda>d. fst (snd d) = i) (all_by dispatched_by es))"

definition fires_once :: "schedule_record \<Rightarrow> bool" where
  "fires_once r \<longleftrightarrow> one_shot r \<and> \<not> is_wakeup r"

definition local_log :: "nat \<Rightarrow> session_event list \<Rightarrow> session_event list" where
  "local_log start es = filter (\<lambda>e. start \<le> ev_seq e) es"

text \<open>The state against the events that led to it.\<close>

definition accounts :: "schedule_fold \<Rightarrow> session_event list \<Rightarrow> bool" where
  "accounts s es \<longleftrightarrow>
     (\<forall>m i occ. bt_get (sf_enqueues s) m = Some (i, occ) \<longrightarrow> (m, i, occ) \<in> set (all_by enqueued_by es))
     \<and> (\<forall>m. bt_contains (sf_dispatched s) m \<longleftrightarrow> m \<in> fst ` set (all_by dispatched_by es))
     \<and> distinct (map fst (all_by dispatched_by es))
     \<and> (\<forall>i. dispatch_count s i = min u64_max (fires i es))
     \<and> (\<forall>i. \<not> bt_contains (sf_seen s) i \<longrightarrow> fires i es = 0)
     \<and> (\<forall>r \<in> set (all_by created_by es). bt_contains (sf_seen s) (sch_id r)
          \<and> (fires_once r \<longrightarrow> fires (sch_id r) es \<le> 1
              \<and> (\<forall>r'. bt_get (sf_active s) (sch_id r) = Some r' \<longrightarrow> fires_once r' \<and> fires (sch_id r) es = 0)))"

lemma accountsI:
  assumes "\<And>m i occ. bt_get (sf_enqueues s) m = Some (i, occ) \<Longrightarrow> (m, i, occ) \<in> set (all_by enqueued_by es)"
    and "\<And>m. bt_contains (sf_dispatched s) m \<longleftrightarrow> m \<in> fst ` set (all_by dispatched_by es)"
    and "distinct (map fst (all_by dispatched_by es))"
    and "\<And>i. dispatch_count s i = min u64_max (fires i es)"
    and "\<And>i. \<not> bt_contains (sf_seen s) i \<Longrightarrow> fires i es = 0"
    and "\<And>r. r \<in> set (all_by created_by es) \<Longrightarrow> bt_contains (sf_seen s) (sch_id r)"
    and "\<And>r. r \<in> set (all_by created_by es) \<Longrightarrow> fires_once r \<Longrightarrow> fires (sch_id r) es \<le> 1
        \<and> (\<forall>r'. bt_get (sf_active s) (sch_id r) = Some r' \<longrightarrow> fires_once r' \<and> fires (sch_id r) es = 0)"
  shows "accounts s es"
  using assms unfolding accounts_def by blast

lemma accountsD:
  assumes "accounts s es"
  shows "bt_get (sf_enqueues s) m = Some (i, occ) \<Longrightarrow> (m, i, occ) \<in> set (all_by enqueued_by es)"
    "bt_contains (sf_dispatched s) m \<longleftrightarrow> m \<in> fst ` set (all_by dispatched_by es)"
    "distinct (map fst (all_by dispatched_by es))"
    "dispatch_count s i = min u64_max (fires i es)"
    "\<not> bt_contains (sf_seen s) i \<Longrightarrow> fires i es = 0"
    "r \<in> set (all_by created_by es) \<Longrightarrow> bt_contains (sf_seen s) (sch_id r)"
    "r \<in> set (all_by created_by es) \<Longrightarrow> fires_once r \<Longrightarrow> fires (sch_id r) es \<le> 1"
    "r \<in> set (all_by created_by es) \<Longrightarrow> fires_once r \<Longrightarrow> bt_get (sf_active s) (sch_id r) = Some r' \<Longrightarrow>
       fires_once r' \<and> fires (sch_id r) es = 0"
  using assms unfolding accounts_def by blast+

lemma note_enqueue_accounts:
  assumes "try_fold note_enqueue s ms = Inr s'" "bt_inv (sf_enqueues s)"
  shows "sf_active s' = sf_active s \<and> sf_armed s' = sf_armed s \<and> sf_seen s' = sf_seen s
    \<and> sf_counts s' = sf_counts s \<and> sf_dispatched s' = sf_dispatched s
    \<and> (\<forall>m i occ. bt_get (sf_enqueues s') m = Some (i, occ) \<longrightarrow>
         bt_get (sf_enqueues s) m = Some (i, occ) \<or> (m, i, occ) \<in> set (concat (map scheduled_source ms)))"
  using assms
proof (induction ms arbitrary: s)
  case Nil
  then show ?case by simp
next
  case (Cons m ms)
  from Cons.prems obtain t where t: "note_enqueue s m = Inr t" "try_fold note_enqueue t ms = Inr s'" by auto
  have facts: "bt_inv (sf_enqueues t)" "sf_active t = sf_active s" "sf_armed t = sf_armed s"
    "sf_seen t = sf_seen s" "sf_counts t = sf_counts s" "sf_dispatched t = sf_dispatched s"
    "\<And>k i occ. bt_get (sf_enqueues t) k = Some (i, occ) \<Longrightarrow>
       bt_get (sf_enqueues s) k = Some (i, occ) \<or> (k, i, occ) \<in> set (scheduled_source m)"
    using t(1) Cons.prems(2)
    by (auto simp: note_enqueue_def scheduled_source_def split: inbox_source.splits if_splits)
  have "bt_get (sf_enqueues s) k = Some (i, occ) \<or> (k, i, occ) \<in> set (concat (map scheduled_source (m # ms)))"
    if "bt_get (sf_enqueues s') k = Some (i, occ)" for k i occ
    using Cons.IH [OF t(2) facts(1)] facts(7) [of k i occ] that by auto
  with Cons.IH [OF t(2) facts(1)] facts(2-6) show ?case by simp
qed

lemma accounts_default: "accounts schedule_default []"
  by (simp add: accounts_def schedule_default_def dispatch_count_def fires_def)

lemma fires_snoc:
  "fires i (es @ [e]) = fires i es + length (filter (\<lambda>d. fst (snd d) = i) (dispatched_by (ev_kind e)))"
  by (simp add: fires_def)

text \<open>
  An event that dispatches and creates nothing keeps the accounts, if what it enqueues is its own
  and it revives no one-shot.
\<close>

lemma accounts_quiet:
  assumes acc: "accounts s es" and none: "dispatched_by (ev_kind e) = []" "created_by (ev_kind e) = []"
    and same: "sf_dispatched s' = sf_dispatched s" "sf_counts s' = sf_counts s" "sf_seen s' = sf_seen s"
    and enq: "\<And>m i occ. bt_get (sf_enqueues s') m = Some (i, occ) \<Longrightarrow>
      bt_get (sf_enqueues s) m = Some (i, occ) \<or> (m, i, occ) \<in> set (enqueued_by (ev_kind e))"
    and live: "\<And>i r'. bt_get (sf_active s') i = Some r' \<Longrightarrow>
      \<exists>r. bt_get (sf_active s) i = Some r \<and> (fires_once r \<longrightarrow> fires_once r')"
  shows "accounts s' (es @ [e])"
proof (rule accountsI)
  have fires: "fires i (es @ [e]) = fires i es" for i by (simp add: fires_snoc none)
  have created: "all_by created_by (es @ [e]) = all_by created_by es" by (simp add: none)
  have dispatched: "all_by dispatched_by (es @ [e]) = all_by dispatched_by es" by (simp add: none)
  show "(m, i, occ) \<in> set (all_by enqueued_by (es @ [e]))"
    if "bt_get (sf_enqueues s') m = Some (i, occ)" for m i occ
    using enq [OF that] accountsD(1) [OF acc, of m i occ] by auto
  show "bt_contains (sf_dispatched s') m \<longleftrightarrow> m \<in> fst ` set (all_by dispatched_by (es @ [e]))" for m
    unfolding same dispatched by (rule accountsD(2) [OF acc])
  show "distinct (map fst (all_by dispatched_by (es @ [e])))"
    unfolding dispatched by (rule accountsD(3) [OF acc])
  show "dispatch_count s' i = min u64_max (fires i (es @ [e]))" for i
    using accountsD(4) [OF acc, of i] by (simp only: dispatch_count_def same fires)
  show "fires i (es @ [e]) = 0" if "\<not> bt_contains (sf_seen s') i" for i
    using that unfolding same fires by (rule accountsD(5) [OF acc])
  show "bt_contains (sf_seen s') (sch_id q)" if "q \<in> set (all_by created_by (es @ [e]))" for q
    using that unfolding same created by (rule accountsD(6) [OF acc])
  fix q assume q: "q \<in> set (all_by created_by (es @ [e]))" "fires_once q"
  then have q': "q \<in> set (all_by created_by es)" by (simp only: created)
  have "fires_once r' \<and> fires (sch_id q) es = 0" if r': "bt_get (sf_active s') (sch_id q) = Some r'" for r'
  proof -
    from live [OF r'] obtain r where r: "bt_get (sf_active s) (sch_id q) = Some r" "fires_once r \<longrightarrow> fires_once r'"
      by blast
    from accountsD(8) [OF acc q' q(2) r(1)] r(2) show ?thesis by simp
  qed
  with accountsD(7) [OF acc q' q(2)]
  show "fires (sch_id q) (es @ [e]) \<le> 1 \<and> (\<forall>r'. bt_get (sf_active s') (sch_id q) = Some r' \<longrightarrow>
      fires_once r' \<and> fires (sch_id q) (es @ [e]) = 0)"
    unfolding fires by simp
qed

lemma create_accounts:
  assumes acc: "accounts s es" and inv: "schedule_inv ext {} s" and step: "schedule_create s version r = Inr s'"
    and k: "ev_kind e = ScheduleChange (ScheduleCreate version r)"
  shows "accounts s' (es @ [e])"
proof -
  from step have new: "\<not> bt_contains (sf_seen s) (sch_id r)"
    and s': "s' = s\<lparr>sf_seen := bt_insert (sch_id r) () (sf_seen s), sf_armed := bt_insert (sch_id r) () (sf_armed s),
      sf_active := bt_insert (sch_id r) r (sf_active s)\<rparr>"
    by (auto simp: schedule_create_def)
  have none: "fires (sch_id r) es = 0" using acc new by (simp add: accounts_def)
  have others: "sch_id q \<noteq> sch_id r" if "q \<in> set (all_by created_by es)" for q
    using acc that new unfolding accounts_def by auto
  have fires: "fires i (es @ [e]) = fires i es" for i by (simp add: fires_snoc k)
  have count: "dispatch_count s' i = dispatch_count s i" for i by (simp add: dispatch_count_def s')
  have seen: "bt_contains (sf_seen s') i \<longleftrightarrow> i = sch_id r \<or> bt_contains (sf_seen s) i" for i
    using schedule_invD(3) [OF inv] by (auto simp: s')
  have active: "bt_get (sf_active s') i = (if i = sch_id r then Some r else bt_get (sf_active s) i)" for i
    using schedule_invD(1) [OF inv] by (simp add: s')
  show ?thesis
  proof (rule accountsI)
    show "(m, i, occ) \<in> set (all_by enqueued_by (es @ [e]))"
      if "bt_get (sf_enqueues s') m = Some (i, occ)" for m i occ
      using that accountsD(1) [OF acc, of m i occ] by (simp add: s' k)
    show "bt_contains (sf_dispatched s') m \<longleftrightarrow> m \<in> fst ` set (all_by dispatched_by (es @ [e]))" for m
      using accountsD(2) [OF acc, of m] by (simp add: s' k)
    show "distinct (map fst (all_by dispatched_by (es @ [e])))" using accountsD(3) [OF acc] by (simp add: k)
    show "dispatch_count s' i = min u64_max (fires i (es @ [e]))" for i
      using accountsD(4) [OF acc, of i] by (simp only: fires count)
    show "fires i (es @ [e]) = 0" if "\<not> bt_contains (sf_seen s') i" for i
      using that accountsD(5) [OF acc, of i] unfolding fires seen by blast
    show "bt_contains (sf_seen s') (sch_id q)" if "q \<in> set (all_by created_by (es @ [e]))" for q
      using that accountsD(6) [OF acc, of q] unfolding seen by (auto simp: k)
    show "fires (sch_id q) (es @ [e]) \<le> 1 \<and> (\<forall>r'. bt_get (sf_active s') (sch_id q) = Some r' \<longrightarrow>
        fires_once r' \<and> fires (sch_id q) (es @ [e]) = 0)"
      if q: "q \<in> set (all_by created_by (es @ [e]))" "fires_once q" for q
    proof (cases "q \<in> set (all_by created_by es)")
      case True
      with accountsD(7,8) [OF acc True q(2)] others [OF True] show ?thesis by (simp add: fires active)
    next
      case False
      with q have "q = r" by (auto simp: k)
      with none q(2) show ?thesis by (simp add: fires active)
    qed
  qed
qed

lemma dispatch_accounts:
  assumes acc: "accounts s es" and inv: "schedule_inv ext {} s"
    and step: "schedule_dispatch ext s i accepted message = Inr s'"
    and k: "ev_kind e = ScheduleChange (ScheduleDispatch version i accepted message)"
  shows "accounts s' (es @ [e])"
proof -
  let ?s = "dispatching s i message"
  from step obtain r where new: "\<not> bt_contains (sf_dispatched s) message"
    and r: "bt_get (sf_active s) i = Some r" and after: "after_dispatch ext ?s i r accepted = Inr s'"
    unfolding schedule_dispatch_Inr by blast
  have frame: "sf_enqueues s' = sf_enqueues s" "sf_dispatched s' = bt_insert message () (sf_dispatched s)"
    "sf_seen s' = sf_seen s"
    "sf_counts s' = bt_insert i (saturating_add_u64 (dispatch_count s i) 1) (sf_counts s)"
    "fires_once r \<longrightarrow> sf_active s' = bt_remove i (sf_active s)"
    "\<And>j. j \<noteq> i \<Longrightarrow> bt_get (sf_active s') j = bt_get (sf_active s) j"
    using after schedule_invD(1) [OF inv]
    by (auto simp: after_dispatch_def dispatching_def retire_schedule_def rearm_def fires_once_def one_shot_def is_wakeup_def
        split: schedule_rule.splits if_splits)
  have fires: "fires j (es @ [e]) = (if j = i then Suc (fires j es) else fires j es)" for j
    by (simp add: fires_snoc k)
  have count: "dispatch_count s' j = min u64_max (fires j (es @ [e]))" for j
    using acc schedule_invD(4) [OF inv] unfolding fires
    by (simp add: dispatch_count_def frame(4) accounts_def saturating_add_u64_def min_def)
  have seen: "bt_contains (sf_seen s) i" using schedule_invD(7) [OF inv r] by blast
  have once: "fires (sch_id q) (es @ [e]) \<le> 1
      \<and> (\<forall>r'. bt_get (sf_active s') (sch_id q) = Some r' \<longrightarrow> fires_once r' \<and> fires (sch_id q) (es @ [e]) = 0)"
    if q: "q \<in> set (all_by created_by es)" "fires_once q" for q
  proof (cases "sch_id q = i")
    case True
    with acc q r have "fires_once r" "fires i es = 0" unfolding accounts_def by auto
    with True frame(5) schedule_invD(1) [OF inv] show ?thesis by (simp add: fires)
  next
    case False
    with acc q frame(6) [OF False] show ?thesis unfolding accounts_def by (simp add: fires)
  qed
  have frame_dispatched: "bt_contains (sf_dispatched s') m \<longleftrightarrow> m = message \<or> bt_contains (sf_dispatched s) m" for m
    using schedule_invD(6) [OF inv] by (auto simp: frame(2))
  show ?thesis
  proof (rule accountsI)
    show "dispatch_count s' j = min u64_max (fires j (es @ [e]))" for j by (rule count)
    show "fires j (es @ [e]) = 0" if "\<not> bt_contains (sf_seen s') j" for j
      using that seen accountsD(5) [OF acc] by (auto simp: frame(3) fires)
    show "fires (sch_id q) (es @ [e]) \<le> 1 \<and> (\<forall>r'. bt_get (sf_active s') (sch_id q) = Some r' \<longrightarrow>
        fires_once r' \<and> fires (sch_id q) (es @ [e]) = 0)"
      if "q \<in> set (all_by created_by (es @ [e]))" "fires_once q" for q
      using that once by (simp add: k)
    show "bt_contains (sf_dispatched s') m \<longleftrightarrow> m \<in> fst ` set (all_by dispatched_by (es @ [e]))" for m
      unfolding frame_dispatched using accountsD(2) [OF acc, of m] by (simp add: k del: bt_contains_iff)
    show "distinct (map fst (all_by dispatched_by (es @ [e])))"
      using accountsD(3) [OF acc] accountsD(2) [OF acc, of message] new by (auto simp: k)
  qed (use accountsD(1,6) [OF acc] in \<open>auto simp: k frame(1,3)\<close>)
qed

text \<open>All events.\<close>

lemma accounts_event:
  assumes acc: "accounts s es" and ok: "schedule_ok ext s" and step: "schedule_event ext s e = Inr s'"
  shows "accounts s' (es @ [e])"
proof -
  have inv: "schedule_inv ext {} s" using ok by (simp add: schedule_ok_def)
  consider (splice) sp where "ev_kind e = AgentInboxSplice sp"
    | (change) c where "ev_kind e = ScheduleChange c"
    | (other) "s' = s" "enqueued_by (ev_kind e) = []" "dispatched_by (ev_kind e) = []" "created_by (ev_kind e) = []"
    using step by (cases "ev_kind e") (auto simp: schedule_event_def)
  then show ?thesis
  proof cases
    case splice
    with step have "try_fold note_enqueue s (sp_inserted sp) = Inr s'" by (simp add: schedule_event_def)
    from note_enqueue_accounts [OF this schedule_invD(5) [OF inv]] show ?thesis
      by (intro accounts_quiet [OF acc]) (simp_all add: splice del: all_by_simps)
  next
    case change
    with step have applied: "schedule_apply ext s (ev_time e) c = Inr s'" by (auto simp: schedule_event_def)
    show ?thesis
    proof (cases c)
      case (ScheduleCreate version r)
      with applied change show ?thesis by (auto intro: create_accounts [OF acc inv])
    next
      case (ScheduleDelete version i)
      with applied have "s' = s\<lparr>sf_active := bt_remove i (sf_active s), sf_armed := bt_remove i (sf_armed s)\<rparr>"
        by (auto simp: schedule_delete_def)
      then show ?thesis
        using change ScheduleDelete schedule_invD(1) [OF inv]
        by (intro accounts_quiet [OF acc]) (auto split: if_splits)
    next
      case (ScheduleDispatch version i accepted message)
      with applied change show ?thesis by (auto intro: dispatch_accounts [OF acc inv])
    next
      case (ScheduleReschedule version i delay scheduled)
      with applied obtain r where r: "bt_get (sf_active s) i = Some r" "is_wakeup r"
        and s': "s' = rearm s i (r\<lparr>sch_scheduled_at := scheduled, sch_rule := RuleWakeup delay\<rparr>)"
        by (auto simp: schedule_reschedule_def)
      have "\<exists>q. bt_get (sf_active s) j = Some q \<and> (fires_once q \<longrightarrow> fires_once r')"
        if "bt_get (sf_active s') j = Some r'" for j r'
        using that r schedule_invD(1) [OF inv] by (auto simp: s' rearm_def fires_once_def split: if_splits)
      then show ?thesis
        using change ScheduleReschedule
        by (intro accounts_quiet [OF acc]) (auto simp: s' rearm_def)
    qed
  next
    case other
    then show ?thesis by (intro accounts_quiet [OF acc]) auto
  qed
qed

lemma replay_accounts:
  "try_fold (schedule_event ext) schedule_default es = Inr s \<Longrightarrow> schedule_ok ext s \<and> accounts s es"
proof (induction es arbitrary: s rule: rev_induct)
  case Nil
  then show ?case using schedule_ok_default accounts_default by simp
next
  case (snoc e es)
  from snoc.prems obtain t where t: "try_fold (schedule_event ext) schedule_default es = Inr t"
      "schedule_event ext t e = Inr s"
    by (auto simp: try_fold_append split: sum.splits)
  with snoc.IH show ?case by (auto intro: schedule_ok_event accounts_event)
qed

section \<open>One creation per schedule\<close>

definition creations :: "string \<Rightarrow> session_event list \<Rightarrow> nat" where
  "creations i es = length (filter (\<lambda>r. sch_id r = i) (all_by created_by es))"

lemma after_dispatch_seen: "after_dispatch ext s i r accepted = Inr s' \<Longrightarrow> sf_seen s' = sf_seen s"
  by (cases "sch_rule r")
    (auto simp: after_dispatch_def retire_schedule_def rearm_def split: if_splits)

lemma seen_step:
  assumes ok: "schedule_ok ext s" and step: "schedule_event ext s e = Inr s'"
  shows "created_by (ev_kind e) = [] \<and> sf_seen s' = sf_seen s
    \<or> (\<exists>r. created_by (ev_kind e) = [r] \<and> \<not> bt_contains (sf_seen s) (sch_id r)
        \<and> sf_seen s' = bt_insert (sch_id r) () (sf_seen s))"
proof -
  consider (splice) sp where "ev_kind e = AgentInboxSplice sp"
    | (change) c where "ev_kind e = ScheduleChange c"
    | (other) "created_by (ev_kind e) = []" "s' = s"
    using step by (cases "ev_kind e") (auto simp: schedule_event_def)
  then show ?thesis
  proof cases
    case splice
    with step have "try_fold note_enqueue s (sp_inserted sp) = Inr s'" by (simp add: schedule_event_def)
    from note_enqueue_accounts [OF this schedule_invD(5) [OF ok [unfolded schedule_ok_def]]] splice
    show ?thesis by simp
  next
    case change
    with step have applied: "schedule_apply ext s (ev_time e) c = Inr s'" by (auto simp: schedule_event_def)
    show ?thesis
    proof (cases c)
      case (ScheduleCreate version r)
      with applied change show ?thesis by (auto simp: schedule_create_def)
    next
      case (ScheduleDelete version i)
      with applied change show ?thesis by (auto simp: schedule_delete_def)
    next
      case (ScheduleDispatch version i accepted message)
      with applied have "schedule_dispatch ext s i accepted message = Inr s'" by auto
      then obtain r where "after_dispatch ext (dispatching s i message) i r accepted = Inr s'"
        unfolding schedule_dispatch_Inr by blast
      from after_dispatch_seen [OF this] change ScheduleDispatch show ?thesis by (simp add: dispatching_def)
    next
      case (ScheduleReschedule version i delay scheduled)
      with applied change show ?thesis by (auto simp: schedule_reschedule_def rearm_def)
    qed
  next
    case other
    then show ?thesis by simp
  qed
qed

lemma replay_creations:
  "try_fold (schedule_event ext) schedule_default es = Inr s \<Longrightarrow>
   creations i es = (if bt_contains (sf_seen s) i then 1 else 0)"
proof (induction es arbitrary: s rule: rev_induct)
  case Nil
  then show ?case by (auto simp: creations_def schedule_default_def bt_empty_def map_eval)
next
  case (snoc e es)
  from snoc.prems obtain t where t: "try_fold (schedule_event ext) schedule_default es = Inr t"
      "schedule_event ext t e = Inr s"
    by (auto simp: try_fold_append split: sum.splits)
  have ok: "schedule_ok ext t" using replay_accounts [OF t(1)] by blast
  have maps: "bt_inv (sf_seen t)" using schedule_invD(3) [OF ok [unfolded schedule_ok_def]] .
  from seen_step [OF ok t(2)] snoc.IH [OF t(1)] maps show ?case
    by (auto simp: creations_def split: if_splits)
qed

section \<open>The next target of a recurring cron schedule\<close>

text \<open>
  A recurring schedule is only ever delayed, so the search stops at the first occurrence: its
  target is the next occurrence after the reference, later by the id's jitter.
\<close>

lemma recurring_cron_target:
  assumes "next_cron_target ext i spec after True = Inr (t, j)"
  shows "\<exists>base bound. next_cron_base (ce_calendar ext) spec after = Inr base
    \<and> cron_jitter_bound (ce_calendar ext) spec base True = Inr bound
    \<and> j = deterministic_jitter (ce_sha256 ext) i bound \<and> t = base + j
    \<and> after < base \<and> 0 \<le> j \<and> j \<le> recurring_jitter_max_ms"
proof -
  from assms obtain base bound where base: "next_cron_base (ce_calendar ext) spec after = Inr base"
    and bound: "cron_jitter_bound (ce_calendar ext) spec base True = Inr bound"
    and rest: "(if after < base + deterministic_jitter (ce_sha256 ext) i bound
        then Inr (base + deterministic_jitter (ce_sha256 ext) i bound, deterministic_jitter (ce_sha256 ext) i bound)
        else cron_target_from ext i spec after True base) = Inr (t, j)"
    unfolding next_cron_target_def cron_target_from.simps [of ext i spec after True after] Let_def and_then_Inr
      ok_or_Inr by (auto simp: checked_i64_def split: if_splits)
  have range: "0 \<le> deterministic_jitter (ce_sha256 ext) i bound"
    "deterministic_jitter (ce_sha256 ext) i bound \<le> max 0 bound"
    using jitter_range [of "ce_sha256 ext" i bound] by simp_all
  have "bound \<le> recurring_jitter_max_ms"
    using bound by (auto simp: cron_jitter_bound_def recurring_jitter_max_ms_def split: if_splits)
  with range(2) have "deterministic_jitter (ce_sha256 ext) i bound \<le> recurring_jitter_max_ms"
    by (simp add: recurring_jitter_max_ms_def max_def split: if_splits)
  moreover have "after < base" by (rule next_cron_base_after [OF base])
  ultimately show ?thesis using base bound range(1) rest by (auto split: if_splits)
qed

end
