(* ===== verification/Schedule_Properties.thy ===== *)
theory Schedule_Properties
  imports Schedule_Laws Damage_Properties
begin

text \<open>
  The properties of schedules: what is live after a log, how often a schedule fires and what each
  dispatch answers, where the next target lies, and what happens to a cron schedule when the time
  zone of the process changes.
\<close>

section \<open>A sample log\<close>

definition quiet_cron :: cron_ext where
  "quiet_cron = \<lparr>ce_calendar = no_calendar, ce_sha256 = \<lambda>_. replicate 32 (CHR 0x00)\<rparr>"

definition every_second :: schedule_record where
  "every_second =
     \<lparr>sch_id = ''e'', sch_prompt = ''go'', sch_scheduled_at = 2000, sch_rule = RuleEvery 1000,
      sch_created_at = 1000, sch_expires_at = None, sch_jitter = 0\<rparr>"

definition once_only :: schedule_record where
  "once_only =
     \<lparr>sch_id = ''o'', sch_prompt = ''go'', sch_scheduled_at = 2000, sch_rule = RuleAt,
      sch_created_at = 0, sch_expires_at = None, sch_jitter = 0\<rparr>"

definition due :: "string \<Rightarrow> string \<Rightarrow> inbox_message" where
  "due m i = \<lparr>im_id = m, im_delivery = FollowUp, im_text = ''go'', im_source = SourceSchedule i 2000\<rparr>"

definition schedule_log :: "session_event list" where
  "schedule_log =
     [sample_event 0 (ScheduleChange (ScheduleCreate 2 every_second)),
      sample_event 1 (ScheduleChange (ScheduleCreate 2 once_only)),
      sample_event 2 (AgentInboxSplice \<lparr>sp_target = NextTurn, sp_start = 0, sp_removed = None,
        sp_inserted = [due ''m1'' ''e'', due ''m2'' ''o''], sp_outcome = None\<rparr>),
      sample_event 3 (ScheduleChange (ScheduleDispatch 2 ''e'' 4500 ''m1'')),
      sample_event 4 (ScheduleChange (ScheduleDispatch 2 ''o'' 4500 ''m2''))]"

definition schedule_sample :: schedule_fold where
  "schedule_sample =
     \<lparr>sf_active = [(''e'', every_second\<lparr>sch_scheduled_at := 5000\<rparr>)], sf_armed = [(''e'', ())],
      sf_seen = [(''e'', ()), (''o'', ())], sf_counts = [(''e'', 1), (''o'', 1)],
      sf_enqueues = [(''m1'', ''e'', 2000), (''m2'', ''o'', 2000)],
      sf_dispatched = [(''m1'', ()), (''m2'', ())]\<rparr>"

lemmas schedule_eval =
  schedule_event_def schedule_create_def schedule_dispatch_def note_enqueue_def dispatch_count_def
  after_dispatch_def retire_schedule_def rearm_def every_target_def saturate_i64_def in_i64_def i64_max_def
  i64_min_def u64_max_def checked_add_u64_def saturating_add_u64_def
  schedule_validate_def schedule_id_validate_def rule_validate_def known_schedule_version_def
  schedule_change_version_def legacy_schedule_change_version_def max_schedule_prompt_bytes_def
  max_schedule_id_bytes_def min_schedule_every_ms_def max_active_schedules_def inbox_id_new_def
  schedule_default_def sample_event_def

lemma schedule_log_replays: "project_schedules quiet_cron 0 schedule_log = Inr schedule_sample"
  unfolding project_schedules_def schedule_log_def schedule_sample_def
  by (simp add: schedule_eval inbox_eval every_second_def once_only_def due_def plain_text_ok checked_i64_def refuse_if_def)

section \<open>What is live\<close>

text \<open>
  C32: every live schedule of a log that replays is well formed. It stands under its own id, for
  which the log has exactly one creation, its target is not negative, and it owns a timer unless it
  is a wakeup that waits to be rescheduled; and where the calendar reads its own instants back, it
  still passes the validation it passed when it was created, whatever rule moved its target since.
  No id at all is created twice.
\<close>

theorem schedules_well_formed:
  assumes "project_schedules ext start es = Inr p"
  shows "(\<forall>i r. bt_get (sf_active p) i = Some r \<longrightarrow>
        sch_id r = i \<and> creations i (local_log start es) = 1 \<and> 0 \<le> sch_scheduled_at r
        \<and> (bt_contains (sf_armed p) i \<or> is_wakeup r)
        \<and> (zone_consistent (ce_calendar ext) \<longrightarrow> schedule_validate ext r = Inr ()))
    \<and> (\<forall>i. creations i (local_log start es) \<le> 1)"
proof -
  have ok: "schedule_ok ext p"
    using assms schedules.good_replay unfolding project_schedules_def by blast
  note once = replay_creations [OF assms [unfolded project_schedules_def local_log_def [symmetric]]]
  have "sch_id r = i \<and> creations i (local_log start es) = 1 \<and> 0 \<le> sch_scheduled_at r
      \<and> (bt_contains (sf_armed p) i \<or> is_wakeup r)
      \<and> (zone_consistent (ce_calendar ext) \<longrightarrow> schedule_validate ext r = Inr ())"
    if "bt_get (sf_active p) i = Some r" for i r
    using schedule_invD(7) [OF ok [unfolded schedule_ok_def] that] once by (simp add: record_ok_def)
  with once show ?thesis by simp
qed

theorem schedules_well_formed_witness:
  "schedule_validate quiet_cron (every_second\<lparr>sch_scheduled_at := 5000\<rparr>) = Inr () \<and> creations ''e'' schedule_log = 1"
proof -
  have zone: "zone_consistent (ce_calendar quiet_cron)"
    by (simp add: zone_consistent_def quiet_cron_def no_calendar_def cron_candidate_def)
  have active: "bt_get (sf_active schedule_sample) ''e'' = Some (every_second\<lparr>sch_scheduled_at := 5000\<rparr>)"
    by (simp add: schedule_sample_def map_eval)
  have log: "local_log 0 schedule_log = schedule_log" by (simp add: local_log_def)
  show ?thesis
    using schedules_well_formed [OF schedule_log_replays, unfolded log] active zone by blast
qed

section \<open>Dispatches\<close>

lemma project_schedules_accounts:
  assumes "project_schedules ext start es = Inr p"
  shows "accounts p (local_log start es)"
  using replay_accounts assms unfolding project_schedules_def local_log_def by blast

text \<open>
  C13: no dispatch is counted twice, and each answers an enqueue. The messages that a log
  dispatches are distinct; each was enqueued before for that very schedule and occurrence, while
  the schedule was live with a timer and not due later than the acceptance; and the dispatch count
  of a schedule is the number of its dispatches.
\<close>

theorem dispatches_answer_one_enqueue:
  assumes "project_schedules ext start es = Inr p"
  shows "distinct (map fst (all_by dispatched_by (local_log start es)))
    \<and> dispatch_count p i = min u64_max (fires i (local_log start es))
    \<and> (\<forall>pre e post version m accepted.
         local_log start es = pre @ e # post
         \<longrightarrow> ev_kind e = ScheduleChange (ScheduleDispatch version i accepted m) \<longrightarrow>
         (\<exists>q r. project_schedules ext start pre = Inr q
            \<and> bt_get (sf_active q) i = Some r \<and> bt_contains (sf_armed q) i
            \<and> (m, i, sch_scheduled_at r) \<in> set (all_by enqueued_by pre) \<and> sch_scheduled_at r \<le> accepted))"
proof (intro conjI allI impI)
  note acc = project_schedules_accounts [OF assms]
  show "distinct (map fst (all_by dispatched_by (local_log start es)))" by (rule accountsD(3) [OF acc])
  show "dispatch_count p i = min u64_max (fires i (local_log start es))" by (rule accountsD(4) [OF acc])
  fix pre e post version m accepted
  assume split: "local_log start es = pre @ e # post"
    and e: "ev_kind e = ScheduleChange (ScheduleDispatch version i accepted m)"
  have all: "\<forall>x \<in> set pre. start \<le> ev_seq x"
  proof -
    have "\<forall>x \<in> set (local_log start es). start \<le> ev_seq x" by (simp add: local_log_def)
    then show ?thesis by (simp add: split)
  qed
  from assms split have "try_fold (schedule_event ext) schedule_default (pre @ e # post) = Inr p"
    by (simp add: project_schedules_def local_log_def)
  then obtain q t where q: "try_fold (schedule_event ext) schedule_default pre = Inr q"
    and t: "schedule_event ext q e = Inr t"
    by (auto simp: try_fold_append split: sum.splits)
  from t e have "schedule_dispatch ext q i accepted m = Inr t" by (simp add: schedule_event_def)
  then obtain r where r: "bt_get (sf_enqueues q) m = Some (i, sch_scheduled_at r)"
    "bt_get (sf_active q) i = Some r" "sch_scheduled_at r \<le> accepted" "bt_contains (sf_armed q) i"
    unfolding schedule_dispatch_Inr by blast
  have "project_schedules ext start pre = Inr q" using q all by (simp add: project_schedules_def)
  moreover have "(m, i, sch_scheduled_at r) \<in> set (all_by enqueued_by pre)"
    using accountsD(1) [OF _ r(1)] replay_accounts [OF q] by blast
  ultimately show "\<exists>q r. project_schedules ext start pre = Inr q
      \<and> bt_get (sf_active q) i = Some r \<and> bt_contains (sf_armed q) i
      \<and> (m, i, sch_scheduled_at r) \<in> set (all_by enqueued_by pre) \<and> sch_scheduled_at r \<le> accepted"
    using r by blast
qed

theorem dispatches_answer_one_enqueue_witness: "fires ''e'' schedule_log = 1"
proof -
  have "local_log 0 schedule_log = schedule_log" by (simp add: local_log_def)
  moreover have "dispatch_count schedule_sample ''e'' = 1"
    by (simp add: dispatch_count_def schedule_sample_def map_eval)
  ultimately have "min u64_max (fires ''e'' schedule_log) = 1"
    using dispatches_answer_one_enqueue [OF schedule_log_replays, of "''e''"] by simp
  then show ?thesis by (simp add: u64_max_def min_def split: if_splits)
qed

text \<open>
  C23: a one-shot fires at most once in its whole log, and once it has fired it is no longer live.
  Wakeups do not count: they may be rescheduled.
\<close>

theorem one_shots_fire_once:
  assumes "project_schedules ext start es = Inr p"
    and "r \<in> set (all_by created_by (local_log start es))" "one_shot r" "\<not> is_wakeup r"
  shows "fires (sch_id r) (local_log start es) \<le> 1
    \<and> (fires (sch_id r) (local_log start es) = 1 \<longrightarrow> \<not> bt_contains (sf_active p) (sch_id r))"
proof -
  note acc = project_schedules_accounts [OF assms(1)]
  have once: "fires_once r" using assms(3,4) by (simp add: fires_once_def)
  have "fires (sch_id r) (local_log start es) = 0" if "bt_contains (sf_active p) (sch_id r)"
    using accountsD(8) [OF acc assms(2) once] that by auto
  with accountsD(7) [OF acc assms(2) once] show ?thesis by fastforce
qed

theorem one_shots_fire_once_witness: "fires ''o'' schedule_log \<le> 1"
proof -
  have log: "local_log 0 schedule_log = schedule_log" by (simp add: local_log_def)
  have "once_only \<in> set (all_by created_by schedule_log)"
    by (simp add: all_by_def schedule_log_def sample_event_def)
  with one_shots_fire_once [OF schedule_log_replays, of once_only] log show ?thesis
    by (simp add: one_shot_def is_wakeup_def once_only_def)
qed

section \<open>The next target\<close>

text \<open>
  C30: a recurring schedule that fires is armed again in the future. A fixed rate goes to the first
  point of its own grid after the acceptance. A recurring cron schedule that has not expired goes
  to the next occurrence that the search finds after the acceptance, delayed by its jitter, which
  is stored with it: what the digest of its id gives within the bound of that occurrence, at most
  thirty minutes. That occurrence matches the expression wherever the calendar reads the instants it
  gives back as the wall-clock times it gave them for (\<open>zone_consistent\<close>). Every other
  schedule but a wakeup is retired. (The acceptance is an \<open>i64\<close>.)
\<close>

theorem recurring_targets_advance:
  assumes "project_schedules ext start es = Inr p" "bt_get (sf_active p) i = Some r"
    and "schedule_dispatch ext p i accepted m = Inr p'" "accepted \<le> i64_max"
  shows "case sch_rule r of
      RuleEvery every \<Rightarrow>
        (\<exists>t. bt_get (sf_active p') i = Some (r\<lparr>sch_scheduled_at := t\<rparr>) \<and> bt_contains (sf_armed p') i
           \<and> accepted < t \<and> t \<le> accepted + int every \<and> (t - sch_scheduled_at r) mod int every = 0)
    | RuleCron expression recurring zone \<Rightarrow>
        if recurring \<and> \<not> expired r accepted
        then (\<exists>spec base bound j. cron_parse expression = Inr spec
           \<and> bt_get (sf_active p') i = Some (r\<lparr>sch_scheduled_at := base + j, sch_jitter := j\<rparr>)
           \<and> bt_contains (sf_armed p') i
           \<and> next_cron_base (ce_calendar ext) spec accepted = Inr base \<and> accepted < base
           \<and> cron_jitter_bound (ce_calendar ext) spec base True = Inr bound
           \<and> j = deterministic_jitter (ce_sha256 ext) i bound
           \<and> 0 \<le> j \<and> j \<le> recurring_jitter_max_ms
           \<and> (zone_consistent (ce_calendar ext) \<longrightarrow> matches_timestamp (ce_calendar ext) spec base))
        else bt_get (sf_active p') i = None
    | RuleWakeup delay \<Rightarrow> bt_get (sf_active p') i = (if expired r accepted then None else Some r)
    | _ \<Rightarrow> bt_get (sf_active p') i = None"
proof -
  have inv: "schedule_inv ext {} p"
    using assms(1) schedules.good_replay unfolding project_schedules_def schedule_ok_def by blast
  note maps = schedule_invD(1,2) [OF inv]
  from assms(2,3) have due: "sch_scheduled_at r \<le> accepted"
    and after: "after_dispatch ext (dispatching p i m) i r accepted = Inr p'"
    unfolding schedule_dispatch_Inr by auto
  have "0 \<le> sch_scheduled_at r" using schedule_invD(7) [OF inv assms(2)] by (simp add: record_ok_def)
  then have range: "accepted - sch_scheduled_at r \<le> i64_max" using assms(4) by linarith
  have same: "sf_active (dispatching p i m) = sf_active p" "bt_inv (sf_armed (dispatching p i m))"
    using maps by (simp_all add: dispatching_def)
  show ?thesis
  proof (cases "sch_rule r")
    case (RuleEvery every)
    with after obtain t where t: "every_target every (sch_scheduled_at r) accepted = Inr t"
      "p' = rearm (dispatching p i m) i (r\<lparr>sch_scheduled_at := t\<rparr>)" by (auto simp: after_dispatch_def)
    have "bt_get (sf_active p') i = Some (r\<lparr>sch_scheduled_at := t\<rparr>)" "bt_contains (sf_armed p') i"
      using maps same by (simp_all add: t(2) rearm_def)
    then show ?thesis
      using every_target_Inr [OF t(1) due range] unfolding RuleEvery schedule_rule.case
      by (intro exI [of _ t] conjI) simp_all
  next
    case (RuleCron expression recurring zone)
    show ?thesis
    proof (cases "recurring \<and> \<not> expired r accepted")
      case False
      with after RuleCron have "p' = retire_schedule (dispatching p i m) i" by (auto simp: after_dispatch_def)
      with False RuleCron maps same show ?thesis by (auto simp: retire_schedule_def)
    next
      case True
      with after RuleCron obtain spec t j where spec: "cron_parse expression = Inr spec"
        and target: "next_cron_target ext i spec accepted True = Inr (t, j)"
        and p': "p' = rearm (dispatching p i m) i (r\<lparr>sch_scheduled_at := t, sch_jitter := j\<rparr>)"
        by (auto simp: after_dispatch_def)
      from recurring_cron_target [OF target] obtain base bound where
        t: "next_cron_base (ce_calendar ext) spec accepted = Inr base"
        "cron_jitter_bound (ce_calendar ext) spec base True = Inr bound"
        "j = deterministic_jitter (ce_sha256 ext) i bound" "t = base + j"
        "accepted < base" "0 \<le> j" "j \<le> recurring_jitter_max_ms" by blast
      have "zone_consistent (ce_calendar ext) \<longrightarrow> matches_timestamp (ce_calendar ext) spec base"
        using next_base_matches [OF _ cron_parse_ok [OF spec] t(1)] by blast
      moreover have "bt_get (sf_active p') i = Some (r\<lparr>sch_scheduled_at := base + j, sch_jitter := j\<rparr>)"
        "bt_contains (sf_armed p') i"
        using maps same by (simp_all add: p' rearm_def t(4))
      ultimately show ?thesis
        using True spec t unfolding RuleCron schedule_rule.case by (simp only: simp_thms if_True) blast
    qed
  qed (use after maps same assms(2) in \<open>auto simp: after_dispatch_def retire_schedule_def split: if_splits\<close>)
qed

section \<open>The next occurrence\<close>

text \<open>
  C22: in a zone without transitions the target a cron expression is given is its next occurrence:
  it matches the expression, it lies after the reference, and no instant in between matches.
\<close>

theorem cron_next_is_earliest:
  assumes "zone_consistent cal" "zone_regular cal"
    and "cron_parse expression = Inr spec" "next_cron_base cal spec after = Inr t"
  shows "after < t \<and> matches_timestamp cal spec t
    \<and> (\<forall>u. after < u \<longrightarrow> u < t \<longrightarrow> \<not> matches_timestamp cal spec u)"
  using next_base_matches [OF assms(1) cron_parse_ok [OF assms(3)] assms(4)]
    next_cron_base_after [OF assms(4)] next_base_least [OF assms(2) cron_parse_ok [OF assms(3)] assms(4)]
  by (auto simp: not_less [symmetric])

text \<open>A zone at a fixed offset, in minutes from UTC.\<close>

definition fixed_zone :: "int \<Rightarrow> calendar" where
  "fixed_zone offset =
     \<lparr>ca_local = \<lambda>t. let w = t + offset * 60000 in
        LocalSingle \<lparr>lm_instant = t, lm_date = w div 86400000, lm_hour = nat (w mod 86400000 div 3600000),
          lm_minute = nat (w mod 3600000 div 60000)\<rparr>,
      ca_instant = \<lambda>d h m. if h < 24 \<and> m < 60
        then LocalSingle (d * 86400000 + int h * 3600000 + int m * 60000 - offset * 60000) else LocalNone,
      ca_next_day = \<lambda>d. Some (d + 1), ca_month = \<lambda>_. 1, ca_day = \<lambda>_. 1,
      ca_weekday = \<lambda>d. nat ((d + 4) mod 7)\<rparr>"

lemma fixed_candidate:
  "cron_candidate (fixed_zone offset) d hm = Some t \<longleftrightarrow>
     fst hm < 24 \<and> snd hm < 60
     \<and> t = d * 86400000 + int (fst hm) * 3600000 + int (snd hm) * 60000 - offset * 60000"
  by (auto simp: cron_candidate_def fixed_zone_def)

lemma quotient_parts:
  fixes q r k :: int
  assumes "0 \<le> r" "r < k" "w = q * k + r"
  shows "w div k = q" "w mod k = r"
  using assms by simp_all

lemma clock_parts:
  assumes "h < 24" "m < 60" and w: "w = d * 86400000 + int h * 3600000 + int m * 60000"
  shows "w div 86400000 = d \<and> nat (w mod 86400000 div 3600000) = h \<and> nat (w mod 3600000 div 60000) = m"
proof -
  define minutes where "minutes = int m * 60000"
  have m: "0 \<le> minutes" "minutes < 3600000" "minutes div 60000 = int m"
    using assms(2) by (simp_all add: minutes_def)
  define hours where "hours = int h * 3600000 + minutes"
  have h: "0 \<le> hours" "hours < 86400000" using assms(1) m by (simp_all add: hours_def)
  have "w = d * 86400000 + hours" by (simp add: w hours_def minutes_def)
  from quotient_parts [OF h this] have d: "w div 86400000 = d" "w mod 86400000 = hours" .
  have "w = (d * 24 + int h) * 3600000 + minutes" by (simp add: w minutes_def)
  from quotient_parts(2) [OF m(1,2) this] have "w mod 3600000 = minutes" .
  moreover from quotient_parts(1) [OF m(1,2) hours_def] have "hours div 3600000 = int h" .
  ultimately show ?thesis by (simp only: d m(3) nat_int simp_thms)
qed

lemma fixed_zone_consistent: "zone_consistent (fixed_zone offset)"
  unfolding zone_consistent_def fixed_candidate
proof (intro allI impI)
  fix d :: int and hm :: "nat \<times> nat" and t :: int
  assume a: "fst hm < 24 \<and> snd hm < 60
    \<and> t = d * 86400000 + int (fst hm) * 3600000 + int (snd hm) * 60000 - offset * 60000"
  then have "t = (d * 1440 + int (fst hm) * 60 + int (snd hm) - offset) * 60000" by simp
  then have "t mod 60000 = 0" by simp
  moreover from a have "t + offset * 60000 = d * 86400000 + int (fst hm) * 3600000 + int (snd hm) * 60000" by simp
  from clock_parts [OF _ _ this] a have "(t + offset * 60000) div 86400000 = d
      \<and> nat ((t + offset * 60000) mod 86400000 div 3600000) = fst hm
      \<and> nat ((t + offset * 60000) mod 3600000 div 60000) = snd hm" by blast
  ultimately show "t mod 60000 = 0 \<and> (\<exists>m. ca_local (fixed_zone offset) t = LocalSingle m \<and> lm_date m = d
      \<and> lm_hour m = fst hm \<and> lm_minute m = snd hm)"
    by (simp add: fixed_zone_def Let_def)
qed

lemma fixed_zone_regular: "zone_regular (fixed_zone offset)"
  unfolding zone_regular_def
proof (intro conjI)
  let ?cal = "fixed_zone offset"
  show "\<forall>d d'. ca_next_day ?cal d = Some d' \<longrightarrow> d' = d + 1" by (simp add: fixed_zone_def)
  show "\<forall>d hm t d' hm' t'. cron_candidate ?cal d hm = Some t \<longrightarrow> cron_candidate ?cal d' hm' = Some t' \<longrightarrow>
      d < d' \<or> (d = d' \<and> clock_less hm hm') \<longrightarrow> t < t'"
    unfolding fixed_candidate clock_less_def by (intro allI impI) (elim conjE disjE; linarith)
  show "\<forall>t. \<exists>m. ca_local ?cal t = LocalSingle m
      \<and> (t mod 60000 = 0 \<longrightarrow> cron_candidate ?cal (lm_date m) (lm_hour m, lm_minute m) = Some t)"
  proof
    fix t :: int
    define w where "w = t + offset * 60000"
    define d where "d = w div 86400000"
    define r where "r = w mod 86400000"
    define s where "s = w mod 3600000"
    define h where "h = r div 3600000"
    define m where "m = s div 60000"
    have r: "0 \<le> r" "r < 86400000" by (simp_all add: r_def)
    have s: "0 \<le> s" "s < 3600000" "s = r mod 3600000" by (simp_all add: s_def r_def mod_mod_cancel)
    have h: "0 \<le> h" "h < 24" using r by (simp_all add: h_def)
    have m: "0 \<le> m" "m < 60" using s by (simp_all add: m_def)
    have "cron_candidate ?cal d (nat h, nat m) = Some t" if "t mod 60000 = 0"
    proof -
      have "w = d * 86400000 + r" by (simp add: d_def r_def)
      moreover have "r = h * 3600000 + s" by (simp add: h_def s(3))
      moreover have "s mod 60000 = 0" using that by (simp add: s_def w_def mod_mod_cancel)
      then have "s = m * 60000" by (auto simp: m_def)
      moreover have "t = w - offset * 60000" by (simp add: w_def)
      ultimately have "t = d * 86400000 + int (nat h) * 3600000 + int (nat m) * 60000 - offset * 60000"
        using h(1) m(1) by simp
      moreover have "nat h < 24" "nat m < 60" using h m by linarith+
      ultimately show ?thesis unfolding fixed_candidate fst_conv snd_conv by blast
    qed
    moreover have "ca_local ?cal t = LocalSingle \<lparr>lm_instant = t, lm_date = d, lm_hour = nat h, lm_minute = nat m\<rparr>"
      by (simp add: fixed_zone_def Let_def w_def [symmetric] d_def h_def m_def r_def s_def)
    ultimately show "\<exists>m. ca_local ?cal t = LocalSingle m
        \<and> (t mod 60000 = 0 \<longrightarrow> cron_candidate ?cal (lm_date m) (lm_hour m, lm_minute m) = Some t)"
      by simp
  qed
  show "\<forall>t u m n. ca_local ?cal t = LocalSingle m \<longrightarrow> ca_local ?cal u = LocalSingle n \<longrightarrow> t \<le> u \<longrightarrow>
      lm_date m \<le> lm_date n"
    by (auto simp: fixed_zone_def Let_def intro!: zdiv_mono1)
qed

text \<open>Five past four on a Monday.\<close>

definition monday_spec :: cron_spec where
  "monday_spec =
     \<lparr>cs_canonical = ''5 4 1 1 1'',
      cs_minute = \<lparr>cf_values = [(5, ())], cf_unrestricted = False\<rparr>,
      cs_hour = \<lparr>cf_values = [(4, ())], cf_unrestricted = False\<rparr>,
      cs_day_of_month = \<lparr>cf_values = [(1, ())], cf_unrestricted = False\<rparr>,
      cs_month = \<lparr>cf_values = [(1, ())], cf_unrestricted = False\<rparr>,
      cs_day_of_week = \<lparr>cf_values = [(1, ())], cf_unrestricted = False\<rparr>\<rparr>"

lemma monday_words: "split_whitespace ''5 4 1 1 1'' = [''5'', ''4'', ''1'', ''1'', ''1'']"
  by (simp add: split_whitespace_def utf8_width_def byte_val_def Let_def blank_chunk_def is_whitespace_def)

text \<open>A field of one digit.\<close>

lemma digit_field:
  assumes "is_ascii_digit c" "n = byte_val c - 48" "minimum \<le> n" "n \<le> maximum" "n < 7"
  shows "cron_field_parse [c] minimum maximum sunday_seven = Inr \<lparr>cf_values = [(n, ())], cf_unrestricted = False\<rparr>"
proof -
  have c: "c \<noteq> CHR ''+''" "c \<noteq> CHR '',''" "c \<noteq> CHR ''/''" "c \<noteq> CHR ''-''" "c \<noteq> CHR ''*''"
    using assms(1) by (auto simp: is_ascii_digit_def byte_in_def byte_val_def)
  have n: "parse_cron_value [c] minimum maximum = Inr n"
    using assms c by (simp add: parse_cron_value_def parse_u32_def parse_u64_def Let_def digits_val_def u64_max_def
        u32_max_def ok_or_def)
  have fill: "cron_fill sunday_seven 1 n n bt_empty = [(n, ())]"
    using assms(5) by (simp add: cron_fill.simps set_insert_def bt_empty_def)
  show ?thesis
    using c n fill
    by (simp add: cron_field_parse_def cron_item_def cron_step_def cron_range_def Let_def split_once_None
        refuse_if_def)
qed

lemma monday_parsed: "cron_parse ''5 4 1 1 1'' = Inr monday_spec"
proof -
  have digits: "is_ascii_digit (CHR ''5'')" "is_ascii_digit (CHR ''4'')" "is_ascii_digit (CHR ''1'')"
    by (simp_all add: is_ascii_digit_def byte_in_def byte_val_def)
  show ?thesis
    unfolding cron_parse_def monday_words Let_def
    by (simp add: digit_field [OF digits(1) refl] digit_field [OF digits(2) refl] digit_field [OF digits(3) refl]
        byte_val_def monday_spec_def refuse_if_def)
qed

lemma monday_next: "next_cron_base (fixed_zone 0) monday_spec 1000 = Inr 14700000"
proof -
  obtain n where days: "cron_search_days = Suc n"
    using not0_implies_Suc [of cron_search_days] by (auto simp: cron_search_days_def)
  show ?thesis
    unfolding next_cron_base_def days
    by (simp add: local_at_def fixed_zone_def Let_def monday_spec_def
      matches_date_def day_target_def day_times_def cron_candidate_def List.map_filter_def bt_keys_def map_eval)
qed

theorem cron_next_is_earliest_witness: "\<not> matches_timestamp (fixed_zone 0) monday_spec 60000"
  using cron_next_is_earliest [OF fixed_zone_consistent fixed_zone_regular monday_parsed monday_next] by simp

section \<open>Another time zone\<close>

definition in_zone :: "log_ext \<Rightarrow> calendar \<Rightarrow> log_ext" where
  "in_zone ext cal =
     ext\<lparr>lx_payload := (lx_payload ext)\<lparr>pe_cron := (pe_cron (lx_payload ext))\<lparr>ce_calendar := cal\<rparr>\<rparr>\<rparr>"

text \<open>
  C28: a session with a cron schedule can lock itself out by moving. The validation of a stored
  schedule reads its target in the time zone of the process: after the creation of a cron schedule was
  accepted and committed in one zone, a process in a zone where the target is no occurrence of the
  expression refuses the whole log, although it opened the log without that event. Of
  serde\_json it is assumed that it reads back the line it prints of this very event, which
  holds no JSON value (\<open>faithful_for\<close> its kind).
\<close>

theorem cron_schedule_locks_other_zone:
  assumes "open_session (in_zone ext cal) (w_store w) (session_key s) = Inr (s\<lparr>se_writer := None, se_published := []\<rparr>)"
    and "w_store w (session_key s) = Some (StoredDir (LogFile raw))"
    and "append_session ext now WriteAll (ScheduleChange (ScheduleCreate version r)) (w, s) = (Inr e, w', s')"
    and "faithful_for (\<lambda>k. k = ScheduleChange (ScheduleCreate version r)) ext" "sch_rule r = RuleCron expression recurring zone"
    and "cron_parse expression = Inr spec" "\<not> matches_timestamp cal spec (sch_scheduled_at r - sch_jitter r)"
  shows "open_session (in_zone ext cal) (w_store w') (session_key s) =
    Inl (InvalidEvent (Suc (length (log_lines raw))) (BadPayload InvalidPayload))"
proof -
  let ?k = "ScheduleChange (ScheduleCreate version r)"
  let ?there = "in_zone ext cal"
  have rb: "reads_back ?there (w_store w) s" using assms(1) by (simp add: reads_back_def as_read_def)
  from append_session_kind [OF assms(3)] obtain sp l where
    p: "prepare_event ext now w s ?k = Inr (e, sp, l)"
    "w_store w' = append_bytes (session_key s) (l @ [newline]) (w_store w)"
    by (auto simp: append_kind_def split: sum.splits)
  note parts = p(1) [unfolded prepare_event_Inr]
  have e: "e = stamp now (length (se_events s)) ?k" and enc: "lx_encode ext e = Some l" using parts by auto
  have w': "w_store w' = (w_store w)(session_key s \<mapsto> StoredDir (LogFile (raw @ l @ [newline])))"
    using assms(2) p(2) by (simp add: append_bytes_def)
  from reads_backE [OF rb] obtain raw' where
    raw': "w_store w (session_key s) = Some (StoredDir (LogFile raw'))" "se_bytes s = length raw'" by blast
  have reserved: "reserve s 1 (length l + 1) = Inr ()" using parts by blast
  have bounds: "length (raw @ l @ [newline]) \<le> max_session_log_bytes"
    "length (se_events s) < max_logical_session_events"
    using raw' reserved assms(2) by (simp_all add: reserve_Inr)
  have line: "line_of ext e l" "newline \<notin> set l" "valid_utf8 l"
  proof -
    have "validate_for_version (lx_payload ext) current_session_log_version ?k = Inr ()" using parts by blast
    moreover have "ev_v e = current_session_log_version" "ev_kind e = ?k" by (simp_all add: e)
    ultimately show "line_of ext e l" using faithful_forD [OF assms(4) enc] by simp
    then show "newline \<notin> set l" "valid_utf8 l" by (simp_all add: line_of_def)
  qed
  have read: "lx_head ?there l = Some (ev_v e, ev_seq e, ev_time e, kind_name ?k)" "lx_kind ?there l = Some ?k"
    using line(1) by (simp_all add: line_of_def in_zone_def e)
  have known: "known_kinds (ev_v e) = Inr known_kinds_v2"
    by (simp add: e known_kinds_def current_session_log_version_def)
  have "cron_rule_validate (pe_cron (lx_payload ?there)) r expression recurring \<noteq> Inr ()"
    using assms(6,7) by (auto simp: cron_rule_parts in_zone_def)
  then have "schedule_validate_shape (pe_cron (lx_payload ?there)) (ScheduleCreate version r) \<noteq> Inr ()"
    using assms(5) by (auto simp: validate_parts rule_validate_def)
  then have shape: "validate_for_version (lx_payload ?there) (ev_v e) ?k = Inl InvalidPayload"
    by (auto simp: e current_session_log_version_def since_v2_def is_ok_iff refuse_if_def)
  have parse: "parse_line_unsequenced ?there n l = Inl (InvalidEvent n (BadPayload InvalidPayload))" for n
    using kind_name_known [of ?k]
    by (simp add: parse_line_unsequenced_def read known shape ok_or_def refuse_if_def
        del: kind_name.simps validate_for_version.simps)
  show ?thesis
    unfolding w' by (rule last_line_refused [OF rb assms(2) line(2) _ bounds parse])
      (use line(3) valid_utf8_text_of_lines [of "[l]"] in \<open>simp add: text_of_lines_def\<close>)
qed

definition monday_schedule :: schedule_record where
  "monday_schedule =
     \<lparr>sch_id = ''c'', sch_prompt = ''go'', sch_scheduled_at = 14700000,
      sch_rule = RuleCron ''5 4 1 1 1'' False ZoneLocal, sch_created_at = 1000, sch_expires_at = None,
      sch_jitter = 0\<rparr>"

definition monday_create :: session_event_kind where
  "monday_create = ScheduleChange (ScheduleCreate 2 monday_schedule)"

definition zone_ext :: log_ext where
  "zone_ext = in_zone (table_ext [(stamp 5 0 monday_create, ''x'')]) (fixed_zone 0)"

lemma zone_faithful: "faithful_for kinds zone_ext"
  by (auto simp: faithful_for_def line_of_def zone_ext_def in_zone_def table_ext_def byte_val_def stamp_def
      split: if_splits intro!: ascii_valid_utf8)

definition zone_created :: "world \<times> session" where
  "zone_created = snd (append_session zone_ext 5 WriteAll monday_create (root_opened, root_fresh))"

lemma monday_matches:
  "matches_timestamp (fixed_zone 0) monday_spec 14700000"
  "\<not> matches_timestamp (fixed_zone 60) monday_spec 14700000"
  by (simp_all add: matches_timestamp_def fixed_zone_def Let_def monday_spec_def matches_date_def map_eval)

lemma monday_valid: "schedule_validate (pe_cron (lx_payload zone_ext)) monday_schedule = Inr ()"
proof -
  have "cron_jitter_bound (fixed_zone 0) monday_spec 14700000 False = Inr 0"
    by (simp add: cron_jitter_bound_def local_at_def fixed_zone_def Let_def)
  then have "cron_rule_validate (pe_cron (lx_payload zone_ext)) monday_schedule ''5 4 1 1 1'' False = Inr ()"
    unfolding cron_rule_parts
    by (simp add: monday_schedule_def zone_ext_def in_zone_def monday_parsed monday_matches in_i64_def
        i64_max_def i64_min_def) (simp add: monday_spec_def)
  then show ?thesis
    by (simp add: validate_parts rule_validate_def monday_schedule_def schedule_id_validate_def
        max_schedule_id_bytes_def max_schedule_prompt_bytes_def plain_text_ok inbox_eval)
qed

lemma zone_creates:
  "append_session zone_ext 5 WriteAll monday_create (root_opened, root_fresh) =
     (Inr (stamp 5 0 monday_create), fst zone_created, snd zone_created)"
  using monday_valid unfolding zone_created_def
  by (simp add: log_eval monday_create_def known_schedule_version_def schedule_change_version_def legacy_schedule_change_version_def
      inbox_eval inbox_default_def root_fresh_def root_opened_eq zone_ext_def in_zone_def table_ext_def root_key_def)

theorem cron_schedule_locks_other_zone_witness:
  "open_session (in_zone zone_ext (fixed_zone 60)) (w_store (fst zone_created)) root_key =
     Inl (InvalidEvent 1 (BadPayload InvalidPayload))"
proof -
  have opens: "open_session (in_zone zone_ext (fixed_zone 60)) (w_store root_opened) (session_key root_fresh) =
      Inr (root_fresh\<lparr>se_writer := None, se_published := []\<rparr>)"
    using create_with_id_reads_back [OF root_created] unfolding reads_back_def as_read_def by blast
  have raw: "w_store root_opened (session_key root_fresh) = Some (StoredDir (LogFile []))"
    by (simp add: root_opened_eq root_fresh_def new_session_def root_key_def)
  have rule: "sch_rule monday_schedule = RuleCron ''5 4 1 1 1'' False ZoneLocal"
    by (simp add: monday_schedule_def)
  have elsewhere: "\<not> matches_timestamp (fixed_zone 60) monday_spec
      (sch_scheduled_at monday_schedule - sch_jitter monday_schedule)"
    using monday_matches(2) by (simp add: monday_schedule_def)
  have "log_lines [] = []" by (simp add: log_lines_def)
  with cron_schedule_locks_other_zone [OF opens raw zone_creates [unfolded monday_create_def] zone_faithful rule
      monday_parsed elsewhere] show ?thesis
    by (simp add: root_fresh_def new_session_def root_key_def)
qed

section \<open>A cron schedule that fires again\<close>

definition monday_again :: schedule_record where
  "monday_again =
     \<lparr>sch_id = ''c'', sch_prompt = ''go'', sch_scheduled_at = 14700000,
      sch_rule = RuleCron ''5 4 1 1 1'' True ZoneLocal, sch_created_at = 1000,
      sch_expires_at = Some (1000 + schedule_expiry_ms), sch_jitter = 0\<rparr>"

definition monday_cron :: cron_ext where
  "monday_cron = pe_cron (lx_payload zone_ext)"

definition monday_due :: inbox_message where
  "monday_due = \<lparr>im_id = ''m1'', im_delivery = FollowUp, im_text = ''go'', im_source = SourceSchedule ''c'' 14700000\<rparr>"

definition monday_log :: "session_event list" where
  "monday_log =
     [sample_event 0 (ScheduleChange (ScheduleCreate 2 monday_again)),
      sample_event 1 (AgentInboxSplice \<lparr>sp_target = NextTurn, sp_start = 0, sp_removed = None,
        sp_inserted = [monday_due], sp_outcome = None\<rparr>)]"

definition monday_armed :: schedule_fold where
  "monday_armed =
     \<lparr>sf_active = [(''c'', monday_again)], sf_armed = [(''c'', ())], sf_seen = [(''c'', ())], sf_counts = [],
      sf_enqueues = [(''m1'', ''c'', 14700000)], sf_dispatched = []\<rparr>"

lemma monday_calendar: "ce_calendar monday_cron = fixed_zone 0"
  "ce_sha256 monday_cron = (\<lambda>_. replicate 32 (CHR 0x00))"
  by (simp_all add: monday_cron_def zone_ext_def in_zone_def table_ext_def plain_payload_def)

lemma monday_days:
  "next_cron_base (fixed_zone 0) monday_spec 14700000 = Inr 101100000"
  "next_cron_base (fixed_zone 0) monday_spec 14700001 = Inr 101100000"
  "next_cron_base (fixed_zone 0) monday_spec 101100000 = Inr 187500000"
proof -
  obtain k where days: "cron_search_days = Suc (Suc k)"
    using not0_implies_Suc [of "cron_search_days - 1"] by (auto simp: cron_search_days_def)
  show "next_cron_base (fixed_zone 0) monday_spec 14700000 = Inr 101100000"
    "next_cron_base (fixed_zone 0) monday_spec 14700001 = Inr 101100000"
    "next_cron_base (fixed_zone 0) monday_spec 101100000 = Inr 187500000"
    unfolding next_cron_base_def days
    by (simp_all add: local_at_def fixed_zone_def Let_def monday_spec_def
      matches_date_def day_target_def day_times_def cron_candidate_def List.map_filter_def bt_keys_def map_eval)
qed

lemma monday_bounds:
  "cron_jitter_bound (fixed_zone 0) monday_spec 14700000 True = Inr recurring_jitter_max_ms"
  "cron_jitter_bound (fixed_zone 0) monday_spec 101100000 True = Inr recurring_jitter_max_ms"
  by (simp_all add: cron_jitter_bound_def monday_days checked_i64_def in_i64_def i64_max_def i64_min_def)

lemma monday_jitter: "deterministic_jitter (\<lambda>_. replicate 32 (CHR 0x00)) i bound = 0"
  by (simp add: deterministic_jitter_def be_value_def byte_val_def eval_nat_numeral)

lemma monday_again_valid: "schedule_validate monday_cron monday_again = Inr ()"
proof -
  have "cron_rule_validate monday_cron monday_again ''5 4 1 1 1'' True = Inr ()"
    unfolding cron_rule_parts
    by (simp add: monday_again_def monday_calendar monday_parsed monday_matches monday_bounds in_i64_def
        i64_max_def i64_min_def expiry_after_def checked_i64_def schedule_expiry_ms_def
        recurring_jitter_max_ms_def) (simp add: monday_spec_def)
  then show ?thesis
    by (simp add: validate_parts rule_validate_def monday_again_def schedule_id_validate_def
        max_schedule_id_bytes_def max_schedule_prompt_bytes_def plain_text_ok inbox_eval schedule_expiry_ms_def)
qed

lemma monday_replays: "project_schedules monday_cron 0 monday_log = Inr monday_armed"
  unfolding project_schedules_def monday_log_def monday_armed_def
  using monday_again_valid
  by (simp add: schedule_event_def schedule_create_def note_enqueue_def known_schedule_version_def
      schedule_change_version_def legacy_schedule_change_version_def max_active_schedules_def
      schedule_default_def sample_event_def inbox_eval monday_due_def refuse_if_def
      monday_again_def inbox_id_new_def)

definition monday_fired :: schedule_fold where
  "monday_fired =
     monday_armed\<lparr>sf_active := [(''c'', monday_again\<lparr>sch_scheduled_at := 101100000, sch_jitter := 0\<rparr>)],
       sf_counts := [(''c'', 1)], sf_dispatched := [(''m1'', ())]\<rparr>"

lemma monday_fires: "schedule_dispatch monday_cron monday_armed ''c'' 14700001 ''m1'' = Inr monday_fired"
proof -
  have "next_cron_target monday_cron ''c'' monday_spec 14700001 True = Inr (101100000, 0)"
    unfolding next_cron_target_def
    by (subst cron_target_from.simps)
      (simp add: monday_calendar monday_days monday_bounds monday_jitter Let_def checked_i64_def in_i64_def
        i64_max_def i64_min_def)
  then show ?thesis
    by (simp add: schedule_dispatch_def after_dispatch_def monday_armed_def monday_fired_def monday_again_def
        monday_parsed expired_def schedule_expiry_ms_def rearm_def dispatch_count_def saturating_add_u64_def
        u64_max_def refuse_if_def map_eval inbox_eval)
qed

theorem recurring_targets_advance_witness:
  "(\<exists>t. bt_get (sf_active schedule_sample) ''e'' = Some (every_second\<lparr>sch_scheduled_at := t\<rparr>)
     \<and> 4500 < t \<and> t \<le> 5500 \<and> (t - 2000) mod 1000 = 0)
   \<and> (\<exists>base j. bt_get (sf_active monday_fired) ''c'' =
        Some (monday_again\<lparr>sch_scheduled_at := base + j, sch_jitter := j\<rparr>)
     \<and> 14700001 < base \<and> 0 \<le> j \<and> j \<le> 1800000 \<and> matches_timestamp (fixed_zone 0) monday_spec base)"
proof -
  let ?p = "schedule_sample\<lparr>sf_active := [(''e'', every_second), (''o'', once_only)],
    sf_armed := [(''e'', ()), (''o'', ())], sf_counts := [], sf_dispatched := []\<rparr>"
  let ?q = "schedule_sample\<lparr>sf_active := [(''e'', every_second\<lparr>sch_scheduled_at := 5000\<rparr>), (''o'', once_only)],
    sf_armed := [(''e'', ()), (''o'', ())], sf_counts := [(''e'', 1)], sf_dispatched := [(''m1'', ())]\<rparr>"
  have log: "project_schedules quiet_cron 0 (take 3 schedule_log) = Inr ?p"
    unfolding project_schedules_def schedule_log_def schedule_sample_def
    by (simp add: schedule_eval inbox_eval every_second_def once_only_def due_def plain_text_ok
        checked_i64_def refuse_if_def)
  have active: "bt_get (sf_active ?p) ''e'' = Some every_second" by (simp add: map_eval)
  have dispatch: "schedule_dispatch quiet_cron ?p ''e'' 4500 ''m1'' = Inr ?q"
    by (simp add: schedule_sample_def schedule_eval every_second_def checked_i64_def refuse_if_def inbox_eval)
  have small: "(4500 :: int) \<le> i64_max" "(14700001 :: int) \<le> i64_max" by (simp_all add: i64_max_def)
  have live: "bt_get (sf_active monday_armed) ''c'' = Some monday_again" by (simp add: monday_armed_def map_eval)
  have rule: "sch_rule monday_again = RuleCron ''5 4 1 1 1'' True ZoneLocal" "\<not> expired monday_again 14700001"
    by (simp_all add: monday_again_def expired_def schedule_expiry_ms_def)
  from recurring_targets_advance [OF monday_replays live monday_fires small(2), unfolded rule(1) schedule_rule.case]
  obtain spec base j where cron: "cron_parse ''5 4 1 1 1'' = Inr spec"
    "bt_get (sf_active monday_fired) ''c'' = Some (monday_again\<lparr>sch_scheduled_at := base + j, sch_jitter := j\<rparr>)"
    "14700001 < base" "0 \<le> j" "j \<le> recurring_jitter_max_ms" "matches_timestamp (fixed_zone 0) spec base"
    using rule(2) fixed_zone_consistent [of 0] unfolding monday_calendar by auto
  have "spec = monday_spec" using cron(1) monday_parsed by simp
  with cron have "\<exists>base j. bt_get (sf_active monday_fired) ''c'' =
        Some (monday_again\<lparr>sch_scheduled_at := base + j, sch_jitter := j\<rparr>)
     \<and> 14700001 < base \<and> 0 \<le> j \<and> j \<le> 1800000 \<and> matches_timestamp (fixed_zone 0) monday_spec base"
    by (auto simp: recurring_jitter_max_ms_def)
  moreover from recurring_targets_advance [OF log active dispatch small(1)]
  have "\<exists>t. bt_get (sf_active schedule_sample) ''e'' = Some (every_second\<lparr>sch_scheduled_at := t\<rparr>)
     \<and> 4500 < t \<and> t \<le> 5500 \<and> (t - 2000) mod 1000 = 0"
    by (simp add: every_second_def schedule_sample_def map_eval)
  ultimately show ?thesis by blast
qed

end
