(* ===== verification/Review_Projection.thy ===== *)
theory Review_Projection
  imports Session_Event Replay "HOL-Library.Sublist"
begin

text \<open>
  The replay of reviews (\<open>project_reviews\<close> in \<open>heycode-session/src/review.rs\<close>): the runs
  by id, each started once and settled at most once, and the reported findings in order.
\<close>

section \<open>State\<close>

datatype review_state = RvRunning | RvCompleted | RvFailed review_failure

record review_run =
  rr_id :: string
  rr_runtime :: string
  rr_base_commit :: string
  rr_patch :: string
  rr_instructions :: string
  rr_state :: review_state
  rr_child_session_id :: "string option"
  rr_summary :: "string option"
  rr_findings :: "review_finding list"

record review_projection =
  rvp_runs :: "(string, review_run) btree_map"
  rvp_reports :: "finding_report list"

definition review_default :: review_projection where
  "review_default = \<lparr>rvp_runs = bt_empty, rvp_reports = []\<rparr>"

datatype review_projection_error = RvInvalidShape nat | RvConflict nat

definition rv_report :: "review_projection \<Rightarrow> string \<Rightarrow> finding_report option" where
  "rv_report p i = List.find (\<lambda>r. fr_id r = i) (rvp_reports p)"

section \<open>Operations\<close>

definition rv_start ::
  "nat \<Rightarrow> review_projection \<Rightarrow> string \<Rightarrow> string \<Rightarrow> string \<Rightarrow> string \<Rightarrow> string
   \<Rightarrow> review_projection_error + review_projection" where
  "rv_start seq p run runtime base patch instructions =
     and_then (refuse_if (bt_contains (rvp_runs p) run) (RvConflict seq)) (\<lambda>_.
       Inr (p\<lparr>rvp_runs := bt_insert run
         \<lparr>rr_id = run, rr_runtime = runtime, rr_base_commit = base, rr_patch = patch,
          rr_instructions = instructions, rr_state = RvRunning, rr_child_session_id = None,
          rr_summary = None, rr_findings = []\<rparr> (rvp_runs p)\<rparr>))"

text \<open>Both settlements look the run up and demand that it is still running.\<close>

definition rv_settle ::
  "nat \<Rightarrow> review_projection \<Rightarrow> string \<Rightarrow> (review_run \<Rightarrow> review_run)
   \<Rightarrow> review_projection_error + review_projection" where
  "rv_settle seq p run f =
     and_then (ok_or (RvConflict seq) (bt_get (rvp_runs p) run)) (\<lambda>r.
     and_then (refuse_if (rr_state r \<noteq> RvRunning) (RvConflict seq)) (\<lambda>_.
       Inr (p\<lparr>rvp_runs := bt_insert run (f r) (rvp_runs p)\<rparr>)))"

definition rv_complete :: "string \<Rightarrow> string \<Rightarrow> review_finding list \<Rightarrow> review_run \<Rightarrow> review_run" where
  "rv_complete child summary findings r =
     r\<lparr>rr_state := RvCompleted, rr_child_session_id := Some child, rr_summary := Some summary,
       rr_findings := findings\<rparr>"

definition rv_fail :: "review_failure \<Rightarrow> review_run \<Rightarrow> review_run" where
  "rv_fail reason r = r\<lparr>rr_state := RvFailed reason\<rparr>"

definition rv_add_report ::
  "nat \<Rightarrow> review_projection \<Rightarrow> finding_report \<Rightarrow> review_projection_error + review_projection" where
  "rv_add_report seq p r =
     and_then (refuse_if (list_ex (\<lambda>c. fr_id c = fr_id r) (rvp_reports p)) (RvConflict seq)) (\<lambda>_.
       Inr (p\<lparr>rvp_reports := rvp_reports p @ [r]\<rparr>))"

fun review_apply ::
  "nat \<Rightarrow> review_projection \<Rightarrow> review_change \<Rightarrow> review_projection_error + review_projection" where
  "review_apply seq p (ReviewStarted version run runtime base patch instructions) =
     rv_start seq p run runtime base patch instructions"
| "review_apply seq p (ReviewCompleted version run child summary findings) =
     rv_settle seq p run (rv_complete child summary findings)"
| "review_apply seq p (ReviewFailed version run reason) = rv_settle seq p run (rv_fail reason)"
| "review_apply seq p (ReviewReported version r) = rv_add_report seq p r"

definition review_event ::
  "review_projection \<Rightarrow> session_event \<Rightarrow> review_projection_error + review_projection" where
  "review_event p e =
     (case ev_kind e of
        ReviewChange change \<Rightarrow>
          and_then (map_err (\<lambda>_. RvInvalidShape (ev_seq e)) (review_validate_shape change)) (\<lambda>_.
            review_apply (ev_seq e) p change)
      | _ \<Rightarrow> Inr p)"

definition project_reviews :: "session_event list \<Rightarrow> review_projection_error + review_projection" where
  "project_reviews es = try_fold review_event review_default es"

section \<open>The invariant\<close>

definition rv_run_ok :: "review_run \<Rightarrow> bool" where
  "rv_run_ok r \<longleftrightarrow>
     review_runtime_ok (rr_runtime r) \<and> valid_git_oid (rr_base_commit r)
     \<and> review_input_ok (rr_patch r) (rr_instructions r)
     \<and> (case rr_state r of
          RvCompleted \<Rightarrow> (\<exists>child summary. rr_child_session_id r = Some child \<and> rr_summary r = Some summary
            \<and> settlement_ok child summary (rr_findings r))
        | _ \<Rightarrow> rr_child_session_id r = None \<and> rr_summary r = None \<and> rr_findings r = [])"

definition reviews_ok :: "review_projection \<Rightarrow> bool" where
  "reviews_ok p \<longleftrightarrow>
     bt_inv (rvp_runs p)
     \<and> (\<forall>i r. bt_get (rvp_runs p) i = Some r \<longrightarrow> rr_id r = i \<and> rv_run_ok r)
     \<and> distinct (map fr_id (rvp_reports p))
     \<and> list_all (\<lambda>r. report_validate r = Inr ()) (rvp_reports p)"

lemma reviews_ok_insert:
  assumes "reviews_ok p" "rr_id r = i" "rv_run_ok r"
  shows "reviews_ok (p\<lparr>rvp_runs := bt_insert i r (rvp_runs p)\<rparr>)"
  using assms by (simp add: reviews_ok_def)

lemma rv_start_ok:
  assumes "reviews_ok p" "rv_start seq p run runtime base patch instructions = Inr p'"
    and "review_validate_shape (ReviewStarted version run runtime base patch instructions) = Inr ()"
  shows "reviews_ok p'"
proof -
  let ?r = "\<lparr>rr_id = run, rr_runtime = runtime, rr_base_commit = base, rr_patch = patch,
    rr_instructions = instructions, rr_state = RvRunning, rr_child_session_id = None, rr_summary = None,
    rr_findings = []\<rparr>"
  have "rv_run_ok ?r" using assms(3) by (simp add: rv_run_ok_def)
  then show ?thesis using assms(1,2) reviews_ok_insert [OF assms(1), of ?r run] by (simp add: rv_start_def)
qed

lemma rv_settle_ok:
  assumes "reviews_ok p" "rv_settle seq p run f = Inr p'"
    and "\<And>r. rv_run_ok r \<Longrightarrow> rr_state r = RvRunning \<Longrightarrow> rv_run_ok (f r) \<and> rr_id (f r) = rr_id r"
  shows "reviews_ok p'"
proof -
  from assms(2) obtain r where r: "bt_get (rvp_runs p) run = Some r" "rr_state r = RvRunning"
    and p': "p' = p\<lparr>rvp_runs := bt_insert run (f r) (rvp_runs p)\<rparr>"
    by (auto simp: rv_settle_def)
  from assms(1) r(1) have "rr_id r = run" "rv_run_ok r" by (simp_all add: reviews_ok_def)
  with assms(3) [of r] r(2) show ?thesis unfolding p' by (intro reviews_ok_insert [OF assms(1)]) simp_all
qed

lemma rv_add_report_ok:
  assumes "reviews_ok p" "rv_add_report seq p r = Inr p'" "report_validate r = Inr ()"
  shows "reviews_ok p'"
proof -
  from assms(2) have p': "p' = p\<lparr>rvp_reports := rvp_reports p @ [r]\<rparr>"
    and new: "\<forall>c \<in> set (rvp_reports p). fr_id c \<noteq> fr_id r"
    by (auto simp: rv_add_report_def list_ex_iff)
  from new have "fr_id r \<notin> fr_id ` set (rvp_reports p)" by (metis imageE)
  with assms(1,3) show ?thesis by (simp add: p' reviews_ok_def)
qed

lemma reviews_ok_event:
  assumes ok: "reviews_ok p" and step: "review_event p e = Inr p'"
  shows "reviews_ok p'"
proof (cases "\<exists>c. ev_kind e = ReviewChange c")
  case False
  with step have "p' = p" by (cases "ev_kind e") (auto simp: review_event_def)
  with ok show ?thesis by simp
next
  case True
  then obtain c where "ev_kind e = ReviewChange c" by blast
  with step have shape: "review_validate_shape c = Inr ()" and applied: "review_apply (ev_seq e) p c = Inr p'"
    by (auto simp: review_event_def)
  show ?thesis
  proof (cases c)
    case (ReviewStarted version run runtime base patch instructions)
    with shape applied rv_start_ok [OF ok] show ?thesis by simp
  next
    case (ReviewCompleted version run child summary findings)
    with shape have "settlement_ok child summary findings" by simp
    then have "rv_run_ok (rv_complete child summary findings r) \<and> rr_id (rv_complete child summary findings r) = rr_id r"
      if "rv_run_ok r" for r
      using that by (simp add: rv_run_ok_def rv_complete_def)
    with applied ReviewCompleted show ?thesis by (auto intro: rv_settle_ok [OF ok])
  next
    case (ReviewFailed version run reason)
    have "rv_run_ok (rv_fail reason r) \<and> rr_id (rv_fail reason r) = rr_id r"
      if "rv_run_ok r" "rr_state r = RvRunning" for r
      using that by (simp add: rv_run_ok_def rv_fail_def)
    with applied ReviewFailed show ?thesis by (auto intro: rv_settle_ok [OF ok])
  next
    case (ReviewReported version r)
    with shape applied show ?thesis by (auto intro: rv_add_report_ok [OF ok] split: if_splits)
  qed
qed

lemma reviews_ok_default: "reviews_ok review_default"
  by (simp add: reviews_ok_def review_default_def)

interpretation reviews: replay review_default review_event reviews_ok
  by unfold_locales (rule reviews_ok_default, rule reviews_ok_event)

section \<open>What later events keep\<close>

definition run_extends_to :: "review_run \<Rightarrow> review_run \<Rightarrow> bool" where
  "run_extends_to r r' \<longleftrightarrow>
     rr_runtime r' = rr_runtime r \<and> rr_base_commit r' = rr_base_commit r
     \<and> rr_patch r' = rr_patch r \<and> rr_instructions r' = rr_instructions r
     \<and> (rr_state r \<noteq> RvRunning \<longrightarrow> r' = r)"

definition reviews_extend :: "review_projection \<Rightarrow> review_projection \<Rightarrow> bool" where
  "reviews_extend p p' \<longleftrightarrow>
     (\<forall>i r. bt_get (rvp_runs p) i = Some r \<longrightarrow> (\<exists>r'. bt_get (rvp_runs p') i = Some r' \<and> run_extends_to r r'))
     \<and> prefix (rvp_reports p) (rvp_reports p')"

lemma run_extends_to_refl: "run_extends_to r r"
  by (simp add: run_extends_to_def)

lemma run_extends_to_trans: "run_extends_to q r \<Longrightarrow> run_extends_to r s \<Longrightarrow> run_extends_to q s"
  by (auto simp: run_extends_to_def)

lemma reviews_extend_refl: "reviews_extend p p"
  using run_extends_to_refl by (auto simp: reviews_extend_def)

lemma reviews_extend_trans: "reviews_extend p q \<Longrightarrow> reviews_extend q t \<Longrightarrow> reviews_extend p t"
  unfolding reviews_extend_def using run_extends_to_trans prefix_order.trans by blast

lemma reviews_extend_event:
  assumes "reviews_ok p" "review_event p e = Inr p'"
  shows "reviews_extend p p'"
proof (cases "\<exists>c. ev_kind e = ReviewChange c")
  case False
  with assms(2) have "p' = p" by (cases "ev_kind e") (auto simp: review_event_def)
  then show ?thesis by (simp add: reviews_extend_refl)
next
  case True
  then obtain c where "ev_kind e = ReviewChange c" by blast
  with assms(2) have applied: "review_apply (ev_seq e) p c = Inr p'" by (auto simp: review_event_def)
  have inv: "bt_inv (rvp_runs p)" using assms(1) by (simp add: reviews_ok_def)
  show ?thesis
    using applied inv
    by (cases c) (auto simp: reviews_extend_def run_extends_to_def rv_start_def rv_settle_def rv_add_report_def rv_complete_def rv_fail_def)
qed

lemma reviews_extend_replay:
  "try_fold review_event p es = Inr p' \<Longrightarrow> reviews_ok p \<Longrightarrow> reviews_extend p p'"
proof (induction es arbitrary: p)
  case Nil
  then show ?case by (simp add: reviews_extend_refl)
next
  case (Cons e es)
  from Cons.prems(1) obtain q where q: "review_event p e = Inr q" "try_fold review_event q es = Inr p'" by auto
  from Cons.IH [OF q(2) reviews_ok_event [OF Cons.prems(2) q(1)]] reviews_extend_event [OF Cons.prems(2) q(1)]
  show ?case by (rule reviews_extend_trans [rotated])
qed

section \<open>Settlements of a log\<close>

fun settled_by :: "session_event_kind \<Rightarrow> string list" where
  "settled_by (ReviewChange (ReviewCompleted version run child summary findings)) = [run]"
| "settled_by (ReviewChange (ReviewFailed version run reason)) = [run]"
| "settled_by _ = []"

definition settlements :: "session_event list \<Rightarrow> string list" where
  "settlements es = concat (map (\<lambda>e. settled_by (ev_kind e)) es)"

definition settled_runs :: "review_projection \<Rightarrow> string \<Rightarrow> bool" where
  "settled_runs p i \<longleftrightarrow> (\<exists>r. bt_get (rvp_runs p) i = Some r \<and> rr_state r \<noteq> RvRunning)"

lemma settled_event:
  assumes "reviews_ok p" "review_event p e = Inr p'"
  shows "settled_by (ev_kind e) = [] \<and> settled_runs p' = settled_runs p
    \<or> (\<exists>i. settled_by (ev_kind e) = [i] \<and> \<not> settled_runs p i
         \<and> (\<forall>j. settled_runs p' j \<longleftrightarrow> j = i \<or> settled_runs p j))"
proof (cases "\<exists>c. ev_kind e = ReviewChange c")
  case False
  with assms(2) show ?thesis by (cases "ev_kind e") (auto simp: review_event_def)
next
  case True
  then obtain c where c: "ev_kind e = ReviewChange c" by blast
  with assms(2) have applied: "review_apply (ev_seq e) p c = Inr p'" by (auto simp: review_event_def)
  have inv: "bt_inv (rvp_runs p)" using assms(1) by (simp add: reviews_ok_def)
  show ?thesis
    using applied inv
    by (cases c)
      (auto simp: c settled_runs_def fun_eq_iff rv_start_def rv_settle_def rv_add_report_def rv_complete_def rv_fail_def
        split: if_splits)
qed

lemma settlements_distinct:
  assumes "try_fold review_event review_default es = Inr p"
  shows "distinct (settlements es) \<and> (\<forall>i. i \<in> set (settlements es) \<longleftrightarrow> settled_runs p i)"
  using assms
proof (induction es arbitrary: p rule: rev_induct)
  case Nil
  then have "p = review_default" by simp
  then show ?case by (simp add: settlements_def settled_runs_def review_default_def)
next
  case (snoc e es)
  from snoc.prems obtain q where q: "try_fold review_event review_default es = Inr q" "review_event q e = Inr p"
    by (auto simp: try_fold_append split: sum.splits)
  have log: "settlements (es @ [e]) = settlements es @ settled_by (ev_kind e)" by (simp add: settlements_def)
  have old: "distinct (settlements es)" "\<And>i. i \<in> set (settlements es) \<longleftrightarrow> settled_runs q i"
    using snoc.IH [OF q(1)] by blast+
  from settled_event [OF reviews.good_replay [OF q(1)] q(2)] show ?case
    unfolding log by (elim disjE exE conjE) (simp_all add: old)
qed

end
