(* ===== verification/Review_Properties.thy ===== *)
theory Review_Properties
  imports Review_Projection Session_Properties
begin

text \<open>The properties of review replay: which runs and reports a log can hold, and what is final.\<close>

section \<open>A sample log\<close>

definition sample_finding :: review_finding where
  "sample_finding =
     \<lparr>vf_id = ''f'', vf_severity = SeverityLow, vf_path = ''a'', vf_line_start = 1, vf_line_end = 2,
      vf_title = ''t'', vf_body = ''b''\<rparr>"

definition sample_report :: finding_report where
  "sample_report =
     \<lparr>fr_id = ''q'',
      fr_source = \<lparr>rso_session_id = ''s'', rso_workspace_revision = 0, rso_root_index = 0, rso_cwd = None\<rparr>,
      fr_level = None,
      fr_findings =
        [\<lparr>rf_id = ''f'', rf_severity = SeverityLow, rf_path = ''a'', rf_line_start = 1, rf_line_end = 2,
          rf_revision = replicate 64 (CHR ''0''), rf_title = ''t'', rf_trigger = ''t'', rf_failure = ''t'',
          rf_impact = ''t'', rf_category = None, rf_verdict = None, rf_outcome = None\<rparr>]\<rparr>"

definition review_log :: "session_event list" where
  "review_log =
     [sample_event 0 (ReviewChange (ReviewStarted 1 ''r'' ''x'' (replicate 40 (CHR ''0'')) [] [])),
      sample_event 1 (ReviewChange (ReviewReported 1 sample_report)),
      sample_event 2 (ReviewChange (ReviewCompleted 1 ''r'' ''c'' ''ok'' [sample_finding]))]"

definition review_sample :: review_run where
  "review_sample =
     \<lparr>rr_id = ''r'', rr_runtime = ''x'', rr_base_commit = replicate 40 (CHR ''0''), rr_patch = [],
      rr_instructions = [], rr_state = RvCompleted, rr_child_session_id = Some ''c'',
      rr_summary = Some ''ok'', rr_findings = [sample_finding]\<rparr>"

lemmas review_eval =
  review_runtime_ok_def valid_git_oid_def lower_hex_def review_input_ok_def settlement_ok_def
  review_valid_id_def review_body_def review_one_line_def valid_untrusted_text_def valid_revision_def
  location_ok_def valid_relative_path_def components_normal_def
  report_source_validate_def reported_finding_validate_def finding_bytes_def
  max_patch_bytes_def max_instructions_bytes_def max_summary_bytes_def max_findings_def
  max_reported_findings_def max_reported_field_bytes_def max_report_text_bytes_def
  plain_is_blank plain_trim plain_no_control plain_eval is_ascii_digit_def is_ascii_lowercase_def
  checked_add_u64_def u64_max_def refuse_if_def ok_or_def Let_def

lemma sample_report_valid: "report_validate sample_report = Inr ()"
  by (simp add: report_validate_def sample_report_def review_eval plain_no_whitespace contains_nul_def list_all_iff)

lemma review_log_replays:
  "project_reviews review_log = Inr \<lparr>rvp_runs = [(''r'', review_sample)], rvp_reports = [sample_report]\<rparr>"
  unfolding project_reviews_def review_log_def
  by (simp add: review_event_def sample_event_def sample_report_valid rv_start_def rv_settle_def
      rv_add_report_def rv_complete_def review_default_def review_sample_def sample_finding_def map_eval
      review_eval plain_no_whitespace contains_nul_def list_all_iff)

section \<open>Properties\<close>

text \<open>
  C27: every review a log replays to is well typed. A run stands under its own id, with a valid
  runtime, commit and input; it has a child session, a summary and findings exactly when it
  completed, and a run that is running or failed publishes none; the reports have distinct ids, and
  each of their findings lies at a normalised relative path on a non-empty range of lines.
\<close>

theorem reviews_well_formed:
  assumes "project_reviews es = Inr p"
  shows "(\<forall>i r. bt_get (rvp_runs p) i = Some r \<longrightarrow>
      rr_id r = i \<and> review_runtime_ok (rr_runtime r) \<and> valid_git_oid (rr_base_commit r)
      \<and> review_input_ok (rr_patch r) (rr_instructions r)
      \<and> (case rr_state r of
           RvCompleted \<Rightarrow> (\<exists>child summary. rr_child_session_id r = Some child \<and> rr_summary r = Some summary
             \<and> settlement_ok child summary (rr_findings r))
         | _ \<Rightarrow> rr_child_session_id r = None \<and> rr_summary r = None \<and> rr_findings r = []))
    \<and> distinct (map fr_id (rvp_reports p))
    \<and> (\<forall>q \<in> set (rvp_reports p). report_validate q = Inr ())
    \<and> (\<forall>q \<in> set (rvp_reports p). \<forall>f \<in> set (fr_findings q).
         location_ok (rf_path f) (rf_line_start f) (rf_line_end f))"
proof -
  have ok: "reviews_ok p" using assms reviews.good_replay unfolding project_reviews_def by blast
  have located: "findings_validate prior bytes fs = Inr n \<Longrightarrow>
      \<forall>f \<in> set fs. location_ok (rf_path f) (rf_line_start f) (rf_line_end f)" for prior bytes fs n
    by (induction prior bytes fs rule: findings_validate.induct) (auto simp: reported_finding_validate_def)
  have "\<forall>f \<in> set (fr_findings q). location_ok (rf_path f) (rf_line_start f) (rf_line_end f)"
    if "report_validate q = Inr ()" for q
    using that located by (auto simp: report_validate_def)
  then have "\<forall>q \<in> set (rvp_reports p). \<forall>f \<in> set (fr_findings q).
      location_ok (rf_path f) (rf_line_start f) (rf_line_end f)"
    using ok unfolding reviews_ok_def list_all_iff by blast
  with ok show ?thesis unfolding reviews_ok_def rv_run_ok_def list_all_iff by blast
qed

theorem reviews_well_formed_witness:
  "list_all (\<lambda>f. location_ok (rf_path f) (rf_line_start f) (rf_line_end f)) (fr_findings sample_report)"
  using reviews_well_formed [OF review_log_replays] unfolding list_all_iff by simp

text \<open>
  A review settles once. The runs that a log completes or fails are distinct and are the
  settled runs of its replay; no later event changes a settled run, the input of any run, or the
  reports recorded so far.
\<close>

theorem reviews_settle_once:
  assumes "project_reviews es = Inr p" "project_reviews (es @ es') = Inr p'"
  shows "distinct (settlements (es @ es'))
    \<and> (i \<in> set (settlements es) \<longleftrightarrow> (\<exists>r. bt_get (rvp_runs p) i = Some r \<and> rr_state r \<noteq> RvRunning))
    \<and> (\<forall>r. bt_get (rvp_runs p) i = Some r \<longrightarrow>
         (\<exists>r'. bt_get (rvp_runs p') i = Some r' \<and> rr_runtime r' = rr_runtime r
            \<and> rr_base_commit r' = rr_base_commit r \<and> rr_patch r' = rr_patch r
            \<and> rr_instructions r' = rr_instructions r \<and> (rr_state r \<noteq> RvRunning \<longrightarrow> r' = r)))
    \<and> prefix (rvp_reports p) (rvp_reports p')"
proof -
  have "try_fold review_event p es' = Inr p'"
    using assms by (simp add: project_reviews_def try_fold_append)
  moreover have "reviews_ok p" using assms(1) reviews.good_replay unfolding project_reviews_def by blast
  ultimately have "reviews_extend p p'" by (rule reviews_extend_replay)
  moreover have "distinct (settlements (es @ es'))"
    using settlements_distinct assms(2) unfolding project_reviews_def by blast
  moreover have "i \<in> set (settlements es) \<longleftrightarrow> settled_runs p i"
    using settlements_distinct assms(1) unfolding project_reviews_def by blast
  ultimately show ?thesis unfolding settled_runs_def reviews_extend_def run_extends_to_def by blast
qed

theorem reviews_settle_once_witness: "settlements review_log = [''r'']"
proof -
  have log: "project_reviews (review_log @ []) =
      Inr \<lparr>rvp_runs = [(''r'', review_sample)], rvp_reports = [sample_report]\<rparr>"
    using review_log_replays by simp
  have "''r'' \<in> set (settlements review_log)"
    using reviews_settle_once [OF review_log_replays log, of "''r''"] by (simp add: map_eval review_sample_def)
  then show ?thesis by (simp add: settlements_def review_log_def sample_event_def)
qed

end
