(* ===== verification/Request_Projection.thy ===== *)
theory Request_Projection
  imports Message_Projection Event_Validation "HOL-Library.Product_Lexorder"
begin

text \<open>
  Requests rebuilt from the log (\<open>heycode-session/src/request_projection.rs\<close>) and the
  route-switch barrier of a native compaction (\<open>compaction_switch.rs\<close>). The maps of the code
  are hash maps, read by key only; output indices and steps are \<open>u32\<close>, a saturating
  increment is \<open>saturating_add_u32\<close>.
\<close>

section \<open>Data\<close>

datatype projected_input =
    InputMessage wire_message
  | InputState provider_state

datatype projected_server_event =
    ProjectedCall nat nat server_call \<comment> \<open>sequence number, output index\<close>
  | ProjectedResult nat nat server_result
  | ProjectedCitation nat nat url_citation
  | ProjectedUsage nat server_usage

record projected_request =
  pr_turn :: nat
  pr_step :: nat
  pr_id :: string
  pr_header :: request_header
  pr_context :: request_context
  pr_inputs :: "projected_input list"
  pr_server_events :: "projected_server_event list"
  pr_metadata :: "response_metadata option"

datatype projection_error =
    InvalidConfiguration string
  | InvalidAttachmentSelection
  | InvalidCompaction nat
  | InvalidRoute string
  | DuplicateHeader string
  | DuplicateContext string
  | MissingContext string
  | OrphanContext string
  | OrphanProviderState string nat
  | ProviderStateRouteMismatch string nat
  | ProviderStateStepMismatch string nat
  | ProviderStateIndexGap string nat nat nat
  | OrphanResponseMetadata string nat
  | DuplicateResponseMetadata string nat
  | ResponseMetadataStepMismatch string nat
  | InvalidResponseMetadata nat
  | OrphanServerToolEvent string nat
  | InvalidServerToolEvent nat
  | ServerToolStepMismatch string nat
  | ServerToolOutputOrder string nat
  | DuplicateServerToolCall string nat
  | OrphanServerToolResult string nat
  | DuplicateServerToolResult string nat
  | DuplicateServerToolUsage string nat
  | ServerToolRouteMismatch string nat

record header_record =
  hr_index :: nat
  hr_turn :: nat
  hr_step :: nat
  hr_header :: request_header

type_synonym wire_route = "string \<times> string \<times> provider_protocol"

definition header_route :: "request_header \<Rightarrow> wire_route" where
  "header_route h = (rh_provider h, rh_model h, rh_protocol h)"

definition state_route :: "provider_state \<Rightarrow> wire_route" where
  "state_route p = (ps_provider p, ps_model p, ps_protocol p)"

section \<open>Sequence rules\<close>

fun replaced_reach :: "session_event_kind \<Rightarrow> nat option" where
  "replaced_reach (CompactionApplied summary reach) = Some reach"
| "replaced_reach (NativeCompactionApplied strategy reach items usage) = Some reach"
| "replaced_reach _ = None"

definition compaction_event_ok :: "payload_ext \<Rightarrow> session_event \<Rightarrow> bool" where
  "compaction_event_ok ext e =
     (case replaced_reach (ev_kind e) of
        None \<Rightarrow> True
      | Some reach \<Rightarrow> reach < ev_seq e \<and> is_ok (validate_for_version ext (ev_v e) (ev_kind e)))"

definition validate_compaction_sequence ::
  "payload_ext \<Rightarrow> session_event list \<Rightarrow> projection_error + unit" where
  "validate_compaction_sequence ext events =
     try_all (\<lambda>e. refuse_if (\<not> compaction_event_ok ext e) (InvalidCompaction (ev_seq e))) events"

text \<open>The attachments admitted so far and whether a selection waits for its message.\<close>

definition attachment_step ::
  "payload_ext \<Rightarrow> attachment list \<times> bool \<Rightarrow> session_event \<Rightarrow> projection_error + (attachment list \<times> bool)"
  where
  "attachment_step ext st e =
     (case st of (admitted, waiting) \<Rightarrow>
        and_then
          (refuse_if (waiting \<and> \<not> (case ev_kind e of UserMessage _ \<Rightarrow> True | _ \<Rightarrow> False))
             InvalidAttachmentSelection) (\<lambda>_.
          case ev_kind e of
            AttachmentAdded a \<Rightarrow> Inr (admitted @ [a], waiting)
          | UserAttachments selected routes \<Rightarrow>
              and_then
                (refuse_if
                   (\<not> is_ok (validate_for_version ext (ev_v e) (ev_kind e))
                    \<or> list_ex (\<lambda>a. a \<notin> set admitted) selected
                    \<or> list_ex (\<lambda>r. dr_source r \<notin> set admitted \<or> dr_selected r \<notin> set admitted) routes)
                   InvalidAttachmentSelection) (\<lambda>_. Inr (admitted, True))
          | UserMessage _ \<Rightarrow> Inr (admitted, False)
          | _ \<Rightarrow> Inr (admitted, waiting)))"

definition validate_attachment_sequence ::
  "payload_ext \<Rightarrow> session_event list \<Rightarrow> projection_error + unit" where
  "validate_attachment_sequence ext events =
     and_then (try_fold (attachment_step ext) ([], False) events) (\<lambda>(admitted, waiting).
       refuse_if waiting InvalidAttachmentSelection)"

section \<open>Inputs of a route\<close>

definition state_replaces_assistant :: "provider_state \<Rightarrow> bool" where
  "state_replaces_assistant p =
     (case ps_kind p of
        ResponseOutputItem \<Rightarrow>
          (case as_object (ps_data p) of
             None \<Rightarrow> False
           | Some kvs \<Rightarrow> member_text_ok (\<lambda>k. k \<in> {''message'', ''function_call''}) kvs ''type'')
      | _ \<Rightarrow> True)"

definition route_reach :: "wire_route \<Rightarrow> session_event_kind \<Rightarrow> nat option" where
  "route_reach route k =
     (case k of
        CompactionApplied summary reach \<Rightarrow> Some reach
      | NativeCompactionApplied strategy reach items usage \<Rightarrow>
          (case items of [] \<Rightarrow> None | item # _ \<Rightarrow> if state_route item = route then Some reach else None)
      | _ \<Rightarrow> None)"

definition better_compaction ::
  "(session_event_kind \<Rightarrow> nat option) \<Rightarrow> (nat \<times> session_event) option \<Rightarrow> session_event
   \<Rightarrow> (nat \<times> session_event) option" where
  "better_compaction reach_of best e =
     (case reach_of (ev_kind e) of
        None \<Rightarrow> best
      | Some reach \<Rightarrow>
          (case best of
             Some (best_to, x) \<Rightarrow> if reach < best_to then best else Some (reach, e)
           | None \<Rightarrow> Some (reach, e)))"

definition winning_compaction_for_route ::
  "wire_route \<Rightarrow> session_event list \<Rightarrow> (nat \<times> session_event) option" where
  "winning_compaction_for_route route events = foldl (better_compaction (route_reach route)) None events"

definition shadowed :: "(nat \<times> session_event) option \<Rightarrow> session_event \<Rightarrow> bool" where
  "shadowed winner e = (case winner of None \<Rightarrow> False | Some (reach, _) \<Rightarrow> ev_seq e \<le> reach)"

definition replaced_step ::
  "wire_route \<Rightarrow> (nat \<times> session_event) option \<Rightarrow> session_event \<Rightarrow> (nat \<times> nat) option" where
  "replaced_step route winner e =
     (case ev_kind e of
        AssistantProviderItem turn step request idx item \<Rightarrow>
          if \<not> shadowed winner e \<and> state_route item = route \<and> state_replaces_assistant item
          then Some (turn, step) else None
      | _ \<Rightarrow> None)"

definition replacement_steps ::
  "wire_route \<Rightarrow> (nat \<times> session_event) option \<Rightarrow> session_event list \<Rightarrow> (nat \<times> nat) list" where
  "replacement_steps route winner events = List.map_filter (replaced_step route winner) events"

record input_fold =
  if_inputs :: "projected_input list"
  if_attachments :: "attachment list"
  if_routes :: "document_route list"

definition add_message :: "wire_message \<Rightarrow> input_fold \<Rightarrow> input_fold" where
  "add_message m s = s\<lparr>if_inputs := if_inputs s @ [InputMessage m]\<rparr>"

definition tool_message ::
  "string \<Rightarrow> string \<Rightarrow> bool \<Rightarrow> untrusted_source option \<Rightarrow> wire_message" where
  "tool_message call content is_error boundary =
     (plain_message RoleTool content)
       \<lparr>wm_call_id := Some call, wm_is_error := Some is_error, wm_boundary := boundary\<rparr>"

definition input_event ::
  "(rich_result \<Rightarrow> string) \<Rightarrow> wire_route \<Rightarrow> (nat \<times> nat) list \<Rightarrow> input_fold \<Rightarrow> session_event_kind
   \<Rightarrow> input_fold" where
  "input_event rich route replaced s k =
     (case k of
        UserAttachments attachments routes \<Rightarrow>
          s\<lparr>if_attachments := attachments, if_routes := routes\<rparr>
      | UserMessage body \<Rightarrow>
          (add_message
             ((plain_message RoleUser body)
                \<lparr>wm_attachments := if_attachments s, wm_routes := if_routes s\<rparr>) s)
            \<lparr>if_attachments := [], if_routes := []\<rparr>
      | HookContribution h \<Rightarrow>
          add_message ((plain_message RoleUser (hook_render h))\<lparr>wm_boundary := hc_boundary h\<rparr>) s
      | AssistantProviderItem turn step request idx item \<Rightarrow>
          if state_route item = route then s\<lparr>if_inputs := if_inputs s @ [InputState item]\<rparr> else s
      | AssistantMessage turn step content reasoning calls usage \<Rightarrow>
          if (turn, step) \<in> set replaced then s
          else add_message ((plain_message RoleAssistant content)\<lparr>wm_calls := calls\<rparr>) s
      | ToolResult call content is_error boundary \<Rightarrow>
          add_message (tool_message call content is_error boundary) s
      | RichToolResult call result is_error boundary \<Rightarrow>
          add_message (tool_message call (rich result) is_error boundary) s
      | _ \<Rightarrow> s)"

definition input_step ::
  "(rich_result \<Rightarrow> string) \<Rightarrow> wire_route \<Rightarrow> (nat \<times> nat) list \<Rightarrow> (nat \<times> session_event) option
   \<Rightarrow> input_fold \<Rightarrow> session_event \<Rightarrow> input_fold" where
  "input_step rich route replaced winner s e =
     (if shadowed winner e then s else input_event rich route replaced s (ev_kind e))"

text \<open>What the winning compaction puts in front.\<close>

definition checkpoint_inputs :: "(nat \<times> session_event) option \<Rightarrow> projected_input list" where
  "checkpoint_inputs winner =
     (case winner of
        None \<Rightarrow> []
      | Some (_, e) \<Rightarrow>
          (case ev_kind e of
             CompactionApplied summary reach \<Rightarrow> [InputMessage (summary_message summary)]
           | NativeCompactionApplied strategy reach items usage \<Rightarrow> map InputState items
           | _ \<Rightarrow> []))"

definition project_inputs ::
  "(rich_result \<Rightarrow> string) \<Rightarrow> wire_route \<Rightarrow> session_event list \<Rightarrow> projected_input list" where
  "project_inputs rich route events =
     (let winner = winning_compaction_for_route route events;
          replaced = replacement_steps route winner events
      in if_inputs
           (foldl (input_step rich route replaced winner)
              \<lparr>if_inputs = checkpoint_inputs winner, if_attachments = [], if_routes = []\<rparr> events))"

section \<open>The fold over the log\<close>

record request_fold =
  rf_headers :: "(string, header_record) btree_map"
  rf_order :: "(string \<times> header_record) list"
  rf_contexts :: "(string, request_context) btree_map"
  rf_next_index :: "(string, nat) btree_map"
  rf_metadata :: "(string, response_metadata) btree_map"
  rf_server_events :: "(string, projected_server_event list) btree_map"
  rf_last_index :: "(string, nat) btree_map"
  rf_calls :: "(string, wire_route) btree_map"
  rf_results :: "string list"
  rf_usage :: "(string \<times> string) list"

definition request_fold_start :: request_fold where
  "request_fold_start =
     \<lparr>rf_headers = bt_empty, rf_order = [], rf_contexts = bt_empty, rf_next_index = bt_empty,
      rf_metadata = bt_empty, rf_server_events = bt_empty, rf_last_index = bt_empty,
      rf_calls = bt_empty, rf_results = [], rf_usage = []\<rparr>"

definition last_header :: "request_fold \<Rightarrow> request_header option" where
  "last_header s = (if rf_order s = [] then None else Some (hr_header (snd (last (rf_order s)))))"

definition fold_header ::
  "payload_ext \<Rightarrow> nat \<Rightarrow> nat \<Rightarrow> nat \<Rightarrow> string \<Rightarrow> request_header \<Rightarrow> request_fold
   \<Rightarrow> projection_error + request_fold" where
  "fold_header ext i turn step request h s =
     and_then
       (map_err (\<lambda>_. InvalidConfiguration request)
          (validate_configuration_after (pe_request ext) (last_header s) h)) (\<lambda>_.
       let r = \<lparr>hr_index = i, hr_turn = turn, hr_step = step, hr_header = h\<rparr>
       in and_then (refuse_if (bt_contains (rf_headers s) request) (DuplicateHeader request)) (\<lambda>_.
            Inr (s\<lparr>rf_headers := bt_insert request r (rf_headers s),
                   rf_order := rf_order s @ [(request, r)]\<rparr>)))"

definition fold_context ::
  "string \<Rightarrow> request_context \<Rightarrow> request_fold \<Rightarrow> projection_error + request_fold" where
  "fold_context request c s =
     and_then (refuse_if (\<not> bt_contains (rf_headers s) request) (OrphanContext request)) (\<lambda>_.
     and_then (refuse_if (bt_contains (rf_contexts s) request) (DuplicateContext request)) (\<lambda>_.
       Inr (s\<lparr>rf_contexts := bt_insert request c (rf_contexts s)\<rparr>)))"

definition next_index :: "request_fold \<Rightarrow> string \<Rightarrow> nat" where
  "next_index s request = (case bt_get (rf_next_index s) request of None \<Rightarrow> 0 | Some n \<Rightarrow> n)"

definition fold_item ::
  "nat \<Rightarrow> nat \<Rightarrow> nat \<Rightarrow> string \<Rightarrow> nat \<Rightarrow> provider_state \<Rightarrow> request_fold
   \<Rightarrow> projection_error + request_fold" where
  "fold_item seq turn step request idx item s =
     and_then (ok_or (OrphanProviderState request seq) (bt_get (rf_headers s) request)) (\<lambda>h.
     and_then
       (refuse_if (state_route item \<noteq> header_route (hr_header h)) (ProviderStateRouteMismatch request seq))
       (\<lambda>_.
     and_then
       (refuse_if (turn \<noteq> hr_turn h \<or> step \<noteq> hr_step h) (ProviderStateStepMismatch request seq)) (\<lambda>_.
     and_then
       (refuse_if (idx \<noteq> next_index s request)
          (ProviderStateIndexGap request seq (next_index s request) idx)) (\<lambda>_.
       Inr (s\<lparr>rf_next_index :=
                bt_insert request (saturating_add_u32 (next_index s request) 1) (rf_next_index s)\<rparr>)))))"

definition fold_metadata ::
  "nat \<Rightarrow> nat \<Rightarrow> nat \<Rightarrow> string \<Rightarrow> response_metadata \<Rightarrow> request_fold
   \<Rightarrow> projection_error + request_fold" where
  "fold_metadata seq turn step request m s =
     and_then (map_err (\<lambda>_. InvalidResponseMetadata seq) (response_metadata_validate m)) (\<lambda>_.
     and_then (ok_or (OrphanResponseMetadata request seq) (bt_get (rf_headers s) request)) (\<lambda>h.
     and_then
       (refuse_if (turn \<noteq> hr_turn h \<or> step \<noteq> hr_step h) (ResponseMetadataStepMismatch request seq)) (\<lambda>_.
     and_then
       (refuse_if (bt_contains (rf_metadata s) request) (DuplicateResponseMetadata request seq)) (\<lambda>_.
       Inr (s\<lparr>rf_metadata := bt_insert request m (rf_metadata s)\<rparr>)))))"

definition server_event_header ::
  "request_fold \<Rightarrow> string \<Rightarrow> nat \<Rightarrow> nat \<Rightarrow> nat \<Rightarrow> projection_error + header_record" where
  "server_event_header s request turn step seq =
     and_then (ok_or (OrphanServerToolEvent request seq) (bt_get (rf_headers s) request)) (\<lambda>h.
     and_then
       (refuse_if (hr_turn h \<noteq> turn \<or> hr_step h \<noteq> step) (ServerToolStepMismatch request seq)) (\<lambda>_.
       Inr h))"

definition validate_server_output_order ::
  "request_fold \<Rightarrow> string \<Rightarrow> nat \<Rightarrow> nat \<Rightarrow> projection_error + request_fold" where
  "validate_server_output_order s request idx seq =
     and_then
       (refuse_if
          (case bt_get (rf_last_index s) request of None \<Rightarrow> False | Some previous \<Rightarrow> idx < previous)
          (ServerToolOutputOrder request seq)) (\<lambda>_.
       Inr (s\<lparr>rf_last_index := bt_insert request idx (rf_last_index s)\<rparr>))"

definition server_events_of :: "request_fold \<Rightarrow> string \<Rightarrow> projected_server_event list" where
  "server_events_of s request =
     (case bt_get (rf_server_events s) request of None \<Rightarrow> [] | Some es \<Rightarrow> es)"

definition push_server_event :: "string \<Rightarrow> projected_server_event \<Rightarrow> request_fold \<Rightarrow> request_fold" where
  "push_server_event request e s =
     s\<lparr>rf_server_events := bt_insert request (server_events_of s request @ [e]) (rf_server_events s)\<rparr>"

definition fold_call ::
  "payload_ext \<Rightarrow> nat \<Rightarrow> nat \<Rightarrow> nat \<Rightarrow> string \<Rightarrow> nat \<Rightarrow> server_call \<Rightarrow> request_fold
   \<Rightarrow> projection_error + request_fold" where
  "fold_call ext seq turn step request idx call s =
     and_then
       (map_err (\<lambda>_. InvalidServerToolEvent seq) (server_call_validate (pe_json_len ext) call)) (\<lambda>_.
     and_then (server_event_header s request turn step seq) (\<lambda>h.
     and_then (validate_server_output_order s request idx seq) (\<lambda>s1.
     and_then
       (refuse_if (bt_contains (rf_calls s1) (sv_id call)) (DuplicateServerToolCall (sv_id call) seq)) (\<lambda>_.
       Inr (push_server_event request (ProjectedCall seq idx call)
              (s1\<lparr>rf_calls := bt_insert (sv_id call) (header_route (hr_header h)) (rf_calls s1)\<rparr>))))))"

definition fold_result ::
  "payload_ext \<Rightarrow> nat \<Rightarrow> nat \<Rightarrow> nat \<Rightarrow> string \<Rightarrow> nat \<Rightarrow> server_result \<Rightarrow> request_fold
   \<Rightarrow> projection_error + request_fold" where
  "fold_result ext seq turn step request idx result s =
     (let call = sr_call_id result
      in and_then
           (map_err (\<lambda>_. InvalidServerToolEvent seq) (server_result_validate (pe_url ext) result)) (\<lambda>_.
         and_then (server_event_header s request turn step seq) (\<lambda>h.
         and_then (validate_server_output_order s request idx seq) (\<lambda>s1.
         and_then (ok_or (OrphanServerToolResult call seq) (bt_get (rf_calls s1) call)) (\<lambda>route.
         and_then
           (refuse_if (route \<noteq> header_route (hr_header h)) (ServerToolRouteMismatch call seq)) (\<lambda>_.
         and_then (refuse_if (call \<in> set (rf_results s1)) (DuplicateServerToolResult call seq)) (\<lambda>_.
           Inr (push_server_event request (ProjectedResult seq idx result)
                  (s1\<lparr>rf_results := call # rf_results s1\<rparr>)))))))))"

definition fold_usage ::
  "nat \<Rightarrow> nat \<Rightarrow> nat \<Rightarrow> string \<Rightarrow> server_usage \<Rightarrow> request_fold \<Rightarrow> projection_error + request_fold" where
  "fold_usage seq turn step request usage s =
     and_then (map_err (\<lambda>_. InvalidServerToolEvent seq) (server_usage_validate usage)) (\<lambda>_.
     and_then (server_event_header s request turn step seq) (\<lambda>_.
     and_then
       (refuse_if ((request, su_logical usage) \<in> set (rf_usage s))
          (DuplicateServerToolUsage (su_logical usage) seq)) (\<lambda>_.
       Inr (push_server_event request (ProjectedUsage seq usage)
              (s\<lparr>rf_usage := (request, su_logical usage) # rf_usage s\<rparr>)))))"

definition fold_citation ::
  "payload_ext \<Rightarrow> nat \<Rightarrow> nat \<Rightarrow> nat \<Rightarrow> string \<Rightarrow> nat \<Rightarrow> url_citation \<Rightarrow> request_fold
   \<Rightarrow> projection_error + request_fold" where
  "fold_citation ext seq turn step request idx citation s =
     and_then
       (map_err (\<lambda>_. InvalidServerToolEvent seq) (url_citation_validate (pe_url ext) citation)) (\<lambda>_.
     and_then (server_event_header s request turn step seq) (\<lambda>_.
     and_then (validate_server_output_order s request idx seq) (\<lambda>s1.
       Inr (push_server_event request (ProjectedCitation seq idx citation) s1))))"

definition request_step ::
  "payload_ext \<Rightarrow> request_fold \<Rightarrow> nat \<times> session_event \<Rightarrow> projection_error + request_fold" where
  "request_step ext s ie =
     (case ie of (i, e) \<Rightarrow>
        case ev_kind e of
          RequestHeader turn step request h \<Rightarrow> fold_header ext i turn step request h s
        | RequestContext request c \<Rightarrow> fold_context request c s
        | AssistantProviderItem turn step request idx item \<Rightarrow>
            fold_item (ev_seq e) turn step request idx item s
        | AssistantResponseMetadata turn step request m \<Rightarrow> fold_metadata (ev_seq e) turn step request m s
        | ServerToolCall turn step request idx call \<Rightarrow>
            fold_call ext (ev_seq e) turn step request idx call s
        | ServerToolResult turn step request idx result \<Rightarrow>
            fold_result ext (ev_seq e) turn step request idx result s
        | ServerToolUsage turn step request usage \<Rightarrow> fold_usage (ev_seq e) turn step request usage s
        | AssistantCitation turn step request idx citation \<Rightarrow>
            fold_citation ext (ev_seq e) turn step request idx citation s
        | _ \<Rightarrow> Inr s)"

text \<open>\<open>DurableToolResult::render_for_model\<close> of the projections.\<close>

abbreviation pe_render :: "payload_ext \<Rightarrow> rich_result \<Rightarrow> string" where
  "pe_render ext \<equiv> render_for_model (pe_rich ext)"

definition finish_request ::
  "payload_ext \<Rightarrow> session_event list \<Rightarrow> request_fold \<Rightarrow> string \<times> header_record
   \<Rightarrow> projection_error + projected_request" where
  "finish_request ext events s entry =
     (case entry of (request, h) \<Rightarrow>
        and_then (ok_or (MissingContext request) (bt_get (rf_contexts s) request)) (\<lambda>c.
          Inr \<lparr>pr_turn = hr_turn h, pr_step = hr_step h, pr_id = request, pr_header = hr_header h,
               pr_context = c,
               pr_inputs =
                 project_inputs (pe_render ext) (header_route (hr_header h)) (take (hr_index h) events),
               pr_server_events = server_events_of s request,
               pr_metadata = bt_get (rf_metadata s) request\<rparr>))"

definition indexed :: "'a list \<Rightarrow> (nat \<times> 'a) list" where
  "indexed xs = zip [0..<length xs] xs"

definition project_requests ::
  "payload_ext \<Rightarrow> session_event list \<Rightarrow> projection_error + projected_request list" where
  "project_requests ext events =
     and_then (validate_compaction_sequence ext events) (\<lambda>_.
     and_then (validate_attachment_sequence ext events) (\<lambda>_.
     and_then (try_fold (request_step ext) request_fold_start (indexed events)) (\<lambda>s.
       try_map (finish_request ext events s) (rf_order s))))"

section \<open>A proposed route\<close>

definition project_inputs_for_route ::
  "payload_ext \<Rightarrow> session_event list \<Rightarrow> wire_route \<Rightarrow> projection_error + projected_input list" where
  "project_inputs_for_route ext events route =
     (case route of (provider, model, protocol) \<Rightarrow>
        and_then (refuse_if (provider = [] \<or> trim provider \<noteq> provider) (InvalidRoute ''provider'')) (\<lambda>_.
        and_then (refuse_if (model = [] \<or> trim model \<noteq> model) (InvalidRoute ''model'')) (\<lambda>_.
        and_then (refuse_if (protocol = ProtocolUnknown) (InvalidRoute ''protocol'')) (\<lambda>_.
        and_then (project_requests ext events) (\<lambda>_.
          Inr (project_inputs (pe_render ext) route events))))))"

section \<open>The route-switch barrier\<close>

record compaction_barrier =
  br_provider :: string
  br_model :: string
  br_protocol :: provider_protocol
  br_replaced_upto :: nat
  br_settlement :: nat

definition fork_event_count :: "compaction_barrier \<Rightarrow> nat" where
  "fork_event_count b = br_settlement b"

definition barrier_winner :: "session_event list \<Rightarrow> (nat \<times> session_event) option" where
  "barrier_winner events = foldl (better_compaction replaced_reach) None events"

definition opaque_compaction_barrier ::
  "payload_ext \<Rightarrow> session_event list \<Rightarrow> string \<Rightarrow> string
   \<Rightarrow> projection_error + compaction_barrier option" where
  "opaque_compaction_barrier ext events provider model =
     and_then (refuse_if (provider = [] \<or> trim provider \<noteq> provider) (InvalidRoute ''provider'')) (\<lambda>_.
     and_then (refuse_if (model = [] \<or> trim model \<noteq> model) (InvalidRoute ''model'')) (\<lambda>_.
     and_then (project_requests ext events) (\<lambda>_.
       case barrier_winner events of
         None \<Rightarrow> Inr None
       | Some (reach, e) \<Rightarrow>
           (case ev_kind e of
              NativeCompactionApplied strategy n items usage \<Rightarrow>
                (case items of
                   [] \<Rightarrow> Inl (InvalidCompaction (ev_seq e))
                 | item # _ \<Rightarrow>
                     if ps_provider item = provider \<and> ps_model item = model then Inr None
                     else Inr (Some \<lparr>br_provider = ps_provider item, br_model = ps_model item,
                                     br_protocol = ps_protocol item, br_replaced_upto = reach,
                                     br_settlement = ev_seq e\<rparr>))
            | _ \<Rightarrow> Inr None))))"

end
