(* ===== verification/Request_Projection_Laws.thy ===== *)
theory Request_Projection_Laws
  imports Request_Projection
begin

text \<open>
  What the request projection guarantees of a log it accepts: its state is a function of the
  history, one entry a correlation, and the inputs of a request depend on nothing after its header.
\<close>

section \<open>History of a log\<close>

definition hist :: "('a \<Rightarrow> 'b option) \<Rightarrow> 'a list \<Rightarrow> 'b list" where
  "hist f xs = List.map_filter f xs"

lemma hist_Nil [simp]: "hist f [] = []"
  by (simp add: hist_def)

lemma hist_snoc [simp]: "hist f (xs @ [x]) = hist f xs @ (case f x of None \<Rightarrow> [] | Some y \<Rightarrow> [y])"
  by (simp add: hist_def map_filter_def split: option.split)

lemma hist_append: "hist f (xs @ ys) = hist f xs @ hist f ys"
  by (simp add: hist_def map_filter_def)

lemma set_hist: "y \<in> set (hist f xs) \<longleftrightarrow> (\<exists>x \<in> set xs. f x = Some y)"
  by (force simp: hist_def map_filter_def)

definition header_entry :: "nat \<times> session_event \<Rightarrow> (string \<times> header_record) option" where
  "header_entry ie =
     (case ev_kind (snd ie) of
        RequestHeader turn step request h \<Rightarrow>
          Some (request, \<lparr>hr_index = fst ie, hr_turn = turn, hr_step = step, hr_header = h\<rparr>)
      | _ \<Rightarrow> None)"

definition context_entry :: "nat \<times> session_event \<Rightarrow> (string \<times> request_context) option" where
  "context_entry ie =
     (case ev_kind (snd ie) of RequestContext request c \<Rightarrow> Some (request, c) | _ \<Rightarrow> None)"

definition metadata_entry :: "nat \<times> session_event \<Rightarrow> (string \<times> response_metadata) option" where
  "metadata_entry ie =
     (case ev_kind (snd ie) of
        AssistantResponseMetadata turn step request m \<Rightarrow> Some (request, m) | _ \<Rightarrow> None)"

definition item_entry :: "nat \<times> session_event \<Rightarrow> (string \<times> nat) option" where
  "item_entry ie =
     (case ev_kind (snd ie) of
        AssistantProviderItem turn step request idx item \<Rightarrow> Some (request, idx) | _ \<Rightarrow> None)"

definition call_entry :: "nat \<times> session_event \<Rightarrow> (string \<times> string) option" where
  "call_entry ie =
     (case ev_kind (snd ie) of
        ServerToolCall turn step request idx call \<Rightarrow> Some (sv_id call, request) | _ \<Rightarrow> None)"

definition result_entry :: "nat \<times> session_event \<Rightarrow> (string \<times> string) option" where
  "result_entry ie =
     (case ev_kind (snd ie) of
        ServerToolResult turn step request idx result \<Rightarrow> Some (sr_call_id result, request) | _ \<Rightarrow> None)"

definition usage_entry :: "nat \<times> session_event \<Rightarrow> (string \<times> string) option" where
  "usage_entry ie =
     (case ev_kind (snd ie) of
        ServerToolUsage turn step request usage \<Rightarrow> Some (request, su_logical usage) | _ \<Rightarrow> None)"

definition server_entry :: "nat \<times> session_event \<Rightarrow> (string \<times> projected_server_event) option" where
  "server_entry ie =
     (case ev_kind (snd ie) of
        ServerToolCall turn step request idx call \<Rightarrow>
          Some (request, ProjectedCall (ev_seq (snd ie)) idx call)
      | ServerToolResult turn step request idx result \<Rightarrow>
          Some (request, ProjectedResult (ev_seq (snd ie)) idx result)
      | ServerToolUsage turn step request usage \<Rightarrow>
          Some (request, ProjectedUsage (ev_seq (snd ie)) usage)
      | AssistantCitation turn step request idx citation \<Rightarrow>
          Some (request, ProjectedCitation (ev_seq (snd ie)) idx citation)
      | _ \<Rightarrow> None)"

lemmas entry_defs =
  header_entry_def context_entry_def metadata_entry_def item_entry_def call_entry_def
  result_entry_def usage_entry_def server_entry_def

definition of_request :: "string \<Rightarrow> (string \<times> 'a) list \<Rightarrow> 'a list" where
  "of_request request xs = map snd (filter (\<lambda>x. fst x = request) xs)"

lemma of_request_append [simp]: "of_request r (xs @ ys) = of_request r xs @ of_request r ys"
  by (simp add: of_request_def)

lemma of_request_simps [simp]:
  "of_request r [] = []" "of_request r [(k, v)] = (if k = r then [v] else [])"
  by (simp_all add: of_request_def)

lemma map_of_map_snd: "map_of (map (\<lambda>p. (fst p, f (snd p))) xs) k = map_option f (map_of xs k)"
  by (induction xs) auto

lemma map_of_snoc: "k \<notin> fst ` set xs \<Longrightarrow> map_of (xs @ [(k, v)]) = (map_of xs)(k \<mapsto> v)"
  by (induction xs) (auto simp: fun_eq_iff)

section \<open>The state as a function of the history\<close>

definition indexes :: "(string, 'v) btree_map \<Rightarrow> (string \<times> 'v) list \<Rightarrow> bool" where
  "indexes m xs \<longleftrightarrow> bt_inv m \<and> distinct (map fst xs) \<and> bt_get m = map_of xs"

lemma indexes_empty [simp]: "indexes bt_empty []"
  by (simp add: indexes_def bt_empty_def bt_inv_def bt_get_def fun_eq_iff)

lemma indexes_insert:
  assumes "indexes m xs" "\<not> bt_contains m k"
  shows "indexes (bt_insert k v m) (xs @ [(k, v)])"
proof -
  have k: "k \<notin> fst ` set xs"
    using assms by (auto simp: indexes_def bt_contains_def map_of_eq_None_iff simp del: bt_contains_iff)
  have "bt_get (bt_insert k v m) = (bt_get m)(k \<mapsto> v)"
    using assms(1) by (simp add: indexes_def bt_get_def [abs_def] map_of_bt_insert)
  with assms k show ?thesis
    by (simp add: indexes_def bt_inv_insert map_of_snoc [OF k] del: map_of_append)
qed


definition route_at :: "request_fold \<Rightarrow> string \<Rightarrow> wire_route option" where
  "route_at s request = map_option (\<lambda>h. header_route (hr_header h)) (bt_get (rf_headers s) request)"

definition inv_headers :: "request_fold \<Rightarrow> (nat \<times> session_event) list \<Rightarrow> bool" where
  "inv_headers s ies \<longleftrightarrow> rf_order s = hist header_entry ies \<and> indexes (rf_headers s) (rf_order s)"

definition inv_contexts :: "request_fold \<Rightarrow> (nat \<times> session_event) list \<Rightarrow> bool" where
  "inv_contexts s ies \<longleftrightarrow> indexes (rf_contexts s) (hist context_entry ies)"

definition inv_metadata :: "request_fold \<Rightarrow> (nat \<times> session_event) list \<Rightarrow> bool" where
  "inv_metadata s ies \<longleftrightarrow> indexes (rf_metadata s) (hist metadata_entry ies)"

definition inv_usage :: "request_fold \<Rightarrow> (nat \<times> session_event) list \<Rightarrow> bool" where
  "inv_usage s ies \<longleftrightarrow> rf_usage s = rev (hist usage_entry ies) \<and> distinct (rf_usage s)"

definition inv_events :: "request_fold \<Rightarrow> (nat \<times> session_event) list \<Rightarrow> bool" where
  "inv_events s ies \<longleftrightarrow>
     bt_inv (rf_server_events s) \<and> (\<forall>r. server_events_of s r = of_request r (hist server_entry ies))"

definition inv_items :: "request_fold \<Rightarrow> (nat \<times> session_event) list \<Rightarrow> bool" where
  "inv_items s ies \<longleftrightarrow>
     bt_inv (rf_next_index s)
     \<and> (\<forall>r. let idxs = of_request r (hist item_entry ies)
            in idxs = map (\<lambda>i. min i u32_max) [0..<length idxs] \<and> next_index s r = min (length idxs) u32_max)"

definition inv_calls :: "request_fold \<Rightarrow> (nat \<times> session_event) list \<Rightarrow> bool" where
  "inv_calls s ies \<longleftrightarrow>
     bt_inv (rf_calls s) \<and> distinct (map fst (hist call_entry ies))
     \<and> (\<forall>call. bt_get (rf_calls s) call = Option.bind (map_of (hist call_entry ies) call) (route_at s))
     \<and> (\<forall>x \<in> set (hist call_entry ies). route_at s (snd x) \<noteq> None)"

definition inv_results :: "request_fold \<Rightarrow> (nat \<times> session_event) list \<Rightarrow> bool" where
  "inv_results s ies \<longleftrightarrow>
     rf_results s = rev (map fst (hist result_entry ies)) \<and> distinct (rf_results s)
     \<and> (\<forall>x \<in> set (hist result_entry ies).
          \<exists>request. (fst x, request) \<in> set (hist call_entry ies)
            \<and> route_at s request \<noteq> None \<and> route_at s request = route_at s (snd x))"

section \<open>One event\<close>

lemma server_event_header_Inr:
  "server_event_header s request turn step seq = Inr h \<longleftrightarrow>
     bt_get (rf_headers s) request = Some h \<and> hr_turn h = turn \<and> hr_step h = step"
  by (auto simp: server_event_header_def)

lemma validate_server_output_order_Inr:
  "validate_server_output_order s request idx seq = Inr s' \<longleftrightarrow>
     \<not> (case bt_get (rf_last_index s) request of None \<Rightarrow> False | Some previous \<Rightarrow> idx < previous)
     \<and> s' = s\<lparr>rf_last_index := bt_insert request idx (rf_last_index s)\<rparr>"
  by (auto simp: validate_server_output_order_def)

lemma push_server_event_fields [simp]:
  "rf_headers (push_server_event r e s) = rf_headers s"
  "rf_order (push_server_event r e s) = rf_order s"
  "rf_contexts (push_server_event r e s) = rf_contexts s"
  "rf_next_index (push_server_event r e s) = rf_next_index s"
  "rf_metadata (push_server_event r e s) = rf_metadata s"
  "rf_calls (push_server_event r e s) = rf_calls s"
  "rf_results (push_server_event r e s) = rf_results s"
  "rf_usage (push_server_event r e s) = rf_usage s"
  by (simp_all add: push_server_event_def)

lemmas step_simps =
  request_step_def fold_header_def fold_context_def fold_item_def fold_metadata_def fold_call_def
  fold_result_def fold_usage_def fold_citation_def server_event_header_Inr
  validate_server_output_order_Inr Let_def

lemma bt_get_insert: "bt_inv m \<Longrightarrow> bt_get (bt_insert k v m) x = (if x = k then Some v else bt_get m x)"
  by (simp add: bt_get_def map_of_bt_insert)

text \<open>What one accepted event changes, one lemma a map.\<close>

lemma step_order:
  "request_step ext s ie = Inr s' \<Longrightarrow>
   rf_order s' = rf_order s @ (case header_entry ie of None \<Rightarrow> [] | Some x \<Rightarrow> [x])
   \<and> rf_headers s' = (case header_entry ie of None \<Rightarrow> rf_headers s
                      | Some (r, h) \<Rightarrow> bt_insert r h (rf_headers s))
   \<and> (case header_entry ie of None \<Rightarrow> True | Some (r, h) \<Rightarrow> \<not> bt_contains (rf_headers s) r)"
  by (cases ie; cases "ev_kind (snd ie)") (auto simp: step_simps header_entry_def)

lemma step_contexts:
  "request_step ext s ie = Inr s' \<Longrightarrow>
   rf_contexts s' = (case context_entry ie of None \<Rightarrow> rf_contexts s
                     | Some (r, c) \<Rightarrow> bt_insert r c (rf_contexts s))
   \<and> (case context_entry ie of None \<Rightarrow> True
      | Some (r, c) \<Rightarrow> \<not> bt_contains (rf_contexts s) r \<and> bt_contains (rf_headers s) r)"
  by (cases ie; cases "ev_kind (snd ie)") (auto simp: step_simps context_entry_def)

lemma step_metadata:
  "request_step ext s ie = Inr s' \<Longrightarrow>
   rf_metadata s' = (case metadata_entry ie of None \<Rightarrow> rf_metadata s
                     | Some (r, m) \<Rightarrow> bt_insert r m (rf_metadata s))
   \<and> (case metadata_entry ie of None \<Rightarrow> True | Some (r, m) \<Rightarrow> \<not> bt_contains (rf_metadata s) r)"
  by (cases ie; cases "ev_kind (snd ie)") (auto simp: step_simps metadata_entry_def)

lemma step_usage:
  "request_step ext s ie = Inr s' \<Longrightarrow>
   rf_usage s' = (case usage_entry ie of None \<Rightarrow> rf_usage s | Some x \<Rightarrow> x # rf_usage s)
   \<and> (case usage_entry ie of None \<Rightarrow> True | Some x \<Rightarrow> x \<notin> set (rf_usage s))"
  by (cases ie; cases "ev_kind (snd ie)") (auto simp: step_simps usage_entry_def)

lemma step_items:
  "request_step ext s ie = Inr s' \<Longrightarrow>
   rf_next_index s' =
     (case item_entry ie of None \<Rightarrow> rf_next_index s
      | Some (r, idx) \<Rightarrow> bt_insert r (saturating_add_u32 (next_index s r) 1) (rf_next_index s))
   \<and> (case item_entry ie of None \<Rightarrow> True | Some (r, idx) \<Rightarrow> idx = next_index s r)"
  by (cases ie; cases "ev_kind (snd ie)") (auto simp: step_simps item_entry_def)

lemma step_server_events:
  "request_step ext s ie = Inr s' \<Longrightarrow>
   rf_server_events s' =
     (case server_entry ie of None \<Rightarrow> rf_server_events s
      | Some (r, e) \<Rightarrow> bt_insert r (server_events_of s r @ [e]) (rf_server_events s))"
  by (cases ie; cases "ev_kind (snd ie)")
    (auto simp: step_simps server_entry_def push_server_event_def server_events_of_def)

lemma step_calls:
  "request_step ext s ie = Inr s' \<Longrightarrow>
   (case call_entry ie of
      None \<Rightarrow> rf_calls s' = rf_calls s
    | Some (call, r) \<Rightarrow>
        \<not> bt_contains (rf_calls s) call
        \<and> route_at s r \<noteq> None
        \<and> rf_calls s' = bt_insert call (the (route_at s r)) (rf_calls s))"
  by (cases ie; cases "ev_kind (snd ie)") (auto simp: step_simps call_entry_def route_at_def)

lemma step_results:
  "request_step ext s ie = Inr s' \<Longrightarrow>
   (case result_entry ie of
      None \<Rightarrow> rf_results s' = rf_results s
    | Some (call, r) \<Rightarrow>
        rf_results s' = call # rf_results s \<and> call \<notin> set (rf_results s)
        \<and> route_at s r \<noteq> None \<and> bt_get (rf_calls s) call = route_at s r)"
  by (cases ie; cases "ev_kind (snd ie)") (auto simp: step_simps result_entry_def route_at_def)


section \<open>The invariants are kept\<close>

lemma inv_headers_step:
  assumes "request_step ext s ie = Inr s'" "inv_headers s ies"
  shows "inv_headers s' (ies @ [ie])"
  using step_order [OF assms(1)] assms(2)
  by (cases "header_entry ie") (auto simp: inv_headers_def intro!: indexes_insert)

lemma inv_contexts_step:
  assumes "request_step ext s ie = Inr s'" "inv_contexts s ies"
  shows "inv_contexts s' (ies @ [ie])"
  using step_contexts [OF assms(1)] assms(2)
  by (cases "context_entry ie") (auto simp: inv_contexts_def intro!: indexes_insert)

lemma inv_metadata_step:
  assumes "request_step ext s ie = Inr s'" "inv_metadata s ies"
  shows "inv_metadata s' (ies @ [ie])"
  using step_metadata [OF assms(1)] assms(2)
  by (cases "metadata_entry ie") (auto simp: inv_metadata_def intro!: indexes_insert)

lemma inv_usage_step:
  assumes "request_step ext s ie = Inr s'" "inv_usage s ies"
  shows "inv_usage s' (ies @ [ie])"
  using step_usage [OF assms(1)] assms(2) by (cases "usage_entry ie") (auto simp: inv_usage_def)

lemma inv_events_step:
  assumes "request_step ext s ie = Inr s'" "inv_events s ies"
  shows "inv_events s' (ies @ [ie])"
  using step_server_events [OF assms(1)] assms(2)
  by (cases "server_entry ie")
    (auto simp: inv_events_def server_events_of_def bt_get_insert bt_inv_insert)

lemma inv_items_step:
  assumes "request_step ext s ie = Inr s'" "inv_items s ies"
  shows "inv_items s' (ies @ [ie])"
proof (cases "item_entry ie")
  case None
  then show ?thesis
    using step_items [OF assms(1)] assms(2) by (simp add: inv_items_def next_index_def)
next
  case (Some x)
  then obtain r idx where x: "item_entry ie = Some (r, idx)" by (cases x) auto
  have s': "rf_next_index s' = bt_insert r (saturating_add_u32 (next_index s r) 1) (rf_next_index s)"
    and idx: "idx = next_index s r"
    using step_items [OF assms(1)] x by simp_all
  have inv: "bt_inv (rf_next_index s)"
    and old: "of_request q (hist item_entry ies) =
        map (\<lambda>i. min i u32_max) [0..<length (of_request q (hist item_entry ies))]"
      "next_index s q = min (length (of_request q (hist item_entry ies))) u32_max" for q
    using assms(2) by (simp_all add: inv_items_def Let_def)
  have new: "next_index s' q = (if q = r then saturating_add_u32 (next_index s r) 1 else next_index s q)" for q
    using inv by (simp add: next_index_def s' bt_get_insert)
  show ?thesis
    unfolding inv_items_def Let_def
  proof (intro conjI allI)
    show "bt_inv (rf_next_index s')" by (simp add: s' inv bt_inv_insert)
    fix q
    let ?n = "length (of_request q (hist item_entry ies))"
    show "of_request q (hist item_entry (ies @ [ie])) =
        map (\<lambda>i. min i u32_max) [0..<length (of_request q (hist item_entry (ies @ [ie])))]"
      using old(1) [of q] old(2) [of q] idx x by auto
    show "next_index s' q = min (length (of_request q (hist item_entry (ies @ [ie])))) u32_max"
      using old(2) [of q] x by (auto simp: new saturating_add_u32_def)
  qed
qed

lemma route_at_step:
  assumes "request_step ext s ie = Inr s'" "inv_headers s ies" "route_at s r \<noteq> None"
  shows "route_at s' r = route_at s r"
proof (cases "header_entry ie")
  case None
  with step_order [OF assms(1)] show ?thesis by (simp add: route_at_def)
next
  case (Some x)
  then obtain q h where x: "header_entry ie = Some (q, h)" by (cases x) auto
  then have "rf_headers s' = bt_insert q h (rf_headers s)" "\<not> bt_contains (rf_headers s) q"
    using step_order [OF assms(1)] by simp_all
  moreover have "bt_inv (rf_headers s)" using assms(2) by (simp add: inv_headers_def indexes_def)
  ultimately show ?thesis using assms(3) by (auto simp: route_at_def bt_get_insert)
qed

lemma inv_calls_step:
  assumes "request_step ext s ie = Inr s'" "inv_headers s ies" "inv_calls s ies"
  shows "inv_calls s' (ies @ [ie])"
proof -
  note stable = route_at_step [OF assms(1,2)]
  have inv: "bt_inv (rf_calls s)" "distinct (map fst (hist call_entry ies))"
    and get: "bt_get (rf_calls s) call = Option.bind (map_of (hist call_entry ies) call) (route_at s)"
    and known: "x \<in> set (hist call_entry ies) \<Longrightarrow> route_at s (snd x) \<noteq> None" for call x
    using assms(3) by (simp_all add: inv_calls_def)
  have old: "Option.bind (map_of (hist call_entry ies) call) (route_at s') =
      Option.bind (map_of (hist call_entry ies) call) (route_at s)" for call
    by (cases "map_of (hist call_entry ies) call") (auto dest!: map_of_SomeD known stable)
  show ?thesis
  proof (cases "call_entry ie")
    case None
    with step_calls [OF assms(1)] inv get known old stable show ?thesis by (simp add: inv_calls_def)
  next
    case (Some x)
    then obtain call r where x: "call_entry ie = Some (call, r)" by (cases x) auto
    have c: "\<not> bt_contains (rf_calls s) call" "route_at s r \<noteq> None"
      "rf_calls s' = bt_insert call (the (route_at s r)) (rf_calls s)"
      using step_calls [OF assms(1)] x by simp_all
    have fresh: "call \<notin> fst ` set (hist call_entry ies)"
    proof
      assume "call \<in> fst ` set (hist call_entry ies)"
      then obtain q where "map_of (hist call_entry ies) call = Some q"
        by (metis map_of_eq_None_iff option.exhaust)
      with get [of call] known [of "(call, q)"] c(1) show False by (auto dest: map_of_SomeD)
    qed
    have fresh': "map_of (hist call_entry ies) call = None" using fresh by (simp add: map_of_eq_None_iff)
    show ?thesis
      unfolding inv_calls_def
    proof (intro conjI allI ballI)
      show "bt_inv (rf_calls s')" by (simp add: c(3) inv(1) bt_inv_insert)
      show "distinct (map fst (hist call_entry (ies @ [ie])))" using inv(2) fresh x by simp
      show "bt_get (rf_calls s') q = Option.bind (map_of (hist call_entry (ies @ [ie])) q) (route_at s')" for q
        using c(2) stable [OF c(2)] old [of q] get [of q] fresh' x
        by (auto simp: c(3) bt_get_insert inv(1) map_of_snoc [OF fresh] simp del: map_of_append)
      show "route_at s' (snd y) \<noteq> None" if "y \<in> set (hist call_entry (ies @ [ie]))" for y
        using that x known [of y] c(2) stable by auto
    qed
  qed
qed

lemma inv_results_step:
  assumes "request_step ext s ie = Inr s'" "inv_headers s ies" "inv_calls s ies" "inv_results s ies"
  shows "inv_results s' (ies @ [ie])"
proof -
  note stable = route_at_step [OF assms(1,2)]
  have old: "rf_results s = rev (map fst (hist result_entry ies))" "distinct (rf_results s)"
    "\<And>x. x \<in> set (hist result_entry ies) \<Longrightarrow>
       \<exists>request. (fst x, request) \<in> set (hist call_entry ies) \<and> route_at s request \<noteq> None
         \<and> route_at s request = route_at s (snd x)"
    using assms(4) unfolding inv_results_def by blast+
  have kept: "\<exists>request. (fst x, request) \<in> set (hist call_entry (ies @ [ie])) \<and> route_at s' request \<noteq> None
      \<and> route_at s' request = route_at s' (snd x)" if "x \<in> set (hist result_entry ies)" for x
    using old(3) [OF that] stable by (metis Un_iff hist_snoc set_append)
  show ?thesis
  proof (cases "result_entry ie")
    case None
    with step_results [OF assms(1)] old(1,2) kept show ?thesis by (simp add: inv_results_def)
  next
    case (Some x)
    then obtain call r where x: "result_entry ie = Some (call, r)" by (cases x) auto
    have c: "rf_results s' = call # rf_results s" "call \<notin> set (rf_results s)" "route_at s r \<noteq> None"
      "bt_get (rf_calls s) call = route_at s r"
      using step_results [OF assms(1)] x by simp_all
    have "Option.bind (map_of (hist call_entry ies) call) (route_at s) = route_at s r"
      using assms(3) c(4) by (simp add: inv_calls_def)
    then obtain q where q: "map_of (hist call_entry ies) call = Some q" "route_at s q = route_at s r"
      using c(3) by (cases "map_of (hist call_entry ies) call") auto
    have new: "(call, q) \<in> set (hist call_entry (ies @ [ie]))" "route_at s' q \<noteq> None"
      "route_at s' q = route_at s' r"
      using q c(3) stable by (auto dest: map_of_SomeD)
    show ?thesis
      unfolding inv_results_def
    proof (intro conjI ballI)
      show "rf_results s' = rev (map fst (hist result_entry (ies @ [ie])))" by (simp add: c(1) old(1) x)
      show "distinct (rf_results s')" using c(1,2) old(2) by simp
      show "\<exists>request. (fst y, request) \<in> set (hist call_entry (ies @ [ie])) \<and> route_at s' request \<noteq> None
          \<and> route_at s' request = route_at s' (snd y)" if "y \<in> set (hist result_entry (ies @ [ie]))" for y
        using that x kept [of y] new by auto
    qed
  qed
qed

definition request_inv :: "request_fold \<Rightarrow> (nat \<times> session_event) list \<Rightarrow> bool" where
  "request_inv s ies \<longleftrightarrow>
     inv_headers s ies \<and> inv_contexts s ies \<and> inv_metadata s ies \<and> inv_usage s ies
     \<and> inv_events s ies \<and> inv_items s ies \<and> inv_calls s ies \<and> inv_results s ies"

lemma request_inv_start: "request_inv request_fold_start []"
  by (simp add: request_inv_def request_fold_start_def inv_headers_def inv_contexts_def inv_metadata_def
      inv_usage_def inv_events_def inv_items_def inv_calls_def inv_results_def bt_inv_def bt_empty_def
      indexes_def bt_get_def fun_eq_iff server_events_of_def next_index_def Let_def)

lemma request_inv_step:
  "\<lbrakk>request_step ext s ie = Inr s'; request_inv s ies\<rbrakk> \<Longrightarrow> request_inv s' (ies @ [ie])"
  unfolding request_inv_def
  by (meson inv_headers_step inv_contexts_step inv_metadata_step inv_usage_step inv_events_step
      inv_items_step inv_calls_step inv_results_step)

lemma request_inv_fold:
  "try_fold (request_step ext) request_fold_start ies = Inr s \<Longrightarrow> request_inv s ies"
proof (induction ies arbitrary: s rule: rev_induct)
  case Nil
  then show ?case by (simp add: request_inv_start)
next
  case (snoc ie ies)
  from snoc.prems obtain t where "try_fold (request_step ext) request_fold_start ies = Inr t"
    "request_step ext t ie = Inr s"
    by (auto simp: try_fold_append)
  with snoc.IH show ?case by (blast intro: request_inv_step)
qed


section \<open>The history read off the events\<close>

lemma indexed_snoc [simp]: "indexed (es @ [e]) = indexed es @ [(length es, e)]"
  by (simp add: indexed_def)

lemma indexed_Nil [simp]: "indexed [] = []"
  by (simp add: indexed_def)

lemma indexed_append: "\<exists>rest. indexed (es @ more_events) = indexed es @ rest"
proof (induction more_events rule: rev_induct)
  case (snoc e more_events)
  then show ?case by (metis append_assoc indexed_snoc)
qed simp

lemma hist_indexed: "(\<And>i e. f (i, e) = g e) \<Longrightarrow> hist f (indexed es) = hist g es"
  by (induction es rule: rev_induct) auto

lemma indexed_less: "x \<in> set (indexed es) \<Longrightarrow> fst x < length es"
  by (auto simp: indexed_def set_zip)

definition header_event :: "session_event \<Rightarrow> (string \<times> nat \<times> nat \<times> request_header) option" where
  "header_event e =
     (case ev_kind e of RequestHeader turn step request h \<Rightarrow> Some (request, turn, step, h) | _ \<Rightarrow> None)"

definition context_event :: "session_event \<Rightarrow> (string \<times> request_context) option" where
  "context_event e = context_entry (0, e)"

definition metadata_event :: "session_event \<Rightarrow> (string \<times> response_metadata) option" where
  "metadata_event e = metadata_entry (0, e)"

definition item_event :: "session_event \<Rightarrow> (string \<times> nat) option" where
  "item_event e = item_entry (0, e)"

definition call_event :: "session_event \<Rightarrow> (string \<times> string) option" where
  "call_event e = call_entry (0, e)"

definition result_event :: "session_event \<Rightarrow> (string \<times> string) option" where
  "result_event e = result_entry (0, e)"

definition server_event :: "session_event \<Rightarrow> (string \<times> projected_server_event) option" where
  "server_event e = server_entry (0, e)"

lemmas event_histories =
  hist_indexed [of context_entry context_event] hist_indexed [of metadata_entry metadata_event]
  hist_indexed [of item_entry item_event] hist_indexed [of call_entry call_event]
  hist_indexed [of result_entry result_event] hist_indexed [of server_entry server_event]

lemma event_entries [simp]:
  "hist context_entry (indexed es) = hist context_event es"
  "hist metadata_entry (indexed es) = hist metadata_event es"
  "hist item_entry (indexed es) = hist item_event es"
  "hist call_entry (indexed es) = hist call_event es"
  "hist result_entry (indexed es) = hist result_event es"
  "hist server_entry (indexed es) = hist server_event es"
  by (rule event_histories; unfold context_event_def metadata_event_def item_event_def call_event_def
      result_event_def server_event_def entry_defs snd_conv; rule refl)+

lemma header_entries:
  "map (\<lambda>(r, h). (r, hr_turn h, hr_step h, hr_header h)) (hist header_entry (indexed es)) =
   hist header_event es"
proof (induction es rule: rev_induct)
  case (snoc e es)
  then show ?case by (cases "ev_kind e") (simp_all add: header_entry_def header_event_def)
qed simp

section \<open>Accepted logs\<close>

lemma project_requests_state:
  assumes "project_requests ext events = Inr rs"
  obtains s where "try_fold (request_step ext) request_fold_start (indexed events) = Inr s"
    and "request_inv s (indexed events)"
    and "list_all2 (\<lambda>entry r. finish_request ext events s entry = Inr r) (rf_order s) rs"
proof -
  from assms obtain s where s: "try_fold (request_step ext) request_fold_start (indexed events) = Inr s"
    "try_map (finish_request ext events s) (rf_order s) = Inr rs"
    by (auto simp: project_requests_def)
  show thesis by (rule that [OF s(1) request_inv_fold [OF s(1)]]) (use s(2) in \<open>simp add: try_map_Inr\<close>)
qed

lemma finish_request_Inr:
  "finish_request ext events s (request, h) = Inr r \<longleftrightarrow>
     (\<exists>c. bt_get (rf_contexts s) request = Some c
        \<and> r = \<lparr>pr_turn = hr_turn h, pr_step = hr_step h, pr_id = request, pr_header = hr_header h,
               pr_context = c,
               pr_inputs =
                 project_inputs (pe_render ext) (header_route (hr_header h)) (take (hr_index h) events),
               pr_server_events = server_events_of s request,
               pr_metadata = bt_get (rf_metadata s) request\<rparr>)"
  by (auto simp: finish_request_def)

definition identity_of :: "projected_request \<Rightarrow> string \<times> nat \<times> nat \<times> request_header" where
  "identity_of r = (pr_id r, pr_turn r, pr_step r, pr_header r)"

lemma projected_identities:
  assumes "list_all2 (\<lambda>entry r. finish_request ext events s entry = Inr r) entries rs"
  shows "map identity_of rs = map (\<lambda>(r, h). (r, hr_turn h, hr_step h, hr_header h)) entries"
    and "map pr_id rs = map fst entries"
  using assms
  by (induction entries rs rule: list_all2_induct) (auto simp: finish_request_Inr identity_of_def)

lemma projected_requests_correct:
  assumes "project_requests ext events = Inr rs"
  shows "map identity_of rs = hist header_event events"
    and "distinct (map pr_id rs)"
    and "r \<in> set rs \<Longrightarrow>
      map_of (hist context_event events) (pr_id r) = Some (pr_context r)
      \<and> pr_metadata r = map_of (hist metadata_event events) (pr_id r)
      \<and> pr_server_events r = of_request (pr_id r) (hist server_event events)"
proof -
  obtain s where inv: "request_inv s (indexed events)"
    and all: "list_all2 (\<lambda>entry r. finish_request ext events s entry = Inr r) (rf_order s) rs"
    by (rule project_requests_state [OF assms])
  have order: "rf_order s = hist header_entry (indexed events)" "distinct (map fst (rf_order s))"
    using inv unfolding request_inv_def inv_headers_def indexes_def by blast+
  show "map identity_of rs = hist header_event events"
    unfolding projected_identities(1) [OF all] order(1) by (rule header_entries)
  show "distinct (map pr_id rs)" using projected_identities(2) [OF all] order(2) by simp
  assume "r \<in> set rs"
  then obtain i where i: "i < length rs" "r = rs ! i" by (auto simp: in_set_conv_nth)
  obtain q h where "rf_order s ! i = (q, h)" by fastforce
  then have r: "finish_request ext events s (q, h) = Inr r"
    using list_all2_nthD2 [OF all i(1)] i(2) by simp
  have "bt_get (rf_contexts s) = map_of (hist context_event events)"
    "bt_get (rf_metadata s) = map_of (hist metadata_event events)"
    "server_events_of s q = of_request q (hist server_event events)"
    using inv by (simp_all add: request_inv_def inv_contexts_def inv_metadata_def inv_events_def indexes_def)
  then show "map_of (hist context_event events) (pr_id r) = Some (pr_context r)
      \<and> pr_metadata r = map_of (hist metadata_event events) (pr_id r)
      \<and> pr_server_events r = of_request (pr_id r) (hist server_event events)"
    using r by (auto simp: finish_request_Inr)
qed

lemma projected_correlations:
  assumes "project_requests ext events = Inr rs"
  shows "distinct (map fst (hist context_event events))"
    and "distinct (map fst (hist metadata_event events))"
    and "distinct (map fst (hist call_event events))"
    and "distinct (map fst (hist result_event events))"
    and "of_request q (hist item_event events) =
      map (\<lambda>i. min i u32_max) [0..<length (of_request q (hist item_event events))]"
proof -
  obtain s where inv: "request_inv s (indexed events)"
    by (rule project_requests_state [OF assms])
  show "distinct (map fst (hist context_event events))" "distinct (map fst (hist metadata_event events))"
    "distinct (map fst (hist call_event events))"
    using inv by (simp_all add: request_inv_def inv_contexts_def inv_metadata_def inv_calls_def indexes_def)
  have "distinct (rev (map fst (hist result_event events)))"
    using inv unfolding request_inv_def inv_results_def event_entries by metis
  then show "distinct (map fst (hist result_event events))" by (rule distinct_rev [THEN iffD1])
  show "of_request q (hist item_event events) =
      map (\<lambda>i. min i u32_max) [0..<length (of_request q (hist item_event events))]"
    using inv by (simp add: request_inv_def inv_items_def Let_def)
qed

text \<open>The route of a request, by the header that precedes.\<close>

definition route_before :: "session_event list \<Rightarrow> string \<Rightarrow> wire_route option" where
  "route_before events request =
     map_option (\<lambda>(turn, step, h). header_route h) (map_of (hist header_event events) request)"

lemma route_at_history:
  assumes "inv_headers s (indexed events)"
  shows "route_at s request = route_before events request"
proof -
  have get: "bt_get (rf_headers s) = map_of (hist header_entry (indexed events))"
    using assms by (simp add: inv_headers_def indexes_def)
  have "hist header_event events =
      map (\<lambda>(r, h). (r, hr_turn h, hr_step h, hr_header h)) (hist header_entry (indexed events))"
    by (rule header_entries [symmetric])
  then have "map_of (hist header_event events) request =
      map_option (\<lambda>h. (hr_turn h, hr_step h, hr_header h)) (map_of (hist header_entry (indexed events)) request)"
    using map_of_map_snd [of "\<lambda>h. (hr_turn h, hr_step h, hr_header h)"] by (simp add: split_def)
  then show ?thesis
    by (simp add: route_at_def get route_before_def option.map_comp comp_def)
qed

lemma result_has_call:
  assumes "project_requests ext events = Inr rs" "events = before @ e # after"
    and "result_event e = Some (call, request)"
  shows "\<exists>q. (call, q) \<in> set (hist call_event before)
    \<and> route_before before q \<noteq> None \<and> route_before before q = route_before before request"
proof -
  obtain s where fold: "try_fold (request_step ext) request_fold_start (indexed events) = Inr s"
    by (rule project_requests_state [OF assms(1)])
  obtain rest where "indexed events = indexed (before @ [e]) @ rest"
    using indexed_append [of "before @ [e]" after] assms(2) by auto
  then obtain t u where t: "try_fold (request_step ext) request_fold_start (indexed before) = Inr t"
    "request_step ext t (length before, e) = Inr u"
    using fold by (auto simp: try_fold_append)
  have inv: "inv_headers t (indexed before)" "inv_calls t (indexed before)"
    using request_inv_fold [OF t(1)] by (simp_all add: request_inv_def)
  have "result_entry (length before, e) = Some (call, request)"
    using assms(3) by (simp add: result_event_def result_entry_def)
  then have r: "route_at t request \<noteq> None" "bt_get (rf_calls t) call = route_at t request"
    using step_results [OF t(2)] by simp_all
  then have "Option.bind (map_of (hist call_event before) call) (route_at t) = route_at t request"
    using inv(2) by (simp add: inv_calls_def)
  then obtain q where "map_of (hist call_event before) call = Some q" "route_at t q = route_at t request"
    using r(1) by (cases "map_of (hist call_event before) call") auto
  with r(1) show ?thesis
    by (auto simp: route_at_history [OF inv(1)] dest: map_of_SomeD)
qed

section \<open>Appending\<close>

definition sent_request ::
  "projected_request \<Rightarrow> string \<times> nat \<times> nat \<times> request_header \<times> request_context \<times> projected_input list" where
  "sent_request r = (pr_id r, pr_turn r, pr_step r, pr_header r, pr_context r, pr_inputs r)"

lemma sent_requests_stable:
  assumes "project_requests ext events = Inr rs" "project_requests ext (events @ more_events) = Inr rs'"
  shows "\<exists>tail. map sent_request rs' = map sent_request rs @ tail"
proof -
  obtain s where s: "request_inv s (indexed events)"
    and all: "list_all2 (\<lambda>entry r. finish_request ext events s entry = Inr r) (rf_order s) rs"
    by (rule project_requests_state [OF assms(1)])
  obtain s' where s': "request_inv s' (indexed (events @ more_events))"
    and all': "list_all2 (\<lambda>entry r. finish_request ext (events @ more_events) s' entry = Inr r) (rf_order s') rs'"
    by (rule project_requests_state [OF assms(2)])
  obtain rest where rest: "indexed (events @ more_events) = indexed events @ rest"
    using indexed_append by blast
  let ?o = "rf_order s"
  have order: "?o = hist header_entry (indexed events)" "rf_order s' = ?o @ hist header_entry rest"
    using s s' by (simp_all add: request_inv_def inv_headers_def rest hist_append)
  have contexts: "bt_get (rf_contexts s) = map_of (hist context_event events)"
    "bt_get (rf_contexts s') = map_of (hist context_event (events @ more_events))"
    "distinct (map fst (hist context_event (events @ more_events)))"
    using s s' by (simp_all add: request_inv_def inv_contexts_def indexes_def)
  have context_kept: "bt_get (rf_contexts s') q = Some c" if "bt_get (rf_contexts s) q = Some c" for q c
    using that contexts(3) unfolding contexts(1,2)
    by (metis Un_iff hist_append map_of_eq_Some_iff map_of_SomeD set_append)
  have length: "length ?o = length rs" using all by (rule list_all2_lengthD)
  have all_take: "list_all2 (\<lambda>entry r. finish_request ext (events @ more_events) s' entry = Inr r) ?o (take (length rs) rs')"
    using all' unfolding order(2) by (metis length append_eq_conv_conj list_all2_takeI)
  have same: "map sent_request (take (length rs) rs') = map sent_request rs"
  proof (rule nth_equalityI)
    show "length (map sent_request (take (length rs) rs')) = length (map sent_request rs)"
      using list_all2_lengthD [OF all_take] length by simp
    fix i assume "i < length (map sent_request (take (length rs) rs'))"
    then have i: "i < length ?o" "i < length rs" "i < length (take (length rs) rs')"
      using length by auto
    obtain q h where qh: "?o ! i = (q, h)" by (cases "?o ! i")
    then have "(q, h) \<in> set (hist header_entry (indexed events))"
      using i(1) order(1) by (metis nth_mem)
    then obtain x where x: "x \<in> set (indexed events)" "header_entry x = Some (q, h)"
      by (auto simp: set_hist)
    then have "hr_index h < length events"
      using indexed_less [OF x(1)] by (auto simp: header_entry_def split: session_event_kind.splits)
    then have tk: "take (hr_index h) (events @ more_events) = take (hr_index h) events" by simp
    have f: "finish_request ext events s (q, h) = Inr (rs ! i)"
      using list_all2_nthD [OF all i(1)] qh by simp
    have f': "finish_request ext (events @ more_events) s' (q, h) = Inr (rs' ! i)"
      using list_all2_nthD [OF all_take i(1)] qh i by simp
    obtain c where c: "bt_get (rf_contexts s) q = Some c"
      using f by (auto simp: finish_request_Inr)
    have "sent_request (rs' ! i) = sent_request (rs ! i)"
      using f f' c context_kept [OF c] by (simp add: finish_request_Inr sent_request_def tk del: take_append)
    then show "map sent_request (take (length rs) rs') ! i = map sent_request rs ! i"
      using i by simp
  qed
  have "map sent_request rs' = map sent_request rs @ map sent_request (drop (length rs) rs')"
    unfolding same [symmetric] by (metis append_take_drop_id map_append)
  then show ?thesis ..
qed


section \<open>Agreement with the message fold\<close>

text \<open>Nothing in the log speaks the route's own protocol: no state item, no native checkpoint.\<close>

definition foreign_event :: "wire_route \<Rightarrow> session_event \<Rightarrow> bool" where
  "foreign_event route e =
     (case ev_kind e of
        AssistantProviderItem turn step request idx item \<Rightarrow> state_route item \<noteq> route
      | NativeCompactionApplied strategy reach items usage \<Rightarrow>
          (case items of [] \<Rightarrow> True | item # _ \<Rightarrow> state_route item \<noteq> route)
      | _ \<Rightarrow> True)"

definition neutral_winner :: "(nat \<times> session_event) option \<Rightarrow> (nat \<times> string) option \<Rightarrow> bool" where
  "neutral_winner w v \<longleftrightarrow>
     (case w of
        None \<Rightarrow> v = None
      | Some (reach, e) \<Rightarrow> \<exists>summary. ev_kind e = CompactionApplied summary reach \<and> v = Some (reach, summary))"

lemma neutral_winner_step:
  assumes "neutral_winner w v" "foreign_event route e"
  shows "neutral_winner (better_compaction (route_reach route) w e) (better_marker v e)"
proof (cases "ev_kind e")
  case (CompactionApplied summary reach)
  with assms show ?thesis
    by (cases w) (auto simp: neutral_winner_def better_compaction_def better_marker_def route_reach_def)
next
  case (NativeCompactionApplied strategy reach items usage)
  with assms show ?thesis
    by (cases items) (auto simp: neutral_winner_def better_compaction_def better_marker_def route_reach_def
        foreign_event_def)
qed (use assms in \<open>simp_all add: better_compaction_def better_marker_def route_reach_def\<close>)

lemma neutral_winners:
  "list_all (foreign_event route) es \<Longrightarrow>
   neutral_winner (winning_compaction_for_route route es) (compaction_winner es)"
proof (induction es rule: rev_induct)
  case Nil
  then show ?case by (simp add: winning_compaction_for_route_def compaction_winner_def neutral_winner_def)
next
  case (snoc e es)
  then show ?case
    using neutral_winner_step [of "winning_compaction_for_route route es"]
    by (simp add: winning_compaction_for_route_def compaction_winner_def)
qed

lemma neutral_shadow: "neutral_winner w v \<Longrightarrow> skipped v e \<longleftrightarrow> is_marker (ev_kind e) \<or> shadowed w e"
  by (auto simp: neutral_winner_def skipped_def shadowed_def split: option.splits)

lemma neutral_replacements: "list_all (foreign_event route) es \<Longrightarrow> replacement_steps route w es = []"
  by (induction es)
    (auto simp: replacement_steps_def replaced_step_def foreign_event_def map_filter_def
      split: session_event_kind.splits)

definition inputs_match :: "input_fold \<Rightarrow> message_fold \<Rightarrow> bool" where
  "inputs_match s m \<longleftrightarrow>
     if_inputs s = map InputMessage (mf_out m) \<and> if_attachments s = mf_attachments m
     \<and> if_routes s = mf_routes m \<and> mf_unanswered m = []"

lemma inputs_match_event:
  assumes "inputs_match s m" "foreign_event route e"
  shows "inputs_match (input_event rich route [] s (ev_kind e)) (message_event rich Keep m (ev_kind e))"
  using assms
  by (cases "ev_kind e")
    (auto simp: inputs_match_def input_event_def message_event_def add_message_def tool_message_def
      push_def answer_def close_unanswered_def foreign_event_def Let_def split: option.split)

lemma marker_input: "is_marker (ev_kind e) \<Longrightarrow> input_event rich route replaced s (ev_kind e) = s"
  by (cases "ev_kind e") (simp_all add: input_event_def)

lemma inputs_match_fold:
  "\<lbrakk>inputs_match s m; neutral_winner w v; list_all (foreign_event route) es\<rbrakk> \<Longrightarrow>
   inputs_match (foldl (input_step rich route [] w) s es) (foldl (message_step rich Keep v) m es)"
proof (induction es arbitrary: s m)
  case (Cons e es)
  have "inputs_match (input_step rich route [] w s e) (message_step rich Keep v m e)"
    using Cons.prems inputs_match_event [of s m route e rich]
    by (auto simp: input_step_def message_step_def neutral_shadow [OF Cons.prems(2)] marker_input)
  with Cons show ?case by simp
qed simp

lemma foreign_inputs:
  assumes "list_all (foreign_event route) es"
  shows "project_inputs rich route es = map InputMessage (derive_messages rich es)"
proof -
  let ?w = "winning_compaction_for_route route es"
  let ?v = "compaction_winner es"
  have n: "neutral_winner ?w ?v" by (rule neutral_winners [OF assms])
  let ?s = "\<lparr>if_inputs = checkpoint_inputs ?w, if_attachments = [], if_routes = []\<rparr>"
  have "inputs_match ?s (message_fold_start ?v)"
    using n by (auto simp: inputs_match_def message_fold_start_def checkpoint_inputs_def neutral_winner_def
        split: option.splits)
  from inputs_match_fold [OF this n assms, of rich] show ?thesis
    by (simp add: project_inputs_def derive_messages_def fold_messages_def Let_def
        neutral_replacements [OF assms] inputs_match_def close_unanswered_def)
qed

section \<open>The barrier\<close>

definition marker_winner ::
  "(session_event_kind \<Rightarrow> nat option) \<Rightarrow> session_event list \<Rightarrow> (nat \<times> session_event) option" where
  "marker_winner reach_of es = foldl (better_compaction reach_of) None es"

lemma marker_winner_Nil [simp]: "marker_winner reach_of [] = None"
  by (simp add: marker_winner_def)

lemma marker_winner_skip:
  "reach_of (ev_kind e) = None \<Longrightarrow> marker_winner reach_of (es @ [e]) = marker_winner reach_of es"
  by (simp add: marker_winner_def better_compaction_def)

lemma marker_winner_keep:
  "\<lbrakk>reach_of (ev_kind e) = Some r; marker_winner reach_of es = Some (n, x); r < n\<rbrakk> \<Longrightarrow>
   marker_winner reach_of (es @ [e]) = Some (n, x)"
  by (simp add: marker_winner_def better_compaction_def)

lemma marker_winner_take:
  "\<lbrakk>reach_of (ev_kind e) = Some r; \<And>n x. marker_winner reach_of es = Some (n, x) \<Longrightarrow> n \<le> r\<rbrakk> \<Longrightarrow>
   marker_winner reach_of (es @ [e]) = Some (r, e)"
  by (cases "marker_winner reach_of es") (fastforce simp: marker_winner_def better_compaction_def)+

text \<open>The three ways an event meets the winner so far.\<close>

lemma marker_winner_snoc_cases:
  obtains "reach_of (ev_kind e) = None" "marker_winner reach_of (es @ [e]) = marker_winner reach_of es"
  | r n x where "reach_of (ev_kind e) = Some r" "marker_winner reach_of es = Some (n, x)" "r < n"
      "marker_winner reach_of (es @ [e]) = Some (n, x)"
  | r where "reach_of (ev_kind e) = Some r" "\<And>n x. marker_winner reach_of es = Some (n, x) \<Longrightarrow> n \<le> r"
      "marker_winner reach_of (es @ [e]) = Some (r, e)"
proof (cases "reach_of (ev_kind e)")
  case None
  then show thesis by (rule that(1)) (rule marker_winner_skip, rule None)
next
  case (Some r)
  show thesis
  proof (cases "\<exists>n x. marker_winner reach_of es = Some (n, x) \<and> r < n")
    case True
    then obtain n x where "marker_winner reach_of es = Some (n, x)" "r < n" by blast
    then show thesis by (intro that(2) [OF Some]) (auto intro: marker_winner_keep Some)
  next
    case False
    then have le: "\<And>n x. marker_winner reach_of es = Some (n, x) \<Longrightarrow> n \<le> r" by (meson not_le)
    show thesis by (rule that(3) [OF Some le marker_winner_take [of reach_of e r es, OF Some le]])
  qed
qed

lemma marker_winner_reaches:
  "marker_winner reach_of es = Some (best, x) \<Longrightarrow> x \<in> set es \<and> reach_of (ev_kind x) = Some best"
proof (induction es arbitrary: best x rule: rev_induct)
  case (snoc e es)
  show ?case
  proof (rule marker_winner_snoc_cases [of reach_of e es])
    assume "marker_winner reach_of (es @ [e]) = marker_winner reach_of es"
    then have "marker_winner reach_of es = Some (best, x)" using snoc.prems by metis
    from snoc.IH [OF this] show ?case by simp
  next
    fix r n z
    assume "marker_winner reach_of es = Some (n, z)" "marker_winner reach_of (es @ [e]) = Some (n, z)"
    then have "marker_winner reach_of es = Some (best, x)" using snoc.prems by metis
    from snoc.IH [OF this] show ?case by simp
  next
    fix r
    assume "reach_of (ev_kind e) = Some r" "marker_winner reach_of (es @ [e]) = Some (r, e)"
    with snoc.prems show ?case by auto
  qed
qed simp

lemma marker_winner_None: "marker_winner reach_of es = None \<Longrightarrow> e \<in> set es \<Longrightarrow> reach_of (ev_kind e) = None"
proof (induction es rule: rev_induct)
  case (snoc x es)
  show ?case
    by (rule marker_winner_snoc_cases [of reach_of x es]) (use snoc in auto)
qed simp

text \<open>A fold over fewer markers never reaches further, and has the same winner when the winner is one of them.\<close>

lemma marker_winner_low:
  assumes sub: "\<And>k. reach' k = None \<or> reach' k = reach_of k"
  shows "marker_winner reach' es = Some (n, y) \<Longrightarrow> \<exists>m z. marker_winner reach_of es = Some (m, z) \<and> n \<le> m"
proof (induction es arbitrary: n y rule: rev_induct)
  case (snoc e es)
  have kept: "\<exists>m z. marker_winner reach_of (es @ [e]) = Some (m, z) \<and> n \<le> m"
    if "\<exists>m z. marker_winner reach_of es = Some (m, z) \<and> n \<le> m"
    by (rule marker_winner_snoc_cases [of reach_of e es]) (use that in \<open>auto intro: order_trans\<close>)
  show ?case
  proof (rule marker_winner_snoc_cases [of reach' e es])
    fix r assume r: "reach' (ev_kind e) = Some r" and w: "marker_winner reach' (es @ [e]) = Some (r, e)"
    then have r': "reach_of (ev_kind e) = Some r" "n = r" using sub [of "ev_kind e"] snoc.prems by auto
    show ?case
      unfolding r'(2)
    proof (rule marker_winner_snoc_cases [of reach_of e es])
      fix q m z
      assume "reach_of (ev_kind e) = Some q" "q < m" "marker_winner reach_of (es @ [e]) = Some (m, z)"
      with r'(1) show "\<exists>m z. marker_winner reach_of (es @ [e]) = Some (m, z) \<and> r \<le> m"
        by (auto intro: less_imp_le)
    next
      fix q
      assume "reach_of (ev_kind e) = Some q" "marker_winner reach_of (es @ [e]) = Some (q, e)"
      with r'(1) show "\<exists>m z. marker_winner reach_of (es @ [e]) = Some (m, z) \<and> r \<le> m" by simp
    qed (use r'(1) in simp)
  next
    assume "marker_winner reach' (es @ [e]) = marker_winner reach' es"
    then have "marker_winner reach' es = Some (n, y)" using snoc.prems by metis
    from kept [OF snoc.IH [OF this]] show ?case .
  next
    fix r m z
    assume "marker_winner reach' es = Some (m, z)" "marker_winner reach' (es @ [e]) = Some (m, z)"
    then have "marker_winner reach' es = Some (n, y)" using snoc.prems by metis
    from kept [OF snoc.IH [OF this]] show ?case .
  qed
qed simp

lemma marker_winner_sub:
  assumes sub: "\<And>k. reach' k = None \<or> reach' k = reach_of k"
  shows "\<lbrakk>marker_winner reach_of es = Some (best, x); reach' (ev_kind x) \<noteq> None\<rbrakk> \<Longrightarrow>
    marker_winner reach' es = Some (best, x)"
proof (induction es arbitrary: best x rule: rev_induct)
  case (snoc e es)
  show ?case
  proof (rule marker_winner_snoc_cases [of reach_of e es])
    assume none: "reach_of (ev_kind e) = None" "marker_winner reach_of (es @ [e]) = marker_winner reach_of es"
    then have "reach' (ev_kind e) = None" using sub [of "ev_kind e"] by auto
    from marker_winner_skip [of reach' e es, OF this] snoc.IH snoc.prems none(2) show ?case by metis
  next
    fix r n z
    assume k: "reach_of (ev_kind e) = Some r" "marker_winner reach_of es = Some (n, z)" "r < n"
      "marker_winner reach_of (es @ [e]) = Some (n, z)"
    then have nz: "best = n" "x = z" using snoc.prems(1) by auto
    have part: "marker_winner reach' es = Some (n, z)"
      by (rule snoc.IH [OF k(2)]) (use snoc.prems(2) nz in simp)
    show ?case
    proof (cases "reach' (ev_kind e)")
      case None
      from marker_winner_skip [of reach', OF this] part nz show ?thesis by simp
    next
      case (Some q)
      then have "q = r" using sub [of "ev_kind e"] k(1) by simp
      with marker_winner_keep [of reach', OF Some part] k(3) nz show ?thesis by simp
    qed
  next
    fix r
    assume k: "reach_of (ev_kind e) = Some r" "\<And>n x. marker_winner reach_of es = Some (n, x) \<Longrightarrow> n \<le> r"
      "marker_winner reach_of (es @ [e]) = Some (r, e)"
    then have x: "best = r" "x = e" using snoc.prems(1) by auto
    then have "reach' (ev_kind e) = Some r" using snoc.prems(2) sub [of "ev_kind e"] k(1) by auto
    then have "marker_winner reach' (es @ [e]) = Some (r, e)"
    proof (rule marker_winner_take)
      fix n y assume "marker_winner reach' es = Some (n, y)"
      from marker_winner_low [of reach' reach_of, OF sub this] k(2) show "n \<le> r"
        by (meson order_trans)
    qed
    with x show ?case by simp
  qed
qed simp

lemma winners:
  "winning_compaction_for_route route es = marker_winner (route_reach route) es"
  "barrier_winner es = marker_winner replaced_reach es"
  by (simp_all add: winning_compaction_for_route_def barrier_winner_def marker_winner_def)

lemma route_reach_sub: "route_reach route k = None \<or> route_reach route k = replaced_reach k"
  by (cases k) (auto simp: route_reach_def split: list.split)

lemma barrier_none_iff:
  assumes "opaque_compaction_barrier ext events provider model = Inr barrier"
  shows "barrier = None \<longleftrightarrow>
    (\<exists>protocol. winning_compaction_for_route (provider, model, protocol) events = barrier_winner events)"
proof (cases "barrier_winner events")
  case None
  have "winning_compaction_for_route route events = None" for route
  proof (cases "marker_winner (route_reach route) events")
    case (Some w)
    obtain n x where w: "w = (n, x)" by (cases w)
    have "x \<in> set events" "route_reach route (ev_kind x) = Some n"
      using marker_winner_reaches [of "route_reach route" events n x] Some w by simp_all
    with marker_winner_None [of replaced_reach events x] None route_reach_sub [of route "ev_kind x"]
    show ?thesis by (simp add: winners)
  qed (simp add: winners)
  with None assms show ?thesis by (auto simp: opaque_compaction_barrier_def)
next
  case (Some w)
  obtain reach e where w: "w = (reach, e)" by (cases w)
  have e: "replaced_reach (ev_kind e) = Some reach"
    using marker_winner_reaches [of replaced_reach events reach e] Some w by (simp add: winners)
  have found: "winning_compaction_for_route route events = barrier_winner events \<longleftrightarrow>
      route_reach route (ev_kind e) \<noteq> None" for route
  proof
    assume "winning_compaction_for_route route events = barrier_winner events"
    then show "route_reach route (ev_kind e) \<noteq> None"
      using marker_winner_reaches [of "route_reach route" events reach e] Some w by (simp add: winners)
  next
    assume "route_reach route (ev_kind e) \<noteq> None"
    then have "marker_winner (route_reach route) events = Some (reach, e)"
      using Some w by (intro marker_winner_sub [OF route_reach_sub]) (simp_all add: winners)
    then show "winning_compaction_for_route route events = barrier_winner events"
      using Some w by (simp add: winners)
  qed
  show ?thesis
  proof (cases "ev_kind e")
    case (CompactionApplied summary n)
    then have "winning_compaction_for_route (provider, model, ProtocolUnknown) events = barrier_winner events"
      by (simp add: found route_reach_def)
    moreover have "barrier = None"
      using assms CompactionApplied Some w by (auto simp: opaque_compaction_barrier_def)
    ultimately show ?thesis by blast
  next
    case (NativeCompactionApplied strategy n items usage)
    show ?thesis
    proof (cases items)
      case Nil
      with NativeCompactionApplied Some w assms show ?thesis by (auto simp: opaque_compaction_barrier_def)
    next
      case (Cons item rest)
      have "barrier = None \<longleftrightarrow> ps_provider item = provider \<and> ps_model item = model"
        using assms NativeCompactionApplied Cons Some w
        by (auto simp: opaque_compaction_barrier_def split: if_splits)
      moreover have "winning_compaction_for_route (provider, model, protocol) events = barrier_winner events \<longleftrightarrow>
          ps_provider item = provider \<and> ps_model item = model \<and> ps_protocol item = protocol" for protocol
        unfolding found by (simp add: NativeCompactionApplied Cons route_reach_def state_route_def)
      ultimately show ?thesis by blast
    qed
  qed (use e in simp_all)
qed

end
