(* ===== verification/Request_Lineage.thy ===== *)
theory Request_Lineage
  imports Request_Projection_Laws
begin

text \<open>
  What the configuration lineage of request headers guarantees: recording is what checking
  expects, a revision moves exactly when a component changed, and the order of object members
  inside tool schemas and options is no change. What an accepted log promises of its headers and of
  its native checkpoints: the configurations are the ones recording writes, a barrier stands exactly
  where no route of the model reads the checkpoint in force, and opaque state stays on its route.
\<close>

section \<open>Fingerprints\<close>

lemma route_json_configuration [simp]: "route_json (h\<lparr>rh_configuration := c\<rparr>) = route_json h"
  by (simp add: route_json_def)

lemma fingerprints_configuration [simp]:
  "fingerprints ext (h\<lparr>rh_configuration := c\<rparr>) = fingerprints ext h"
  by (simp add: fingerprints_def)

lemma json_hash_same:
  "\<lbrakk>json_same a b; no_repeated_keys a\<rbrakk> \<Longrightarrow> json_hash ext a = json_hash ext b"
  by (simp add: json_hash_def json_same_canonical)

text \<open>Headers that differ at most in the order of object members.\<close>

definition same_request :: "request_ext \<Rightarrow> request_header \<Rightarrow> request_header \<Rightarrow> bool" where
  "same_request ext a b \<longleftrightarrow>
     rh_prompt_sha256 a = rh_prompt_sha256 b \<and> route_json a = route_json b
     \<and> json_same (tools_json (rh_tools a)) (tools_json (rh_tools b))
     \<and> json_same (options_json ext (rh_options a)) (options_json ext (rh_options b))
     \<and> no_repeated_keys (tools_json (rh_tools a))
     \<and> no_repeated_keys (options_json ext (rh_options a))"

lemma fingerprints_same: "same_request ext a b \<Longrightarrow> fingerprints ext a = fingerprints ext b"
proof -
  assume same: "same_request ext a b"
  have "json_hash ext (tools_json (rh_tools a)) = json_hash ext (tools_json (rh_tools b))"
    "json_hash ext (options_json ext (rh_options a)) = json_hash ext (options_json ext (rh_options b))"
    using same by (auto simp: same_request_def intro: json_hash_same)
  with same show ?thesis by (simp add: same_request_def fingerprints_def)
qed

text \<open>The components the fingerprints tell apart.\<close>

definition components_of :: "request_configuration \<Rightarrow> string \<times> string \<times> string \<times> string" where
  "components_of c = (cf_system c, cf_tools c, cf_route c, cf_options c)"

lemma changed_components_Nil: "changed_components a b = [] \<longleftrightarrow> components_of a = components_of b"
  by (auto simp: changed_components_def components_of_def)

lemma fingerprints_components:
  "\<lbrakk>fingerprints ext h = Inr a; configuration_validate ext h c = Inr ()\<rbrakk> \<Longrightarrow>
   components_of c = components_of a"
  by (auto simp: configuration_validate_def components_of_def)

section \<open>Recording\<close>

lemma record_configuration_Inr:
  "record_configuration ext previous h = Inr h' \<longleftrightarrow>
     (\<exists>current c. fingerprints ext h = Inr current
        \<and> next_configuration (previous_configuration previous) current = Inr c
        \<and> h' = h\<lparr>rh_configuration := Some c\<rparr> \<and> request_header_validate ext h' = Inr ())"
  by (auto simp: record_configuration_def Let_def)

lemma next_configuration_Some:
  "next_configuration (Some before) current = Inr c \<longleftrightarrow>
     c = current\<lparr>cf_changed := changed_components before current,
           cf_revision := cf_revision before + (if components_of before = components_of current then 0 else 1)\<rparr>
     \<and> (components_of before = components_of current \<or> cf_revision before + 1 \<le> u64_max)"
  by (auto simp: next_configuration_def Let_def changed_components_Nil)

lemma record_then_check:
  assumes "record_configuration ext previous h = Inr h'"
  shows "validate_configuration_after ext previous h' = Inr ()"
    and "request_header_validate ext h' = Inr ()"
proof -
  obtain current c where r: "fingerprints ext h = Inr current"
    "next_configuration (previous_configuration previous) current = Inr c"
    "h' = h\<lparr>rh_configuration := Some c\<rparr>" "request_header_validate ext h' = Inr ()"
    using assms by (auto simp: record_configuration_Inr)
  show "request_header_validate ext h' = Inr ()" by (rule r(4))
  have "record_configuration ext previous h' = Inr h'"
    unfolding record_configuration_Inr using r by (intro exI [of _ current] exI [of _ c]) simp
  then show "validate_configuration_after ext previous h' = Inr ()"
    by (simp add: validate_configuration_after_def r(3))
qed

text \<open>A header that checks is the one recording makes of it, for the part recording sets.\<close>

lemma check_then_record:
  assumes "validate_configuration_after ext previous h = Inr ()" "rh_configuration h = Some c"
  shows "record_configuration ext previous h = Inr h"
proof -
  obtain h' where h': "record_configuration ext previous h = Inr h'" "rh_configuration h = rh_configuration h'"
    using assms by (auto simp: validate_configuration_after_def)
  then obtain c' where "h' = h\<lparr>rh_configuration := Some c'\<rparr>" by (auto simp: record_configuration_Inr)
  with h' show ?thesis by simp
qed

lemma recorded_components:
  assumes "record_configuration ext previous h = Inr h'" "previous_configuration previous = Some before"
  shows "\<exists>c. rh_configuration h' = Some c
    \<and> set (cf_changed c) =
        {k. k = ChangeSystem \<and> cf_system before \<noteq> cf_system c
          \<or> k = ChangeTools \<and> cf_tools before \<noteq> cf_tools c
          \<or> k = ChangeRoute \<and> cf_route before \<noteq> cf_route c
          \<or> k = ChangeOptions \<and> cf_options before \<noteq> cf_options c}
    \<and> cf_revision c = cf_revision before + (if cf_changed c = [] then 0 else 1)
    \<and> cf_revision c \<le> max (cf_revision before) u64_max"
proof -
  obtain current c where r: "fingerprints ext h = Inr current"
    "next_configuration (Some before) current = Inr c" "h' = h\<lparr>rh_configuration := Some c\<rparr>"
    using assms by (auto simp: record_configuration_Inr)
  have c: "c = current\<lparr>cf_changed := changed_components before current,
           cf_revision := cf_revision before + (if components_of before = components_of current then 0 else 1)\<rparr>"
    "components_of before = components_of current \<or> cf_revision before + 1 \<le> u64_max"
    using r(2) by (simp_all add: next_configuration_Some)
  show ?thesis
  proof (intro exI conjI)
    show "rh_configuration h' = Some c" by (simp add: r(3))
    show "set (cf_changed c) =
        {k. k = ChangeSystem \<and> cf_system before \<noteq> cf_system c
          \<or> k = ChangeTools \<and> cf_tools before \<noteq> cf_tools c
          \<or> k = ChangeRoute \<and> cf_route before \<noteq> cf_route c
          \<or> k = ChangeOptions \<and> cf_options before \<noteq> cf_options c}"
      unfolding c(1) by (auto simp: changed_components_def)
    show "cf_revision c = cf_revision before + (if cf_changed c = [] then 0 else 1)"
      unfolding c(1) by (simp add: changed_components_Nil)
    show "cf_revision c \<le> max (cf_revision before) u64_max"
      using c(2) unfolding c(1) by auto
  qed
qed

lemma same_request_same_revision:
  assumes "record_configuration ext previous h = Inr h'" "previous = Some p"
    and "rh_configuration p = Some before" "request_header_validate ext p = Inr ()" "same_request ext h p"
  shows "\<exists>c. rh_configuration h' = Some c \<and> cf_changed c = [] \<and> cf_revision c = cf_revision before"
proof -
  obtain current c where r: "fingerprints ext h = Inr current"
    "next_configuration (Some before) current = Inr c" "h' = h\<lparr>rh_configuration := Some c\<rparr>"
    using assms by (auto simp: record_configuration_Inr previous_configuration_def)
  have "configuration_validate ext p before = Inr ()"
    using assms(3,4) by (simp add: request_header_validate_def)
  moreover have "fingerprints ext p = Inr current" using fingerprints_same [OF assms(5)] r(1) by simp
  ultimately have "components_of before = components_of current" by (metis fingerprints_components)
  with r show ?thesis by (simp add: next_configuration_Some changed_components_Nil)
qed

section \<open>A log of headers\<close>

text \<open>The headers of a log, oldest first, each recorded against the one before.\<close>

fun recorded_chain :: "request_ext \<Rightarrow> request_header option \<Rightarrow> request_header list \<Rightarrow> bool" where
  "recorded_chain ext previous [] = True"
| "recorded_chain ext previous (h # hs) =
     (record_configuration ext previous h = Inr h \<and> recorded_chain ext (Some h) hs)"

fun revision_of :: "request_header \<Rightarrow> nat" where
  "revision_of h = (case rh_configuration h of None \<Rightarrow> 0 | Some c \<Rightarrow> cf_revision c)"

lemma recorded_revision_step:
  assumes "record_configuration ext (Some p) h = Inr h" "rh_configuration p \<noteq> None"
  shows "revision_of p \<le> revision_of h \<and> revision_of h \<le> revision_of p + 1 \<and> rh_configuration h \<noteq> None"
proof -
  obtain before where b: "rh_configuration p = Some before" using assms(2) by auto
  from recorded_components [OF assms(1), of before] b obtain c where
    "rh_configuration h = Some c" "cf_revision c = cf_revision before + (if cf_changed c = [] then 0 else 1)"
    by (auto simp: previous_configuration_def)
  with b show ?thesis by simp
qed

lemma recorded_chain_sorted:
  "\<lbrakk>recorded_chain ext (Some p) hs; rh_configuration p \<noteq> None\<rbrakk> \<Longrightarrow>
   sorted (map revision_of (p # hs)) \<and> revision_of (last (p # hs)) \<le> revision_of p + length hs"
proof (induction hs arbitrary: p)
  case (Cons h hs)
  then have h: "record_configuration ext (Some p) h = Inr h" "recorded_chain ext (Some h) hs" by simp_all
  note step = recorded_revision_step [OF h(1) Cons.prems(2)]
  from Cons.IH [OF h(2)] step
  have "sorted (map revision_of (h # hs))" "revision_of (last (h # hs)) \<le> revision_of h + length hs"
    by blast+
  with step show ?case by (auto simp del: revision_of.simps)
qed simp

section \<open>The chain of headers\<close>

text \<open>Every header checked against the one before it.\<close>

fun checked_chain :: "request_ext \<Rightarrow> request_header option \<Rightarrow> request_header list \<Rightarrow> bool" where
  "checked_chain ext previous [] = True"
| "checked_chain ext previous (h # hs) =
     (validate_configuration_after ext previous h = Inr () \<and> checked_chain ext (Some h) hs)"

lemma checked_chain_snoc:
  "checked_chain ext p (hs @ [h]) \<longleftrightarrow>
     checked_chain ext p hs
     \<and> validate_configuration_after ext (if hs = [] then p else Some (last hs)) h = Inr ()"
  by (induction hs arbitrary: p) auto

lemma checked_chain_nth:
  "\<lbrakk>checked_chain ext p hs; Suc i < length hs\<rbrakk> \<Longrightarrow>
   validate_configuration_after ext (Some (hs ! i)) (hs ! Suc i) = Inr ()"
proof (induction hs arbitrary: p i)
  case (Cons h hs)
  then show ?case by (cases i; cases hs) auto
qed simp

lemma checked_chain_first:
  "\<lbrakk>checked_chain ext p hs; i < length hs\<rbrakk> \<Longrightarrow>
   \<exists>q. validate_configuration_after ext q (hs ! i) = Inr ()"
proof (induction hs arbitrary: p i)
  case (Cons h hs)
  then show ?case by (cases i) auto
qed simp

definition headers_of :: "request_fold \<Rightarrow> request_header list" where
  "headers_of s = map (\<lambda>entry. hr_header (snd entry)) (rf_order s)"

lemma last_header_of: "last_header s = (if headers_of s = [] then None else Some (last (headers_of s)))"
  by (simp add: last_header_def headers_of_def last_map)

lemma step_headers:
  assumes "request_step ext s ie = Inr s'"
  shows "headers_of s' = headers_of s
    \<or> (\<exists>h. headers_of s' = headers_of s @ [h]
         \<and> validate_configuration_after (pe_request ext) (last_header s) h = Inr ())"
proof (cases "header_entry ie")
  case None
  with step_order [OF assms] show ?thesis by (simp add: headers_of_def)
next
  case (Some entry)
  then obtain turn step request h where k: "ev_kind (snd ie) = RequestHeader turn step request h"
    "entry = (request, \<lparr>hr_index = fst ie, hr_turn = turn, hr_step = step, hr_header = h\<rparr>)"
    by (auto simp: header_entry_def split: session_event_kind.splits)
  have "headers_of s' = headers_of s @ [h]"
    using step_order [OF assms] Some k(2) by (simp add: headers_of_def)
  moreover have "validate_configuration_after (pe_request ext) (last_header s) h = Inr ()"
    using assms k(1) by (cases ie) (auto simp: request_step_def fold_header_def)
  ultimately show ?thesis by blast
qed

lemma fold_checked_chain:
  assumes "try_fold (request_step ext) request_fold_start ies = Inr s"
  shows "checked_chain (pe_request ext) None (headers_of s)"
proof (rule try_fold_inv [OF assms])
  show "checked_chain (pe_request ext) None (headers_of request_fold_start)"
    by (simp add: headers_of_def request_fold_start_def)
next
  fix t ie t'
  assume chain: "checked_chain (pe_request ext) None (headers_of t)" and step: "request_step ext t ie = Inr t'"
  from step_headers [OF step] show "checked_chain (pe_request ext) None (headers_of t')"
    using chain by (auto simp: checked_chain_snoc last_header_of)
qed

lemma projected_headers:
  "list_all2 (\<lambda>entry r. finish_request ext events s entry = Inr r) entries rs \<Longrightarrow>
   map pr_header rs = map (\<lambda>entry. hr_header (snd entry)) entries"
  by (induction entries rs rule: list_all2_induct) (auto simp: finish_request_Inr)

lemma projected_chain:
  assumes "project_requests ext events = Inr rs"
  shows "checked_chain (pe_request ext) None (map pr_header rs)"
proof -
  obtain s where s: "try_fold (request_step ext) request_fold_start (indexed events) = Inr s"
    "list_all2 (\<lambda>entry r. finish_request ext events s entry = Inr r) (rf_order s) rs"
    by (rule project_requests_state [OF assms])
  have "map pr_header rs = map (\<lambda>entry. hr_header (snd entry)) (rf_order s)"
    using s(2) by (rule projected_headers)
  then have "map pr_header rs = headers_of s" by (simp add: headers_of_def)
  with fold_checked_chain [OF s(1)] show ?thesis by simp
qed

lemma projected_lineage:
  assumes "project_requests ext events = Inr rs" "Suc i < length rs"
    and "rh_configuration (pr_header (rs ! i)) = Some a" "rh_configuration (pr_header (rs ! Suc i)) = Some b"
  shows "set (cf_changed b) =
      {k. k = ChangeSystem \<and> cf_system a \<noteq> cf_system b
        \<or> k = ChangeTools \<and> cf_tools a \<noteq> cf_tools b
        \<or> k = ChangeRoute \<and> cf_route a \<noteq> cf_route b
        \<or> k = ChangeOptions \<and> cf_options a \<noteq> cf_options b}"
    and "cf_revision b = cf_revision a + (if cf_changed b = [] then 0 else 1)"
    and "same_request (pe_request ext) (pr_header (rs ! Suc i)) (pr_header (rs ! i)) \<Longrightarrow>
      cf_changed b = [] \<and> cf_revision b = cf_revision a"
proof -
  note chain = projected_chain [OF assms(1)]
  have i: "i < length rs" using assms(2) by simp
  have after: "validate_configuration_after (pe_request ext) (Some (pr_header (rs ! i)))
      (pr_header (rs ! Suc i)) = Inr ()"
    using checked_chain_nth [OF chain, of i] assms(2) by simp
  note recorded = check_then_record [OF after assms(4)]
  obtain q where "validate_configuration_after (pe_request ext) q (pr_header (rs ! i)) = Inr ()"
    using checked_chain_first [OF chain, of i] i by auto
  then have valid: "request_header_validate (pe_request ext) (pr_header (rs ! i)) = Inr ()"
    using check_then_record [OF _ assms(3)] record_then_check(2) by blast
  have before: "previous_configuration (Some (pr_header (rs ! i))) = Some a"
    by (simp add: previous_configuration_def assms(3))
  from recorded_components [OF recorded before] assms(4) obtain c where "c = b"
    "set (cf_changed c) =
      {k. k = ChangeSystem \<and> cf_system a \<noteq> cf_system c
        \<or> k = ChangeTools \<and> cf_tools a \<noteq> cf_tools c
        \<or> k = ChangeRoute \<and> cf_route a \<noteq> cf_route c
        \<or> k = ChangeOptions \<and> cf_options a \<noteq> cf_options c}"
    "cf_revision c = cf_revision a + (if cf_changed c = [] then 0 else 1)"
    by auto
  then show "set (cf_changed b) =
      {k. k = ChangeSystem \<and> cf_system a \<noteq> cf_system b
        \<or> k = ChangeTools \<and> cf_tools a \<noteq> cf_tools b
        \<or> k = ChangeRoute \<and> cf_route a \<noteq> cf_route b
        \<or> k = ChangeOptions \<and> cf_options a \<noteq> cf_options b}"
    and "cf_revision b = cf_revision a + (if cf_changed b = [] then 0 else 1)"
    by simp_all
  show "cf_changed b = [] \<and> cf_revision b = cf_revision a"
    if "same_request (pe_request ext) (pr_header (rs ! Suc i)) (pr_header (rs ! i))"
    using same_request_same_revision [OF recorded refl assms(3) valid that] assms(4) by auto
qed

section \<open>Where a barrier stands\<close>

lemma barrier_Some:
  assumes "opaque_compaction_barrier ext events provider model = Inr (Some b)"
  shows "\<exists>e strategy items usage item rest.
    e \<in> set events \<and> ev_kind e = NativeCompactionApplied strategy (br_replaced_upto b) items usage
    \<and> items = item # rest \<and> state_route item = (br_provider b, br_model b, br_protocol b)
    \<and> (br_provider b, br_model b) \<noteq> (provider, model)
    \<and> ev_seq e = br_settlement b \<and> barrier_winner events = Some (br_replaced_upto b, e)"
proof -
  obtain reach e where w: "barrier_winner events = Some (reach, e)"
    using assms by (auto simp: opaque_compaction_barrier_def split: option.splits)
  have e: "e \<in> set events" "replaced_reach (ev_kind e) = Some reach"
    using marker_winner_reaches [of replaced_reach events reach e] w by (simp_all add: winners)
  show ?thesis
  proof (cases "ev_kind e")
    case (NativeCompactionApplied strategy n items usage)
    with assms w e show ?thesis
      by (auto simp: opaque_compaction_barrier_def state_route_def split: list.splits if_splits)
  qed (use assms w e in \<open>auto simp: opaque_compaction_barrier_def\<close>)
qed

lemma seq_not_before:
  assumes "map ev_seq events = [0..<length events]" "e \<in> set (take n events)"
  shows "ev_seq e < n"
proof -
  obtain i where i: "i < n" "i < length events" "e = events ! i"
    using assms(2) by (auto simp: in_set_conv_nth)
  have "map ev_seq events ! i = i" using i(2) by (simp add: assms(1))
  with i show ?thesis by simp
qed

section \<open>Provider state stays on its route\<close>

definition states_on :: "wire_route \<Rightarrow> projected_input list \<Rightarrow> bool" where
  "states_on route inputs \<longleftrightarrow>
     list_all (\<lambda>i. case i of InputState p \<Rightarrow> state_route p = route | InputMessage m \<Rightarrow> True) inputs"

lemma states_on_simps [simp]:
  "states_on route []"
  "states_on route (xs @ ys) \<longleftrightarrow> states_on route xs \<and> states_on route ys"
  "states_on route (InputMessage m # xs) \<longleftrightarrow> states_on route xs"
  "states_on route (InputState p # xs) \<longleftrightarrow> state_route p = route \<and> states_on route xs"
  by (simp_all add: states_on_def)

lemma states_on_event:
  "states_on route (if_inputs s) \<Longrightarrow> states_on route (if_inputs (input_event rich route replaced s k))"
  by (cases k) (auto simp: input_event_def add_message_def)

lemma states_on_fold:
  "states_on route (if_inputs s) \<Longrightarrow>
   states_on route (if_inputs (foldl (input_step rich route replaced winner) s es))"
  by (induction es arbitrary: s) (auto simp: input_step_def states_on_event)

lemma checkpoint_items_on_route:
  assumes "checkpoint_ok strategy items" "route_reach route (NativeCompactionApplied strategy n items usage) = Some r"
  shows "states_on route (map InputState items)"
proof -
  from assms(2) obtain item rest where items: "items = item # rest" "state_route item = route"
    by (auto simp: route_reach_def split: list.splits if_splits)
  with assms(1) have "list_all (\<lambda>i. same_route i item) items"
    by (simp add: checkpoint_ok_def list_all_iff)
  with items(2) show ?thesis
    by (simp add: states_on_def list_all_iff same_route_def state_route_def)
qed

lemma checkpoint_states:
  assumes "validate_compaction_sequence ext events = Inr ()" "set es \<subseteq> set events"
  shows "states_on route (checkpoint_inputs (winning_compaction_for_route route es))"
proof (cases "winning_compaction_for_route route es")
  case None
  then show ?thesis by (simp add: checkpoint_inputs_def)
next
  case (Some w)
  obtain reach e where w: "w = (reach, e)" by (cases w)
  have e: "e \<in> set es" "route_reach route (ev_kind e) = Some reach"
    using marker_winner_reaches [of "route_reach route" es reach e] Some w by (simp_all add: winners)
  have ok: "compaction_event_ok ext e"
    using assms e(1) by (auto simp: validate_compaction_sequence_def try_all_Inr)
  show ?thesis
  proof (cases "ev_kind e")
    case (NativeCompactionApplied strategy n items usage)
    with ok have "checkpoint_ok strategy items"
      by (auto simp: compaction_event_ok_def is_ok_def split: sum.splits)
    with e(2) NativeCompactionApplied have "states_on route (map InputState items)"
      by (metis checkpoint_items_on_route)
    with Some w NativeCompactionApplied show ?thesis by (simp add: checkpoint_inputs_def)
  qed (use Some w in \<open>simp_all add: checkpoint_inputs_def\<close>)
qed

lemma projected_states:
  assumes "project_requests ext events = Inr rs"
  shows "list_all (\<lambda>r. states_on (header_route (pr_header r)) (pr_inputs r)) rs"
proof -
  obtain s where all: "list_all2 (\<lambda>entry r. finish_request ext events s entry = Inr r) (rf_order s) rs"
    by (rule project_requests_state [OF assms])
  have ok: "validate_compaction_sequence ext events = Inr ()"
    using assms by (auto simp: project_requests_def)
  have inputs: "states_on (header_route h) (project_inputs rich (header_route h) (take n events))" for rich h n
    by (auto simp: project_inputs_def Let_def
        intro!: states_on_fold checkpoint_states [OF ok] dest: in_set_takeD)
  from all show ?thesis
    by (induction rule: list_all2_induct) (auto simp: finish_request_Inr inputs)
qed

end
