(* ===== verification/Request_Properties.thy ===== *)
theory Request_Properties
  imports Request_Lineage Sample_Log
begin

text \<open>
  Properties of requests: what the projection of a log rebuilds, what stays of it when the log
  grows, the settlement of provider tool calls, route switches and the configuration lineage. The
  sample log has one request whose provider ran one tool.
\<close>

section \<open>A sample request\<close>

definition call_options :: request_options where
  "call_options =
     \<lparr>ro_modalities = [''text''], ro_effort = None, ro_defaulted_effort = False, ro_structured = None,
      ro_features = [], ro_routes = [], ro_provider_options = [], ro_temperature = None,
      ro_max_output = None, ro_defaulted_max_output = False, ro_purpose = ''turn'', ro_retry = None\<rparr>"

definition call_header :: request_header where
  "call_header =
     \<lparr>rh_configuration = None, rh_provider = ''p'', rh_model = ''m'', rh_protocol = OpenAiResponses,
      rh_target = TargetManaged ''s'' None, rh_authentication = AuthNone, rh_system = None,
      rh_prompt_sha256 = replicate 64 (CHR ''0''), rh_tools = [], rh_options = call_options\<rparr>"

definition call_context :: request_context where
  "call_context =
     \<lparr>rx_contributors = None, rx_budget = None, rx_effective_at = 1, rx_window = None,
      rx_max_output = None, rx_catalog_revision = None, rx_catalog_fetched = None\<rparr>"

definition call_search :: server_call where
  "call_search =
     \<lparr>sv_id = ''c1'', sv_logical = ''search'', sv_provider_name = ''web_search'', sv_input = JObject []\<rparr>"

definition call_found :: server_result where
  "call_found =
     \<lparr>sr_call_id = ''c1'', sr_outcome = ServerSuccess, sr_output_count = Some 1, sr_error_code = None,
      sr_sources = []\<rparr>"

definition call_event_at :: "nat \<Rightarrow> session_event_kind \<Rightarrow> session_event" where
  "call_event_at seq k = \<lparr>ev_v = 2, ev_seq = seq, ev_time = 5, ev_kind = k\<rparr>"

definition call_result_event :: session_event where
  "call_result_event = call_event_at 4 (ServerToolResult 0 1 ''r1'' 1 call_found)"

definition call_log :: "session_event list" where
  "call_log =
     [call_event_at 0 (UserMessage ''go''), call_event_at 1 (RequestHeader 0 1 ''r1'' call_header),
      call_event_at 2 (RequestContext ''r1'' call_context),
      call_event_at 3 (ServerToolCall 0 1 ''r1'' 0 call_search)]"

definition call_request :: "projected_server_event list \<Rightarrow> projected_request" where
  "call_request es =
     \<lparr>pr_turn = 0, pr_step = 1, pr_id = ''r1'', pr_header = call_header, pr_context = call_context,
      pr_inputs = [InputMessage (plain_message RoleUser ''go'')], pr_server_events = es,
      pr_metadata = None\<rparr>"

lemmas request_eval =
  validate_compaction_sequence_def compaction_event_ok_def validate_attachment_sequence_def
  attachment_step_def request_step_def fold_header_def fold_context_def fold_call_def fold_result_def
  server_event_header_def validate_server_output_order_def push_server_event_def server_events_of_def
  request_fold_start_def finish_request_def indexed_def last_header_def
  server_call_validate_def server_result_validate_def validate_call_id_def call_id_ok_def
  safe_logical_def safe_provider_name_def safe_name_def validate_input_def validate_json_node.simps
  project_inputs_def winning_compaction_for_route_def better_compaction_def route_reach_def
  replacement_steps_def replaced_step_def map_filter_def input_step_def input_event_def shadowed_def
  checkpoint_inputs_def add_message_def is_ascii_lowercase_def is_ascii_digit_def
  ex_bool_eq

lemma call_log_projected:
  "project_requests plain_payload call_log = Inr [call_request [ProjectedCall 3 0 call_search]]"
  by (simp add: project_requests_def validate_configuration_after_def call_log_def call_event_at_def call_header_def call_context_def
      call_search_def call_request_def request_eval map_eval plain_eval plain_trim plain_payload_def
      plain_message_def upt_conv_Cons Let_def)

lemma call_log_settled:
  "project_requests plain_payload (call_log @ [call_result_event]) =
     Inr [call_request [ProjectedCall 3 0 call_search, ProjectedResult 4 1 call_found]]"
  by (simp add: project_requests_def validate_configuration_after_def call_log_def call_result_event_def call_event_at_def call_header_def
      call_context_def call_search_def call_found_def call_request_def request_eval map_eval plain_eval
      plain_trim plain_payload_def plain_message_def upt_conv_Cons Let_def header_route_def)

text \<open>Two requests of one route, recorded with their configuration; the system prompt changes.\<close>

definition two_payload :: payload_ext where
  "two_payload =
     plain_payload\<lparr>pe_request :=
       \<lparr>rq_sha256 = \<lambda>bytes. replicate 32 (if bytes = ''be brief'' then CHR 0x01 else CHR 0x00),
        rq_bytes = \<lambda>_. Some [], rq_len = \<lambda>_. Some 1, rq_float = \<lambda>_. JNull\<rparr>\<rparr>"

definition zero_hash :: string where
  "zero_hash = concat (replicate 32 ''00'')"

definition brief_hash :: string where
  "brief_hash = concat (replicate 32 ''01'')"

definition two_configuration :: "nat \<Rightarrow> string \<Rightarrow> configuration_change list \<Rightarrow> request_configuration" where
  "two_configuration revision system changed =
     \<lparr>cf_revision = revision, cf_sha256 = zero_hash, cf_system = system, cf_tools = zero_hash,
      cf_route = zero_hash, cf_options = zero_hash, cf_changed = changed\<rparr>"

definition first_header :: request_header where
  "first_header =
     call_header\<lparr>rh_prompt_sha256 := zero_hash,
       rh_configuration := Some (two_configuration 1 zero_hash [ChangeInitial])\<rparr>"

definition second_header :: request_header where
  "second_header =
     call_header\<lparr>rh_system := Some ''be brief'', rh_prompt_sha256 := brief_hash,
       rh_configuration := Some (two_configuration 2 brief_hash [ChangeSystem])\<rparr>"

definition two_item :: provider_state where
  "two_item =
     \<lparr>ps_provider = ''p'', ps_model = ''m'', ps_protocol = OpenAiResponses, ps_kind = ResponseOutputItem,
      ps_schema = 1, ps_data = JObject [(''type'', JString ''message'')]\<rparr>"

definition two_log :: "session_event list" where
  "two_log =
     [call_event_at 0 (UserMessage ''go''), call_event_at 1 (RequestHeader 0 1 ''r1'' first_header),
      call_event_at 2 (RequestContext ''r1'' call_context),
      call_event_at 3 (AssistantProviderItem 0 1 ''r1'' 0 two_item),
      call_event_at 4 (AssistantMessage 0 1 ''ok'' None None None),
      call_event_at 5 (RequestHeader 0 2 ''r2'' second_header),
      call_event_at 6 (RequestContext ''r2'' call_context)]"

definition two_requests :: "projected_request list" where
  "two_requests =
     [\<lparr>pr_turn = 0, pr_step = 1, pr_id = ''r1'', pr_header = first_header, pr_context = call_context,
       pr_inputs = [InputMessage (plain_message RoleUser ''go'')], pr_server_events = [],
       pr_metadata = None\<rparr>,
      \<lparr>pr_turn = 0, pr_step = 2, pr_id = ''r2'', pr_header = second_header, pr_context = call_context,
       pr_inputs = [InputMessage (plain_message RoleUser ''go''), InputState two_item],
       pr_server_events = [], pr_metadata = None\<rparr>]"

lemma hex_of_replicate: "hex_of (replicate n b) = concat (replicate n (hex_byte b))"
  by (simp add: hex_of_def)

lemma hex_samples: "hex_byte (CHR 0x00) = ''00''" "hex_byte (CHR 0x01) = ''01''"
  by code_simp+

lemma hashes_differ: "zero_hash \<noteq> brief_hash"
proof -
  have "zero_hash = ''00'' @ concat (replicate 31 ''00'')" "brief_hash = ''01'' @ concat (replicate 31 ''01'')"
    by (simp_all add: zero_hash_def brief_hash_def numeral_nat)
  then have "zero_hash ! 1 = CHR ''0''" "brief_hash ! 1 = CHR ''1''" by (metis nth_Cons_Suc One_nat_def append_Cons nth_Cons_0)+
  then show ?thesis by auto
qed

lemma sample_hashes:
  "prompt_sha256 (pe_request two_payload) [] = zero_hash"
  "prompt_sha256 (pe_request two_payload) ''be brief'' = brief_hash"
  "length zero_hash = 64" "length brief_hash = 64"
  by (simp_all add: prompt_sha256_def two_payload_def hex_of_replicate hex_samples zero_hash_def
      brief_hash_def length_concat sum_list_replicate)

lemma sample_hashes_hex:
  "list_all (\<lambda>b. is_ascii_hexdigit b \<and> \<not> is_ascii_uppercase b) zero_hash"
  "list_all (\<lambda>b. is_ascii_hexdigit b \<and> \<not> is_ascii_uppercase b) brief_hash"
proof -
  have "is_ascii_hexdigit b \<and> \<not> is_ascii_uppercase b" if "b \<in> {CHR ''0'', CHR ''1''}" for b
    using that by (auto simp: is_ascii_hexdigit_def is_ascii_uppercase_def is_ascii_digit_def plain_eval)
  then show "list_all (\<lambda>b. is_ascii_hexdigit b \<and> \<not> is_ascii_uppercase b) zero_hash"
    "list_all (\<lambda>b. is_ascii_hexdigit b \<and> \<not> is_ascii_uppercase b) brief_hash"
    by (auto simp: list_all_iff zero_hash_def brief_hash_def)
qed

lemma two_hash: "json_hash (pe_request two_payload) j = Inr zero_hash"
  by (simp add: json_hash_def two_payload_def hex_of_replicate hex_samples zero_hash_def)

lemma two_fingerprints:
  "fingerprints (pe_request two_payload) h =
     Inr (two_configuration 1 (rh_prompt_sha256 h) [ChangeInitial])"
  by (simp add: fingerprints_def two_hash two_configuration_def)

lemma two_valid:
  "request_header_validate (pe_request two_payload) first_header = Inr ()"
  "request_header_validate (pe_request two_payload) second_header = Inr ()"
  by (simp_all add: request_header_validate_def first_header_def second_header_def call_header_def
      non_blank_def request_options_validate_def unique_non_blank_def configuration_validate_def
      two_fingerprints two_configuration_def call_options_def sample_hashes sample_hashes_hex
      system_text_def plain_trim plain_eval)

lemma two_configured:
  "validate_configuration_after (pe_request two_payload) None first_header = Inr ()"
  "validate_configuration_after (pe_request two_payload) (Some first_header) second_header = Inr ()"
proof -
  have "record_configuration (pe_request two_payload) None first_header = Inr first_header"
    unfolding record_configuration_Inr two_fingerprints
    by (simp add: previous_configuration_def next_configuration_def two_valid)
      (simp add: first_header_def)
  then show "validate_configuration_after (pe_request two_payload) None first_header = Inr ()"
    by (simp add: validate_configuration_after_def)
  have "next_configuration (previous_configuration (Some first_header))
      (two_configuration 1 brief_hash [ChangeInitial]) = Inr (two_configuration 2 brief_hash [ChangeSystem])"
    by (simp add: previous_configuration_def next_configuration_def changed_components_def
        first_header_def two_configuration_def hashes_differ checked_add_u64_def u64_max_def)
  moreover have "rh_prompt_sha256 second_header = brief_hash"
    "second_header\<lparr>rh_configuration := Some (two_configuration 2 brief_hash [ChangeSystem])\<rparr> = second_header"
    by (simp_all add: second_header_def)
  ultimately have "record_configuration (pe_request two_payload) (Some first_header) second_header = Inr second_header"
    unfolding record_configuration_Inr two_fingerprints by (simp add: two_valid)
  then show "validate_configuration_after (pe_request two_payload) (Some first_header) second_header = Inr ()"
    by (simp add: validate_configuration_after_def)
qed

lemma two_projected: "project_requests two_payload two_log = Inr two_requests"
proof -
  have routes: "header_route first_header = state_route two_item" "header_route second_header = state_route two_item"
    by (simp_all add: header_route_def state_route_def first_header_def second_header_def call_header_def
        two_item_def)
  have item: "state_replaces_assistant two_item"
    by (simp add: state_replaces_assistant_def two_item_def member_text_ok_def json_member_def)
  show ?thesis
    by (simp add: project_requests_def two_log_def call_event_at_def two_requests_def request_eval
        fold_item_def next_index_def two_configured routes item map_eval plain_eval plain_message_def
        upt_conv_Cons Let_def)
qed

definition barrier_log :: "session_event list" where
  "barrier_log =
     [call_event_at 0 (UserMessage ''go''), call_event_at 1 (NativeCompactionApplied ''opaque'' 0 [two_item] None)]"

definition found_barrier :: compaction_barrier where
  "found_barrier =
     \<lparr>br_provider = ''p'', br_model = ''m'', br_protocol = OpenAiResponses, br_replaced_upto = 0,
      br_settlement = 1\<rparr>"

lemma two_item_ok: "provider_state_validate two_item = Inr ()"
  by (simp add: provider_state_validate_def two_item_def member_text_ok_def json_member_def plain_eval
      plain_trim)

lemma barrier_found:
  "opaque_compaction_barrier plain_payload barrier_log ''q'' ''m'' = Inr (Some found_barrier)"
proof -
  have "checkpoint_ok ''opaque'' [two_item]"
    by (simp add: checkpoint_ok_def valid_strategy_def two_item_ok same_route_def plain_eval
        is_ascii_lowercase_def is_ascii_digit_def)
      (simp add: two_item_def)
  then show ?thesis
    by (simp add: opaque_compaction_barrier_def barrier_winner_def project_requests_def barrier_log_def
      call_event_at_def found_barrier_def request_eval is_ok_iff
      map_eval plain_eval plain_trim upt_conv_Cons Let_def)
    (simp add: two_item_def)
qed

section \<open>What a log rebuilds\<close>

text \<open>
  C11: the requests rebuilt from a log are the recorded ones. There is one for each header, in log
  order, with the turn, the step and the header recorded under its id, and no id twice; its context
  and its metadata are the ones recorded under the id, and its server events are those of the id in
  log order. The log holds at most one context and one metadata record an id, each call id is called
  once and settled once, and the provider items of a request are numbered without a gap from zero,
  up to the largest 32-bit number.
\<close>

theorem requests_rebuilt_from_log:
  assumes "project_requests ext events = Inr rs"
  shows "map identity_of rs = hist header_event events \<and> distinct (map pr_id rs)
    \<and> list_all (\<lambda>r. map_of (hist context_event events) (pr_id r) = Some (pr_context r)
         \<and> pr_metadata r = map_of (hist metadata_event events) (pr_id r)
         \<and> pr_server_events r = of_request (pr_id r) (hist server_event events)) rs
    \<and> distinct (map fst (hist context_event events)) \<and> distinct (map fst (hist metadata_event events))
    \<and> distinct (map fst (hist call_event events)) \<and> distinct (map fst (hist result_event events))
    \<and> of_request q (hist item_event events) =
        map (\<lambda>i. min i u32_max) [0..<length (of_request q (hist item_event events))]"
  using projected_requests_correct [OF assms] projected_correlations [OF assms]
  by (simp add: list_all_iff)

theorem requests_rebuilt_from_log_witness:
  "map identity_of two_requests = hist header_event two_log
   \<and> of_request ''r1'' (hist item_event two_log) = [0]"
proof -
  have "length (of_request ''r1'' (hist item_event two_log)) = 1"
    by (simp add: two_log_def call_event_at_def hist_def map_filter_def item_event_def item_entry_def
        of_request_def)
  then show ?thesis
    using requests_rebuilt_from_log [OF two_projected, of "''r1''"] by simp
qed

text \<open>
  C4: what was sent is history. When a log grows and still projects, the requests it had before
  come first and unchanged: the same ids, turns, steps, headers and contexts, and exactly the same
  inputs, whatever messages, compactions or provider items were appended since. Only the outcome of
  a request can still be added to.
\<close>

theorem requests_replay_stable:
  assumes "project_requests ext events = Inr rs" "project_requests ext (events @ appended) = Inr rs'"
  shows "\<exists>tail. map sent_request rs' = map sent_request rs @ tail"
  by (rule sent_requests_stable [OF assms])

theorem requests_replay_stable_witness:
  "\<exists>tail. map sent_request [call_request [ProjectedCall 3 0 call_search, ProjectedResult 4 1 call_found]] =
     map sent_request [call_request [ProjectedCall 3 0 call_search]] @ tail"
  by (rule requests_replay_stable [OF call_log_projected call_log_settled])

text \<open>
  C8: opaque provider state never leaves its exact route. In every request a log rebuilds, each
  state item among the inputs, recorded or taken from a native checkpoint, has the provider, the
  model and the protocol of the request's header.
\<close>

theorem provider_state_stays_on_route:
  assumes "project_requests ext events = Inr rs"
  shows "list_all (\<lambda>r. states_on (header_route (pr_header r)) (pr_inputs r)) rs"
  by (rule projected_states [OF assms])

theorem provider_state_stays_on_route_witness:
  "states_on (header_route second_header) [InputMessage (plain_message RoleUser ''go''), InputState two_item]"
  using provider_state_stays_on_route [OF two_projected] by (simp add: two_requests_def)

text \<open>
  C25: a route that owns nothing in the log is sent the plain conversation. When no provider item
  and no native checkpoint of a log carries the route, the inputs projected for it are exactly the
  messages derived for a model without provider state.
\<close>

theorem neutral_inputs_are_messages:
  assumes "list_all (foreign_event route) events"
  shows "project_inputs rich route events = map InputMessage (derive_messages rich events)"
  by (rule foreign_inputs [OF assms])

theorem neutral_inputs_are_messages_witness:
  "project_inputs (\<lambda>_. []) (''q'', ''m'', OpenAiResponses) two_log =
     map InputMessage (derive_messages (\<lambda>_. []) two_log)"
  by (rule neutral_inputs_are_messages)
    (simp add: two_log_def call_event_at_def foreign_event_def two_item_def state_route_def)

section \<open>Provider tools\<close>

text \<open>
  C14: the result of a provider tool answers a call of the same route. Where a log records a result,
  an earlier event called that id from a request whose header is already recorded, under the route
  of the request that reports the result; no other event of the log settles the call.
\<close>

theorem server_results_settle_once:
  assumes "project_requests ext events = Inr rs" "events = before @ e # after"
    and "result_event e = Some (call, request)"
  shows "(\<exists>q. (call, q) \<in> set (hist call_event before)
        \<and> route_before before q \<noteq> None \<and> route_before before q = route_before before request)
    \<and> call \<notin> fst ` set (hist result_event before) \<and> call \<notin> fst ` set (hist result_event after)"
proof -
  have "hist result_event events = hist result_event (before @ [e]) @ hist result_event after"
    using hist_append [of result_event "before @ [e]" after] assms(2) by simp
  then have "distinct (map fst (hist result_event before) @ [call] @ map fst (hist result_event after))"
    using projected_correlations(4) [OF assms(1)] assms(3) by simp
  with result_has_call [OF assms] show ?thesis by auto
qed

theorem server_results_settle_once_witness:
  "(\<exists>q. (''c1'', q) \<in> set (hist call_event call_log)
      \<and> route_before call_log q \<noteq> None \<and> route_before call_log q = route_before call_log ''r1'')
   \<and> ''c1'' \<notin> fst ` set (hist result_event call_log)"
proof -
  have result: "result_event call_result_event = Some (''c1'', ''r1'')"
    by (simp add: call_result_event_def call_event_at_def result_event_def result_entry_def call_found_def)
  show ?thesis
    using server_results_settle_once [OF call_log_settled refl result] by blast
qed

section \<open>Route switches\<close>

text \<open>
  C21: a barrier stands exactly where no protocol of the provider and model asked for projects the
  compaction that reaches furthest (the check does not ask which protocol will be used, so it can
  find none in front of a checkpoint of the same provider and model whose protocol differs). Where
  it succeeds without a barrier, some protocol of that model projects that compaction. With one,
  that compaction is a native checkpoint, the barrier carries provider, model and protocol of its
  first item, its reach and its position, its provider or model differs from the one asked for, and
  no protocol of the model projects it. In a log numbered from zero, the prefix that a fork at the
  barrier's event count keeps does not hold it.
\<close>

theorem barrier_guards_checkpoint:
  assumes "opaque_compaction_barrier ext events provider model = Inr barrier"
  shows "case barrier of
      None \<Rightarrow> \<exists>protocol. winning_compaction_for_route (provider, model, protocol) events = barrier_winner events
    | Some b \<Rightarrow>
        (br_provider b, br_model b) \<noteq> (provider, model)
        \<and> (\<forall>protocol. winning_compaction_for_route (provider, model, protocol) events \<noteq> barrier_winner events)
        \<and> (\<exists>e strategy item rest usage. barrier_winner events = Some (br_replaced_upto b, e) \<and> e \<in> set events
            \<and> ev_kind e = NativeCompactionApplied strategy (br_replaced_upto b) (item # rest) usage
            \<and> br_provider b = ps_provider item \<and> br_model b = ps_model item \<and> br_protocol b = ps_protocol item
            \<and> ev_seq e = br_settlement b
            \<and> (map ev_seq events = [0..<length events] \<longrightarrow> e \<notin> set (take (fork_event_count b) events)))"
proof (cases barrier)
  case None
  with barrier_none_iff [OF assms] show ?thesis by simp
next
  case (Some b)
  obtain e strategy items usage item rest where e: "e \<in> set events"
    "ev_kind e = NativeCompactionApplied strategy (br_replaced_upto b) items usage" "items = item # rest"
    "state_route item = (br_provider b, br_model b, br_protocol b)"
    "(br_provider b, br_model b) \<noteq> (provider, model)" "ev_seq e = br_settlement b"
    "barrier_winner events = Some (br_replaced_upto b, e)"
    using barrier_Some assms Some by blast
  have "e \<notin> set (take (fork_event_count b) events)" if "map ev_seq events = [0..<length events]"
    using seq_not_before [OF that, of e "br_settlement b"] e(6) by (auto simp: fork_event_count_def)
  moreover have "\<nexists>protocol. winning_compaction_for_route (provider, model, protocol) events = barrier_winner events"
    using barrier_none_iff [OF assms] Some by simp
  ultimately show ?thesis using e Some by (simp add: state_route_def)
qed

theorem barrier_guards_checkpoint_witness:
  "winning_compaction_for_route (''q'', ''m'', OpenAiResponses) barrier_log \<noteq> barrier_winner barrier_log
   \<and> (\<exists>e. barrier_winner barrier_log = Some (br_replaced_upto found_barrier, e)
        \<and> e \<notin> set (take (fork_event_count found_barrier) barrier_log))"
proof -
  have "map ev_seq barrier_log = [0..<length barrier_log]"
    by (simp add: barrier_log_def call_event_at_def upt_conv_Cons)
  with barrier_guards_checkpoint [OF barrier_found] show ?thesis by auto
qed

section \<open>Configurations\<close>

text \<open>
  C24: the configuration of a request tells what changed since the one before. In a log that
  projects, of two consecutive requests that carry a configuration the later one lists exactly the
  components whose fingerprints differ, and its revision is the earlier one, or one more when
  something changed; requests that differ at most in the order of object members inside tool
  schemas and options keep the revision.
\<close>

theorem configuration_lineage:
  assumes "project_requests ext events = Inr rs" "Suc i < length rs"
    and "rh_configuration (pr_header (rs ! i)) = Some a" "rh_configuration (pr_header (rs ! Suc i)) = Some b"
  shows "set (cf_changed b) =
      {k. k = ChangeSystem \<and> cf_system a \<noteq> cf_system b
        \<or> k = ChangeTools \<and> cf_tools a \<noteq> cf_tools b
        \<or> k = ChangeRoute \<and> cf_route a \<noteq> cf_route b
        \<or> k = ChangeOptions \<and> cf_options a \<noteq> cf_options b}
    \<and> cf_revision b = cf_revision a + (if cf_changed b = [] then 0 else 1)
    \<and> (same_request (pe_request ext) (pr_header (rs ! Suc i)) (pr_header (rs ! i)) \<longrightarrow>
         cf_changed b = [] \<and> cf_revision b = cf_revision a)"
  using projected_lineage [OF assms] by blast

theorem configuration_lineage_witness:
  "cf_revision (two_configuration 2 brief_hash [ChangeSystem]) =
     cf_revision (two_configuration 1 zero_hash [ChangeInitial]) + 1"
proof -
  have "Suc 0 < length two_requests"
    "rh_configuration (pr_header (two_requests ! 0)) = Some (two_configuration 1 zero_hash [ChangeInitial])"
    "rh_configuration (pr_header (two_requests ! Suc 0)) = Some (two_configuration 2 brief_hash [ChangeSystem])"
    by (simp_all add: two_requests_def first_header_def second_header_def)
  from configuration_lineage [OF two_projected this]
  show ?thesis by (simp add: two_configuration_def)
qed

text \<open>
  C40: the canonical form decides equality up to the order of members. For a value whose objects
  repeat no key, another value has the same canonical form exactly when the two differ only in the
  order of the members of objects, at any depth.
\<close>

theorem canonical_form_exact:
  assumes "no_repeated_keys a"
  shows "canonicalize_json a = canonicalize_json b \<longleftrightarrow> json_same a b"
  using json_same_canonical canonical_json_same assms by blast

theorem canonical_form_exact_witness:
  "json_same (JObject [(''b'', JNull), (''a'', JArray [JInt 1])])
     (JObject [(''a'', JArray [JInt 1]), (''b'', JNull)])"
  by (rule iffD1 [OF canonical_form_exact])
    (simp_all add: sort_key_def map_eval)

end
