(* ===== verification/Spec2Isabelle.thy ===== *)
theory Spec2Isabelle
  imports Kernel_Properties Session_Properties Board_Properties Conversation_Properties
    Log_Properties Damage_Properties Recovery_Properties Workflow_Properties Schedule_Properties Review_Properties
    Request_Properties
begin

text \<open>
  heycode is a coding agent built from plugins around an append-only session log. This
  development models the two parts everything else rests on: the plugin kernel
  (\<open>src/crates/heycode-core/src\<close>) and the event-sourced state of a session
  (\<open>src/crates/heycode-session/src\<close>).

  \<^bold>\<open>The kernel.\<close> A composition activates a list of plugins against one context: each finds the
  services published before it, publishes services, exact inventory rows, listeners and effects,
  and is rolled back when it fails. Theories, with the file each models:
  \<open>Plugin_Descriptor\<close> (\<open>descriptor.rs\<close>, \<open>service.rs\<close>),
  \<open>Plugin_Inventory\<close> (\<open>inventory.rs\<close>, \<open>error.rs\<close>), \<open>Event_Bus\<close>
  (\<open>events.rs\<close>: listener cells and waterfall chains), \<open>Plugin_Context\<close>
  (\<open>context.rs\<close>: services, effects, the open activation transaction),
  \<open>Plugin_Activation\<close> (\<open>activation.rs\<close>, \<open>plugin.rs\<close>: one activation and the
  composition loops), \<open>Plugin_Generation\<close> (\<open>generation.rs\<close>: reload registry as a
  step relation, one step per critical section: a reload is the swap of the live world and,
  later, the retirement of the one it replaced, which is in \<open>gr_pending\<close> between the two), \<open>Plugin_Inspection\<close> (\<open>inspection.rs\<close>: the dry graph, which does not look at the families of declared
  services; \<open>services_listed\<close> is what a composition asks of them in addition). The laws are in
  \<open>Activation_Laws\<close>, \<open>Composition\<close> and \<open>Inspection_Laws\<close>, the properties in
  \<open>Kernel_Properties\<close>. A plugin's \<open>apply\<close> is code of the plugin; it is a value of
  \<open>apply_prog\<close>, a finite tree of the context calls such a function can make, each followed
  by a continuation on its reply, and the properties hold for every such tree.

  \<^bold>\<open>The session.\<close> All state is a fold over the log. \<open>Session_Event\<close> has the event vocabulary
  (\<open>event.rs\<close>). Each projection is a function that consumes one event and may refuse it:
  \<open>Inbox_Message\<close> and \<open>Inbox_Projection\<close> (\<open>inbox.rs\<close>), \<open>Goal_State\<close>
  and \<open>Goal_Projection\<close> (\<open>orchestration.rs\<close>, goals), \<open>Team_State\<close>,
  \<open>Team_Board\<close>, \<open>Team_Laws\<close> and \<open>Team_Projection\<close> (\<open>team.rs\<close>),
  \<open>Work_Item\<close>, \<open>Work_State\<close> and \<open>Work_Projection\<close> (\<open>work.rs\<close>),
  \<open>Message_Projection\<close> (\<open>projection.rs\<close>), \<open>Code_Mode\<close> and \<open>Code_Projection\<close>
  (\<open>code_mode.rs\<close>: durable scripts). The properties are in \<open>Session_Properties\<close>
  (inbox, goals), \<open>Board_Properties\<close> (teams, work), \<open>Conversation_Properties\<close> (messages
  for the model) and \<open>Recovery_Properties\<close> (scripts, repair).

  \<^bold>\<open>Durable orchestration.\<close> \<open>Workflow_Definition\<close> has definitions and their validation down to
  the readiness loop, \<open>Workflow_Change\<close> the changes of a run with the observations they carry
  (\<open>workflow_observation.rs\<close>), \<open>Workflow_Projection\<close> the replay of runs. \<open>Workflow_Graph\<close>
  shows that the readiness loop decides acyclicity, \<open>Workflow_Laws\<close> the invariant of a run, what
  later events keep, and the numbering of attempts. \<open>Cron\<close> has the five-field expressions and the
  search for the next target, \<open>Schedule_State\<close> the records and changes of schedules,
  \<open>Schedule_Projection\<close> their replay, \<open>Schedule_Laws\<close> the next occurrence, the invariant and the
  account of a log: which messages it enqueues, dispatches and creates, and what the replay knows of
  them (all of it \<open>orchestration.rs\<close>). \<open>Review_State\<close> and \<open>Review_Projection\<close> are \<open>review.rs\<close>.
  The properties are in \<open>Workflow_Properties\<close>, \<open>Schedule_Properties\<close> and \<open>Review_Properties\<close>.

  \<^bold>\<open>Requests.\<close> The values a log keeps of its requests are typed: \<open>Provider_Vocab\<close>
  (\<open>heycode-core/src/vocab.rs\<close>: tool schemas and their canonical form, request options, native
  routes, opaque provider state), \<open>Server_Tool\<close> (\<open>server_tool.rs\<close>: tools a provider runs, their
  results, usage and citations), \<open>Provider_Response\<close> (\<open>provider_response.rs\<close>: cache counters and
  context edits), \<open>Rich_Tool_Result\<close> (\<open>rich_tool_result.rs\<close>, with the text rendered for a model) and
  \<open>Request_Snapshot\<close> (\<open>heycode-session/src/request.rs\<close>, \<open>request_configuration.rs\<close> and
  \<open>heycode-core/src/context_budget.rs\<close>). \<open>Request_Projection\<close> rebuilds the requests of a log and the
  inputs of a route, and has the barrier of \<open>compaction_switch.rs\<close>. \<open>Request_Projection_Laws\<close> shows that the state of the
  projection is a function of the history and its inputs of the prefix, \<open>Request_Lineage\<close> that
  recording a configuration is what checking expects, along the chain of headers of a log, and where
  a barrier stands and opaque state goes. The properties are in \<open>Request_Properties\<close>.

  \<^bold>\<open>The log.\<close> \<open>Session_Log\<close> has the errors, the directories of a sessions root, the handle
  and the rules that reader and writer share; \<open>Session_Creation\<close> (\<open>creation.rs\<close>) the
  record of where a stream comes from; \<open>Attachment\<close> and \<open>Event_Validation\<close> what an event
  must satisfy (\<open>attachment.rs\<close>, \<open>hook.rs\<close>, \<open>event.rs\<close>). \<open>Session_Reader\<close> is
  \<open>Session::open\<close>: a line, the fold over the lines, the prefix a fork inherits and the recursion
  through its ancestors. \<open>Session_Writer\<close> is the other half of \<open>session.rs\<close>: the writer
  lease, creation, one event or a batch, the operations on pending input, forks. A write takes its
  outcome as an argument, so an interrupted write is a value. \<open>Session_Repair\<close> is
  \<open>repair.rs\<close>, refined to a plain list of open records. \<open>Reader_Laws\<close>,
  \<open>Writer_Laws\<close>, \<open>Append_Laws\<close> and \<open>Log_Durability\<close> show that what is appended
  reopens to the handle that appended it and that no other session reads differently;
  \<open>Lineage_Laws\<close> and \<open>Fork_Laws\<close> the same for creation and forks;
  \<open>Session_Operations\<close> what claims and recalls do to the inbox. \<open>Log_History\<close> composes
  them into a step relation on the store and all live handles of a process, \<open>log_system\<close>, with
  the kinds of events that are appended and the forked children that are kept as parameters: who may
  write is settled for all of them, what reopens for events that serde\_json prints exactly
  and children whose parent opens with a level to spare. Handles of \<open>Session::open\<close> have no lease and
  are not in it. \<open>Fork_Limit\<close> and
  \<open>Log_Damage\<close> show where the promise ends: chains of forks that stop opening, lines the reader
  refuses, the tail of a failed write. \<open>Sample_Log\<close> has the small root on which the properties
  are evaluated; they are in \<open>Log_Properties\<close> and \<open>Damage_Properties\<close>.

  \<^bold>\<open>Interfaces.\<close> \<open>Replay\<close> states what the projections share: the locale \<open>replay\<close> (a
  fold with an invariant that its initial state has and every accepted event keeps) is
  interpreted for the inbox, the goals, the teams, the work board, scripts, workflow runs, schedules
  and reviews; the locale \<open>dependency_board\<close> (entries with dependency lists that form a finite
  closed acyclic graph) gives the absence of deadlock and is interpreted for team tasks, work items,
  the steps of a workflow definition and the nodes of a run. The
  kernel has the locale of its listener registry in \<open>Event_Bus\<close>, and \<open>Ordered_Map\<close> the
  one of its maps. The locale \<open>slot_keys\<close> of \<open>Session_Repair\<close> is the contract between the
  index queues of the code and the list they stand for, one interpretation per kind of record.

  \<^bold>\<open>Shared vocabulary.\<close> \<open>Prelude\<close> has results as sums (\<open>Inl\<close> is the error), the loops
  that stop at the first error, and the saturating and checked counters; \<open>Rust_Text\<close> has
  strings as UTF-8 byte lists with the character predicates the guards use; \<open>Text_Parsing\<close> has
  splitting, numbers and the arithmetic of \<open>i64\<close>;
  \<open>Ordered_Map\<close> has \<open>BTreeMap\<close> as a sorted association list.

  \<^bold>\<open>Termination.\<close> The recursive cycle check of teams terminates because the set
  of tasks being visited grows, the worklist of the work board because the visited set grows or
  the worklist shrinks. The readiness loop of a workflow terminates because every pass that does not
  stop adds a step, the loop over a cron range because the value grows up to its bound, and the
  search for a target because an occurrence lies after its reference and a jitter is at most 90
  seconds early; the search for an occurrence is bounded by the code, at 8 * 366 days. Reopening a fork recurses on its parent; the code refuses when the set of
  sessions being opened holds more than 64, and \<open>open_inner\<close> counts the levels that are left,
  65 at the start. The count is the code's own bound and not fuel: \<open>open_inner 0\<close> is the error
  the code returns there.

  \<^bold>\<open>Parameters.\<close> Code that is not in the repository is an argument: the JSON serializer, SHA-256
  and the JSON parser of work items (\<open>work_ext\<close>), the serializer of answer labels
  (\<open>label_json\<close>), the parser of URLs. Nothing is assumed of them. \<open>workflow_ext\<close> has the
  length of a rendered JSON value and whether a number is infinite,
  \<open>cron_ext\<close> the calls of chrono as a \<open>calendar\<close>, and SHA-256. Two named hypotheses describe a
  calendar: \<open>zone_consistent\<close> (the instant chrono gives for a wall-clock time is a whole minute and
  reads back as that time) and \<open>zone_regular\<close> (no transition is in the way); zones at a fixed
  offset satisfy both. \<open>rich_ext\<close> has the rendering of JSON, URL parsing and
  the comparison of a number with the unit interval, \<open>request_ext\<close> SHA-256, the bytes of a JSON value
  and the number an \<open>f32\<close>, kept as its bit pattern, renders to; \<open>payload_ext\<close> gathers them, and
  \<open>log_ext\<close> has the rendering of an event, the reading of a line and SHA-256. The properties of the log have named
  hypotheses on them: \<open>prints_lines\<close> (an event is printed on one line of UTF-8),
  \<open>faithful_for\<close> some kinds (an accepted event of such a kind is read back from the line it
  was rendered to), \<open>faithful_codec\<close> (the same for exact events, \<open>kind_exact\<close>: integers of 64
  bits and no fractions, no null in an optional field, and JSON values of at most
  \<open>payload_depth\<close> = 100 levels, since serde\_json refuses to read a line nested deeper than
  128 and no record adds 27), \<open>creation_fits\<close> (a valid creation
  record renders to less than a whole log), \<open>forks_encode\<close> (a fork record has a rendering and a
  digest has 32 bytes) and \<open>null_reads_as_absent\<close> (serde reads a null in an optional field as
  absent). The witnesses instantiate them with a table of lines.

  \<^bold>\<open>Integers.\<close> Revisions, rounds and sequence numbers are \<open>nat\<close>; where the code saturates
  or checks an addition the bound is written out, and the properties that need it say so.

  \<^bold>\<open>Not modelled.\<close> Of the session: usage counters, checkpoints, background
  jobs, queries over the index, the raw suffix of a live reader and the lock on a lineage. The
  executors that run workflows and timers are in other crates; what they record is modelled. Locks are taken to succeed, except that the inventory lock may be
  poisoned. Processes, the network, the user interfaces, the tools and the provider protocols are
  outside the model.
\<close>

end
